(* ===== verification/QTS_Prelude.thy ===== *)
theory QTS_Prelude
  imports Complex_Main "HOL-Library.AList" "HOL-Library.Char_ord" "HOL-Library.List_Lexorder"
    "HOL-Library.Product_Lexorder" "HOL-Library.Log_Nat" "HOL-Library.Multiset"
begin

text \<open>
  Shared vocabulary of the development: the exceptions the code raises, Python strings and
  dictionaries, f-string fragments, and the generic lemmas the component theories use.

  \<^item> \<open>exn\<close>: one constructor per exception class raised by the modelled files. The argument is the
    literal message, or the value the f-string message interpolates.
  \<^item> \<open>'a res\<close> is the result of a call that may raise; \<open>('s, 'a) outcome\<close> is the result of a method
    that mutates its object: the object state is returned on both paths, because Python keeps the
    mutations made before a \<open>raise\<close>.
  \<^item> \<open>('k, 'v) dict\<close> is a Python \<open>dict\<close>: an association list in insertion order. Assigning an
    existing key keeps its position, a new key goes to the end (\<open>AList.update\<close>), \<open>pop\<close> deletes.
  \<^item> identifiers (\<open>qts.core.ids\<close>) are strings; an aware \<open>datetime\<close> is its instant in microseconds
    since the epoch. Naive datetimes, which every constructor rejects, are outside the types.
\<close>

named_theorems ctor_simps \<open>definitions of validating constructors\<close>
named_theorems op_simps \<open>definitions of the operations of a component\<close>

section \<open>Exceptions\<close>

datatype exn =
    ValueError string
  | TypeError string
  | KeyError string
  | RuntimeError string
  | AssertionError
  | IndexError
  | DivisionByZero
  | OrderTransitionError
  | RiskRejectedOrder string
  | OrderLifecycleError string
  | UnknownBrokerOrder string
  | MissingFillPrice string
  | UnsupportedOrderReplace string
  | ActorUnhandledMessageError string
  | ActorAskFailed string
  | ActorAskTimeoutError
  | MailboxTimeoutError
  | RouteNotFoundError
  | LookupError string
  | MissingExecutionPriceError string
  | PermissionError string
  | StopIteration
  | RuntimeCommandNotBound string
  | TimeoutError string

type_synonym 'a res = "exn + 'a"
type_synonym ('s, 'a) outcome = "'a res \<times> 's"

text \<open>The checks of a \<open>__post_init__\<close>, in source order: the first condition that holds raises.\<close>

fun raise_first :: "(bool \<times> exn) list \<Rightarrow> exn option" where
  "raise_first [] = None"
| "raise_first ((b, e) # cs) = (if b then Some e else raise_first cs)"

definition checked :: "(bool \<times> exn) list \<Rightarrow> 'a \<Rightarrow> 'a res" where
  "checked cs v = (case raise_first cs of Some e \<Rightarrow> Inl e | None \<Rightarrow> Inr v)"

definition res_bind :: "'a res \<Rightarrow> ('a \<Rightarrow> 'b res) \<Rightarrow> 'b res" where
  "res_bind r f = (case r of Inl e \<Rightarrow> Inl e | Inr v \<Rightarrow> f v)"

definition obind :: "('s, 'a) outcome \<Rightarrow> ('a \<Rightarrow> 's \<Rightarrow> ('s, 'b) outcome) \<Rightarrow> ('s, 'b) outcome" where
  "obind r f = (case r of (Inl e, s) \<Rightarrow> (Inl e, s) | (Inr v, s) \<Rightarrow> f v s)"

text \<open>A list comprehension whose body may raise: the first exception wins.\<close>

fun res_map :: "('a \<Rightarrow> 'b res) \<Rightarrow> 'a list \<Rightarrow> 'b list res" where
  "res_map f [] = Inr []"
| "res_map f (x # xs) = res_bind (f x) (\<lambda>y. res_bind (res_map f xs) (\<lambda>ys. Inr (y # ys)))"

lemma raise_first_None_iff: "raise_first cs = None \<longleftrightarrow> (\<forall>(b, e) \<in> set cs. \<not> b)"
  by (induction cs rule: raise_first.induct) auto

lemma checked_Inr_iff [simp]: "checked cs v = Inr w \<longleftrightarrow> raise_first cs = None \<and> w = v"
  by (auto simp: checked_def split: option.splits)

lemma checked_Inl_iff [simp]: "checked cs v = Inl e \<longleftrightarrow> raise_first cs = Some e"
  by (auto simp: checked_def split: option.splits)

lemma res_bind_simps [simp]:
  "res_bind (Inl e) f = Inl e" "res_bind (Inr v) f = f v"
  by (simp_all add: res_bind_def)

lemma obind_simps [simp]:
  "obind (Inl e, s) f = (Inl e, s)" "obind (Inr v, s) f = f v s"
  by (simp_all add: obind_def)

lemma snd_obind_return [simp]: "snd (obind r (\<lambda>v s. (Inr (f v), s))) = snd r"
  by (auto simp: obind_def split: prod.splits sum.splits)

lemma obind_Inr_iff: "obind r f = (Inr w, t) \<longleftrightarrow> (\<exists>v s. r = (Inr v, s) \<and> f v s = (Inr w, t))"
  by (auto simp: obind_def split: prod.splits sum.splits)

text \<open>A property of the state that the first call keeps and the continuation keeps.\<close>

lemma obind_state:
  assumes "P (snd r)" and "\<And>v s. r = (Inr v, s) \<Longrightarrow> P s \<Longrightarrow> P (snd (f v s))"
  shows "P (snd (obind r f))"
  using assms by (auto simp: obind_def split: prod.splits sum.splits)

lemma res_bind_Inr_iff: "res_bind r f = Inr w \<longleftrightarrow> (\<exists>v. r = Inr v \<and> f v = Inr w)"
  by (cases r) auto

lemma res_map_Inr_iff: "res_map f xs = Inr ys \<longleftrightarrow> list_all2 (\<lambda>x y. f x = Inr y) xs ys"
  by (induction xs arbitrary: ys)
     (auto simp: res_bind_Inr_iff list_all2_Cons1)

section \<open>Strings\<close>

text \<open>
  \<open>str.strip\<close> on the Latin-1 range (the whitespace characters of Python below 256) and
  \<open>str.upper\<close>, \<open>str.lower\<close> on ASCII letters, other characters being left alone.
\<close>

definition is_space :: "char \<Rightarrow> bool" where
  "is_space c = (let n = of_char c :: nat in
     9 \<le> n \<and> n \<le> 13 \<or> 28 \<le> n \<and> n \<le> 32 \<or> n = 133 \<or> n = 160)"

definition strip :: "string \<Rightarrow> string" where
  "strip s = rev (dropWhile is_space (rev (dropWhile is_space s)))"

definition blank :: "string \<Rightarrow> bool" where
  "blank s = (strip s = [])"

definition upper_char :: "char \<Rightarrow> char" where
  "upper_char c = (let n = of_char c :: nat in if 97 \<le> n \<and> n \<le> 122 then char_of (n - 32) else c)"

definition upper :: "string \<Rightarrow> string" where
  "upper s = map upper_char s"

text \<open>Evaluation with binary integers instead of unary numbers.\<close>

lemma is_space_code [code]:
  "is_space c = (let n = of_char c :: int in 9 \<le> n \<and> n \<le> 13 \<or> 28 \<le> n \<and> n \<le> 32 \<or> n = 133 \<or> n = 160)"
proof -
  have "(of_char c :: int) = int (of_char c)" by (rule of_nat_of_char [symmetric])
  then show ?thesis unfolding is_space_def Let_def by linarith
qed

lemma upper_char_code [code]:
  "upper_char c = (let n = of_char c :: int in if 97 \<le> n \<and> n \<le> 122 then char_of (n - 32) else c)"
proof -
  have n: "(of_char c :: int) = int (of_char c)" by (rule of_nat_of_char [symmetric])
  show ?thesis
  proof (cases "97 \<le> (of_char c :: nat) \<and> (of_char c :: nat) \<le> 122")
    case True
    then have "int (of_char c) - 32 = int (of_char c - 32)" by linarith
    then have "char_of (int (of_char c) - 32) = (char_of (of_char c - 32 :: nat) :: char)"
      by (simp only: char_of_nat)
    with True n show ?thesis by (simp add: upper_char_def Let_def)
  next
    case False
    with n show ?thesis by (auto simp: upper_char_def Let_def)
  qed
qed

lemma blank_iff: "blank s \<longleftrightarrow> (\<forall>c \<in> set s. is_space c)"
proof -
  have "blank s \<longleftrightarrow> (\<forall>c \<in> set (dropWhile is_space s). is_space c)"
    unfolding blank_def strip_def rev_is_Nil_conv dropWhile_eq_Nil_conv set_rev ..
  also have "\<dots> \<longleftrightarrow> (\<forall>c \<in> set s. is_space c)"
    by (induction s) auto
  finally show ?thesis .
qed

lemma blank_Nil [simp]: "blank []"
  by (simp add: blank_iff)

lemma blank_append [simp]: "blank (s @ t) \<longleftrightarrow> blank s \<and> blank t"
  by (auto simp: blank_iff)

lemma blank_Cons [simp]: "blank (c # s) \<longleftrightarrow> is_space c \<and> blank s"
  by (auto simp: blank_iff)

lemma dropWhile_last: "xs \<noteq> [] \<Longrightarrow> \<not> P (last xs) \<Longrightarrow> dropWhile P xs \<noteq> [] \<and> last (dropWhile P xs) = last xs"
  by (induction xs) (auto split: if_splits)

lemma strip_idem [simp]: "strip (strip s) = strip s"
proof (cases "strip s = []")
  case False
  let ?t = "dropWhile is_space s"
  let ?r = "dropWhile is_space (rev ?t)"
  from False have r: "?r \<noteq> []" by (simp add: strip_def)
  then have t: "?t \<noteq> []" by (metis dropWhile.simps(1) rev.simps(1))
  then have "\<not> is_space (last (rev ?t))" by (simp add: last_rev hd_dropWhile)
  with t have "last ?r = last (rev ?t)" using dropWhile_last [of "rev ?t" is_space] by simp
  with t have "\<not> is_space (hd (rev ?r))" by (simp add: hd_rev last_rev hd_dropWhile)
  then have "dropWhile is_space (rev ?r) = rev ?r" using r by (cases "rev ?r") auto
  then show ?thesis by (simp add: strip_def)
next
  case True
  moreover have "strip [] = []" by (simp add: strip_def)
  ultimately show ?thesis by (simp only:)
qed

lemma upper_char_idem [simp]: "upper_char (upper_char c) = upper_char c"
  by (cases "97 \<le> (of_char c :: nat) \<and> (of_char c :: nat) \<le> 122") (auto simp: upper_char_def Let_def)

lemma upper_idem [simp]: "upper (upper s) = upper s"
  by (simp add: upper_def)

lemma is_space_upper_char [simp]: "is_space (upper_char c) = is_space c"
  by (cases "97 \<le> (of_char c :: nat) \<and> (of_char c :: nat) \<le> 122")
     (auto simp: upper_char_def is_space_def Let_def)

lemma strip_upper [simp]: "strip (upper s) = upper (strip s)"
  by (simp add: strip_def upper_def dropWhile_map rev_map comp_def)

section \<open>Text with interpolated values\<close>

text \<open>
  An f-string is kept as its fragments: literal text (\<open>Lit\<close>), an interpolated string (\<open>Str\<close>) or
  an interpolated \<open>Decimal\<close> (\<open>Num\<close>), before rendering.
\<close>

datatype frag = Lit string | Str string | Num rat

type_synonym ftext = "frag list"

section \<open>Dictionaries\<close>

type_synonym ('k, 'v) dict = "('k \<times> 'v) list"

abbreviation dict_keys :: "('k, 'v) dict \<Rightarrow> 'k list" where
  "dict_keys d \<equiv> map fst d"

abbreviation dict_wf :: "('k, 'v) dict \<Rightarrow> bool" where
  "dict_wf d \<equiv> distinct (map fst d)"

definition dict_of :: "('k \<times> 'v) list \<Rightarrow> ('k, 'v) dict" where
  "dict_of ps = foldl (\<lambda>d p. AList.update (fst p) (snd p) d) [] ps"

definition dict_lookup :: "('k, 'v) dict \<Rightarrow> 'k \<Rightarrow> 'v \<Rightarrow> 'v" where
  "dict_lookup d k v = (case map_of d k of None \<Rightarrow> v | Some w \<Rightarrow> w)"

lemma update_append_new: "k \<notin> set (map fst d) \<Longrightarrow> AList.update k v d = d @ [(k, v)]"
  by (induction d) auto

lemma dict_of_distinct_aux:
  "distinct (map fst (d @ ps)) \<Longrightarrow> foldl (\<lambda>d p. AList.update (fst p) (snd p) d) d ps = d @ ps"
proof (induction ps arbitrary: d)
  case (Cons p ps)
  then have "AList.update (fst p) (snd p) d = d @ [p]" by (auto simp: update_append_new)
  with Cons show ?case by simp
qed simp

lemma dict_of_distinct: "dict_wf ps \<Longrightarrow> dict_of ps = ps"
  using dict_of_distinct_aux [of "[]" ps] by (simp add: dict_of_def)

lemma map_of_foldl_update:
  "map_of (foldl (\<lambda>d p. AList.update (fst p) (snd p) d) d ps) = map_of d ++ map_of (rev ps)"
  by (induction ps arbitrary: d) (auto simp: update_conv' map_add_def fun_eq_iff split: option.splits)

lemma map_of_dict_of: "map_of (dict_of ps) = map_of (rev ps)"
  by (simp add: dict_of_def map_of_foldl_update)

lemma dict_wf_update [simp]: "dict_wf d \<Longrightarrow> dict_wf (AList.update k v d)"
  by (rule distinct_update)

lemma dict_wf_delete [simp]: "dict_wf d \<Longrightarrow> dict_wf (AList.delete k d)"
  by (simp add: AList.distinct_delete)

lemma dict_wf_foldl:
  "dict_wf d \<Longrightarrow> dict_wf (foldl (\<lambda>d p. AList.update (fst p) (snd p) d) d ps)"
  by (induction ps arbitrary: d) auto

lemma dict_wf_dict_of [simp]: "dict_wf (dict_of ps)"
  by (simp add: dict_of_def dict_wf_foldl)

declare map_of_eq_Some_iff [simp del] Some_eq_map_of_iff [simp del]

lemmas dict_simps = update_conv' delete_conv' dict_lookup_def

end
