(* ===== verification/Decimal_Arith.thy ===== *)
theory Decimal_Arith
  imports QTS_Prelude
begin

text \<open>
  Python's \<open>decimal.Decimal\<close> under the default context, which is the one the code runs in:
  precision 28, \<open>ROUND_HALF_EVEN\<close>. A finite \<open>Decimal\<close> is modelled by its numerical value
  (a rational): \<open>==\<close>, \<open><\<close> and hashing compare values, and the result of \<open>+ - * /\<close>, unary \<open>-\<close>
  and \<open>abs\<close> is the exact result rounded to 28 significant digits, so its value is a function of
  the operands' values. \<open>min\<close>, \<open>max\<close> and comparisons do not round. NaN, infinities and the
  exponent limits (plus or minus 999999) are outside the type; division by zero is a branch of
  the definitions that divide.

  The lemmas give what the component proofs need of rounding: it is monotone, odd, keeps the sign,
  is the identity on numbers of at most 28 digits, is idempotent and has a relative error of at
  most half a unit in the 28th digit.
\<close>

type_synonym decimal = rat

section \<open>Rounding to the context precision\<close>

text \<open>Round half to even.\<close>

definition half_even :: "rat \<Rightarrow> int" where
  "half_even y =
     (let f = \<lfloor>y\<rfloor>; d = y - of_int f
      in if d < 1 / 2 then f
         else if 1 / 2 < d then f + 1
         else if even f then f else f + 1)"

text \<open>
  The adjusted exponent of a non-zero value: the power of ten of its leading digit, computed from
  the number of decimal digits of an integer quotient (\<open>floorlog 10\<close>).
\<close>

definition adjusted :: "rat \<Rightarrow> int" where
  "adjusted x =
     (case quotient_of \<bar>x\<bar> of (p, q) \<Rightarrow>
        if q \<le> p then int (floorlog 10 (nat (p div q))) - 1
        else - int (floorlog 10 (nat ((q - 1) div p))))"

definition ctx_round :: "rat \<Rightarrow> rat" where
  "ctx_round x =
     (if x = 0 then 0
      else let u = 10 powi (adjusted x - 27) in of_int (half_even (x / u)) * u)"

text \<open>Evaluation of the number of digits with binary integers.\<close>

function int_digits :: "int \<Rightarrow> int" where
  "int_digits n = (if n \<le> 0 then 0 else 1 + int_digits (n div 10))"
  by pat_completeness auto
termination
  by (relation "measure nat") auto

declare int_digits.simps [simp del]

lemma floorlog_digits: "int (floorlog 10 (nat n)) = int_digits n"
proof (induction n rule: int_digits.induct)
  case (1 n)
  show ?case
  proof (cases "n \<le> 0")
    case True
    then show ?thesis using int_digits.simps [of n] by (simp add: floorlog_def)
  next
    case False
    have "nat (n div 10) = nat n div 10" by (simp add: nat_div_distrib)
    with False 1 show ?thesis using int_digits.simps [of n] compute_floorlog [of 10 "nat n"]
      by (auto simp: floorlog_def)
  qed
qed

lemma adjusted_code [code]:
  "adjusted x =
     (case quotient_of \<bar>x\<bar> of (p, q) \<Rightarrow>
        if q \<le> p then int_digits (p div q) - 1 else - int_digits ((q - 1) div p))"
  by (simp only: adjusted_def floorlog_digits)

lemma half_even_of_int: "half_even (of_int k) = k"
  by (simp add: half_even_def)

lemma half_even_cases:
  "half_even y = \<lfloor>y\<rfloor> \<and> y - of_int \<lfloor>y\<rfloor> \<le> 1/2 \<or>
   half_even y = \<lfloor>y\<rfloor> + 1 \<and> 1/2 \<le> y - of_int \<lfloor>y\<rfloor>"
  by (auto simp: half_even_def Let_def)

lemma half_even_error: "\<bar>of_int (half_even y) - y\<bar> \<le> 1 / 2"
proof -
  have "of_int \<lfloor>y\<rfloor> \<le> y" and "y < of_int \<lfloor>y\<rfloor> + 1"
    by linarith+
  with half_even_cases [of y] show ?thesis by auto
qed

lemma half_even_mono: 
  assumes "x \<le> y" shows "half_even x \<le> half_even y"
proof (cases "\<lfloor>x\<rfloor> = \<lfloor>y\<rfloor>")
  case True
  with assms show ?thesis by (auto simp: half_even_def Let_def)
next
  case False
  with assms floor_mono [OF assms] have "\<lfloor>x\<rfloor> + 1 \<le> \<lfloor>y\<rfloor>" by linarith
  moreover have "half_even x \<le> \<lfloor>x\<rfloor> + 1" and "\<lfloor>y\<rfloor> \<le> half_even y"
    using half_even_cases [of x] half_even_cases [of y] by auto
  ultimately show ?thesis by linarith
qed

lemma half_even_minus: "half_even (- y) = - half_even y"
proof (cases "y = of_int \<lfloor>y\<rfloor>")
  case True
  then show ?thesis by (metis half_even_of_int of_int_minus)
next
  case False
  then have "\<lfloor>- y\<rfloor> = - \<lfloor>y\<rfloor> - 1"
    by (metis add.inverse_inverse ceiling_altdef ceiling_def diff_minus_eq_add minus_diff_eq uminus_add_conv_diff)
  then show ?thesis
    by (auto simp: half_even_def Let_def)
qed

lemma half_even_ge: "of_int k \<le> y \<Longrightarrow> k \<le> half_even y"
  using half_even_mono [of "of_int k" y] by (simp add: half_even_of_int)

lemma half_even_le: "y \<le> of_int k \<Longrightarrow> half_even y \<le> k"
  using half_even_mono [of y "of_int k"] by (simp add: half_even_of_int)

lemma floorlog_nat_bounds:
  assumes "0 < (n::nat)"
  shows "10 ^ (floorlog 10 n - 1) \<le> n" "n < 10 ^ floorlog 10 n" "0 < floorlog 10 n"
proof -
  show "10 ^ (floorlog 10 n - 1) \<le> n" "n < 10 ^ floorlog 10 n"
    using floorlog_bounds [of n 10] assms by auto
  show "0 < floorlog 10 n" using assms by (simp add: floorlog_def)
qed


lemma rat_powi_nat: "(10::rat) powi (- int n) = 1 / 10 ^ n"
  by (simp add: power_int_minus field_simps)


lemma le_zdiv_iff:
  assumes "0 < (q::int)" shows "k \<le> p div q \<longleftrightarrow> k * q \<le> p"
proof
  assume "k \<le> p div q"
  then have "k * q \<le> p div q * q" using assms by simp
  also have "\<dots> \<le> p" using pos_mod_sign [OF assms, of p] by (simp flip: minus_mod_eq_div_mult)
  finally show "k * q \<le> p" .
next
  assume "k * q \<le> p"
  from zdiv_mono1 [OF this assms] assms show "k \<le> p div q" by simp
qed

lemma of_int_scale:
  "(10::int) ^ k * a \<le> b \<Longrightarrow> (10::rat) ^ k * of_int a \<le> of_int b"
  "a < (10::int) ^ k * b \<Longrightarrow> of_int a < (10::rat) ^ k * of_int b"
  "(10::int) ^ k * a < b \<Longrightarrow> (10::rat) ^ k * of_int a < of_int b"
  "a \<le> (10::int) ^ k * b \<Longrightarrow> of_int a \<le> (10::rat) ^ k * of_int b"
  by (simp_all flip: of_int_le_iff [where 'a = rat] of_int_less_iff [where 'a = rat])

lemma floorlog_int_bounds:
  assumes "0 < (m::int)" and "k = floorlog 10 (nat m)"
  shows "10 ^ (k - 1) \<le> m" "m < 10 ^ k" "0 < k"
proof -
  have n: "0 < nat m" using assms by simp
  note b = floorlog_nat_bounds [OF n, folded assms(2)]
  from b(1) assms(1) show "10 ^ (k - 1) \<le> m" by (simp add: le_nat_iff)
  from b(2) assms(1) show "m < 10 ^ k" by (simp add: nat_less_iff)
  from b(3) show "0 < k" .
qed

lemma adjusted_bounds_ge_1:
  assumes q: "0 < q" and qp: "q \<le> p" and k: "k = floorlog 10 (nat (p div q))"
  shows "(10::rat) powi (int k - 1) \<le> of_int p / of_int q \<and> of_int p / of_int q < (10::rat) powi int k"
proof -
  have m: "0 < p div q" using q qp by (simp add: pos_imp_zdiv_pos_iff)
  note b = floorlog_int_bounds [OF m k]
  from b(1) q have "10 ^ (k - 1) * q \<le> p" by (simp add: le_zdiv_iff)
  then have "(10::rat) ^ (k - 1) * of_int q \<le> of_int p" by (rule of_int_scale)
  moreover from b(2) q have "p < 10 ^ k * q" using le_zdiv_iff [of q "10 ^ k" p] by linarith
  then have "of_int p < (10::rat) ^ k * of_int q" by (rule of_int_scale)
  ultimately have "(10::rat) ^ (k - 1) \<le> of_int p / of_int q" "of_int p / of_int q < (10::rat) ^ k"
    using q by (simp_all add: pos_le_divide_eq pos_divide_less_eq)
  moreover have "(10::rat) powi (int k - 1) = 10 ^ (k - 1)"
    using b(3) by (simp add: power_int_def nat_diff_distrib)
  ultimately show ?thesis by simp
qed

lemma adjusted_bounds_less_1:
  assumes p: "0 < p" and pq: "p < q" and k: "k = floorlog 10 (nat ((q - 1) div p))"
  shows "(10::rat) powi (- int k) \<le> of_int p / of_int q \<and> of_int p / of_int q < (10::rat) powi (1 - int k)"
proof -
  have m: "0 < (q - 1) div p" using p pq by (simp add: pos_imp_zdiv_pos_iff)
  note b = floorlog_int_bounds [OF m k]
  from b(1) p have "10 ^ (k - 1) * p < q" by (simp add: le_zdiv_iff)
  moreover from b(2) p have "q \<le> 10 ^ k * p" using le_zdiv_iff [of p "10 ^ k" "q - 1"] by linarith
  ultimately have "(10::rat) ^ (k - 1) * of_int p < of_int q" "of_int q \<le> (10::rat) ^ k * of_int p"
    by (simp_all add: of_int_scale)
  then have "1 / (10::rat) ^ k \<le> of_int p / of_int q" "of_int p / of_int q < 1 / (10::rat) ^ (k - 1)"
    using p pq by (simp_all add: field_simps)
  moreover have "(10::rat) powi (1 - int k) = 1 / 10 ^ (k - 1)"
    using b(3) rat_powi_nat [of "k - 1"] by (simp add: of_nat_diff)
  ultimately show ?thesis by (simp only: rat_powi_nat)
qed

lemma adjusted_bounds:
  assumes "x \<noteq> 0"
  shows "10 powi adjusted x \<le> \<bar>x\<bar> \<and> \<bar>x\<bar> < 10 powi (adjusted x + 1)"
proof -
  obtain p q where pq: "quotient_of \<bar>x\<bar> = (p, q)" by (cases "quotient_of \<bar>x\<bar>") 
  then have q: "0 < q" and xpq: "\<bar>x\<bar> = of_int p / of_int q"
    using quotient_of_denom_pos quotient_of_div by blast+
  have "0 < of_int p / (of_int q :: rat)" using assms by (simp flip: xpq)
  with q have p: "0 < p" by (simp add: zero_less_divide_iff)
  show ?thesis
  proof (cases "q \<le> p")
    case True
    with pq have "adjusted x = int (floorlog 10 (nat (p div q))) - 1"
      by (simp add: adjusted_def)
    with adjusted_bounds_ge_1 [OF q True refl] xpq show ?thesis by simp
  next
    case False
    with pq have "adjusted x = - int (floorlog 10 (nat ((q - 1) div p)))"
      by (simp add: adjusted_def)
    with adjusted_bounds_less_1 [OF p _ refl, of q] False xpq show ?thesis by simp
  qed
qed

lemma ten_powi_le_cancel: "(10::rat) powi a < 10 powi b \<Longrightarrow> a < b"
  by (metis linorder_not_less one_le_numeral power_int_increasing)

lemma adjusted_unique:
  assumes "10 powi e \<le> \<bar>x\<bar>" and "\<bar>x\<bar> < 10 powi (e + 1)"
  shows "adjusted x = e"
proof -
  have "0 < (10::rat) powi e" by simp
  with assms(1) have "0 < \<bar>x\<bar>" by linarith
  then have "x \<noteq> 0" by simp
  note b = adjusted_bounds [OF this]
  from assms b have "(10::rat) powi e < 10 powi (adjusted x + 1)" by linarith
  moreover from assms b have "(10::rat) powi adjusted x < 10 powi (e + 1)" by linarith
  ultimately show ?thesis by (auto dest!: ten_powi_le_cancel)
qed

lemma adjusted_minus [simp]: "adjusted (- x) = adjusted x"
  by (simp add: adjusted_def)

lemma adjusted_mono:
  assumes "0 < x" and "x \<le> y" shows "adjusted x \<le> adjusted y"
proof -
  from assms adjusted_bounds [of x] adjusted_bounds [of y]
  have "(10::rat) powi adjusted x < 10 powi (adjusted y + 1)" by auto
  then show ?thesis by (auto dest!: ten_powi_le_cancel)
qed

lemma ctx_round_0 [simp]: "ctx_round 0 = 0"
  by (simp add: ctx_round_def)

lemma ctx_round_minus [simp]: "ctx_round (- x) = - ctx_round x"
  using half_even_minus [of "x / 10 powi (adjusted x - 27)"] by (simp add: ctx_round_def Let_def)

lemma ctx_round_between:
  assumes "0 < x"
  shows "10 powi adjusted x \<le> ctx_round x \<and> ctx_round x \<le> 10 powi (adjusted x + 1)"
proof -
  define u :: rat where "u = 10 powi (adjusted x - 27)"
  have u: "0 < u" by (simp add: u_def)
  have s: "(10::rat) powi adjusted x = of_int (10 ^ 27) * u" "(10::rat) powi (adjusted x + 1) = of_int (10 ^ 28) * u"
    by (simp_all add: u_def power_int_diff power_int_add)
  from adjusted_bounds [of x] assms
  have "of_int (10 ^ 27) \<le> x / u" "x / u \<le> of_int (10 ^ 28)"
    using u unfolding s by (simp_all add: pos_le_divide_eq pos_divide_le_eq)
  then have "10 ^ 27 \<le> half_even (x / u)" "half_even (x / u) \<le> 10 ^ 28"
    using half_even_ge [of "10 ^ 27" "x / u"] half_even_le [of "x / u" "10 ^ 28"] by simp_all
  then have "of_int (10 ^ 27) * u \<le> of_int (half_even (x / u)) * u" "of_int (half_even (x / u)) * u \<le> of_int (10 ^ 28) * u"
    using u by (simp_all only: mult_le_cancel_right_pos of_int_le_iff)
  then show ?thesis using assms unfolding s by (simp add: ctx_round_def u_def Let_def)
qed

lemma ctx_round_pos: "0 < x \<Longrightarrow> 0 < ctx_round x"
  using ctx_round_between [of x] by (meson less_le_trans zero_less_numeral zero_less_power_int)

lemma ctx_round_mono_pos:
  assumes "0 < x" and "x \<le> y" shows "ctx_round x \<le> ctx_round y"
proof (cases "adjusted x = adjusted y")
  case True
  then show ?thesis using assms
    by (auto simp: ctx_round_def Let_def intro!: mult_right_mono half_even_mono divide_right_mono)
next
  case False
  with adjusted_mono [OF assms] have "adjusted x + 1 \<le> adjusted y" by simp
  then have "(10::rat) powi (adjusted x + 1) \<le> 10 powi adjusted y"
    by (simp add: power_int_increasing)
  with ctx_round_between [of x] ctx_round_between [of y] assms show ?thesis by linarith
qed

lemma ctx_round_neg: "x < 0 \<Longrightarrow> ctx_round x < 0"
  using ctx_round_pos [of "- x"] by simp

lemma ctx_round_mono:
  assumes "x \<le> y" shows "ctx_round x \<le> ctx_round y"
proof -
  consider "0 < x" | "y < 0" | "x \<le> 0" "0 \<le> y" by linarith
  then show ?thesis
  proof cases
    case 1 then show ?thesis using assms by (rule ctx_round_mono_pos)
  next
    case 2 then show ?thesis using assms ctx_round_mono_pos [of "- y" "- x"] by simp
  next
    case 3
    have "ctx_round x \<le> 0" using 3(1) ctx_round_neg [of x] by (cases "x = 0") auto
    also have "0 \<le> ctx_round y" using 3(2) ctx_round_pos [of y] by (cases "y = 0") auto
    finally show ?thesis .
  qed
qed

lemma ctx_round_eq_0_iff [simp]: "ctx_round x = 0 \<longleftrightarrow> x = 0"
  using ctx_round_pos [of x] ctx_round_neg [of x] by (cases "0 < x"; cases "x < 0") auto

lemma ctx_round_pos_iff [simp]: "0 < ctx_round x \<longleftrightarrow> 0 < x"
  using ctx_round_mono [of x 0] ctx_round_pos [of x] by (cases "0 < x") auto

lemma ctx_round_neg_iff [simp]: "ctx_round x < 0 \<longleftrightarrow> x < 0"
  using ctx_round_pos_iff [of "- x"] by simp

lemma ctx_round_nonneg_iff [simp]: "0 \<le> ctx_round x \<longleftrightarrow> 0 \<le> x"
  by (simp add: not_less [symmetric])

lemma ctx_round_nonpos_iff [simp]: "ctx_round x \<le> 0 \<longleftrightarrow> x \<le> 0"
  by (simp add: not_less [symmetric])

lemma ctx_round_abs: "ctx_round \<bar>x\<bar> = \<bar>ctx_round x\<bar>"
  by (cases "0 \<le> x") (simp_all add: abs_if)

definition rep28 :: "rat \<Rightarrow> bool" where
  "rep28 x \<longleftrightarrow> (\<exists>m e. \<bar>m\<bar> < 10 ^ 28 \<and> x = of_int m * 10 powi e)"

lemma ctx_round_exact_pos:
  assumes m: "0 < m" "m < 10 ^ 28" and x: "x = of_int m * 10 powi e"
  shows "ctx_round x = x"
proof -
  have x0: "0 < x" using m by (simp add: x)
  have "of_int m * (10::rat) powi e < 10 powi 28 * 10 powi e"
  proof (rule mult_strict_right_mono)
    have "of_int m < (of_int (10 ^ 28) :: rat)" using m(2) by (simp only: of_int_less_iff)
    then show "of_int m < (10::rat) powi 28" by simp
  qed simp
  then have "x < 10 powi (e + 28)" by (simp add: x power_int_add mult.commute)
  with adjusted_bounds [of x] x0 have "(10::rat) powi adjusted x < 10 powi (e + 28)" by auto
  then have "0 \<le> e - (adjusted x - 27)" by (auto dest!: ten_powi_le_cancel)
  then obtain n where n: "e = int n + (adjusted x - 27)"
    by (metis diff_add_cancel nonneg_int_cases)
  define u :: rat where "u = 10 powi (adjusted x - 27)"
  have eq: "x = of_int (m * 10 ^ n) * u"
    by (subst x, subst n) (simp add: power_int_add u_def)
  have "u \<noteq> 0" by (simp add: u_def)
  then have "x / u = of_int (m * 10 ^ n)" using eq by (metis nonzero_mult_div_cancel_right)
  then have h: "half_even (x / u) = m * 10 ^ n" by (simp only: half_even_of_int)
  have "ctx_round x = of_int (half_even (x / u)) * u"
    using x0 by (simp add: ctx_round_def Let_def u_def)
  also have "\<dots> = x" unfolding h by (rule eq [symmetric])
  finally show ?thesis .
qed

lemma ctx_round_exact: "rep28 x \<Longrightarrow> ctx_round x = x"
proof -
  assume "rep28 x"
  then obtain m e where m: "\<bar>m\<bar> < 10 ^ 28" and x: "x = of_int m * 10 powi e" by (auto simp: rep28_def)
  consider "m = 0" | "0 < m" | "m < 0" by linarith
  then show ?thesis
  proof cases
    case 1 then show ?thesis by (simp add: x)
  next
    case 2 then show ?thesis using ctx_round_exact_pos [OF _ _ x] m by simp
  next
    case 3
    have "ctx_round (- x) = - x"
      using ctx_round_exact_pos [of "- m" "- x" e] 3 m by (simp add: x)
    then show ?thesis by simp
  qed
qed

lemma rep28_minus: "rep28 x \<Longrightarrow> rep28 (- x)"
  unfolding rep28_def by (metis abs_minus_cancel mult_minus_left of_int_minus)

lemma rep28_ten_powi: "rep28 (10 powi e)"
  unfolding rep28_def by (rule exI [of _ 1], rule exI [of _ e]) simp

lemma rep28_ctx_round_pos:
  assumes "0 < x" shows "rep28 (ctx_round x)"
proof -
  define u :: rat where "u = 10 powi (adjusted x - 27)"
  define h where "h = half_even (x / u)"
  have u: "0 < u" by (simp add: u_def)
  have r: "ctx_round x = of_int h * u" using assms by (simp add: ctx_round_def Let_def u_def h_def)
  have "ctx_round x \<le> of_int (10 ^ 28) * u"
    using ctx_round_between [OF assms] by (simp add: u_def power_int_diff power_int_add)
  then have "h \<le> 10 ^ 28" using u unfolding r by (simp only: mult_le_cancel_right_pos of_int_le_iff)
  moreover have "0 < h" using ctx_round_pos [OF assms] u unfolding r by (simp add: zero_less_mult_iff)
  ultimately consider "h = 10 ^ 28" | "\<bar>h\<bar> < 10 ^ 28" by linarith
  then show ?thesis
  proof cases
    case 1
    then have "ctx_round x = 10 powi (adjusted x + 1)" unfolding r
      by (simp add: u_def power_int_diff power_int_add)
    then show ?thesis by (simp add: rep28_ten_powi)
  next
    case 2
    then show ?thesis unfolding r rep28_def u_def by blast
  qed
qed

lemma rep28_0: "rep28 0"
  unfolding rep28_def by (rule exI [of _ 0]) simp

lemma rep28_ctx_round: "rep28 (ctx_round x)"
  using rep28_ctx_round_pos [of x] rep28_minus [OF rep28_ctx_round_pos [of "- x"]] rep28_0
  by (cases "0 < x"; cases "x = 0") auto

lemma rep28_of_int: "\<bar>m\<bar> < 10 ^ 28 \<Longrightarrow> rep28 (of_int m)"
  unfolding rep28_def by (metis mult.right_neutral power_int_0_right)

lemma ctx_round_idem [simp]: "ctx_round (ctx_round x) = ctx_round x"
  by (simp add: ctx_round_exact rep28_ctx_round)

lemma ctx_round_error: "\<bar>ctx_round x - x\<bar> \<le> \<bar>x\<bar> / (2 * 10 ^ 27)"
proof (cases "x = 0")
  case False
  define u :: rat where "u = 10 powi (adjusted x - 27)"
  have u: "0 < u" by (simp add: u_def)
  have "ctx_round x - x = (of_int (half_even (x / u)) - x / u) * u"
    using False u by (simp add: ctx_round_def Let_def u_def left_diff_distrib)
  then have "\<bar>ctx_round x - x\<bar> \<le> 1 / 2 * u"
    using half_even_error [of "x / u"] u by (simp add: abs_mult)
  also have "10 ^ 27 * u \<le> \<bar>x\<bar>"
    using adjusted_bounds [OF False] by (simp add: u_def power_int_diff)
  then have "1 / 2 * u \<le> \<bar>x\<bar> / (2 * 10 ^ 27)" by simp
  finally show ?thesis .
qed simp

lemma ctx_round_numeral [simp]: "(numeral k::int) < 10 ^ 28 \<Longrightarrow> ctx_round (numeral k) = numeral k"
  using ctx_round_exact [OF rep28_of_int [of "numeral k"]] by simp

lemma ctx_round_1 [simp]: "ctx_round 1 = 1"
  using ctx_round_exact [OF rep28_of_int [of 1]] by simp

section \<open>Decimal operations\<close>

named_theorems dec_simps \<open>definitions of the decimal operations\<close>

definition dadd :: "decimal \<Rightarrow> decimal \<Rightarrow> decimal" where
  [dec_simps]: "dadd x y = ctx_round (x + y)"

definition dsub :: "decimal \<Rightarrow> decimal \<Rightarrow> decimal" where
  [dec_simps]: "dsub x y = ctx_round (x - y)"

definition dmul :: "decimal \<Rightarrow> decimal \<Rightarrow> decimal" where
  [dec_simps]: "dmul x y = ctx_round (x * y)"

definition ddiv :: "decimal \<Rightarrow> decimal \<Rightarrow> decimal" where
  [dec_simps]: "ddiv x y = ctx_round (x / y)"

definition dneg :: "decimal \<Rightarrow> decimal" where
  [dec_simps]: "dneg x = ctx_round (- x)"

definition dabs :: "decimal \<Rightarrow> decimal" where
  [dec_simps]: "dabs x = ctx_round \<bar>x\<bar>"

text \<open>\<open>sum(xs, Decimal("0"))\<close>: a left fold that rounds at every step.\<close>

definition dsum :: "decimal list \<Rightarrow> decimal" where
  "dsum xs = foldl dadd 0 xs"

text \<open>\<open>x % y\<close>: the remainder of the division truncated towards zero.\<close>

definition dmod :: "decimal \<Rightarrow> decimal \<Rightarrow> decimal" where
  [dec_simps]: "dmod x y = ctx_round (x - y * (if 0 \<le> x / y then of_int \<lfloor>x / y\<rfloor> else of_int \<lceil>x / y\<rceil>))"

text \<open>\<open>to_integral_value\<close> with \<open>ROUND_FLOOR\<close>, \<open>ROUND_HALF_UP\<close> and the default \<open>ROUND_HALF_EVEN\<close>.\<close>

definition integral_floor :: "decimal \<Rightarrow> decimal" where
  "integral_floor x = of_int \<lfloor>x\<rfloor>"

definition integral_half_up :: "decimal \<Rightarrow> decimal" where
  "integral_half_up x = (if 0 \<le> x then of_int \<lfloor>x + 1 / 2\<rfloor> else - of_int \<lfloor>- x + 1 / 2\<rfloor>)"

definition integral_half_even :: "decimal \<Rightarrow> decimal" where
  "integral_half_even x = of_int (half_even x)"

lemma dec_rep28: "rep28 (dadd x y)" "rep28 (dsub x y)" "rep28 (dmul x y)" "rep28 (ddiv x y)"
    "rep28 (dneg x)" "rep28 (dabs x)"
  by (simp_all add: dec_simps rep28_ctx_round del: ctx_round_minus)

lemma dec_sign_simps [simp]:
  "0 < dmul x y \<longleftrightarrow> 0 < x * y" "dmul x y < 0 \<longleftrightarrow> x * y < 0"
  "0 \<le> dmul x y \<longleftrightarrow> 0 \<le> x * y" "dmul x y = 0 \<longleftrightarrow> x = 0 \<or> y = 0"
  "0 < dadd x y \<longleftrightarrow> 0 < x + y" "dadd x y < 0 \<longleftrightarrow> x + y < 0" "dadd x y = 0 \<longleftrightarrow> x + y = 0"
  "0 \<le> dadd x y \<longleftrightarrow> 0 \<le> x + y"
  "0 < dsub x y \<longleftrightarrow> y < x" "dsub x y < 0 \<longleftrightarrow> x < y" "dsub x y = 0 \<longleftrightarrow> x = y" "0 \<le> dsub x y \<longleftrightarrow> y \<le> x"
  "0 \<le> dabs x" "dabs x = 0 \<longleftrightarrow> x = 0" "0 < dabs x \<longleftrightarrow> x \<noteq> 0"
  "0 < dneg x \<longleftrightarrow> x < 0" "dneg x < 0 \<longleftrightarrow> 0 < x" "dneg x = 0 \<longleftrightarrow> x = 0" "0 \<le> dneg x \<longleftrightarrow> x \<le> 0"
  by (auto simp: dec_simps)

lemma dec_sign_le_simps [simp]:
  "dmul x y \<le> 0 \<longleftrightarrow> x * y \<le> 0" "dadd x y \<le> 0 \<longleftrightarrow> x + y \<le> 0" "dsub x y \<le> 0 \<longleftrightarrow> x \<le> y"
  by (simp_all add: not_less [symmetric])

lemma dec_mono:
  "a \<le> b \<Longrightarrow> c \<le> d \<Longrightarrow> dadd a c \<le> dadd b d"
  "a \<le> b \<Longrightarrow> 0 \<le> c \<Longrightarrow> dmul a c \<le> dmul b c"
  "a \<le> b \<Longrightarrow> 0 \<le> c \<Longrightarrow> dmul c a \<le> dmul c b"
  by (auto simp: dec_simps intro!: ctx_round_mono mult_right_mono mult_left_mono)

lemma dec_zero [simp]: "dmul 0 x = 0" "dmul x 0 = 0" "dabs 0 = 0" "dneg 0 = 0"
  by (simp_all add: dec_simps)

lemma dabs_dmul: "dabs (dmul x y) = \<bar>dmul x y\<bar>"
  by (simp add: dabs_def ctx_round_abs) (simp add: dmul_def)

text \<open>The triangle inequality survives rounding.\<close>

lemma dadd_abs_le: "\<bar>a\<bar> \<le> b \<Longrightarrow> \<bar>c\<bar> \<le> d \<Longrightarrow> \<bar>dadd a c\<bar> \<le> dadd b d"
  unfolding dadd_def ctx_round_abs [symmetric] by (rule ctx_round_mono) linarith

subsection \<open>Exact arithmetic on a decimal grid\<close>

text \<open>
  \<open>on_grid e n x\<close>: \<open>x\<close> is an integer multiple of \<open>10 powi e\<close> of at most \<open>n\<close> steps. Sums of grid
  values stay on the grid, and as long as the number of steps is below \<open>10 ^ 28\<close> the context
  rounding changes nothing.
\<close>

definition on_grid :: "int \<Rightarrow> int \<Rightarrow> decimal \<Rightarrow> bool" where
  "on_grid e n x \<longleftrightarrow> (\<exists>m. \<bar>m\<bar> \<le> n \<and> x = of_int m * 10 powi e)"

lemma on_grid_rep28: "on_grid e n x \<Longrightarrow> n < 10 ^ 28 \<Longrightarrow> rep28 x"
  unfolding on_grid_def rep28_def using le_less_trans by (elim exE) (intro exI, auto)

lemma on_grid_exact: "on_grid e n x \<Longrightarrow> n < 10 ^ 28 \<Longrightarrow> ctx_round x = x"
  by (blast intro: ctx_round_exact on_grid_rep28)

lemma on_grid_0 [simp]: "0 \<le> n \<Longrightarrow> on_grid e n 0"
  unfolding on_grid_def by (rule exI [of _ 0]) simp

lemma on_grid_minus [simp]: "on_grid e n (- x) \<longleftrightarrow> on_grid e n x"
  unfolding on_grid_def by (metis abs_minus_cancel minus_minus mult_minus_left of_int_minus)

lemma on_grid_abs [simp]: "on_grid e n \<bar>x\<bar> \<longleftrightarrow> on_grid e n x"
  by (simp add: abs_if)

lemma on_grid_mono: "on_grid e n x \<Longrightarrow> n \<le> m \<Longrightarrow> on_grid e m x"
  unfolding on_grid_def using order_trans by blast

lemma on_grid_add:
  assumes "on_grid e a x" and "on_grid e b y"
  shows "on_grid e (a + b) (x + y)"
proof -
  from assms obtain m n where "\<bar>m\<bar> \<le> a" "x = of_int m * 10 powi e" "\<bar>n\<bar> \<le> b" "y = of_int n * 10 powi e"
    unfolding on_grid_def by blast
  then show ?thesis unfolding on_grid_def
    by (intro exI [of _ "m + n"]) (auto simp: distrib_right)
qed

lemma on_grid_between:
  assumes "on_grid e a x" and "on_grid e b y" and "\<bar>x\<bar> \<le> \<bar>y\<bar>"
  shows "on_grid e b x"
proof -
  from assms(1,2) obtain m n where m: "x = of_int m * 10 powi e"
    and n: "\<bar>n\<bar> \<le> b" "y = of_int n * 10 powi e"
    unfolding on_grid_def by blast
  have "0 < (10::rat) powi e" by simp
  with assms(3) m n(2) have "\<bar>of_int m :: rat\<bar> \<le> \<bar>of_int n\<bar>"
    by (simp add: abs_mult)
  then have "\<bar>m\<bar> \<le> \<bar>n\<bar>" by (metis of_int_abs of_int_le_iff)
  with m n show ?thesis unfolding on_grid_def by (intro exI [of _ m]) auto
qed

lemma on_grid_of_int: "\<bar>k\<bar> \<le> n \<Longrightarrow> on_grid 0 n (of_int k)"
  unfolding on_grid_def by (intro exI [of _ k]) simp

end
