(* ===== verification/Domain_Model.thy ===== *)
theory Domain_Model
  imports Decimal_Arith
begin

text \<open>
  The value objects of \<open>qts.domain\<close> and \<open>qts.core\<close>: order specifications and intents, execution
  reports, fills, position sides, contract specifications, cost and timing models, market bars,
  risk requests and risk decisions. Each dataclass is a record with a field prefix, each enum a
  datatype, and each \<open>__post_init__\<close> a validating constructor \<open>mk_...\<close> that returns \<open>Inl\<close> of
  the exception it raises.
\<close>

section \<open>Identifiers and time intervals (\<open>core/ids.py\<close>, \<open>core/time.py\<close>)\<close>

type_synonym account_id = string
type_synonym strategy_id = string
type_synonym instrument_id = string
type_synonym order_id = string
type_synonym broker_id = string
type_synonym instant = int

definition mk_string_id :: "string \<Rightarrow> string res" where
  [ctor_simps]: "mk_string_id v = checked [(blank v, ValueError ''must not be empty'')] v"

record time_interval =
  ti_start :: instant
  ti_end :: instant

definition mk_time_interval :: "instant \<Rightarrow> instant \<Rightarrow> time_interval res" where
  [ctor_simps]: "mk_time_interval s e =
     checked [(s \<ge> e, ValueError ''start must be before end'')] \<lparr>ti_start = s, ti_end = e\<rparr>"

definition ti_duration :: "time_interval \<Rightarrow> int" where
  "ti_duration i = ti_end i - ti_start i"

definition ti_contains :: "time_interval \<Rightarrow> instant \<Rightarrow> bool" where
  "ti_contains i t \<longleftrightarrow> ti_start i \<le> t \<and> t < ti_end i"

section \<open>Position sides (\<open>domain/positions.py\<close>)\<close>

datatype position_side = LONG | SHORT

fun side_sign :: "position_side \<Rightarrow> decimal" where
  "side_sign LONG = 1"
| "side_sign SHORT = -1"

definition from_quantity :: "decimal \<Rightarrow> position_side option" where
  "from_quantity q = (if q > 0 then Some LONG else if q < 0 then Some SHORT else None)"

definition same_for_quantities :: "decimal \<Rightarrow> decimal \<Rightarrow> bool" where
  "same_for_quantities l r \<longleftrightarrow> from_quantity l \<noteq> None \<and> from_quantity l = from_quantity r"

fun opposite :: "position_side \<Rightarrow> position_side" where
  "opposite LONG = SHORT"
| "opposite SHORT = LONG"

lemma same_for_quantities_iff: "same_for_quantities l r \<longleftrightarrow> 0 < l * r"
  by (auto simp: same_for_quantities_def from_quantity_def zero_less_mult_iff split: if_splits)

lemma from_quantity_Some_iff [simp]:
  "from_quantity q = Some LONG \<longleftrightarrow> 0 < q" "from_quantity q = Some SHORT \<longleftrightarrow> q < 0"
  "from_quantity q = None \<longleftrightarrow> q = 0"
  by (auto simp: from_quantity_def)

section \<open>Order specifications (\<open>domain/orders/order_spec.py\<close>)\<close>

datatype order_type =
  MARKET | LIMIT | STOP | STOP_LIMIT | TRAILING_STOP | MARKET_ON_OPEN | MARKET_ON_CLOSE
| BRACKET | ICEBERG

datatype time_in_force = DAY | GTC | IOC | FOK | GTD | OPG | ATC

datatype order_side = BUY | SELL

fun order_type_value :: "order_type \<Rightarrow> string" where
  "order_type_value MARKET = ''market''"
| "order_type_value LIMIT = ''limit''"
| "order_type_value STOP = ''stop''"
| "order_type_value STOP_LIMIT = ''stop_limit''"
| "order_type_value TRAILING_STOP = ''trailing_stop''"
| "order_type_value MARKET_ON_OPEN = ''market_on_open''"
| "order_type_value MARKET_ON_CLOSE = ''market_on_close''"
| "order_type_value BRACKET = ''bracket''"
| "order_type_value ICEBERG = ''iceberg''"

fun tif_value :: "time_in_force \<Rightarrow> string" where
  "tif_value DAY = ''day''"
| "tif_value GTC = ''gtc''"
| "tif_value IOC = ''ioc''"
| "tif_value FOK = ''fok''"
| "tif_value GTD = ''gtd''"
| "tif_value OPG = ''opg''"
| "tif_value ATC = ''atc''"

fun side_value :: "order_side \<Rightarrow> string" where
  "side_value BUY = ''buy''"
| "side_value SELL = ''sell''"

record bracket_leg =
  leg_order_type :: order_type
  leg_side :: order_side
  leg_quantity :: decimal
  leg_limit_price :: "decimal option"
  leg_stop_price :: "decimal option"

record order_spec =
  os_order_type :: order_type
  os_time_in_force :: time_in_force
  os_limit_price :: "decimal option"
  os_stop_price :: "decimal option"
  os_trail_amount :: "decimal option"
  os_trail_percent :: "decimal option"
  os_good_til_date :: "instant option"
  os_bracket :: "bracket_leg list option"

definition negative_price :: "decimal option \<Rightarrow> bool" where
  "negative_price v = (case v of None \<Rightarrow> False | Some x \<Rightarrow> x < 0)"

text \<open>\<open>_validate_optional_price(value, name)\<close> as one entry of a check list.\<close>

definition validate_optional_price :: "decimal option \<Rightarrow> string \<Rightarrow> bool \<times> exn" where
  "validate_optional_price v name = (negative_price v, ValueError (name @ '' must be non-negative''))"

definition mk_bracket_leg :: "bracket_leg \<Rightarrow> bracket_leg res" where
  [ctor_simps]: "mk_bracket_leg l = checked
     [(leg_quantity l \<le> 0, ValueError ''bracket leg quantity must be positive''),
      validate_optional_price (leg_limit_price l) ''limit_price'',
      validate_optional_price (leg_stop_price l) ''stop_price''] l"

definition mk_bracket_spec :: "bracket_leg list \<Rightarrow> bracket_leg list res" where
  [ctor_simps]: "mk_bracket_spec legs = checked
     [(length legs < 2, ValueError ''bracket orders require at least two legs'')] legs"

definition default_order_spec :: order_spec where
  "default_order_spec = \<lparr>os_order_type = MARKET, os_time_in_force = DAY, os_limit_price = None,
     os_stop_price = None, os_trail_amount = None, os_trail_percent = None,
     os_good_til_date = None, os_bracket = None\<rparr>"

definition validate_shape_checks :: "order_spec \<Rightarrow> (bool \<times> exn) list" where
  "validate_shape_checks s =
     [(os_order_type s = MARKET \<and>
         (os_limit_price s \<noteq> None \<or> os_stop_price s \<noteq> None \<or> os_trail_amount s \<noteq> None \<or>
          os_trail_percent s \<noteq> None \<or> os_bracket s \<noteq> None),
       ValueError ''market orders cannot carry price, trailing, or bracket fields''),
      (os_order_type s = LIMIT \<and> os_limit_price s = None,
       ValueError ''limit_price is required for limit orders''),
      (os_order_type s = STOP \<and> os_stop_price s = None,
       ValueError ''stop_price is required for stop orders''),
      (os_order_type s = STOP_LIMIT \<and> (os_stop_price s = None \<or> os_limit_price s = None),
       ValueError ''stop_limit orders require stop_price and limit_price''),
      (os_order_type s = TRAILING_STOP \<and> os_trail_amount s = None \<and> os_trail_percent s = None,
       ValueError ''trailing_stop orders require trail_amount or trail_percent''),
      (os_order_type s = BRACKET \<and> os_bracket s = None,
       ValueError ''bracket orders require bracket legs'')]"

definition mk_order_spec :: "order_spec \<Rightarrow> order_spec res" where
  [ctor_simps]: "mk_order_spec s = checked
     ([validate_optional_price (os_limit_price s) ''limit_price'',
       validate_optional_price (os_stop_price s) ''stop_price'',
       validate_optional_price (os_trail_amount s) ''trail_amount'',
       (case os_trail_percent s of None \<Rightarrow> False | Some p \<Rightarrow> p \<le> 0 \<or> p > 100,
        ValueError ''trail_percent must be in (0, 100]'')] @
      validate_shape_checks s) s"

text \<open>Evidence payloads: the JSON-like values the code collects. \<open>EvNum\<close> is a \<open>Decimal\<close>,
  \<open>EvNumStr\<close> the text of one (\<open>str(value)\<close>).\<close>

datatype evidence =
    EvNone
  | EvBool bool
  | EvStr string
  | EvNum decimal
  | EvNumStr decimal
  | EvTime instant
  | EvList "evidence list"
  | EvDict "(string \<times> evidence) list"

definition opt_num_str :: "decimal option \<Rightarrow> evidence" where
  "opt_num_str v = (case v of None \<Rightarrow> EvNone | Some x \<Rightarrow> EvNumStr x)"

definition order_spec_to_payload :: "order_spec \<Rightarrow> (string, evidence) dict" where
  "order_spec_to_payload s =
     [(''order_type'', EvStr (order_type_value (os_order_type s))),
      (''time_in_force'', EvStr (tif_value (os_time_in_force s))),
      (''limit_price'', opt_num_str (os_limit_price s)),
      (''stop_price'', opt_num_str (os_stop_price s)),
      (''trail_amount'', opt_num_str (os_trail_amount s)),
      (''trail_percent'', opt_num_str (os_trail_percent s)),
      (''good_til_date'', case os_good_til_date s of None \<Rightarrow> EvNone | Some t \<Rightarrow> EvTime t)] @
     (case os_bracket s of None \<Rightarrow> []
      | Some legs \<Rightarrow>
          [(''bracket_legs'', EvList (map (\<lambda>leg. EvDict
             [(''order_type'', EvStr (order_type_value (leg_order_type leg))),
              (''side'', EvStr (side_value (leg_side leg))),
              (''quantity'', EvNumStr (leg_quantity leg)),
              (''limit_price'', opt_num_str (leg_limit_price leg)),
              (''stop_price'', opt_num_str (leg_stop_price leg))]) legs))])"

section \<open>Orders, reports and fills (\<open>domain/orders/value_objects.py\<close>)\<close>

datatype order_state =
  Created | Sent | Accepted | PartiallyFilled | Filled | CancelRequested | ReplaceRequested
| Cancelled | Rejected

record order_intent =
  oi_order_id :: order_id
  oi_instrument_id :: instrument_id
  oi_side :: order_side
  oi_quantity :: decimal
  oi_account_id :: "account_id option"
  oi_order_spec :: order_spec
  oi_intent_id :: "string option"

definition blank_opt :: "string option \<Rightarrow> bool" where
  "blank_opt v = (case v of None \<Rightarrow> False | Some s \<Rightarrow> blank s)"

definition mk_order_intent :: "order_intent \<Rightarrow> order_intent res" where
  [ctor_simps]: "mk_order_intent i = checked
     [(oi_quantity i \<le> 0, ValueError ''quantity must be positive''),
      (blank_opt (oi_intent_id i), ValueError ''intent_id must not be empty if provided'')] i"

record cancel_intent =
  ci_order_id :: order_id
  ci_reason :: "string option"

record replace_intent =
  ri_order_id :: order_id
  ri_new_quantity :: decimal

definition mk_replace_intent :: "replace_intent \<Rightarrow> replace_intent res" where
  [ctor_simps]: "mk_replace_intent i = checked
     [(ri_new_quantity i \<le> 0, ValueError ''new_quantity must be positive'')] i"

record order =
  or_order_id :: order_id
  or_intent :: order_intent
  or_state :: order_state
  or_broker_order_id :: "string option"

datatype report_status = RepAccepted | RepPartiallyFilled | RepFilled | RepCancelled | RepRejected

record execution_report =
  er_report_id :: string
  er_broker_order_id :: string
  er_status :: report_status
  er_filled_quantity :: decimal
  er_fill_price :: "decimal option"
  er_fill_id :: "string option"
  er_commission :: decimal
  er_slippage :: decimal
  er_fill_time :: "instant option"
  er_reason_code :: "string option"
  er_failure_reason :: "string option"

definition missing_text :: "string option \<Rightarrow> bool" where
  "missing_text v = (case v of None \<Rightarrow> True | Some s \<Rightarrow> blank s)"

definition mk_execution_report :: "execution_report \<Rightarrow> execution_report res" where
  [ctor_simps]: "mk_execution_report r = checked
     [(blank (er_report_id r), ValueError ''report_id must not be empty''),
      (blank (er_broker_order_id r), ValueError ''broker_order_id must not be empty''),
      (er_filled_quantity r < 0, ValueError ''filled_quantity must be non-negative''),
      (er_commission r < 0, ValueError ''commission must be non-negative''),
      (er_slippage r < 0, ValueError ''slippage must be non-negative''),
      (er_status r = RepRejected \<and> missing_text (er_reason_code r),
       ValueError ''reason_code is required for rejected execution reports''),
      (er_status r = RepRejected \<and> missing_text (er_failure_reason r),
       ValueError ''failure_reason is required for rejected execution reports'')] r"

text \<open>An \<open>ExecutionReport\<close> with the dataclass defaults for the fields a caller leaves out.\<close>

definition report_defaults :: "string \<Rightarrow> string \<Rightarrow> report_status \<Rightarrow> execution_report" where
  "report_defaults rid bid st = \<lparr>er_report_id = rid, er_broker_order_id = bid, er_status = st,
     er_filled_quantity = 0, er_fill_price = None, er_fill_id = None, er_commission = 0,
     er_slippage = 0, er_fill_time = None, er_reason_code = None, er_failure_reason = None\<rparr>"

record order_fill =
  of_fill_id :: string
  of_order_id :: order_id
  of_instrument_id :: instrument_id
  of_side :: order_side
  of_quantity :: decimal
  of_price :: decimal
  of_commission :: decimal
  of_slippage :: decimal
  of_account_id :: "account_id option"
  of_intent_id :: "string option"

definition mk_order_fill :: "order_fill \<Rightarrow> order_fill res" where
  [ctor_simps]: "mk_order_fill f = checked
     [(blank_opt (of_intent_id f), ValueError ''intent_id must not be empty if provided'')] f"

record processing_result =
  pr_order :: order
  pr_fills :: "order_fill list"

record order_state_snapshot =
  ss_orders :: "order list"
  ss_broker_to_order :: "(string \<times> order_id) list"
  ss_seen_fill_ids :: "string list"
  ss_seen_report_ids :: "string list"
  ss_fill_ids_by_order :: "(order_id \<times> string list) list"
  ss_report_ids_by_order :: "(order_id \<times> string list) list"

section \<open>Contract specifications and execution costs\<close>

datatype settlement_type = CASH_SETTLED | PHYSICAL

record contract_spec =
  cs_tick_size :: decimal
  cs_lot_size :: decimal
  cs_multiplier :: decimal
  cs_settlement :: settlement_type
  cs_calendar_id :: string
  cs_initial_margin_rate :: "decimal option"

definition require_positive :: "decimal \<Rightarrow> string \<Rightarrow> bool \<times> exn" where
  "require_positive v name = (v \<le> 0, ValueError (name @ '' must be positive''))"

definition mk_contract_spec :: "contract_spec \<Rightarrow> contract_spec res" where
  [ctor_simps]: "mk_contract_spec c = checked
     ([require_positive (cs_tick_size c) ''tick_size'',
       require_positive (cs_lot_size c) ''lot_size'',
       require_positive (cs_multiplier c) ''multiplier'',
       (blank (cs_calendar_id c), ValueError ''calendar_id must not be empty'')] @
      (case cs_initial_margin_rate c of None \<Rightarrow> []
       | Some r \<Rightarrow> [require_positive r ''initial_margin_rate'',
                    (r > 1, ValueError ''initial_margin_rate must not exceed 1'')])) c"

record cost_model =
  cm_fixed_commission_per_contract :: decimal
  cm_slippage_bps :: decimal

definition mk_cost_model :: "decimal \<Rightarrow> decimal \<Rightarrow> cost_model res" where
  [ctor_simps]: "mk_cost_model c s = checked
     [(c < 0, ValueError ''fixed_commission_per_contract must be non-negative''),
      (s < 0, ValueError ''slippage_bps must be non-negative'')]
     \<lparr>cm_fixed_commission_per_contract = c, cm_slippage_bps = s\<rparr>"

definition slippage_model :: "cost_model \<Rightarrow> string" where
  "slippage_model c = (if cm_slippage_bps c = 0 then ''zero'' else ''basis_points'')"

definition commission_model :: "cost_model \<Rightarrow> string" where
  "commission_model c =
     (if cm_fixed_commission_per_contract c = 0 then ''zero'' else ''fixed_per_contract'')"

section \<open>Market bars (\<open>domain/market_data/bar.py\<close>)\<close>

record bar =
  b_instrument_id :: instrument_id
  b_start_time :: instant
  b_end_time :: instant
  b_timeframe :: string
  b_session_id :: string
  b_open :: decimal
  b_high :: decimal
  b_low :: decimal
  b_close :: decimal
  b_volume :: decimal
  b_vwap :: "decimal option"
  b_open_interest :: "decimal option"
  b_trade_count :: "int option"
  b_is_complete :: bool
  b_is_partial :: bool
  b_is_synthetic :: bool

definition require_non_negative :: "decimal \<Rightarrow> string \<Rightarrow> bool \<times> exn" where
  "require_non_negative v name = (v < 0, ValueError (name @ '' must be non-negative''))"

definition bar_checks :: "bar \<Rightarrow> (bool \<times> exn) list" where
  "bar_checks b =
     [(b_start_time b \<ge> b_end_time b, ValueError ''start must be before end''),
      (blank (b_timeframe b), ValueError ''timeframe must not be empty''),
      (blank (b_session_id b), ValueError ''session_id must not be empty''),
      (b_high b < max (b_open b) (b_close b),
       ValueError ''high must be greater than or equal to open and close''),
      (b_low b > min (b_open b) (b_close b),
       ValueError ''low must be less than or equal to open and close''),
      (b_low b > b_high b, ValueError ''low must be less than or equal to high''),
      require_non_negative (b_volume b) ''volume''] @
     (case b_vwap b of None \<Rightarrow> [] | Some v \<Rightarrow> [require_non_negative v ''vwap'']) @
     (case b_open_interest b of None \<Rightarrow> [] | Some v \<Rightarrow> [require_non_negative v ''open_interest'']) @
     (case b_trade_count b of None \<Rightarrow> []
      | Some n \<Rightarrow> [(n < 0, ValueError ''trade_count must be non-negative'')])"

definition mk_bar :: "bar \<Rightarrow> bar res" where
  [ctor_simps]: "mk_bar b = checked (bar_checks b) b"

definition bar_interval :: "bar \<Rightarrow> time_interval res" where
  "bar_interval b = mk_time_interval (b_start_time b) (b_end_time b)"

record quote =
  q_instrument_id :: instrument_id
  q_time :: instant
  q_bid_price :: decimal
  q_ask_price :: decimal
  q_bid_size :: decimal
  q_ask_size :: decimal

definition mk_quote :: "quote \<Rightarrow> quote res" where
  [ctor_simps]: "mk_quote q = checked
     [(q_bid_price q > q_ask_price q, ValueError ''bid_price must be less than or equal to ask_price''),
      require_non_negative (q_bid_size q) ''bid_size'',
      require_non_negative (q_ask_size q) ''ask_size''] q"

definition quote_spread :: "quote \<Rightarrow> decimal" where
  "quote_spread q = dsub (q_ask_price q) (q_bid_price q)"

record tick =
  t_instrument_id :: instrument_id
  t_time :: instant
  t_price :: decimal
  t_size :: decimal

definition mk_tick :: "tick \<Rightarrow> tick res" where
  [ctor_simps]: "mk_tick t = checked [require_non_negative (t_size t) ''size''] t"

section \<open>Fill timing (\<open>domain/execution_timing.py\<close>)\<close>

datatype fill_policy = SAME_BAR_CLOSE | NEXT_BAR_OPEN

definition lower_char :: "char \<Rightarrow> char" where
  "lower_char c = (let n = of_char c :: nat in if 65 \<le> n \<and> n \<le> 90 then char_of (n + 32) else c)"

definition lower :: "string \<Rightarrow> string" where
  "lower s = map lower_char s"

definition fill_policy_from_value :: "string \<Rightarrow> fill_policy res" where
  "fill_policy_from_value v =
     (let n = lower (strip v)
      in if n = ''same_bar_close'' then Inr SAME_BAR_CLOSE
         else if n = ''next_bar_open'' then Inr NEXT_BAR_OPEN
         else Inl (ValueError ''unsupported fill_policy''))"

record timing_model =
  tm_fill_policy :: fill_policy
  tm_optimistic_waiver :: bool

definition mk_timing_model :: "fill_policy \<Rightarrow> bool \<Rightarrow> timing_model res" where
  [ctor_simps]: "mk_timing_model p w = checked
     [(p = SAME_BAR_CLOSE \<and> \<not> w, ValueError ''same_bar_close is optimistic look-ahead and requires optimistic_waiver=True to be used'')]
     \<lparr>tm_fill_policy = p, tm_optimistic_waiver = w\<rparr>"

definition promotion_grade_model :: "timing_model res" where
  "promotion_grade_model = mk_timing_model NEXT_BAR_OPEN False"

definition research_only_model :: "bool \<Rightarrow> timing_model res" where
  "research_only_model w = mk_timing_model SAME_BAR_CLOSE w"

definition timing_from_value :: "string \<Rightarrow> bool \<Rightarrow> timing_model res" where
  "timing_from_value v w = res_bind (fill_policy_from_value v) (\<lambda>p. mk_timing_model p w)"

definition defers_to_next_bar :: "timing_model \<Rightarrow> bool" where
  "defers_to_next_bar m \<longleftrightarrow> tm_fill_policy m = NEXT_BAR_OPEN"

definition is_optimistic :: "timing_model \<Rightarrow> bool" where
  "is_optimistic m \<longleftrightarrow> tm_fill_policy m = SAME_BAR_CLOSE"

definition is_promotion_grade :: "timing_model \<Rightarrow> bool" where
  "is_promotion_grade m \<longleftrightarrow> tm_fill_policy m = NEXT_BAR_OPEN"

definition price_for_execution_bar :: "timing_model \<Rightarrow> bar \<Rightarrow> decimal" where
  "price_for_execution_bar m b =
     (if tm_fill_policy m = NEXT_BAR_OPEN then b_open b else b_close b)"

section \<open>Risk requests and decisions (\<open>domain/risk\<close>)\<close>

datatype decision_status = APPROVED | REJECTED | MODIFIED

record risk_decision =
  rd_status :: decision_status
  rd_reason_code :: "string option"
  rd_reason :: "ftext option"
  rd_rule_id :: "string option"
  rd_checked_at :: "instant option"
  rd_contributing_strategy_ids :: "strategy_id list"
  rd_aggregation_decision_id :: "string option"
  rd_conflict_reason :: "string option"
  rd_evidence :: "(string, evidence) dict"

definition decision_approved :: "risk_decision \<Rightarrow> bool" where
  "decision_approved d \<longleftrightarrow> rd_status d = APPROVED"

text \<open>
  \<open>RiskDecision.approve\<close> and \<open>RiskDecision.rejected\<close>. No caller in the risk layer passes
  \<open>checked_at\<close>, \<open>aggregation_decision_id\<close> or \<open>conflict_reason\<close>, which keep their default.
\<close>

definition approve :: "string option \<Rightarrow> strategy_id list \<Rightarrow> (string, evidence) dict \<Rightarrow> risk_decision" where
  "approve rule sids ev = \<lparr>rd_status = APPROVED, rd_reason_code = None, rd_reason = None,
     rd_rule_id = rule, rd_checked_at = None, rd_contributing_strategy_ids = sids,
     rd_aggregation_decision_id = None, rd_conflict_reason = None, rd_evidence = ev\<rparr>"

definition ftext_blank :: "ftext \<Rightarrow> bool" where
  "ftext_blank t = list_all (\<lambda>f. case f of Lit s \<Rightarrow> blank s | Str s \<Rightarrow> blank s | Num x \<Rightarrow> False) t"

definition rejected ::
  "string \<Rightarrow> ftext \<Rightarrow> string option \<Rightarrow> strategy_id list \<Rightarrow> (string, evidence) dict \<Rightarrow> risk_decision res" where
  "rejected code reason rule sids ev = checked
     [(blank code, ValueError ''reason_code must not be empty''),
      (ftext_blank reason, ValueError ''reason must not be empty'')]
     \<lparr>rd_status = REJECTED, rd_reason_code = Some code, rd_reason = Some reason,
      rd_rule_id = rule, rd_checked_at = None, rd_contributing_strategy_ids = sids,
     rd_aggregation_decision_id = None, rd_conflict_reason = None, rd_evidence = ev\<rparr>"

record market_data_context =
  md_permission_state :: "string option"
  md_stale :: bool
  md_evidence :: "(string, evidence) dict"

definition setdefault :: "'k \<Rightarrow> 'v \<Rightarrow> ('k, 'v) dict \<Rightarrow> ('k, 'v) dict" where
  "setdefault k v d = (case map_of d k of None \<Rightarrow> AList.update k v d | Some _ \<Rightarrow> d)"

definition evidence_payload :: "market_data_context \<Rightarrow> (string, evidence) dict" where
  "evidence_payload c = setdefault ''stale'' (EvBool (md_stale c))
     (setdefault ''permission_state''
       (case md_permission_state c of None \<Rightarrow> EvNone | Some s \<Rightarrow> EvStr s) (md_evidence c))"

record risk_request =
  rq_instrument_id :: instrument_id
  rq_quantity :: decimal
  rq_price :: decimal
  rq_multiplier :: decimal
  rq_order_spec :: order_spec
  rq_order_time :: "instant option"
  rq_current_position :: decimal
  rq_contributing_strategy_ids :: "strategy_id list"
  rq_aggregation_decision_id :: "string option"
  rq_conflict_reason :: "string option"
  rq_market_data :: "market_data_context option"
  rq_account_equity :: "decimal option"
  rq_current_exposure :: decimal
  rq_intraday_pnl :: "decimal option"
  rq_current_notional_by_instrument :: "(instrument_id, decimal) dict option"
  rq_volatility :: "decimal option"
  rq_signed_quantity_delta :: "decimal option"
  rq_current_margin_requirement :: "decimal option"
  rq_projected_initial_margin :: "decimal option"
  rq_available_margin :: "decimal option"

definition request_checks :: "risk_request \<Rightarrow> (bool \<times> exn) list" where
  "request_checks r =
     [(rq_quantity r \<le> 0, ValueError ''quantity must be positive''),
      (rq_price r < 0, ValueError ''price must be non-negative''),
      (rq_multiplier r \<le> 0, ValueError ''multiplier must be positive''),
      (blank_opt (rq_aggregation_decision_id r), ValueError ''aggregation_decision_id must not be empty''),
      (blank_opt (rq_conflict_reason r), ValueError ''conflict_reason must not be empty''),
      (case rq_account_equity r of None \<Rightarrow> False | Some e \<Rightarrow> e \<le> 0,
       ValueError ''account_equity must be positive''),
      (rq_current_exposure r < 0, ValueError ''current_exposure must be non-negative''),
      (case rq_current_notional_by_instrument r of None \<Rightarrow> False
       | Some m \<Rightarrow> list_ex (\<lambda>(i, n). n < 0) m,
       ValueError ''current instrument notional must be non-negative''),
      (case rq_volatility r of None \<Rightarrow> False | Some v \<Rightarrow> v < 0,
       ValueError ''volatility must be non-negative''),
      (rq_signed_quantity_delta r = Some 0, ValueError ''signed_quantity_delta must not be zero''),
      (case rq_signed_quantity_delta r of None \<Rightarrow> False | Some d \<Rightarrow> dabs d \<noteq> rq_quantity r,
       ValueError ''abs(signed_quantity_delta) must equal quantity'')]"

definition mk_risk_request :: "risk_request \<Rightarrow> risk_request res" where
  [ctor_simps]: "mk_risk_request r = checked (request_checks r) r"

definition notional :: "risk_request \<Rightarrow> decimal" where
  "notional r = dmul (dmul (rq_quantity r) (rq_price r)) (rq_multiplier r)"

section \<open>Shared facts about the constructors\<close>

lemma approve_approved [simp]: "decision_approved (approve rule sids ev)"
  by (simp add: approve_def decision_approved_def)

lemma rejected_Inr: "rejected code reason rule sids ev = Inr d \<Longrightarrow>
   \<not> decision_approved d \<and> rd_status d = REJECTED \<and> rd_reason_code d = Some code \<and> rd_rule_id d = rule"
  by (auto simp: rejected_def decision_approved_def)

lemma rejected_literal [simp]:
  "\<not> blank code \<Longrightarrow> \<not> blank s \<Longrightarrow> rejected code (Lit s # t) rule sids ev =
     Inr \<lparr>rd_status = REJECTED, rd_reason_code = Some code, rd_reason = Some (Lit s # t),
      rd_rule_id = rule, rd_checked_at = None, rd_contributing_strategy_ids = sids,
     rd_aggregation_decision_id = None, rd_conflict_reason = None, rd_evidence = ev\<rparr>"
  by (simp add: rejected_def ftext_blank_def checked_def)

lemma notional_nonneg:
  "mk_risk_request r = Inr r' \<Longrightarrow> 0 \<le> notional r"
  by (auto simp: ctor_simps request_checks_def notional_def split: if_splits)

end
