(* ===== verification/Step_Systems.thy ===== *)
theory Step_Systems
  imports QTS_Prelude
begin

text \<open>
  Components as step functions: a component takes a state and a message to a new state and a list
  of emitted outputs, and a run feeds it a list of messages. Three interfaces, each a locale that
  the components interpret on their own step function:
  \<^item> \<open>kept_by_steps\<close>: an invariant every step keeps holds after every run;
  \<^item> \<open>exactly_once\<close>: outputs carry a key, the state remembers the keys it has emitted, and so no
    run emits a key twice;
  \<^item> \<open>fifo_queue\<close>: a queue seen as the list of its waiting messages.
\<close>

fun run_steps :: "('s \<Rightarrow> 'm \<Rightarrow> 's \<times> 'o list) \<Rightarrow> 's \<Rightarrow> 'm list \<Rightarrow> 's \<times> 'o list" where
  "run_steps step s [] = (s, [])"
| "run_steps step s (m # ms) =
     (let (s1, os1) = step s m; (s2, os2) = run_steps step s1 ms in (s2, os1 @ os2))"

lemma run_steps_Cons:
  "run_steps step s (m # ms) =
     (fst (run_steps step (fst (step s m)) ms),
      snd (step s m) @ snd (run_steps step (fst (step s m)) ms))"
  by (simp add: case_prod_unfold Let_def)

declare run_steps.simps(2) [simp del]
declare run_steps_Cons [simp]

lemma run_steps_append:
  "run_steps step s (ms @ ns) =
     (fst (run_steps step (fst (run_steps step s ms)) ns),
      snd (run_steps step s ms) @ snd (run_steps step (fst (run_steps step s ms)) ns))"
  by (induction ms arbitrary: s) auto

locale kept_by_steps =
  fixes step :: "'s \<Rightarrow> 'm \<Rightarrow> 's \<times> 'o list"
    and inv :: "'s \<Rightarrow> bool"
    and msg_ok :: "'m \<Rightarrow> bool"
  assumes step_keeps: "inv s \<Longrightarrow> msg_ok m \<Longrightarrow> inv (fst (step s m))"
begin

lemma run_keeps: "inv s \<Longrightarrow> list_all msg_ok ms \<Longrightarrow> inv (fst (run_steps step s ms))"
  by (induction ms arbitrary: s) (auto simp: step_keeps)

end

lemma fresh_compose:
  "A \<inter> S = {} \<Longrightarrow> S \<union> A \<subseteq> S1 \<Longrightarrow> B \<inter> S1 = {} \<and> S1 \<union> B \<subseteq> S2 \<Longrightarrow>
     (A \<union> B) \<inter> S = {} \<and> S \<union> (A \<union> B) \<subseteq> S2"
  by blast

lemma disjoint_through: "S \<union> A \<subseteq> S1 \<Longrightarrow> B \<inter> S1 = {} \<and> X \<Longrightarrow> A \<inter> B = {}"
  by blast

locale exactly_once =
  fixes step :: "'s \<Rightarrow> 'm \<Rightarrow> 's \<times> 'o list"
    and seen :: "'s \<Rightarrow> 'k set"
    and key :: "'o \<Rightarrow> 'k"
    and msg_ok :: "'m \<Rightarrow> bool"
  assumes step_fresh: "msg_ok m \<Longrightarrow> key ` set (snd (step s m)) \<inter> seen s = {}"
    and step_distinct: "msg_ok m \<Longrightarrow> distinct (map key (snd (step s m)))"
    and step_records: "msg_ok m \<Longrightarrow> seen s \<union> key ` set (snd (step s m)) \<subseteq> seen (fst (step s m))"
begin

lemma run_fresh:
  "list_all msg_ok ms \<Longrightarrow>
     key ` set (snd (run_steps step s ms)) \<inter> seen s = {} \<and>
     seen s \<union> key ` set (snd (run_steps step s ms)) \<subseteq> seen (fst (run_steps step s ms))"
proof (induction ms arbitrary: s)
  case (Cons m ms)
  then have ok: "msg_ok m" "list_all msg_ok ms" by simp_all
  note fresh = step_fresh [OF ok(1), of s] and rec = step_records [OF ok(1), of s]
    and IH = Cons.IH [OF ok(2), of "fst (step s m)"]
  from fresh_compose [OF fresh rec IH] show ?case by (simp add: image_Un)
qed simp

lemma run_distinct: "list_all msg_ok ms \<Longrightarrow> distinct (map key (snd (run_steps step s ms)))"
proof (induction ms arbitrary: s)
  case (Cons m ms)
  then have "list_all msg_ok ms" "msg_ok m" by simp_all
  then have "key ` set (snd (step s m)) \<inter> key ` set (snd (run_steps step (fst (step s m)) ms)) = {}"
    using disjoint_through [OF step_records run_fresh] by blast
  with Cons.IH [OF \<open>list_all msg_ok ms\<close>] step_distinct [OF \<open>msg_ok m\<close>] show ?case by simp
qed simp

text \<open>Replaying a message stream that was already absorbed emits nothing whose key was seen.\<close>

lemma run_seen_silent:
  assumes "list_all msg_ok ms" and "key ` set (snd (run_steps step s ms)) \<subseteq> seen s"
  shows "snd (run_steps step s ms) = []"
  using assms run_fresh [OF assms(1), of s] by (metis Int_absorb2 image_is_empty set_empty)

end

fun take_msgs :: "('q \<Rightarrow> ('a \<times> 'q) option) \<Rightarrow> nat \<Rightarrow> 'q \<Rightarrow> 'a list \<times> 'q" where
  "take_msgs deq 0 q = ([], q)"
| "take_msgs deq (Suc n) q =
     (case deq q of None \<Rightarrow> ([], q)
      | Some (x, q') \<Rightarrow> (let (xs, q'') = take_msgs deq n q' in (x # xs, q'')))"

locale fifo_queue =
  fixes empty :: 'q
    and enq :: "'a \<Rightarrow> 'q \<Rightarrow> 'q"
    and deq :: "'q \<Rightarrow> ('a \<times> 'q) option"
    and contents :: "'q \<Rightarrow> 'a list"
  assumes contents_empty: "contents empty = []"
    and contents_enq: "contents (enq x q) = contents q @ [x]"
    and deq_None: "deq q = None \<longleftrightarrow> contents q = []"
    and deq_Some: "deq q = Some (x, q') \<Longrightarrow> contents q = x # contents q'"
begin

lemma contents_fold_enq: "contents (fold enq xs q) = contents q @ xs"
  by (induction xs arbitrary: q) (auto simp: contents_enq)

lemma deq_first: "contents q = x # xs \<Longrightarrow> \<exists>q'. deq q = Some (x, q') \<and> contents q' = xs"
  using deq_None [of q] deq_Some [of q] by (cases "deq q") auto

text \<open>What goes in first comes out first: taking as many messages as are waiting yields them in
  order of arrival and leaves an empty queue.\<close>

lemma drain_in_order:
  "fst (take_msgs deq (length (contents q)) q) = contents q \<and>
   contents (snd (take_msgs deq (length (contents q)) q)) = []"
proof (induction "contents q" arbitrary: q)
  case (Cons x xs)
  then obtain q' where q': "deq q = Some (x, q')" "contents q' = xs" using deq_first by metis
  with Cons.hyps(1) [of q'] Cons.hyps(2) [symmetric] show ?case by (simp add: case_prod_unfold)
qed simp

end

end
