(* ===== verification/Technical_Indicators.thy ===== *)
theory Technical_Indicators
  imports Domain_Model Step_Systems
begin

text \<open>
  The incremental indicators of \<open>indicators/\<close>: the rolling window, the moving averages and the
  indicators of \<open>technical.py\<close>, each as the record of its fields and its update operation, which
  returns the value and the new state. An update that can raise returns an \<open>outcome\<close>.

  \<open>feed\<close> runs an indicator over a list of inputs. The locale \<open>windowed_indicator\<close> is the contract of an
  indicator that depends on the last \<open>n\<close> inputs only; every windowed indicator is an interpretation
  of it, which gives the equivalence with its batch definition. The second half proves the ranges
  of the oscillators with the rounding of every decimal operation taken into account.
\<close>

section \<open>Square roots (\<open>Decimal.sqrt\<close>)\<close>

text \<open>The integer square root, four-adic digits first.\<close>

function isqrt :: "int \<Rightarrow> int" where
  "isqrt n = (if n \<le> 0 then 0 else let r = 2 * isqrt (n div 4) in if (r + 1) * (r + 1) \<le> n then r + 1 else r)"
  by auto
termination by (relation "measure nat") auto

declare isqrt.simps [simp del]

text \<open>\<open>x.sqrt()\<close> for a non-negative \<open>x\<close>: the root rounded half even to 28 significant digits. With
  \<open>x = s * 100 powi e\<close> the root is \<open>sqrt s * 10 powi e\<close>, and \<open>e\<close> is chosen so that \<open>sqrt s\<close> has 28
  integer digits. The root lies above the midpoint of \<open>r\<close> and \<open>r + 1\<close> when \<open>s > r * (r + 1) + 1 / 4\<close>.\<close>

definition dsqrt :: "decimal \<Rightarrow> decimal" where
  "dsqrt x =
     (if x \<le> 0 then 0
      else let e = adjusted x div 2 - 27;
               s = x / (100 powi e);
               r = isqrt \<lfloor>s\<rfloor>;
               mid = of_int (r * (r + 1)) + 1 / 4
           in of_int (if s < mid \<or> s = mid \<and> even r then r else r + 1) * 10 powi e)"

section \<open>Rolling windows and moving averages\<close>

text \<open>\<open>deque(maxlen=n).append\<close>: the oldest value is dropped when the buffer is full.\<close>

definition push :: "nat \<Rightarrow> 'a list \<Rightarrow> 'a \<Rightarrow> 'a list" where
  "push n xs x = drop (Suc (length xs) - n) (xs @ [x])"

record 'a rolling_window =
  rw_size :: int
  rw_values :: "'a list"

definition mk_rolling_window :: "int \<Rightarrow> 'a rolling_window res" where
  [ctor_simps]: "mk_rolling_window n = checked [(n \<le> 0, ValueError ''size must be positive'')] \<lparr>rw_size = n, rw_values = []\<rparr>"

definition rw_ready :: "'a rolling_window \<Rightarrow> bool" where
  "rw_ready w = (int (length (rw_values w)) = rw_size w)"

definition rw_append :: "'a \<Rightarrow> 'a rolling_window \<Rightarrow> 'a rolling_window" where
  "rw_append x w = w\<lparr>rw_values := push (nat (rw_size w)) (rw_values w) x\<rparr>"

definition rw_restore :: "'a list \<Rightarrow> 'a rolling_window \<Rightarrow> 'a rolling_window" where
  "rw_restore xs w = fold rw_append xs \<lparr>rw_size = rw_size w, rw_values = []\<rparr>"

definition dmean :: "decimal list \<Rightarrow> int \<Rightarrow> decimal" where
  "dmean xs n = ddiv (dsum xs) (of_int n)"

record sma =
  sma_window :: int
  sma_values :: "decimal rolling_window"
  sma_value :: "decimal option"

definition mk_sma :: "int \<Rightarrow> sma res" where
  [ctor_simps]: "mk_sma n = res_bind (mk_rolling_window n) (\<lambda>w. Inr \<lparr>sma_window = n, sma_values = w, sma_value = None\<rparr>)"

definition sma_update :: "decimal \<Rightarrow> sma \<Rightarrow> decimal option \<times> sma" where
  "sma_update price s =
     (let w = rw_append price (sma_values s);
          v = (if \<not> rw_ready w then None else Some (dmean (rw_values w) (sma_window s)))
      in (v, s\<lparr>sma_values := w, sma_value := v\<rparr>))"

record ema =
  ema_window :: int
  ema_warmup :: "decimal rolling_window"
  ema_value :: "decimal option"

definition mk_ema :: "int \<Rightarrow> ema res" where
  [ctor_simps]: "mk_ema n = res_bind (mk_rolling_window n) (\<lambda>w. Inr \<lparr>ema_window = n, ema_warmup = w, ema_value = None\<rparr>)"

definition ema_update :: "decimal \<Rightarrow> ema \<Rightarrow> decimal option \<times> ema" where
  "ema_update price s =
     (case ema_value s of
        None \<Rightarrow>
          (let w = rw_append price (ema_warmup s)
           in if \<not> rw_ready w then (None, s\<lparr>ema_warmup := w\<rparr>)
              else let v = dmean (rw_values w) (ema_window s)
                   in (Some v, s\<lparr>ema_warmup := w, ema_value := Some v\<rparr>))
      | Some old \<Rightarrow>
          (let multiplier = ddiv 2 (of_int (ema_window s + 1));
               v = dadd (dmul (dsub price old) multiplier) old
           in (Some v, s\<lparr>ema_value := Some v\<rparr>)))"

section \<open>True range and Supertrend\<close>

record atr =
  atr_window :: int
  atr_true_ranges :: "decimal rolling_window"
  atr_previous_close :: "decimal option"
  atr_value :: "decimal option"

definition mk_atr :: "int \<Rightarrow> atr res" where
  [ctor_simps]: "mk_atr n = res_bind (mk_rolling_window n) (\<lambda>w.
     Inr \<lparr>atr_window = n, atr_true_ranges = w, atr_previous_close = None, atr_value = None\<rparr>)"

definition true_range :: "decimal option \<Rightarrow> decimal \<Rightarrow> decimal \<Rightarrow> decimal" where
  "true_range previous_close high low =
     (case previous_close of None \<Rightarrow> dsub high low
      | Some p \<Rightarrow> max (max (dsub high low) (dabs (dsub high p))) (dabs (dsub low p)))"

text \<open>Wilder smoothing: \<open>(old * (window - 1) + new) / window\<close>.\<close>

definition wilder :: "int \<Rightarrow> decimal \<Rightarrow> decimal \<Rightarrow> decimal" where
  "wilder n old new = ddiv (dadd (dmul old (of_int (n - 1))) new) (of_int n)"

definition atr_update :: "decimal \<Rightarrow> decimal \<Rightarrow> decimal \<Rightarrow> atr \<Rightarrow> decimal option \<times> atr" where
  "atr_update high low close s =
     (let tr = true_range (atr_previous_close s) high low;
          s1 = s\<lparr>atr_previous_close := Some close\<rparr>
      in case atr_value s of
           None \<Rightarrow>
             (let w = rw_append tr (atr_true_ranges s)
              in if \<not> rw_ready w then (None, s1\<lparr>atr_true_ranges := w\<rparr>)
                 else let v = dmean (rw_values w) (atr_window s)
                      in (Some v, s1\<lparr>atr_true_ranges := w, atr_value := Some v\<rparr>))
         | Some old \<Rightarrow> (let v = wilder (atr_window s) old tr in (Some v, s1\<lparr>atr_value := Some v\<rparr>)))"

definition atr_update_bar :: "bar \<Rightarrow> atr \<Rightarrow> decimal option \<times> atr" where
  "atr_update_bar b s = atr_update (b_high b) (b_low b) (b_close b) s"

record supertrend_value =
  sv_value :: decimal
  sv_direction :: int
  sv_upper_band :: decimal
  sv_lower_band :: decimal

record supertrend =
  st_multiplier :: decimal
  st_atr :: atr
  st_previous_close :: "decimal option"
  st_final_upper_band :: "decimal option"
  st_final_lower_band :: "decimal option"
  st_direction :: "int option"
  st_value :: "supertrend_value option"

definition mk_supertrend :: "int \<Rightarrow> decimal \<Rightarrow> supertrend res" where
  [ctor_simps]: "mk_supertrend n multiplier =
     (if n \<le> 0 then Inl (ValueError ''window must be positive'')
      else if multiplier < 0 then Inl (ValueError ''multiplier must be non-negative'')
      else res_bind (mk_atr n) (\<lambda>a. Inr \<lparr>st_multiplier = multiplier, st_atr = a, st_previous_close = None,
         st_final_upper_band = None, st_final_lower_band = None, st_direction = None, st_value = None\<rparr>))"

definition final_upper :: "supertrend \<Rightarrow> decimal \<Rightarrow> decimal option \<Rightarrow> decimal" where
  "final_upper s basic_upper previous_close =
     (case st_final_upper_band s of None \<Rightarrow> basic_upper
      | Some cur \<Rightarrow> if basic_upper < cur then basic_upper
          else (case previous_close of Some p \<Rightarrow> if p > cur then basic_upper else cur | None \<Rightarrow> cur))"

definition final_lower :: "supertrend \<Rightarrow> decimal \<Rightarrow> decimal option \<Rightarrow> decimal" where
  "final_lower s basic_lower previous_close =
     (case st_final_lower_band s of None \<Rightarrow> basic_lower
      | Some cur \<Rightarrow> if basic_lower > cur then basic_lower
          else (case previous_close of Some p \<Rightarrow> if p < cur then basic_lower else cur | None \<Rightarrow> cur))"

definition next_direction :: "supertrend \<Rightarrow> decimal \<Rightarrow> decimal \<Rightarrow> decimal \<Rightarrow> int" where
  "next_direction s close upper_band lower_band =
     (case st_direction s of None \<Rightarrow> -1
      | Some d \<Rightarrow> if d = -1 then (if close > upper_band then 1 else -1)
                  else (if close < lower_band then -1 else 1))"

definition supertrend_update ::
  "decimal \<Rightarrow> decimal \<Rightarrow> decimal \<Rightarrow> supertrend \<Rightarrow> supertrend_value option \<times> supertrend" where
  "supertrend_update high low close s =
     (let previous_close = st_previous_close s;
          (a, atr') = atr_update high low close (st_atr s);
          s1 = s\<lparr>st_atr := atr', st_previous_close := Some close\<rparr>
      in case a of
           None \<Rightarrow> (None, s1\<lparr>st_value := None\<rparr>)
         | Some v \<Rightarrow>
             (let midpoint = ddiv (dadd high low) 2;
                  basic_upper = dadd midpoint (dmul (st_multiplier s) v);
                  basic_lower = dsub midpoint (dmul (st_multiplier s) v);
                  u = final_upper s basic_upper previous_close;
                  l = final_lower s basic_lower previous_close;
                  d = next_direction s close u l;
                  r = \<lparr>sv_value = (if d = 1 then l else u), sv_direction = d, sv_upper_band = u, sv_lower_band = l\<rparr>
              in (Some r, s1\<lparr>st_final_upper_band := Some u, st_final_lower_band := Some l, st_direction := Some d,
                             st_value := Some r\<rparr>)))"

definition supertrend_update_bar :: "bar \<Rightarrow> supertrend \<Rightarrow> supertrend_value option \<times> supertrend" where
  "supertrend_update_bar b s = supertrend_update (b_high b) (b_low b) (b_close b) s"

section \<open>Relative strength, session VWAP and volume ratio\<close>

record rsi =
  rsi_window :: int
  rsi_gains :: "decimal rolling_window"
  rsi_losses :: "decimal rolling_window"
  rsi_previous_price :: "decimal option"
  rsi_average_gain :: "decimal option"
  rsi_average_loss :: "decimal option"
  rsi_value :: "decimal option"

definition mk_rsi :: "int \<Rightarrow> rsi res" where
  [ctor_simps]: "mk_rsi n = res_bind (mk_rolling_window n) (\<lambda>w. Inr \<lparr>rsi_window = n, rsi_gains = w, rsi_losses = w,
     rsi_previous_price = None, rsi_average_gain = None, rsi_average_loss = None, rsi_value = None\<rparr>)"

text \<open>\<open>100 - 100 / (1 + up / down)\<close>, and 100 when nothing went down.\<close>

definition strength_index :: "decimal \<Rightarrow> decimal \<Rightarrow> decimal" where
  "strength_index up down = (if down = 0 then 100 else dsub 100 (ddiv 100 (dadd 1 (ddiv up down))))"

definition rsi_from_averages :: "rsi \<Rightarrow> decimal res" where
  "rsi_from_averages s =
     (case (rsi_average_gain s, rsi_average_loss s) of
        (Some g, Some l) \<Rightarrow> Inr (strength_index g l)
      | _ \<Rightarrow> Inl (RuntimeError ''RSI smoothing state is not initialized''))"

definition rsi_finish :: "rsi \<Rightarrow> (rsi, decimal option) outcome" where
  "rsi_finish s = (case rsi_from_averages s of Inl e \<Rightarrow> (Inl e, s) | Inr v \<Rightarrow> (Inr (Some v), s\<lparr>rsi_value := Some v\<rparr>))"

definition rsi_update :: "decimal \<Rightarrow> rsi \<Rightarrow> (rsi, decimal option) outcome" where
  "rsi_update price s =
     (case rsi_previous_price s of
        None \<Rightarrow> (Inr None, s\<lparr>rsi_previous_price := Some price\<rparr>)
      | Some p \<Rightarrow>
          (let change = dsub price p; s1 = s\<lparr>rsi_previous_price := Some price\<rparr>;
               gain = max change 0; loss = dabs (min change 0); n = rsi_window s
           in if rsi_value s = None then
                (let g = rw_append gain (rsi_gains s); l = rw_append loss (rsi_losses s);
                     s2 = s1\<lparr>rsi_gains := g, rsi_losses := l\<rparr>
                 in if \<not> rw_ready g then (Inr None, s2)
                    else rsi_finish (s2\<lparr>rsi_average_gain := Some (dmean (rw_values g) n),
                                        rsi_average_loss := Some (dmean (rw_values l) n)\<rparr>))
              else (case (rsi_average_gain s, rsi_average_loss s) of
                 (Some ag, Some al) \<Rightarrow> rsi_finish (s1\<lparr>rsi_average_gain := Some (wilder n ag gain),
                                                       rsi_average_loss := Some (wilder n al loss)\<rparr>)
               | _ \<Rightarrow> (Inl (RuntimeError ''RSI smoothing state is not initialized''), s1))))"

record session_vwap =
  vw_session_id :: "string option"
  vw_cumulative_price_volume :: decimal
  vw_cumulative_volume :: decimal
  vw_value :: "decimal option"

definition vwap_init :: session_vwap where
  "vwap_init = \<lparr>vw_session_id = None, vw_cumulative_price_volume = 0, vw_cumulative_volume = 0, vw_value = None\<rparr>"

definition typical_price :: "bar \<Rightarrow> decimal" where
  "typical_price b = ddiv (dadd (dadd (b_high b) (b_low b)) (b_close b)) 3"

definition vwap_update_bar :: "bar \<Rightarrow> session_vwap \<Rightarrow> decimal option \<times> session_vwap" where
  "vwap_update_bar b s =
     (let s1 = (if Some (b_session_id b) \<noteq> vw_session_id s
                then s\<lparr>vw_session_id := Some (b_session_id b), vw_cumulative_price_volume := 0,
                       vw_cumulative_volume := 0, vw_value := None\<rparr> else s);
          s2 = s1\<lparr>vw_cumulative_price_volume := dadd (vw_cumulative_price_volume s1) (dmul (typical_price b) (b_volume b)),
                  vw_cumulative_volume := dadd (vw_cumulative_volume s1) (b_volume b)\<rparr>
      in if vw_cumulative_volume s2 = 0 then (None, s2)
         else let v = ddiv (vw_cumulative_price_volume s2) (vw_cumulative_volume s2) in (Some v, s2\<lparr>vw_value := Some v\<rparr>))"

record volume_ratio =
  vr_window :: int
  vr_volumes :: "decimal rolling_window"
  vr_value :: "decimal option"

definition mk_volume_ratio :: "int \<Rightarrow> volume_ratio res" where
  [ctor_simps]: "mk_volume_ratio n = res_bind (mk_rolling_window n) (\<lambda>w. Inr \<lparr>vr_window = n, vr_volumes = w, vr_value = None\<rparr>)"

definition volume_ratio_update :: "decimal \<Rightarrow> volume_ratio \<Rightarrow> decimal option \<times> volume_ratio" where
  "volume_ratio_update volume s =
     (let w = rw_append volume (vr_volumes s); average = dmean (rw_values w) (vr_window s);
          v = (if \<not> rw_ready w then None else if average = 0 then Some 1 else Some (ddiv volume average))
      in (v, s\<lparr>vr_volumes := w, vr_value := v\<rparr>))"

section \<open>Bands, MACD and rate of change\<close>

record bands_value =
  bv_lower :: decimal
  bv_middle :: decimal
  bv_upper :: decimal
  bv_width :: decimal

record bollinger_bands =
  bb_window :: int
  bb_standard_deviations :: decimal
  bb_prices :: "decimal rolling_window"
  bb_value :: "bands_value option"

definition mk_bollinger_bands :: "int \<Rightarrow> decimal \<Rightarrow> bollinger_bands res" where
  [ctor_simps]: "mk_bollinger_bands n k =
     (if k < 0 then Inl (ValueError ''standard_deviations must be non-negative'')
      else res_bind (mk_rolling_window n) (\<lambda>w. Inr \<lparr>bb_window = n, bb_standard_deviations = k, bb_prices = w, bb_value = None\<rparr>))"

definition variance :: "decimal list \<Rightarrow> decimal \<Rightarrow> int \<Rightarrow> decimal" where
  "variance xs mean n = dmean (map (\<lambda>x. dmul (dsub x mean) (dsub x mean)) xs) n"

definition bollinger_of :: "int \<Rightarrow> decimal \<Rightarrow> decimal list \<Rightarrow> bands_value" where
  "bollinger_of n k prices =
     (let middle = dmean prices n; sd = dsqrt (variance prices middle n); offset = dmul k sd
      in \<lparr>bv_lower = dsub middle offset, bv_middle = middle, bv_upper = dadd middle offset, bv_width = sd\<rparr>)"

definition bollinger_update :: "decimal \<Rightarrow> bollinger_bands \<Rightarrow> bands_value option \<times> bollinger_bands" where
  "bollinger_update price s =
     (let w = rw_append price (bb_prices s);
          v = (if \<not> rw_ready w then None else Some (bollinger_of (bb_window s) (bb_standard_deviations s) (rw_values w)))
      in (v, s\<lparr>bb_prices := w, bb_value := v\<rparr>))"

record macd_value =
  mv_macd :: decimal
  mv_signal :: decimal
  mv_histogram :: decimal

record macd =
  mc_fast :: ema
  mc_slow :: ema
  mc_signal :: ema
  mc_value :: "macd_value option"

definition mk_macd :: "int \<Rightarrow> int \<Rightarrow> int \<Rightarrow> macd res" where
  [ctor_simps]: "mk_macd fast_window slow_window signal_window =
     (if fast_window \<ge> slow_window then Inl (ValueError ''fast_window must be less than slow_window'')
      else res_bind (mk_ema fast_window) (\<lambda>f. res_bind (mk_ema slow_window) (\<lambda>s. res_bind (mk_ema signal_window) (\<lambda>g.
        Inr \<lparr>mc_fast = f, mc_slow = s, mc_signal = g, mc_value = None\<rparr>))))"

definition macd_update :: "decimal \<Rightarrow> macd \<Rightarrow> macd_value option \<times> macd" where
  "macd_update price s =
     (let (fast, f) = ema_update price (mc_fast s); (slow, w) = ema_update price (mc_slow s);
          s1 = s\<lparr>mc_fast := f, mc_slow := w\<rparr>
      in case (fast, slow) of
           (Some x, Some y) \<Rightarrow>
             (let m = dsub x y; (signal, g) = ema_update m (mc_signal s); s2 = s1\<lparr>mc_signal := g\<rparr>
              in case signal of None \<Rightarrow> (None, s2\<lparr>mc_value := None\<rparr>)
                 | Some z \<Rightarrow> (let r = \<lparr>mv_macd = m, mv_signal = z, mv_histogram = dsub m z\<rparr> in (Some r, s2\<lparr>mc_value := Some r\<rparr>)))
         | _ \<Rightarrow> (None, s1\<lparr>mc_value := None\<rparr>))"

record rate_of_change =
  rc_window :: int
  rc_prices :: "decimal rolling_window"
  rc_value :: "decimal option"

definition mk_rate_of_change :: "int \<Rightarrow> rate_of_change res" where
  [ctor_simps]: "mk_rate_of_change n = res_bind (mk_rolling_window (n + 1)) (\<lambda>w. Inr \<lparr>rc_window = n, rc_prices = w, rc_value = None\<rparr>)"

definition rate_of_change_update :: "decimal \<Rightarrow> rate_of_change \<Rightarrow> decimal option \<times> rate_of_change" where
  "rate_of_change_update price s =
     (let w = rw_append price (rc_prices s); previous = hd (rw_values w);
          v = (if \<not> rw_ready w then None else if previous = 0 then None
               else Some (dmul (ddiv (dsub price previous) previous) 100))
      in (v, s\<lparr>rc_prices := w, rc_value := v\<rparr>))"

section \<open>Directional movement\<close>

record dm_value =
  dm_plus_di :: decimal
  dm_minus_di :: decimal
  dm_dx :: decimal
  dm_adx :: decimal

record adx =
  ax_window :: int
  ax_true_ranges :: "decimal rolling_window"
  ax_plus_dm_values :: "decimal rolling_window"
  ax_minus_dm_values :: "decimal rolling_window"
  ax_previous_high :: "decimal option"
  ax_previous_low :: "decimal option"
  ax_previous_close :: "decimal option"
  ax_average_true_range :: "decimal option"
  ax_average_plus_dm :: "decimal option"
  ax_average_minus_dm :: "decimal option"
  ax_value :: "dm_value option"

definition mk_adx :: "int \<Rightarrow> adx res" where
  [ctor_simps]: "mk_adx n = res_bind (mk_rolling_window n) (\<lambda>w. Inr \<lparr>ax_window = n, ax_true_ranges = w,
     ax_plus_dm_values = w, ax_minus_dm_values = w, ax_previous_high = None, ax_previous_low = None,
     ax_previous_close = None, ax_average_true_range = None, ax_average_plus_dm = None, ax_average_minus_dm = None,
     ax_value = None\<rparr>)"

definition directional_inputs :: "adx \<Rightarrow> bar \<Rightarrow> decimal \<times> decimal \<times> decimal" where
  "directional_inputs s b =
     (case ax_previous_close s of
        None \<Rightarrow> (dsub (b_high b) (b_low b), 0, 0)
      | Some p \<Rightarrow>
          (let up_move = (case ax_previous_high s of None \<Rightarrow> 0 | Some h \<Rightarrow> dsub (b_high b) h);
               down_move = (case ax_previous_low s of None \<Rightarrow> 0 | Some l \<Rightarrow> dsub l (b_low b))
           in (true_range (Some p) (b_high b) (b_low b),
               if up_move > down_move \<and> up_move > 0 then up_move else 0,
               if down_move > up_move \<and> down_move > 0 then down_move else 0)))"

definition di_line :: "decimal option \<Rightarrow> decimal option \<Rightarrow> decimal" where
  "di_line average_true_range average_dm =
     (case (average_true_range, average_dm) of
        (Some t, Some d) \<Rightarrow> if t = 0 then 0 else dmul (ddiv d t) 100
      | _ \<Rightarrow> 0)"

definition plus_di :: "adx \<Rightarrow> decimal" where
  "plus_di s = di_line (ax_average_true_range s) (ax_average_plus_dm s)"

definition minus_di :: "adx \<Rightarrow> decimal" where
  "minus_di s = di_line (ax_average_true_range s) (ax_average_minus_dm s)"

definition dx_of :: "adx \<Rightarrow> decimal" where
  "dx_of s =
     (let p = plus_di s; m = minus_di s; t = dadd p m
      in if t = 0 then 0 else dmul (ddiv (dabs (dsub p m)) t) 100)"

definition adx_report :: "(decimal \<Rightarrow> decimal) \<Rightarrow> adx \<Rightarrow> (adx, dm_value option) outcome" where
  "adx_report smooth s =
     (let r = \<lparr>dm_plus_di = plus_di s, dm_minus_di = minus_di s, dm_dx = dx_of s, dm_adx = smooth (dx_of s)\<rparr>
      in (Inr (Some r), s\<lparr>ax_value := Some r\<rparr>))"

definition adx_update_bar :: "bar \<Rightarrow> adx \<Rightarrow> (adx, dm_value option) outcome" where
  "adx_update_bar b s =
     (case directional_inputs s b of (tr, plus_dm, minus_dm) \<Rightarrow>
        let s1 = s\<lparr>ax_previous_high := Some (b_high b), ax_previous_low := Some (b_low b), ax_previous_close := Some (b_close b)\<rparr>;
            n = ax_window s
        in case ax_average_true_range s of
             None \<Rightarrow>
               (let t = rw_append tr (ax_true_ranges s); p = rw_append plus_dm (ax_plus_dm_values s);
                    m = rw_append minus_dm (ax_minus_dm_values s);
                    s2 = s1\<lparr>ax_true_ranges := t, ax_plus_dm_values := p, ax_minus_dm_values := m\<rparr>
                in if \<not> rw_ready t then (Inr None, s2\<lparr>ax_value := None\<rparr>)
                   else adx_report (\<lambda>dx. dx) (s2\<lparr>ax_average_true_range := Some (dmean (rw_values t) n),
                      ax_average_plus_dm := Some (dmean (rw_values p) n), ax_average_minus_dm := Some (dmean (rw_values m) n)\<rparr>))
           | Some t \<Rightarrow>
               (let s2 = s1\<lparr>ax_average_true_range := Some (wilder n t tr)\<rparr>
                in case (ax_average_plus_dm s, ax_average_minus_dm s) of
                     (Some p, Some m) \<Rightarrow>
                       adx_report (\<lambda>dx. wilder n (case ax_value s of Some v \<Rightarrow> dm_adx v | None \<Rightarrow> dx) dx)
                         (s2\<lparr>ax_average_plus_dm := Some (wilder n p plus_dm), ax_average_minus_dm := Some (wilder n m minus_dm)\<rparr>)
                   | _ \<Rightarrow> (Inl (RuntimeError ''ADX smoothing state is not initialized''), s2)))"

section \<open>Channels and oscillators over bars\<close>

record keltner_channel =
  kc_multiplier :: decimal
  kc_middle :: ema
  kc_atr :: atr
  kc_value :: "bands_value option"

definition mk_keltner_channel :: "int \<Rightarrow> decimal \<Rightarrow> keltner_channel res" where
  [ctor_simps]: "mk_keltner_channel n multiplier =
     (if multiplier < 0 then Inl (ValueError ''multiplier must be non-negative'')
      else res_bind (mk_ema n) (\<lambda>m. res_bind (mk_atr n) (\<lambda>a.
        Inr \<lparr>kc_multiplier = multiplier, kc_middle = m, kc_atr = a, kc_value = None\<rparr>)))"

definition keltner_update_bar :: "bar \<Rightarrow> keltner_channel \<Rightarrow> bands_value option \<times> keltner_channel" where
  "keltner_update_bar b s =
     (let (middle, m) = ema_update (b_close b) (kc_middle s); (a, atr') = atr_update_bar b (kc_atr s);
          v = (case (middle, a) of
                 (Some x, Some t) \<Rightarrow> (let width = dmul t (kc_multiplier s)
                    in Some \<lparr>bv_lower = dsub x width, bv_middle = x, bv_upper = dadd x width, bv_width = t\<rparr>)
               | _ \<Rightarrow> None)
      in (v, s\<lparr>kc_middle := m, kc_atr := atr', kc_value := v\<rparr>))"

text \<open>\<open>max\<close> and \<open>min\<close> of a non-empty iterable.\<close>

definition highest :: "decimal list \<Rightarrow> decimal" where
  "highest xs = foldl max (hd xs) (tl xs)"

definition lowest :: "decimal list \<Rightarrow> decimal" where
  "lowest xs = foldl min (hd xs) (tl xs)"

record donchian_value =
  dv_lower :: decimal
  dv_middle :: decimal
  dv_upper :: decimal

record donchian_channel =
  dc_highs :: "decimal rolling_window"
  dc_lows :: "decimal rolling_window"
  dc_value :: "donchian_value option"

definition mk_donchian_channel :: "int \<Rightarrow> donchian_channel res" where
  [ctor_simps]: "mk_donchian_channel n = res_bind (mk_rolling_window n) (\<lambda>w. Inr \<lparr>dc_highs = w, dc_lows = w, dc_value = None\<rparr>)"

definition donchian_of :: "decimal list \<Rightarrow> decimal list \<Rightarrow> donchian_value" where
  "donchian_of highs lows = (let u = highest highs; l = lowest lows
     in \<lparr>dv_lower = l, dv_middle = ddiv (dadd u l) 2, dv_upper = u\<rparr>)"

definition donchian_update_bar :: "bar \<Rightarrow> donchian_channel \<Rightarrow> donchian_value option \<times> donchian_channel" where
  "donchian_update_bar b s =
     (let h = rw_append (b_high b) (dc_highs s); l = rw_append (b_low b) (dc_lows s);
          v = (if \<not> rw_ready h then None else Some (donchian_of (rw_values h) (rw_values l)))
      in (v, s\<lparr>dc_highs := h, dc_lows := l, dc_value := v\<rparr>))"

record stochastic_value =
  so_percent_k :: decimal
  so_percent_d :: decimal

record stochastic_oscillator =
  sc_signal_window :: int
  sc_highs :: "decimal rolling_window"
  sc_lows :: "decimal rolling_window"
  sc_percent_k :: "decimal rolling_window"
  sc_value :: "stochastic_value option"

definition mk_stochastic_oscillator :: "int \<Rightarrow> int \<Rightarrow> stochastic_oscillator res" where
  [ctor_simps]: "mk_stochastic_oscillator n signal =
     res_bind (mk_rolling_window n) (\<lambda>w. res_bind (mk_rolling_window signal) (\<lambda>k.
       Inr \<lparr>sc_signal_window = signal, sc_highs = w, sc_lows = w, sc_percent_k = k, sc_value = None\<rparr>))"

definition percent_k_of :: "decimal list \<Rightarrow> decimal list \<Rightarrow> decimal \<Rightarrow> decimal" where
  "percent_k_of highs lows close =
     (let price_range = dsub (highest highs) (lowest lows)
      in if price_range = 0 then 0 else dmul (ddiv (dsub close (lowest lows)) price_range) 100)"

definition stochastic_update_bar :: "bar \<Rightarrow> stochastic_oscillator \<Rightarrow> stochastic_value option \<times> stochastic_oscillator" where
  "stochastic_update_bar b s =
     (let h = rw_append (b_high b) (sc_highs s); l = rw_append (b_low b) (sc_lows s);
          s1 = s\<lparr>sc_highs := h, sc_lows := l\<rparr>
      in if \<not> rw_ready h then (None, s1\<lparr>sc_value := None\<rparr>)
         else let k = percent_k_of (rw_values h) (rw_values l) (b_close b);
                  w = rw_append k (sc_percent_k s);
                  v = (if \<not> rw_ready w then None
                       else Some \<lparr>so_percent_k = k, so_percent_d = dmean (rw_values w) (sc_signal_window s)\<rparr>)
              in (v, s1\<lparr>sc_percent_k := w, sc_value := v\<rparr>))"

record commodity_channel_index =
  cci_window :: int
  cci_typical_prices :: "decimal rolling_window"
  cci_value :: "decimal option"

definition mk_cci :: "int \<Rightarrow> commodity_channel_index res" where
  [ctor_simps]: "mk_cci n = res_bind (mk_rolling_window n) (\<lambda>w. Inr \<lparr>cci_window = n, cci_typical_prices = w, cci_value = None\<rparr>)"

definition cci_of :: "int \<Rightarrow> decimal list \<Rightarrow> decimal \<Rightarrow> decimal" where
  "cci_of n prices tp =
     (let average = dmean prices n; mean_deviation = dmean (map (\<lambda>x. dabs (dsub x average)) prices) n
      in if mean_deviation = 0 then 0 else ddiv (dsub tp average) (dmul (15 / 1000) mean_deviation))"

definition cci_update_bar :: "bar \<Rightarrow> commodity_channel_index \<Rightarrow> decimal option \<times> commodity_channel_index" where
  "cci_update_bar b s =
     (let tp = typical_price b; w = rw_append tp (cci_typical_prices s);
          v = (if \<not> rw_ready w then None else Some (cci_of (cci_window s) (rw_values w) tp))
      in (v, s\<lparr>cci_typical_prices := w, cci_value := v\<rparr>))"

record williams_r =
  wr_highs :: "decimal rolling_window"
  wr_lows :: "decimal rolling_window"
  wr_value :: "decimal option"

definition mk_williams_r :: "int \<Rightarrow> williams_r res" where
  [ctor_simps]: "mk_williams_r n = res_bind (mk_rolling_window n) (\<lambda>w. Inr \<lparr>wr_highs = w, wr_lows = w, wr_value = None\<rparr>)"

definition williams_of :: "decimal list \<Rightarrow> decimal list \<Rightarrow> decimal \<Rightarrow> decimal" where
  "williams_of highs lows close =
     (let price_range = dsub (highest highs) (lowest lows)
      in if price_range = 0 then 0 else dmul (ddiv (dsub (highest highs) close) price_range) (-100))"

definition williams_update_bar :: "bar \<Rightarrow> williams_r \<Rightarrow> decimal option \<times> williams_r" where
  "williams_update_bar b s =
     (let h = rw_append (b_high b) (wr_highs s); l = rw_append (b_low b) (wr_lows s);
          v = (if \<not> rw_ready h then None else Some (williams_of (rw_values h) (rw_values l) (b_close b)))
      in (v, s\<lparr>wr_highs := h, wr_lows := l, wr_value := v\<rparr>))"

section \<open>Volatility\<close>

definition population_standard_deviation :: "decimal list \<Rightarrow> decimal" where
  "population_standard_deviation xs =
     (let n = int (length xs) in dsqrt (variance xs (dmean xs n) n))"

record standard_deviation =
  sdv_prices :: "decimal rolling_window"
  sdv_value :: "decimal option"

definition mk_standard_deviation :: "int \<Rightarrow> standard_deviation res" where
  [ctor_simps]: "mk_standard_deviation n = res_bind (mk_rolling_window n) (\<lambda>w. Inr \<lparr>sdv_prices = w, sdv_value = None\<rparr>)"

definition standard_deviation_update :: "decimal \<Rightarrow> standard_deviation \<Rightarrow> decimal option \<times> standard_deviation" where
  "standard_deviation_update price s =
     (let w = rw_append price (sdv_prices s);
          v = (if \<not> rw_ready w then None else Some (population_standard_deviation (rw_values w)))
      in (v, s\<lparr>sdv_prices := w, sdv_value := v\<rparr>))"

record historical_volatility =
  hv_periods_per_year :: decimal
  hv_returns :: "decimal rolling_window"
  hv_previous_price :: "decimal option"
  hv_value :: "decimal option"

definition mk_historical_volatility :: "int \<Rightarrow> decimal \<Rightarrow> historical_volatility res" where
  [ctor_simps]: "mk_historical_volatility n periods =
     (if periods \<le> 0 then Inl (ValueError ''periods_per_year must be positive'')
      else res_bind (mk_rolling_window n) (\<lambda>w.
        Inr \<lparr>hv_periods_per_year = periods, hv_returns = w, hv_previous_price = None, hv_value = None\<rparr>))"

definition historical_volatility_update :: "decimal \<Rightarrow> historical_volatility \<Rightarrow> decimal option \<times> historical_volatility" where
  "historical_volatility_update price s =
     (case hv_previous_price s of
        None \<Rightarrow> (None, s\<lparr>hv_previous_price := Some price\<rparr>)
      | Some previous \<Rightarrow>
          (let s1 = s\<lparr>hv_previous_price := Some price\<rparr>
           in if previous = 0 then (None, s1\<lparr>hv_value := None\<rparr>)
              else let w = rw_append (ddiv (dsub price previous) previous) (hv_returns s);
                       v = (if \<not> rw_ready w then None
                            else Some (dmul (population_standard_deviation (rw_values w)) (dsqrt (hv_periods_per_year s))))
                   in (v, s1\<lparr>hv_returns := w, hv_value := v\<rparr>)))"

section \<open>Volume flow\<close>

record on_balance_volume =
  obv_previous_close :: "decimal option"
  obv_value :: "decimal option"

definition obv_init :: on_balance_volume where
  "obv_init = \<lparr>obv_previous_close = None, obv_value = None\<rparr>"

definition obv_update :: "decimal \<Rightarrow> decimal \<Rightarrow> on_balance_volume \<Rightarrow> (on_balance_volume, decimal) outcome" where
  "obv_update close volume s =
     (case obv_previous_close s of
        None \<Rightarrow> (Inr 0, s\<lparr>obv_previous_close := Some close, obv_value := Some 0\<rparr>)
      | Some p \<Rightarrow>
          (case obv_value s of
             None \<Rightarrow> (Inl (RuntimeError ''OBV cumulative state is not initialized''), s)
           | Some x \<Rightarrow>
               (let v = (if close > p then dadd x volume else if close < p then dsub x volume else x)
                in (Inr v, s\<lparr>obv_previous_close := Some close, obv_value := Some v\<rparr>))))"

record money_flow_index =
  mfi_positive_flows :: "decimal rolling_window"
  mfi_negative_flows :: "decimal rolling_window"
  mfi_previous_typical_price :: "decimal option"
  mfi_value :: "decimal option"

definition mk_mfi :: "int \<Rightarrow> money_flow_index res" where
  [ctor_simps]: "mk_mfi n = res_bind (mk_rolling_window n) (\<lambda>w. Inr \<lparr>mfi_positive_flows = w, mfi_negative_flows = w,
     mfi_previous_typical_price = None, mfi_value = None\<rparr>)"

definition mfi_update_bar :: "bar \<Rightarrow> money_flow_index \<Rightarrow> decimal option \<times> money_flow_index" where
  "mfi_update_bar b s =
     (let tp = typical_price b
      in case mfi_previous_typical_price s of
           None \<Rightarrow> (None, s\<lparr>mfi_previous_typical_price := Some tp\<rparr>)
         | Some prev \<Rightarrow>
             (let flow = dmul tp (b_volume b);
                  p = rw_append (if tp > prev then flow else 0) (mfi_positive_flows s);
                  m = rw_append (if tp < prev then flow else 0) (mfi_negative_flows s);
                  v = (if \<not> rw_ready p then None else Some (strength_index (dsum (rw_values p)) (dsum (rw_values m))))
              in (v, s\<lparr>mfi_previous_typical_price := Some tp, mfi_positive_flows := p, mfi_negative_flows := m, mfi_value := v\<rparr>)))"

definition money_flow_volume :: "bar \<Rightarrow> decimal" where
  "money_flow_volume b =
     (let price_range = dsub (b_high b) (b_low b)
      in if price_range = 0 then 0
         else dmul (ddiv (dsub (dsub (b_close b) (b_low b)) (dsub (b_high b) (b_close b))) price_range) (b_volume b))"

definition adl_update_bar :: "bar \<Rightarrow> decimal option \<Rightarrow> decimal \<times> decimal option" where
  "adl_update_bar b s =
     (let v = dadd (case s of None \<Rightarrow> 0 | Some x \<Rightarrow> x) (money_flow_volume b) in (v, Some v))"

record chaikin_money_flow =
  cmf_money_flow_volumes :: "decimal rolling_window"
  cmf_volumes :: "decimal rolling_window"
  cmf_value :: "decimal option"

definition mk_cmf :: "int \<Rightarrow> chaikin_money_flow res" where
  [ctor_simps]: "mk_cmf n = res_bind (mk_rolling_window n) (\<lambda>w. Inr \<lparr>cmf_money_flow_volumes = w, cmf_volumes = w, cmf_value = None\<rparr>)"

definition cmf_of :: "decimal list \<Rightarrow> decimal list \<Rightarrow> decimal" where
  "cmf_of flows volumes = (let t = dsum volumes in if t = 0 then 0 else ddiv (dsum flows) t)"

definition cmf_update_bar :: "bar \<Rightarrow> chaikin_money_flow \<Rightarrow> decimal option \<times> chaikin_money_flow" where
  "cmf_update_bar b s =
     (let f = rw_append (money_flow_volume b) (cmf_money_flow_volumes s); w = rw_append (b_volume b) (cmf_volumes s);
          v = (if \<not> rw_ready f then None else Some (cmf_of (rw_values f) (rw_values w)))
      in (v, s\<lparr>cmf_money_flow_volumes := f, cmf_volumes := w, cmf_value := v\<rparr>))"

section \<open>The square root is correctly rounded\<close>

lemma isqrt_bounds: "0 \<le> n \<Longrightarrow> 0 \<le> isqrt n \<and> isqrt n * isqrt n \<le> n \<and> n < (isqrt n + 1) * (isqrt n + 1)"
proof (induction n rule: isqrt.induct)
  case (1 n)
  show ?case
  proof (cases "n = 0")
    case False
    with 1 have IH: "0 \<le> isqrt (n div 4)" "isqrt (n div 4) * isqrt (n div 4) \<le> n div 4"
      "n div 4 < (isqrt (n div 4) + 1) * (isqrt (n div 4) + 1)" by simp_all
    define q where "q = isqrt (n div 4)"
    have "q * q * 4 \<le> n" "n < 4 * ((q + 1) * (q + 1))" using IH(2,3) unfolding q_def [symmetric] by linarith+
    then have "(2 * q) * (2 * q) \<le> n" "n < (2 * q + 1 + 1) * (2 * q + 1 + 1)" by (simp_all add: algebra_simps)
    moreover have "isqrt n = (if (2 * q + 1) * (2 * q + 1) \<le> n then 2 * q + 1 else 2 * q)"
      using False 1(2) unfolding q_def by (subst isqrt.simps) (simp add: Let_def)
    ultimately show ?thesis using IH(1) unfolding q_def [symmetric] by auto
  qed (simp add: isqrt.simps)
qed

text \<open>The result is a whole number of units of the last place, and the true root differs from it by at
  most half a unit.\<close>

lemma dsqrt_nearest:
  assumes "0 < x"
  shows "\<exists>m e. dsqrt x = of_int m * 10 powi e \<and> e = adjusted x div 2 - 27 \<and> 0 \<le> m \<and>
     x \<le> ((of_int m + 1 / 2) * 10 powi e)\<^sup>2 \<and> (1 \<le> m \<longrightarrow> ((of_int m - 1 / 2) * 10 powi e)\<^sup>2 \<le> x)"
proof -
  define e where "e = adjusted x div 2 - 27"
  define s where "s = x / 100 powi e"
  define r where "r = isqrt \<lfloor>s\<rfloor>"
  define m where "m = (if s < of_int (r * (r + 1)) + 1 / 4 \<or> s = of_int (r * (r + 1)) + 1 / 4 \<and> even r then r else r + 1)"
  have s: "0 < s" "x = s * (10 powi e)\<^sup>2"
    using assms by (simp_all add: s_def power2_eq_square flip: power_int_mult_distrib)
  from isqrt_bounds [of "\<lfloor>s\<rfloor>"] s(1) have r: "0 \<le> r" "r * r \<le> \<lfloor>s\<rfloor>" "\<lfloor>s\<rfloor> < (r + 1) * (r + 1)" by (auto simp: r_def)
  then have rr: "of_int r * of_int r \<le> s" "s < (of_int r + 1) * (of_int r + 1)"
    by (simp_all only: le_floor_iff floor_less_iff of_int_mult of_int_add of_int_1)
  have "s \<le> (of_int m + 1 / 2)\<^sup>2 \<and> (1 \<le> m \<longrightarrow> (of_int m - 1 / 2)\<^sup>2 \<le> s) \<and> 0 \<le> m"
    using r(1) rr by (auto simp: m_def power2_eq_square algebra_simps)
  moreover have "dsqrt x = of_int m * 10 powi e"
    using assms by (simp add: dsqrt_def m_def r_def s_def e_def Let_def)
  moreover have "y \<le> s \<Longrightarrow> y * (10 powi e)\<^sup>2 \<le> x" "s \<le> y \<Longrightarrow> x \<le> y * (10 powi e)\<^sup>2" for y
    unfolding s(2) by (rule mult_right_mono, assumption, rule zero_le_power2)+
  ultimately show ?thesis unfolding power_mult_distrib by (intro exI [of _ m] exI [of _ e]) (simp add: e_def)
qed

lemma dsqrt_nonneg [simp]: "0 \<le> dsqrt x"
proof (cases "0 < x")
  case True
  from dsqrt_nearest [OF this] show ?thesis by (metis mult_nonneg_nonneg of_int_0_le_iff zero_le_power_int zero_le_numeral)
qed (simp add: dsqrt_def)

section \<open>Windows hold the most recent inputs\<close>

text \<open>The last \<open>n\<close> elements of a list, all of it when it is shorter.\<close>

definition last_n :: "nat \<Rightarrow> 'a list \<Rightarrow> 'a list" where
  "last_n n xs = drop (length xs - n) xs"

lemma length_last_n [simp]: "length (last_n n xs) = min n (length xs)"
  by (simp add: last_n_def)

lemma push_last_n: "push n (last_n n xs) x = last_n n (xs @ [x])"
  by (cases "length xs < n") (auto simp: push_def last_n_def Suc_diff_le)

lemma map_push [simp]: "map f (push n xs x) = push n (map f xs) (f x)"
  by (simp add: push_def flip: drop_map)

lemma last_push: "0 < n \<Longrightarrow> last (push n xs x) = x"
  by (auto simp: push_def last_drop)

text \<open>Feeding an indicator a list of inputs; the outputs, in order.\<close>

fun feed :: "('i \<Rightarrow> 's \<Rightarrow> 'o \<times> 's) \<Rightarrow> 's \<Rightarrow> 'i list \<Rightarrow> 'o list" where
  "feed update s [] = []"
| "feed update s (x # xs) = fst (update x s) # feed update (snd (update x s)) xs"

text \<open>The batch definition of a windowed indicator: nothing until \<open>n\<close> inputs have come, then a function
  of the last \<open>n\<close>.\<close>

definition windowed :: "nat \<Rightarrow> ('i list \<Rightarrow> 'o option) \<Rightarrow> 'i list \<Rightarrow> 'o option" where
  "windowed n f xs = (if length xs < n then None else f (last_n n xs))"

text \<open>The contract of a windowed indicator: whenever its state holds the window \<open>w\<close>, an update moves
  the window on by one input and answers by a function of the new window alone, as soon as the
  window is full.\<close>

locale windowed_indicator =
  fixes update :: "'i \<Rightarrow> 's \<Rightarrow> 'o option \<times> 's"
    and holds :: "nat \<Rightarrow> 'c \<Rightarrow> 's \<Rightarrow> 'i list \<Rightarrow> bool"
    and compute :: "'c \<Rightarrow> 'i list \<Rightarrow> 'o option"
  assumes window_moves: "0 < n \<Longrightarrow> holds n c s w \<Longrightarrow> holds n c (snd (update x s)) (push n w x)"
    and window_answers: "0 < n \<Longrightarrow> holds n c s w \<Longrightarrow>
      fst (update x s) = (if length (push n w x) < n then None else compute c (push n w x))"
begin

lemma feed_batch:
  assumes "0 < n" and "holds n c s (last_n n ys)"
  shows "feed update s xs = map (\<lambda>k. windowed n (compute c) (ys @ take (Suc k) xs)) [0..<length xs]"
  using assms(2)
proof (induction xs arbitrary: s ys)
  case (Cons x xs)
  have "holds n c (snd (update x s)) (last_n n (ys @ [x]))"
    using window_moves [OF assms(1) Cons.prems] by (simp add: push_last_n)
  from Cons.IH [OF this] window_answers [OF assms(1) Cons.prems, of x] show ?case
    unfolding push_last_n by (auto simp: windowed_def upt_conv_Cons map_Suc_upt [symmetric] o_def simp del: upt_Suc)
qed simp

lemma fresh_batch:
  assumes "0 < n" and "holds n c s []"
  shows "feed update s xs = map (\<lambda>k. windowed n (compute c) (take (Suc k) xs)) [0..<length xs]"
  using feed_batch [of n c s "[]" xs] assms by (simp add: last_n_def)

end

lemma rw_append_simps [simp]:
  "rw_values (rw_append x w) = push (nat (rw_size w)) (rw_values w) x" "rw_size (rw_append x w) = rw_size w"
  by (simp_all add: rw_append_def)

lemma length_push [simp]: "length (push n xs x) = min n (Suc (length xs))"
  by (simp add: push_def)

lemma rw_ready_append: "rw_size w = int n \<Longrightarrow> rw_ready (rw_append x w) \<longleftrightarrow> n \<le> Suc (length (rw_values w))"
  by (auto simp: rw_ready_def min_def)

lemma mk_rolling_window_Inr: "mk_rolling_window n = Inr w \<longleftrightarrow> 0 < n \<and> w = \<lparr>rw_size = n, rw_values = []\<rparr>"
  by (auto simp: ctor_simps split: if_splits)

text \<open>A window of size \<open>n\<close> with the given contents.\<close>

abbreviation window_is :: "nat \<Rightarrow> 'a rolling_window \<Rightarrow> 'a list \<Rightarrow> bool" where
  "window_is n w xs \<equiv> rw_size w = int n \<and> rw_values w = xs"

lemmas window_simps = rw_ready_append last_push min_absorb1 Let_def

interpretation sma: windowed_indicator sma_update
  "\<lambda>n (_ :: unit) s w. sma_window s = int n \<and> window_is n (sma_values s) w"
  "\<lambda>_ w. Some (dmean w (int (length w)))"
  by unfold_locales (auto simp: sma_update_def window_simps)

interpretation vr: windowed_indicator volume_ratio_update
  "\<lambda>n (_ :: unit) s w. vr_window s = int n \<and> window_is n (vr_volumes s) w"
  "\<lambda>_ w. let a = dmean w (int (length w)) in Some (if a = 0 then 1 else ddiv (last w) a)"
  by unfold_locales (auto simp: volume_ratio_update_def window_simps)

interpretation bb: windowed_indicator bollinger_update
  "\<lambda>n k s w. bb_window s = int n \<and> bb_standard_deviations s = k \<and> window_is n (bb_prices s) w"
  "\<lambda>k w. Some (bollinger_of (int (length w)) k w)"
  by unfold_locales (auto simp: bollinger_update_def window_simps)

interpretation roc: windowed_indicator rate_of_change_update
  "\<lambda>n (_ :: unit) s w. window_is n (rc_prices s) w"
  "\<lambda>_ w. if hd w = 0 then None else Some (dmul (ddiv (dsub (last w) (hd w)) (hd w)) 100)"
  by unfold_locales (auto simp: rate_of_change_update_def window_simps)

interpretation sdv: windowed_indicator standard_deviation_update
  "\<lambda>n (_ :: unit) s w. window_is n (sdv_prices s) w" "\<lambda>_ w. Some (population_standard_deviation w)"
  by unfold_locales (auto simp: standard_deviation_update_def window_simps)

interpretation dc: windowed_indicator donchian_update_bar
  "\<lambda>n (_ :: unit) s w. window_is n (dc_highs s) (map b_high w) \<and> window_is n (dc_lows s) (map b_low w)"
  "\<lambda>_ w. Some (donchian_of (map b_high w) (map b_low w))"
  by unfold_locales (auto simp: donchian_update_bar_def window_simps)

interpretation cci: windowed_indicator cci_update_bar
  "\<lambda>n (_ :: unit) s w. cci_window s = int n \<and> window_is n (cci_typical_prices s) (map typical_price w)"
  "\<lambda>_ w. Some (cci_of (int (length w)) (map typical_price w) (typical_price (last w)))"
  by unfold_locales (auto simp: cci_update_bar_def window_simps)

interpretation wr: windowed_indicator williams_update_bar
  "\<lambda>n (_ :: unit) s w. window_is n (wr_highs s) (map b_high w) \<and> window_is n (wr_lows s) (map b_low w)"
  "\<lambda>_ w. Some (williams_of (map b_high w) (map b_low w) (b_close (last w)))"
  by unfold_locales (auto simp: williams_update_bar_def window_simps)

interpretation cmf: windowed_indicator cmf_update_bar
  "\<lambda>n (_ :: unit) s w. window_is n (cmf_money_flow_volumes s) (map money_flow_volume w) \<and> window_is n (cmf_volumes s) (map b_volume w)"
  "\<lambda>_ w. Some (cmf_of (map money_flow_volume w) (map b_volume w))"
  by unfold_locales (auto simp: cmf_update_bar_def window_simps)

section \<open>Ranges\<close>

lemma ddiv_unit: "0 \<le> a \<Longrightarrow> a \<le> b \<Longrightarrow> 0 < b \<Longrightarrow> 0 \<le> ddiv a b \<and> ddiv a b \<le> 1"
  using ctx_round_mono [of "a / b" 1] by (simp add: ddiv_def)

lemma ddiv_abs_unit:
  assumes "\<bar>a\<bar> \<le> b" and "0 < b"
  shows "\<bar>ddiv a b\<bar> \<le> 1"
proof -
  have "\<bar>a / b\<bar> \<le> 1" using assms by (simp add: abs_div)
  from ctx_round_mono [OF this] show ?thesis unfolding ddiv_def ctx_round_abs by simp
qed

lemma ddiv_sign [simp]: "0 \<le> ddiv a b \<longleftrightarrow> 0 \<le> a / b" "ddiv a b = 0 \<longleftrightarrow> a = 0 \<or> b = 0"
  by (simp_all add: ddiv_def)

lemma dmul_percent: "0 \<le> a \<Longrightarrow> a \<le> 1 \<Longrightarrow> 0 \<le> dmul a 100 \<and> dmul a 100 \<le> 100"
  using ctx_round_mono [of "a * 100" 100] by (simp add: dmul_def)

lemma percent_of:
  "0 \<le> a \<Longrightarrow> a \<le> b \<Longrightarrow> 0 < b \<Longrightarrow> 0 \<le> dmul (ddiv a b) 100 \<and> dmul (ddiv a b) 100 \<le> 100"
  using ddiv_unit dmul_percent by blast

lemma dsub_mono: "a \<le> b \<Longrightarrow> d \<le> c \<Longrightarrow> dsub a c \<le> dsub b d"
  by (simp add: dsub_def ctx_round_mono)

lemma dsum_nonneg: "list_all (\<lambda>x. 0 \<le> x) xs \<Longrightarrow> 0 \<le> dsum xs"
proof -
  have "0 \<le> a \<Longrightarrow> list_all (\<lambda>x. 0 \<le> x) xs \<Longrightarrow> 0 \<le> foldl dadd a xs" for a
    by (induction xs arbitrary: a) auto
  then show "list_all (\<lambda>x. 0 \<le> x) xs \<Longrightarrow> 0 \<le> dsum xs" by (simp add: dsum_def)
qed

lemma strength_index_range: "0 \<le> up \<Longrightarrow> 0 \<le> down \<Longrightarrow> 0 \<le> strength_index up down \<and> strength_index up down \<le> 100"
proof (cases "down = 0")
  case False
  assume "0 \<le> up" "0 \<le> down"
  then have "1 \<le> dadd 1 (ddiv up down)"
    using ctx_round_mono [of 1 "1 + ddiv up down"] by (simp add: dadd_def)
  then have "0 \<le> 100 / dadd 1 (ddiv up down) \<and> 100 / dadd 1 (ddiv up down) \<le> 100"
    by (simp add: field_simps del: dec_sign_simps)
  then have "0 \<le> ddiv 100 (dadd 1 (ddiv up down)) \<and> ddiv 100 (dadd 1 (ddiv up down)) \<le> 100"
    using ctx_round_mono [of "100 / dadd 1 (ddiv up down)" 100] by (simp add: ddiv_def)
  with False show ?thesis using ctx_round_mono [of "100 - ddiv 100 (dadd 1 (ddiv up down))" 100]
    by (simp add: strength_index_def dsub_def)
qed (simp add: strength_index_def)

lemma dmean_nonneg: "list_all (\<lambda>x. 0 \<le> x) xs \<Longrightarrow> 0 \<le> n \<Longrightarrow> 0 \<le> dmean xs n"
  by (simp add: dmean_def dsum_nonneg)

lemma wilder_nonneg: "0 \<le> old \<Longrightarrow> 0 \<le> new \<Longrightarrow> 1 \<le> n \<Longrightarrow> 0 \<le> wilder n old new"
  by (simp add: wilder_def)

text \<open>Wilder smoothing keeps a bound, as long as the window times the bound is represented exactly.\<close>

lemma wilder_bound:
  assumes "old \<le> 100" and "new \<le> 100" and "1 \<le> n" and "n \<le> 10 ^ 25"
  shows "wilder n old new \<le> 100"
proof -
  have r: "ctx_round (of_int (100 * k)) = of_int (100 * k)" if "0 \<le> k" "k \<le> n" for k
    by (rule ctx_round_exact [OF rep28_of_int]) (use that assms(4) in simp)
  have "dmul old (of_int (n - 1)) \<le> dmul 100 (of_int (n - 1))" using assms by (intro dec_mono) auto
  also have "\<dots> = 100 * of_int (n - 1)" using r [of "n - 1"] assms(3) by (simp add: dmul_def)
  finally have "dadd (dmul old (of_int (n - 1))) new \<le> dadd (100 * of_int (n - 1)) 100" using assms(2) by (rule dec_mono)
  also have "\<dots> = 100 * of_int n" using r [of n] assms(3) by (simp add: dadd_def algebra_simps)
  finally have "dadd (dmul old (of_int (n - 1))) new / of_int n \<le> 100" using assms(3) by (simp add: field_simps)
  from ctx_round_mono [OF this] show ?thesis by (simp add: wilder_def ddiv_def)
qed

lemma foldl_max_ge: "(a :: decimal) \<le> foldl max a xs \<and> (\<forall>x \<in> set xs. x \<le> foldl max a xs)"
proof (induction xs arbitrary: a)
  case (Cons x xs)
  from Cons [of "max a x"] show ?case by auto
qed simp

lemma foldl_min_le: "foldl min (a :: decimal) xs \<le> a \<and> (\<forall>x \<in> set xs. foldl min a xs \<le> x)"
proof (induction xs arbitrary: a)
  case (Cons x xs)
  from Cons [of "min a x"] show ?case by auto
qed simp

lemma highest_ge: "x \<in> set xs \<Longrightarrow> x \<le> highest xs"
  using foldl_max_ge [of "hd xs" "tl xs"] by (cases xs) (auto simp: highest_def)

lemma lowest_le: "x \<in> set xs \<Longrightarrow> lowest xs \<le> x"
  using foldl_min_le [of "hd xs" "tl xs"] by (cases xs) (auto simp: lowest_def)

text \<open>A valid bar whose decimals are exactly representable.\<close>

definition good_bar :: "bar \<Rightarrow> bool" where
  "good_bar b \<longleftrightarrow> mk_bar b = Inr b \<and> rep28 (b_volume b)"

lemma good_bar_prices:
  assumes "good_bar b"
  shows "b_low b \<le> b_close b" "b_close b \<le> b_high b" "b_low b \<le> b_high b" "0 \<le> b_volume b"
proof -
  have b: "raise_first (bar_checks b) = None" using assms by (simp add: good_bar_def mk_bar_def)
  then have "\<forall>(c, e) \<in> set (bar_checks b). \<not> c" by (simp only: raise_first_None_iff)
  then show "b_low b \<le> b_close b" "b_close b \<le> b_high b" "b_low b \<le> b_high b" "0 \<le> b_volume b"
    by (auto simp: bar_checks_def require_non_negative_def)
qed

lemma range_oscillator_bounds:
  assumes "w \<noteq> []" and "good_bar (last w)"
  shows "0 \<le> percent_k_of (map b_high w) (map b_low w) (b_close (last w)) \<and>
      percent_k_of (map b_high w) (map b_low w) (b_close (last w)) \<le> 100"
    and "-100 \<le> williams_of (map b_high w) (map b_low w) (b_close (last w)) \<and>
      williams_of (map b_high w) (map b_low w) (b_close (last w)) \<le> 0"
proof -
  let ?h = "highest (map b_high w)" and ?l = "lowest (map b_low w)" and ?c = "b_close (last w)"
  have "last w \<in> set w" using assms(1) by simp
  then have b: "?l \<le> ?c" "?c \<le> ?h"
    using lowest_le [of "b_low (last w)" "map b_low w"] highest_ge [of "b_high (last w)" "map b_high w"] good_bar_prices [OF assms(2)]
    by (auto intro: order_trans)
  then have p: "0 \<le> dsub ?c ?l" "dsub ?c ?l \<le> dsub ?h ?l" "0 \<le> dsub ?h ?c" "dsub ?h ?c \<le> dsub ?h ?l"
    by (simp_all add: dsub_mono)
  then show "0 \<le> percent_k_of (map b_high w) (map b_low w) ?c \<and> percent_k_of (map b_high w) (map b_low w) ?c \<le> 100"
    using percent_of [OF p(1,2)] by (auto simp: percent_k_of_def Let_def)
  have "dmul (ddiv (dsub ?h ?c) (dsub ?h ?l)) (-100) = - dmul (ddiv (dsub ?h ?c) (dsub ?h ?l)) 100" by (simp add: dmul_def)
  then show "-100 \<le> williams_of (map b_high w) (map b_low w) ?c \<and> williams_of (map b_high w) (map b_low w) ?c \<le> 0"
    using percent_of [OF p(3,4)] p by (auto simp: williams_of_def Let_def)
qed

lemma money_flow_volume_bound:
  assumes "good_bar b"
  shows "\<bar>money_flow_volume b\<bar> \<le> b_volume b"
proof (cases "dsub (b_high b) (b_low b) = 0")
  case False
  note p = good_bar_prices [OF assms]
  let ?r = "dsub (b_high b) (b_low b)" and ?x = "dsub (dsub (b_close b) (b_low b)) (dsub (b_high b) (b_close b))"
  have r: "0 < ?r" using False p by auto
  have "0 \<le> dsub (b_close b) (b_low b)" "dsub (b_close b) (b_low b) \<le> ?r" "0 \<le> dsub (b_high b) (b_close b)" "dsub (b_high b) (b_close b) \<le> ?r"
    using p by (simp_all add: dsub_mono)
  then have "\<bar>dsub (b_close b) (b_low b) - dsub (b_high b) (b_close b)\<bar> \<le> ?r" by linarith
  from ctx_round_mono [OF this] have "\<bar>?x\<bar> \<le> ?r" by (simp add: dsub_def ctx_round_abs)
  then have "\<bar>ddiv ?x ?r\<bar> \<le> 1" using r by (rule ddiv_abs_unit)
  then have "\<bar>ddiv ?x ?r * b_volume b\<bar> \<le> b_volume b" using p(4) by (simp add: abs_mult mult_left_le_one_le)
  from ctx_round_mono [OF this] have "\<bar>dmul (ddiv ?x ?r) (b_volume b)\<bar> \<le> ctx_round (b_volume b)" by (simp add: dmul_def ctx_round_abs)
  with False assms show ?thesis by (simp add: money_flow_volume_def good_bar_def ctx_round_exact)
qed (use good_bar_prices [OF assms] in \<open>simp add: money_flow_volume_def\<close>)

lemma dsum_abs_le: "list_all (\<lambda>b. \<bar>f b\<bar> \<le> g b) w \<Longrightarrow> \<bar>dsum (map f w)\<bar> \<le> dsum (map g w)"
proof -
  have "\<bar>x\<bar> \<le> y \<Longrightarrow> list_all (\<lambda>b. \<bar>f b\<bar> \<le> g b) w \<Longrightarrow> \<bar>foldl dadd x (map f w)\<bar> \<le> foldl dadd y (map g w)" for x y
    by (induction w arbitrary: x y) (auto simp: dadd_abs_le)
  then show "list_all (\<lambda>b. \<bar>f b\<bar> \<le> g b) w \<Longrightarrow> \<bar>dsum (map f w)\<bar> \<le> dsum (map g w)" by (simp add: dsum_def)
qed

lemma cmf_bound:
  assumes "list_all good_bar w"
  shows "\<bar>cmf_of (map money_flow_volume w) (map b_volume w)\<bar> \<le> 1"
proof (cases "dsum (map b_volume w) = 0")
  case False
  have le: "\<bar>dsum (map money_flow_volume w)\<bar> \<le> dsum (map b_volume w)"
    by (rule dsum_abs_le) (use assms in \<open>auto simp: list_all_iff money_flow_volume_bound\<close>)
  with False have "0 < dsum (map b_volume w)" by linarith
  from ddiv_abs_unit [OF le this] False show ?thesis by (simp add: cmf_of_def)
qed (simp add: cmf_of_def)

section \<open>Ranges over whole runs\<close>

text \<open>The contract of an indicator with a bounded output: its invariant is kept by every update, and
  under it every answer is in range.\<close>

locale bounded_indicator =
  fixes update :: "'i \<Rightarrow> 's \<Rightarrow> 'o \<times> 's"
    and inv :: "'s \<Rightarrow> bool"
    and input_ok :: "'i \<Rightarrow> bool"
    and in_range :: "'o \<Rightarrow> bool"
  assumes update_inv: "inv s \<Longrightarrow> input_ok x \<Longrightarrow> inv (snd (update x s))"
    and update_range: "inv s \<Longrightarrow> input_ok x \<Longrightarrow> in_range (fst (update x s))"
begin

lemma feed_range: "inv s \<Longrightarrow> list_all input_ok xs \<Longrightarrow> list_all in_range (feed update s xs)"
  by (induction xs arbitrary: s) (auto simp: update_inv update_range)

end

lemma list_all_push: "list_all P xs \<Longrightarrow> P x \<Longrightarrow> list_all P (push n xs x)"
  unfolding push_def list_all_iff using in_set_dropD by fastforce

lemma list_all2_push: "list_all2 R xs ys \<Longrightarrow> R x y \<Longrightarrow> list_all2 R (push n xs x) (push n ys y)"
  unfolding push_def by (metis list_all2_lengthD list_all2_dropI list_all2_Cons list_all2_Nil list_all2_appendI)

definition percent :: "decimal \<Rightarrow> bool" where
  "percent x \<longleftrightarrow> 0 \<le> x \<and> x \<le> 100"

lemma dabs_min_nonneg: "0 \<le> dabs (min x 0)" by simp

definition rsi_inv :: "rsi \<Rightarrow> bool" where
  "rsi_inv s \<longleftrightarrow> 1 \<le> rsi_window s \<and> list_all (\<lambda>x. 0 \<le> x) (rw_values (rsi_gains s)) \<and>
     list_all (\<lambda>x. 0 \<le> x) (rw_values (rsi_losses s)) \<and>
     (rsi_value s \<noteq> None \<longrightarrow> (\<exists>g l. rsi_average_gain s = Some g \<and> rsi_average_loss s = Some l \<and> 0 \<le> g \<and> 0 \<le> l))"

lemma rsi_finish_ok:
  assumes "rsi_average_gain s = Some g" "rsi_average_loss s = Some l" "0 \<le> g" "0 \<le> l"
  shows "\<exists>v. rsi_finish s = (Inr (Some v), s\<lparr>rsi_value := Some v\<rparr>) \<and> percent v"
  using assms strength_index_range [of g l] by (simp add: rsi_finish_def rsi_from_averages_def percent_def)

lemma rsi_step:
  assumes "rsi_inv s"
  shows "\<exists>v. fst (rsi_update p s) = Inr v \<and> pred_option percent v \<and> rsi_inv (snd (rsi_update p s))"
proof (cases "rsi_previous_price s")
  case None
  with assms show ?thesis by (simp add: rsi_update_def rsi_inv_def)
next
  case (Some q)
  let ?gain = "max (dsub p q) 0" and ?loss = "dabs (min (dsub p q) 0)" and ?n = "rsi_window s"
  let ?g = "rw_append ?gain (rsi_gains s)" and ?l = "rw_append ?loss (rsi_losses s)"
  have pos: "0 \<le> ?gain" "0 \<le> ?loss" by simp_all
  from assms have n: "1 \<le> ?n" and w: "list_all (\<lambda>x. 0 \<le> x) (rw_values ?g)" "list_all (\<lambda>x. 0 \<le> x) (rw_values ?l)"
    by (auto simp: rsi_inv_def list_all_push)
  show ?thesis
  proof (cases "rsi_value s")
    case None
    let ?s = "s\<lparr>rsi_previous_price := Some p, rsi_gains := ?g, rsi_losses := ?l,
      rsi_average_gain := Some (dmean (rw_values ?g) ?n), rsi_average_loss := Some (dmean (rw_values ?l) ?n)\<rparr>"
    have "\<exists>v. rsi_finish ?s = (Inr (Some v), ?s\<lparr>rsi_value := Some v\<rparr>) \<and> percent v"
      by (rule rsi_finish_ok) (use n w dmean_nonneg in \<open>force+\<close>)
    with None Some n w show ?thesis by (auto simp: rsi_update_def rsi_inv_def Let_def dmean_nonneg)
  next
    case (Some v)
    with assms obtain g l where a: "rsi_average_gain s = Some g" "rsi_average_loss s = Some l" "0 \<le> g" "0 \<le> l"
      by (auto simp: rsi_inv_def)
    let ?s = "s\<lparr>rsi_previous_price := Some p, rsi_average_gain := Some (wilder ?n g ?gain), rsi_average_loss := Some (wilder ?n l ?loss)\<rparr>"
    have "\<exists>v. rsi_finish ?s = (Inr (Some v), ?s\<lparr>rsi_value := Some v\<rparr>) \<and> percent v"
      by (rule rsi_finish_ok) (use n pos a wilder_nonneg in \<open>force+\<close>)
    with Some \<open>rsi_previous_price s = Some q\<close> a n assms show ?thesis
      by (auto simp: rsi_update_def rsi_inv_def Let_def wilder_nonneg)
  qed
qed

interpretation rsi_bounded: bounded_indicator rsi_update rsi_inv "\<lambda>_. True" "\<lambda>r. \<exists>v. r = Inr v \<and> pred_option percent v"
  using rsi_step by unfold_locales blast+

lemma typical_price_nonneg: "good_bar b \<Longrightarrow> 0 \<le> b_low b \<Longrightarrow> 0 \<le> typical_price b"
  using good_bar_prices [of b] by (simp add: typical_price_def)

definition mfi_inv :: "money_flow_index \<Rightarrow> bool" where
  "mfi_inv s \<longleftrightarrow> list_all (\<lambda>x. 0 \<le> x) (rw_values (mfi_positive_flows s)) \<and> list_all (\<lambda>x. 0 \<le> x) (rw_values (mfi_negative_flows s))"

interpretation mfi_bounded: bounded_indicator mfi_update_bar mfi_inv "\<lambda>b. good_bar b \<and> 0 \<le> b_low b" "pred_option percent"
proof
  fix s b assume s: "mfi_inv s" and b: "good_bar b \<and> 0 \<le> b_low b"
  have flow: "0 \<le> dmul (typical_price b) (b_volume b)" using b typical_price_nonneg good_bar_prices [of b] by simp
  show "mfi_inv (snd (mfi_update_bar b s))"
    using s flow by (auto simp: mfi_update_bar_def mfi_inv_def Let_def list_all_push split: option.splits)
  show "pred_option percent (fst (mfi_update_bar b s))"
    using s flow by (auto simp: mfi_update_bar_def mfi_inv_def Let_def percent_def strength_index_range dsum_nonneg list_all_push
        simp del: dec_sign_simps split: option.splits)
qed

lemma dsum_bound:
  assumes "list_all (\<lambda>x. x \<le> 100) xs" and "length xs \<le> 10 ^ 25"
  shows "dsum xs \<le> 100 * of_nat (length xs)"
  using assms
proof (induction xs rule: rev_induct)
  case (snoc x xs)
  then have "dsum xs \<le> 100 * of_nat (length xs)" by simp
  then have "dadd (dsum xs) x \<le> ctx_round (100 * of_nat (length xs) + 100)" using snoc.prems unfolding dadd_def by (intro ctx_round_mono) auto
  also have "100 * of_nat (length xs) + 100 = of_int (100 * (int (length xs) + 1))" by simp
  also have "ctx_round \<dots> = \<dots>" by (rule ctx_round_exact [OF rep28_of_int]) (use snoc.prems in simp)
  finally show ?case by (simp add: dsum_def)
qed (simp add: dsum_def)

lemma dmean_percent:
  assumes "list_all percent xs" and "0 < length xs" and "length xs \<le> 10 ^ 25"
  shows "percent (dmean xs (int (length xs)))"
proof -
  from assms(1) have "list_all (\<lambda>x. x \<le> 100) xs" "list_all (\<lambda>x. 0 \<le> x) xs" by (auto simp: percent_def list_all_iff)
  from dsum_bound [OF this(1) assms(3)] dsum_nonneg [OF this(2)] assms(2) show ?thesis
    using ctx_round_mono [of "dsum xs / of_nat (length xs)" 100] by (simp add: percent_def dmean_def ddiv_def field_simps)
qed

definition stochastic_inv :: "stochastic_oscillator \<Rightarrow> bool" where
  "stochastic_inv s \<longleftrightarrow> 0 < sc_signal_window s \<and> sc_signal_window s \<le> 10 ^ 25 \<and> rw_size (sc_percent_k s) = sc_signal_window s \<and>
     0 < rw_size (sc_highs s) \<and> rw_size (sc_lows s) = rw_size (sc_highs s) \<and> list_all percent (rw_values (sc_percent_k s)) \<and>
     (\<exists>w :: bar list. rw_values (sc_highs s) = map b_high w \<and> rw_values (sc_lows s) = map b_low w)"

lemma stochastic_step:
  assumes "stochastic_inv s" and "good_bar b"
  shows "stochastic_inv (snd (stochastic_update_bar b s)) \<and>
     pred_option (\<lambda>v. percent (so_percent_k v) \<and> percent (so_percent_d v)) (fst (stochastic_update_bar b s))"
proof -
  from assms(1) obtain w :: "bar list" where w: "rw_values (sc_highs s) = map b_high w" "rw_values (sc_lows s) = map b_low w"
    and z: "0 < rw_size (sc_highs s)" "rw_size (sc_lows s) = rw_size (sc_highs s)" by (auto simp: stochastic_inv_def)
  let ?w = "push (nat (rw_size (sc_highs s))) w b" and ?h = "rw_append (b_high b) (sc_highs s)" and ?l = "rw_append (b_low b) (sc_lows s)"
  let ?k = "percent_k_of (rw_values ?h) (rw_values ?l) (b_close b)"
  have v: "rw_values ?h = map b_high ?w" "rw_values ?l = map b_low ?w" using w z by simp_all
  have "?w \<noteq> []" "last ?w = b" using z last_push [of "nat (rw_size (sc_highs s))" w b]
    by (auto simp: push_def)
  with range_oscillator_bounds(1) [of ?w] assms(2) have k: "percent ?k" unfolding v by (simp add: percent_def)
  let ?p = "rw_append ?k (sc_percent_k s)"
  have kp: "list_all percent (rw_values ?p)" using assms(1) k by (auto simp: stochastic_inv_def intro!: list_all_push)
  have "percent (dmean (rw_values ?p) (sc_signal_window s))" if "rw_ready ?p"
  proof -
    have "0 < length (rw_values ?p)" using assms(1) by (simp add: stochastic_inv_def)
    with dmean_percent [OF kp] that assms(1) show ?thesis by (auto simp: rw_ready_def stochastic_inv_def simp del: rw_append_simps(1))
  qed
  moreover have "\<exists>w :: bar list. rw_values ?h = map b_high w \<and> rw_values ?l = map b_low w" using v by blast
  ultimately show ?thesis using k kp assms(1)
    unfolding stochastic_update_bar_def Let_def stochastic_inv_def by (auto simp del: rw_append_simps(1))
qed

interpretation stochastic_bounded: bounded_indicator stochastic_update_bar stochastic_inv good_bar
  "pred_option (\<lambda>v. percent (so_percent_k v) \<and> percent (so_percent_d v))"
  using stochastic_step by unfold_locales blast+

lemma dsum_mono: "list_all2 (\<le>) xs ys \<Longrightarrow> dsum xs \<le> dsum ys"
proof -
  have "a \<le> b \<Longrightarrow> list_all2 (\<le>) xs ys \<Longrightarrow> foldl dadd a xs \<le> foldl dadd b ys" for a b
    by (induction xs arbitrary: a b ys) (auto simp: list_all2_Cons1 dec_mono)
  then show "list_all2 (\<le>) xs ys \<Longrightarrow> dsum xs \<le> dsum ys" by (simp add: dsum_def)
qed

lemma ddiv_mono: "a \<le> b \<Longrightarrow> 0 < c \<Longrightarrow> ddiv a c \<le> ddiv b c"
  by (simp add: ddiv_def ctx_round_mono divide_right_mono)

lemma dmean_mono: "list_all2 (\<le>) xs ys \<Longrightarrow> 0 < n \<Longrightarrow> dmean xs n \<le> dmean ys n"
  by (simp add: dmean_def dsum_mono ddiv_mono)

lemma wilder_mono: "a \<le> b \<Longrightarrow> c \<le> d \<Longrightarrow> 1 \<le> n \<Longrightarrow> wilder n a c \<le> wilder n b d"
  unfolding wilder_def by (intro ddiv_mono dec_mono) auto

text \<open>Both directional movements of a bar are non-negative and at most its true range.\<close>

definition adx_inv :: "adx \<Rightarrow> bool" where
  "adx_inv s \<longleftrightarrow> 1 \<le> ax_window s \<and> ax_window s \<le> 10 ^ 25 \<and>
     (case (ax_previous_high s, ax_previous_low s, ax_previous_close s) of
        (None, None, None) \<Rightarrow> True | (Some h, Some l, Some c) \<Rightarrow> l \<le> c \<and> c \<le> h | _ \<Rightarrow> False) \<and>
     list_all (\<lambda>x. 0 \<le> x) (rw_values (ax_plus_dm_values s)) \<and> list_all (\<lambda>x. 0 \<le> x) (rw_values (ax_minus_dm_values s)) \<and>
     rw_size (ax_plus_dm_values s) = rw_size (ax_true_ranges s) \<and> rw_size (ax_minus_dm_values s) = rw_size (ax_true_ranges s) \<and>
     list_all2 (\<le>) (rw_values (ax_plus_dm_values s)) (rw_values (ax_true_ranges s)) \<and>
     list_all2 (\<le>) (rw_values (ax_minus_dm_values s)) (rw_values (ax_true_ranges s)) \<and>
     (\<forall>t. ax_average_true_range s = Some t \<longrightarrow>
        (\<exists>p m. ax_average_plus_dm s = Some p \<and> ax_average_minus_dm s = Some m \<and> 0 \<le> p \<and> p \<le> t \<and> 0 \<le> m \<and> m \<le> t)) \<and>
     (\<forall>v. ax_value s = Some v \<longrightarrow> percent (dm_adx v))"

lemma directional_inputs_ok:
  assumes "adx_inv s" and "good_bar b" and "directional_inputs s b = (t, p, m)"
  shows "0 \<le> p" "p \<le> t" "0 \<le> m" "m \<le> t"
proof -
  have b: "b_low b \<le> b_high b" "0 \<le> dsub (b_high b) (b_low b)" using good_bar_prices [OF assms(2)] by simp_all
  have "0 \<le> p \<and> p \<le> t \<and> 0 \<le> m \<and> m \<le> t"
  proof (cases "ax_previous_close s")
    case None
    with assms(3) b show ?thesis by (auto simp: directional_inputs_def)
  next
    case (Some c)
    with assms(1) obtain h l where hl: "ax_previous_high s = Some h" "ax_previous_low s = Some l" "l \<le> c" "c \<le> h"
      by (auto simp: adx_inv_def split: option.splits)
    have up: "dsub (b_high b) h \<le> dsub (b_high b) c" and down: "dsub l (b_low b) \<le> dsub c (b_low b)" using hl by (simp_all add: dsub_mono)
    have abs: "dsub x y \<le> dabs (dsub x y)" "dsub x y \<le> dabs (dsub y x)" for x y
      using ctx_round_abs [of "x - y"] ctx_round_abs [of "y - x"] ctx_round_minus [of "y - x"] unfolding dabs_def dsub_def ctx_round_abs by simp_all
    have "dsub (b_high b) h \<le> dabs (dsub (b_high b) c)" "dsub l (b_low b) \<le> dabs (dsub (b_low b) c)"
      using up abs(1) down abs(2) order_trans by blast+
    with assms(3) Some hl b show ?thesis
      by (auto simp: directional_inputs_def true_range_def Let_def le_max_iff_disj)
  qed
  then show "0 \<le> p" "p \<le> t" "0 \<le> m" "m \<le> t" by simp_all
qed

lemma di_line_percent: "0 \<le> d \<Longrightarrow> d \<le> t \<Longrightarrow> percent (di_line (Some t) (Some d))"
  using percent_of [of d t] by (auto simp: di_line_def percent_def)

lemma dx_percent:
  assumes "percent (plus_di s)" and "percent (minus_di s)"
  shows "percent (dx_of s)"
proof -
  let ?p = "plus_di s" and ?m = "minus_di s"
  have "\<bar>?p - ?m\<bar> \<le> ?p + ?m" using assms by (auto simp: percent_def)
  from ctx_round_mono [OF this] have "dabs (dsub ?p ?m) \<le> dadd ?p ?m"
    unfolding dabs_def dsub_def dadd_def ctx_round_abs by simp
  moreover have "0 < dadd ?p ?m" if "dadd ?p ?m \<noteq> 0" using that assms by (auto simp: percent_def)
  ultimately show ?thesis using percent_of [of "dabs (dsub ?p ?m)" "dadd ?p ?m"]
    by (auto simp: dx_of_def percent_def Let_def simp del: dec_sign_simps(5,7))
qed

lemma wilder_percent: "percent a \<Longrightarrow> percent b \<Longrightarrow> 1 \<le> n \<Longrightarrow> n \<le> 10 ^ 25 \<Longrightarrow> percent (wilder n a b)"
  by (simp add: percent_def wilder_bound wilder_nonneg)

definition dm_in_range :: "exn + dm_value option \<Rightarrow> bool" where
  "dm_in_range r \<longleftrightarrow> (\<exists>v. r = Inr v \<and> pred_option (\<lambda>d. percent (dm_plus_di d) \<and> percent (dm_minus_di d) \<and> percent (dm_dx d) \<and> percent (dm_adx d)) v)"

text \<open>What an update reports once the averages are in place.\<close>

lemma adx_report_ok:
  assumes "adx_inv s" and "ax_average_true_range s = Some t" and "\<And>x. percent x \<Longrightarrow> percent (smooth x)"
  shows "adx_inv (snd (adx_report smooth s)) \<and> dm_in_range (fst (adx_report smooth s))"
proof -
  from assms(1,2) obtain p m where a: "ax_average_plus_dm s = Some p" "ax_average_minus_dm s = Some m" "0 \<le> p" "p \<le> t" "0 \<le> m" "m \<le> t"
    by (auto simp: adx_inv_def)
  then have d: "percent (plus_di s)" "percent (minus_di s)" using assms(2) by (simp_all add: plus_di_def minus_di_def di_line_percent)
  with dx_percent assms(3) have "percent (dx_of s)" "percent (smooth (dx_of s))" by blast+
  with d a assms(1,2) show ?thesis by (simp add: adx_report_def dm_in_range_def adx_inv_def Let_def)
qed

lemma adx_step:
  assumes "adx_inv s" and "good_bar b"
  shows "adx_inv (snd (adx_update_bar b s)) \<and> dm_in_range (fst (adx_update_bar b s))"
proof -
  obtain t p m where d: "directional_inputs s b = (t, p, m)" by (metis prod_cases3)
  note ok = directional_inputs_ok [OF assms d]
  let ?n = "ax_window s" and ?s1 = "s\<lparr>ax_previous_high := Some (b_high b), ax_previous_low := Some (b_low b), ax_previous_close := Some (b_close b)\<rparr>"
  have n: "1 \<le> ?n" "?n \<le> 10 ^ 25" using assms(1) by (auto simp: adx_inv_def)
  have s1: "adx_inv ?s1" using assms good_bar_prices [OF assms(2)] by (simp add: adx_inv_def)
  show ?thesis
  proof (cases "ax_average_true_range s")
    case None
    let ?t = "rw_append t (ax_true_ranges s)" and ?p = "rw_append p (ax_plus_dm_values s)" and ?m = "rw_append m (ax_minus_dm_values s)"
    let ?s2 = "?s1\<lparr>ax_true_ranges := ?t, ax_plus_dm_values := ?p, ax_minus_dm_values := ?m\<rparr>"
    let ?s3 = "?s2\<lparr>ax_average_true_range := Some (dmean (rw_values ?t) ?n), ax_average_plus_dm := Some (dmean (rw_values ?p) ?n),
      ax_average_minus_dm := Some (dmean (rw_values ?m) ?n)\<rparr>"
    have s2: "adx_inv ?s2" using s1 ok None unfolding adx_inv_def by (simp add: list_all_push list_all2_push)
    then have s3: "adx_inv ?s3" using n unfolding adx_inv_def by (simp add: dmean_nonneg dmean_mono del: rw_append_simps(1))
    have "adx_inv (snd (adx_report (\<lambda>x. x) ?s3)) \<and> dm_in_range (fst (adx_report (\<lambda>x. x) ?s3))"
      by (rule adx_report_ok [OF s3]) simp_all
    moreover have "adx_inv (?s2\<lparr>ax_value := None\<rparr>)" "dm_in_range (Inr None)" using s2 by (simp_all add: adx_inv_def dm_in_range_def del: rw_append_simps(1))
    ultimately show ?thesis
      unfolding adx_update_bar_def d prod.case Let_def None option.case
      by (cases "rw_ready ?t") (simp_all only: not_True_eq_False not_False_eq_True if_True if_False fst_conv snd_conv)
  next
    case (Some a)
    with assms(1) obtain x y where a: "ax_average_plus_dm s = Some x" "ax_average_minus_dm s = Some y" "0 \<le> x" "x \<le> a" "0 \<le> y" "y \<le> a"
      by (auto simp: adx_inv_def)
    let ?s3 = "?s1\<lparr>ax_average_true_range := Some (wilder ?n a t), ax_average_plus_dm := Some (wilder ?n x p), ax_average_minus_dm := Some (wilder ?n y m)\<rparr>"
    have s3: "adx_inv ?s3" using s1 ok n a Some unfolding adx_inv_def by (simp add: wilder_nonneg wilder_mono)
    have "percent (wilder ?n (case ax_value s of Some v \<Rightarrow> dm_adx v | None \<Rightarrow> dx) dx)" if "percent dx" for dx
      using that assms(1) n by (auto simp: adx_inv_def wilder_percent split: option.splits)
    from adx_report_ok [OF s3 _ this] show ?thesis
      unfolding adx_update_bar_def d by (simp add: Some a(1,2) Let_def)
  qed
qed

interpretation adx_bounded: bounded_indicator adx_update_bar adx_inv good_bar dm_in_range
  using adx_step by unfold_locales blast+

section \<open>Supertrend bands\<close>

text \<open>The bands of the values an indicator answered while it kept one direction.\<close>

definition down_inv :: "supertrend \<Rightarrow> bool" where
  "down_inv s \<longleftrightarrow> st_direction s = Some (-1) \<and>
     (\<exists>u p. st_final_upper_band s = Some u \<and> st_previous_close s = Some p \<and> p \<le> u) \<and> atr_value (st_atr s) \<noteq> None"

lemma atr_value_stays: "atr_value a \<noteq> None \<Longrightarrow> \<exists>v a'. atr_update h l c a = (Some v, a') \<and> atr_value a' = Some v"
  by (auto simp: atr_update_def Let_def)

lemma supertrend_down_step:
  assumes "down_inv s" and "st_final_upper_band s = Some u"
  shows "\<exists>v s'. supertrend_update h l c s = (Some v, s') \<and> sv_upper_band v \<le> u \<and> st_final_upper_band s' = Some (sv_upper_band v) \<and>
     (sv_direction v = -1 \<and> c \<le> sv_upper_band v \<and> sv_value v = sv_upper_band v \<and> down_inv s' \<or>
      sv_direction v = 1 \<and> sv_upper_band v < c)"
proof -
  from assms obtain p where p: "st_direction s = Some (-1)" "st_previous_close s = Some p" "p \<le> u" by (auto simp: down_inv_def)
  from assms(1) atr_value_stays obtain v a' where "atr_update h l c (st_atr s) = (Some v, a')" "atr_value a' = Some v"
    unfolding down_inv_def by blast
  then show ?thesis using p assms(2)
    by (auto simp: supertrend_update_def final_upper_def next_direction_def down_inv_def Let_def)
qed

text \<open>The bars of a falling phase: the outputs as long as the direction stays down.\<close>

lemma supertrend_down_run:
  assumes "down_inv s" and "st_final_upper_band s = Some u"
    and "feed supertrend_update_bar s bs = map Some vs" and "list_all (\<lambda>v. sv_direction v = -1) (butlast vs)"
  shows "sorted_wrt (\<lambda>x y. y \<le> x) (u # map sv_upper_band vs) \<and>
     list_all2 (\<lambda>b v. sv_direction v = (if sv_upper_band v < b_close b then 1 else -1)) bs vs"
  using assms
proof (induction bs arbitrary: s u vs)
  case (Cons b bs)
  from supertrend_down_step [OF Cons.prems(1,2), of "b_high b" "b_low b" "b_close b"] obtain v s' where
    v: "supertrend_update_bar b s = (Some v, s')" "sv_upper_band v \<le> u" "st_final_upper_band s' = Some (sv_upper_band v)"
      "sv_direction v = -1 \<and> b_close b \<le> sv_upper_band v \<and> down_inv s' \<or> sv_direction v = 1 \<and> sv_upper_band v < b_close b"
    unfolding supertrend_update_bar_def by blast
  from Cons.prems(3) v(1) obtain vs' where vs: "vs = v # vs'" "feed supertrend_update_bar s' bs = map Some vs'" by (cases vs) auto
  show ?case
  proof (cases "vs' = []")
    case True
    with vs(2) have "bs = []" by (cases bs) auto
    with True v vs show ?thesis by auto
  next
    case False
    with Cons.prems(4) vs(1) have down: "sv_direction v = -1" "list_all (\<lambda>v. sv_direction v = -1) (butlast vs')" by auto
    with v(4) have "down_inv s'" by auto
    from Cons.IH [OF this v(3) vs(2) down(2)] v(2,4) down(1) vs(1) show ?thesis by auto
  qed
qed simp

section \<open>Properties\<close>

text \<open>The incremental price indicators are their batch definitions: fed any list of prices or
  volumes, a new simple moving average, standard deviation, Bollinger band, volume ratio and rate of
  change answers after every input what the formula gives on the last \<open>n\<close> inputs of the list so far
  (\<open>n + 1\<close> for the rate of change), and nothing before that many have come.\<close>

theorem price_indicators_are_batch:
  assumes "0 < n"
  shows "(\<exists>s. mk_sma (int n) = Inr s \<and> feed sma_update s xs =
        map (\<lambda>k. windowed n (\<lambda>w. Some (dmean w (int (length w)))) (take (Suc k) xs)) [0..<length xs]) \<and>
     (\<exists>s. mk_standard_deviation (int n) = Inr s \<and> feed standard_deviation_update s xs =
        map (\<lambda>k. windowed n (\<lambda>w. Some (population_standard_deviation w)) (take (Suc k) xs)) [0..<length xs]) \<and>
     (\<forall>c \<ge> 0. \<exists>s. mk_bollinger_bands (int n) c = Inr s \<and> feed bollinger_update s xs =
        map (\<lambda>k. windowed n (\<lambda>w. Some (bollinger_of (int (length w)) c w)) (take (Suc k) xs)) [0..<length xs]) \<and>
     (\<exists>s. mk_volume_ratio (int n) = Inr s \<and> feed volume_ratio_update s xs =
        map (\<lambda>k. windowed n (\<lambda>w. let a = dmean w (int (length w)) in Some (if a = 0 then 1 else ddiv (last w) a))
          (take (Suc k) xs)) [0..<length xs]) \<and>
     (\<exists>s. mk_rate_of_change (int n) = Inr s \<and> feed rate_of_change_update s xs =
        map (\<lambda>k. windowed (Suc n) (\<lambda>w. if hd w = 0 then None else Some (dmul (ddiv (dsub (last w) (hd w)) (hd w)) 100))
          (take (Suc k) xs)) [0..<length xs])"
proof (intro conjI allI impI)
  show "\<exists>s. mk_sma (int n) = Inr s \<and> feed sma_update s xs =
        map (\<lambda>k. windowed n (\<lambda>w. Some (dmean w (int (length w)))) (take (Suc k) xs)) [0..<length xs]"
    using assms by (auto simp: mk_sma_def res_bind_Inr_iff mk_rolling_window_Inr intro!: sma.fresh_batch)
  show "\<exists>s. mk_standard_deviation (int n) = Inr s \<and> feed standard_deviation_update s xs =
        map (\<lambda>k. windowed n (\<lambda>w. Some (population_standard_deviation w)) (take (Suc k) xs)) [0..<length xs]"
    using assms by (auto simp: mk_standard_deviation_def res_bind_Inr_iff mk_rolling_window_Inr intro!: sdv.fresh_batch)
  show "\<exists>s. mk_bollinger_bands (int n) c = Inr s \<and> feed bollinger_update s xs =
        map (\<lambda>k. windowed n (\<lambda>w. Some (bollinger_of (int (length w)) c w)) (take (Suc k) xs)) [0..<length xs]" if "0 \<le> c" for c
    using assms that by (auto simp: mk_bollinger_bands_def res_bind_Inr_iff mk_rolling_window_Inr intro!: bb.fresh_batch)
  show "\<exists>s. mk_volume_ratio (int n) = Inr s \<and> feed volume_ratio_update s xs =
        map (\<lambda>k. windowed n (\<lambda>w. let a = dmean w (int (length w)) in Some (if a = 0 then 1 else ddiv (last w) a))
          (take (Suc k) xs)) [0..<length xs]"
    using assms by (auto simp: mk_volume_ratio_def res_bind_Inr_iff mk_rolling_window_Inr intro!: vr.fresh_batch)
  show "\<exists>s. mk_rate_of_change (int n) = Inr s \<and> feed rate_of_change_update s xs =
        map (\<lambda>k. windowed (Suc n) (\<lambda>w. if hd w = 0 then None else Some (dmul (ddiv (dsub (last w) (hd w)) (hd w)) 100))
          (take (Suc k) xs)) [0..<length xs]"
    by (auto simp: mk_rate_of_change_def res_bind_Inr_iff mk_rolling_window_Inr intro!: roc.fresh_batch)
qed

theorem price_indicators_are_batch_witness:
  "\<exists>s. mk_sma 2 = Inr s \<and> feed sma_update s [1, 3, 7] = [None, Some 2, Some 5]"
proof -
  have "map (\<lambda>k. windowed 2 (\<lambda>w. Some (dmean w (int (length w)))) (take (Suc k) [1, 3, 7])) [0..<length [1, 3, 7 :: decimal]] =
    [None, Some 2, Some 5]" by code_simp
  moreover have "0 < (2 :: nat)" by simp
  note conjunct1 [OF price_indicators_are_batch [OF this, of "[1, 3, 7]"]]
  ultimately show ?thesis by (simp only: of_nat_numeral)
qed

text \<open>The incremental bar indicators are their batch definitions: the Donchian channel, the commodity
  channel index, Williams %R and the Chaikin money flow of a new indicator, after every bar, are the
  formula on the last \<open>n\<close> bars, and nothing before \<open>n\<close> bars have come.\<close>

theorem bar_indicators_are_batch:
  assumes "0 < n"
  shows "(\<exists>s. mk_donchian_channel (int n) = Inr s \<and> feed donchian_update_bar s bs =
        map (\<lambda>k. windowed n (\<lambda>w. Some (donchian_of (map b_high w) (map b_low w))) (take (Suc k) bs)) [0..<length bs]) \<and>
     (\<exists>s. mk_cci (int n) = Inr s \<and> feed cci_update_bar s bs =
        map (\<lambda>k. windowed n (\<lambda>w. Some (cci_of (int (length w)) (map typical_price w) (typical_price (last w)))) (take (Suc k) bs)) [0..<length bs]) \<and>
     (\<exists>s. mk_williams_r (int n) = Inr s \<and> feed williams_update_bar s bs =
        map (\<lambda>k. windowed n (\<lambda>w. Some (williams_of (map b_high w) (map b_low w) (b_close (last w)))) (take (Suc k) bs)) [0..<length bs]) \<and>
     (\<exists>s. mk_cmf (int n) = Inr s \<and> feed cmf_update_bar s bs =
        map (\<lambda>k. windowed n (\<lambda>w. Some (cmf_of (map money_flow_volume w) (map b_volume w))) (take (Suc k) bs)) [0..<length bs])"
proof (intro conjI)
  show "\<exists>s. mk_donchian_channel (int n) = Inr s \<and> feed donchian_update_bar s bs =
        map (\<lambda>k. windowed n (\<lambda>w. Some (donchian_of (map b_high w) (map b_low w))) (take (Suc k) bs)) [0..<length bs]"
    using assms by (auto simp: mk_donchian_channel_def res_bind_Inr_iff mk_rolling_window_Inr intro!: dc.fresh_batch)
  show "\<exists>s. mk_cci (int n) = Inr s \<and> feed cci_update_bar s bs =
        map (\<lambda>k. windowed n (\<lambda>w. Some (cci_of (int (length w)) (map typical_price w) (typical_price (last w)))) (take (Suc k) bs)) [0..<length bs]"
    using assms by (auto simp: mk_cci_def res_bind_Inr_iff mk_rolling_window_Inr intro!: cci.fresh_batch)
  show "\<exists>s. mk_williams_r (int n) = Inr s \<and> feed williams_update_bar s bs =
        map (\<lambda>k. windowed n (\<lambda>w. Some (williams_of (map b_high w) (map b_low w) (b_close (last w)))) (take (Suc k) bs)) [0..<length bs]"
    using assms by (auto simp: mk_williams_r_def res_bind_Inr_iff mk_rolling_window_Inr intro!: wr.fresh_batch)
  show "\<exists>s. mk_cmf (int n) = Inr s \<and> feed cmf_update_bar s bs =
        map (\<lambda>k. windowed n (\<lambda>w. Some (cmf_of (map money_flow_volume w) (map b_volume w))) (take (Suc k) bs)) [0..<length bs]"
    using assms by (auto simp: mk_cmf_def res_bind_Inr_iff mk_rolling_window_Inr intro!: cmf.fresh_batch)
qed

definition sample_ohlc :: "decimal \<Rightarrow> decimal \<Rightarrow> decimal \<Rightarrow> bar" where
  "sample_ohlc h l c = \<lparr>b_instrument_id = ''ES'', b_start_time = 0, b_end_time = 60, b_timeframe = ''1m'', b_session_id = ''S1'',
     b_open = c, b_high = h, b_low = l, b_close = c, b_volume = 10, b_vwap = None, b_open_interest = None, b_trade_count = None,
     b_is_complete = True, b_is_partial = False, b_is_synthetic = False\<rparr>"

theorem bar_indicators_are_batch_witness:
  "\<exists>s. mk_donchian_channel 2 = Inr s \<and> feed donchian_update_bar s [sample_ohlc 10 5 8, sample_ohlc 9 3 4] =
     [None, Some \<lparr>dv_lower = 3, dv_middle = 13 / 2, dv_upper = 10\<rparr>]"
proof -
  have "map (\<lambda>k. windowed 2 (\<lambda>w. Some (donchian_of (map b_high w) (map b_low w))) (take (Suc k) [sample_ohlc 10 5 8, sample_ohlc 9 3 4]))
     [0..<length [sample_ohlc 10 5 8, sample_ohlc 9 3 4]] = [None, Some \<lparr>dv_lower = 3, dv_middle = 13 / 2, dv_upper = 10\<rparr>]" by code_simp
  moreover have "0 < (2 :: nat)" by simp
  note conjunct1 [OF bar_indicators_are_batch [OF this, of "[sample_ohlc 10 5 8, sample_ohlc 9 3 4]"]]
  ultimately show ?thesis by (simp only: of_nat_numeral)
qed



text \<open>The Chaikin money flow stays within -1 and 1 and Williams %R within -100 and 0, on every list of
  valid bars, rounding included.\<close>

theorem flow_and_williams_in_range:
  assumes "list_all good_bar bs"
  shows "(\<forall>n s. mk_cmf n = Inr s \<longrightarrow> list_all (pred_option (\<lambda>x. \<bar>x\<bar> \<le> 1)) (feed cmf_update_bar s bs)) \<and>
     (\<forall>n s. mk_williams_r n = Inr s \<longrightarrow> list_all (pred_option (\<lambda>x. -100 \<le> x \<and> x \<le> 0)) (feed williams_update_bar s bs))"
proof -
  have suffix: "list_all good_bar (last_n m (take k bs))" for m k
    using assms unfolding last_n_def list_all_iff by (meson in_set_dropD in_set_takeD)
  have run: "list_all P (map (\<lambda>k. windowed m f (take (Suc k) bs)) [0..<length bs])"
    if "P None" "\<And>k. k < length bs \<Longrightarrow> m \<le> Suc k \<Longrightarrow> P (f (last_n m (take (Suc k) bs)))" for P f m
    using that by (auto simp: list_all_iff windowed_def)
  have "list_all (pred_option (\<lambda>x. \<bar>x\<bar> \<le> 1)) (feed cmf_update_bar s bs)" if "mk_cmf n = Inr s" for n s
  proof -
    have f: "feed cmf_update_bar s bs = map (\<lambda>k. windowed (nat n) (\<lambda>w. Some (cmf_of (map money_flow_volume w) (map b_volume w))) (take (Suc k) bs)) [0..<length bs]"
      using that by (intro cmf.fresh_batch) (auto simp: mk_cmf_def res_bind_Inr_iff mk_rolling_window_Inr)
    show ?thesis unfolding f by (rule run) (simp_all add: cmf_bound suffix)
  qed
  moreover have "list_all (pred_option (\<lambda>x. -100 \<le> x \<and> x \<le> 0)) (feed williams_update_bar s bs)" if "mk_williams_r n = Inr s" for n s
  proof -
    have f: "feed williams_update_bar s bs = map (\<lambda>k. windowed (nat n) (\<lambda>w. Some (williams_of (map b_high w) (map b_low w) (b_close (last w)))) (take (Suc k) bs)) [0..<length bs]"
      and n: "0 < n"
      using that by (auto simp: mk_williams_r_def res_bind_Inr_iff mk_rolling_window_Inr intro!: wr.fresh_batch)
    have "last_n (nat n) (take (Suc k) bs) \<noteq> []" "good_bar (last (last_n (nat n) (take (Suc k) bs)))" if "k < length bs" for k
    proof -
      show ne: "last_n (nat n) (take (Suc k) bs) \<noteq> []" using that n by (auto simp: last_n_def)
      show "good_bar (last (last_n (nat n) (take (Suc k) bs)))" using suffix last_in_set [OF ne] by (auto simp: list_all_iff)
    qed
    from range_oscillator_bounds(2) [OF this] show ?thesis unfolding f by (intro run) auto
  qed
  ultimately show ?thesis by blast
qed

theorem flow_and_williams_in_range_witness:
  "\<exists>s. mk_williams_r 2 = Inr s \<and> list_all (pred_option (\<lambda>x. -100 \<le> x \<and> x \<le> 0)) (feed williams_update_bar s [sample_ohlc 10 5 8, sample_ohlc 9 3 4])"
proof -
  have r: "rep28 10" using rep28_of_int [of 10] by simp
  have "mk_bar (sample_ohlc 10 5 8) = Inr (sample_ohlc 10 5 8)" "mk_bar (sample_ohlc 9 3 4) = Inr (sample_ohlc 9 3 4)" by code_simp+
  with r have g: "list_all good_bar [sample_ohlc 10 5 8, sample_ohlc 9 3 4]" by (simp add: good_bar_def sample_ohlc_def)
  obtain s where "mk_williams_r 2 = Inr s" by (simp add: ctor_simps checked_def)
  with flow_and_williams_in_range [OF g] show ?thesis by blast
qed

text \<open>The Supertrend ratchet: once the indicator is in a falling phase with the last close not above
  its upper band, the upper band never rises again for as long as the direction stays down, and the
  phase ends exactly at the first bar that closes above the band.\<close>

theorem supertrend_ratchet:
  assumes "st_direction s = Some (-1)" "st_final_upper_band s = Some u" "st_previous_close s = Some p" "p \<le> u"
    and "atr_value (st_atr s) \<noteq> None"
    and "feed supertrend_update_bar s bs = map Some vs" and "list_all (\<lambda>v. sv_direction v = -1) (butlast vs)"
  shows "sorted_wrt (\<lambda>x y. y \<le> x) (u # map sv_upper_band vs) \<and>
     list_all2 (\<lambda>b v. sv_direction v = (if sv_upper_band v < b_close b then 1 else -1)) bs vs"
  by (rule supertrend_down_run) (use assms in \<open>auto simp: down_inv_def\<close>)

definition sample_supertrend :: supertrend where
  "sample_supertrend = \<lparr>st_multiplier = 1,
     st_atr = \<lparr>atr_window = 1, atr_true_ranges = \<lparr>rw_size = 1, rw_values = [2]\<rparr>, atr_previous_close = Some 9, atr_value = Some 2\<rparr>,
     st_previous_close = Some 9, st_final_upper_band = Some 11, st_final_lower_band = Some 7, st_direction = Some (-1), st_value = None\<rparr>"

theorem supertrend_ratchet_witness:
  "\<exists>vs. feed supertrend_update_bar sample_supertrend [sample_ohlc 9 7 8, sample_ohlc 20 12 19] = map Some vs \<and>
     sorted_wrt (\<lambda>x y. y \<le> x) (11 # map sv_upper_band vs) \<and> map sv_direction vs = [-1, 1]"
proof -
  let ?bs = "[sample_ohlc 9 7 8, sample_ohlc 20 12 19]"
  obtain vs where vs: "feed supertrend_update_bar sample_supertrend ?bs = map Some vs" "map sv_direction vs = [-1, 1]"
  proof -
    have "map (map_option sv_direction) (feed supertrend_update_bar sample_supertrend ?bs) = [Some (-1), Some 1]"
      by (simp add: supertrend_update_bar_def supertrend_update_def atr_update_def true_range_def wilder_def final_upper_def
          final_lower_def next_direction_def sample_supertrend_def sample_ohlc_def Let_def dec_simps)
    then obtain x y where "feed supertrend_update_bar sample_supertrend ?bs = [Some x, Some y]" "sv_direction x = -1" "sv_direction y = 1" by auto
    then show ?thesis using that [of "[x, y]"] by simp
  qed
  have a: "st_direction sample_supertrend = Some (-1)" "st_final_upper_band sample_supertrend = Some 11"
    "st_previous_close sample_supertrend = Some 9" by (simp_all add: sample_supertrend_def)
  have b: "(9 :: decimal) \<le> 11" "atr_value (st_atr sample_supertrend) \<noteq> None" by (simp_all add: sample_supertrend_def)
  from vs(2) obtain x y where "vs = [x, y]" "sv_direction x = -1" by (auto simp: map_eq_Cons_conv)
  then have "list_all (\<lambda>v. sv_direction v = -1) (butlast vs)" by simp
  from conjunct1 [OF supertrend_ratchet [OF a b vs(1) this]] vs show ?thesis by (intro exI [of _ vs] conjI)
qed

end
