(* ===== verification/Bar_Aggregation.thy ===== *)
theory Bar_Aggregation
  imports Technical_Indicators
begin

text \<open>
  Bars of a higher timeframe from bars of a lower one: \<open>data/bars/timeframe.py\<close>, \<open>alignment.py\<close>,
  \<open>aggregator.py\<close>, \<open>consolidator.py\<close>, \<open>pipeline.py\<close>, \<open>time_grid_synthesizer.py\<close> and \<open>data/sessions/window.py\<close>.

  The time zone database is a parameter: \<open>exchange_zone\<close> gives the local wall clock of an instant, its
  fold, and the instant of a wall clock reading. Wall clock readings and durations are microseconds.

  Properties: aggregation neither loses nor duplicates a bar; what a consolidated bar stands for; the
  time grid is complete; buckets around a daylight-saving change; daily bars of the pipeline.
\<close>

section \<open>Timeframes (\<open>timeframe.py\<close>)\<close>

datatype alignment_mode = CLOCK | SESSION

record timeframe =
  tf_value :: string
  tf_duration :: "int option"
  tf_alignment :: alignment_mode

definition minutes :: "int \<Rightarrow> int" where
  "minutes n = n * 60000000"

definition clock_durations :: "(string, int) dict" where
  "clock_durations =
     [(''5s'', 5000000), (''1m'', minutes 1), (''2m'', minutes 2), (''3m'', minutes 3), (''5m'', minutes 5),
      (''10m'', minutes 10), (''15m'', minutes 15), (''30m'', minutes 30), (''1h'', minutes 60), (''4h'', minutes 240)]"

definition parse_timeframe :: "string \<Rightarrow> timeframe res" where
  "parse_timeframe value =
     (let normalized = lower (strip value)
      in case map_of clock_durations normalized of
           Some d \<Rightarrow> Inr \<lparr>tf_value = normalized, tf_duration = Some d, tf_alignment = CLOCK\<rparr>
         | None \<Rightarrow> if normalized = ''1d'' then Inr \<lparr>tf_value = normalized, tf_duration = None, tf_alignment = SESSION\<rparr>
                   else Inl (ValueError (''unsupported timeframe: '' @ value)))"

section \<open>Clock buckets (\<open>alignment.py\<close>)\<close>

record exchange_zone =
  zn_local :: "instant \<Rightarrow> int"
  zn_fold :: "instant \<Rightarrow> bool"
  zn_instant :: "int \<Rightarrow> bool \<Rightarrow> instant"

definition day_micros :: int where
  "day_micros = 86400000000"

definition duration_seconds :: "int \<Rightarrow> int res" where
  "duration_seconds d =
     (let s = d div 1000000
      in if s \<le> 0 then Inl (ValueError ''timeframe duration must be positive'')
         else if 86400 mod s \<noteq> 0 then Inl (ValueError ''clock timeframe must evenly divide a 24-hour day'')
         else Inr s)"

definition clock_bucket_for :: "instant \<Rightarrow> timeframe \<Rightarrow> exchange_zone \<Rightarrow> time_interval res" where
  "clock_bucket_for t tf z =
     (case (tf_alignment tf, tf_duration tf) of
        (CLOCK, Some d) \<Rightarrow>
          res_bind (duration_seconds d) (\<lambda>seconds.
            let wall = zn_local z t;
                midnight = wall - wall mod day_micros;
                bucket = (wall mod day_micros) div (seconds * 1000000) * (seconds * 1000000);
                start = zn_instant z (midnight + bucket) (zn_fold z t)
            in mk_time_interval start (start + d))
      | _ \<Rightarrow> Inl (ValueError ''clock_bucket_for requires a clock-aligned timeframe''))"

section \<open>Sessions (\<open>registry/calendar_registry.py\<close>, \<open>data/sessions/window.py\<close>)\<close>

record market_session =
  ms_calendar_id :: string
  ms_session_id :: string
  ms_interval :: time_interval

definition mk_market_session :: "market_session \<Rightarrow> market_session res" where
  [ctor_simps]: "mk_market_session s = checked
     [(blank (ms_calendar_id s), ValueError ''calendar_id must not be empty''),
      (blank (ms_session_id s), ValueError ''session_id must not be empty'')] s"

definition ti_contains :: "time_interval \<Rightarrow> instant \<Rightarrow> bool" where
  "ti_contains i t \<longleftrightarrow> ti_start i \<le> t \<and> t < ti_end i"

definition bar_inside_session :: "bar \<Rightarrow> market_session \<Rightarrow> bool" where
  "bar_inside_session b s \<longleftrightarrow> ti_contains (ms_interval s) (b_start_time b) \<and> b_end_time b \<le> ti_end (ms_interval s)"

text \<open>A recurring session window over local days; a session is named by its local close date, here the
  number of the day. Local midnight of a day is \<open>day * day_micros\<close>, and \<open>combine\<close> attaches the zone
  with fold 0.\<close>

record session_window =
  sw_zone :: exchange_zone
  sw_open_time :: int
  sw_close_time :: int

definition mk_session_window :: "exchange_zone \<Rightarrow> int \<Rightarrow> int \<Rightarrow> session_window res" where
  [ctor_simps]: "mk_session_window z opens closes = checked
     [(opens = closes, ValueError ''open_time and close_time must differ'')]
     \<lparr>sw_zone = z, sw_open_time = opens, sw_close_time = closes\<rparr>"

definition interval_for_session_date :: "session_window \<Rightarrow> int \<Rightarrow> time_interval res" where
  "interval_for_session_date w day =
     (let open_day = (if sw_open_time w < sw_close_time w then day else day - 1)
      in mk_time_interval (zn_instant (sw_zone w) (open_day * day_micros + sw_open_time w) False)
           (zn_instant (sw_zone w) (day * day_micros + sw_close_time w) False))"

definition session_date_for_timestamp :: "session_window \<Rightarrow> instant \<Rightarrow> int option" where
  "session_date_for_timestamp w t =
     (let wall = zn_local (sw_zone w) t; local_time = wall mod day_micros; day = wall div day_micros
      in if sw_open_time w < sw_close_time w
         then (if sw_open_time w \<le> local_time \<and> local_time < sw_close_time w then Some day else None)
         else if local_time \<ge> sw_open_time w then Some (day + 1)
         else if local_time < sw_close_time w then Some day
         else None)"

section \<open>Bucket contents shared by aggregator and consolidator\<close>

definition aggregate_vwap :: "bar list \<Rightarrow> decimal \<Rightarrow> decimal option" where
  "aggregate_vwap bars total_volume =
     (let weighted = map (\<lambda>b. dmul (the (b_vwap b)) (b_volume b)) (filter (\<lambda>b. b_vwap b \<noteq> None \<and> b_volume b > 0) bars)
      in if weighted = [] \<or> total_volume \<le> 0 then None else Some (ddiv (dsum weighted) total_volume))"

definition last_open_interest :: "bar list \<Rightarrow> decimal option" where
  "last_open_interest bars = (case find (\<lambda>b. b_open_interest b \<noteq> None) (rev bars) of None \<Rightarrow> None | Some b \<Rightarrow> b_open_interest b)"

definition sum_trade_count :: "bar list \<Rightarrow> int option" where
  "sum_trade_count bars =
     (let counts = map (\<lambda>b. the (b_trade_count b)) (filter (\<lambda>b. b_trade_count b \<noteq> None) bars)
      in if counts = [] then None else Some (sum_list counts))"

text \<open>The constructor call both classes end with.\<close>

definition collapse :: "bar list \<Rightarrow> instant \<Rightarrow> instant \<Rightarrow> string \<Rightarrow> bool \<Rightarrow> bar res" where
  "collapse bars start_time end_time tf is_partial =
     (let total_volume = dsum (map b_volume bars)
      in mk_bar \<lparr>b_instrument_id = b_instrument_id (hd bars), b_start_time = start_time, b_end_time = end_time,
           b_timeframe = tf, b_session_id = b_session_id (hd bars), b_open = b_open (hd bars),
           b_high = highest (map b_high bars), b_low = lowest (map b_low bars), b_close = b_close (last bars),
           b_volume = total_volume, b_vwap = aggregate_vwap bars total_volume,
           b_open_interest = last_open_interest bars, b_trade_count = sum_trade_count bars,
           b_is_complete = (\<not> is_partial), b_is_partial = is_partial, b_is_synthetic = False\<rparr>)"

definition check_same_stream :: "bar list \<Rightarrow> unit res" where
  "check_same_stream bars =
     (case find (\<lambda>b. b_instrument_id b \<noteq> b_instrument_id (hd bars) \<or> b_session_id b \<noteq> b_session_id (hd bars)) bars of
        None \<Rightarrow> Inr ()
      | Some b \<Rightarrow> Inl (ValueError (if b_instrument_id b \<noteq> b_instrument_id (hd bars)
            then ''cannot aggregate bars for different instruments'' else ''cannot aggregate bars for different sessions'')))"

section \<open>Aggregator (\<open>aggregator.py\<close>)\<close>

record aggregation_state =
  ag_bucket :: time_interval
  ag_natural_bucket_end :: instant
  ag_target_timeframe :: timeframe
  ag_bars :: "bar list"

definition aggregate_state :: "aggregation_state \<Rightarrow> bar res" where
  "aggregate_state s =
     (let bars = ag_bars s; aggregate_end = ti_end (ag_bucket s)
      in if bars = [] then Inl (ValueError ''cannot aggregate an empty bucket'')
         else res_bind (check_same_stream bars) (\<lambda>_.
           collapse bars (ti_start (ag_bucket s)) aggregate_end (tf_value (ag_target_timeframe s))
             (b_start_time (hd bars) \<noteq> ti_start (ag_bucket s) \<or> b_end_time (last bars) < aggregate_end \<or>
              aggregate_end \<noteq> ag_natural_bucket_end s \<or> \<not> list_all b_is_complete bars)))"

definition same_stream_bucket :: "aggregation_state \<Rightarrow> aggregation_state \<Rightarrow> bool" where
  "same_stream_bucket l r \<longleftrightarrow> ag_bucket l = ag_bucket r \<and>
     b_instrument_id (last (ag_bars l)) = b_instrument_id (last (ag_bars r)) \<and>
     b_session_id (last (ag_bars l)) = b_session_id (last (ag_bars r))"

record bar_aggregator =
  ba_target_timeframe :: timeframe
  ba_exchange_timezone :: exchange_zone
  ba_session :: "market_session option"
  ba_state :: "aggregation_state option"

definition mk_bar_aggregator :: "timeframe \<Rightarrow> exchange_zone \<Rightarrow> market_session option \<Rightarrow> bar_aggregator res" where
  [ctor_simps]: "mk_bar_aggregator tf z session =
     (if tf_alignment tf \<noteq> CLOCK then Inl (ValueError ''BarAggregator currently supports clock-aligned timeframes'')
      else Inr \<lparr>ba_target_timeframe = tf, ba_exchange_timezone = z, ba_session = session, ba_state = None\<rparr>)"

definition new_state_for :: "bar_aggregator \<Rightarrow> bar \<Rightarrow> aggregation_state res" where
  "new_state_for a b =
     res_bind (clock_bucket_for (b_start_time b) (ba_target_timeframe a) (ba_exchange_timezone a)) (\<lambda>bucket.
       let aggregate_end = (case ba_session a of None \<Rightarrow> ti_end bucket
             | Some s \<Rightarrow> if ti_end (ms_interval s) < ti_end bucket then ti_end (ms_interval s) else ti_end bucket)
       in res_bind (mk_time_interval (ti_start bucket) aggregate_end) (\<lambda>i.
          Inr \<lparr>ag_bucket = i, ag_natural_bucket_end = ti_end bucket, ag_target_timeframe = ba_target_timeframe a, ag_bars = [b]\<rparr>))"

text \<open>The three steps of \<open>update\<close> after the guard: close the bucket the bar does not belong to, put the
  bar into the current bucket, close the bucket the bar fills. The answer is \<open>completed\<close>; the other
  field of the result object is the aggregator's own state.\<close>

definition close_other_bucket :: "aggregation_state \<Rightarrow> bar_aggregator \<Rightarrow> (bar_aggregator, bar list) outcome" where
  "close_other_bucket incoming a =
     (case ba_state a of
        Some s \<Rightarrow> if \<not> same_stream_bucket s incoming
          then (case aggregate_state s of Inl e \<Rightarrow> (Inl e, a) | Inr b \<Rightarrow> (Inr [b], a\<lparr>ba_state := None\<rparr>))
          else (Inr [], a)
      | None \<Rightarrow> (Inr [], a))"

definition put_bar :: "aggregation_state \<Rightarrow> bar \<Rightarrow> bar_aggregator \<Rightarrow> bar_aggregator" where
  "put_bar incoming b a =
     (case ba_state a of None \<Rightarrow> a\<lparr>ba_state := Some incoming\<rparr>
      | Some s \<Rightarrow> a\<lparr>ba_state := Some (s\<lparr>ag_bars := ag_bars s @ [b]\<rparr>)\<rparr>)"

definition close_full_bucket :: "bar_aggregator \<Rightarrow> (bar_aggregator, bar list) outcome" where
  "close_full_bucket a =
     (case ba_state a of
        Some s \<Rightarrow> if b_end_time (last (ag_bars s)) \<ge> ti_end (ag_bucket s)
          then (case aggregate_state s of Inl e \<Rightarrow> (Inl e, a) | Inr b \<Rightarrow> (Inr [b], a\<lparr>ba_state := None\<rparr>))
          else (Inr [], a)
      | None \<Rightarrow> (Inr [], a))"

definition aggregator_update :: "bar \<Rightarrow> bar_aggregator \<Rightarrow> (bar_aggregator, bar list) outcome" where
  "aggregator_update b a =
     (if (case ba_session a of None \<Rightarrow> False | Some s \<Rightarrow> \<not> bar_inside_session b s) then (Inr [], a)
      else case new_state_for a b of
        Inl e \<Rightarrow> (Inl e, a)
      | Inr incoming \<Rightarrow>
          obind (close_other_bucket incoming a) (\<lambda>closed1 a1.
          obind (close_full_bucket (put_bar incoming b a1)) (\<lambda>closed2 a2. (Inr (closed1 @ closed2), a2))))"

definition aggregator_finish :: "bar_aggregator \<Rightarrow> (bar_aggregator, bar list) outcome" where
  "aggregator_finish a =
     (case ba_state a of None \<Rightarrow> (Inr [], a)
      | Some s \<Rightarrow> (case aggregate_state s of Inl e \<Rightarrow> (Inl e, a) | Inr b \<Rightarrow> (Inr [b], a\<lparr>ba_state := None\<rparr>)))"

fun aggregate_loop ::
  "(bar_aggregator) res \<Rightarrow> bar list \<Rightarrow> (instrument_id, bar_aggregator) dict \<Rightarrow> bar list \<Rightarrow>
   (bar list \<times> (instrument_id, bar_aggregator) dict) res" where
  "aggregate_loop fresh [] as out = Inr (out, as)"
| "aggregate_loop fresh (b # bs) as out =
     res_bind fresh (\<lambda>new.
       let a = dict_lookup as (b_instrument_id b) new
       in case aggregator_update b a of
            (Inl e, _) \<Rightarrow> Inl e
          | (Inr completed, a') \<Rightarrow> aggregate_loop fresh bs (AList.update (b_instrument_id b) a' as) (out @ completed))"

fun finish_loop :: "bar_aggregator list \<Rightarrow> bar list \<Rightarrow> bar list res" where
  "finish_loop [] out = Inr out"
| "finish_loop (a # as) out = (case aggregator_finish a of (Inl e, _) \<Rightarrow> Inl e | (Inr completed, _) \<Rightarrow> finish_loop as (out @ completed))"

definition stream_key :: "bar \<Rightarrow> instrument_id \<times> instant" where
  "stream_key b = (b_instrument_id b, b_start_time b)"

definition aggregate_bars :: "bar list \<Rightarrow> timeframe \<Rightarrow> exchange_zone \<Rightarrow> market_session option \<Rightarrow> bar list res" where
  "aggregate_bars bars tf z session =
     res_bind (aggregate_loop (mk_bar_aggregator tf z session) (sort_key stream_key bars) [] []) (\<lambda>(out, as).
     res_bind (finish_loop (map snd as) out) (\<lambda>out'. Inr (sort_key stream_key out')))"

section \<open>Consolidator and pipeline (\<open>consolidator.py\<close>, \<open>pipeline.py\<close>)\<close>

text \<open>The session interval source is a parameter: it names the interval of a session id, if the id is a
  session, and may raise on an id that is not a date.\<close>

type_synonym interval_source = "string \<Rightarrow> time_interval option res"

record consolidator =
  co_source_timeframe :: timeframe
  co_target_timeframe :: timeframe
  co_exchange_timezone :: exchange_zone
  co_session_window :: "interval_source option"
  co_session_id :: "string option"
  co_bucket :: "time_interval option"
  co_bars :: "bar list"

definition mk_consolidator :: "timeframe \<Rightarrow> timeframe \<Rightarrow> exchange_zone \<Rightarrow> interval_source option \<Rightarrow> consolidator res" where
  [ctor_simps]: "mk_consolidator source target z window =
     (let c = \<lparr>co_source_timeframe = source, co_target_timeframe = target, co_exchange_timezone = z, co_session_window = window,
               co_session_id = None, co_bucket = None, co_bars = []\<rparr>
      in if tf_alignment source \<noteq> CLOCK then Inl (ValueError ''source timeframe must be clock-aligned'')
         else case tf_duration source of
           None \<Rightarrow> Inl (ValueError ''source timeframe must have a duration'')
         | Some d \<Rightarrow>
             if tf_alignment target = CLOCK
             then (case tf_duration target of
                     None \<Rightarrow> Inl (ValueError ''target timeframe must have a duration'')
                   | Some t \<Rightarrow> if t \<le> d then Inl (ValueError ''target timeframe must be larger than source timeframe'')
                       else if t mod d \<noteq> 0 then Inl (ValueError ''target timeframe must be an even multiple of source timeframe'')
                       else Inr c)
             else Inr c)"

definition validate_source_bar :: "consolidator \<Rightarrow> bar \<Rightarrow> exn option" where
  "validate_source_bar c b = raise_first
     [(\<not> b_is_complete b, ValueError ''source bar must be complete''),
      (b_is_partial b, ValueError ''source bar must not be partial''),
      (b_timeframe b \<noteq> tf_value (co_source_timeframe c),
       ValueError ''source bar timeframe does not match consolidator source timeframe''),
      (Some (b_end_time b - b_start_time b) \<noteq> tf_duration (co_source_timeframe c),
       ValueError ''source bar interval does not match source timeframe'')]"

definition same_bucket_stream :: "consolidator \<Rightarrow> time_interval \<Rightarrow> bar \<Rightarrow> bool" where
  "same_bucket_stream c bucket b \<longleftrightarrow> co_bucket c = Some bucket \<and> co_bars c \<noteq> [] \<and>
     b_instrument_id (last (co_bars c)) = b_instrument_id b \<and> b_session_id (last (co_bars c)) = b_session_id b"

fun contiguous :: "bar list \<Rightarrow> bool" where
  "contiguous (x # y # zs) = (b_end_time x = b_start_time y \<and> contiguous (y # zs))"
| "contiguous _ = True"

definition state_is_complete :: "consolidator \<Rightarrow> bool" where
  "state_is_complete c =
     (case co_bucket c of None \<Rightarrow> False
      | Some i \<Rightarrow> co_bars c \<noteq> [] \<and> b_start_time (hd (co_bars c)) = ti_start i \<and>
          b_end_time (last (co_bars c)) = ti_end i \<and> contiguous (co_bars c))"

definition consolidator_aggregate :: "consolidator \<Rightarrow> bar res" where
  "consolidator_aggregate c =
     (case co_bucket c of
        Some i \<Rightarrow> if co_bars c = [] then Inl (RuntimeError ''cannot aggregate an empty consolidation state'')
          else collapse (co_bars c) (ti_start i) (ti_end i) (tf_value (co_target_timeframe c)) False
      | None \<Rightarrow> Inl (RuntimeError ''cannot aggregate an empty consolidation state''))"

definition session_interval :: "consolidator \<Rightarrow> time_interval option res" where
  "session_interval c =
     (case co_session_window c of
        None \<Rightarrow> Inr None
      | Some w \<Rightarrow> (case co_session_id c of None \<Rightarrow> Inl (RuntimeError ''session id is required for daily consolidation'') | Some i \<Rightarrow> w i))"

definition session_is_partial :: "bar list \<Rightarrow> instant \<Rightarrow> instant \<Rightarrow> bool" where
  "session_is_partial bars start_time end_time \<longleftrightarrow> b_start_time (hd bars) \<noteq> start_time \<or> b_end_time (last bars) \<noteq> end_time \<or>
     \<not> list_all b_is_complete bars \<or> \<not> contiguous bars"

definition aggregate_session :: "consolidator \<Rightarrow> bar res" where
  "aggregate_session c =
     (let bars = co_bars c
      in if bars = [] then Inl (RuntimeError ''cannot aggregate an empty daily consolidation state'')
         else res_bind (check_same_stream bars) (\<lambda>_. res_bind (session_interval c) (\<lambda>interval.
           let start_time = (case interval of Some i \<Rightarrow> ti_start i | None \<Rightarrow> b_start_time (hd bars));
               end_time = (case interval of Some i \<Rightarrow> ti_end i | None \<Rightarrow> b_end_time (last bars))
           in collapse bars start_time end_time (tf_value (co_target_timeframe c)) (session_is_partial bars start_time end_time))))"

definition flush_session :: "consolidator \<Rightarrow> (consolidator, bar list) outcome" where
  "flush_session c = (case aggregate_session c of Inl e \<Rightarrow> (Inl e, c)
     | Inr b \<Rightarrow> (Inr [b], c\<lparr>co_bars := [], co_session_id := None\<rparr>))"

definition update_session :: "bar \<Rightarrow> consolidator \<Rightarrow> (consolidator, bar list) outcome" where
  "update_session b c =
     obind (if co_bars c \<noteq> [] \<and> Some (b_session_id b) \<noteq> co_session_id c then flush_session c else (Inr [], c)) (\<lambda>closed1 c1.
       let c2 = (if co_bars c1 = [] then c1\<lparr>co_session_id := Some (b_session_id b)\<rparr> else c1);
           c3 = c2\<lparr>co_bars := co_bars c2 @ [b]\<rparr>
       in case session_interval c3 of
            Inl e \<Rightarrow> (Inl e, c3)
          | Inr interval \<Rightarrow>
              obind (if (case interval of None \<Rightarrow> False | Some i \<Rightarrow> b_end_time b \<ge> ti_end i) then flush_session c3 else (Inr [], c3))
                (\<lambda>closed2 c4. (Inr (closed1 @ closed2), c4)))"

definition consolidator_update :: "bar \<Rightarrow> consolidator \<Rightarrow> (consolidator, bar list) outcome" where
  "consolidator_update b c =
     (case validate_source_bar c b of
        Some e \<Rightarrow> (Inl e, c)
      | None \<Rightarrow>
          if tf_alignment (co_target_timeframe c) = SESSION then update_session b c
          else case clock_bucket_for (b_start_time b) (co_target_timeframe c) (co_exchange_timezone c) of
            Inl e \<Rightarrow> (Inl e, c)
          | Inr bucket \<Rightarrow>
              (let c1 = (if co_bucket c = None \<or> \<not> same_bucket_stream c bucket b
                         then c\<lparr>co_bucket := Some bucket, co_bars := [b]\<rparr> else c\<lparr>co_bars := co_bars c @ [b]\<rparr>)
               in if \<not> state_is_complete c1 then (Inr [], c1)
                  else case consolidator_aggregate c1 of Inl e \<Rightarrow> (Inl e, c1)
                    | Inr r \<Rightarrow> (Inr [r], c1\<lparr>co_bucket := None, co_bars := []\<rparr>)))"

record pipeline =
  pl_exchange_timezone :: exchange_zone
  pl_session_window :: "interval_source option"
  pl_consolidators :: "(string list, consolidator) dict"

definition pipeline_init :: "exchange_zone \<Rightarrow> interval_source option \<Rightarrow> pipeline" where
  "pipeline_init z w = \<lparr>pl_exchange_timezone = z, pl_session_window = w, pl_consolidators = []\<rparr>"

definition aggregation_key :: "bar \<Rightarrow> timeframe \<Rightarrow> timeframe \<Rightarrow> string list" where
  "aggregation_key b source target = [b_instrument_id b, b_session_id b, tf_value source, tf_value target]"

definition logical_key :: "bar \<Rightarrow> string \<Rightarrow> string \<Rightarrow> string list" where
  "logical_key b source target = [b_instrument_id b, source, target, b_session_id b]"

definition consolidator_for :: "string list \<Rightarrow> timeframe \<Rightarrow> timeframe \<Rightarrow> pipeline \<Rightarrow> consolidator res" where
  "consolidator_for key source target p =
     (case map_of (pl_consolidators p) key of Some c \<Rightarrow> Inr c
      | None \<Rightarrow> mk_consolidator source target (pl_exchange_timezone p) (pl_session_window p))"

definition run_consolidator :: "string list \<Rightarrow> timeframe \<Rightarrow> timeframe \<Rightarrow> bar \<Rightarrow> pipeline \<Rightarrow> (pipeline, bar list) outcome" where
  "run_consolidator key source target b p =
     (case consolidator_for key source target p of
        Inl e \<Rightarrow> (Inl e, p)
      | Inr c \<Rightarrow> (case consolidator_update b c of (r, c') \<Rightarrow>
          (r, p\<lparr>pl_consolidators := AList.update key c' (pl_consolidators p)\<rparr>)))"

definition pipeline_aggregate :: "bar \<Rightarrow> timeframe \<Rightarrow> pipeline \<Rightarrow> (pipeline, bar list) outcome" where
  "pipeline_aggregate b target p =
     (case parse_timeframe (b_timeframe b) of Inl e \<Rightarrow> (Inl e, p)
      | Inr source \<Rightarrow> run_consolidator (aggregation_key b source target) source target b p)"

definition aggregate_logical :: "bar \<Rightarrow> string \<Rightarrow> string \<Rightarrow> pipeline \<Rightarrow> (pipeline, bar list) outcome" where
  "aggregate_logical b source target p =
     (case parse_timeframe target of Inl e \<Rightarrow> (Inl e, p)
      | Inr t \<Rightarrow> (case parse_timeframe source of Inl e \<Rightarrow> (Inl e, p)
          | Inr s \<Rightarrow> run_consolidator (logical_key b source target) s t b p))"

text \<open>The pipeline a market-data actor holds (\<open>data/market_data_pipeline.py\<close>): it aggregates without a window.\<close>

definition market_data_pipeline :: "exchange_zone option \<Rightarrow> pipeline option" where
  "market_data_pipeline z = map_option (\<lambda>z. pipeline_init z None) z"

definition process_bar :: "bar \<Rightarrow> string option \<Rightarrow> pipeline option \<Rightarrow> (pipeline option, bar list) outcome" where
  "process_bar b target p =
     (case target of
        None \<Rightarrow> (Inr [b], p)
      | Some t \<Rightarrow>
          if b_timeframe b = t then (Inr [b], p)
          else case p of
            None \<Rightarrow> (Inl (RuntimeError ''exchange timezone is required to aggregate market data''), p)
          | Some q \<Rightarrow> (case parse_timeframe t of Inl e \<Rightarrow> (Inl e, p)
              | Inr tf \<Rightarrow> (case pipeline_aggregate b tf q of (r, q') \<Rightarrow> (r, Some q'))))"

text \<open>Bars inside a calendar session (\<open>data/sessions/filter.py\<close>); the calendar is a parameter.\<close>

definition inside_market_session :: "bar \<Rightarrow> market_session \<Rightarrow> bool" where
  "inside_market_session b s \<longleftrightarrow> ti_contains (ms_interval s) (b_start_time b) \<and> b_end_time b \<le> ti_end (ms_interval s) \<and>
     b_end_time b > ti_start (ms_interval s)"

definition filter_session_bars ::
  "bar list \<Rightarrow> (string \<Rightarrow> 'd \<Rightarrow> market_session res) \<Rightarrow> string \<Rightarrow> 'd \<Rightarrow> bar list res" where
  "filter_session_bars bars session_for calendar_id session_date =
     res_bind (session_for calendar_id session_date) (\<lambda>s. Inr (filter (\<lambda>b. inside_market_session b s) bars))"

section \<open>Time grid (\<open>time_grid_synthesizer.py\<close>)\<close>

record synthesizer =
  sy_timeframe_value :: string
  sy_slot_duration :: int

definition mk_synthesizer :: "string \<Rightarrow> synthesizer res" where
  [ctor_simps]: "mk_synthesizer value =
     res_bind (parse_timeframe value) (\<lambda>tf. case (tf_alignment tf, tf_duration tf) of
        (CLOCK, Some d) \<Rightarrow> Inr \<lparr>sy_timeframe_value = tf_value tf, sy_slot_duration = d\<rparr>
      | _ \<Rightarrow> Inl (ValueError (''BarTimeGridSynthesizer only supports clock-aligned timeframes; got '' @ value)))"

definition synthetic_bar :: "bar \<Rightarrow> instant \<Rightarrow> instant \<Rightarrow> bar res" where
  "synthetic_bar template start stop =
     mk_bar (template\<lparr>b_start_time := start, b_end_time := stop, b_open := b_close template, b_high := b_close template,
       b_low := b_close template, b_volume := 0, b_vwap := None, b_open_interest := None, b_trade_count := None,
       b_is_synthetic := True, b_is_complete := True, b_is_partial := False\<rparr>)"

text \<open>The slots of a gap. Parsed durations are positive, so the guard on the slot never decides.\<close>

function gap_slots :: "int \<Rightarrow> instant \<Rightarrow> instant \<Rightarrow> (instant \<times> instant) list" where
  "gap_slots slot start stop =
     (if slot \<le> 0 \<or> \<not> start < stop \<or> start + slot > stop then []
      else (start, start + slot) # gap_slots slot (start + slot) stop)"
  by auto
termination by (relation "measure (\<lambda>(slot, start, stop). nat (stop - start))") auto

declare gap_slots.simps [simp del]

definition fill_gap :: "synthesizer \<Rightarrow> bar \<Rightarrow> bar \<Rightarrow> bar list res" where
  "fill_gap s previous next_bar =
     res_map (\<lambda>(a, b). synthetic_bar previous a b) (gap_slots (sy_slot_duration s) (b_end_time previous) (b_start_time next_bar))"

definition should_fill_between :: "synthesizer \<Rightarrow> bar \<Rightarrow> bar \<Rightarrow> bool" where
  "should_fill_between s previous next_bar \<longleftrightarrow> b_session_id previous = b_session_id next_bar \<and>
     b_timeframe next_bar = sy_timeframe_value s \<and> b_start_time next_bar > b_end_time previous"

fun synthesize_loop :: "synthesizer \<Rightarrow> (instrument_id, bar) dict \<Rightarrow> bar list \<Rightarrow> bar list res" where
  "synthesize_loop s cursors [] = Inr []"
| "synthesize_loop s cursors (b # bs) =
     res_bind (case map_of cursors (b_instrument_id b) of
         Some previous \<Rightarrow> if should_fill_between s previous b then fill_gap s previous b else Inr []
       | None \<Rightarrow> Inr []) (\<lambda>filled.
     res_bind (synthesize_loop s (AList.update (b_instrument_id b) b cursors) bs) (\<lambda>rest. Inr (filled @ b # rest)))"

definition synthesize :: "synthesizer \<Rightarrow> bar list \<Rightarrow> bar list res" where
  "synthesize s bars = synthesize_loop s [] bars"

section \<open>Valid bars collapse to a valid bar\<close>

definition valid_bar :: "bar \<Rightarrow> bool" where
  "valid_bar b \<longleftrightarrow> mk_bar b = Inr b"

lemma valid_bar_checks: "valid_bar b \<longleftrightarrow> (\<forall>(c, e) \<in> set (bar_checks b). \<not> c)"
  by (simp add: valid_bar_def mk_bar_def raise_first_None_iff)

lemma valid_bar_facts:
  assumes "valid_bar b"
  shows "b_start_time b < b_end_time b" "\<not> blank (b_timeframe b)" "\<not> blank (b_session_id b)"
    "b_open b \<le> b_high b" "b_close b \<le> b_high b" "b_low b \<le> b_open b" "b_low b \<le> b_close b" "b_low b \<le> b_high b"
    "0 \<le> b_volume b" "\<And>v. b_vwap b = Some v \<Longrightarrow> 0 \<le> v" "\<And>v. b_open_interest b = Some v \<Longrightarrow> 0 \<le> v"
    "\<And>n. b_trade_count b = Some n \<Longrightarrow> 0 \<le> n"
  using assms unfolding valid_bar_checks by (auto simp: bar_checks_def require_non_negative_def)

lemma highest_in: "xs \<noteq> [] \<Longrightarrow> highest xs \<in> set xs"
proof -
  have "foldl max a xs \<in> insert a (set xs)" for a :: decimal and xs
    by (induction xs arbitrary: a) (auto simp: max_def)
  then show "xs \<noteq> [] \<Longrightarrow> highest xs \<in> set xs" by (cases xs) (auto simp: highest_def)
qed

lemma lowest_in: "xs \<noteq> [] \<Longrightarrow> lowest xs \<in> set xs"
proof -
  have "foldl min a xs \<in> insert a (set xs)" for a :: decimal and xs
    by (induction xs arbitrary: a) (auto simp: min_def)
  then show "xs \<noteq> [] \<Longrightarrow> lowest xs \<in> set xs" by (cases xs) (auto simp: lowest_def)
qed

lemma highest_Max: "xs \<noteq> [] \<Longrightarrow> highest xs = Max (set xs)"
  by (rule Max_eqI [symmetric]) (auto simp: highest_ge highest_in)

lemma lowest_Min: "xs \<noteq> [] \<Longrightarrow> lowest xs = Min (set xs)"
  by (rule Min_eqI [symmetric]) (auto simp: lowest_le lowest_in)

lemma aggregate_vwap_nonneg:
  assumes "list_all valid_bar bars" and "aggregate_vwap bars v = Some x"
  shows "0 \<le> x"
proof -
  let ?w = "map (\<lambda>b. dmul (the (b_vwap b)) (b_volume b)) (filter (\<lambda>b. b_vwap b \<noteq> None \<and> b_volume b > 0) bars)"
  have "list_all (\<lambda>x. 0 \<le> x) ?w" using assms(1) valid_bar_facts(9,10) by (fastforce simp: list_all_iff)
  with assms(2) show ?thesis by (auto simp: aggregate_vwap_def Let_def dsum_nonneg split: if_splits)
qed

lemma find_Some_mem: "find P xs = Some x \<Longrightarrow> x \<in> set xs \<and> P x"
  by (auto simp: find_Some_iff)

lemma last_open_interest_nonneg:
  assumes "list_all valid_bar bars" and "last_open_interest bars = Some x"
  shows "0 \<le> x"
proof -
  from assms(2) obtain b where "find (\<lambda>b. b_open_interest b \<noteq> None) (rev bars) = Some b" "b_open_interest b = Some x"
    by (auto simp: last_open_interest_def split: option.splits)
  with find_Some_mem [OF this(1)] assms(1) show ?thesis by (auto simp: list_all_iff intro: valid_bar_facts(11))
qed

lemma sum_trade_count_nonneg:
  assumes "list_all valid_bar bars" and "sum_trade_count bars = Some n"
  shows "0 \<le> n"
proof -
  have "0 \<le> the (b_trade_count b)" if "b \<in> set (filter (\<lambda>b. b_trade_count b \<noteq> None) bars)" for b
    using that assms(1) valid_bar_facts(12) by (auto simp: list_all_iff)
  then have "0 \<le> sum_list (map (\<lambda>b. the (b_trade_count b)) (filter (\<lambda>b. b_trade_count b \<noteq> None) bars))"
    by (intro sum_list_nonneg) auto
  with assms(2) show ?thesis by (simp add: sum_trade_count_def Let_def split: if_splits)
qed

text \<open>What an aggregated bar says about the bars it stands for.\<close>

definition summarises :: "bar \<Rightarrow> bar list \<Rightarrow> bool" where
  "summarises r g \<longleftrightarrow> g \<noteq> [] \<and> (\<forall>b \<in> set g. b_instrument_id b = b_instrument_id r \<and> b_session_id b = b_session_id r) \<and>
     b_open r = b_open (hd g) \<and> b_close r = b_close (last g) \<and>
     b_high r = Max (b_high ` set g) \<and> b_low r = Min (b_low ` set g) \<and> b_volume r = dsum (map b_volume g)"

definition one_stream :: "bar list \<Rightarrow> bool" where
  "one_stream g \<longleftrightarrow> (\<forall>b \<in> set g. b_instrument_id b = b_instrument_id (hd g) \<and> b_session_id b = b_session_id (hd g))"

lemma check_same_stream_ok: "one_stream g \<Longrightarrow> check_same_stream g = Inr ()"
  by (auto simp: check_same_stream_def one_stream_def find_None_iff split: option.splits dest: find_Some_mem)

lemma collapse_valid:
  assumes "g \<noteq> []" and "list_all valid_bar g" and "one_stream g" and "start < stop" and "\<not> blank tf"
  shows "\<exists>r. collapse g start stop tf p = Inr r \<and> valid_bar r \<and> summarises r g \<and> b_start_time r = start \<and>
     b_end_time r = stop \<and> b_is_partial r = p \<and> b_is_complete r = (\<not> p) \<and> b_timeframe r = tf \<and> \<not> b_is_synthetic r"
proof -
  have v: "valid_bar (hd g)" "valid_bar (last g)" using assms(1,2) by (simp_all add: list_all_iff)
  have hi: "b_open (hd g) \<le> highest (map b_high g)" "b_close (last g) \<le> highest (map b_high g)"
    using highest_ge [of "b_high (hd g)" "map b_high g"] highest_ge [of "b_high (last g)" "map b_high g"] assms(1)
      valid_bar_facts(4) [OF v(1)] valid_bar_facts(5) [OF v(2)] by (auto intro: order_trans)
  have lo: "lowest (map b_low g) \<le> b_open (hd g)" "lowest (map b_low g) \<le> b_close (last g)"
    using lowest_le [of "b_low (hd g)" "map b_low g"] lowest_le [of "b_low (last g)" "map b_low g"] assms(1)
      valid_bar_facts(6) [OF v(1)] valid_bar_facts(7) [OF v(2)] by (auto intro: order_trans)
  have vol: "0 \<le> dsum (map b_volume g)" using assms(2) valid_bar_facts(9) by (auto simp: list_all_iff intro!: dsum_nonneg)
  let ?r = "\<lparr>b_instrument_id = b_instrument_id (hd g), b_start_time = start, b_end_time = stop,
      b_timeframe = tf, b_session_id = b_session_id (hd g), b_open = b_open (hd g),
      b_high = highest (map b_high g), b_low = lowest (map b_low g), b_close = b_close (last g),
      b_volume = dsum (map b_volume g), b_vwap = aggregate_vwap g (dsum (map b_volume g)),
      b_open_interest = last_open_interest g, b_trade_count = sum_trade_count g,
      b_is_complete = (\<not> p), b_is_partial = p, b_is_synthetic = False\<rparr>"
  have n: "raise_first (bar_checks ?r) = None"
    using vol hi lo valid_bar_facts(3) [OF v(1)] assms(4,5) aggregate_vwap_nonneg [OF assms(2)] last_open_interest_nonneg [OF assms(2)]
      sum_trade_count_nonneg [OF assms(2)]
    by (auto simp: raise_first_None_iff bar_checks_def require_non_negative_def not_less not_le intro: order_trans
        dest!: sym [of "Some _"] split: option.splits) (meson leD)+
  have c: "collapse g start stop tf p = Inr ?r" unfolding collapse_def mk_bar_def Let_def checked_def n by (rule option.case)
  moreover have "valid_bar ?r" unfolding valid_bar_def mk_bar_def checked_def n by (rule option.case)
  moreover have "summarises ?r g" 
    using assms(1) by (simp add: summarises_def highest_Max lowest_Min) (rule assms(3) [unfolded one_stream_def])
  ultimately show ?thesis by (intro exI [of _ ?r]) simp
qed

section \<open>Runs of the aggregator\<close>

fun aggregator_run :: "bar list \<Rightarrow> bar_aggregator \<Rightarrow> (bar_aggregator, bar list) outcome" where
  "aggregator_run [] a = (Inr [], a)"
| "aggregator_run (b # bs) a =
     obind (aggregator_update b a) (\<lambda>out a1. obind (aggregator_run bs a1) (\<lambda>outs a2. (Inr (out @ outs), a2)))"

definition aggregate_stream :: "bar list \<Rightarrow> bar_aggregator \<Rightarrow> (bar_aggregator, bar list) outcome" where
  "aggregate_stream bs a =
     obind (aggregator_run bs a) (\<lambda>outs a1. obind (aggregator_finish a1) (\<lambda>rest a2. (Inr (outs @ rest), a2)))"

definition in_session :: "market_session option \<Rightarrow> bar \<Rightarrow> bool" where
  "in_session session b \<longleftrightarrow> (case session of None \<Rightarrow> True | Some s \<Rightarrow> bar_inside_session b s)"

definition pending :: "bar_aggregator \<Rightarrow> bar list" where
  "pending a = (case ba_state a of None \<Rightarrow> [] | Some s \<Rightarrow> ag_bars s)"

text \<open>The bucket start of a bar is known and not after the bar.\<close>

definition bucket_start :: "timeframe \<Rightarrow> exchange_zone \<Rightarrow> bar \<Rightarrow> instant \<Rightarrow> bool" where
  "bucket_start tf z b t \<longleftrightarrow> (\<exists>i. clock_bucket_for (b_start_time b) tf z = Inr i \<and> ti_start i = t)"

definition usable :: "timeframe \<Rightarrow> exchange_zone \<Rightarrow> bar \<Rightarrow> bool" where
  "usable tf z b \<longleftrightarrow> valid_bar b \<and> (\<exists>t. bucket_start tf z b t \<and> t \<le> b_start_time b)"

text \<open>A completed bar and the bars it stands for.\<close>

definition completes :: "timeframe \<Rightarrow> exchange_zone \<Rightarrow> bar \<Rightarrow> bar list \<Rightarrow> bool" where
  "completes tf z r g \<longleftrightarrow> valid_bar r \<and> summarises r g \<and> b_timeframe r = tf_value tf \<and>
     (\<forall>b \<in> set g. bucket_start tf z b (b_start_time r))"

definition bucket_ok :: "timeframe \<Rightarrow> exchange_zone \<Rightarrow> aggregation_state \<Rightarrow> bool" where
  "bucket_ok tf z s \<longleftrightarrow> ag_bars s \<noteq> [] \<and> list_all valid_bar (ag_bars s) \<and> one_stream (ag_bars s) \<and>
     ti_start (ag_bucket s) < ti_end (ag_bucket s) \<and> ag_target_timeframe s = tf \<and>
     (\<forall>b \<in> set (ag_bars s). bucket_start tf z b (ti_start (ag_bucket s)))"

definition aggregator_ok :: "timeframe \<Rightarrow> exchange_zone \<Rightarrow> market_session option \<Rightarrow> bar_aggregator \<Rightarrow> bool" where
  "aggregator_ok tf z session a \<longleftrightarrow> ba_target_timeframe a = tf \<and> ba_exchange_timezone a = z \<and> ba_session a = session \<and>
     \<not> blank (tf_value tf) \<and> (\<forall>s. ba_state a = Some s \<longrightarrow> bucket_ok tf z s)"

lemma one_stream_single [simp]: "one_stream [b]"
  by (simp add: one_stream_def)

lemma one_stream_snoc:
  assumes "one_stream g" and "g \<noteq> []" and "b_instrument_id (last g) = b_instrument_id b" "b_session_id (last g) = b_session_id b"
  shows "one_stream (g @ [b])"
proof -
  have "b_instrument_id (last g) = b_instrument_id (hd g)" "b_session_id (last g) = b_session_id (hd g)"
    using assms(1,2) last_in_set unfolding one_stream_def by blast+
  then have "b_instrument_id b = b_instrument_id (hd g)" "b_session_id b = b_session_id (hd g)" by (metis assms(3), metis assms(4))
  with assms(1) show ?thesis unfolding one_stream_def hd_append2 [OF assms(2)] by (simp only: set_append list.set) blast
qed

lemma aggregate_state_ok:
  assumes "bucket_ok tf z s" and "\<not> blank (tf_value tf)"
  shows "\<exists>r. aggregate_state s = Inr r \<and> completes tf z r (ag_bars s)"
proof -
  let ?p = "b_start_time (hd (ag_bars s)) \<noteq> ti_start (ag_bucket s) \<or> b_end_time (last (ag_bars s)) < ti_end (ag_bucket s) \<or>
      ti_end (ag_bucket s) \<noteq> ag_natural_bucket_end s \<or> \<not> list_all b_is_complete (ag_bars s)"
  from assms obtain r where r: "collapse (ag_bars s) (ti_start (ag_bucket s)) (ti_end (ag_bucket s)) (tf_value tf) ?p = Inr r"
    "valid_bar r" "summarises r (ag_bars s)" "b_start_time r = ti_start (ag_bucket s)" "b_timeframe r = tf_value tf"
    using collapse_valid [of "ag_bars s" "ti_start (ag_bucket s)" "ti_end (ag_bucket s)" "tf_value tf" ?p]
    unfolding bucket_ok_def by blast
  have "aggregate_state s = Inr r"
    using assms(1) r(1) by (simp add: aggregate_state_def bucket_ok_def check_same_stream_ok Let_def)
  with r assms(1) show ?thesis by (auto simp: completes_def bucket_ok_def)
qed

lemma new_state_ok:
  assumes "aggregator_ok tf z session a" and "usable tf z b" and "in_session session b"
  shows "\<exists>s. new_state_for a b = Inr s \<and> bucket_ok tf z s \<and> ag_bars s = [b]"
proof -
  from assms(2) obtain i where i: "clock_bucket_for (b_start_time b) tf z = Inr i" "ti_start i \<le> b_start_time b" "valid_bar b"
    by (auto simp: usable_def bucket_start_def)
  have "ti_start i < ti_end i" using i(1)
    by (auto simp: clock_bucket_for_def res_bind_Inr_iff Let_def ctor_simps split: alignment_mode.splits option.splits if_splits)
  with i assms show ?thesis
    by (auto simp: new_state_for_def aggregator_ok_def in_session_def bar_inside_session_def ti_contains_def bucket_ok_def
        bucket_start_def Let_def ctor_simps checked_def split: option.splits)
qed

lemma close_other_ok:
  assumes "aggregator_ok tf z session a"
  shows "\<exists>outs a' gs. close_other_bucket incoming a = (Inr outs, a') \<and> aggregator_ok tf z session a' \<and>
     list_all2 (completes tf z) outs gs \<and> concat gs @ pending a' = pending a \<and>
     (\<forall>s. ba_state a' = Some s \<longrightarrow> same_stream_bucket s incoming)"
proof (cases "\<exists>s. ba_state a = Some s \<and> \<not> same_stream_bucket s incoming")
  case True
  then obtain s where s: "ba_state a = Some s" "\<not> same_stream_bucket s incoming" by blast
  with assms aggregate_state_ok obtain r where "aggregate_state s = Inr r" "completes tf z r (ag_bars s)"
    unfolding aggregator_ok_def by blast
  with s assms show ?thesis
    by (intro exI [of _ "[r]"] exI [of _ "a\<lparr>ba_state := None\<rparr>"] exI [of _ "[ag_bars s]"])
       (simp add: close_other_bucket_def aggregator_ok_def pending_def)
next
  case False
  with assms show ?thesis
    by (intro exI [of _ "[]"] exI [of _ a]) (auto simp: close_other_bucket_def split: option.splits)
qed

lemma put_bar_ok:
  assumes "aggregator_ok tf z session a" and "bucket_ok tf z incoming" "ag_bars incoming = [b]"
    and "\<forall>s. ba_state a = Some s \<longrightarrow> same_stream_bucket s incoming"
  shows "aggregator_ok tf z session (put_bar incoming b a) \<and> pending (put_bar incoming b a) = pending a @ [b]"
proof (cases "ba_state a")
  case (Some s)
  with assms have s: "bucket_ok tf z s" "same_stream_bucket s incoming" by (simp_all add: aggregator_ok_def)
  then have "one_stream (ag_bars s @ [b])" "ag_bucket incoming = ag_bucket s"
    using assms(3) by (auto simp: bucket_ok_def same_stream_bucket_def intro!: one_stream_snoc)
  with s(1) assms(1-3) have "bucket_ok tf z (s\<lparr>ag_bars := ag_bars s @ [b]\<rparr>)" by (auto simp: bucket_ok_def)
  with Some assms(1) show ?thesis by (simp add: put_bar_def aggregator_ok_def pending_def)
qed (use assms in \<open>simp add: put_bar_def aggregator_ok_def pending_def\<close>)

lemma close_full_ok:
  assumes "aggregator_ok tf z session a"
  shows "\<exists>outs a' gs. close_full_bucket a = (Inr outs, a') \<and> aggregator_ok tf z session a' \<and>
     list_all2 (completes tf z) outs gs \<and> concat gs @ pending a' = pending a"
proof (cases "\<exists>s. ba_state a = Some s \<and> b_end_time (last (ag_bars s)) \<ge> ti_end (ag_bucket s)")
  case True
  then obtain s where s: "ba_state a = Some s" "b_end_time (last (ag_bars s)) \<ge> ti_end (ag_bucket s)" by blast
  with assms aggregate_state_ok obtain r where "aggregate_state s = Inr r" "completes tf z r (ag_bars s)"
    unfolding aggregator_ok_def by blast
  with s assms show ?thesis
    by (intro exI [of _ "[r]"] exI [of _ "a\<lparr>ba_state := None\<rparr>"] exI [of _ "[ag_bars s]"])
       (simp add: close_full_bucket_def aggregator_ok_def pending_def)
next
  case False
  with assms show ?thesis
    by (intro exI [of _ "[]"] exI [of _ a]) (auto simp: close_full_bucket_def split: option.splits)
qed

lemma aggregator_update_ok:
  assumes "aggregator_ok tf z session a" and "usable tf z b"
  shows "\<exists>outs a' gs. aggregator_update b a = (Inr outs, a') \<and> aggregator_ok tf z session a' \<and>
     list_all2 (completes tf z) outs gs \<and> concat gs @ pending a' = pending a @ filter (in_session session) [b]"
proof (cases "in_session session b")
  case True
  from new_state_ok [OF assms True] obtain s where s: "new_state_for a b = Inr s" "bucket_ok tf z s" "ag_bars s = [b]" by blast
  from close_other_ok [OF assms(1), of s] obtain o1 a1 g1 where c1: "close_other_bucket s a = (Inr o1, a1)"
    "aggregator_ok tf z session a1" "list_all2 (completes tf z) o1 g1" "concat g1 @ pending a1 = pending a"
    "\<forall>s'. ba_state a1 = Some s' \<longrightarrow> same_stream_bucket s' s" by blast
  from put_bar_ok [OF c1(2) s(2,3) c1(5)] close_full_ok obtain o2 a2 g2 where c2: "close_full_bucket (put_bar s b a1) = (Inr o2, a2)"
    "aggregator_ok tf z session a2" "list_all2 (completes tf z) o2 g2" "concat g2 @ pending a2 = pending a1 @ [b]" by metis
  have "aggregator_update b a = (Inr (o1 @ o2), a2)"
    using True assms(1) s(1) c1(1) c2(1) by (auto simp: aggregator_update_def in_session_def aggregator_ok_def split: option.splits)
  moreover have "concat (g1 @ g2) @ pending a2 = pending a @ [b]" using c1(4) c2(4) by (metis append.assoc concat_append)
  ultimately show ?thesis using True c2(2) list_all2_appendI [OF c1(3) c2(3)] by auto
next
  case False
  with assms show ?thesis
    by (intro exI [of _ "[]"] exI [of _ a])
       (auto simp: aggregator_update_def in_session_def aggregator_ok_def split: option.splits)
qed

lemma aggregator_run_ok:
  assumes "aggregator_ok tf z session a" and "list_all (usable tf z) bs"
  shows "\<exists>outs a' gs. aggregator_run bs a = (Inr outs, a') \<and> aggregator_ok tf z session a' \<and>
     list_all2 (completes tf z) outs gs \<and> concat gs @ pending a' = pending a @ filter (in_session session) bs"
  using assms
proof (induction bs arbitrary: a)
  case (Cons b bs)
  then obtain o1 a1 g1 where u: "aggregator_update b a = (Inr o1, a1)" "aggregator_ok tf z session a1"
    "list_all2 (completes tf z) o1 g1" "concat g1 @ pending a1 = pending a @ filter (in_session session) [b]"
    using aggregator_update_ok [of tf z session a b] by auto
  from Cons.IH [OF u(2)] Cons.prems(2) obtain o2 a2 g2 where r: "aggregator_run bs a1 = (Inr o2, a2)" "aggregator_ok tf z session a2"
    "list_all2 (completes tf z) o2 g2" "concat g2 @ pending a2 = pending a1 @ filter (in_session session) bs" by auto
  have "concat (g1 @ g2) @ pending a2 = pending a @ filter (in_session session) (b # bs)"
  proof -
    have "concat (g1 @ g2) @ pending a2 = (concat g1 @ pending a1) @ filter (in_session session) bs" by (simp add: r(4))
    also have "\<dots> = pending a @ filter (in_session session) (b # bs)" unfolding u(4) by simp
    finally show ?thesis .
  qed
  with u(1) r(1,2) list_all2_appendI [OF u(3) r(3)] show ?case by auto
qed (auto intro: exI [of _ "[]"])

section \<open>Runs of the consolidator\<close>

fun consolidator_run :: "bar list \<Rightarrow> consolidator \<Rightarrow> (consolidator, bar list) outcome" where
  "consolidator_run [] c = (Inr [], c)"
| "consolidator_run (b # bs) c =
     obind (consolidator_update b c) (\<lambda>out c1. obind (consolidator_run bs c1) (\<lambda>outs c2. (Inr (out @ outs), c2)))"

lemma contiguous_snoc: "contiguous (xs @ [x, y]) \<longleftrightarrow> contiguous (xs @ [x]) \<and> b_end_time x = b_start_time y"
  by (induction xs rule: contiguous.induct) auto

lemma contiguous_span:
  assumes "g \<noteq> []" and "contiguous g" and "list_all (\<lambda>b. b_end_time b - b_start_time b = d) g"
  shows "b_end_time (last g) - b_start_time (hd g) = int (length g) * d"
  using assms by (induction g rule: contiguous.induct) (auto simp: algebra_simps)

text \<open>The bars a consolidated bar stands for: they tile its interval without a gap.\<close>

definition tiles :: "int \<Rightarrow> int \<Rightarrow> bar \<Rightarrow> bar list \<Rightarrow> bool" where
  "tiles source target r g \<longleftrightarrow> valid_bar r \<and> summarises r g \<and> contiguous g \<and> b_start_time r = b_start_time (hd g) \<and>
     b_end_time r = b_end_time (last g) \<and> b_end_time r - b_start_time r = target \<and> int (length g) * source = target \<and>
     b_is_complete r \<and> \<not> b_is_partial r"

definition source_bar :: "timeframe \<Rightarrow> timeframe \<Rightarrow> exchange_zone \<Rightarrow> bar \<Rightarrow> bool" where
  "source_bar source target z b \<longleftrightarrow> valid_bar b \<and> b_is_complete b \<and> \<not> b_is_partial b \<and> b_timeframe b = tf_value source \<and>
     Some (b_end_time b - b_start_time b) = tf_duration source \<and> (\<exists>i. clock_bucket_for (b_start_time b) target z = Inr i)"

definition consolidator_ok :: "timeframe \<Rightarrow> timeframe \<Rightarrow> exchange_zone \<Rightarrow> consolidator \<Rightarrow> bool" where
  "consolidator_ok source target z c \<longleftrightarrow> co_source_timeframe c = source \<and> co_target_timeframe c = target \<and>
     co_exchange_timezone c = z \<and> tf_alignment target = CLOCK \<and> \<not> blank (tf_value target) \<and>
     list_all (source_bar source target z) (co_bars c) \<and> one_stream (co_bars c) \<and>
     (\<forall>i. co_bucket c = Some i \<longrightarrow> ti_start i < ti_end i \<and> tf_duration target = Some (ti_end i - ti_start i))"

lemma one_stream_Nil [simp]: "one_stream []"
  by (simp add: one_stream_def)

lemma clock_bucket_span:
  "clock_bucket_for t tf z = Inr i \<Longrightarrow> ti_start i < ti_end i \<and> tf_duration tf = Some (ti_end i - ti_start i)"
  by (auto simp: clock_bucket_for_def res_bind_Inr_iff Let_def ctor_simps split: alignment_mode.splits option.splits if_splits)

lemma consolidator_update_ok:
  assumes "consolidator_ok source target z c" and "source_bar source target z b"
    and "tf_duration source = Some d" "tf_duration target = Some t"
  shows "\<exists>outs c' g. consolidator_update b c = (Inr outs, c') \<and> consolidator_ok source target z c' \<and>
     (co_bars c' = co_bars c @ [b] \<or> co_bars c' = [b] \<or> co_bars c' = []) \<and> (g = co_bars c @ [b] \<or> g = [b]) \<and>
     (outs = [] \<or> (\<exists>r. outs = [r] \<and> tiles d t r g))"
proof -
  from assms(2) obtain i where i: "clock_bucket_for (b_start_time b) target z = Inr i" by (auto simp: source_bar_def)
  note span = clock_bucket_span [OF i]
  define c1 where "c1 = (if co_bucket c = None \<or> \<not> same_bucket_stream c i b
      then c\<lparr>co_bucket := Some i, co_bars := [b]\<rparr> else c\<lparr>co_bars := co_bars c @ [b]\<rparr>)"
  have v: "validate_source_bar c b = None"
    using assms(1,2) by (auto simp: validate_source_bar_def raise_first_None_iff consolidator_ok_def source_bar_def)
  have bucket: "co_bucket c1 = Some i" by (auto simp: c1_def same_bucket_stream_def)
  have bars: "co_bars c1 = co_bars c @ [b] \<or> co_bars c1 = [b]" by (simp add: c1_def)
  have ok1: "consolidator_ok source target z c1"
  proof (cases "co_bucket c = None \<or> \<not> same_bucket_stream c i b")
    case True
    with assms(1,2) span show ?thesis by (simp add: c1_def consolidator_ok_def)
  next
    case False
    then have "co_bars c = [] \<or> b_instrument_id (last (co_bars c)) = b_instrument_id b \<and> b_session_id (last (co_bars c)) = b_session_id b"
      by (auto simp: same_bucket_stream_def)
    with assms(1) have "one_stream (co_bars c @ [b])" by (metis append_Nil consolidator_ok_def one_stream_single one_stream_snoc)
    with False assms(1,2) span show ?thesis by (simp add: c1_def consolidator_ok_def)
  qed
  have upd: "consolidator_update b c = (if \<not> state_is_complete c1 then (Inr [], c1)
     else case consolidator_aggregate c1 of Inl e \<Rightarrow> (Inl e, c1) | Inr r \<Rightarrow> (Inr [r], c1\<lparr>co_bucket := None, co_bars := []\<rparr>))"
    using assms(1) i v unfolding consolidator_update_def consolidator_ok_def c1_def Let_def by (simp split: sum.split)
  show ?thesis
  proof (cases "state_is_complete c1")
    case False
    with upd ok1 bars show ?thesis by (intro exI [of _ "[]"] exI [of _ c1] exI [of _ "[b]"]) auto
  next
    case True
    with bucket have full: "co_bars c1 \<noteq> []" "b_start_time (hd (co_bars c1)) = ti_start i" "b_end_time (last (co_bars c1)) = ti_end i"
      "contiguous (co_bars c1)" by (simp_all add: state_is_complete_def)
    from ok1 have src: "list_all valid_bar (co_bars c1)" "one_stream (co_bars c1)" "\<not> blank (tf_value target)"
      and dur: "list_all (\<lambda>b. b_end_time b - b_start_time b = d) (co_bars c1)"
      using assms(3) by (auto simp: consolidator_ok_def source_bar_def list_all_iff)
    have count: "int (length (co_bars c1)) * d = t"
      using contiguous_span [OF full(1,4) dur] full(2,3) span assms(4) by simp
    from collapse_valid [OF full(1) src(1,2) conjunct1 [OF span] src(3)] obtain r where
      r: "collapse (co_bars c1) (ti_start i) (ti_end i) (tf_value target) False = Inr r" "valid_bar r" "summarises r (co_bars c1)"
        "b_start_time r = ti_start i" "b_end_time r = ti_end i" "\<not> b_is_partial r" "b_is_complete r" by metis
    have "consolidator_aggregate c1 = Inr r"
      using bucket full(1) r(1) ok1 by (simp add: consolidator_aggregate_def consolidator_ok_def)
    moreover have "tiles d t r (co_bars c1)" using r full count span assms(4) by (simp add: tiles_def)
    moreover have "consolidator_ok source target z (c1\<lparr>co_bucket := None, co_bars := []\<rparr>)" using ok1 by (simp add: consolidator_ok_def)
    ultimately show ?thesis using upd True bars
      by (intro exI [of _ "[r]"] exI [of _ "c1\<lparr>co_bucket := None, co_bars := []\<rparr>"] exI [of _ "co_bars c1"]) auto
  qed
qed

text \<open>The pending bars are the most recent ones, so every emitted bar stands for a segment of the input.\<close>

lemma consolidator_run_ok:
  assumes "consolidator_ok source target z c" and "list_all (source_bar source target z) bs"
    and "tf_duration source = Some d" "tf_duration target = Some t" and "\<exists>pre. seen = pre @ co_bars c"
  shows "\<exists>outs c'. consolidator_run bs c = (Inr outs, c') \<and>
     (\<forall>r \<in> set outs. \<exists>pre g post. seen @ bs = pre @ g @ post \<and> tiles d t r g)"
  using assms(1,2,5)
proof (induction bs arbitrary: c seen)
  case (Cons b bs)
  from Cons.prems(2) have "source_bar source target z b" "list_all (source_bar source target z) bs" by simp_all
  from consolidator_update_ok [OF Cons.prems(1) this(1) assms(3,4)] obtain out c1 g where
    u: "consolidator_update b c = (Inr out, c1)" "consolidator_ok source target z c1"
      "co_bars c1 = co_bars c @ [b] \<or> co_bars c1 = [b] \<or> co_bars c1 = []" "g = co_bars c @ [b] \<or> g = [b]"
      "out = [] \<or> (\<exists>r. out = [r] \<and> tiles d t r g)" by blast
  from Cons.prems(3) obtain pre where pre: "seen = pre @ co_bars c" by blast
  have "\<exists>pre. seen @ [b] = pre @ co_bars c1" using u(3) pre by (metis append.assoc append_Nil2)
  from Cons.IH [OF u(2) \<open>list_all (source_bar source target z) bs\<close> this] obtain outs c2 where
    r: "consolidator_run bs c1 = (Inr outs, c2)" "\<forall>r \<in> set outs. \<exists>pre g post. (seen @ [b]) @ bs = pre @ g @ post \<and> tiles d t r g"
    by blast
  have "\<exists>pre. seen @ b # bs = pre @ g @ bs" using u(4) pre by (metis append.assoc append_Cons append_Nil)
  then have "\<forall>r \<in> set out. \<exists>pre g post. seen @ b # bs = pre @ g @ post \<and> tiles d t r g"
    using u(5) by (metis empty_iff empty_set set_ConsD)
  moreover have "\<forall>r \<in> set outs. \<exists>pre g post. seen @ b # bs = pre @ g @ post \<and> tiles d t r g" using r(2) by simp
  ultimately have "\<forall>r \<in> set (out @ outs). \<exists>pre g post. seen @ b # bs = pre @ g @ post \<and> tiles d t r g" by (metis Un_iff set_append)
  moreover have "consolidator_run (b # bs) c = (Inr (out @ outs), c2)" using u(1) r(1) by simp
  ultimately show ?case by blast
qed simp

section \<open>The pipeline\<close>

text \<open>The bars a pipeline hands on over a stream; a bar that raises hands on nothing.\<close>

fun pipeline_feed :: "bar list \<Rightarrow> timeframe \<Rightarrow> pipeline \<Rightarrow> bar list" where
  "pipeline_feed [] target p = []"
| "pipeline_feed (b # bs) target p =
     (case pipeline_aggregate b target p of (r, p') \<Rightarrow> (case r of Inl _ \<Rightarrow> [] | Inr out \<Rightarrow> out) @ pipeline_feed bs target p')"

text \<open>A pipeline without a window: every daily consolidator sees the bars of one session only.\<close>

definition unwindowed :: "pipeline \<Rightarrow> bool" where
  "unwindowed p \<longleftrightarrow> pl_session_window p = None \<and>
     (\<forall>i s src tgt c. map_of (pl_consolidators p) [i, s, src, tgt] = Some c \<longrightarrow> tf_alignment (co_target_timeframe c) = SESSION \<and>
        co_session_window c = None \<and> (co_bars c \<noteq> [] \<longrightarrow> co_session_id c = Some s))"

lemma unwindowed_update:
  assumes "unwindowed p" and "tf_alignment target = SESSION"
  shows "\<exists>r p'. pipeline_aggregate b target p = (r, p') \<and> unwindowed p' \<and> (r = Inr [] \<or> (\<exists>e. r = Inl e))"
proof (cases "\<exists>source c. parse_timeframe (b_timeframe b) = Inr source \<and>
    consolidator_for (aggregation_key b source target) source target p = Inr c")
  case False
  with assms show ?thesis by (auto simp: pipeline_aggregate_def run_consolidator_def split: sum.splits)
next
  case True
  then obtain source c where c: "parse_timeframe (b_timeframe b) = Inr source"
    "consolidator_for (aggregation_key b source target) source target p = Inr c" by blast
  have c_ok: "tf_alignment (co_target_timeframe c) = SESSION" "co_session_window c = None" "co_bars c \<noteq> [] \<longrightarrow> co_session_id c = Some (b_session_id b)"
    using c(2) assms unfolding consolidator_for_def unwindowed_def aggregation_key_def
    by (auto simp: ctor_simps Let_def split: option.splits if_splits)
  define c' where "c' = snd (consolidator_update b c)"
  have u: "fst (consolidator_update b c) = Inr [] \<or> (\<exists>e. fst (consolidator_update b c) = Inl e)"
    "tf_alignment (co_target_timeframe c') = SESSION" "co_session_window c' = None" "co_bars c' \<noteq> [] \<longrightarrow> co_session_id c' = Some (b_session_id b)"
    using c_ok by (auto simp: c'_def consolidator_update_def update_session_def session_interval_def Let_def split: option.splits)
  have "unwindowed (p\<lparr>pl_consolidators := AList.update (aggregation_key b source target) c' (pl_consolidators p)\<rparr>)"
    using assms(1) u(2-4) by (auto simp: unwindowed_def aggregation_key_def update_conv' split: if_splits)
  with u(1) c show ?thesis by (auto simp: pipeline_aggregate_def run_consolidator_def c'_def split: prod.splits)
qed

text \<open>A bar pipeline built without a session window never hands on a daily bar: the consolidators are
  kept per session, so the change of session that would close a day never reaches one.\<close>

theorem daily_bars_need_a_window:
  assumes "tf_alignment target = SESSION"
  shows "pipeline_feed bs target (pipeline_init z None) = []"
proof -
  have "unwindowed p \<Longrightarrow> pipeline_feed bs target p = []" for p
  proof (induction bs arbitrary: p)
    case (Cons b bs)
    from unwindowed_update [OF Cons.prems assms, of b] Cons.IH show ?case by auto
  qed simp
  then show ?thesis by (simp add: unwindowed_def pipeline_init_def)
qed

definition utc_zone :: exchange_zone where
  "utc_zone = \<lparr>zn_local = (\<lambda>t. t), zn_fold = (\<lambda>_. False), zn_instant = (\<lambda>w _. w)\<rparr>"

definition minute_bar :: "string \<Rightarrow> int \<Rightarrow> bar" where
  "minute_bar session n = \<lparr>b_instrument_id = ''ES'', b_start_time = minutes n, b_end_time = minutes (n + 1), b_timeframe = ''1m'',
     b_session_id = session, b_open = 10, b_high = 12, b_low = 9, b_close = 11, b_volume = 5, b_vwap = None,
     b_open_interest = None, b_trade_count = None, b_is_complete = True, b_is_partial = False, b_is_synthetic = False\<rparr>"

theorem daily_bars_need_a_window_witness:
  "pipeline_feed [minute_bar ''2025-01-02'' 0, minute_bar ''2025-01-02'' 1, minute_bar ''2025-01-03'' 1440]
     \<lparr>tf_value = ''1d'', tf_duration = None, tf_alignment = SESSION\<rparr> (pipeline_init utc_zone None) = []"
  by (rule daily_bars_need_a_window) simp

section \<open>Buckets of a clock without daylight saving\<close>

definition fixed_offset :: "int \<Rightarrow> exchange_zone" where
  "fixed_offset k = \<lparr>zn_local = (\<lambda>t. t + k), zn_fold = (\<lambda>_. False), zn_instant = (\<lambda>w _. w - k)\<rparr>"

lemma wall_bucket:
  fixes d m t :: int
  assumes "d dvd m"
  shows "(t - t mod m) + (t mod m) div d * d = t - t mod d"
proof -
  have "(t mod m) div d * d = t mod m - (t mod m) mod d" by (simp add: minus_mod_eq_div_mult)
  then show ?thesis using assms by (simp add: mod_mod_cancel)
qed

lemma parsed_clock_duration:
  assumes "parse_timeframe v = Inr tf" and "tf_alignment tf = CLOCK"
  obtains s where "tf_duration tf = Some (s * 1000000)" "0 < s" "86400 mod s = 0"
proof -
  from assms obtain d where d: "tf_duration tf = Some d" "map_of clock_durations (lower (strip v)) = Some d"
    by (auto simp: parse_timeframe_def Let_def split: option.splits if_splits)
  from map_of_SomeD [OF d(2)] have "d \<in> set (map snd clock_durations)" by force
  then have "d mod 1000000 = 0 \<and> 0 < d div 1000000 \<and> 86400 mod (d div 1000000) = 0"
    by (auto simp: clock_durations_def minutes_def)
  with d(1) that [of "d div 1000000"] show ?thesis by (auto simp: minus_mod_eq_div_mult [symmetric])
qed

lemma fixed_offset_bucket:
  assumes "tf_alignment tf = CLOCK" "tf_duration tf = Some (s * 1000000)" "0 < s" "86400 mod s = 0"
  shows "clock_bucket_for t tf (fixed_offset k) =
     Inr \<lparr>ti_start = t - (t + k) mod (s * 1000000), ti_end = t - (t + k) mod (s * 1000000) + s * 1000000\<rparr>"
proof -
  from assms(4) have "s * 1000000 dvd 86400 * 1000000" by (intro mult_dvd_mono) auto
  from wall_bucket [of "s * 1000000" 86400000000 "t + k"] this
  have "(t + k - (t + k) mod 86400000000) + (t + k) mod 86400000000 div (s * 1000000) * (s * 1000000) - k = t - (t + k) mod (s * 1000000)"
    by simp
  with assms show ?thesis
    by (simp add: clock_bucket_for_def fixed_offset_def duration_seconds_def day_micros_def Let_def ctor_simps checked_def)
qed

text \<open>Where the exchange clock has a constant offset, every instant lies in its bucket, the bucket has the
  timeframe's duration and starts at a multiple of it on the wall clock, and every instant of the bucket has
  the same bucket: buckets partition the timeline, for every clock timeframe the parser accepts.\<close>

theorem buckets_partition_fixed_offset_clock:
  assumes "parse_timeframe v = Inr tf" and "tf_alignment tf = CLOCK"
  shows "\<exists>i d. clock_bucket_for t tf (fixed_offset k) = Inr i \<and> tf_duration tf = Some d \<and> ti_contains i t \<and>
     ti_end i = ti_start i + d \<and> (ti_start i + k) mod d = 0 \<and>
     (\<forall>u. ti_contains i u \<longrightarrow> clock_bucket_for u tf (fixed_offset k) = Inr i)"
proof -
  from assms obtain s where s: "tf_duration tf = Some (s * 1000000)" "0 < s" "86400 mod s = 0" by (rule parsed_clock_duration)
  define d where "d = s * 1000000"
  have bucket: "clock_bucket_for u tf (fixed_offset k) = Inr \<lparr>ti_start = u - (u + k) mod d, ti_end = u - (u + k) mod d + d\<rparr>" for u
    unfolding d_def by (rule fixed_offset_bucket [OF assms(2) s])
  have d: "0 < d" "tf_duration tf = Some d" using s by (simp_all add: d_def)
  let ?start = "t - (t + k) mod d"
  have start: "?start + k = (t + k) div d * d" using minus_mod_eq_div_mult [of "t + k" d] by (simp add: algebra_simps)
  have same: "u - (u + k) mod d = ?start" if "?start \<le> u" "u < ?start + d" for u
  proof -
    have "(u + k) div d = (t + k) div d"
      using that start by (intro int_div_pos_eq [where r = "u - ?start"]) (auto simp: algebra_simps)
    with minus_mod_eq_div_mult [of "u + k" d] have "u + k - (u + k) mod d = (t + k) div d * d" by (simp only:)
    with start show ?thesis by linarith
  qed
  have "ti_contains \<lparr>ti_start = ?start, ti_end = ?start + d\<rparr> t"
    using pos_mod_bound [OF d(1), of "t + k"] pos_mod_sign [OF d(1), of "t + k"] unfolding ti_contains_def by simp
  moreover have "(?start + k) mod d = 0" unfolding start by simp
  moreover have "clock_bucket_for u tf (fixed_offset k) = Inr \<lparr>ti_start = ?start, ti_end = ?start + d\<rparr>"
    if "ti_contains \<lparr>ti_start = ?start, ti_end = ?start + d\<rparr> u" for u
  proof -
    have "u - (u + k) mod d = ?start" using that unfolding ti_contains_def time_interval.simps by (intro same) blast+
    then show ?thesis unfolding bucket by (simp only:)
  qed
  ultimately have e: "clock_bucket_for t tf (fixed_offset k) = Inr \<lparr>ti_start = ?start, ti_end = ?start + d\<rparr> \<and> tf_duration tf = Some d \<and>
     ti_contains \<lparr>ti_start = ?start, ti_end = ?start + d\<rparr> t \<and>
     ti_end \<lparr>ti_start = ?start, ti_end = ?start + d\<rparr> = ti_start \<lparr>ti_start = ?start, ti_end = ?start + d\<rparr> + d \<and>
     (ti_start \<lparr>ti_start = ?start, ti_end = ?start + d\<rparr> + k) mod d = 0 \<and>
     (\<forall>u. ti_contains \<lparr>ti_start = ?start, ti_end = ?start + d\<rparr> u \<longrightarrow>
        clock_bucket_for u tf (fixed_offset k) = Inr \<lparr>ti_start = ?start, ti_end = ?start + d\<rparr>)"
    using d(2) unfolding time_interval.simps by blast
  show ?thesis by (rule exI, rule exI, rule e)
qed

theorem buckets_partition_fixed_offset_clock_witness:
  "\<exists>i d. clock_bucket_for 1735812345000000 \<lparr>tf_value = ''4h'', tf_duration = Some 14400000000, tf_alignment = CLOCK\<rparr>
       (fixed_offset (- 18000000000)) = Inr i \<and>
     tf_duration \<lparr>tf_value = ''4h'', tf_duration = Some 14400000000, tf_alignment = CLOCK\<rparr> = Some d \<and>
     ti_contains i 1735812345000000 \<and> ti_end i = ti_start i + d \<and> (ti_start i + - 18000000000) mod d = 0 \<and>
     (\<forall>u. ti_contains i u \<longrightarrow> clock_bucket_for u \<lparr>tf_value = ''4h'', tf_duration = Some 14400000000, tf_alignment = CLOCK\<rparr>
       (fixed_offset (- 18000000000)) = Inr i)"
proof (rule buckets_partition_fixed_offset_clock [of "'' 4H ''"])
  have "lower (strip '' 4H '') = ''4h''" by code_simp
  then show "parse_timeframe '' 4H '' = Inr \<lparr>tf_value = ''4h'', tf_duration = Some 14400000000, tf_alignment = CLOCK\<rparr>"
    by (simp add: parse_timeframe_def clock_durations_def minutes_def)
qed simp

section \<open>Aggregation as a whole\<close>

text \<open>C15. An aggregator loses no bar and uses none twice: the bars it completes, the last one at \<open>finish\<close>,
  stand for consecutive groups that together are the bars inside the session, each group of one bucket,
  instrument and session, and each completed bar has the group's open, high, low, close and volume.\<close>

theorem aggregation_partitions_input:
  assumes "mk_bar_aggregator tf z session = Inr a" and "\<not> blank (tf_value tf)" and "list_all (usable tf z) bs"
  shows "\<exists>outs a' gs. aggregate_stream bs a = (Inr outs, a') \<and> ba_state a' = None \<and>
     list_all2 (completes tf z) outs gs \<and> concat gs = filter (in_session session) bs"
proof -
  have ok: "aggregator_ok tf z session a" and none: "pending a = []"
    using assms(1,2) by (auto simp: aggregator_ok_def pending_def ctor_simps split: if_splits)
  from aggregator_run_ok [OF ok assms(3)] none obtain outs a1 gs where r: "aggregator_run bs a = (Inr outs, a1)"
    "aggregator_ok tf z session a1" "list_all2 (completes tf z) outs gs" "concat gs @ pending a1 = filter (in_session session) bs"
    by auto
  show ?thesis
  proof (cases "ba_state a1")
    case None
    with r show ?thesis
      by (intro exI [of _ outs] exI [of _ a1] exI [of _ gs]) (simp add: aggregate_stream_def aggregator_finish_def pending_def)
  next
    case (Some s)
    with r(2) aggregate_state_ok obtain x where x: "aggregate_state s = Inr x" "completes tf z x (ag_bars s)"
      unfolding aggregator_ok_def by blast
    have "list_all2 (completes tf z) (outs @ [x]) (gs @ [ag_bars s])" using r(3) x(2) by (simp add: list_all2_appendI)
    with r(1,4) x(1) Some show ?thesis
      by (intro exI [of _ "outs @ [x]"] exI [of _ "a1\<lparr>ba_state := None\<rparr>"] exI [of _ "gs @ [ag_bars s]"])
         (simp add: aggregate_stream_def aggregator_finish_def pending_def)
  qed
qed

definition two_minutes :: timeframe where
  "two_minutes = \<lparr>tf_value = ''2m'', tf_duration = Some (minutes 2), tf_alignment = CLOCK\<rparr>"

lemma minute_bar_valid: "s = ''d1'' \<Longrightarrow> valid_bar (minute_bar s n)"
  by (simp add: valid_bar_checks minute_bar_def bar_checks_def minutes_def require_non_negative_def, code_simp)

lemma utc_two_minutes: "clock_bucket_for t two_minutes utc_zone = Inr \<lparr>ti_start = t - t mod 120000000, ti_end = t - t mod 120000000 + 120000000\<rparr>"
  using wall_bucket [of 120000000 86400000000 t]
  by (simp add: clock_bucket_for_def two_minutes_def utc_zone_def duration_seconds_def minutes_def day_micros_def Let_def ctor_simps checked_def)

lemma two_minutes_facts: "tf_alignment two_minutes = CLOCK" "\<not> blank (tf_value two_minutes)"
  by (simp add: two_minutes_def, unfold two_minutes_def, code_simp)

theorem aggregation_partitions_input_witness:
  "\<exists>outs a' gs. aggregate_stream [minute_bar ''d1'' 0, minute_bar ''d1'' 1, minute_bar ''d1'' 2]
       \<lparr>ba_target_timeframe = two_minutes, ba_exchange_timezone = utc_zone, ba_session = None, ba_state = None\<rparr> = (Inr outs, a') \<and>
     ba_state a' = None \<and> list_all2 (completes two_minutes utc_zone) outs gs \<and>
     concat gs = filter (in_session None) [minute_bar ''d1'' 0, minute_bar ''d1'' 1, minute_bar ''d1'' 2]"
  by (rule aggregation_partitions_input)
     (simp_all add: ctor_simps two_minutes_facts usable_def bucket_start_def utc_two_minutes minute_bar_valid)

section \<open>Consolidation as a whole\<close>

text \<open>Every bar a clock consolidator emits is a complete bar that exactly tiles its interval: it stands for a
  contiguous segment of the input, starts and ends with it, lasts the target duration, and the segment has
  target-over-source many bars; the consolidator never raises on complete source bars of one timeframe.\<close>

theorem consolidated_bars_tile_their_interval:
  assumes "mk_consolidator source target z w = Inr c" and "tf_alignment target = CLOCK" and "\<not> blank (tf_value target)"
    and "list_all (source_bar source target z) bs"
  shows "\<exists>outs c' d t. consolidator_run bs c = (Inr outs, c') \<and> tf_duration source = Some d \<and> tf_duration target = Some t \<and>
     (\<forall>r \<in> set outs. \<exists>pre g post. bs = pre @ g @ post \<and> tiles d t r g)"
proof -
  from assms(1,2) obtain d t where d: "tf_duration source = Some d" "tf_duration target = Some t"
    and ok: "consolidator_ok source target z c"
    using assms(3) by (auto simp: ctor_simps Let_def consolidator_ok_def split: option.splits if_splits)
  from consolidator_run_ok [OF ok assms(4) d, of "co_bars c"] ok obtain outs c' where
    "consolidator_run bs c = (Inr outs, c')" "\<forall>r \<in> set outs. \<exists>pre g post. co_bars c @ bs = pre @ g @ post \<and> tiles d t r g" by auto
  moreover have "co_bars c = []" using assms(1) by (auto simp: ctor_simps Let_def split: option.splits if_splits)
  ultimately show ?thesis using d by (intro exI [of _ outs] exI [of _ c'] exI [of _ d] exI [of _ t]) simp
qed

theorem consolidated_bars_tile_their_interval_witness:
  "\<exists>outs c' d t. consolidator_run [minute_bar ''d1'' 1, minute_bar ''d1'' 2, minute_bar ''d1'' 3]
       \<lparr>co_source_timeframe = \<lparr>tf_value = ''1m'', tf_duration = Some 60000000, tf_alignment = CLOCK\<rparr>, co_target_timeframe = two_minutes,
        co_exchange_timezone = utc_zone, co_session_window = None, co_session_id = None, co_bucket = None, co_bars = []\<rparr> = (Inr outs, c') \<and>
     tf_duration \<lparr>tf_value = ''1m'', tf_duration = Some 60000000, tf_alignment = CLOCK\<rparr> = Some d \<and> tf_duration two_minutes = Some t \<and>
     (\<forall>r \<in> set outs. \<exists>pre g post. [minute_bar ''d1'' 1, minute_bar ''d1'' 2, minute_bar ''d1'' 3] = pre @ g @ post \<and> tiles d t r g)"
proof (rule consolidated_bars_tile_their_interval)
  show "mk_consolidator \<lparr>tf_value = ''1m'', tf_duration = Some 60000000, tf_alignment = CLOCK\<rparr> two_minutes utc_zone None =
     Inr \<lparr>co_source_timeframe = \<lparr>tf_value = ''1m'', tf_duration = Some 60000000, tf_alignment = CLOCK\<rparr>, co_target_timeframe = two_minutes,
        co_exchange_timezone = utc_zone, co_session_window = None, co_session_id = None, co_bucket = None, co_bars = []\<rparr>"
    by (simp add: ctor_simps two_minutes_def minutes_def)
  show "list_all (source_bar \<lparr>tf_value = ''1m'', tf_duration = Some 60000000, tf_alignment = CLOCK\<rparr> two_minutes utc_zone)
     [minute_bar ''d1'' 1, minute_bar ''d1'' 2, minute_bar ''d1'' 3]"
    by (simp add: source_bar_def minute_bar_valid utc_two_minutes) (simp add: minute_bar_def minutes_def)
qed (rule two_minutes_facts)+

section \<open>Buckets around a daylight-saving change\<close>

text \<open>A clock that falls back by an hour at \<open>c\<close>, from offset \<open>k\<close>: the wall clock hour before the change is
  read twice, the second time with fold 1; a reading inside it is the earlier or the later instant by fold.\<close>

definition hour :: int where
  "hour = 3600000000"

definition falling_back :: "int \<Rightarrow> int \<Rightarrow> exchange_zone" where
  "falling_back c k = \<lparr>zn_local = (\<lambda>t. if t < c then t + k else t + k - hour), zn_fold = (\<lambda>t. c \<le> t \<and> t < c + hour),
     zn_instant = (\<lambda>w f. if w < c + k - hour then w - k else if c + k \<le> w then w - k + hour else if f then w - k + hour else w - k)\<rparr>"

text \<open>Contrary to the docstring of \<open>clock_bucket_for\<close>, the bucket it returns need not contain the timestamp:
  on a day whose clock falls back from 02:00 to 01:00 every instant of the wall clock hour from 03:00 to 04:00 is
  given the four-hour bucket from midnight, which has ended already.\<close>

theorem fall_back_bucket_misses_its_instant:
  assumes "day mod day_micros = 0" and "c + k = day + 2 * hour" and "c + 2 * hour \<le> t" and "t < c + 3 * hour"
  shows "\<exists>i. clock_bucket_for t \<lparr>tf_value = ''4h'', tf_duration = Some (4 * hour), tf_alignment = CLOCK\<rparr> (falling_back c k) = Inr i \<and>
     ti_start i + k = day \<and> ti_end i \<le> t"
proof -
  from assms(1) obtain n where n: "day = day_micros * n" by (metis dvd_def mod_0_imp_dvd)
  have "t + k - hour = (t + k - hour - day) + day_micros * n" using n by simp
  then have "(t + k - hour) mod day_micros = (t + k - hour - day) mod day_micros" by (metis mod_mult_self2)
  also have "\<dots> = t + k - hour - day" using assms(2-4) by (intro mod_pos_pos_trivial) (auto simp: hour_def day_micros_def)
  finally have m: "(t + k - hour) mod day_micros = t + k - hour - day" .
  have "(t + k - hour - day) div (14400 * 1000000) = 0" using assms by (simp add: hour_def)
  with m assms show ?thesis
    by (simp add: clock_bucket_for_def falling_back_def duration_seconds_def Let_def ctor_simps checked_def hour_def)
qed

theorem fall_back_bucket_misses_its_instant_witness:
  "\<exists>i. clock_bucket_for 1730622600000000 \<lparr>tf_value = ''4h'', tf_duration = Some (4 * hour), tf_alignment = CLOCK\<rparr>
       (falling_back 1730613600000000 (- 14400000000)) = Inr i \<and>
     ti_start i + - 14400000000 = 1730592000000000 \<and> ti_end i \<le> 1730622600000000"
  by (rule fall_back_bucket_misses_its_instant) (simp_all add: day_micros_def hour_def)

section \<open>The time grid\<close>

text \<open>The loop that fills a gap ends after as many rounds as whole slots fit between the two bars.\<close>

theorem gap_loop_ends_after_the_whole_slots:
  assumes "0 < slot" and "start \<le> stop"
  shows "length (gap_slots slot start stop) = nat ((stop - start) div slot)"
  using assms
proof (induction slot start stop rule: gap_slots.induct)
  case (1 slot start stop)
  show ?case
  proof (cases "start + slot \<le> stop")
    case True
    then have "(stop - start) div slot = (stop - (start + slot)) div slot + 1"
      using div_add_self2 [of slot "stop - (start + slot)"] 1(2) by (simp add: algebra_simps)
    moreover have "0 \<le> (stop - (start + slot)) div slot" using True 1(2) by (simp add: pos_imp_zdiv_nonneg_iff)
    ultimately show ?thesis using True 1 by (subst gap_slots.simps) (simp add: nat_add_distrib)
  next
    case False
    with 1(2,3) have "(stop - start) div slot = 0" by (intro div_pos_pos_trivial) auto
    with False show ?thesis by (subst gap_slots.simps) simp
  qed
qed

theorem gap_loop_ends_after_the_whole_slots_witness: "length (gap_slots 60 1000 1250) = nat ((1250 - 1000) div 60)"
  by (rule gap_loop_ends_after_the_whole_slots) simp_all

definition flat_bar :: "bar \<Rightarrow> instant \<times> instant \<Rightarrow> bar" where
  "flat_bar template slot = template\<lparr>b_start_time := fst slot, b_end_time := snd slot, b_open := b_close template, b_high := b_close template,
       b_low := b_close template, b_volume := 0, b_vwap := None, b_open_interest := None, b_trade_count := None,
       b_is_synthetic := True, b_is_complete := True, b_is_partial := False\<rparr>"

text \<open>No whole slot is missing between consecutive bars of a session.\<close>

fun grid_complete :: "synthesizer \<Rightarrow> bar list \<Rightarrow> bool" where
  "grid_complete s (x # y # zs) =
     ((should_fill_between s x y \<longrightarrow> b_start_time y < b_end_time x + sy_slot_duration s) \<and> grid_complete s (y # zs))"
| "grid_complete s _ = True"

lemma gap_slots_forward: "(a, b) \<in> set (gap_slots slot start stop) \<Longrightarrow> a < b"
  by (induction slot start stop rule: gap_slots.induct) (subst (asm) (2) gap_slots.simps, auto split: if_splits)

lemma flat_bar_valid:
  assumes "valid_bar p" and "a < b"
  shows "synthetic_bar p a b = Inr (flat_bar p (a, b)) \<and> valid_bar (flat_bar p (a, b))"
proof -
  have "raise_first (bar_checks (flat_bar p (a, b))) = None"
    using valid_bar_facts(2,3) [OF assms(1)] assms(2)
    by (auto simp: raise_first_None_iff bar_checks_def flat_bar_def require_non_negative_def)
  then show ?thesis by (simp add: synthetic_bar_def valid_bar_def mk_bar_def checked_def flat_bar_def)
qed

lemma res_map_total: "(\<And>x. x \<in> set xs \<Longrightarrow> f x = Inr (g x)) \<Longrightarrow> res_map f xs = Inr (map g xs)"
  by (induction xs) auto

lemma fill_gap_slots:
  assumes "valid_bar p"
  shows "fill_gap s p n = Inr (map (flat_bar p) (gap_slots (sy_slot_duration s) (b_end_time p) (b_start_time n)))"
  unfolding fill_gap_def using flat_bar_valid [OF assms] gap_slots_forward by (intro res_map_total) auto

lemma filled_gap_complete:
  assumes "0 < sy_slot_duration s" and "grid_complete s (n # rest)" and "b_end_time p = a" "b_start_time n = c"
  shows "grid_complete s (p # map (flat_bar q) (gap_slots (sy_slot_duration s) a c) @ n # rest)"
  using assms
proof (induction "sy_slot_duration s" a c arbitrary: p rule: gap_slots.induct)
  case (1 start stop)
  show ?case
  proof (cases "start < stop \<and> start + sy_slot_duration s \<le> stop")
    case True
    with 1 show ?thesis
      by (subst gap_slots.simps) (simp add: should_fill_between_def flat_bar_def)
  next
    case False
    with 1 show ?thesis by (subst gap_slots.simps) (auto simp: should_fill_between_def)
  qed
qed

definition cursor_bars :: "(instrument_id, bar) dict \<Rightarrow> instrument_id \<Rightarrow> bar list" where
  "cursor_bars cursors i = (case map_of cursors i of None \<Rightarrow> [] | Some p \<Rightarrow> [p])"

lemma synthesize_loop_ok:
  assumes "0 < sy_slot_duration s" and "list_all valid_bar bs"
    and "\<And>i p. map_of cursors i = Some p \<Longrightarrow> valid_bar p \<and> b_instrument_id p = i"
  shows "\<exists>out. synthesize_loop s cursors bs = Inr out \<and> list_all valid_bar out \<and>
     filter (\<lambda>b. \<not> b_is_synthetic b) out = filter (\<lambda>b. \<not> b_is_synthetic b) bs \<and>
     (\<forall>i. grid_complete s (cursor_bars cursors i @ filter (\<lambda>b. b_instrument_id b = i) out))"
  using assms(2,3)
proof (induction bs arbitrary: cursors)
  case Nil
  then show ?case by (simp add: cursor_bars_def split: option.split)
next
  case (Cons b bs)
  let ?i = "b_instrument_id b"
  let ?next = "AList.update ?i b cursors"
  have "list_all valid_bar bs" "\<And>i p. map_of ?next i = Some p \<Longrightarrow> valid_bar p \<and> b_instrument_id p = i"
    using Cons.prems by (auto simp: update_conv' split: if_splits)
  from Cons.IH [OF this] obtain rest where rest: "synthesize_loop s ?next bs = Inr rest" "list_all valid_bar rest"
    "filter (\<lambda>b. \<not> b_is_synthetic b) rest = filter (\<lambda>b. \<not> b_is_synthetic b) bs"
    "\<And>i. grid_complete s (cursor_bars ?next i @ filter (\<lambda>b. b_instrument_id b = i) rest)" by blast
  have here: "grid_complete s (b # filter (\<lambda>b. b_instrument_id b = ?i) rest)"
    using rest(4) [of ?i] by (simp add: cursor_bars_def update_conv')
  have other: "?i \<noteq> i \<Longrightarrow> grid_complete s (cursor_bars cursors i @ filter (\<lambda>b. b_instrument_id b = i) rest)" for i
    using rest(4) [of i] by (simp add: cursor_bars_def update_conv')
  show ?case
  proof (cases "\<exists>p. map_of cursors ?i = Some p \<and> should_fill_between s p b")
    case True
    then obtain p where p: "map_of cursors ?i = Some p" "should_fill_between s p b" by blast
    with Cons.prems(2) have pv: "valid_bar p" "b_instrument_id p = ?i" by blast+
    let ?fill = "map (flat_bar p) (gap_slots (sy_slot_duration s) (b_end_time p) (b_start_time b))"
    have "synthesize_loop s cursors (b # bs) = Inr (?fill @ b # rest)" using p fill_gap_slots [OF pv(1)] rest(1) by simp
    moreover have "list_all valid_bar ?fill" using flat_bar_valid [OF pv(1)] gap_slots_forward by (auto simp: list_all_iff)
    moreover have "filter (\<lambda>b. \<not> b_is_synthetic b) ?fill = []" by (auto simp: filter_empty_conv flat_bar_def)
    moreover have "filter (\<lambda>b. b_instrument_id b = i) ?fill = (if i = ?i then ?fill else [])" for i
      using pv(2) by (auto simp: filter_empty_conv filter_id_conv flat_bar_def)
    moreover have "grid_complete s (p # ?fill @ b # filter (\<lambda>b. b_instrument_id b = ?i) rest)"
      using filled_gap_complete [OF assms(1) here] by simp
    moreover have "cursor_bars cursors ?i = [p]" using p(1) by (simp add: cursor_bars_def)
    ultimately show ?thesis
      using rest(2,3) other Cons.prems(1) by (intro exI [of _ "?fill @ b # rest"]) (auto split: if_splits)
  next
    case False
    then have "synthesize_loop s cursors (b # bs) = Inr (b # rest)" using rest(1) by (auto split: option.splits)
    moreover have "grid_complete s (cursor_bars cursors ?i @ b # filter (\<lambda>b. b_instrument_id b = ?i) rest)"
      using here False by (auto simp: cursor_bars_def split: option.split)
    ultimately show ?thesis using rest(2,3) other Cons.prems(1) by (intro exI [of _ "b # rest"]) auto
  qed
qed



section \<open>Volume-weighted prices\<close>

text \<open>Bars without a volume-weighted price count in the divisor only: the aggregated price of two bars that
  trade between 9 and 12, one of them without a price of its own, is 5.\<close>

lemma missing_vwap_understates:
  "aggregate_vwap [(minute_bar s 0)\<lparr>b_vwap := Some 10\<rparr>, minute_bar s 1] (dsum (map b_volume [minute_bar s 0, minute_bar s 1])) = Some 5"
  by (simp add: aggregate_vwap_def minute_bar_def Let_def) code_simp

end
