(* ===== verification/Actor_System.thy ===== *)
theory Actor_System
  imports Domain_Model Step_Systems
begin

text \<open>
  The actor substrate of \<open>qts.runtime\<close>: mailboxes, actor references with failure isolation, paths,
  the key-based router, restart and drain policies and the supervisor. An actor is its state and a
  handler; a handler returns the messages it tells other actors and, for a query, its reply. In
  the code handlers tell only after their last call that can raise, so a raising handler tells
  nothing. Threads are not modelled: a waiting \<open>get_with_timeout\<close> takes what happened during the
  wait as an argument.
\<close>

section \<open>Mailbox (\<open>runtime/mailbox.py\<close>)\<close>

type_synonym 'm mailbox = "'m list"

definition mb_empty :: "'m mailbox" where
  "mb_empty = []"

definition mb_put :: "'m \<Rightarrow> 'm mailbox \<Rightarrow> 'm mailbox" where
  "mb_put m q = q @ [m]"

definition mb_get :: "'m mailbox \<Rightarrow> ('m mailbox, 'm) outcome" where
  "mb_get q = (case q of [] \<Rightarrow> (Inl IndexError, q) | m # ms \<Rightarrow> (Inr m, ms))"

datatype 'm wake = TimedOut | Woken "'m list"

definition mb_get_with_timeout :: "'m wake \<Rightarrow> 'm mailbox \<Rightarrow> ('m mailbox, 'm) outcome" where
  "mb_get_with_timeout w q =
     (case q of
        m # ms \<Rightarrow> (Inr m, ms)
      | [] \<Rightarrow> (case w of
               TimedOut \<Rightarrow> (Inl MailboxTimeoutError, [])
             | Woken [] \<Rightarrow> (Inl MailboxTimeoutError, [])
             | Woken (m # ms) \<Rightarrow> (Inr m, ms)))"

definition mb_get_blocking :: "'m list \<Rightarrow> 'm mailbox \<Rightarrow> ('m mailbox, 'm) outcome" where
  "mb_get_blocking arrived q =
     (case q of
        m # ms \<Rightarrow> (Inr m, ms)
      | [] \<Rightarrow> (case arrived of
               [] \<Rightarrow> (Inl (RuntimeError ''blocking mailbox wait failed (spurious wake with no message)''), [])
             | m # ms \<Rightarrow> (Inr m, ms)))"

definition mb_poll :: "'m mailbox \<Rightarrow> ('m \<times> 'm mailbox) option" where
  "mb_poll q = (case mb_get q of (Inr m, q') \<Rightarrow> Some (m, q') | (Inl e, q') \<Rightarrow> None)"

interpretation mailbox: fifo_queue mb_empty mb_put mb_poll "\<lambda>q. q"
proof
  show "mb_poll q = None \<longleftrightarrow> q = []" for q :: "'m mailbox"
    by (auto simp: mb_poll_def mb_get_def split: list.splits)
  show "mb_poll q = Some (x, q') \<Longrightarrow> q = x # q'" for q q' :: "'m mailbox" and x
    by (auto simp: mb_poll_def mb_get_def split: list.splits)
qed (simp_all add: mb_empty_def mb_put_def)

section \<open>Actor references (\<open>runtime/actor_ref.py\<close>)\<close>

text \<open>
  \<open>cell\<close> is an \<open>ActorRef\<close> together with the actor it points to: mailbox, actor state, whether a
  failure sink is configured, the failures sent to the sink, and the answers put into the response
  mailboxes of queries (\<open>Inl\<close> for \<open>_ActorAskFailure\<close>). \<open>is_query\<close> tells which messages carry a
  response mailbox.
\<close>

record ('s, 'm, 'r) cell =
  c_mailbox :: "'m mailbox"
  c_actor :: 's
  c_failure_sink :: bool
  c_failures :: "exn list"
  c_answers :: "'r res list"

type_synonym ('s, 'm, 'o, 'r) handler = "'m \<Rightarrow> 's \<Rightarrow> ('s, 'o list \<times> 'r option) outcome"

definition tell :: "'m \<Rightarrow> ('s, 'm, 'r) cell \<Rightarrow> ('s, 'm, 'r) cell" where
  "tell m c = c\<lparr>c_mailbox := mb_put m (c_mailbox c)\<rparr>"

definition process_one ::
  "('s, 'm, 'o, 'r) handler \<Rightarrow> ('m \<Rightarrow> bool) \<Rightarrow> ('s, 'm, 'r) cell \<Rightarrow> (('s, 'm, 'r) cell, bool \<times> 'o list) outcome" where
  "process_one handle is_query c =
     (case c_mailbox c of
        [] \<Rightarrow> (Inr (False, []), c)
      | m # ms \<Rightarrow>
         (case handle m (c_actor c) of
            (Inr (outs, answer), s) \<Rightarrow>
              (Inr (True, outs), c\<lparr>c_mailbox := ms, c_actor := s,
                 c_answers := c_answers c @ (case answer of None \<Rightarrow> [] | Some a \<Rightarrow> [Inr a])\<rparr>)
          | (Inl e, s) \<Rightarrow>
              (let c1 = c\<lparr>c_mailbox := ms, c_actor := s,
                          c_answers := c_answers c @ (if is_query m then [Inl (ActorAskFailed (''ask() failed''))] else [])\<rparr>
               in if c_failure_sink c then (Inr (True, []), c1\<lparr>c_failures := c_failures c1 @ [e]\<rparr>)
                  else (Inl e, c1))))"

lemma process_one_shrinks:
  "process_one handle is_query c = (Inr (True, outs), c') \<Longrightarrow> length (c_mailbox c') < length (c_mailbox c)"
  by (auto simp: process_one_def Let_def split: list.splits prod.splits sum.splits if_splits)

text \<open>
  \<open>process_all\<close>: the number of messages processed or the exception, the cell, and everything told
  up to that point.
\<close>

function process_all ::
  "('s, 'm, 'o, 'r) handler \<Rightarrow> ('m \<Rightarrow> bool) \<Rightarrow> ('s, 'm, 'r) cell \<Rightarrow> nat res \<times> ('s, 'm, 'r) cell \<times> 'o list" where
  "process_all handle is_query c =
     (case process_one handle is_query c of
        (Inl e, c') \<Rightarrow> (Inl e, c', [])
      | (Inr (False, outs), c') \<Rightarrow> (Inr 0, c', outs)
      | (Inr (True, outs), c') \<Rightarrow>
         (case process_all handle is_query c' of
            (Inl e, c'', outs') \<Rightarrow> (Inl e, c'', outs @ outs')
          | (Inr n, c'', outs') \<Rightarrow> (Inr (n + 1), c'', outs @ outs')))"
  by pat_completeness auto
termination
  by (relation "measure (\<lambda>(h, q, c). length (c_mailbox c))") (simp_all, metis process_one_shrinks)

declare process_all.simps [simp del]

text \<open>
  \<open>ask\<close>: the answer to the query is the first one after the answers to the queries already pending.
\<close>

definition ask ::
  "('s, 'm, 'o, 'r) handler \<Rightarrow> ('m \<Rightarrow> bool) \<Rightarrow> 'm \<Rightarrow> ('s, 'm, 'r) cell \<Rightarrow> 'r res \<times> ('s, 'm, 'r) cell \<times> 'o list" where
  "ask handle is_query q c =
     (let before = length (c_answers c) + length (filter is_query (c_mailbox c)) in
      case process_all handle is_query (tell q c) of
        (Inl e, c', outs) \<Rightarrow> (Inl e, c', outs)
      | (Inr n, c', outs) \<Rightarrow>
          (if length (c_answers c') \<le> before then (Inl ActorAskTimeoutError, c', outs)
           else (c_answers c' ! before, c', outs)))"

section \<open>Paths and routing (\<open>runtime/actor_path.py\<close>, \<open>runtime/router.py\<close>)\<close>

datatype actor_path = Root string | Child actor_path string

fun path_str :: "actor_path \<Rightarrow> string" where
  "path_str (Root n) = ''/'' @ n"
| "path_str (Child p n) = path_str p @ ''/'' @ n"

fun segments :: "actor_path \<Rightarrow> string list" where
  "segments (Root n) = [n]"
| "segments (Child p n) = segments p @ [n]"

record ('k, 'a) event_router =
  ro_routes :: "('k, 'a) dict"

definition register_route :: "'k \<Rightarrow> 'a \<Rightarrow> ('k, 'a) event_router \<Rightarrow> ('k, 'a) event_router" where
  "register_route k a r = r\<lparr>ro_routes := AList.update k a (ro_routes r)\<rparr>"

definition route :: "('m \<Rightarrow> 'k) \<Rightarrow> 'm \<Rightarrow> ('k, 'a) event_router \<Rightarrow> 'a res" where
  "route key_for m r = (case map_of (ro_routes r) (key_for m) of None \<Rightarrow> Inl RouteNotFoundError | Some a \<Rightarrow> Inr a)"

section \<open>Supervision (\<open>runtime/actor_policies.py\<close>, \<open>runtime/actor_supervisor.py\<close>)\<close>

datatype mailbox_drain_mode = DISCARD | PRESERVE

record restart_policy =
  rp_max_restarts :: int
  rp_window :: int

definition mk_restart_policy :: "int \<Rightarrow> int \<Rightarrow> restart_policy res" where
  [ctor_simps]: "mk_restart_policy n w = checked
     [(n < 0, ValueError ''max_restarts must be non-negative''),
      (w \<le> 0, ValueError ''window must be positive'')] \<lparr>rp_max_restarts = n, rp_window = w\<rparr>"

definition restarts_within_window :: "restart_policy \<Rightarrow> instant list \<Rightarrow> instant \<Rightarrow> int" where
  "restarts_within_window p failure_times now =
     (let threshold = now - rp_window p in int (length (filter (\<lambda>t. t > threshold) failure_times)))"

definition should_restart :: "restart_policy \<Rightarrow> instant list \<Rightarrow> instant \<Rightarrow> bool \<Rightarrow> bool" where
  "should_restart p failure_times now recoverable =
     (if \<not> recoverable then False else restarts_within_window p failure_times now < rp_max_restarts p)"

fun drain_loop :: "'m mailbox \<Rightarrow> 'm list \<Rightarrow> 'm list \<times> 'm mailbox" where
  "drain_loop [] drained = (drained, [])"
| "drain_loop (m # ms) drained = drain_loop ms (drained @ [m])"

definition drain_apply :: "mailbox_drain_mode \<Rightarrow> 'm mailbox \<Rightarrow> 'm list \<times> 'm mailbox" where
  "drain_apply mode q = (if mode = PRESERVE then ([], q) else drain_loop q [])"

datatype supervisor_decision = LOG_DECISION | STOP_DECISION | RESTART | DEGRADE | ESCALATE

record failure_event =
  fe_actor_name :: string
  fe_timestamp :: "instant option"
  fe_recoverable :: bool

text \<open>Registered actors are kept as the mailboxes the drain policy works on.\<close>

record 'm supervisor =
  sv_restart_policy :: restart_policy
  sv_drain_mode :: mailbox_drain_mode
  sv_registered :: "(actor_path, 'm mailbox) dict"
  sv_failed_paths :: "actor_path set"
  sv_failure_events :: "failure_event list"
  sv_failure_times :: "(string, instant list) dict"

definition sv_init :: "restart_policy option \<Rightarrow> mailbox_drain_mode option \<Rightarrow> 'm supervisor" where
  "sv_init p d = \<lparr>sv_restart_policy = (case p of None \<Rightarrow> \<lparr>rp_max_restarts = 3, rp_window = 60000000\<rparr> | Some p \<Rightarrow> p),
     sv_drain_mode = (case d of None \<Rightarrow> DISCARD | Some d \<Rightarrow> d), sv_registered = [], sv_failed_paths = {},
     sv_failure_events = [], sv_failure_times = []\<rparr>"

definition supervise :: "actor_path \<Rightarrow> 'm mailbox \<Rightarrow> 'm supervisor \<Rightarrow> 'm supervisor" where
  "supervise p q s = s\<lparr>sv_registered := AList.update p q (sv_registered s)\<rparr>"

definition find_path_by_name :: "string \<Rightarrow> 'm supervisor \<Rightarrow> actor_path option" where
  "find_path_by_name n s = find (\<lambda>p. path_str p = n) (map fst (sv_registered s))"

definition sv_restart :: "actor_path \<Rightarrow> 'm supervisor \<Rightarrow> 'm list \<times> 'm supervisor" where
  "sv_restart p s =
     (case map_of (sv_registered s) p of
        None \<Rightarrow> ([], s)
      | Some q \<Rightarrow> (case drain_apply (sv_drain_mode s) q of (drained, q') \<Rightarrow>
                     (drained, s\<lparr>sv_registered := AList.update p q' (sv_registered s)\<rparr>)))"

text \<open>\<open>handle_failure\<close>; \<open>clock\<close> is \<open>datetime.now\<close>, used when the event has no timestamp.\<close>

definition handle_failure :: "instant \<Rightarrow> failure_event \<Rightarrow> 'm supervisor \<Rightarrow> supervisor_decision \<times> 'm supervisor" where
  "handle_failure clock ev s =
     (let prior = dict_lookup (sv_failure_times s) (fe_actor_name ev) [];
          now = (case fe_timestamp ev of None \<Rightarrow> clock | Some t \<Rightarrow> t);
          s1 = s\<lparr>sv_failure_events := sv_failure_events s @ [ev],
                 sv_failure_times := AList.update (fe_actor_name ev) (prior @ [now]) (sv_failure_times s)\<rparr>;
          path = find_path_by_name (fe_actor_name ev) s1;
          s2 = (case path of None \<Rightarrow> s1 | Some p \<Rightarrow> s1\<lparr>sv_failed_paths := insert p (sv_failed_paths s1)\<rparr>);
          decision = (if should_restart (sv_restart_policy s2) prior now (fe_recoverable ev) then RESTART else DEGRADE)
      in if decision = RESTART
         then (decision, case path of None \<Rightarrow> s2 | Some p \<Rightarrow> snd (sv_restart p s2))
         else (decision, s2))"

definition failure_count :: "string \<Rightarrow> 'm supervisor \<Rightarrow> nat" where
  "failure_count n s = length (dict_lookup (sv_failure_times s) n [])"

definition is_failed :: "actor_path \<Rightarrow> 'm supervisor \<Rightarrow> bool" where
  "is_failed p s \<longleftrightarrow> p \<in> sv_failed_paths s"

section \<open>Failure isolation\<close>

text \<open>The state an actor reaches by handling messages one after the other, whatever each one does.\<close>

fun handle_all :: "('s, 'm, 'o, 'r) handler \<Rightarrow> 'm list \<Rightarrow> 's \<Rightarrow> 's \<times> 'o list \<times> exn list" where
  "handle_all h [] s = (s, [], [])"
| "handle_all h (m # ms) s =
     (case h m s of
        (Inr (outs, a), s1) \<Rightarrow> (case handle_all h ms s1 of (s2, os, es) \<Rightarrow> (s2, outs @ os, es))
      | (Inl e, s1) \<Rightarrow> (case handle_all h ms s1 of (s2, os, es) \<Rightarrow> (s2, os, e # es)))"

lemma process_all_sink:
  assumes "c_failure_sink c" and "handle_all h (c_mailbox c) (c_actor c) = (s, os, es)"
  shows "\<exists>c'. process_all h is_query c = (Inr (length (c_mailbox c)), c', os) \<and> c_mailbox c' = [] \<and>
    c_actor c' = s \<and> c_failures c' = c_failures c @ es"
  using assms
proof (induction "c_mailbox c" arbitrary: c s os es)
  case Nil
  from Nil(1) [symmetric] have "process_one h is_query c = (Inr (False, []), c)" by (simp add: process_one_def)
  with Nil show ?case using process_all.simps [of h is_query c] by auto
next
  case (Cons m ms)
  note mb = Cons.hyps(2) [symmetric]
  obtain x s1 where hm: "h m (c_actor c) = (x, s1)" by (cases "h m (c_actor c)")
  obtain s2 os2 es2 where rest: "handle_all h ms s1 = (s2, os2, es2)" by (metis prod_cases3)
  show ?case
  proof (cases x)
    case (Inl e)
    define c1 where "c1 = c\<lparr>c_mailbox := ms, c_actor := s1,
      c_answers := c_answers c @ (if is_query m then [Inl (ActorAskFailed (''ask() failed''))] else []),
      c_failures := c_failures c @ [e]\<rparr>"
    have one: "process_one h is_query c = (Inr (True, []), c1)"
      using mb hm Inl Cons.prems(1) by (simp add: process_one_def Let_def c1_def)
    from Cons.hyps(1) [of c1 s2 os2 es2] rest Cons.prems obtain c' where
      "process_all h is_query c1 = (Inr (length ms), c', os2)" "c_mailbox c' = []" "c_actor c' = s2"
      "c_failures c' = c_failures c @ e # es2" by (auto simp: c1_def)
    with one mb rest hm Inl Cons.prems(2) show ?thesis
      using process_all.simps [of h is_query c] by auto
  next
    case (Inr y)
    obtain outs a where y: "y = (outs, a)" by (cases y)
    define c1 where "c1 = c\<lparr>c_mailbox := ms, c_actor := s1,
      c_answers := c_answers c @ (case a of None \<Rightarrow> [] | Some a \<Rightarrow> [Inr a])\<rparr>"
    have one: "process_one h is_query c = (Inr (True, outs), c1)"
      using mb hm Inr y by (simp add: process_one_def c1_def)
    from Cons.hyps(1) [of c1 s2 os2 es2] rest Cons.prems obtain c' where
      "process_all h is_query c1 = (Inr (length ms), c', os2)" "c_mailbox c' = []" "c_actor c' = s2"
      "c_failures c' = c_failures c @ es2" by (auto simp: c1_def)
    with one mb rest hm Inr y Cons.prems(2) show ?thesis
      using process_all.simps [of h is_query c] by auto
  qed
qed

text \<open>Draining an empty mailbox, draining one message, and asking an idle actor.\<close>

lemma process_all_empty: "c_mailbox c = [] \<Longrightarrow> process_all h is_query c = (Inr 0, c, [])"
  using process_all.simps [of h is_query c] by (simp add: process_one_def)

lemma process_all_single:
  assumes "c_mailbox c = [m]" and "h m (c_actor c) = (Inr (outs, a), s)"
  shows "process_all h is_query c = (Inr 1, c\<lparr>c_mailbox := [], c_actor := s,
    c_answers := c_answers c @ (case a of None \<Rightarrow> [] | Some r \<Rightarrow> [Inr r])\<rparr>, outs)"
  using process_all.simps [of h is_query c] assms
  by (simp add: process_one_def process_all_empty)

lemma ask_idle:
  assumes "c_mailbox c = []" and "h q (c_actor c) = (Inr (outs, Some a), s)"
  shows "ask h is_query q c = (Inr a, c\<lparr>c_actor := s, c_answers := c_answers c @ [Inr a]\<rparr>, outs)"
  using process_all_single [of "tell q c" q h outs "Some a" s is_query] assms
  by (simp add: ask_def tell_def mb_put_def nth_append)

text \<open>A query whose handler raises: the exception itself without a sink, \<open>ActorAskFailed\<close> with one.\<close>

lemma ask_idle_raises:
  assumes "c_mailbox c = []" and "h q (c_actor c) = (Inl e, s)" and "is_query q"
  shows "fst (ask h is_query q c) = Inl (if c_failure_sink c then ActorAskFailed (''ask() failed'') else e)"
  using process_all.simps [of h is_query "tell q c"] assms
  by (simp add: ask_def tell_def mb_put_def process_one_def process_all_empty Let_def nth_append)

section \<open>The restart budget\<close>

text \<open>A run of failures: the hist of actor, time and decision.\<close>

fun sv_run :: "(failure_event \<times> instant) list \<Rightarrow> 'm supervisor \<Rightarrow> (string \<times> instant \<times> supervisor_decision) list \<times> 'm supervisor" where
  "sv_run [] s = ([], s)"
| "sv_run ((ev, clock) # evs) s =
     (let (d, s1) = handle_failure clock ev s;
          (hist, s2) = sv_run evs s1
      in ((fe_actor_name ev, case fe_timestamp ev of None \<Rightarrow> clock | Some t \<Rightarrow> t, d) # hist, s2))"

definition logged_times :: "string \<Rightarrow> (string \<times> instant \<times> supervisor_decision) list \<Rightarrow> instant list" where
  "logged_times n hist = map (\<lambda>(n, t, d). t) (filter (\<lambda>(m, t, d). m = n) hist)"

definition restarts_in :: "string \<Rightarrow> instant \<Rightarrow> instant \<Rightarrow> (string \<times> instant \<times> supervisor_decision) list \<Rightarrow> nat" where
  "restarts_in n lo hi hist = length (filter (\<lambda>(m, t, d). m = n \<and> lo < t \<and> t \<le> hi \<and> d = RESTART) hist)"

text \<open>What one failure does to the history and how the decision depends on it.\<close>

lemma handle_failure_effect:
  assumes "handle_failure clock ev s = (d, s')"
  defines "now \<equiv> (case fe_timestamp ev of None \<Rightarrow> clock | Some t \<Rightarrow> t)"
  shows "sv_restart_policy s' = sv_restart_policy s"
    "dict_lookup (sv_failure_times s') n [] =
      dict_lookup (sv_failure_times s) n [] @ (if n = fe_actor_name ev then [now] else [])"
    "d = RESTART \<longleftrightarrow> should_restart (sv_restart_policy s) (dict_lookup (sv_failure_times s) (fe_actor_name ev) []) now (fe_recoverable ev)"
  using assms
  by (auto simp: handle_failure_def Let_def sv_restart_def dict_lookup_def update_conv' now_def
      split: option.splits if_splits prod.splits)

lemma restart_counted:
  assumes "should_restart p (logged_times n pre) t rec" and "t \<le> T" and "0 \<le> rp_max_restarts p"
  shows "int (restarts_in n (T - rp_window p) T pre) < rp_max_restarts p"
proof -
  have "restarts_in n (T - rp_window p) T pre \<le> length (filter (\<lambda>x. x > t - rp_window p) (logged_times n pre))"
    using assms(2) unfolding restarts_in_def logged_times_def
    by (induction pre) auto
  moreover have "int (length (filter (\<lambda>x. x > t - rp_window p) (logged_times n pre))) < rp_max_restarts p"
    using assms(1) by (auto simp: should_restart_def restarts_within_window_def Let_def split: if_splits)
  ultimately show ?thesis by linarith
qed

lemma restarts_in_snoc:
  "restarts_in n lo hi (pre @ [(m, t, d)]) =
     restarts_in n lo hi pre + (if m = n \<and> lo < t \<and> t \<le> hi \<and> d = RESTART then 1 else 0)"
  by (simp add: restarts_in_def)

lemma restart_budget_aux:
  assumes "sv_run evs s = (hist, s')" and "\<And>n. dict_lookup (sv_failure_times s) n [] = logged_times n pre"
    and "int (restarts_in n (T - rp_window (sv_restart_policy s)) T pre) \<le> rp_max_restarts (sv_restart_policy s)"
    and "0 \<le> rp_max_restarts (sv_restart_policy s)"
  shows "int (restarts_in n (T - rp_window (sv_restart_policy s)) T (pre @ hist)) \<le> rp_max_restarts (sv_restart_policy s)"
  using assms
proof (induction evs arbitrary: s pre hist)
  case (Cons e evs)
  obtain ev clock where e: "e = (ev, clock)" by (cases e)
  obtain d s1 where hf: "handle_failure clock ev s = (d, s1)" by (cases "handle_failure clock ev s")
  obtain hist1 where run: "sv_run evs s1 = (hist1, s')"
    and hist: "hist = (fe_actor_name ev, case fe_timestamp ev of None \<Rightarrow> clock | Some t \<Rightarrow> t, d) # hist1"
    using Cons.prems(1) hf e by (auto simp: Let_def split: prod.splits)
  define now where "now = (case fe_timestamp ev of None \<Rightarrow> clock | Some t \<Rightarrow> t)"
  note eff = handle_failure_effect [OF hf, folded now_def]
  let ?pre = "pre @ [(fe_actor_name ev, now, d)]" and ?p = "sv_restart_policy s"
  have times: "dict_lookup (sv_failure_times s1) k [] = logged_times k ?pre" for k
    using eff(2) [of k] Cons.prems(2) by (simp add: logged_times_def)
  have "int (restarts_in n (T - rp_window ?p) T ?pre) \<le> rp_max_restarts ?p"
  proof (cases "fe_actor_name ev = n \<and> now \<le> T \<and> d = RESTART")
    case True
    then have "should_restart ?p (logged_times n pre) now (fe_recoverable ev)"
      using eff(3) Cons.prems(2) [of n] by auto
    from restart_counted [OF this _ Cons.prems(4), of T] True show ?thesis by (simp add: restarts_in_snoc)
  next
    case False
    then show ?thesis using Cons.prems(3) by (auto simp: restarts_in_snoc)
  qed
  with Cons.IH [OF run times] Cons.prems(4) eff(1) show ?case by (simp add: hist now_def)
qed simp

section \<open>Properties\<close>

text \<open>Failure isolation: with a failure sink, draining an actor handles every waiting message once,
  in order of arrival, including those behind a message whose handler raised; the mailbox ends
  empty and exactly the exceptions raised are reported, in order.\<close>

theorem process_all_isolates_failures:
  assumes "c_failure_sink c"
  shows "\<exists>c'. process_all h is_query c =
      (Inr (length (c_mailbox c)), c', fst (snd (handle_all h (c_mailbox c) (c_actor c)))) \<and>
    c_mailbox c' = [] \<and> c_actor c' = fst (handle_all h (c_mailbox c) (c_actor c)) \<and>
    c_failures c' = c_failures c @ snd (snd (handle_all h (c_mailbox c) (c_actor c)))"
  using process_all_sink [OF assms] by (metis prod.collapse)

theorem process_all_isolates_failures_witness:
  "let h = (\<lambda>m s. if m = (0::int) then (Inl AssertionError, s) else (Inr ([m], None), s + m));
       c = \<lparr>c_mailbox = [1, 0, 2], c_actor = 0, c_failure_sink = True, c_failures = [], c_answers = ([] :: unit res list)\<rparr>
   in \<exists>c'. process_all h (\<lambda>m. False) c = (Inr 3, c', [1, 2]) \<and> c_actor c' = 3 \<and> c_failures c' = [AssertionError]"
  using process_all_isolates_failures [of
      "\<lparr>c_mailbox = [1, 0, 2], c_actor = 0, c_failure_sink = True, c_failures = [], c_answers = ([] :: unit res list)\<rparr>"
      "\<lambda>m s. if m = (0::int) then (Inl AssertionError, s) else (Inr ([m], None), s + m)" "\<lambda>m. False"]
  by (auto simp: Let_def numeral_3_eq_3)

text \<open>The restart budget: over any run of failures, in any window of the policy's length an actor
  is restarted at most \<open>max_restarts\<close> times; the remaining failures degrade.\<close>

theorem restart_budget:
  assumes "mk_restart_policy k w = Inr p" and "sv_run evs (sv_init (Some p) m) = (hist, s')"
  shows "int (restarts_in n (T - w) T hist) \<le> k"
proof -
  have p: "rp_max_restarts p = k" "rp_window p = w" "0 \<le> k"
    using assms(1) by (auto simp: ctor_simps split: if_splits)
  show ?thesis
    using restart_budget_aux [OF assms(2), of "[]" n T] p
    by (simp add: sv_init_def dict_lookup_def logged_times_def restarts_in_def)
qed

theorem restart_budget_witness:
  "int (restarts_in ''/a'' 0 60 (fst (sv_run
     [(\<lparr>fe_actor_name = ''/a'', fe_timestamp = Some 10, fe_recoverable = True\<rparr>, 0),
      (\<lparr>fe_actor_name = ''/a'', fe_timestamp = Some 20, fe_recoverable = True\<rparr>, 0)]
     (sv_init (Some \<lparr>rp_max_restarts = 1, rp_window = 60\<rparr>) None :: int supervisor)))) \<le> 1"
proof -
  have "mk_restart_policy 1 60 = Inr \<lparr>rp_max_restarts = 1, rp_window = 60\<rparr>"
    by (simp add: ctor_simps checked_def)
  from restart_budget [OF this, where T = 60 and n = "''/a''"] show ?thesis
    by (metis prod.collapse diff_self)
qed

end
