(* ===== verification/Portfolio_Holdings.thy ===== *)
theory Portfolio_Holdings
  imports Domain_Model Step_Systems
begin

text \<open>
  Position accounting of \<open>portfolio/holdings.py\<close>: FIFO lots (\<open>LotLedger\<close>), holdings, and the
  \<open>HoldingBook\<close> with its two cost-basis methods, average cost and FIFO. All arithmetic is the
  decimal arithmetic of the code (28 digits, half-even). Facts that need quantities to add up
  exactly assume that the quantities are multiples of a power of ten (a lot size) and stay below
  \<open>10 ^ 28\<close> such steps.
\<close>

section \<open>Lots\<close>

datatype cost_basis_method = AVERAGE | FIFO

record lot =
  lot_quantity :: decimal
  lot_price :: decimal
  lot_acquired_at :: "instant option"

record lot_consumption =
  lc_lots :: "lot list"
  lc_closed_quantity :: decimal
  lc_realized_pnl :: decimal

definition lots_average_cost :: "lot list \<Rightarrow> decimal" where
  "lots_average_cost lots =
     (let total_quantity = dsum (map (\<lambda>l. dabs (lot_quantity l)) lots)
      in if total_quantity = 0 then 0
         else ddiv (dsum (map (\<lambda>l. dmul (dabs (lot_quantity l)) (lot_price l)) lots)) total_quantity)"

definition lots_quantity :: "lot list \<Rightarrow> decimal" where
  "lots_quantity lots = dsum (map lot_quantity lots)"

text \<open>
  The loop of \<open>LotLedger._reduce\<close>: \<open>rem\<close> is \<open>remaining_to_close\<close>, the result is the surviving
  lots, what is left to close, the realized PnL and the closed quantity.
\<close>

fun reduce_loop ::
  "decimal \<Rightarrow> decimal \<Rightarrow> decimal \<Rightarrow> lot list \<Rightarrow> decimal \<Rightarrow> decimal \<Rightarrow> decimal \<Rightarrow> lot list \<times> decimal \<times> decimal \<times> decimal" where
  "reduce_loop sign price multiplier [] rem pnl closed_q = ([], rem, pnl, closed_q)"
| "reduce_loop sign price multiplier (l # ls) rem pnl closed_q =
     (if rem \<le> 0 then (l # ls, rem, pnl, closed_q)
      else let lot_abs = dabs (lot_quantity l);
               consumed = min lot_abs rem;
               pnl' = dadd pnl (dmul (dmul (dmul consumed (dsub price (lot_price l))) sign) multiplier);
               closed_q' = dadd closed_q consumed;
               rem' = dsub rem consumed;
               keep = (if consumed < lot_abs
                       then [l\<lparr>lot_quantity := dmul (dsub lot_abs consumed) sign\<rparr>] else []);
               (surviving, rem'', pnl'', closed_q'') = reduce_loop sign price multiplier ls rem' pnl' closed_q'
           in (keep @ surviving, rem'', pnl'', closed_q''))"

definition lots_reduce ::
  "lot list \<Rightarrow> decimal \<Rightarrow> decimal \<Rightarrow> decimal \<Rightarrow> instant option \<Rightarrow> lot_consumption res" where
  "lots_reduce lots signed_quantity price multiplier fill_time =
     (case from_quantity (lots_quantity lots) of
        None \<Rightarrow> Inl AssertionError
      | Some side \<Rightarrow>
          (let sign = side_sign side;
               (surviving, rem, pnl, closed_q) =
                 reduce_loop sign price multiplier lots (dabs signed_quantity) 0 0;
               flip = (if rem > 0
                       then [\<lparr>lot_quantity = dmul rem (dneg sign), lot_price = price,
                              lot_acquired_at = fill_time\<rparr>] else [])
           in Inr \<lparr>lc_lots = surviving @ flip, lc_closed_quantity = closed_q, lc_realized_pnl = pnl\<rparr>))"

definition lots_apply ::
  "lot list \<Rightarrow> decimal \<Rightarrow> decimal \<Rightarrow> decimal \<Rightarrow> instant option \<Rightarrow> lot_consumption res" where
  "lots_apply lots signed_quantity price multiplier fill_time =
     (let net = lots_quantity lots
      in if net = 0 \<or> same_for_quantities net signed_quantity
         then Inr \<lparr>lc_lots = lots @ [\<lparr>lot_quantity = signed_quantity, lot_price = price,
                                     lot_acquired_at = fill_time\<rparr>],
                   lc_closed_quantity = 0, lc_realized_pnl = 0\<rparr>
         else lots_reduce lots signed_quantity price multiplier fill_time)"

section \<open>Holdings\<close>

record holding =
  h_instrument_id :: instrument_id
  h_quantity :: decimal
  h_average_cost :: decimal
  h_realized_pnl :: decimal
  h_cost_basis_method :: cost_basis_method
  h_opened_at :: "instant option"
  h_last_fill_at :: "instant option"
  h_lots :: "lot list"

definition market_value :: "holding \<Rightarrow> decimal \<Rightarrow> decimal \<Rightarrow> decimal" where
  "market_value h mark multiplier = dmul (dmul (h_quantity h) mark) multiplier"

definition unrealized_pnl :: "holding \<Rightarrow> decimal \<Rightarrow> decimal \<Rightarrow> decimal" where
  "unrealized_pnl h mark multiplier =
     (case from_quantity (h_quantity h) of
        None \<Rightarrow> 0
      | Some side \<Rightarrow>
          dmul (dmul (dmul (dabs (h_quantity h)) (dsub mark (h_average_cost h))) (side_sign side)) multiplier)"

definition holding_period :: "holding \<Rightarrow> instant \<Rightarrow> int" where
  "holding_period h now = (case h_opened_at h of None \<Rightarrow> 0 | Some t \<Rightarrow> now - t)"

record position_closed =
  pc_instrument_id :: instrument_id
  pc_closed_quantity :: decimal
  pc_exit_price :: decimal
  pc_realized_pnl :: decimal
  pc_opened_at :: "instant option"
  pc_closed_at :: instant

record holding_book =
  hb_holdings :: "(instrument_id, holding) dict"
  hb_cost_basis_method :: cost_basis_method

definition hb_init :: "(instrument_id, holding) dict \<Rightarrow> cost_basis_method \<Rightarrow> holding_book" where
  "hb_init hs m = \<lparr>hb_holdings = hs, hb_cost_basis_method = m\<rparr>"

definition flat_holding :: "instrument_id \<Rightarrow> cost_basis_method \<Rightarrow> holding" where
  "flat_holding i m = \<lparr>h_instrument_id = i, h_quantity = 0, h_average_cost = 0, h_realized_pnl = 0,
     h_cost_basis_method = m, h_opened_at = None, h_last_fill_at = None, h_lots = []\<rparr>"

definition hb_holding :: "holding_book \<Rightarrow> instrument_id \<Rightarrow> holding" where
  "hb_holding b i = dict_lookup (hb_holdings b) i (flat_holding i (hb_cost_basis_method b))"

definition hb_quantity :: "holding_book \<Rightarrow> instrument_id \<Rightarrow> decimal" where
  "hb_quantity b i = h_quantity (hb_holding b i)"

text \<open>Python's \<open>a or b\<close> on optional datetimes (a datetime is always truthy).\<close>

definition opt_or :: "'a option \<Rightarrow> 'a option \<Rightarrow> 'a option" where
  "opt_or a b = (case a of None \<Rightarrow> b | Some x \<Rightarrow> Some x)"

definition close_time :: "instant option \<Rightarrow> instant" where
  "close_time t = (case t of None \<Rightarrow> 0 | Some x \<Rightarrow> x)"

definition increase :: "holding \<Rightarrow> decimal \<Rightarrow> decimal \<Rightarrow> instant option \<Rightarrow> holding" where
  "increase cur signed_quantity price fill_time =
     (let old_abs = dabs (h_quantity cur);
          new_quantity = dadd (h_quantity cur) signed_quantity;
          new_abs = dabs new_quantity;
          average_cost =
            (if old_abs = 0 then price
             else ddiv (dadd (dmul old_abs (h_average_cost cur)) (dmul (dabs signed_quantity) price)) new_abs)
      in \<lparr>h_instrument_id = h_instrument_id cur, h_quantity = new_quantity,
          h_average_cost = average_cost, h_realized_pnl = h_realized_pnl cur,
          h_cost_basis_method = h_cost_basis_method cur,
          h_opened_at = opt_or (h_opened_at cur) fill_time, h_last_fill_at = fill_time, h_lots = []\<rparr>)"

text \<open>
  \<open>_reduce_or_flip\<close>: the holding it stores for the instrument and the close events it returns.
\<close>

definition reduce_or_flip ::
  "holding \<Rightarrow> decimal \<Rightarrow> decimal \<Rightarrow> decimal \<Rightarrow> instant option \<Rightarrow> holding \<times> position_closed list" where
  "reduce_or_flip cur signed_quantity price multiplier fill_time =
     (let close_quantity = min (dabs (h_quantity cur)) (dabs signed_quantity);
          sign = (if h_quantity cur > 0 then 1 else -1);
          close_realized = dmul (dmul (dmul close_quantity (dsub price (h_average_cost cur))) sign) multiplier;
          realized = dadd (h_realized_pnl cur) close_realized;
          new_quantity = dadd (h_quantity cur) signed_quantity
      in if new_quantity = 0 then
           (cur\<lparr>h_quantity := 0, h_realized_pnl := realized, h_opened_at := None,
                h_last_fill_at := fill_time\<rparr>,
            [\<lparr>pc_instrument_id = h_instrument_id cur, pc_closed_quantity = close_quantity,
              pc_exit_price = price, pc_realized_pnl = close_realized,
              pc_opened_at = h_opened_at cur, pc_closed_at = close_time fill_time\<rparr>])
         else if same_for_quantities (h_quantity cur) new_quantity then
           (cur\<lparr>h_quantity := new_quantity, h_realized_pnl := realized, h_last_fill_at := fill_time\<rparr>, [])
         else
           (\<lparr>h_instrument_id = h_instrument_id cur, h_quantity = new_quantity, h_average_cost = price,
             h_realized_pnl = realized, h_cost_basis_method = h_cost_basis_method cur,
             h_opened_at = fill_time, h_last_fill_at = fill_time, h_lots = []\<rparr>,
            [\<lparr>pc_instrument_id = h_instrument_id cur, pc_closed_quantity = dabs (h_quantity cur),
              pc_exit_price = price, pc_realized_pnl = close_realized,
              pc_opened_at = h_opened_at cur, pc_closed_at = close_time fill_time\<rparr>]))"

definition fifo_opened_at :: "holding \<Rightarrow> decimal \<Rightarrow> bool \<Rightarrow> instant option \<Rightarrow> instant option" where
  "fifo_opened_at cur new_quantity flipped fill_time =
     (if new_quantity = 0 then None
      else if h_quantity cur = 0 \<or> flipped then fill_time
      else opt_or (h_opened_at cur) fill_time)"

definition apply_fill_fifo ::
  "holding \<Rightarrow> decimal \<Rightarrow> decimal \<Rightarrow> decimal \<Rightarrow> instant option \<Rightarrow> (holding \<times> position_closed list) res" where
  "apply_fill_fifo cur signed_quantity price multiplier fill_time =
     res_bind (lots_apply (h_lots cur) signed_quantity price multiplier fill_time) (\<lambda>c.
       let new_quantity = lots_quantity (lc_lots c);
           realized = dadd (h_realized_pnl cur) (lc_realized_pnl c);
           flipped = (h_quantity cur \<noteq> 0 \<and> new_quantity \<noteq> 0 \<and>
                      \<not> same_for_quantities (h_quantity cur) new_quantity);
           h' = \<lparr>h_instrument_id = h_instrument_id cur, h_quantity = new_quantity,
                 h_average_cost = lots_average_cost (lc_lots c), h_realized_pnl = realized,
                 h_cost_basis_method = FIFO,
                 h_opened_at = fifo_opened_at cur new_quantity flipped fill_time,
                 h_last_fill_at = fill_time, h_lots = lc_lots c\<rparr>
       in Inr (h', if \<not> (new_quantity = 0 \<or> flipped) then []
                   else [\<lparr>pc_instrument_id = h_instrument_id cur,
                          pc_closed_quantity = lc_closed_quantity c, pc_exit_price = price,
                          pc_realized_pnl = lc_realized_pnl c, pc_opened_at = h_opened_at cur,
                          pc_closed_at = close_time fill_time\<rparr>]))"

text \<open>
  \<open>HoldingBook.apply_fill\<close>. The increase branch stores under the \<open>instrument_id\<close> argument, the
  other two under the stored holding's own \<open>instrument_id\<close>.
\<close>

definition hb_store :: "instrument_id \<Rightarrow> holding \<Rightarrow> holding_book \<Rightarrow> holding_book" where
  "hb_store i h b = b\<lparr>hb_holdings := AList.update i h (hb_holdings b)\<rparr>"

definition hb_apply_fill ::
  "instrument_id \<Rightarrow> decimal \<Rightarrow> decimal \<Rightarrow> decimal \<Rightarrow> instant option \<Rightarrow> holding_book \<Rightarrow> (holding_book, position_closed list) outcome" where
  "hb_apply_fill i signed_quantity price multiplier fill_time0 b =
     (if signed_quantity = 0 then (Inl (ValueError ''signed_quantity must not be zero''), b)
      else if price < 0 then (Inl (ValueError ''price must be non-negative''), b)
      else if multiplier \<le> 0 then (Inl (ValueError ''multiplier must be positive''), b)
      else let cur = hb_holding b i;
               fill_time = opt_or fill_time0 (h_last_fill_at cur)
           in if h_cost_basis_method cur = FIFO then
                (case apply_fill_fifo cur signed_quantity price multiplier fill_time of
                   Inl e \<Rightarrow> (Inl e, b)
                 | Inr (h, events) \<Rightarrow> (Inr events, hb_store (h_instrument_id cur) h b))
              else if h_quantity cur = 0 \<or> same_for_quantities (h_quantity cur) signed_quantity then
                (Inr [], hb_store i (increase cur signed_quantity price fill_time) b)
              else
                (case reduce_or_flip cur signed_quantity price multiplier fill_time of (h, events) \<Rightarrow>
                   (Inr events, hb_store (h_instrument_id cur) h b)))"

definition hb_snapshot :: "holding_book \<Rightarrow> (instrument_id, holding) dict" where
  "hb_snapshot b = hb_holdings b"

definition hb_restore :: "(instrument_id, holding) dict \<Rightarrow> holding_book" where
  "hb_restore hs = hb_init hs AVERAGE"

section \<open>Exact sums of lots\<close>

lemma dadd_exact: "on_grid e n (x + y) \<Longrightarrow> n < 10 ^ 28 \<Longrightarrow> dadd x y = x + y"
  by (simp add: dadd_def on_grid_exact)

lemma dsub_exact: "on_grid e n (x - y) \<Longrightarrow> n < 10 ^ 28 \<Longrightarrow> dsub x y = x - y"
  by (simp add: dsub_def on_grid_exact)

lemma dabs_exact: "on_grid e n x \<Longrightarrow> n < 10 ^ 28 \<Longrightarrow> dabs x = \<bar>x\<bar>"
  by (simp add: dabs_def on_grid_exact)

lemma on_grid_steps: "on_grid e a x \<Longrightarrow> on_grid e b y \<Longrightarrow> on_grid e (a + b) (x - y)"
  using on_grid_add [of e a x b "- y"] by simp

lemma dsub_self [simp]: "dsub x x = 0"
  by simp

lemma sum_list_nonneg: "list_all (\<lambda>x. 0 \<le> x) xs \<Longrightarrow> 0 \<le> (sum_list xs :: decimal)"
  by (induction xs) auto

lemma foldl_dadd_exact:
  assumes "0 \<le> a" and "list_all (\<lambda>x. 0 \<le> x \<and> on_grid e n x) xs"
    and "on_grid e n a" and "on_grid e n (a + sum_list xs)" and "n < 10 ^ 28"
  shows "foldl dadd a xs = a + sum_list xs"
  using assms
proof (induction xs arbitrary: a)
  case (Cons x xs)
  have "0 \<le> sum_list xs" using Cons.prems(2) by (intro sum_list_nonneg) (auto simp: list_all_iff)
  moreover have "on_grid e (n + n) (a + x)" using Cons.prems by (intro on_grid_add) auto
  ultimately have grid: "on_grid e n (a + x)"
    using Cons.prems on_grid_between [of e "n + n" "a + x" n "a + sum_list (x # xs)"] by auto
  then have "dadd a x = a + x" using Cons.prems by (intro dadd_exact)
  with Cons.IH [of "a + x"] Cons.prems grid show ?case by (simp add: add.assoc)
qed simp

lemma foldl_dadd_minus: "foldl dadd (- a) (map uminus xs) = - foldl dadd a xs"
proof (induction xs arbitrary: a)
  case (Cons x xs)
  have "dadd (- a) (- x) = - dadd a x"
    using ctx_round_minus [of "a + x"] by (simp add: dadd_def)
  with Cons.IH [of "dadd a x"] show ?case by simp
qed simp

text \<open>Lots that all lie on one side of the market, with their net quantity \<open>q\<close>.\<close>

definition lots_ok :: "int \<Rightarrow> int \<Rightarrow> decimal \<Rightarrow> lot list \<Rightarrow> bool" where
  "lots_ok e n q lots \<longleftrightarrow>
     list_all (\<lambda>l. 0 < lot_quantity l * q \<and> on_grid e n (lot_quantity l)) lots \<and>
     sum_list (map lot_quantity lots) = q"

lemma sum_list_uminus: "sum_list (map uminus xs) = - (sum_list xs :: decimal)"
  by (induction xs) auto

lemma lots_quantity_exact:
  assumes "lots_ok e n q lots" and "on_grid e n q" and "0 \<le> n" and "n < 10 ^ 28"
  shows "lots_quantity lots = q"
proof (cases "0 \<le> q")
  case True
  with assms have "list_all (\<lambda>x. 0 \<le> x \<and> on_grid e n x) (map lot_quantity lots)"
    by (auto simp: lots_ok_def list_all_iff zero_less_mult_iff)
  with assms foldl_dadd_exact [of 0 e n "map lot_quantity lots"] show ?thesis
    by (auto simp: lots_quantity_def dsum_def lots_ok_def)
next
  case False
  let ?xs = "map uminus (map lot_quantity lots)"
  from False assms have "list_all (\<lambda>x. 0 \<le> x \<and> on_grid e n x) ?xs"
    by (auto simp: lots_ok_def list_all_iff zero_less_mult_iff)
  moreover have "sum_list ?xs = - q"
    using assms by (simp add: sum_list_uminus lots_ok_def del: map_map)
  ultimately have "foldl dadd 0 ?xs = - q"
    using assms foldl_dadd_exact [of 0 e n ?xs] by simp
  then show ?thesis
    using foldl_dadd_minus [of 0 "map lot_quantity lots"] by (simp add: lots_quantity_def dsum_def)
qed

section \<open>First in, first out\<close>

text \<open>
  The reference for a FIFO reduction: take \<open>r\<close> units off the front of the lots, oldest first. Lots
  that are used up disappear, the lot in which the reduction ends keeps the rest on its side.
\<close>

fun fifo_take :: "decimal \<Rightarrow> decimal \<Rightarrow> lot list \<Rightarrow> lot list" where
  "fifo_take sign r [] = []"
| "fifo_take sign r (l # ls) =
     (if r \<le> 0 then l # ls
      else if \<bar>lot_quantity l\<bar> \<le> r then fifo_take sign (r - \<bar>lot_quantity l\<bar>) ls
      else l\<lparr>lot_quantity := (\<bar>lot_quantity l\<bar> - r) * sign\<rparr> # ls)"

text \<open>What each lot contributes to the reduction.\<close>

fun fifo_consumed :: "decimal \<Rightarrow> lot list \<Rightarrow> (lot \<times> decimal) list" where
  "fifo_consumed r [] = []"
| "fifo_consumed r (l # ls) =
     (if r \<le> 0 then []
      else (l, min \<bar>lot_quantity l\<bar> r) # fifo_consumed (r - min \<bar>lot_quantity l\<bar> r) ls)"

definition lots_size :: "lot list \<Rightarrow> decimal" where
  "lots_size lots = sum_list (map (\<lambda>l. \<bar>lot_quantity l\<bar>) lots)"

definition lot_pnl :: "decimal \<Rightarrow> decimal \<Rightarrow> decimal \<Rightarrow> lot \<times> decimal \<Rightarrow> decimal" where
  "lot_pnl sign price multiplier lc =
     dmul (dmul (dmul (snd lc) (dsub price (lot_price (fst lc)))) sign) multiplier"

definition lots_on_side :: "int \<Rightarrow> int \<Rightarrow> decimal \<Rightarrow> lot list \<Rightarrow> bool" where
  "lots_on_side e n sign lots \<longleftrightarrow>
     list_all (\<lambda>l. 0 < lot_quantity l * sign \<and> on_grid e n (lot_quantity l)) lots"

lemma lots_size_simps [simp]:
  "lots_size [] = 0" "lots_size (l # ls) = \<bar>lot_quantity l\<bar> + lots_size ls"
  by (simp_all add: lots_size_def)

lemma lots_size_nonneg: "0 \<le> lots_size ls"
  by (induction ls) auto

lemma reduce_loop_done [simp]:
  "rem \<le> 0 \<Longrightarrow> reduce_loop sign price m ls rem pnl c = (ls, rem, pnl, c)"
  by (cases ls) auto

lemma fifo_done [simp]: "r \<le> 0 \<Longrightarrow> fifo_take sign r ls = ls" "r \<le> 0 \<Longrightarrow> fifo_consumed r ls = []"
  by (cases ls; simp)+

lemma dmul_sign_exact:
  "sign = 1 \<or> sign = -1 \<Longrightarrow> on_grid e n x \<Longrightarrow> n < 10 ^ 28 \<Longrightarrow> dmul x sign = x * sign"
  by (auto simp: dmul_def on_grid_exact)

lemma reduce_loop_exact:
  assumes "sign = 1 \<or> sign = -1" and "lots_on_side e n sign ls"
    and "0 \<le> rem" "0 \<le> c" and "on_grid e n rem" "on_grid e n c" "on_grid e n (c + rem)"
    and "n < 10 ^ 28"
  shows "reduce_loop sign price m ls rem pnl c =
     (fifo_take sign rem ls, max 0 (rem - lots_size ls),
      foldl dadd pnl (map (lot_pnl sign price m) (fifo_consumed rem ls)),
      c + min rem (lots_size ls))"
  using assms(2-7)
proof (induction ls arbitrary: rem pnl c)
  case (Cons l ls)
  show ?case
  proof (cases "rem \<le> 0")
    case True
    with Cons.prems lots_size_nonneg [of ls] show ?thesis by auto
  next
    case False
    define a where "a = min \<bar>lot_quantity l\<bar> rem"
    from Cons.prems have l: "on_grid e n (lot_quantity l)" "lots_on_side e n sign ls"
      by (auto simp: lots_on_side_def)
    have a: "0 \<le> a" "a \<le> rem" "a \<le> \<bar>lot_quantity l\<bar>" using False by (auto simp: a_def)
    have ga: "on_grid e n a" using l Cons.prems by (auto simp: a_def min_def)
    have "on_grid e n (rem - a)"
      using on_grid_between [OF on_grid_steps [OF Cons.prems(4) ga] Cons.prems(4)] a by auto
    moreover have "on_grid e n (c + a)"
      using on_grid_between [OF on_grid_add [OF Cons.prems(5) ga] Cons.prems(6)] a Cons.prems by auto
    moreover have "on_grid e n (\<bar>lot_quantity l\<bar> - a)"
      using on_grid_between [OF on_grid_steps [of e n "\<bar>lot_quantity l\<bar>" n a] l(1)] l a ga by auto
    ultimately have ex: "dsub rem a = rem - a" "dadd c a = c + a"
        "dabs (lot_quantity l) = \<bar>lot_quantity l\<bar>"
        "dmul (dsub \<bar>lot_quantity l\<bar> a) sign = (\<bar>lot_quantity l\<bar> - a) * sign"
      and g: "on_grid e n (rem - a)" "on_grid e n (c + a)"
      using assms(1,8) l
      by (simp_all add: dsub_exact dadd_exact dabs_exact dmul_sign_exact)
    have IH: "reduce_loop sign price m ls (rem - a) (dadd pnl (lot_pnl sign price m (l, a))) (c + a) =
       (fifo_take sign (rem - a) ls, max 0 (rem - a - lots_size ls),
        foldl dadd (dadd pnl (lot_pnl sign price m (l, a)))
          (map (lot_pnl sign price m) (fifo_consumed (rem - a) ls)),
        c + a + min (rem - a) (lots_size ls))"
      using Cons.IH [of "rem - a" "c + a"] l g a Cons.prems by simp
    have pnl: "dmul (dmul (dmul a (dsub price (lot_price l))) sign) m = lot_pnl sign price m (l, a)"
      by (simp add: lot_pnl_def)
    show ?thesis
    proof (cases "\<bar>lot_quantity l\<bar> \<le> rem")
      case True
      then have "a = \<bar>lot_quantity l\<bar>" by (simp add: a_def)
      with True False IH ex pnl show ?thesis by (simp add: Let_def diff_diff_eq add.assoc min_def)
    next
      case False
      then have "a = rem" by (simp add: a_def)
      with False \<open>\<not> rem \<le> 0\<close> IH ex pnl lots_size_nonneg [of ls] show ?thesis by (simp add: min_def)
    qed
  qed
qed simp

lemma fifo_take_size: "0 \<le> r \<Longrightarrow> sign = 1 \<or> sign = -1 \<Longrightarrow> lots_size (fifo_take sign r ls) = max 0 (lots_size ls - r)"
proof (induction sign r ls rule: fifo_take.induct)
  case (2 sign r l ls)
  with lots_size_nonneg [of ls] show ?case by (auto simp: abs_mult)
qed simp

lemma fifo_take_on_side:
  assumes "lots_on_side e n sign ls" and "sign = 1 \<or> sign = -1" and "on_grid e n r" "0 \<le> r"
  shows "lots_on_side e n sign (fifo_take sign r ls)"
  using assms
proof (induction sign r ls rule: fifo_take.induct)
  case (2 sign r l ls)
  then have l: "on_grid e n \<bar>lot_quantity l\<bar>" "lots_on_side e n sign ls"
    by (auto simp: lots_on_side_def)
  have "on_grid e n (r - \<bar>lot_quantity l\<bar>)" if "\<bar>lot_quantity l\<bar> \<le> r"
    using on_grid_between [OF on_grid_steps [OF "2.prems"(3) l(1)] "2.prems"(3)] that "2.prems" by auto
  moreover have "on_grid e n ((\<bar>lot_quantity l\<bar> - r) * sign)" if "\<not> \<bar>lot_quantity l\<bar> \<le> r"
    using on_grid_between [OF on_grid_steps [OF l(1) "2.prems"(3)] l(1)] that "2.prems"
      on_grid_minus [of e n "\<bar>lot_quantity l\<bar> - r"] by auto
  ultimately show ?case using 2 l by (auto simp: lots_on_side_def simp del: minus_diff_eq)
qed simp

section \<open>The position contract of a holding book\<close>

text \<open>
  What a client may rely on, whatever the cost basis: a fill moves the position of its instrument
  by the signed quantity, leaves the others alone, and a close event for the instrument is
  emitted exactly when the fill takes an open position to flat or through zero.
\<close>

record fill_input =
  fi_instrument :: instrument_id
  fi_signed_quantity :: decimal
  fi_price :: decimal
  fi_multiplier :: decimal
  fi_time :: "instant option"

definition fill_ok :: "int \<Rightarrow> int \<Rightarrow> fill_input \<Rightarrow> bool" where
  "fill_ok e k f \<longleftrightarrow> fi_signed_quantity f \<noteq> 0 \<and> 0 \<le> fi_price f \<and> 0 < fi_multiplier f \<and>
     on_grid e k (fi_signed_quantity f)"

definition closes :: "decimal \<Rightarrow> decimal \<Rightarrow> bool" where
  "closes q s \<longleftrightarrow> q \<noteq> 0 \<and> q * (q + s) \<le> 0"

definition net_fills :: "instrument_id \<Rightarrow> fill_input list \<Rightarrow> decimal" where
  "net_fills i fs = sum_list (map fi_signed_quantity (filter (\<lambda>f. fi_instrument f = i) fs))"

text \<open>The close events a fill sequence should produce, by instrument, from positions \<open>q\<close>.\<close>

fun expected_closes :: "(instrument_id \<Rightarrow> decimal) \<Rightarrow> fill_input list \<Rightarrow> instrument_id list" where
  "expected_closes q [] = []"
| "expected_closes q (f # fs) =
     (if closes (q (fi_instrument f)) (fi_signed_quantity f) then [fi_instrument f] else []) @
     expected_closes (q(fi_instrument f := q (fi_instrument f) + fi_signed_quantity f)) fs"

fun apply_all ::
  "(fill_input \<Rightarrow> 'b \<Rightarrow> ('b, position_closed list) outcome) \<Rightarrow> fill_input list \<Rightarrow> 'b \<Rightarrow> ('b, position_closed list) outcome" where
  "apply_all apply_one [] b = (Inr [], b)"
| "apply_all apply_one (f # fs) b =
     obind (apply_one f b)
       (\<lambda>evs b'. obind (apply_all apply_one fs b') (\<lambda>evs' b''. (Inr (evs @ evs'), b'')))"

locale position_book =
  fixes apply_one :: "fill_input \<Rightarrow> 'b \<Rightarrow> ('b, position_closed list) outcome"
    and position :: "'b \<Rightarrow> instrument_id \<Rightarrow> decimal"
    and book_ok :: "int \<Rightarrow> int \<Rightarrow> 'b \<Rightarrow> bool"
  assumes moves: "book_ok e n b \<Longrightarrow> fill_ok e k f \<Longrightarrow> n + k < 10 ^ 28 \<Longrightarrow>
     \<exists>evs b'. apply_one f b = (Inr evs, b') \<and> book_ok e (n + k) b' \<and>
       position b' = (position b)(fi_instrument f := position b (fi_instrument f) + fi_signed_quantity f) \<and>
       map pc_instrument_id evs =
         (if closes (position b (fi_instrument f)) (fi_signed_quantity f) then [fi_instrument f] else [])"
begin

lemma apply_all_ok:
  assumes "book_ok e n b" and "list_all (fill_ok e k) fs" and "n + int (length fs) * k < 10 ^ 28" "0 \<le> k"
  shows "\<exists>evs b'. apply_all apply_one fs b = (Inr evs, b') \<and> book_ok e (n + int (length fs) * k) b' \<and>
    position b' = (\<lambda>i. position b i + net_fills i fs) \<and>
    map pc_instrument_id evs = expected_closes (position b) fs"
  using assms
proof (induction fs arbitrary: n b)
  case (Cons f fs)
  have le: "n + k + int (length fs) * k < 10 ^ 28" using Cons.prems by (simp add: algebra_simps)
  then have "n + k < 10 ^ 28" using \<open>0 \<le> k\<close> by (smt (verit) mult_nonneg_nonneg of_nat_0_le_iff)
  then obtain evs b1 where 1: "apply_one f b = (Inr evs, b1)" "book_ok e (n + k) b1"
    "position b1 = (position b)(fi_instrument f := position b (fi_instrument f) + fi_signed_quantity f)"
    "map pc_instrument_id evs =
       (if closes (position b (fi_instrument f)) (fi_signed_quantity f) then [fi_instrument f] else [])"
    using moves [of e n b k f] Cons.prems by auto
  from Cons.IH [OF 1(2) _ le] Cons.prems obtain evs' b' where 2: "apply_all apply_one fs b1 = (Inr evs', b')"
    "book_ok e (n + k + int (length fs) * k) b'"
    "position b' = (\<lambda>i. position b1 i + net_fills i fs)"
    "map pc_instrument_id evs' = expected_closes (position b1) fs" by auto
  have "position b' = (\<lambda>i. position b i + net_fills i (f # fs))"
    using 1(3) 2(3) by (auto simp: net_fills_def fun_eq_iff)
  with 1 2 show ?case by (simp add: algebra_simps)
qed (simp add: net_fills_def)

end

section \<open>Both cost bases meet the contract\<close>

lemma hb_holding_store [simp]:
  "hb_holding (hb_store i h b) j = (if j = i then h else hb_holding b j)"
  by (simp add: hb_holding_def hb_store_def dict_simps)

lemma cost_basis_AVERAGE [simp]: "m \<noteq> FIFO \<longleftrightarrow> m = AVERAGE"
  by (cases m) auto

lemma sign_product: "closes q s \<longleftrightarrow> q \<noteq> 0 \<and> \<not> 0 < q * (q + s)"
  by (auto simp: closes_def)

lemma opposite_cases:
  "\<not> 0 < q * s \<Longrightarrow> q \<noteq> 0 \<Longrightarrow> s \<noteq> 0 \<Longrightarrow> (0 < q \<and> s < 0) \<or> (q < 0 \<and> (0::decimal) < s)"
  by (auto simp: zero_less_mult_iff)

lemma same_side_no_close: "0 < q * s \<Longrightarrow> \<not> closes q s"
  by (auto simp: closes_def zero_less_mult_iff mult_le_0_iff)

lemma dadd_same_sign [simp]: "0 < q * dadd q s \<longleftrightarrow> 0 < q * (q + s)"
  by (simp add: zero_less_mult_iff)

definition average_holding :: "instrument_id \<Rightarrow> holding \<Rightarrow> bool" where
  "average_holding i h \<longleftrightarrow> h_instrument_id h = i \<and> h_cost_basis_method h = AVERAGE"

lemma reduce_or_flip_result:
  "average_holding i cur \<Longrightarrow>
   average_holding i (fst (reduce_or_flip cur s p m t)) \<and>
   h_quantity (fst (reduce_or_flip cur s p m t)) = dadd (h_quantity cur) s \<and>
   (h_quantity cur \<noteq> 0 \<longrightarrow> map pc_instrument_id (snd (reduce_or_flip cur s p m t)) =
     (if closes (h_quantity cur) s then [i] else []))"
  by (simp add: reduce_or_flip_def Let_def average_holding_def same_for_quantities_iff sign_product)

lemma increase_result:
  "average_holding i cur \<Longrightarrow>
   average_holding i (increase cur s p t) \<and> h_quantity (increase cur s p t) = dadd (h_quantity cur) s"
  by (simp add: increase_def Let_def average_holding_def)

lemma average_fill:
  assumes "average_holding i (hb_holding b i)" and "s \<noteq> 0" "0 \<le> p" "0 < m"
  shows "\<exists>evs h'. hb_apply_fill i s p m t b = (Inr evs, hb_store i h' b) \<and> average_holding i h' \<and>
     h_quantity h' = dadd (hb_quantity b i) s \<and>
     map pc_instrument_id evs = (if closes (hb_quantity b i) s then [i] else [])"
proof (cases "hb_quantity b i = 0 \<or> 0 < hb_quantity b i * s")
  case True
  then have "\<not> closes (hb_quantity b i) s"
    using same_side_no_close by (auto simp: closes_def)
  with True assms increase_result [OF assms(1)] show ?thesis
    by (auto simp: hb_apply_fill_def same_for_quantities_iff hb_quantity_def average_holding_def Let_def)
next
  case False
  with assms reduce_or_flip_result [OF assms(1)] show ?thesis
    by (auto simp: hb_apply_fill_def same_for_quantities_iff hb_quantity_def average_holding_def
        case_prod_unfold Let_def)
qed

definition fifo_holding :: "int \<Rightarrow> int \<Rightarrow> instrument_id \<Rightarrow> holding \<Rightarrow> bool" where
  "fifo_holding e n i h \<longleftrightarrow> h_instrument_id h = i \<and> h_cost_basis_method h = FIFO \<and>
     on_grid e n (h_quantity h) \<and> lots_ok e n (h_quantity h) (h_lots h)"

lemma lots_ok_mono: "lots_ok e n q lots \<Longrightarrow> n \<le> n' \<Longrightarrow> lots_ok e n' q lots"
  by (auto simp: lots_ok_def list_all_iff intro: on_grid_mono)

lemma lots_ok_append:
  assumes "lots_ok e n q lots" and "q = 0 \<or> 0 < q * s" and "on_grid e n s" and "s \<noteq> 0"
  shows "lots_ok e n (q + s) (lots @ [\<lparr>lot_quantity = s, lot_price = p, lot_acquired_at = t\<rparr>])"
  using assms by (auto simp: lots_ok_def list_all_iff zero_less_mult_iff)

lemma lots_ok_side:
  "lots_ok e n q lots \<Longrightarrow> 0 < q * sign \<Longrightarrow> lots_on_side e n sign lots"
  by (auto simp: lots_ok_def lots_on_side_def list_all_iff zero_less_mult_iff)

lemma lots_on_side_sum:
  "lots_on_side e n sign lots \<Longrightarrow> sign = 1 \<or> sign = -1 \<Longrightarrow>
     sum_list (map lot_quantity lots) = sign * lots_size lots"
  by (induction lots) (auto simp: lots_on_side_def)

lemma lots_on_side_ok:
  assumes "lots_on_side e n sign lots" and "sign = 1 \<or> sign = -1"
  shows "lots_ok e n (sign * lots_size lots) lots"
proof -
  have "0 < sign * lots_size lots * sign" if "lots \<noteq> []"
    using assms that lots_size_nonneg [of "tl lots"]
    by (cases lots) (auto simp: lots_on_side_def)
  moreover have "0 < lot_quantity l * (sign * lots_size lots)"
    if "0 < lot_quantity l * sign" "0 < sign * lots_size lots * sign" for l
    using that assms(2) by (auto simp: zero_less_mult_iff)
  ultimately show ?thesis
    using assms(1) lots_on_side_sum [OF assms]
    by (cases "lots = []") (simp_all add: lots_ok_def lots_on_side_def list_all_iff, blast)
qed

text \<open>A FIFO reduction of an exact book is the reference reduction.\<close>

definition flip_lot :: "decimal \<Rightarrow> decimal \<Rightarrow> decimal \<Rightarrow> instant option \<Rightarrow> lot list" where
  "flip_lot rest sign price t =
     (if 0 < rest then [\<lparr>lot_quantity = - sign * rest, lot_price = price, lot_acquired_at = t\<rparr>] else [])"

lemma lots_reduce_exact:
  assumes "lots_ok e n q lots" and "on_grid e n q" "on_grid e n s" "n < 10 ^ 28" "0 \<le> n"
    and sign: "sign = (if 0 < q then 1 else -1)" and "q \<noteq> 0"
  shows "lots_reduce lots s price m t =
     Inr \<lparr>lc_lots = fifo_take sign \<bar>s\<bar> lots @ flip_lot (\<bar>s\<bar> - \<bar>q\<bar>) sign price t,
          lc_closed_quantity = min \<bar>s\<bar> \<bar>q\<bar>,
          lc_realized_pnl = dsum (map (lot_pnl sign price m) (fifo_consumed \<bar>s\<bar> lots))\<rparr>"
proof -
  have s1: "sign = 1 \<or> sign = -1" and "0 < q * sign" using sign \<open>q \<noteq> 0\<close> by auto
  then have side: "lots_on_side e n sign lots" using lots_ok_side [OF assms(1)] by blast
  have size: "lots_size lots = \<bar>q\<bar>"
    using lots_on_side_sum [OF side s1] assms(1) lots_size_nonneg [of lots] s1
    by (auto simp: lots_ok_def)
  have loop: "reduce_loop sign price m lots \<bar>s\<bar> 0 0 =
     (fifo_take sign \<bar>s\<bar> lots, max 0 (\<bar>s\<bar> - \<bar>q\<bar>),
      dsum (map (lot_pnl sign price m) (fifo_consumed \<bar>s\<bar> lots)), min \<bar>s\<bar> \<bar>q\<bar>)"
    using reduce_loop_exact [OF s1 side, of "\<bar>s\<bar>" 0 price m 0] assms size by (simp add: dsum_def)
  have "on_grid e n (\<bar>s\<bar> - \<bar>q\<bar>)" if "0 < \<bar>s\<bar> - \<bar>q\<bar>"
    using on_grid_between [OF on_grid_steps [of e n "\<bar>s\<bar>" n "\<bar>q\<bar>"], of n "\<bar>s\<bar>"] assms that by auto
  then have flip: "dmul (\<bar>s\<bar> - \<bar>q\<bar>) (dneg sign) = - sign * (\<bar>s\<bar> - \<bar>q\<bar>)" if "0 < \<bar>s\<bar> - \<bar>q\<bar>"
    using dmul_sign_exact [of "- sign" e n "\<bar>s\<bar> - \<bar>q\<bar>"] s1 assms(4) that
    by (auto simp: dneg_def)
  have "from_quantity q = Some (if 0 < q then LONG else SHORT)" using \<open>q \<noteq> 0\<close> by (auto simp: from_quantity_def)
  moreover have "side_sign (if 0 < q then LONG else SHORT) = sign" using sign by simp
  ultimately show ?thesis
    using loop flip lots_quantity_exact [OF assms(1,2,5,4)] dabs_exact [OF assms(3,4)]
    by (auto simp: lots_reduce_def Let_def flip_lot_def)
qed

lemma lots_apply_exact:
  assumes ok: "lots_ok e n q lots" "on_grid e n q" and s: "on_grid e k s" "s \<noteq> 0"
    and n: "n + k < 10 ^ 28" "0 \<le> n" "0 \<le> k"
  shows "\<exists>c. lots_apply lots s price m t = Inr c \<and> lots_ok e (n + k) (q + s) (lc_lots c) \<and>
     lots_quantity (lc_lots c) = q + s"
proof -
  let ?n = "n + k"
  have ok': "lots_ok e ?n q lots" and q: "on_grid e ?n q" and s': "on_grid e ?n s" and n': "?n < 10 ^ 28" "0 \<le> ?n"
    using ok s n by (auto intro: lots_ok_mono on_grid_mono)
  have sum: "on_grid e ?n (q + s)" using on_grid_add ok s by blast
  have "\<exists>c. lots_apply lots s price m t = Inr c \<and> lots_ok e ?n (q + s) (lc_lots c)"
  proof (cases "q = 0 \<or> 0 < q * s")
    case True
    then show ?thesis
      using lots_ok_append [OF ok' True s' s(2)] lots_quantity_exact [OF ok' q n'(2,1)]
      by (auto simp: lots_apply_def Let_def same_for_quantities_iff)
  next
    case False
    define sign :: decimal where "sign = (if 0 < q then 1 else -1)"
    have s1: "sign = 1 \<or> sign = -1" by (simp add: sign_def)
    from False have opp: "q \<noteq> 0" "0 < q \<and> s < 0 \<or> q < 0 \<and> 0 < s"
      using opposite_cases [of q s] s(2) by auto
    then have side: "lots_on_side e ?n sign lots"
      using lots_ok_side [OF ok', of sign] by (auto simp: sign_def zero_less_mult_iff)
    have size: "lots_size lots = \<bar>q\<bar>"
      using lots_on_side_sum [OF side s1] ok' lots_size_nonneg [of lots] s1 by (auto simp: lots_ok_def)
    have taken: "lots_ok e ?n (sign * max 0 (\<bar>q\<bar> - \<bar>s\<bar>)) (fifo_take sign \<bar>s\<bar> lots)"
      using lots_on_side_ok [OF fifo_take_on_side [OF side s1, of "\<bar>s\<bar>"] s1] s' s1
      by (simp add: fifo_take_size size)
    have "lots_ok e ?n (q + s) (fifo_take sign \<bar>s\<bar> lots @ flip_lot (\<bar>s\<bar> - \<bar>q\<bar>) sign price t)"
    proof (cases "\<bar>q\<bar> < \<bar>s\<bar>")
      case True
      moreover have "- sign * (\<bar>s\<bar> - \<bar>q\<bar>) = q + s" using opp by (auto simp: sign_def)
      moreover have "q + s \<noteq> 0" using True opp by auto
      ultimately show ?thesis
        using lots_ok_append [of e ?n 0 "fifo_take sign \<bar>s\<bar> lots" "q + s"] taken sum
        by (simp add: flip_lot_def)
    next
      case False
      then have "sign * max 0 (\<bar>q\<bar> - \<bar>s\<bar>) = q + s" using opp by (auto simp: sign_def max_def)
      with False taken show ?thesis by (simp add: flip_lot_def)
    qed
    then show ?thesis
      using False opp lots_reduce_exact [OF ok' q s' n' sign_def opp(1)] lots_quantity_exact [OF ok' q n'(2,1)]
      by (auto simp: lots_apply_def Let_def same_for_quantities_iff)
  qed
  then show ?thesis using lots_quantity_exact [OF _ sum n'(2,1)] by auto
qed

lemma on_grid_nonneg: "on_grid e n x \<Longrightarrow> 0 \<le> n"
  unfolding on_grid_def using order_trans [OF abs_ge_zero] by blast

lemma fifo_fill:
  assumes "fifo_holding e n i (hb_holding b i)" and "s \<noteq> 0" "0 \<le> p" "0 < m" "on_grid e k s" "n + k < 10 ^ 28"
  shows "\<exists>evs h'. hb_apply_fill i s p m t b = (Inr evs, hb_store i h' b) \<and> fifo_holding e (n + k) i h' \<and>
     h_quantity h' = hb_quantity b i + s \<and>
     map pc_instrument_id evs = (if closes (hb_quantity b i) s then [i] else [])"
proof -
  let ?cur = "hb_holding b i"
  have ok: "lots_ok e n (h_quantity ?cur) (h_lots ?cur)" "on_grid e n (h_quantity ?cur)"
    and id: "h_instrument_id ?cur = i" "h_cost_basis_method ?cur = FIFO"
    using assms(1) by (auto simp: fifo_holding_def)
  then obtain c where c: "lots_apply (h_lots ?cur) s p m (opt_or t (h_last_fill_at ?cur)) = Inr c"
    "lots_ok e (n + k) (h_quantity ?cur + s) (lc_lots c)" "lots_quantity (lc_lots c) = h_quantity ?cur + s"
    using lots_apply_exact [OF ok assms(5,2,6)] assms(5) on_grid_nonneg by blast
  have g: "on_grid e (n + k) (h_quantity ?cur + s)" using ok assms(5) by (blast intro: on_grid_add)
  have "h_quantity ?cur + s = 0 \<and> h_quantity ?cur = 0 \<Longrightarrow> False" using assms(2) by auto
  then show ?thesis using assms(2-4) c id g
    by (auto simp: hb_apply_fill_def apply_fill_fifo_def Let_def fifo_holding_def hb_quantity_def
        same_for_quantities_iff sign_product)
qed

definition average_book :: "int \<Rightarrow> int \<Rightarrow> holding_book \<Rightarrow> bool" where
  "average_book e n b \<longleftrightarrow>
     (\<forall>i. average_holding i (hb_holding b i) \<and> on_grid e n (hb_quantity b i))"

definition fifo_book :: "int \<Rightarrow> int \<Rightarrow> holding_book \<Rightarrow> bool" where
  "fifo_book e n b \<longleftrightarrow> (\<forall>i. fifo_holding e n i (hb_holding b i))"

definition hb_fill :: "fill_input \<Rightarrow> holding_book \<Rightarrow> (holding_book, position_closed list) outcome" where
  "hb_fill f b =
     hb_apply_fill (fi_instrument f) (fi_signed_quantity f) (fi_price f) (fi_multiplier f) (fi_time f) b"

lemma hb_quantity_store: "hb_quantity (hb_store i h b) = (hb_quantity b)(i := h_quantity h)"
  by (auto simp: hb_quantity_def fun_eq_iff)

interpretation average_cost: position_book hb_fill hb_quantity average_book
proof
  fix e n b k f
  assume ok: "average_book e n b" "fill_ok e k f" and bound: "n + k < 10 ^ 28"
  let ?i = "fi_instrument f" let ?s = "fi_signed_quantity f"
  have av: "average_holding ?i (hb_holding b ?i)" and f: "?s \<noteq> 0" "0 \<le> fi_price f" "0 < fi_multiplier f"
    using ok by (auto simp: average_book_def fill_ok_def)
  then obtain evs h' where r: "hb_fill f b = (Inr evs, hb_store ?i h' b)" "average_holding ?i h'"
     "h_quantity h' = dadd (hb_quantity b ?i) ?s"
     "map pc_instrument_id evs = (if closes (hb_quantity b ?i) ?s then [?i] else [])"
    using average_fill [OF av f] unfolding hb_fill_def by blast
  have g: "on_grid e (n + k) (hb_quantity b ?i + ?s)"
    using ok by (auto simp: average_book_def fill_ok_def intro: on_grid_add)
  have "0 \<le> k" using ok on_grid_nonneg by (auto simp: fill_ok_def)
  then have "on_grid e (n + k) (hb_quantity b j)" for j
    using ok by (auto simp: average_book_def intro: on_grid_mono)
  with g r ok dadd_exact [OF g bound] show "\<exists>evs b'. hb_fill f b = (Inr evs, b') \<and> average_book e (n + k) b' \<and>
       hb_quantity b' = (hb_quantity b)(?i := hb_quantity b ?i + ?s) \<and>
       map pc_instrument_id evs = (if closes (hb_quantity b ?i) ?s then [?i] else [])"
    by (auto simp: average_book_def hb_quantity_store)
qed

lemma fifo_holding_mono: "fifo_holding e n i h \<Longrightarrow> n \<le> n' \<Longrightarrow> fifo_holding e n' i h"
  by (auto simp: fifo_holding_def intro: on_grid_mono lots_ok_mono)

interpretation fifo_cost: position_book hb_fill hb_quantity fifo_book
proof
  fix e n b k f
  assume ok: "fifo_book e n b" "fill_ok e k f" and bound: "n + k < 10 ^ 28"
  let ?i = "fi_instrument f" let ?s = "fi_signed_quantity f"
  have h: "fifo_holding e n ?i (hb_holding b ?i)"
    and f: "?s \<noteq> 0" "0 \<le> fi_price f" "0 < fi_multiplier f" "on_grid e k ?s"
    using ok by (auto simp: fifo_book_def fill_ok_def)
  then obtain evs h' where r: "hb_fill f b = (Inr evs, hb_store ?i h' b)" "fifo_holding e (n + k) ?i h'"
     "h_quantity h' = hb_quantity b ?i + ?s"
     "map pc_instrument_id evs = (if closes (hb_quantity b ?i) ?s then [?i] else [])"
    using fifo_fill [OF h f bound] unfolding hb_fill_def by blast
  moreover have "fifo_holding e (n + k) j (hb_holding b j)" for j
    using ok on_grid_nonneg [OF f(4)] by (auto simp: fifo_book_def intro: fifo_holding_mono)
  ultimately show "\<exists>evs b'. hb_fill f b = (Inr evs, b') \<and> fifo_book e (n + k) b' \<and>
       hb_quantity b' = (hb_quantity b)(?i := hb_quantity b ?i + ?s) \<and>
       map pc_instrument_id evs = (if closes (hb_quantity b ?i) ?s then [?i] else [])"
    by (auto simp: fifo_book_def hb_quantity_store)
qed

lemma new_books: "average_book e 0 (hb_init [] AVERAGE)" "fifo_book e 0 (hb_init [] FIFO)"
    "hb_quantity (hb_init [] m) = (\<lambda>i. 0)"
  by (auto simp: average_book_def fifo_book_def average_holding_def fifo_holding_def hb_holding_def
      hb_init_def hb_quantity_def dict_lookup_def flat_holding_def lots_ok_def)

section \<open>Properties\<close>

text \<open>C5. Average-cost accounting, on every branch of \<open>apply_fill\<close> and with the rounding of the
  code: the position becomes the rounded sum and no other instrument changes; a fill on the
  position's side books no PnL; a partial reduction keeps the average cost and the opening time; a
  fill to flat clears the opening time; a flip restarts at the fill price; and one close event is
  emitted exactly in the last two cases. A zero quantity, a negative price or a multiplier that is
  not positive is refused with the book unchanged.\<close>

theorem average_cost_accounting:
  assumes "average_holding i (hb_holding b i)" and "fill_time = opt_or t (h_last_fill_at (hb_holding b i))"
  shows "(s \<noteq> 0 \<and> 0 \<le> p \<and> 0 < m \<longrightarrow>
     (\<exists>evs h'. hb_apply_fill i s p m t b = (Inr evs, hb_store i h' b) \<and>
       (let q = hb_quantity b i; h = hb_holding b i in
        h_quantity h' = dadd q s \<and>
        (\<forall>j. j \<noteq> i \<longrightarrow> hb_holding (hb_store i h' b) j = hb_holding b j) \<and>
        (q = 0 \<or> 0 < q * s \<longrightarrow> h_realized_pnl h' = h_realized_pnl h \<and> evs = []) \<and>
        (q * s < 0 \<and> 0 < q * (q + s) \<longrightarrow>
           h_average_cost h' = h_average_cost h \<and> h_opened_at h' = h_opened_at h \<and> evs = []) \<and>
        (q \<noteq> 0 \<and> q + s = 0 \<longrightarrow> h_opened_at h' = None \<and> length evs = 1) \<and>
        (q * (q + s) < 0 \<longrightarrow>
           h_average_cost h' = p \<and> h_opened_at h' = fill_time \<and> length evs = 1)))) \<and>
   (\<not> (s \<noteq> 0 \<and> 0 \<le> p \<and> 0 < m) \<longrightarrow>
     (\<exists>msg. hb_apply_fill i s p m t b = (Inl (ValueError msg), b)))"
proof -
  let ?h = "hb_holding b i" and ?q = "hb_quantity b i"
  consider "?q = 0 \<or> 0 < ?q * s" | "?q * s < 0" | "s = 0" "?q \<noteq> 0"
    using less_linear [of "?q * s" 0] by auto
  then show ?thesis
  proof cases
    case 1
    moreover from 1 have "\<not> ?q * (?q + s) < 0" "?q \<noteq> 0 \<longrightarrow> ?q + s \<noteq> 0" "\<not> ?q * s < 0"
      by (auto simp: zero_less_mult_iff mult_less_0_iff)
    ultimately show ?thesis using assms
      by (auto simp: hb_apply_fill_def average_holding_def hb_quantity_def same_for_quantities_iff Let_def
          increase_def)
  next
    case 2
    then have "\<not> 0 < ?q * s" "?q \<noteq> 0" "s \<noteq> 0" by auto
    with 2 assms show ?thesis
      by (auto simp: hb_apply_fill_def average_holding_def hb_quantity_def same_for_quantities_iff Let_def
          reduce_or_flip_def)
  qed (auto simp: hb_apply_fill_def)
qed

theorem average_cost_accounting_witness:
  "\<exists>evs h'. hb_apply_fill ''ES'' (-2) 12 1 (Some 5) (hb_init [(''ES'', (flat_holding ''ES'' AVERAGE)\<lparr>h_quantity := 3, h_average_cost := 10\<rparr>)] AVERAGE) = (Inr evs, h')"
  using average_cost_accounting [of "''ES''"
      "hb_init [(''ES'', (flat_holding ''ES'' AVERAGE)\<lparr>h_quantity := 3, h_average_cost := 10\<rparr>)] AVERAGE"
      "Some 5" "Some 5" "-2" 12 1]
  by (auto simp: average_holding_def hb_holding_def hb_init_def dict_lookup_def flat_holding_def opt_or_def)

text \<open>C6. FIFO and average cost differ only in the PnL figures: for any sequence of valid fills on
  a common lot grid, starting from empty books, both books accept every fill, both end with each
  instrument's position equal to the sum of its fills, and both emit close events for the same
  instruments in the same order.\<close>

theorem fifo_matches_average:
  assumes "list_all (fill_ok e k) fs" and "int (length fs) * k < 10 ^ 28" and "0 \<le> k"
  shows "\<exists>avg_events avg_book fifo_events fifo_bk.
     apply_all hb_fill fs (hb_init [] AVERAGE) = (Inr avg_events, avg_book) \<and>
     apply_all hb_fill fs (hb_init [] FIFO) = (Inr fifo_events, fifo_bk) \<and>
     (\<forall>i. hb_quantity avg_book i = net_fills i fs \<and> hb_quantity fifo_bk i = net_fills i fs) \<and>
     map pc_instrument_id avg_events = map pc_instrument_id fifo_events"
  using average_cost.apply_all_ok [OF new_books(1) assms(1) _ assms(3)]
    fifo_cost.apply_all_ok [OF new_books(2) assms(1) _ assms(3)] assms(2)
  by (force simp: new_books(3))

theorem fifo_matches_average_witness:
  "let fs = [\<lparr>fi_instrument = ''ES'', fi_signed_quantity = 3, fi_price = 10, fi_multiplier = 1, fi_time = Some 1\<rparr>,
            \<lparr>fi_instrument = ''NQ'', fi_signed_quantity = 1, fi_price = 20, fi_multiplier = 1, fi_time = Some 1\<rparr>,
            \<lparr>fi_instrument = ''ES'', fi_signed_quantity = -5, fi_price = 12, fi_multiplier = 1, fi_time = Some 2\<rparr>]
   in \<exists>e1 b1 e2 b2. apply_all hb_fill fs (hb_init [] AVERAGE) = (Inr e1, b1) \<and>
        apply_all hb_fill fs (hb_init [] FIFO) = (Inr e2, b2) \<and>
        hb_quantity b1 ''ES'' = -2 \<and> hb_quantity b2 ''ES'' = -2"
proof -
  let ?fs = "[\<lparr>fi_instrument = ''ES'', fi_signed_quantity = 3, fi_price = 10, fi_multiplier = 1, fi_time = Some 1\<rparr>,
            \<lparr>fi_instrument = ''NQ'', fi_signed_quantity = 1, fi_price = 20, fi_multiplier = 1, fi_time = Some 1\<rparr>,
            \<lparr>fi_instrument = ''ES'', fi_signed_quantity = -5, fi_price = 12, fi_multiplier = 1, fi_time = Some 2\<rparr>]"
  have "list_all (fill_ok 0 5) ?fs"
    using on_grid_of_int [of 3 5] on_grid_of_int [of 1 5] on_grid_of_int [of "-5" 5]
    by (simp add: fill_ok_def)
  from fifo_matches_average [OF this] show ?thesis
    by (auto simp: net_fills_def Let_def)
qed

text \<open>A FIFO reduction consumes the oldest lots first: on an exact book, an opposing fill leaves
  exactly the lots that remain after taking its size off the front, opens one lot on the other
  side for what exceeds the position, reports the closed quantity, and realizes the sum over the
  consumed lots of quantity times price difference times side and multiplier.\<close>

theorem fifo_consumes_oldest:
  assumes "lots_ok e n q lots" and "on_grid e n q" "on_grid e n s" "n < 10 ^ 28" and "q * s < 0"
  shows "lots_apply lots s price m t =
     (let sign = (if 0 < q then 1 else -1) in
      Inr \<lparr>lc_lots = fifo_take sign \<bar>s\<bar> lots @ flip_lot (\<bar>s\<bar> - \<bar>q\<bar>) sign price t,
           lc_closed_quantity = min \<bar>s\<bar> \<bar>q\<bar>,
           lc_realized_pnl = dsum (map (lot_pnl sign price m) (fifo_consumed \<bar>s\<bar> lots))\<rparr>)"
  using lots_reduce_exact [OF assms(1-4) on_grid_nonneg [OF assms(2)] refl] assms
    lots_quantity_exact [OF assms(1,2) on_grid_nonneg [OF assms(2)] assms(4)]
  by (auto simp: lots_apply_def Let_def same_for_quantities_iff)

theorem fifo_consumes_oldest_witness:
  "lots_apply [\<lparr>lot_quantity = 2, lot_price = 10, lot_acquired_at = Some 1\<rparr>,
               \<lparr>lot_quantity = 3, lot_price = 11, lot_acquired_at = Some 2\<rparr>] (-3) 15 1 (Some 9) =
   Inr \<lparr>lc_lots = [\<lparr>lot_quantity = 2, lot_price = 11, lot_acquired_at = Some 2\<rparr>],
        lc_closed_quantity = 3, lc_realized_pnl = 14\<rparr>"
proof -
  let ?lots = "[\<lparr>lot_quantity = 2, lot_price = 10, lot_acquired_at = Some 1\<rparr>,
               \<lparr>lot_quantity = 3, lot_price = 11, lot_acquired_at = Some 2\<rparr>]"
  have "lots_ok 0 5 5 ?lots" "on_grid 0 5 5" "on_grid 0 5 (- 3)"
    using on_grid_of_int [of 2 5] on_grid_of_int [of 3 5] on_grid_of_int [of 5 5]
    by (simp_all add: lots_ok_def)
  from fifo_consumes_oldest [OF this, of 15 1 "Some 9"] show ?thesis
    by (simp add: flip_lot_def dsum_def lot_pnl_def dec_simps)
qed

text \<open>Restoring a snapshot gives back every stored holding, but not the book's default cost
  basis: an instrument the snapshot does not hold is opened under average cost even when the
  snapshot came from a FIFO book.\<close>

theorem restore_forgets_cost_basis:
  "(\<forall>i \<in> set (dict_keys (hb_holdings b)). hb_holding (hb_restore (hb_snapshot b)) i = hb_holding b i) \<and>
   (\<forall>i. i \<notin> set (dict_keys (hb_holdings b)) \<longrightarrow>
      hb_holding b i = flat_holding i (hb_cost_basis_method b) \<and>
      hb_holding (hb_restore (hb_snapshot b)) i = flat_holding i AVERAGE)"
proof -
  have "map_of (hb_holdings b) i \<noteq> None" if "i \<in> set (dict_keys (hb_holdings b))" for i
    using that by (metis map_of_eq_None_iff image_set)
  moreover have "map_of (hb_holdings b) i = None" if "i \<notin> set (dict_keys (hb_holdings b))" for i
    using that by (metis map_of_eq_None_iff image_set)
  ultimately show ?thesis
    by (fastforce simp: hb_restore_def hb_snapshot_def hb_holding_def hb_init_def dict_lookup_def)
qed

theorem restore_forgets_cost_basis_witness:
  "hb_holding (hb_init [] FIFO) ''ES'' = flat_holding ''ES'' FIFO \<and>
   hb_holding (hb_restore (hb_snapshot (hb_init [] FIFO))) ''ES'' = flat_holding ''ES'' AVERAGE"
  using restore_forgets_cost_basis [of "hb_init [] FIFO"] by (simp add: hb_init_def)

end
