(* ===== verification/Portfolio_Books.thy ===== *)
theory Portfolio_Books
  imports Portfolio_Holdings
begin

text \<open>
  The other account books: \<open>CashBook\<close> and \<open>ReservationBook\<close>, the valuation formulas and
  \<open>PortfolioValuator\<close>, the rate-based \<open>MarginCalculator\<close>, the path-dependent \<open>MarginLedger\<close>, the
  session-aware \<open>IntradayPnlCalculator\<close>, and the snapshots built from them (\<open>AccountSnapshot\<close>,
  \<open>RiskStateSnapshot\<close>). Mark prices and multipliers are dictionaries by instrument, as in the code.
\<close>

section \<open>Cash (\<open>portfolio/cash_book.py\<close>)\<close>

type_synonym cash_book = "(string, decimal) dict"

definition normalize_currency :: "string \<Rightarrow> string res" where
  "normalize_currency c =
     (let normalized = upper (strip c)
      in if normalized = [] then Inl (ValueError ''currency must not be empty'') else Inr normalized)"

definition cb_init :: "(string, decimal) dict option \<Rightarrow> cash_book" where
  "cb_init balances = (case balances of None \<Rightarrow> [] | Some b \<Rightarrow> b)"

definition cb_balance :: "string \<Rightarrow> cash_book \<Rightarrow> decimal res" where
  "cb_balance c b = res_bind (normalize_currency c) (\<lambda>n. Inr (dict_lookup b n 0))"

definition cb_apply_delta :: "string \<Rightarrow> decimal \<Rightarrow> cash_book \<Rightarrow> (cash_book, unit) outcome" where
  "cb_apply_delta c amount_delta b =
     (case normalize_currency c of
        Inl e \<Rightarrow> (Inl e, b)
      | Inr n \<Rightarrow>
          (case cb_balance n b of
             Inl e \<Rightarrow> (Inl e, b)
           | Inr v \<Rightarrow> (Inr (), AList.update n (dadd v amount_delta) b)))"

definition cb_balances :: "cash_book \<Rightarrow> (string, decimal) dict" where
  "cb_balances b = b"

section \<open>Reservations (\<open>portfolio/reservation_book.py\<close>)\<close>

record reservation =
  rv_reservation_id :: order_id
  rv_currency :: string
  rv_amount :: decimal

type_synonym reservation_book = "(order_id, reservation) dict"

definition rb_reserve :: "order_id \<Rightarrow> string \<Rightarrow> decimal \<Rightarrow> reservation_book \<Rightarrow> (reservation_book, unit) outcome" where
  "rb_reserve rid c amount b =
     (if amount < 0 then (Inl (ValueError ''amount must be non-negative''), b)
      else if map_of b rid \<noteq> None then (Inr (), b)
      else case normalize_currency c of
             Inl e \<Rightarrow> (Inl e, b)
           | Inr n \<Rightarrow> (Inr (), AList.update rid
               \<lparr>rv_reservation_id = rid, rv_currency = n, rv_amount = amount\<rparr> b))"

definition rb_release :: "order_id \<Rightarrow> reservation_book \<Rightarrow> reservation_book" where
  "rb_release rid b = AList.delete rid b"

definition rb_reserved :: "string \<Rightarrow> reservation_book \<Rightarrow> decimal res" where
  "rb_reserved c b = res_bind (normalize_currency c) (\<lambda>n.
     Inr (dsum (map rv_amount (filter (\<lambda>r. rv_currency r = n) (map snd b)))))"

definition cb_available :: "string \<Rightarrow> reservation_book \<Rightarrow> cash_book \<Rightarrow> decimal res" where
  "cb_available c reservations b = res_bind (normalize_currency c) (\<lambda>n.
     res_bind (cb_balance n b) (\<lambda>v. res_bind (rb_reserved n reservations) (\<lambda>r. Inr (dsub v r))))"

section \<open>Valuation (\<open>portfolio/valuation\<close>)\<close>

definition equity_notional :: "decimal \<Rightarrow> decimal \<Rightarrow> decimal" where
  "equity_notional quantity price = dmul quantity price"

definition future_pnl :: "decimal \<Rightarrow> decimal \<Rightarrow> decimal \<Rightarrow> decimal \<Rightarrow> decimal" where
  "future_pnl contracts entry_price exit_price multiplier =
     dmul (dmul contracts (dsub exit_price entry_price)) multiplier"

definition option_premium_value :: "decimal \<Rightarrow> decimal \<Rightarrow> decimal \<Rightarrow> decimal" where
  "option_premium_value contracts option_price multiplier = dmul (dmul contracts option_price) multiplier"

record account_valuation =
  av_account_equity :: decimal
  av_current_exposure :: decimal
  av_notional :: "(instrument_id, decimal) dict"
  av_position :: "(instrument_id, decimal) dict"

text \<open>The loop of \<open>_convert_cash\<close>; \<open>rates\<close> are the normalized rates.\<close>

fun convert_loop ::
  "string \<Rightarrow> (string, decimal) dict option \<Rightarrow> (string, decimal) dict \<Rightarrow> decimal \<Rightarrow> decimal res" where
  "convert_loop base rates [] total_cash = Inr total_cash"
| "convert_loop base rates ((currency, balance) # cash) total_cash =
     (let ccy = upper (strip currency)
      in case (if ccy = base then Some 1 else case rates of None \<Rightarrow> Some 1 | Some rs \<Rightarrow> map_of rs ccy) of
           None \<Rightarrow> Inl (ValueError (''missing FX rate for currency '' @ ccy @ '' to value account in '' @ base))
         | Some rate \<Rightarrow> convert_loop base rates cash (dadd total_cash (dmul balance rate)))"

definition convert_cash ::
  "(string, decimal) dict \<Rightarrow> (string, decimal) dict option \<Rightarrow> string \<Rightarrow> decimal res" where
  "convert_cash cash fx_rates base_currency =
     convert_loop (upper (strip base_currency))
       (case fx_rates of None \<Rightarrow> None
        | Some rs \<Rightarrow> Some (dict_of (map (\<lambda>(c, r). (upper (strip c), r)) rs)))
       cash 0"

definition marked_value ::
  "(instrument_id, decimal) dict \<Rightarrow> (instrument_id, decimal) dict \<Rightarrow> instrument_id \<times> holding \<Rightarrow> decimal" where
  "marked_value marks multipliers ih =
     (case map_of marks (fst ih) of
        None \<Rightarrow> 0
      | Some mark \<Rightarrow>
          if h_quantity (snd ih) = 0 then 0
          else dmul (dmul (h_quantity (snd ih)) mark) (dict_lookup multipliers (fst ih) 1))"

definition valuate ::
  "(string, decimal) dict \<Rightarrow> (instrument_id, holding) dict \<Rightarrow> (instrument_id, decimal) dict \<Rightarrow>
   (instrument_id, decimal) dict \<Rightarrow> (string, decimal) dict option \<Rightarrow> string \<Rightarrow> account_valuation res" where
  "valuate cash holdings marks multipliers fx_rates base_currency =
     res_bind (convert_cash cash fx_rates base_currency) (\<lambda>total_cash.
       let values = map (\<lambda>ih. (fst ih, marked_value marks multipliers ih)) holdings;
           holding_equity = dsum (map snd values);
           exposure = dsum (map (\<lambda>v. dabs (snd v)) values)
       in Inr \<lparr>av_account_equity = dadd total_cash holding_equity, av_current_exposure = exposure,
               av_notional = map (\<lambda>v. (fst v, dabs (snd v))) values,
               av_position = map (\<lambda>ih. (fst ih, h_quantity (snd ih))) holdings\<rparr>)"

section \<open>Margin requirement (\<open>risk/margin/calculator.py\<close>)\<close>

record margin_calculator =
  mc_initial_margin_rate :: decimal
  mc_maintenance_margin_rate :: decimal

definition mk_margin_calculator :: "decimal \<Rightarrow> decimal \<Rightarrow> margin_calculator res" where
  [ctor_simps]: "mk_margin_calculator initial maintenance = checked
     [(initial \<le> 0, ValueError ''initial_margin_rate must be positive''),
      (maintenance \<le> 0, ValueError ''maintenance_margin_rate must be positive''),
      (maintenance > initial, ValueError ''maintenance_margin_rate must not exceed initial_margin_rate'')]
     \<lparr>mc_initial_margin_rate = initial, mc_maintenance_margin_rate = maintenance\<rparr>"

record margin_figures =
  mr_initial_margin :: decimal
  mr_maintenance_margin :: decimal
  mr_available_margin :: decimal

fun margin_loop ::
  "margin_calculator \<Rightarrow> (instrument_id, decimal) dict \<Rightarrow> (instrument_id, decimal) dict \<Rightarrow>
   (instrument_id, holding) dict \<Rightarrow> decimal \<Rightarrow> decimal \<Rightarrow> decimal \<times> decimal" where
  "margin_loop mc marks multipliers [] initial maintenance = (initial, maintenance)"
| "margin_loop mc marks multipliers ((i, h) # ps) initial maintenance =
     (case map_of marks i of
        None \<Rightarrow> margin_loop mc marks multipliers ps initial maintenance
      | Some mark \<Rightarrow>
          if h_quantity h = 0 then margin_loop mc marks multipliers ps initial maintenance
          else let notl = dmul (dmul (dabs (h_quantity h)) mark) (dict_lookup multipliers i 1)
               in margin_loop mc marks multipliers ps
                    (dadd initial (dmul notl (mc_initial_margin_rate mc)))
                    (dadd maintenance (dmul notl (mc_maintenance_margin_rate mc))))"

definition margin_requirement ::
  "margin_calculator \<Rightarrow> (instrument_id, holding) dict \<Rightarrow> (instrument_id, decimal) dict \<Rightarrow>
   (instrument_id, decimal) dict \<Rightarrow> decimal \<Rightarrow> margin_figures" where
  "margin_requirement mc positions marks multipliers account_equity =
     (case margin_loop mc marks multipliers positions 0 0 of (initial, maintenance) \<Rightarrow>
        \<lparr>mr_initial_margin = initial, mr_maintenance_margin = maintenance,
         mr_available_margin = dsub account_equity initial\<rparr>)"

definition order_initial_margin :: "margin_calculator \<Rightarrow> decimal \<Rightarrow> decimal" where
  "order_initial_margin mc notl = dmul (dabs notl) (mc_initial_margin_rate mc)"

section \<open>Margin ledger (\<open>portfolio/margin_ledger.py\<close>)\<close>

record margin_ledger =
  ml_calculator :: margin_calculator
  ml_account_equity :: decimal
  ml_variation_margin :: decimal
  ml_last_marks :: "(instrument_id, decimal) dict"
  ml_initial_margin :: decimal
  ml_maintenance_margin :: decimal

record margin_state =
  ms_initial_margin :: decimal
  ms_maintenance_margin :: decimal
  ms_variation_margin :: decimal

definition default_margin_calculator :: margin_calculator where
  "default_margin_calculator = \<lparr>mc_initial_margin_rate = 5 / 100, mc_maintenance_margin_rate = 4 / 100\<rparr>"

definition ml_init :: "margin_calculator option \<Rightarrow> decimal \<Rightarrow> margin_ledger" where
  "ml_init calculator account_equity =
     \<lparr>ml_calculator = (case calculator of None \<Rightarrow> default_margin_calculator | Some c \<Rightarrow> c),
      ml_account_equity = account_equity, ml_variation_margin = 0, ml_last_marks = [],
      ml_initial_margin = 0, ml_maintenance_margin = 0\<rparr>"

fun accrue_loop ::
  "(instrument_id, decimal) dict \<Rightarrow> (instrument_id, decimal) dict \<Rightarrow> (instrument_id, holding) dict \<Rightarrow>
   margin_ledger \<Rightarrow> margin_ledger" where
  "accrue_loop marks multipliers [] l = l"
| "accrue_loop marks multipliers ((i, h) # ps) l =
     (case map_of marks i of
        None \<Rightarrow> accrue_loop marks multipliers ps l
      | Some mark \<Rightarrow>
          if h_quantity h = 0 then accrue_loop marks multipliers ps l
          else let l1 = (case map_of (ml_last_marks l) i of
                           None \<Rightarrow> l
                         | Some prior_mark \<Rightarrow>
                             l\<lparr>ml_variation_margin := dadd (ml_variation_margin l)
                                 (dmul (dmul (h_quantity h) (dsub mark prior_mark)) (dict_lookup multipliers i 1))\<rparr>)
               in accrue_loop marks multipliers ps
                    (l1\<lparr>ml_last_marks := AList.update i mark (ml_last_marks l1)\<rparr>))"

definition ml_state :: "margin_ledger \<Rightarrow> margin_state" where
  "ml_state l = \<lparr>ms_initial_margin = ml_initial_margin l, ms_maintenance_margin = ml_maintenance_margin l,
     ms_variation_margin = ml_variation_margin l\<rparr>"

definition ml_update ::
  "(instrument_id, holding) dict \<Rightarrow> (instrument_id, decimal) dict \<Rightarrow> (instrument_id, decimal) dict \<Rightarrow>
   margin_ledger \<Rightarrow> margin_state \<times> margin_ledger" where
  "ml_update positions marks multipliers l =
     (let l1 = accrue_loop marks multipliers positions l;
          requirement = margin_requirement (ml_calculator l1) positions marks multipliers (ml_account_equity l1);
          l2 = l1\<lparr>ml_initial_margin := mr_initial_margin requirement,
                  ml_maintenance_margin := mr_maintenance_margin requirement\<rparr>
      in (ml_state l2, l2))"

section \<open>Intraday PnL (\<open>risk/intraday_pnl.py\<close>)\<close>

record intraday_calculator =
  ic_session_id :: "string option"
  ic_realized_baseline :: "(instrument_id, decimal) dict"

definition ic_init :: intraday_calculator where
  "ic_init = \<lparr>ic_session_id = None, ic_realized_baseline = []\<rparr>"

definition start_session :: "string \<Rightarrow> (instrument_id, holding) dict \<Rightarrow> intraday_calculator \<Rightarrow> intraday_calculator" where
  "start_session sid holdings c = c\<lparr>ic_session_id := Some sid,
     ic_realized_baseline := map (\<lambda>(i, h). (i, h_realized_pnl h)) holdings\<rparr>"

fun intraday_loop ::
  "(instrument_id, decimal) dict \<Rightarrow> (instrument_id, decimal) dict \<Rightarrow> (instrument_id, decimal) dict \<Rightarrow>
   (instrument_id, holding) dict \<Rightarrow> decimal \<Rightarrow> decimal \<Rightarrow> decimal \<times> decimal" where
  "intraday_loop base marks multipliers [] realized unrealized = (realized, unrealized)"
| "intraday_loop base marks multipliers ((i, h) # hs) realized unrealized =
     (let realized' = dadd realized (dsub (h_realized_pnl h) (dict_lookup base i 0))
      in case map_of marks i of
           None \<Rightarrow> intraday_loop base marks multipliers hs realized' unrealized
         | Some mark \<Rightarrow>
             if h_quantity h = 0 then intraday_loop base marks multipliers hs realized' unrealized
             else intraday_loop base marks multipliers hs realized'
                    (dadd unrealized (unrealized_pnl h mark (dict_lookup multipliers i 1))))"

definition ic_compute ::
  "string \<Rightarrow> (instrument_id, holding) dict \<Rightarrow> (instrument_id, decimal) dict \<Rightarrow> (instrument_id, decimal) dict \<Rightarrow>
   intraday_calculator \<Rightarrow> decimal \<times> intraday_calculator" where
  "ic_compute sid holdings marks multipliers c =
     (let c1 = (if Some sid \<noteq> ic_session_id c then start_session sid holdings c else c)
      in case intraday_loop (ic_realized_baseline c1) marks multipliers holdings 0 0 of
           (realized, unrealized) \<Rightarrow> (dadd realized unrealized, c1))"

section \<open>Snapshots\<close>

record account_snapshot =
  as_cash :: "(string, decimal) dict"
  as_holdings :: "(instrument_id, holding) dict"
  as_account_id :: "account_id option"
  as_seen_fill_ids :: "string list"

definition mk_account_snapshot ::
  "(string, decimal) dict \<Rightarrow> (instrument_id, holding) dict option \<Rightarrow> (instrument_id, holding) dict option \<Rightarrow>
   account_id option \<Rightarrow> string list \<Rightarrow> account_snapshot" where
  "mk_account_snapshot cash holdings positions account seen =
     \<lparr>as_cash = cash,
      as_holdings = (case holdings of Some h \<Rightarrow> h | None \<Rightarrow> (case positions of Some p \<Rightarrow> p | None \<Rightarrow> [])),
      as_account_id = account, as_seen_fill_ids = seen\<rparr>"

record risk_state =
  rs_account_equity :: decimal
  rs_current_exposure :: decimal
  rs_notional :: "(instrument_id, decimal) dict"
  rs_position :: "(instrument_id, decimal) dict"
  rs_intraday_pnl :: decimal
  rs_current_margin_requirement :: decimal
  rs_available_margin :: decimal

definition risk_state_from_account ::
  "account_snapshot \<Rightarrow> (instrument_id, decimal) dict \<Rightarrow> (instrument_id, decimal) dict \<Rightarrow> decimal \<Rightarrow> decimal \<Rightarrow>
   decimal \<Rightarrow> margin_calculator option \<Rightarrow> risk_state res" where
  "risk_state_from_account snap marks multipliers intraday margin_req available calc =
     res_bind (valuate (as_cash snap) (as_holdings snap) marks multipliers None ''USD'') (\<lambda>v.
       let m = (case calc of None \<Rightarrow> (margin_req, available)
                | Some mc \<Rightarrow>
                    (let r = margin_requirement mc (as_holdings snap) marks multipliers (av_account_equity v)
                     in (mr_initial_margin r, mr_available_margin r)))
       in Inr \<lparr>rs_account_equity = av_account_equity v, rs_current_exposure = av_current_exposure v,
               rs_notional = av_notional v, rs_position = av_position v, rs_intraday_pnl = intraday,
               rs_current_margin_requirement = fst m, rs_available_margin = snd m\<rparr>)"

definition rs_current_position :: "risk_state \<Rightarrow> instrument_id \<Rightarrow> decimal" where
  "rs_current_position r i = dict_lookup (rs_position r) i 0"

section \<open>Cash movements\<close>

text \<open>
  What a client of a cash ledger relies on: a movement in a currency that normalizes adds its
  amount to that currency's balance and to no other, and a currency that does not normalize is
  refused with the ledger unchanged.
\<close>

locale cash_ledger =
  fixes post :: "string \<Rightarrow> decimal \<Rightarrow> 'b \<Rightarrow> ('b, unit) outcome"
    and bal :: "'b \<Rightarrow> string \<Rightarrow> decimal"
    and norm_ccy :: "string \<Rightarrow> string res"
  assumes post_ok: "norm_ccy c = Inr n \<Longrightarrow>
      \<exists>b'. post c d b = (Inr (), b') \<and> bal b' = (bal b)(n := dadd (bal b n) d)"
    and post_refused: "norm_ccy c = Inl e \<Longrightarrow> post c d b = (Inl e, b)"
begin

definition post_all :: "(string \<times> decimal) list \<Rightarrow> 'b \<Rightarrow> 'b" where
  "post_all ms b = foldl (\<lambda>b (c, d). snd (post c d b)) b ms"

lemma post_all_balance:
  "bal (post_all ms b) n = foldl dadd (bal b n) (map snd (filter (\<lambda>m. norm_ccy (fst m) = Inr n) ms))"
proof (induction ms arbitrary: b)
  case (Cons m ms)
  obtain c d where m: "m = (c, d)" by (cases m)
  show ?case
  proof (cases "norm_ccy c")
    case (Inl e)
    with Cons.IH [of b] m post_refused [OF Inl] show ?thesis by (simp add: post_all_def)
  next
    case (Inr n')
    from post_ok [OF this, of d b] obtain b' where
      "post c d b = (Inr (), b')" "bal b' = (bal b)(n' := dadd (bal b n') d)" by blast
    with Cons.IH [of b'] m Inr show ?thesis by (auto simp: post_all_def)
  qed
qed (simp add: post_all_def)

end

lemma normalize_idem: "normalize_currency c = Inr n \<Longrightarrow> normalize_currency n = Inr n \<and> upper (strip n) = n"
  by (auto simp: normalize_currency_def Let_def split: if_splits)

definition cb_code_balance :: "cash_book \<Rightarrow> string \<Rightarrow> decimal" where
  "cb_code_balance b n = dict_lookup b n 0"

lemma cb_balance_code: "normalize_currency c = Inr n \<Longrightarrow> cb_balance c b = Inr (cb_code_balance b n)"
  by (simp add: cb_balance_def cb_code_balance_def)

lemma cb_apply_delta_ok:
  assumes "normalize_currency c = Inr n"
  shows "cb_apply_delta c d b = (Inr (), AList.update n (dadd (cb_code_balance b n) d) b)"
  using assms normalize_idem [OF assms] by (simp add: cb_apply_delta_def cb_balance_code)

interpretation cash: cash_ledger cb_apply_delta cb_code_balance normalize_currency
proof
  show "\<exists>b'. cb_apply_delta c d b = (Inr (), b') \<and>
      cb_code_balance b' = (cb_code_balance b)(n := dadd (cb_code_balance b n) d)"
    if "normalize_currency c = Inr n" for c n d b
    using that by (simp add: cb_apply_delta_ok) (simp add: cb_code_balance_def dict_simps fun_eq_iff)
qed (simp add: cb_apply_delta_def)

lemma dsum_snoc: "dsum (xs @ [x]) = dadd (dsum xs) x"
  by (simp add: dsum_def)

lemma rb_reserve_fresh:
  assumes "0 \<le> amount" "map_of b rid = None" "normalize_currency c = Inr n"
  shows "rb_reserve rid c amount b =
    (Inr (), b @ [(rid, \<lparr>rv_reservation_id = rid, rv_currency = n, rv_amount = amount\<rparr>)])"
  using assms update_append_new [of rid b] by (simp add: rb_reserve_def map_of_eq_None_iff)

section \<open>Rounded sums\<close>

lemma foldl_dadd_abs:
  "list_all2 (\<lambda>x y. \<bar>x\<bar> \<le> y) xs ys \<Longrightarrow> \<bar>a\<bar> \<le> b \<Longrightarrow> \<bar>foldl dadd a xs\<bar> \<le> foldl dadd b ys"
  by (induction xs ys arbitrary: a b rule: list_all2_induct) (auto intro: dadd_abs_le)

lemma marked_value_abs: "\<bar>marked_value marks ms ih\<bar> \<le> dabs (marked_value marks ms ih)"
  by (auto simp: marked_value_def dabs_dmul split: option.splits)

lemma holding_equity_le_exposure:
  "\<bar>dsum (map (marked_value marks ms) hs)\<bar> \<le> dsum (map (\<lambda>ih. dabs (marked_value marks ms ih)) hs)"
  unfolding dsum_def
  by (rule foldl_dadd_abs) (simp_all add: list_all2_conv_all_nth marked_value_abs)

text \<open>Marks and multipliers of a market without negative prices.\<close>

definition nonneg_prices :: "(instrument_id, decimal) dict \<Rightarrow> (instrument_id, decimal) dict \<Rightarrow> bool" where
  "nonneg_prices marks multipliers \<longleftrightarrow>
     list_all (\<lambda>p. 0 \<le> snd p) marks \<and> list_all (\<lambda>p. 0 \<le> snd p) multipliers"

lemma dict_all_lookup: "list_all (\<lambda>p. P (snd p)) d \<Longrightarrow> map_of d k = Some v \<Longrightarrow> P v"
  by (force dest: map_of_SomeD simp: list_all_iff)

lemma margin_loop_order:
  assumes "nonneg_prices marks ms" and "0 \<le> mc_maintenance_margin_rate mc"
    and "mc_maintenance_margin_rate mc \<le> mc_initial_margin_rate mc"
  shows "0 \<le> m0 \<Longrightarrow> m0 \<le> i0 \<Longrightarrow>
    0 \<le> snd (margin_loop mc marks ms ps i0 m0) \<and>
    snd (margin_loop mc marks ms ps i0 m0) \<le> fst (margin_loop mc marks ms ps i0 m0)"
proof (induction ps arbitrary: i0 m0)
  case (Cons p ps)
  obtain i h where p: "p = (i, h)" by (cases p)
  show ?case
  proof (cases "map_of marks i")
    case (Some mark)
    define v where "v = dmul (dmul (dabs (h_quantity h)) mark) (dict_lookup ms i 1)"
    have "0 \<le> mark" using Some assms(1) dict_all_lookup [of "\<lambda>x. 0 \<le> x" marks]
      by (auto simp: nonneg_prices_def)
    moreover have "0 \<le> dict_lookup ms i 1"
      using assms(1) dict_all_lookup [of "\<lambda>x. 0 \<le> x" ms]
      by (auto simp: nonneg_prices_def dict_lookup_def split: option.splits)
    ultimately have "0 \<le> v" by (simp add: v_def)
    then have "0 \<le> dadd m0 (dmul v (mc_maintenance_margin_rate mc))"
      "dadd m0 (dmul v (mc_maintenance_margin_rate mc)) \<le> dadd i0 (dmul v (mc_initial_margin_rate mc))"
      using Cons.prems assms(2,3) by (auto intro!: dec_mono add_nonneg_nonneg)
    with Cons Some p show ?thesis by (simp add: v_def [symmetric] Let_def)
  qed (use Cons p in simp)
qed simp

lemma convert_loop_fails:
  "convert_loop b r cs t = Inl e \<Longrightarrow>
    \<exists>rs c. r = Some rs \<and> c \<in> set (dict_keys cs) \<and> upper (strip c) \<noteq> b \<and> map_of rs (upper (strip c)) = None"
proof (induction cs arbitrary: t)
  case (Cons p cs)
  obtain c x where p: "p = (c, x)" by (cases p)
  show ?case
  proof (cases "\<exists>rs. r = Some rs \<and> upper (strip c) \<noteq> b \<and> map_of rs (upper (strip c)) = None")
    case True
    then show ?thesis using p by auto
  next
    case False
    with Cons.prems p obtain t' where "convert_loop b r cs t' = Inl e"
      by (auto simp: Let_def split: if_splits option.splits)
    from Cons.IH [OF this] show ?thesis using p by auto
  qed
qed simp

lemma intraday_unrealized:
  "snd (intraday_loop base marks multipliers hs r u) = snd (intraday_loop base' marks multipliers hs r' u)"
  by (induction hs arbitrary: r r' u) (auto simp: Let_def split: option.splits)

text \<open>Against the baseline just captured from the same holdings nothing has been realized.\<close>

lemma intraday_realized_zero:
  assumes "dict_wf holdings"
  shows "set hs \<subseteq> set holdings \<Longrightarrow>
    fst (intraday_loop (map (\<lambda>(i, h). (i, h_realized_pnl h)) holdings) marks multipliers hs 0 u) = 0"
proof (induction hs arbitrary: u)
  case (Cons p hs)
  obtain i h where p: "p = (i, h)" by (cases p)
  have "map_of holdings i = Some h" using Cons.prems assms p by (simp add: map_of_eq_Some_iff)
  then have "dict_lookup (map (\<lambda>(i, h). (i, h_realized_pnl h)) holdings) i 0 = h_realized_pnl h"
    by (simp add: dict_lookup_def map_of_map)
  with Cons p show ?case by (auto simp: Let_def dadd_def split: option.splits)
qed simp

section \<open>Properties\<close>

text \<open>Cash movements: after any sequence of deltas, in whatever spelling of the currency codes,
  the balance of a currency is its opening balance plus its own deltas in order, rounded as the
  code rounds; deltas in other currencies and refused deltas (blank currency) leave it alone.\<close>

theorem cash_movements:
  assumes "normalize_currency c = Inr n"
  shows "cb_balance c (foldl (\<lambda>b (c', d). snd (cb_apply_delta c' d b)) b ms) =
     Inr (foldl dadd (dict_lookup b n 0)
       (map snd (filter (\<lambda>m. normalize_currency (fst m) = Inr n) ms)))"
  using cash.post_all_balance [of ms b n] cb_balance_code [OF assms]
  by (simp add: cash.post_all_def cb_code_balance_def)

theorem cash_movements_witness:
  "cb_balance ''usd '' (foldl (\<lambda>b (c', d). snd (cb_apply_delta c' d b)) [(''USD'', 10)]
      [(''usd'', 5), (''EUR'', 7), ('' '', 3), ('' Usd'', -1)]) = Inr 14"
  by (subst cash_movements [of _ "''USD''"], code_simp, code_simp)

text \<open>Opening balances are not normalized: a balance the book is constructed with under a code
  that is not already trimmed and upper case is invisible to every balance query, because
  queries normalize the code and the constructor does not.\<close>

theorem opening_balance_not_normalized:
  assumes "upper (strip k) \<noteq> k"
  shows "cb_balance c (cb_init (Some (AList.update k v b))) = cb_balance c (cb_init (Some b))"
  using assms by (auto simp: cb_balance_def cb_init_def res_bind_def dict_simps
      dest: normalize_idem split: sum.splits)

theorem opening_balance_not_normalized_witness:
  "cb_balance ''usd'' (cb_init (Some [(''usd'', 100)])) = Inr 0"
proof -
  have "upper (strip ''usd'') \<noteq> ''usd''" by code_simp
  from opening_balance_not_normalized [OF this, of "''usd''" 100 "[]"]
  have "cb_balance ''usd'' (cb_init (Some [(''usd'', 100)])) = cb_balance ''usd'' (cb_init (Some []))"
    by simp
  also have "\<dots> = Inr 0" by code_simp
  finally show ?thesis .
qed

text \<open>Reservations are idempotent by order id and reversible: a fresh non-negative reservation
  adds exactly its amount to its currency and nothing to the others, repeating it (with any
  currency and amount) changes nothing, and releasing it gives the book back as it was.\<close>

theorem reservation_cycle:
  assumes "0 \<le> amount" "map_of b rid = None" "normalize_currency c = Inr n"
    and b': "rb_reserve rid c amount b = (r, b')"
  shows "r = Inr () \<and>
    (\<forall>c'. rb_reserved c' b' =
       (if normalize_currency c' = Inr n then res_bind (rb_reserved c' b) (\<lambda>v. Inr (dadd v amount))
        else rb_reserved c' b)) \<and>
    (\<forall>c' amount'. 0 \<le> amount' \<longrightarrow> rb_reserve rid c' amount' b' = (Inr (), b')) \<and>
    rb_release rid b' = b"
proof -
  have "r = Inr ()" and b'_eq: "b' = b @ [(rid, \<lparr>rv_reservation_id = rid, rv_currency = n, rv_amount = amount\<rparr>)]"
    using rb_reserve_fresh [OF assms(1-3)] b' by auto
  moreover have "rid \<notin> fst ` set b" using assms(2) by (simp add: map_of_eq_None_iff)
  moreover from this have "AList.delete rid b' = b"
    unfolding b'_eq by (induction b) auto
  moreover have "map_of b' rid \<noteq> None" by (simp add: b'_eq map_of_eq_None_iff)
  ultimately show ?thesis
    by (auto simp: rb_reserved_def res_bind_def dsum_snoc rb_release_def rb_reserve_def split: sum.splits)
qed

theorem reservation_cycle_witness:
  "rb_release ''o1'' (snd (rb_reserve ''o1'' ''usd'' 5 [])) = []"
proof -
  have "normalize_currency ''usd'' = Inr ''USD''" by code_simp
  from reservation_cycle [OF _ _ this, of 5 "[]" "''o1''"] show ?thesis
    by (cases "rb_reserve ''o1'' ''usd'' 5 []") simp
qed

text \<open>Valuation: a valuation fails only when FX rates are given and a cash currency other
  than the base has none; otherwise the account equity lies within the gross exposure of the
  converted cash on both sides, rounding included, and exposure and notionals are not negative.\<close>

theorem valuation_bounds:
  "case valuate cash hs marks ms fx base of
      Inl e \<Rightarrow> \<exists>rates c. fx = Some rates \<and> c \<in> set (dict_keys cash) \<and> upper (strip c) \<noteq> upper (strip base) \<and>
             upper (strip c) \<notin> set (map (\<lambda>k. upper (strip k)) (dict_keys rates))
    | Inr v \<Rightarrow> \<exists>cash_total. convert_cash cash fx base = Inr cash_total \<and>
        dsub cash_total (av_current_exposure v) \<le> av_account_equity v \<and>
        av_account_equity v \<le> dadd cash_total (av_current_exposure v) \<and>
        0 \<le> av_current_exposure v \<and> list_all (\<lambda>p. 0 \<le> snd p) (av_notional v)"
proof (cases "convert_cash cash fx base")
  case (Inl e)
  from convert_loop_fails [OF this [unfolded convert_cash_def]] obtain rates c where
    "fx = Some rates" "c \<in> set (dict_keys cash)" "upper (strip c) \<noteq> upper (strip base)"
    "map_of (dict_of (map (\<lambda>(c, r). (upper (strip c), r)) rates)) (upper (strip c)) = None"
    by (cases fx) auto
  then have "\<exists>rates c. fx = Some rates \<and> c \<in> set (dict_keys cash) \<and> upper (strip c) \<noteq> upper (strip base) \<and>
             upper (strip c) \<notin> set (map (\<lambda>k. upper (strip k)) (dict_keys rates))"
    by (intro exI [of _ rates] exI [of _ c])
       (auto simp: map_of_dict_of map_of_eq_None_iff image_iff)
  with Inl show ?thesis by (simp add: valuate_def)
next
  case (Inr t)
  define H where "H = dsum (map (marked_value marks ms) hs)"
  define X where "X = dsum (map (\<lambda>ih. dabs (marked_value marks ms ih)) hs)"
  have "\<bar>H\<bar> \<le> X" unfolding H_def X_def by (rule holding_equity_le_exposure)
  then have "dsub t X \<le> dadd t H" "dadd t H \<le> dadd t X" "0 \<le> X"
    by (auto simp: dec_simps intro!: ctx_round_mono)
  then show ?thesis
    by (simp add: valuate_def Inr Let_def comp_def H_def [symmetric] X_def [symmetric] list_all_iff)
qed

text \<open>Margin requirements: with any validated pair of rates, non-negative marks and
  multipliers, the maintenance margin is never above the initial margin and neither is negative.\<close>

theorem maintenance_within_initial:
  assumes "mk_margin_calculator ir mr = Inr mc" and "nonneg_prices marks multipliers"
  shows "0 \<le> mr_maintenance_margin (margin_requirement mc ps marks multipliers eq) \<and>
     mr_maintenance_margin (margin_requirement mc ps marks multipliers eq)
       \<le> mr_initial_margin (margin_requirement mc ps marks multipliers eq)"
proof -
  have "0 \<le> mc_maintenance_margin_rate mc" "mc_maintenance_margin_rate mc \<le> mc_initial_margin_rate mc"
    using assms(1) by (auto simp: ctor_simps split: if_splits)
  from margin_loop_order [OF assms(2) this, of 0 0 ps] show ?thesis
    by (simp add: margin_requirement_def case_prod_unfold)
qed

theorem maintenance_within_initial_witness:
  "let r = margin_requirement default_margin_calculator
       [(''ES'', (flat_holding ''ES'' AVERAGE)\<lparr>h_quantity := -2\<rparr>)] [(''ES'', 5000)] [(''ES'', 50)] 100000
   in mr_maintenance_margin r \<le> mr_initial_margin r"
  using maintenance_within_initial [of "5 / 100" "4 / 100" default_margin_calculator
      "[(''ES'', 5000)]" "[(''ES'', 50)]"]
  by (simp add: ctor_simps default_margin_calculator_def nonneg_prices_def Let_def)

text \<open>Variation margin across a flat period: the ledger does not forget the last mark when a
  position goes flat, so when the instrument is held again the move made while nothing was held is
  settled against the new position.\<close>

theorem variation_margin_over_flat_period:
  assumes "q \<noteq> 0" "q' \<noteq> 0"
  shows "let pos = (\<lambda>x. [(i, (flat_holding i AVERAGE)\<lparr>h_quantity := x\<rparr>)]);
             l1 = snd (ml_update (pos q) [(i, p1)] [(i, m)] (ml_init calc eq));
             l2 = snd (ml_update (pos 0) [(i, p2)] [(i, m)] l1);
             l3 = snd (ml_update (pos q') [(i, p2)] [(i, m)] l2)
         in ml_variation_margin l2 = 0 \<and> ml_variation_margin l3 = dmul (dmul q' (dsub p2 p1)) m"
  using assms
  by (simp add: ml_update_def ml_init_def Let_def dict_lookup_def dadd_def) (simp add: dmul_def)

theorem variation_margin_over_flat_period_witness:
  "let pos = (\<lambda>x. [(''ES'', (flat_holding ''ES'' AVERAGE)\<lparr>h_quantity := x\<rparr>)]);
       l1 = snd (ml_update (pos 1) [(''ES'', 100)] [(''ES'', 1)] (ml_init None 0));
       l2 = snd (ml_update (pos 0) [(''ES'', 150)] [(''ES'', 1)] l1);
       l3 = snd (ml_update (pos 1) [(''ES'', 150)] [(''ES'', 1)] l2)
   in ml_variation_margin l3 = 50"
  using variation_margin_over_flat_period [of 1 1 "''ES''" 100 1 None 0 150]
  by (simp add: Let_def dec_simps)

text \<open>Building the risk state never raises: an account whose equity is zero or negative gets a
  risk state too, with that equity in it.\<close>

theorem risk_state_total:
  "\<exists>r v. risk_state_from_account snap marks multipliers intraday req avail calc = Inr r \<and>
     valuate (as_cash snap) (as_holdings snap) marks multipliers None ''USD'' = Inr v \<and>
     rs_account_equity r = av_account_equity v"
proof -
  obtain t where "convert_cash (as_cash snap) None ''USD'' = Inr t"
    using convert_loop_fails [of "upper (strip ''USD'')" None "as_cash snap" 0]
    by (cases "convert_cash (as_cash snap) None ''USD''") (auto simp: convert_cash_def)
  then show ?thesis by (simp add: risk_state_from_account_def valuate_def Let_def)
qed

text \<open>A new session starts its loss window at zero realized PnL: the first figure computed for
  a session is the unrealized PnL alone, whatever was realized before, and the baseline is kept
  for the rest of the session.\<close>

theorem intraday_window_resets:
  assumes "ic_session_id c \<noteq> Some sid" and "dict_wf holdings"
  shows "fst (ic_compute sid holdings marks multipliers c) =
      dadd 0 (snd (intraday_loop [] marks multipliers holdings 0 0)) \<and>
    snd (ic_compute sid holdings' marks' multipliers' (snd (ic_compute sid holdings marks multipliers c))) =
      snd (ic_compute sid holdings marks multipliers c)"
  using assms(1) intraday_realized_zero [OF assms(2) subset_refl, of marks multipliers 0]
    intraday_unrealized [of "map (\<lambda>(i, h). (i, h_realized_pnl h)) holdings" marks multipliers holdings 0 0 "[]" 0]
  by (simp add: ic_compute_def start_session_def Let_def case_prod_unfold)

theorem intraday_window_resets_witness:
  "fst (ic_compute ''d2'' [(''ES'', (flat_holding ''ES'' AVERAGE)\<lparr>h_realized_pnl := -500\<rparr>)] [] []
      \<lparr>ic_session_id = Some ''d1'', ic_realized_baseline = []\<rparr>) = 0"
  using intraday_window_resets [of "\<lparr>ic_session_id = Some ''d1'', ic_realized_baseline = []\<rparr>" "''d2''"
      "[(''ES'', (flat_holding ''ES'' AVERAGE)\<lparr>h_realized_pnl := -500\<rparr>)]" "[]" "[]"]
  by simp

end
