(* ===== verification/Risk_Control.thy ===== *)
theory Risk_Control
  imports Portfolio_Books
begin

text \<open>
  The pre-trade gate: risk configuration, the twelve rules of \<open>risk/rules\<close>, the registry that builds
  them, \<open>RiskEngine\<close> (first rejection wins) and the kill-switch registry. A rule is a value of the
  datatype \<open>risk_rule\<close> and \<open>rule_check\<close> dispatches to its \<open>check\<close> method. The session calendar of
  \<open>TradingSessionRule\<close> is an argument of the rule, as in the code.
\<close>

section \<open>Configuration (\<open>risk/config.py\<close>)\<close>

datatype risk_rule_name =
  POSITION_LIMIT | LEVERAGE_LIMIT | INTRADAY_LOSS_LIMIT | CONCENTRATION_LIMIT | MAX_NOTIONAL
| MAX_ORDER_QTY | VOLATILITY_ADJUSTED_SIZING | MARGIN_LIMIT | MARKET_DATA_PERMISSION
| MARKET_DATA_FRESHNESS | ORDER_SPEC_VALIDITY

fun rule_name_value :: "risk_rule_name \<Rightarrow> string" where
  "rule_name_value POSITION_LIMIT = ''position_limit''"
| "rule_name_value LEVERAGE_LIMIT = ''leverage_limit''"
| "rule_name_value INTRADAY_LOSS_LIMIT = ''intraday_loss_limit''"
| "rule_name_value CONCENTRATION_LIMIT = ''concentration_limit''"
| "rule_name_value MAX_NOTIONAL = ''max_notional''"
| "rule_name_value MAX_ORDER_QTY = ''max_order_quantity''"
| "rule_name_value VOLATILITY_ADJUSTED_SIZING = ''volatility_adjusted_sizing''"
| "rule_name_value MARGIN_LIMIT = ''margin_limit''"
| "rule_name_value MARKET_DATA_PERMISSION = ''market_data_permission''"
| "rule_name_value MARKET_DATA_FRESHNESS = ''market_data_freshness''"
| "rule_name_value ORDER_SPEC_VALIDITY = ''order_spec_validity''"

definition all_rule_names :: "risk_rule_name list" where
  "all_rule_names = [POSITION_LIMIT, LEVERAGE_LIMIT, INTRADAY_LOSS_LIMIT, CONCENTRATION_LIMIT,
     MAX_NOTIONAL, MAX_ORDER_QTY, VOLATILITY_ADJUSTED_SIZING, MARGIN_LIMIT, MARKET_DATA_PERMISSION,
     MARKET_DATA_FRESHNESS, ORDER_SPEC_VALIDITY]"

definition rule_name_of_value :: "string \<Rightarrow> risk_rule_name res" where
  "rule_name_of_value v =
     (case find (\<lambda>n. rule_name_value n = v) all_rule_names of
        Some n \<Rightarrow> Inr n
      | None \<Rightarrow> Inl (ValueError (v @ '' is not a valid RiskRuleName'')))"

record rule_config =
  rc_rule_id :: string
  rc_name :: risk_rule_name
  rc_params :: "(string, decimal) dict"

text \<open>\<open>RiskRuleConfig(rule_id, name, params)\<close> with the name given as a plain string.\<close>

definition mk_rule_config :: "string \<Rightarrow> string \<Rightarrow> (string, decimal) dict \<Rightarrow> rule_config res" where
  [ctor_simps]: "mk_rule_config rule_id name params =
     (if blank rule_id then Inl (ValueError ''rule_id must not be empty'')
      else res_bind (rule_name_of_value name) (\<lambda>n.
        Inr \<lparr>rc_rule_id = rule_id, rc_name = n, rc_params = params\<rparr>))"

record risk_config =
  cfg_account_id :: string
  cfg_max_notional :: decimal
  cfg_max_leverage :: decimal
  cfg_rules :: "rule_config list"
  cfg_product_rules :: "(string, rule_config list) dict"

definition mk_risk_config :: "risk_config \<Rightarrow> risk_config res" where
  [ctor_simps]: "mk_risk_config c = checked
     [(blank (cfg_account_id c), ValueError ''account_id must not be empty''),
      (cfg_max_notional c \<le> 0, ValueError ''max_notional must be positive''),
      (cfg_max_leverage c \<le> 0, ValueError ''max_leverage must be positive'')] c"

section \<open>Rules (\<open>risk/rules\<close>)\<close>

text \<open>The brokerage assumptions risk reads (\<open>BrokerageRiskPolicy\<close>).\<close>

record brokerage_policy =
  bp_requires_live_market_data :: bool
  bp_supported_order_types :: "order_type list"

datatype risk_rule =
    PositionLimitRule decimal
  | LeverageLimitRule decimal
  | IntradayLossLimitRule decimal
  | ConcentrationLimitRule decimal
  | MaxNotionalRule decimal
  | MaxOrderQuantityRule decimal
  | VolatilityAdjustedSizingRule decimal
  | MarginRule
  | MarketDataPermissionRiskRule
  | MarketDataFreshnessRiskRule bool
  | OrderSpecValidityRule string "brokerage_policy option"
  | TradingSessionRule "string \<Rightarrow> int \<Rightarrow> time_interval res" string int

text \<open>The \<open>__post_init__\<close> of each rule.\<close>

fun mk_rule :: "risk_rule \<Rightarrow> risk_rule res" where
  "mk_rule (PositionLimitRule m) =
     checked [(m \<le> 0, ValueError ''max_position must be positive'')] (PositionLimitRule m)"
| "mk_rule (LeverageLimitRule m) =
     checked [(m \<le> 0, ValueError ''max_leverage must be positive'')] (LeverageLimitRule m)"
| "mk_rule (IntradayLossLimitRule m) =
     checked [(m \<le> 0, ValueError ''max_loss must be positive'')] (IntradayLossLimitRule m)"
| "mk_rule (ConcentrationLimitRule f) =
     checked [(f \<le> 0 \<or> f > 1, ValueError ''max_fraction must be in (0, 1]'')] (ConcentrationLimitRule f)"
| "mk_rule (MaxNotionalRule m) =
     checked [(m \<le> 0, ValueError ''max_notional must be positive'')] (MaxNotionalRule m)"
| "mk_rule (MaxOrderQuantityRule m) =
     checked [(m \<le> 0, ValueError ''max_quantity must be positive'')] (MaxOrderQuantityRule m)"
| "mk_rule (VolatilityAdjustedSizingRule m) =
     checked [(m \<le> 0, ValueError ''max_notional_per_volatility must be positive'')] (VolatilityAdjustedSizingRule m)"
| "mk_rule r = Inr r"

definition check_position_limit :: "decimal \<Rightarrow> risk_request \<Rightarrow> risk_decision res" where
  [op_simps]: "check_position_limit max_position r =
     (let projected = (case rq_signed_quantity_delta r of
                         Some d \<Rightarrow> dabs (dadd (rq_current_position r) d)
                       | None \<Rightarrow> dadd (dabs (rq_current_position r)) (rq_quantity r));
          evidence = [(''current_position'', EvNum (rq_current_position r)),
                      (''order_quantity'', EvNum (rq_quantity r)),
                      (''projected_position'', EvNum projected),
                      (''max_position'', EvNum max_position)]
      in if projected > max_position then
           rejected ''POSITION_LIMIT_EXCEEDED''
             [Lit ''projected position '', Num projected, Lit '' exceeds max '', Num max_position]
             (Some ''position_limit'') (rq_contributing_strategy_ids r) evidence
         else Inr (approve (Some ''position_limit'') (rq_contributing_strategy_ids r) evidence))"

definition check_leverage_limit :: "decimal \<Rightarrow> risk_request \<Rightarrow> risk_decision res" where
  [op_simps]: "check_leverage_limit max_leverage r =
     (case rq_account_equity r of
        None \<Rightarrow> rejected ''ACCOUNT_EQUITY_REQUIRED'' [Lit ''account_equity is required for leverage risk'']
                  (Some ''leverage_limit'') (rq_contributing_strategy_ids r) []
      | Some equity \<Rightarrow>
          if equity = 0 then Inl DivisionByZero else
          let projected_exposure = dadd (rq_current_exposure r) (notional r);
              projected_leverage = ddiv projected_exposure equity;
              evidence = [(''account_equity'', EvNum equity),
                          (''current_exposure'', EvNum (rq_current_exposure r)),
                          (''order_notional'', EvNum (notional r)),
                          (''projected_exposure'', EvNum projected_exposure),
                          (''projected_leverage'', EvNum projected_leverage),
                          (''max_leverage'', EvNum max_leverage)]
          in if projected_leverage > max_leverage then
               rejected ''LEVERAGE_LIMIT_EXCEEDED''
                 [Lit ''projected leverage '', Num projected_leverage, Lit '' exceeds max '', Num max_leverage]
                 (Some ''leverage_limit'') (rq_contributing_strategy_ids r) evidence
             else Inr (approve (Some ''leverage_limit'') (rq_contributing_strategy_ids r) evidence))"

definition check_intraday_loss_limit :: "decimal \<Rightarrow> risk_request \<Rightarrow> risk_decision res" where
  [op_simps]: "check_intraday_loss_limit max_loss r =
     (case rq_intraday_pnl r of
        None \<Rightarrow> rejected ''INTRADAY_PNL_REQUIRED'' [Lit ''intraday_pnl is required for intraday loss risk'']
                  (Some ''intraday_loss_limit'') (rq_contributing_strategy_ids r) []
      | Some pnl \<Rightarrow>
          let evidence = [(''intraday_pnl'', EvNum pnl), (''max_loss'', EvNum max_loss)]
          in if pnl < dneg max_loss then
               rejected ''INTRADAY_LOSS_LIMIT_EXCEEDED''
                 [Lit ''intraday PnL '', Num pnl, Lit '' exceeds max loss '', Num max_loss]
                 (Some ''intraday_loss_limit'') (rq_contributing_strategy_ids r) evidence
             else Inr (approve (Some ''intraday_loss_limit'') (rq_contributing_strategy_ids r) evidence))"

definition check_concentration_limit :: "decimal \<Rightarrow> risk_request \<Rightarrow> risk_decision res" where
  [op_simps]: "check_concentration_limit max_fraction r =
     (case rq_account_equity r of
        None \<Rightarrow> rejected ''ACCOUNT_EQUITY_REQUIRED'' [Lit ''account_equity is required for concentration risk'']
                  (Some ''concentration_limit'') (rq_contributing_strategy_ids r) []
      | Some equity \<Rightarrow>
          if equity = 0 then Inl DivisionByZero else
          let by_instrument = (case rq_current_notional_by_instrument r of None \<Rightarrow> [] | Some m \<Rightarrow> m);
              current_notional = dict_lookup by_instrument (rq_instrument_id r) 0;
              projected_notional = dadd current_notional (notional r);
              projected_fraction = ddiv projected_notional equity;
              evidence = [(''account_equity'', EvNum equity),
                          (''current_instrument_notional'', EvNum current_notional),
                          (''order_notional'', EvNum (notional r)),
                          (''projected_instrument_notional'', EvNum projected_notional),
                          (''projected_fraction'', EvNum projected_fraction),
                          (''max_fraction'', EvNum max_fraction)]
          in if projected_fraction > max_fraction then
               rejected ''CONCENTRATION_LIMIT_EXCEEDED''
                 [Lit ''projected concentration '', Num projected_fraction, Lit '' exceeds max '', Num max_fraction]
                 (Some ''concentration_limit'') (rq_contributing_strategy_ids r) evidence
             else Inr (approve (Some ''concentration_limit'') (rq_contributing_strategy_ids r) evidence))"

definition check_max_notional :: "decimal \<Rightarrow> risk_request \<Rightarrow> risk_decision res" where
  [op_simps]: "check_max_notional max_notional r =
     (if notional r > max_notional then
        rejected ''MAX_NOTIONAL_EXCEEDED''
          [Lit ''order notional '', Num (notional r), Lit '' exceeds max '', Num max_notional]
          (Some ''max_notional'') [] []
      else Inr (approve (Some ''max_notional'') [] []))"

definition check_max_order_qty :: "decimal \<Rightarrow> risk_request \<Rightarrow> risk_decision res" where
  [op_simps]: "check_max_order_qty max_quantity r =
     (if rq_quantity r > max_quantity then
        rejected ''MAX_ORDER_QTY_EXCEEDED''
          [Lit ''order quantity '', Num (rq_quantity r), Lit '' exceeds max '', Num max_quantity]
          (Some ''max_order_quantity'') [] []
      else Inr (approve (Some ''max_order_quantity'') [] []))"

definition check_volatility_sizing :: "decimal \<Rightarrow> risk_request \<Rightarrow> risk_decision res" where
  [op_simps]: "check_volatility_sizing per_volatility r =
     (case rq_volatility r of
        None \<Rightarrow> rejected ''VOLATILITY_REQUIRED'' [Lit ''volatility is required for volatility-adjusted sizing risk'']
                  (Some ''volatility_adjusted_sizing'') (rq_contributing_strategy_ids r) []
      | Some vol \<Rightarrow>
          let max_notional = (if vol = 0 then per_volatility else ddiv per_volatility vol);
              evidence = [(''order_notional'', EvNum (notional r)), (''volatility'', EvNum vol),
                          (''max_notional'', EvNum max_notional),
                          (''max_notional_per_volatility'', EvNum per_volatility)]
          in if notional r > max_notional then
               rejected ''VOLATILITY_ADJUSTED_SIZE_EXCEEDED''
                 [Lit ''order notional '', Num (notional r), Lit '' exceeds volatility-adjusted max '', Num max_notional]
                 (Some ''volatility_adjusted_sizing'') (rq_contributing_strategy_ids r) evidence
             else Inr (approve (Some ''volatility_adjusted_sizing'') (rq_contributing_strategy_ids r) evidence))"

definition check_margin :: "risk_request \<Rightarrow> risk_decision res" where
  [op_simps]: "check_margin r =
     (case (rq_projected_initial_margin r, rq_available_margin r) of
        (Some projected, Some available) \<Rightarrow>
          (let evidence = [(''current_margin'', EvNum (case rq_current_margin_requirement r of None \<Rightarrow> 0 | Some m \<Rightarrow> m)),
                           (''projected_margin'', EvNum projected), (''available_margin'', EvNum available)]
           in if projected > available then
                rejected ''MARGIN_LIMIT_EXCEEDED''
                  [Lit ''projected initial margin '', Num projected, Lit '' exceeds available margin '', Num available]
                  (Some ''margin_limit'') (rq_contributing_strategy_ids r) evidence
              else Inr (approve (Some ''margin_limit'') (rq_contributing_strategy_ids r) evidence))
      | _ \<Rightarrow> rejected ''MARGIN_CONTEXT_REQUIRED'' [Lit ''projected and available margin are required for margin risk'']
               (Some ''margin_limit'') (rq_contributing_strategy_ids r) [])"

definition check_freshness :: "bool \<Rightarrow> risk_request \<Rightarrow> risk_decision res" where
  [op_simps]: "check_freshness require_market_data_context r =
     (case rq_market_data r of
        None \<Rightarrow>
          if require_market_data_context then
            rejected ''MARKET_DATA_CONTEXT_REQUIRED''
              [Lit ''market-data context is required for live order submission'']
              (Some ''market_data_freshness'') (rq_contributing_strategy_ids r) [(''market_data'', EvDict [])]
          else Inr (approve (Some ''market_data_freshness'') (rq_contributing_strategy_ids r) [])
      | Some ctx \<Rightarrow>
          if md_stale ctx then
            rejected ''MARKET_DATA_STALE'' [Lit ''market data is stale'']
              (Some ''market_data_freshness'') (rq_contributing_strategy_ids r)
              [(''market_data'', EvDict (evidence_payload ctx))]
          else Inr (approve (Some ''market_data_freshness'') (rq_contributing_strategy_ids r)
              [(''market_data'', EvDict (evidence_payload ctx))]))"

definition permission_rejected :: "string \<Rightarrow> string \<Rightarrow> market_data_context option \<Rightarrow> risk_request \<Rightarrow> risk_decision res" where
  [op_simps]: "permission_rejected code reason ctx r =
     rejected code [Lit reason] (Some ''market_data_permission'') (rq_contributing_strategy_ids r)
       [(''market_data'', EvDict (case ctx of None \<Rightarrow> [] | Some c \<Rightarrow> evidence_payload c))]"

definition check_permission :: "risk_request \<Rightarrow> risk_decision res" where
  [op_simps]: "check_permission r =
     (case rq_market_data r of
        None \<Rightarrow> permission_rejected ''MARKET_DATA_PERMISSION_UNKNOWN''
                  ''market-data permission state is unknown'' None r
      | Some ctx \<Rightarrow>
         (case md_permission_state ctx of
            None \<Rightarrow> permission_rejected ''MARKET_DATA_PERMISSION_UNKNOWN''
                      ''market-data permission state is unknown'' (Some ctx) r
          | Some state \<Rightarrow>
              if state = ''live'' then
                Inr (approve (Some ''market_data_permission'') (rq_contributing_strategy_ids r) [])
              else if state = ''delayed'' \<or> state = ''delayed_frozen'' then
                permission_rejected ''MARKET_DATA_DELAYED_FOR_LIVE_ORDER''
                  ''delayed market data cannot support live order submission'' (Some ctx) r
              else if state = ''frozen'' then
                permission_rejected ''MARKET_DATA_FROZEN_FOR_LIVE_ORDER''
                  ''frozen market data cannot support live order submission'' (Some ctx) r
              else if state = ''unavailable'' then
                permission_rejected ''MARKET_DATA_UNAVAILABLE'' ''market data is unavailable'' (Some ctx) r
              else permission_rejected ''MARKET_DATA_PERMISSION_UNKNOWN''
                     ''market-data permission state is unknown'' (Some ctx) r))"

text \<open>
  \<open>OrderSpecValidityRule._validate_bracket\<close>: the reason, if any. The set of leg sides of a bracket
  without legs is empty and \<open>next(iter(sides))\<close> would raise; \<open>BracketSpec\<close> does not allow it.
\<close>

definition validate_bracket :: "risk_request \<Rightarrow> ftext option res" where
  "validate_bracket r =
     (case os_bracket (rq_order_spec r) of
        None \<Rightarrow> Inr None
      | Some legs \<Rightarrow>
          if BUY \<in> set (map leg_side legs) \<and> SELL \<in> set (map leg_side legs) then
            Inr (Some [Lit ''bracket exit legs must share a single side (OCO exits one direction)''])
          else case legs of
            [] \<Rightarrow> Inl StopIteration
          | first # _ \<Rightarrow>
             (case find (\<lambda>leg. leg_quantity leg \<noteq> rq_quantity r) legs of
                Some leg \<Rightarrow> Inr (Some [Lit ''bracket leg quantity '', Num (leg_quantity leg),
                              Lit '' must equal parent quantity '', Num (rq_quantity r)])
              | None \<Rightarrow>
                 (case rq_signed_quantity_delta r of
                    None \<Rightarrow> Inr None
                  | Some d \<Rightarrow>
                      let expected = (if d > 0 then SELL else BUY)
                      in if leg_side first \<noteq> expected then
                           Inr (Some [Lit ''bracket exit side '', Str (side_value (leg_side first)),
                             Lit '' must be '', Str (side_value expected), Lit '' for a '',
                             Lit (if d > 0 then ''long'' else ''short''), Lit '' parent intent''])
                         else Inr None)))"

fun exn_text :: "exn \<Rightarrow> string" where
  "exn_text (ValueError m) = m"
| "exn_text _ = []"

definition check_order_spec :: "string \<Rightarrow> brokerage_policy option \<Rightarrow> risk_request \<Rightarrow> risk_decision res" where
  [op_simps]: "check_order_spec rule_id policy r =
     (let spec = rq_order_spec r in
      case raise_first (validate_shape_checks spec) of
        Some e \<Rightarrow> rejected ''INVALID_ORDER_SPEC'' [Str (exn_text e)] (Some rule_id) [] (order_spec_to_payload spec)
      | None \<Rightarrow>
          res_bind (validate_bracket r) (\<lambda>bracket_reason.
            case bracket_reason of
              Some reason \<Rightarrow>
                rejected ''INVALID_BRACKET_LEGS'' reason (Some rule_id) [] (order_spec_to_payload spec)
            | None \<Rightarrow>
               (case policy of
                  None \<Rightarrow> Inr (approve (Some rule_id) [] [])
                | Some p \<Rightarrow>
                    if os_order_type spec \<notin> set (bp_supported_order_types p) then
                      rejected ''UNSUPPORTED_ORDER_TYPE''
                        [Lit ''order type '', Str (order_type_value (os_order_type spec)),
                         Lit '' is not supported by the active brokerage'']
                        (Some rule_id) [] (order_spec_to_payload spec)
                    else Inr (approve (Some rule_id) [] []))))"

definition check_trading_session ::
  "(string \<Rightarrow> int \<Rightarrow> time_interval res) \<Rightarrow> string \<Rightarrow> int \<Rightarrow> risk_request \<Rightarrow> risk_decision res" where
  [op_simps]: "check_trading_session session_for calendar_id session_date r =
     (case rq_order_time r of
        None \<Rightarrow> rejected ''MISSING_ORDER_TIME'' [Lit ''order_time is required for trading session risk''] None [] []
      | Some t \<Rightarrow>
          res_bind (session_for calendar_id session_date) (\<lambda>interval.
            if \<not> ti_contains interval t then
              rejected ''OUTSIDE_TRADING_SESSION'' [Lit ''order_time is outside the trading session''] None [] []
            else Inr (approve None [] [])))"

fun rule_check :: "risk_rule \<Rightarrow> risk_request \<Rightarrow> risk_decision res" where
  "rule_check (PositionLimitRule m) r = check_position_limit m r"
| "rule_check (LeverageLimitRule m) r = check_leverage_limit m r"
| "rule_check (IntradayLossLimitRule m) r = check_intraday_loss_limit m r"
| "rule_check (ConcentrationLimitRule m) r = check_concentration_limit m r"
| "rule_check (MaxNotionalRule m) r = check_max_notional m r"
| "rule_check (MaxOrderQuantityRule m) r = check_max_order_qty m r"
| "rule_check (VolatilityAdjustedSizingRule m) r = check_volatility_sizing m r"
| "rule_check MarginRule r = check_margin r"
| "rule_check MarketDataPermissionRiskRule r = check_permission r"
| "rule_check (MarketDataFreshnessRiskRule b) r = check_freshness b r"
| "rule_check (OrderSpecValidityRule i p) r = check_order_spec i p r"
| "rule_check (TradingSessionRule c i d) r = check_trading_session c i d r"

section \<open>Registry (\<open>risk/rule_registry.py\<close>)\<close>

definition rule_param :: "rule_config \<Rightarrow> string \<Rightarrow> decimal res" where
  "rule_param c name =
     (case map_of (rc_params c) name of
        None \<Rightarrow> Inl (KeyError (''missing risk rule param: '' @ name)) | Some v \<Rightarrow> Inr v)"

definition build_rule :: "rule_config \<Rightarrow> risk_rule res" where
  "build_rule c = (case rc_name c of
      POSITION_LIMIT \<Rightarrow> res_bind (rule_param c ''max_position'') (\<lambda>v. mk_rule (PositionLimitRule v))
    | LEVERAGE_LIMIT \<Rightarrow> res_bind (rule_param c ''max_leverage'') (\<lambda>v. mk_rule (LeverageLimitRule v))
    | INTRADAY_LOSS_LIMIT \<Rightarrow> res_bind (rule_param c ''max_loss'') (\<lambda>v. mk_rule (IntradayLossLimitRule v))
    | CONCENTRATION_LIMIT \<Rightarrow> res_bind (rule_param c ''max_fraction'') (\<lambda>v. mk_rule (ConcentrationLimitRule v))
    | VOLATILITY_ADJUSTED_SIZING \<Rightarrow> res_bind (rule_param c ''max_notional_per_volatility'')
        (\<lambda>v. mk_rule (VolatilityAdjustedSizingRule v))
    | MAX_NOTIONAL \<Rightarrow> res_bind (rule_param c ''max_notional'') (\<lambda>v. mk_rule (MaxNotionalRule v))
    | MAX_ORDER_QTY \<Rightarrow> res_bind (rule_param c ''max_quantity'') (\<lambda>v. mk_rule (MaxOrderQuantityRule v))
    | MARGIN_LIMIT \<Rightarrow> Inr MarginRule
    | MARKET_DATA_PERMISSION \<Rightarrow> Inr MarketDataPermissionRiskRule
    | MARKET_DATA_FRESHNESS \<Rightarrow>
        Inr (MarketDataFreshnessRiskRule (dict_lookup (rc_params c) ''require_market_data_context'' 0 \<noteq> 0))
    | ORDER_SPEC_VALIDITY \<Rightarrow> Inr (OrderSpecValidityRule ''order_spec_validity'' None))"

definition build_all :: "rule_config list \<Rightarrow> risk_rule list res" where
  "build_all cs = res_map build_rule cs"

section \<open>Engine (\<open>risk/risk_engine.py\<close>)\<close>

record risk_engine =
  re_rules :: "risk_rule list"
  re_require_live_market_data :: bool

definition with_baseline_floor :: "decimal \<Rightarrow> risk_engine res" where
  "with_baseline_floor initial_cash =
     (if initial_cash \<le> 0 then Inl (ValueError ''baseline risk floor requires positive initial cash'')
      else res_bind (mk_rule (MaxNotionalRule (dmul initial_cash 100)))
        (\<lambda>rule. Inr \<lparr>re_rules = [rule], re_require_live_market_data = False\<rparr>))"

definition requiring_live_market_data :: "risk_engine \<Rightarrow> risk_engine" where
  "requiring_live_market_data e =
     (if re_require_live_market_data e then e
      else \<lparr>re_rules = re_rules e, re_require_live_market_data = True\<rparr>)"

fun with_brokerage_rule :: "brokerage_policy \<Rightarrow> risk_rule \<Rightarrow> risk_rule" where
  "with_brokerage_rule p (OrderSpecValidityRule i q) = OrderSpecValidityRule i (Some p)"
| "with_brokerage_rule p r = r"

definition with_brokerage_model :: "brokerage_policy \<Rightarrow> risk_engine \<Rightarrow> risk_engine" where
  "with_brokerage_model p e =
     (let engine = \<lparr>re_rules = map (with_brokerage_rule p) (re_rules e),
                    re_require_live_market_data = re_require_live_market_data e\<rparr>
      in if bp_requires_live_market_data p then requiring_live_market_data engine else engine)"

text \<open>The two loops of \<open>check\<close>: the first decision that is not an approval, or an exception.\<close>

fun first_rejection :: "('g \<Rightarrow> 'r \<Rightarrow> risk_decision res) \<Rightarrow> 'g list \<Rightarrow> 'r \<Rightarrow> risk_decision option res" where
  "first_rejection check [] r = Inr None"
| "first_rejection check (rule # rules) r =
     res_bind (check rule r)
       (\<lambda>d. if \<not> decision_approved d then Inr (Some d) else first_rejection check rules r)"

definition live_market_data_rules :: "risk_rule list" where
  "live_market_data_rules = [MarketDataPermissionRiskRule, MarketDataFreshnessRiskRule False]"

definition engine_check :: "risk_engine \<Rightarrow> risk_request \<Rightarrow> risk_decision res" where
  "engine_check e r =
     res_bind (if re_require_live_market_data e then first_rejection rule_check live_market_data_rules r else Inr None) (\<lambda>o1.
       case o1 of Some d \<Rightarrow> Inr d
       | None \<Rightarrow> res_bind (first_rejection rule_check (re_rules e) r) (\<lambda>o2.
           case o2 of Some d \<Rightarrow> Inr d | None \<Rightarrow> Inr (approve None [] [])))"

section \<open>Kill switch (\<open>risk/kill_switch.py\<close>)\<close>

datatype kill_switch_scope = GlobalScope | AccountScope account_id | StrategyScope strategy_id | BrokerScope broker_id

fun scope_reason_code :: "kill_switch_scope \<Rightarrow> string" where
  "scope_reason_code GlobalScope = ''KILL_SWITCH_GLOBAL''"
| "scope_reason_code (AccountScope a) = ''KILL_SWITCH_ACCOUNT''"
| "scope_reason_code (StrategyScope s) = ''KILL_SWITCH_STRATEGY''"
| "scope_reason_code (BrokerScope b) = ''KILL_SWITCH_BROKER''"

record kill_switch_state =
  ks_scope :: kill_switch_scope
  ks_active :: bool
  ks_reason :: string

type_synonym kill_switch_registry = "(kill_switch_scope, kill_switch_state) dict"

record kill_switch_command =
  kc_operator_id :: string
  kc_reason :: string
  kc_cancel_active_orders :: bool

definition mk_kill_switch_command :: "kill_switch_command \<Rightarrow> kill_switch_command res" where
  [ctor_simps]: "mk_kill_switch_command c = checked
     [(blank (kc_operator_id c), ValueError ''operator_id must not be empty''),
      (blank (kc_reason c), ValueError ''reason must not be empty'')] c"

definition ks_set ::
  "bool \<Rightarrow> kill_switch_scope \<Rightarrow> string \<Rightarrow> kill_switch_registry \<Rightarrow> (kill_switch_registry, kill_switch_state) outcome" where
  "ks_set act scope reason reg =
     (if blank reason then (Inl (ValueError ''reason must not be empty''), reg)
      else let state = \<lparr>ks_scope = scope, ks_active = act, ks_reason = reason\<rparr>
           in (Inr state, AList.update scope state reg))"

definition ks_activate ::
  "kill_switch_scope \<Rightarrow> string \<Rightarrow> kill_switch_registry \<Rightarrow> (kill_switch_registry, kill_switch_state) outcome" where
  "ks_activate = ks_set True"

definition ks_deactivate ::
  "kill_switch_scope \<Rightarrow> string \<Rightarrow> kill_switch_registry \<Rightarrow> (kill_switch_registry, kill_switch_state) outcome" where
  "ks_deactivate = ks_set False"

definition matching_scopes :: "account_id \<Rightarrow> strategy_id option \<Rightarrow> broker_id \<Rightarrow> kill_switch_scope list" where
  "matching_scopes account strategy broker =
     [GlobalScope, AccountScope account, BrokerScope broker] @
     (case strategy of None \<Rightarrow> [] | Some s \<Rightarrow> [StrategyScope s])"

fun ks_check_scopes :: "kill_switch_scope list \<Rightarrow> kill_switch_registry \<Rightarrow> risk_decision res" where
  "ks_check_scopes [] reg = Inr (approve (Some ''kill_switch'') [] [])"
| "ks_check_scopes (scope # scopes) reg =
     (case map_of reg scope of
        None \<Rightarrow> ks_check_scopes scopes reg
      | Some state \<Rightarrow>
          if ks_active state then
            rejected (scope_reason_code (ks_scope state)) [Str (ks_reason state)] (Some ''kill_switch'') [] []
          else ks_check_scopes scopes reg)"

definition ks_check_order ::
  "account_id \<Rightarrow> strategy_id option \<Rightarrow> broker_id \<Rightarrow> kill_switch_registry \<Rightarrow> risk_decision res" where
  "ks_check_order account strategy broker reg = ks_check_scopes (matching_scopes account strategy broker) reg"

section \<open>What the rules promise\<close>

text \<open>
  A gate is anything with a \<open>check\<close>; its contract \<open>allows\<close> says for which requests it approves. A
  sequence of gates approves a request exactly when every gate allows it, and otherwise answers
  with what the first gate that does not allow it answered.
\<close>

locale risk_gates =
  fixes check :: "'g \<Rightarrow> 'r \<Rightarrow> risk_decision res"
    and allows :: "'g \<Rightarrow> 'r \<Rightarrow> bool"
  assumes allows_iff: "allows g r \<longleftrightarrow> (\<exists>d. check g r = Inr d \<and> decision_approved d)"
begin

lemma first_rejection_None: "first_rejection check gs r = Inr None \<longleftrightarrow> list_all (\<lambda>g. allows g r) gs"
  by (induction gs) (auto simp: res_bind_Inr_iff allows_iff)

lemma first_rejection_answer:
  "\<not> list_all (\<lambda>g. allows g r) gs \<Longrightarrow>
   \<exists>pre g post. gs = pre @ g # post \<and> list_all (\<lambda>g. allows g r) pre \<and> \<not> allows g r \<and>
     first_rejection check gs r = res_bind (check g r) (\<lambda>d. Inr (Some d))"
proof (induction gs)
  case (Cons g gs)
  show ?case
  proof (cases "allows g r")
    case True
    with Cons obtain pre g' post where "gs = pre @ g' # post" "list_all (\<lambda>g. allows g r) pre" "\<not> allows g' r"
      "first_rejection check gs r = res_bind (check g' r) (\<lambda>d. Inr (Some d))" by auto
    with True show ?thesis
      by (intro exI [of _ "g # pre"] exI [of _ g'] exI [of _ post]) (auto simp: allows_iff)
  next
    case False
    then show ?thesis
      by (intro exI [of _ "[]"] exI [of _ g] exI [of _ gs])
         (cases "check g r"; auto simp: allows_iff)
  qed
qed simp

end

definition projected_position :: "risk_request \<Rightarrow> decimal" where
  "projected_position r = (case rq_signed_quantity_delta r of
     Some d \<Rightarrow> dabs (dadd (rq_current_position r) d)
   | None \<Rightarrow> dadd (dabs (rq_current_position r)) (rq_quantity r))"

text \<open>The limit each rule stands for.\<close>

fun rule_allows :: "risk_rule \<Rightarrow> risk_request \<Rightarrow> bool" where
  "rule_allows (PositionLimitRule m) r \<longleftrightarrow> projected_position r \<le> m"
| "rule_allows (LeverageLimitRule m) r \<longleftrightarrow>
     (\<exists>eq. rq_account_equity r = Some eq \<and> eq \<noteq> 0 \<and> ddiv (dadd (rq_current_exposure r) (notional r)) eq \<le> m)"
| "rule_allows (IntradayLossLimitRule m) r \<longleftrightarrow> (\<exists>pnl. rq_intraday_pnl r = Some pnl \<and> dneg m \<le> pnl)"
| "rule_allows (ConcentrationLimitRule m) r \<longleftrightarrow>
     (\<exists>eq. rq_account_equity r = Some eq \<and> eq \<noteq> 0 \<and>
        ddiv (dadd (dict_lookup (case rq_current_notional_by_instrument r of None \<Rightarrow> [] | Some m \<Rightarrow> m)
                      (rq_instrument_id r) 0) (notional r)) eq \<le> m)"
| "rule_allows (MaxNotionalRule m) r \<longleftrightarrow> notional r \<le> m"
| "rule_allows (MaxOrderQuantityRule m) r \<longleftrightarrow> rq_quantity r \<le> m"
| "rule_allows (VolatilityAdjustedSizingRule m) r \<longleftrightarrow>
     (\<exists>v. rq_volatility r = Some v \<and> notional r \<le> (if v = 0 then m else ddiv m v))"
| "rule_allows MarginRule r \<longleftrightarrow>
     (\<exists>p a. rq_projected_initial_margin r = Some p \<and> rq_available_margin r = Some a \<and> p \<le> a)"
| "rule_allows MarketDataPermissionRiskRule r \<longleftrightarrow>
     (\<exists>c. rq_market_data r = Some c \<and> md_permission_state c = Some ''live'')"
| "rule_allows (MarketDataFreshnessRiskRule b) r \<longleftrightarrow>
     (case rq_market_data r of None \<Rightarrow> \<not> b | Some c \<Rightarrow> \<not> md_stale c)"
| "rule_allows (OrderSpecValidityRule i p) r \<longleftrightarrow>
     raise_first (validate_shape_checks (rq_order_spec r)) = None \<and> validate_bracket r = Inr None \<and>
     (case p of None \<Rightarrow> True | Some p \<Rightarrow> os_order_type (rq_order_spec r) \<in> set (bp_supported_order_types p))"
| "rule_allows (TradingSessionRule session_for c d) r \<longleftrightarrow>
     (\<exists>t i. rq_order_time r = Some t \<and> session_for c d = Inr i \<and> ti_contains i t)"

definition approves :: "risk_decision res \<Rightarrow> bool" where
  "approves x \<longleftrightarrow> (\<exists>d. x = Inr d \<and> decision_approved d)"

lemma approves_simps [simp]:
  "approves (Inr (approve rule sids ev))" "\<not> approves (Inl e)"
  "\<not> approves (rejected code reason rule sids ev)"
  by (auto simp: approves_def dest: rejected_Inr)

lemma approves_if [simp]: "approves (if b then x else y) \<longleftrightarrow> (if b then approves x else approves y)"
  by simp

lemma approves_bind: "approves (res_bind x f) \<longleftrightarrow> (\<exists>v. x = Inr v \<and> approves (f v))"
  by (cases x) auto

lemma order_spec_allows: "approves (check_order_spec i p r) \<longleftrightarrow> rule_allows (OrderSpecValidityRule i p) r"
  by (auto simp: check_order_spec_def Let_def approves_bind split: option.splits)

lemma permission_allows: "approves (check_permission r) \<longleftrightarrow> rule_allows MarketDataPermissionRiskRule r"
  by (auto simp: check_permission_def permission_rejected_def split: option.splits)

lemma limit_allows:
  "approves (check_position_limit m r) \<longleftrightarrow> rule_allows (PositionLimitRule m) r"
  "approves (check_max_notional m r) \<longleftrightarrow> rule_allows (MaxNotionalRule m) r"
  "approves (check_max_order_qty m r) \<longleftrightarrow> rule_allows (MaxOrderQuantityRule m) r"
  by (simp_all add: check_position_limit_def check_max_notional_def check_max_order_qty_def
      projected_position_def Let_def not_less)

lemma equity_allows:
  "approves (check_leverage_limit m r) \<longleftrightarrow> rule_allows (LeverageLimitRule m) r"
  "approves (check_concentration_limit m r) \<longleftrightarrow> rule_allows (ConcentrationLimitRule m) r"
  by (cases "rq_account_equity r";
      simp add: check_leverage_limit_def check_concentration_limit_def Let_def not_less)+

lemma loss_allows: "approves (check_intraday_loss_limit m r) \<longleftrightarrow> rule_allows (IntradayLossLimitRule m) r"
  by (cases "rq_intraday_pnl r") (simp_all add: check_intraday_loss_limit_def Let_def not_less)

lemma volatility_allows: "approves (check_volatility_sizing m r) \<longleftrightarrow> rule_allows (VolatilityAdjustedSizingRule m) r"
  by (cases "rq_volatility r") (simp_all add: check_volatility_sizing_def Let_def not_less)

lemma margin_allows: "approves (check_margin r) \<longleftrightarrow> rule_allows MarginRule r"
  by (cases "rq_projected_initial_margin r"; cases "rq_available_margin r")
     (simp_all add: check_margin_def Let_def not_less)

lemma freshness_allows: "approves (check_freshness b r) \<longleftrightarrow> rule_allows (MarketDataFreshnessRiskRule b) r"
  by (cases "rq_market_data r") (simp_all add: check_freshness_def)

lemma session_allows: "approves (check_trading_session c i d r) \<longleftrightarrow> rule_allows (TradingSessionRule c i d) r"
  by (cases "rq_order_time r") (auto simp: check_trading_session_def approves_bind)

lemmas all_rules_allow = limit_allows equity_allows loss_allows volatility_allows margin_allows
  freshness_allows session_allows order_spec_allows permission_allows

lemma rule_check_allows: "approves (rule_check rule r) \<longleftrightarrow> rule_allows rule r"
  by (cases rule) (simp_all only: rule_check.simps all_rules_allow)

interpretation rules: risk_gates rule_check rule_allows
  by unfold_locales (simp add: rule_check_allows [symmetric] approves_def)

section \<open>The engine as one sequence of gates\<close>

definition engine_gates :: "risk_engine \<Rightarrow> risk_rule list" where
  "engine_gates e = (if re_require_live_market_data e then live_market_data_rules else []) @ re_rules e"

lemma first_rejection_append:
  "first_rejection check (gs @ hs) r =
     res_bind (first_rejection check gs r)
       (\<lambda>d. case d of Some d \<Rightarrow> Inr (Some d) | None \<Rightarrow> first_rejection check hs r)"
proof (induction gs)
  case (Cons g gs)
  then show ?case by (cases "check g r") auto
qed simp

lemma engine_check_gates:
  "engine_check e r =
     res_bind (first_rejection rule_check (engine_gates e) r)
       (\<lambda>d. Inr (case d of Some d \<Rightarrow> d | None \<Rightarrow> approve None [] []))"
  by (cases "first_rejection rule_check live_market_data_rules r"; cases "first_rejection rule_check (re_rules e) r")
     (auto simp: engine_check_def engine_gates_def first_rejection_append split: option.splits)

lemma engine_approves: "approves (engine_check e r) \<longleftrightarrow> list_all (\<lambda>g. rule_allows g r) (engine_gates e)"
proof (cases "list_all (\<lambda>g. rule_allows g r) (engine_gates e)")
  case True
  then show ?thesis using rules.first_rejection_None [of "engine_gates e" r]
    by (simp add: engine_check_gates)
next
  case False
  from rules.first_rejection_answer [OF False] obtain g where
    "\<not> rule_allows g r" "first_rejection rule_check (engine_gates e) r = res_bind (rule_check g r) (\<lambda>d. Inr (Some d))"
    by blast
  with False show ?thesis
    by (cases "rule_check g r") (auto simp: engine_check_gates approves_def rules.allows_iff)
qed

lemma engine_requires_live:
  "bp_requires_live_market_data p \<Longrightarrow> re_require_live_market_data (with_brokerage_model p e)"
  by (simp add: with_brokerage_model_def requiring_live_market_data_def Let_def)

lemma brokerage_rules [simp]: "re_rules (with_brokerage_model p e) = map (with_brokerage_rule p) (re_rules e)"
  by (simp add: with_brokerage_model_def requiring_live_market_data_def Let_def)

section \<open>Kill-switch histories\<close>

definition ks_run :: "(bool \<times> kill_switch_scope \<times> string) list \<Rightarrow> kill_switch_registry" where
  "ks_run cmds = foldl (\<lambda>reg (act, scope, reason). snd (ks_set act scope reason reg)) [] cmds"

definition ks_last :: "kill_switch_scope \<Rightarrow> (bool \<times> kill_switch_scope \<times> string) list \<Rightarrow> bool" where
  "ks_last scope cmds = (case find (\<lambda>(act, s, reason). s = scope \<and> \<not> blank reason) (rev cmds) of
     None \<Rightarrow> False | Some (act, _) \<Rightarrow> act)"

lemma ks_run_snoc: "ks_run (cmds @ [(act, scope, reason)]) = snd (ks_set act scope reason (ks_run cmds))"
  by (simp add: ks_run_def)

lemma ks_run_active:
  "(case map_of (ks_run cmds) scope of None \<Rightarrow> \<not> ks_last scope cmds
    | Some st \<Rightarrow> ks_active st = ks_last scope cmds \<and> ks_scope st = scope \<and> \<not> blank (ks_reason st))"
proof (induction cmds rule: rev_induct)
  case Nil
  then show ?case by (simp add: ks_run_def ks_last_def)
next
  case (snoc c cmds)
  obtain act s reason where c: "c = (act, s, reason)" by (cases c)
  show ?case
  proof (cases "s = scope \<and> \<not> blank reason")
    case True
    then show ?thesis unfolding c ks_run_snoc by (simp add: ks_set_def Let_def ks_last_def update_conv')
  next
    case False
    then have "map_of (ks_run (cmds @ [c])) scope = map_of (ks_run cmds) scope" "ks_last scope (cmds @ [c]) = ks_last scope cmds"
      unfolding c ks_run_snoc by (auto simp: ks_set_def Let_def ks_last_def update_conv')
    with snoc show ?thesis by (auto split: option.splits)
  qed
qed

lemma ks_check_scopes_run: "approves (ks_check_scopes scopes (ks_run cmds)) \<longleftrightarrow> list_all (\<lambda>s. \<not> ks_last s cmds) scopes"
proof (induction scopes)
  case (Cons s scopes)
  with ks_run_active [of s cmds] show ?case by (auto split: option.splits)
qed simp

text \<open>A request the witnesses use: buy 10 at 100 from a long position of 100.\<close>

definition sample_request :: risk_request where
  "sample_request = \<lparr>rq_instrument_id = ''ES'', rq_quantity = 10, rq_price = 100, rq_multiplier = 1,
     rq_order_spec = default_order_spec, rq_order_time = None, rq_current_position = 100,
     rq_contributing_strategy_ids = [], rq_aggregation_decision_id = None, rq_conflict_reason = None,
     rq_market_data = Some \<lparr>md_permission_state = Some ''live'', md_stale = False, md_evidence = []\<rparr>,
     rq_account_equity = None, rq_current_exposure = 0, rq_intraday_pnl = None,
     rq_current_notional_by_instrument = None, rq_volatility = None, rq_signed_quantity_delta = Some 10,
     rq_current_margin_requirement = None, rq_projected_initial_margin = None, rq_available_margin = None\<rparr>"

section \<open>Properties\<close>

text \<open>C10. The engine's decision: an order is approved exactly when every gate of the engine (the live
  market-data rules first when they are required, then the configured rules) allows it; otherwise
  the answer is that of the first gate that does not, be it a rejection or an exception.\<close>

theorem engine_first_rejection:
  "((\<exists>d. engine_check e r = Inr d \<and> decision_approved d) \<longleftrightarrow> list_all (\<lambda>g. rule_allows g r) (engine_gates e)) \<and>
   (list_all (\<lambda>g. rule_allows g r) (engine_gates e) \<or>
    (\<exists>pre g post. engine_gates e = pre @ g # post \<and> list_all (\<lambda>g. rule_allows g r) pre \<and>
       \<not> rule_allows g r \<and> engine_check e r = rule_check g r))"
proof -
  have "\<exists>pre g post. engine_gates e = pre @ g # post \<and> list_all (\<lambda>g. rule_allows g r) pre \<and>
       \<not> rule_allows g r \<and> engine_check e r = rule_check g r"
    if bad: "\<not> list_all (\<lambda>g. rule_allows g r) (engine_gates e)"
  proof -
    from rules.first_rejection_answer [OF bad] obtain pre g post where
      g: "engine_gates e = pre @ g # post" "list_all (\<lambda>g. rule_allows g r) pre" "\<not> rule_allows g r"
      and eq: "first_rejection rule_check (engine_gates e) r = res_bind (rule_check g r) (\<lambda>d. Inr (Some d))"
      by blast
    have "engine_check e r = rule_check g r" by (cases "rule_check g r") (simp_all add: engine_check_gates eq)
    with g show ?thesis by blast
  qed
  then show ?thesis using engine_approves [of e r] unfolding approves_def by blast
qed

text \<open>Each configured rule approves exactly the orders within the limit it stands for, with the
  code's rounding: projected position, leverage, concentration, notional, size, volatility-scaled
  notional, margin, intraday loss, live permission, freshness, order shape and session.\<close>

theorem rule_check_is_limit:
  "(\<exists>d. rule_check rule r = Inr d \<and> decision_approved d) \<longleftrightarrow> rule_allows rule r"
  using rule_check_allows [of rule r] by (simp add: approves_def)

text \<open>Brokerage requirements bind every engine: after binding a brokerage that requires live data,
  an approved order carries a live and fresh market-data context, and where the engine has an
  order-spec rule an approved order is of a type the brokerage supports.\<close>

theorem brokerage_model_enforced:
  assumes "approves (engine_check (with_brokerage_model p e) r)"
  shows "(bp_requires_live_market_data p \<longrightarrow>
      (\<exists>c. rq_market_data r = Some c \<and> md_permission_state c = Some ''live'' \<and> \<not> md_stale c)) \<and>
    (\<forall>i q. OrderSpecValidityRule i q \<in> set (re_rules e) \<longrightarrow>
      os_order_type (rq_order_spec r) \<in> set (bp_supported_order_types p))"
proof -
  let ?e = "with_brokerage_model p e"
  have all: "list_all (\<lambda>g. rule_allows g r) (engine_gates ?e)" using assms by (simp add: engine_approves)
  have "\<exists>c. rq_market_data r = Some c \<and> md_permission_state c = Some ''live'' \<and> \<not> md_stale c"
    if "bp_requires_live_market_data p"
    using all engine_requires_live [OF that, of e]
    by (auto simp: engine_gates_def live_market_data_rules_def)
  moreover have "os_order_type (rq_order_spec r) \<in> set (bp_supported_order_types p)"
    if "OrderSpecValidityRule i q \<in> set (re_rules e)" for i q
  proof -
    from imageI [OF that, of "with_brokerage_rule p"]
    have "OrderSpecValidityRule i (Some p) \<in> set (engine_gates ?e)" by (simp add: engine_gates_def)
    with all have "rule_allows (OrderSpecValidityRule i (Some p)) r" by (auto simp: list_all_iff)
    then show ?thesis by simp
  qed
  ultimately show ?thesis by blast
qed

theorem brokerage_model_enforced_witness:
  "let p = \<lparr>bp_requires_live_market_data = True, bp_supported_order_types = [MARKET]\<rparr>;
       e = \<lparr>re_rules = [OrderSpecValidityRule ''order_spec_validity'' None], re_require_live_market_data = False\<rparr>
   in approves (engine_check (with_brokerage_model p e) sample_request) \<and>
      os_order_type (rq_order_spec sample_request) \<in> set (bp_supported_order_types p)"
proof -
  let ?p = "\<lparr>bp_requires_live_market_data = True, bp_supported_order_types = [MARKET]\<rparr>"
  let ?e = "\<lparr>re_rules = [OrderSpecValidityRule ''order_spec_validity'' None], re_require_live_market_data = False\<rparr>"
  have ok: "approves (engine_check (with_brokerage_model ?p ?e) sample_request)"
    by (simp add: engine_approves engine_gates_def live_market_data_rules_def with_brokerage_model_def
        requiring_live_market_data_def sample_request_def default_order_spec_def validate_shape_checks_def
        validate_bracket_def)
  then show ?thesis using brokerage_model_enforced [OF ok] by (simp add: Let_def)
qed

text \<open>Missing context fails closed: an engine that enables a rule never approves a request that
  lacks what the rule reads (equity, intraday PnL, volatility, margin figures, live permission, or
  a market-data context where one is required).\<close>

theorem missing_context_fails_closed:
  assumes "g \<in> set (re_rules e)"
    and "(g = LeverageLimitRule m \<or> g = ConcentrationLimitRule m) \<and> rq_account_equity r = None \<or>
      g = IntradayLossLimitRule m \<and> rq_intraday_pnl r = None \<or>
      g = VolatilityAdjustedSizingRule m \<and> rq_volatility r = None \<or>
      g = MarginRule \<and> (rq_projected_initial_margin r = None \<or> rq_available_margin r = None) \<or>
      (g = MarketDataPermissionRiskRule \<or> g = MarketDataFreshnessRiskRule True) \<and> rq_market_data r = None"
  shows "\<not> (\<exists>d. engine_check e r = Inr d \<and> decision_approved d)"
proof -
  have "\<not> rule_allows g r" using assms(2) by (elim disjE conjE) simp_all
  with assms(1) have "\<not> list_all (\<lambda>g. rule_allows g r) (engine_gates e)"
    by (auto simp: list_all_iff engine_gates_def)
  then show ?thesis using engine_approves [of e r] by (simp add: approves_def)
qed

theorem missing_context_fails_closed_witness:
  "\<not> (\<exists>d. engine_check \<lparr>re_rules = [MarginRule], re_require_live_market_data = False\<rparr> sample_request = Inr d \<and>
        decision_approved d)"
  using missing_context_fails_closed [of MarginRule
      "\<lparr>re_rules = [MarginRule], re_require_live_market_data = False\<rparr>" 0 sample_request]
  by (simp add: sample_request_def)

text \<open>The baseline floor: it exists exactly for positive initial cash, and then approves exactly
  the orders whose notional is at most a hundred times the cash.\<close>

theorem baseline_floor:
  "(initial_cash \<le> 0 \<longrightarrow> (\<exists>m. with_baseline_floor initial_cash = Inl (ValueError m))) \<and>
   (0 < initial_cash \<longrightarrow> (\<exists>e. with_baseline_floor initial_cash = Inr e \<and>
      (\<forall>r. approves (engine_check e r) \<longleftrightarrow> notional r \<le> dmul initial_cash 100)))"
  by (auto simp: with_baseline_floor_def engine_approves engine_gates_def checked_def not_le)

theorem baseline_floor_witness:
  "\<exists>e. with_baseline_floor 1000 = Inr e \<and> approves (engine_check e sample_request)"
proof -
  have "notional sample_request \<le> dmul 1000 100" by (simp add: notional_def sample_request_def dec_simps)
  then show ?thesis using baseline_floor [of 1000] by auto
qed

text \<open>Orders that only reduce risk can be refused: an account that is already over its position
  limit cannot work down in steps that stay above it, and a negative available margin refuses an
  order with no incremental margin.\<close>

theorem reducing_orders_can_be_blocked:
  "(rq_signed_quantity_delta r = Some d \<and> m < dabs (dadd (rq_current_position r) d) \<longrightarrow>
     \<not> approves (rule_check (PositionLimitRule m) r)) \<and>
   (rq_projected_initial_margin r = Some p \<and> rq_available_margin r = Some a \<and> p \<le> 0 \<and> a < p \<longrightarrow>
     \<not> approves (rule_check MarginRule r))"
  by (auto simp only: rule_check_allows rule_allows.simps projected_position_def option.simps)

theorem reducing_orders_can_be_blocked_witness:
  "\<not> approves (rule_check (PositionLimitRule 50)
       (sample_request\<lparr>rq_signed_quantity_delta := Some (- 10)\<rparr>))"
  using reducing_orders_can_be_blocked
    [of "sample_request\<lparr>rq_signed_quantity_delta := Some (- 10)\<rparr>" "- 10" 50 0 0]
  by (simp add: sample_request_def dec_simps)

text \<open>Kill switches: after any sequence of commands, refused ones included, an order is rejected
  exactly when the last accepted command for one of its scopes (global, account, broker, strategy)
  was an activation.\<close>

theorem kill_switch_last_command_wins:
  "(\<exists>d. ks_check_order account strategy broker (ks_run cmds) = Inr d \<and> decision_approved d) \<longleftrightarrow>
   \<not> ks_last GlobalScope cmds \<and> \<not> ks_last (AccountScope account) cmds \<and> \<not> ks_last (BrokerScope broker) cmds \<and>
   (case strategy of None \<Rightarrow> True | Some s \<Rightarrow> \<not> ks_last (StrategyScope s) cmds)"
  using ks_check_scopes_run [of "matching_scopes account strategy broker" cmds]
  by (auto simp: ks_check_order_def approves_def matching_scopes_def split: option.splits)

end
