(* ===== verification/Broker_Boundary.thy ===== *)
theory Broker_Boundary
  imports Risk_Control
begin

text \<open>
  The execution boundary: broker capabilities, broker requests and reports (\<open>execution/broker.py\<close>),
  the brokerage models (\<open>brokerage_model.py\<close>, \<open>adapters/brokerage_capabilities.py\<close>), the simulated
  execution adapter with its bar-touch fill rules, and the simulated broker of
  \<open>simulation/broker.py\<close>. A \<open>frozenset\<close> that is only tested for membership or emptiness is a list.
\<close>

section \<open>Decimal numerals in identifiers\<close>

fun nat_str :: "nat \<Rightarrow> string" where
  "nat_str n = (if n < 10 then [char_of (48 + n)] else nat_str (n div 10) @ [char_of (48 + n mod 10)])"

declare nat_str.simps [simp del]

definition str_nat :: "string \<Rightarrow> nat" where
  "str_nat s = foldl (\<lambda>a c. 10 * a + (of_char c - 48)) 0 s"

lemma str_nat_nat_str [simp]: "str_nat (nat_str n) = n"
proof (induction n rule: nat_str.induct)
  case (1 n)
  show ?case
  proof (cases "n < 10")
    case True
    then show ?thesis by (simp add: str_nat_def nat_str.simps [of n])
  next
    case False
    with 1 have "str_nat (nat_str (n div 10)) = n div 10" by blast
    then have "foldl (\<lambda>a c. 10 * a + (of_char c - 48)) 0 (nat_str (n div 10)) = n div 10"
      by (simp add: str_nat_def)
    with False show ?thesis by (simp add: str_nat_def nat_str.simps [of n])
  qed
qed

lemma nat_str_inj: "nat_str m = nat_str n \<longleftrightarrow> m = n"
  by (metis str_nat_nat_str)

section \<open>Broker capabilities (\<open>execution/broker.py\<close>)\<close>

record broker_capabilities =
  bc_broker_id :: broker_id
  bc_market_orders :: bool
  bc_limit_orders :: bool
  bc_stop_orders :: bool
  bc_cancel :: bool
  bc_replace :: bool
  bc_fractional :: bool
  bc_short :: bool
  bc_min_order_quantity :: "decimal option"
  bc_lot_size :: "decimal option"
  bc_min_tick :: "decimal option"
  bc_max_order_quantity :: "decimal option"
  bc_asset_classes :: "string list"
  bc_order_types :: "order_type list"
  bc_time_in_force :: "time_in_force list"

text \<open>The dataclass defaults.\<close>

definition capabilities_defaults :: "broker_id \<Rightarrow> broker_capabilities" where
  "capabilities_defaults b = \<lparr>bc_broker_id = b, bc_market_orders = True, bc_limit_orders = True,
     bc_stop_orders = False, bc_cancel = True, bc_replace = False, bc_fractional = False, bc_short = False,
     bc_min_order_quantity = None, bc_lot_size = None, bc_min_tick = None, bc_max_order_quantity = None,
     bc_asset_classes = [], bc_order_types = [], bc_time_in_force = []\<rparr>"

definition nonpositive :: "decimal option \<Rightarrow> bool" where
  "nonpositive v = (case v of None \<Rightarrow> False | Some x \<Rightarrow> x \<le> 0)"

definition mk_broker_capabilities :: "broker_capabilities \<Rightarrow> broker_capabilities res" where
  [ctor_simps]: "mk_broker_capabilities c = checked
     [(nonpositive (bc_min_order_quantity c), ValueError ''min_order_quantity must be positive''),
      (nonpositive (bc_lot_size c), ValueError ''lot_size must be positive''),
      (nonpositive (bc_min_tick c), ValueError ''min_tick must be positive''),
      (nonpositive (bc_max_order_quantity c), ValueError ''max_order_quantity must be positive''),
      (list_ex blank (bc_asset_classes c), ValueError ''supported_asset_classes must not contain empty values'')] c"

definition supports_asset_class :: "broker_capabilities \<Rightarrow> string \<Rightarrow> bool res" where
  "supports_asset_class c asset_class =
     (if blank asset_class then Inl (ValueError ''asset_class must not be empty'')
      else Inr (bc_asset_classes c = [] \<or> asset_class \<in> set (bc_asset_classes c)))"

definition supports_order_type :: "broker_capabilities \<Rightarrow> order_type \<Rightarrow> bool" where
  "supports_order_type c t =
     (if bc_order_types c \<noteq> [] then t \<in> set (bc_order_types c)
      else case t of
             MARKET \<Rightarrow> bc_market_orders c
           | LIMIT \<Rightarrow> bc_limit_orders c
           | STOP \<Rightarrow> bc_stop_orders c
           | STOP_LIMIT \<Rightarrow> bc_limit_orders c \<and> bc_stop_orders c
           | TRAILING_STOP \<Rightarrow> bc_stop_orders c
           | MARKET_ON_OPEN \<Rightarrow> bc_market_orders c
           | MARKET_ON_CLOSE \<Rightarrow> bc_market_orders c
           | BRACKET \<Rightarrow> bc_market_orders c \<or> bc_limit_orders c \<or> bc_stop_orders c
           | ICEBERG \<Rightarrow> False)"

definition supports_tif :: "broker_capabilities \<Rightarrow> time_in_force \<Rightarrow> bool" where
  "supports_tif c t \<longleftrightarrow> bc_time_in_force c = [] \<or> t \<in> set (bc_time_in_force c)"

definition validate_order_quantity :: "broker_capabilities \<Rightarrow> decimal \<Rightarrow> unit res" where
  "validate_order_quantity c quantity = checked
     [(quantity \<le> 0, ValueError ''quantity must be positive''),
      (case bc_min_order_quantity c of None \<Rightarrow> False | Some m \<Rightarrow> quantity < m,
       ValueError ''quantity is below minimum order quantity''),
      (case bc_max_order_quantity c of None \<Rightarrow> False | Some m \<Rightarrow> quantity > m,
       ValueError ''quantity exceeds max order quantity''),
      (case bc_lot_size c of None \<Rightarrow> False | Some l \<Rightarrow> dmod quantity l \<noteq> 0,
       ValueError ''quantity does not conform to broker lot size'')] ()"

definition round_price :: "broker_capabilities \<Rightarrow> decimal \<Rightarrow> decimal res" where
  "round_price c price =
     (if price < 0 then Inl (ValueError ''price must be non-negative'')
      else case bc_min_tick c of
             None \<Rightarrow> Inr price
           | Some tick \<Rightarrow> Inr (dmul (integral_half_up (ddiv price tick)) tick))"

definition round_quantity :: "broker_capabilities \<Rightarrow> decimal \<Rightarrow> decimal res" where
  "round_quantity c quantity =
     (if quantity \<le> 0 then Inl (ValueError ''quantity must be positive'')
      else case bc_lot_size c of
             None \<Rightarrow> Inr quantity
           | Some lot \<Rightarrow>
               (let rounded = dmul (integral_floor (ddiv quantity lot)) lot
                in if rounded \<le> 0 then Inl (ValueError ''quantity is below minimum broker lot size'')
                   else Inr rounded))"

section \<open>Broker requests and reports (\<open>execution/broker.py\<close>)\<close>

record broker_order_request =
  bq_order_id :: order_id
  bq_client_order_id :: string
  bq_account_id :: account_id
  bq_strategy_id :: "strategy_id option"
  bq_instrument_id :: instrument_id
  bq_side :: order_side
  bq_quantity :: decimal
  bq_order_type :: order_type
  bq_time_in_force :: time_in_force
  bq_limit_price :: "decimal option"
  bq_stop_price :: "decimal option"
  bq_trail_amount :: "decimal option"
  bq_trail_percent :: "decimal option"
  bq_good_til_date :: "instant option"
  bq_bracket_legs :: "bracket_leg list option"

definition bq_order_spec :: "broker_order_request \<Rightarrow> order_spec res" where
  "bq_order_spec q =
     res_bind (case bq_bracket_legs q of None \<Rightarrow> Inr None
               | Some legs \<Rightarrow> res_bind (mk_bracket_spec legs) (\<lambda>b. Inr (Some b))) (\<lambda>bracket.
       mk_order_spec \<lparr>os_order_type = bq_order_type q, os_time_in_force = bq_time_in_force q,
         os_limit_price = bq_limit_price q, os_stop_price = bq_stop_price q,
         os_trail_amount = bq_trail_amount q, os_trail_percent = bq_trail_percent q,
         os_good_til_date = bq_good_til_date q, os_bracket = bracket\<rparr>)"

definition mk_broker_order_request :: "broker_order_request \<Rightarrow> broker_order_request res" where
  [ctor_simps]: "mk_broker_order_request q =
     res_bind (checked
       [(blank (bq_client_order_id q), ValueError ''client_order_id must not be empty''),
        (bq_quantity q \<le> 0, ValueError ''quantity must be positive'')] q)
       (\<lambda>q. res_bind (bq_order_spec q) (\<lambda>_. Inr q))"

record broker_execution_report =
  br_report_id :: string
  br_broker_id :: broker_id
  br_broker_order_id :: string
  br_order_id :: order_id
  br_account_id :: account_id
  br_strategy_id :: "strategy_id option"
  br_instrument_id :: instrument_id
  br_status :: report_status
  br_filled_quantity :: decimal
  br_fill_price :: "decimal option"
  br_fill_id :: "string option"
  br_fill_time :: "instant option"

definition mk_broker_execution_report :: "broker_execution_report \<Rightarrow> broker_execution_report res" where
  [ctor_simps]: "mk_broker_execution_report r = checked
     [(blank (br_report_id r), ValueError ''report_id must not be empty''),
      (blank (br_broker_order_id r), ValueError ''broker_order_id must not be empty''),
      (br_filled_quantity r < 0, ValueError ''filled_quantity must be non-negative''),
      (br_filled_quantity r > 0 \<and> br_fill_price r = None, ValueError ''fill_price is required for fills'')] r"

record broker_commission_report =
  bcr_execution_id :: string
  bcr_commission :: decimal
  bcr_currency :: string

definition mk_broker_commission_report :: "broker_commission_report \<Rightarrow> broker_commission_report res" where
  [ctor_simps]: "mk_broker_commission_report r = checked
     [(blank (bcr_execution_id r), ValueError ''execution_id must not be empty''),
      (bcr_commission r < 0, ValueError ''commission must be non-negative''),
      (blank (bcr_currency r), ValueError ''currency must not be empty'')] r"

definition normalize_broker_status :: "report_status \<Rightarrow> report_status" where
  "normalize_broker_status s = s"

definition normalize_broker_execution_report :: "broker_execution_report \<Rightarrow> execution_report res" where
  "normalize_broker_execution_report r =
     mk_execution_report ((report_defaults (br_report_id r) (br_broker_order_id r)
       (normalize_broker_status (br_status r)))
       \<lparr>er_filled_quantity := br_filled_quantity r, er_fill_price := br_fill_price r,
        er_fill_id := br_fill_id r, er_fill_time := br_fill_time r\<rparr>)"

section \<open>Brokerage models (\<open>execution/brokerage_model.py\<close>)\<close>

record brokerage_model =
  bm_model_id :: string
  bm_capabilities :: broker_capabilities
  bm_commission_rate :: decimal
  bm_minimum_commission :: decimal
  bm_initial_margin_rate :: decimal
  bm_slippage_bps :: decimal
  bm_requires_live_market_data :: bool

definition mk_brokerage_model :: "brokerage_model \<Rightarrow> brokerage_model res" where
  [ctor_simps]: "mk_brokerage_model m = checked
     [(strip (bm_model_id m) = [], ValueError ''model_id must not be empty''),
      (bm_commission_rate m < 0, ValueError ''commission_rate must be non-negative''),
      (bm_minimum_commission m < 0, ValueError ''minimum_commission must be non-negative''),
      (bm_initial_margin_rate m < 0, ValueError ''initial_margin_rate must be non-negative''),
      (bm_slippage_bps m < 0, ValueError ''slippage_bps must be non-negative'')]
     (m\<lparr>bm_model_id := strip (bm_model_id m)\<rparr>)"

definition all_order_types :: "order_type list" where
  "all_order_types = [MARKET, LIMIT, STOP, STOP_LIMIT, TRAILING_STOP, MARKET_ON_OPEN, MARKET_ON_CLOSE,
     BRACKET, ICEBERG]"

definition all_time_in_force :: "time_in_force list" where
  "all_time_in_force = [DAY, GTC, IOC, FOK, GTD, OPG, ATC]"

definition broad_capabilities :: "broker_id \<Rightarrow> broker_capabilities" where
  "broad_capabilities b = (capabilities_defaults b)\<lparr>bc_fractional := True, bc_stop_orders := True,
     bc_order_types := all_order_types, bc_time_in_force := all_time_in_force\<rparr>"

definition model_defaults :: "string \<Rightarrow> broker_capabilities \<Rightarrow> brokerage_model" where
  "model_defaults i c = \<lparr>bm_model_id = i, bm_capabilities = c, bm_commission_rate = 0,
     bm_minimum_commission = 0, bm_initial_margin_rate = 0, bm_slippage_bps = 0,
     bm_requires_live_market_data = False\<rparr>"

definition custom_model :: "brokerage_model res" where
  "custom_model = mk_brokerage_model (model_defaults ''custom-assumption-v1'' (broad_capabilities ''custom''))"

definition simulated_model :: "brokerage_model res" where
  "simulated_model = mk_brokerage_model (model_defaults ''simulated-default-v1'' (broad_capabilities ''simulated''))"

definition bm_supported_order_types :: "brokerage_model \<Rightarrow> order_type list" where
  "bm_supported_order_types m =
     (if bc_order_types (bm_capabilities m) \<noteq> [] then bc_order_types (bm_capabilities m) else all_order_types)"

definition validate_notional :: "decimal \<Rightarrow> decimal res" where
  "validate_notional n = (if n < 0 then Inl (ValueError ''notional must be non-negative'') else Inr n)"

definition commission_for_notional :: "brokerage_model \<Rightarrow> decimal \<Rightarrow> decimal res" where
  "commission_for_notional m n = res_bind (validate_notional n) (\<lambda>n.
     Inr (if n = 0 then 0
          else let commission = dmul n (bm_commission_rate m)
               in if commission < bm_minimum_commission m then bm_minimum_commission m else commission))"

definition initial_margin_for_notional :: "brokerage_model \<Rightarrow> decimal \<Rightarrow> decimal res" where
  "initial_margin_for_notional m n =
     res_bind (validate_notional n) (\<lambda>n. Inr (dmul n (bm_initial_margin_rate m)))"

definition slippage_for_notional :: "brokerage_model \<Rightarrow> decimal \<Rightarrow> decimal res" where
  "slippage_for_notional m n =
     res_bind (validate_notional n) (\<lambda>n. Inr (ddiv (dmul n (bm_slippage_bps m)) 10000))"

definition bm_supports :: "brokerage_model \<Rightarrow> string \<Rightarrow> order_type \<Rightarrow> time_in_force \<Rightarrow> bool res" where
  "bm_supports m asset_class t tif =
     res_bind (supports_asset_class (bm_capabilities m) asset_class) (\<lambda>a.
       Inr (a \<and> supports_order_type (bm_capabilities m) t \<and> supports_tif (bm_capabilities m) tif))"

definition ibkr_capabilities :: "broker_id \<Rightarrow> bool \<Rightarrow> string \<Rightarrow> broker_capabilities" where
  "ibkr_capabilities b short_ok asset_class = (capabilities_defaults b)\<lparr>bc_order_types := [MARKET, LIMIT],
     bc_time_in_force := [DAY, GTC], bc_fractional := False, bc_short := short_ok,
     bc_min_order_quantity := Some 1, bc_lot_size := Some 1, bc_asset_classes := [asset_class]\<rparr>"

definition brokerage_model_for_name :: "string \<Rightarrow> brokerage_model res" where
  "brokerage_model_for_name name =
     (let model = upper (strip name)
      in if model = [] then Inl (ValueError ''brokerage_model must not be empty'')
         else if model = ''CUSTOM'' then custom_model
         else if model = ''SIMULATED'' \<or> model = ''SIMULATED_DEFAULT'' then simulated_model
         else if model = ''IBKR_EQUITY'' then
           mk_brokerage_model ((model_defaults ''ibkr-equity-assumption-v1''
               (ibkr_capabilities ''ibkr-equity'' True ''equity''))
             \<lparr>bm_commission_rate := 5 / 10000, bm_minimum_commission := 1,
              bm_initial_margin_rate := 50 / 100, bm_slippage_bps := 1, bm_requires_live_market_data := True\<rparr>)
         else if model = ''IBKR_FUTURES'' then
           mk_brokerage_model ((model_defaults ''ibkr-futures-assumption-v1''
               (ibkr_capabilities ''ibkr-futures'' True ''future''))
             \<lparr>bm_initial_margin_rate := 10 / 100, bm_slippage_bps := 1, bm_requires_live_market_data := True\<rparr>)
         else if model = ''IBKR_OPTIONS'' then
           mk_brokerage_model ((model_defaults ''ibkr-options-assumption-v1''
               (ibkr_capabilities ''ibkr-options'' False ''option''))
             \<lparr>bm_initial_margin_rate := 1, bm_slippage_bps := 1, bm_requires_live_market_data := True\<rparr>)
         else Inl (ValueError (''unsupported brokerage_model: '' @ name)))"

text \<open>How risk sees a brokerage model (the \<open>BrokerageRiskPolicy\<close> protocol).\<close>

definition risk_policy :: "brokerage_model \<Rightarrow> brokerage_policy" where
  "risk_policy m = \<lparr>bp_requires_live_market_data = bm_requires_live_market_data m,
     bp_supported_order_types = bm_supported_order_types m\<rparr>"

end
