(* ===== verification/Order_Lifecycle.thy ===== *)
theory Order_Lifecycle
  imports Domain_Model Step_Systems
begin

text \<open>
  The order lifecycle: the state machine (\<open>execution/order_state_machine.py\<close>), the fill
  idempotency store (\<open>execution/idempotency.py\<close>) and the \<open>OrderManager\<close>
  (\<open>execution/order_manager.py\<close>). A method of the manager is a function from its arguments and
  the manager to an outcome: the result or the exception, and the manager after the call.
\<close>

section \<open>The order state machine\<close>

datatype order_event =
  EvSent | EvAccepted | EvPartiallyFilled | EvFilled | EvCancelRequested | EvReplaceRequested
| EvCancelled | EvRejected

definition transition_table :: "(order_state \<times> (order_event \<times> order_state) list) list" where
  "transition_table =
     [(Created, [(EvSent, Sent), (EvRejected, Rejected)]),
      (Sent,
        [(EvAccepted, Accepted), (EvPartiallyFilled, PartiallyFilled), (EvFilled, Filled),
         (EvRejected, Rejected), (EvCancelRequested, CancelRequested),
         (EvReplaceRequested, ReplaceRequested)]),
      (Accepted,
        [(EvPartiallyFilled, PartiallyFilled), (EvFilled, Filled),
         (EvCancelRequested, CancelRequested), (EvCancelled, Cancelled), (EvRejected, Rejected),
         (EvReplaceRequested, ReplaceRequested)]),
      (PartiallyFilled,
        [(EvPartiallyFilled, PartiallyFilled), (EvFilled, Filled),
         (EvCancelRequested, CancelRequested), (EvCancelled, Cancelled),
         (EvReplaceRequested, ReplaceRequested)]),
      (CancelRequested,
        [(EvCancelled, Cancelled), (EvFilled, Filled), (EvPartiallyFilled, PartiallyFilled)]),
      (ReplaceRequested,
        [(EvAccepted, Accepted), (EvPartiallyFilled, PartiallyFilled), (EvFilled, Filled),
         (EvRejected, Rejected)]),
      (Cancelled, [(EvPartiallyFilled, PartiallyFilled), (EvFilled, Filled)])]"

definition duplicate_terminal_events :: "(order_state \<times> order_event) list" where
  "duplicate_terminal_events = [(Filled, EvFilled), (Cancelled, EvCancelled), (Rejected, EvRejected)]"

definition machine_apply :: "order_event \<Rightarrow> order_state \<Rightarrow> order_state res" where
  "machine_apply ev st =
     (if map_of duplicate_terminal_events st = Some ev then Inr st
      else case map_of (dict_lookup transition_table st []) ev of
             None \<Rightarrow> Inl OrderTransitionError
           | Some nxt \<Rightarrow> Inr nxt)"

text \<open>The machine run over a sequence of events, stopping at the first illegal one.\<close>

fun machine_run :: "order_event list \<Rightarrow> order_state \<Rightarrow> order_state res" where
  "machine_run [] st = Inr st"
| "machine_run (ev # evs) st = res_bind (machine_apply ev st) (machine_run evs)"

section \<open>The fill idempotency store\<close>

record fill_store =
  fs_seen :: "string set"
  fs_snapshot_cache :: "string list option"

definition fs_init :: "string set \<Rightarrow> fill_store" where
  "fs_init seen = \<lparr>fs_seen = seen, fs_snapshot_cache = None\<rparr>"

definition fs_mark_seen :: "string \<Rightarrow> fill_store \<Rightarrow> (fill_store, bool) outcome" where
  "fs_mark_seen fid st =
     (if blank fid then (Inl (ValueError ''fill_id must not be empty''), st)
      else if fid \<in> fs_seen st then (Inr False, st)
      else (Inr True, st\<lparr>fs_seen := insert fid (fs_seen st), fs_snapshot_cache := None\<rparr>))"

definition fs_discard :: "string \<Rightarrow> fill_store \<Rightarrow> fill_store" where
  "fs_discard fid st =
     (if fid \<in> fs_seen st
      then st\<lparr>fs_seen := fs_seen st - {fid}, fs_snapshot_cache := None\<rparr> else st)"

definition fs_snapshot :: "fill_store \<Rightarrow> string list \<times> fill_store" where
  "fs_snapshot st =
     (case fs_snapshot_cache st of
        None \<Rightarrow> (let c = sorted_list_of_set (fs_seen st) in (c, st\<lparr>fs_snapshot_cache := Some c\<rparr>))
      | Some c \<Rightarrow> (c, st))"

definition fs_restore :: "string list \<Rightarrow> fill_store" where
  "fs_restore ids = fs_init (set ids)"

text \<open>The store refines a plain set: the cache, when present, is the sorted list of the members.\<close>

definition fs_inv :: "fill_store \<Rightarrow> bool" where
  "fs_inv st \<longleftrightarrow> finite (fs_seen st) \<and>
     (\<forall>c. fs_snapshot_cache st = Some c \<longrightarrow> c = sorted_list_of_set (fs_seen st))"

lemma fs_inv_init: "finite S \<Longrightarrow> fs_inv (fs_init S)"
  by (simp add: fs_inv_def fs_init_def)

lemma fs_inv_mark_seen: "fs_inv st \<Longrightarrow> fs_inv (snd (fs_mark_seen fid st))"
  by (auto simp: fs_inv_def fs_mark_seen_def)

lemma fs_inv_discard: "fs_inv st \<Longrightarrow> fs_inv (fs_discard fid st)"
  by (auto simp: fs_inv_def fs_discard_def)

lemma fs_inv_snapshot: "fs_inv st \<Longrightarrow> fs_inv (snd (fs_snapshot st))"
  by (auto simp: fs_inv_def fs_snapshot_def Let_def split: option.splits)

lemma fs_snapshot_sorted: "fs_inv st \<Longrightarrow> fst (fs_snapshot st) = sorted_list_of_set (fs_seen st)"
  by (auto simp: fs_inv_def fs_snapshot_def Let_def split: option.splits)

lemma fs_seen_simps [simp]:
  "fs_seen (fs_init S) = S"
  "fs_seen (fs_discard fid st) = fs_seen st - {fid}"
  "fs_seen (snd (fs_snapshot st)) = fs_seen st"
  "fs_seen (snd (fs_mark_seen fid st)) = (if blank fid then fs_seen st else insert fid (fs_seen st))"
  by (auto simp: fs_init_def fs_discard_def fs_snapshot_def fs_mark_seen_def Let_def split: option.splits)

lemma fs_seen_restore [simp]: "fs_seen (fs_restore ids) = set ids"
  by (simp add: fs_restore_def)

lemma fs_mark_seen_new_iff: "fst (fs_mark_seen fid st) = Inr True \<longleftrightarrow> \<not> blank fid \<and> fid \<notin> fs_seen st"
  by (auto simp: fs_mark_seen_def)

section \<open>The order manager\<close>

record order_manager =
  om_orders :: "(order_id, order) dict"
  om_machines :: "(order_id, order_state) dict"
  om_broker_to_order :: "(string, order_id) dict"
  om_fill_ids :: fill_store
  om_fill_ids_by_order :: "(order_id, string set) dict"
  om_seen_report_ids :: "string set"
  om_report_ids_by_order :: "(order_id, string set) dict"

definition om_init :: order_manager where
  "om_init = \<lparr>om_orders = [], om_machines = [], om_broker_to_order = [], om_fill_ids = fs_init {},
     om_fill_ids_by_order = [], om_seen_report_ids = {}, om_report_ids_by_order = []\<rparr>"

definition terminal_order_states :: "order_state set" where
  "terminal_order_states = {Filled, Cancelled, Rejected}"

text \<open>\<open>d.setdefault(k, set()).add(x)\<close>.\<close>

definition add_id :: "'k \<Rightarrow> string \<Rightarrow> ('k, string set) dict \<Rightarrow> ('k, string set) dict" where
  "add_id k x d = AList.update k (insert x (dict_lookup d k {})) d"

definition apply_event :: "order_id \<Rightarrow> order_event \<Rightarrow> order_manager \<Rightarrow> (order_manager, order_state) outcome" where
  "apply_event oid ev m =
     (case map_of (om_machines m) oid of
        None \<Rightarrow> (Inl (KeyError oid), m)
      | Some st \<Rightarrow>
          (case machine_apply ev st of
             Inl e \<Rightarrow> (Inl e, m)
           | Inr st' \<Rightarrow> (Inr st', m\<lparr>om_machines := AList.update oid st' (om_machines m)\<rparr>)))"

definition replace_order ::
  "order_id \<Rightarrow> order_state \<Rightarrow> string option \<Rightarrow> order_manager \<Rightarrow> (order_manager, order) outcome" where
  "replace_order oid st bid m =
     (case map_of (om_orders m) oid of
        None \<Rightarrow> (Inl (KeyError oid), m)
      | Some cur \<Rightarrow>
          (let o' = \<lparr>or_order_id = or_order_id cur, or_intent = or_intent cur, or_state = st,
                     or_broker_order_id =
                       (case bid of Some b \<Rightarrow> Some b | None \<Rightarrow> or_broker_order_id cur)\<rparr>
           in (Inr o', m\<lparr>om_orders := AList.update oid o' (om_orders m)\<rparr>)))"

definition create_order :: "order_intent \<Rightarrow> risk_decision \<Rightarrow> order_manager \<Rightarrow> (order_manager, order) outcome" where
  "create_order i d m =
     (if \<not> decision_approved d then (Inl (RiskRejectedOrder ''risk decision is not approved''), m)
      else let o' = \<lparr>or_order_id = oi_order_id i, or_intent = i, or_state = Created,
                     or_broker_order_id = None\<rparr>
           in (Inr o', m\<lparr>om_orders := AList.update (oi_order_id i) o' (om_orders m),
                         om_machines := AList.update (oi_order_id i) Created (om_machines m)\<rparr>))"

definition mark_sent :: "order_id \<Rightarrow> string \<Rightarrow> order_manager \<Rightarrow> (order_manager, order) outcome" where
  "mark_sent oid bid m =
     (if blank bid then (Inl (OrderLifecycleError ''broker_order_id must not be empty''), m)
      else obind (apply_event oid EvSent m) (\<lambda>st m1.
           obind (replace_order oid st (Some bid) m1) (\<lambda>o' m2.
             (Inr o', m2\<lparr>om_broker_to_order := AList.update bid oid (om_broker_to_order m2)\<rparr>))))"

definition request_cancel :: "cancel_intent \<Rightarrow> order_manager \<Rightarrow> (order_manager, order) outcome" where
  "request_cancel i m =
     obind (apply_event (ci_order_id i) EvCancelRequested m) (\<lambda>st m1.
       replace_order (ci_order_id i) st None m1)"

definition request_replace ::
  "replace_intent \<Rightarrow> risk_decision \<Rightarrow> order_manager \<Rightarrow> (order_manager, order) outcome" where
  "request_replace i d m =
     (if \<not> decision_approved d then (Inl (RiskRejectedOrder ''risk decision is not approved''), m)
      else obind (apply_event (ri_order_id i) EvReplaceRequested m) (\<lambda>st m1.
        case map_of (om_orders m1) (ri_order_id i) of
          None \<Rightarrow> (Inl (KeyError (ri_order_id i)), m1)
        | Some cur \<Rightarrow>
            (case mk_order_intent
                    \<lparr>oi_order_id = oi_order_id (or_intent cur),
                     oi_instrument_id = oi_instrument_id (or_intent cur),
                     oi_side = oi_side (or_intent cur),
                     oi_quantity = ri_new_quantity i,
                     oi_account_id = oi_account_id (or_intent cur),
                     oi_order_spec = oi_order_spec (or_intent cur),
                     oi_intent_id = None\<rparr> of
               Inl e \<Rightarrow> (Inl e, m1)
             | Inr intent' \<Rightarrow>
                 (let o' = \<lparr>or_order_id = or_order_id cur, or_intent = intent', or_state = st,
                            or_broker_order_id = or_broker_order_id cur\<rparr>
                  in (Inr o', m1\<lparr>om_orders := AList.update (ri_order_id i) o' (om_orders m1)\<rparr>)))))"

fun event_for_report :: "report_status \<Rightarrow> order_event" where
  "event_for_report RepAccepted = EvAccepted"
| "event_for_report RepPartiallyFilled = EvPartiallyFilled"
| "event_for_report RepFilled = EvFilled"
| "event_for_report RepCancelled = EvCancelled"
| "event_for_report RepRejected = EvRejected"

definition fills_for_report ::
  "order \<Rightarrow> execution_report \<Rightarrow> order_manager \<Rightarrow> (order_manager, order_fill list) outcome" where
  "fills_for_report o' r m =
     (case er_fill_id r of
        None \<Rightarrow> (Inr [], m)
      | Some fid \<Rightarrow>
          if er_filled_quantity r \<le> 0 then (Inr [], m)
          else (case er_fill_price r of
            None \<Rightarrow> (Inl (MissingFillPrice ''fill_price is required when filled_quantity is positive''), m)
          | Some px \<Rightarrow>
              (case fs_mark_seen fid (om_fill_ids m) of
                 (Inl e, fs) \<Rightarrow> (Inl e, m\<lparr>om_fill_ids := fs\<rparr>)
               | (Inr False, fs) \<Rightarrow> (Inr [], m\<lparr>om_fill_ids := fs\<rparr>)
               | (Inr True, fs) \<Rightarrow>
                   (let m1 = m\<lparr>om_fill_ids := fs,
                               om_fill_ids_by_order :=
                                 add_id (or_order_id o') fid (om_fill_ids_by_order m)\<rparr>
                    in case mk_order_fill
                              \<lparr>of_fill_id = fid, of_order_id = or_order_id o',
                               of_instrument_id = oi_instrument_id (or_intent o'),
                               of_side = oi_side (or_intent o'),
                               of_quantity = er_filled_quantity r, of_price = px,
                               of_commission = er_commission r, of_slippage = er_slippage r,
                               of_account_id = oi_account_id (or_intent o'),
                               of_intent_id = oi_intent_id (or_intent o')\<rparr> of
                         Inl e \<Rightarrow> (Inl e, m1)
                       | Inr f \<Rightarrow> (Inr [f], m1)))))"

definition process_report :: "execution_report \<Rightarrow> order_manager \<Rightarrow> (order_manager, processing_result) outcome" where
  "process_report r m =
     (case map_of (om_broker_to_order m) (er_broker_order_id r) of
        None \<Rightarrow> (Inl (UnknownBrokerOrder (er_broker_order_id r)), m)
      | Some oid \<Rightarrow>
          if er_report_id r \<in> om_seen_report_ids m
          then (case map_of (om_orders m) oid of
                  None \<Rightarrow> (Inl (KeyError oid), m)
                | Some o' \<Rightarrow> (Inr \<lparr>pr_order = o', pr_fills = []\<rparr>, m))
          else obind (apply_event oid (event_for_report (er_status r)) m) (\<lambda>st m1.
               obind (replace_order oid st None m1) (\<lambda>o' m2.
                 let m3 = m2\<lparr>om_seen_report_ids := insert (er_report_id r) (om_seen_report_ids m2),
                             om_report_ids_by_order :=
                               add_id oid (er_report_id r) (om_report_ids_by_order m2)\<rparr>
                 in obind (fills_for_report o' r m3) (\<lambda>fills m4.
                      (Inr \<lparr>pr_order = o', pr_fills = fills\<rparr>, m4)))))"

definition get_order :: "order_id \<Rightarrow> order_manager \<Rightarrow> order res" where
  "get_order oid m = (case map_of (om_orders m) oid of None \<Rightarrow> Inl (KeyError oid) | Some o' \<Rightarrow> Inr o')"

definition discard_terminal_order :: "order_id \<Rightarrow> order_manager \<Rightarrow> (order_manager, unit) outcome" where
  "discard_terminal_order oid m =
     (case map_of (om_orders m) oid of
        None \<Rightarrow> (Inl (KeyError oid), m)
      | Some o' \<Rightarrow>
          if or_state o' \<notin> terminal_order_states
          then (Inl (OrderLifecycleError ''only terminal orders can be discarded''), m)
          else (Inr (), m\<lparr>om_orders := AList.delete oid (om_orders m),
                 om_machines := AList.delete oid (om_machines m),
                 om_broker_to_order :=
                   (case or_broker_order_id o' of None \<Rightarrow> om_broker_to_order m
                    | Some b \<Rightarrow> AList.delete b (om_broker_to_order m)),
                 om_fill_ids :=
                   fold fs_discard
                     (sorted_list_of_set (dict_lookup (om_fill_ids_by_order m) oid {})) (om_fill_ids m),
                 om_fill_ids_by_order := AList.delete oid (om_fill_ids_by_order m),
                 om_seen_report_ids :=
                   om_seen_report_ids m - dict_lookup (om_report_ids_by_order m) oid {},
                 om_report_ids_by_order := AList.delete oid (om_report_ids_by_order m)\<rparr>))"

definition ids_by_order_payload :: "(order_id, string set) dict \<Rightarrow> (order_id \<times> string list) list" where
  "ids_by_order_payload d =
     map (\<lambda>(oid, ids). (oid, sorted_list_of_set ids))
       (filter (\<lambda>(oid, ids). ids \<noteq> {}) (sort_key fst d))"

definition ids_by_order_from_payload :: "(order_id \<times> string list) list \<Rightarrow> (order_id, string set) dict" where
  "ids_by_order_from_payload p = dict_of (map (\<lambda>(oid, ids). (oid, set ids)) p)"

definition om_snapshot :: "order_manager \<Rightarrow> order_state_snapshot \<times> order_manager" where
  "om_snapshot m =
     (let (fids, fs) = fs_snapshot (om_fill_ids m)
      in (\<lparr>ss_orders = map snd (om_orders m),
           ss_broker_to_order = om_broker_to_order m,
           ss_seen_fill_ids = fids,
           ss_seen_report_ids = sorted_list_of_set (om_seen_report_ids m),
           ss_fill_ids_by_order = ids_by_order_payload (om_fill_ids_by_order m),
           ss_report_ids_by_order = ids_by_order_payload (om_report_ids_by_order m)\<rparr>,
          m\<lparr>om_fill_ids := fs\<rparr>))"

definition om_restore :: "order_state_snapshot \<Rightarrow> order_manager" where
  "om_restore s =
     \<lparr>om_orders = dict_of (map (\<lambda>o'. (or_order_id o', o')) (ss_orders s)),
      om_machines = dict_of (map (\<lambda>o'. (or_order_id o', or_state o')) (ss_orders s)),
      om_broker_to_order = dict_of (ss_broker_to_order s),
      om_fill_ids = fs_restore (ss_seen_fill_ids s),
      om_fill_ids_by_order = ids_by_order_from_payload (ss_fill_ids_by_order s),
      om_seen_report_ids = set (ss_seen_report_ids s),
      om_report_ids_by_order = ids_by_order_from_payload (ss_report_ids_by_order s)\<rparr>"

section \<open>Facts about the state machine\<close>

lemmas machine_defs = machine_apply_def transition_table_def duplicate_terminal_events_def dict_lookup_def

lemma machine_apply_terminal:
  "machine_apply ev st = Inr st' \<Longrightarrow> st \<in> {Filled, Rejected} \<Longrightarrow> st' = st"
  by (cases st; cases ev) (simp_all add: machine_defs)

lemma machine_apply_Sent_event: "machine_apply EvSent st = Inr st' \<Longrightarrow> st = Created \<and> st' = Sent"
  by (cases st) (simp_all add: machine_defs)

lemma machine_apply_not_Created: "machine_apply ev st = Inr st' \<Longrightarrow> st' \<noteq> Created"
  by (cases st; cases ev) (auto simp: machine_defs)

lemma machine_apply_from_Created:
  "machine_apply ev Created = Inr st' \<Longrightarrow> ev = EvSent \<and> st' = Sent \<or> ev = EvRejected \<and> st' = Rejected"
  by (cases ev) (simp_all add: machine_defs)

lemma machine_apply_Rejected: "machine_apply ev Rejected = Inr st' \<longleftrightarrow> ev = EvRejected \<and> st' = Rejected"
  by (cases ev) (auto simp: machine_defs)

lemma machine_run_never_resends:
  "machine_run evs st = Inr st' \<Longrightarrow> st \<noteq> Created \<Longrightarrow> EvSent \<notin> set evs \<and> st' \<noteq> Created"
proof (induction evs arbitrary: st)
  case (Cons ev evs)
  then obtain st1 where st1: "machine_apply ev st = Inr st1" "machine_run evs st1 = Inr st'"
    by (auto simp: res_bind_Inr_iff)
  then have "st1 \<noteq> Created" by (blast dest: machine_apply_not_Created)
  with Cons.IH [OF st1(2)] Cons.prems(2) st1(1) show ?case
    using machine_apply_Sent_event [of st st1] by auto
qed simp

lemma machine_run_Rejected: "machine_run evs Rejected = Inr st' \<Longrightarrow> st' = Rejected \<and> set evs \<subseteq> {EvRejected}"
  by (induction evs) (auto simp: res_bind_Inr_iff machine_apply_Rejected)

text \<open>Legal order histories: from CREATED, a history the state machine accepts is empty, or holds
  nothing but (repeated) rejections and ends REJECTED, or starts with SENT and never sends again.
\<close>

theorem legal_histories:
  assumes "machine_run evs Created = Inr st"
  shows "evs = [] \<and> st = Created \<or>
         st = Rejected \<and> set evs = {EvRejected} \<or>
         (\<exists>rest. evs = EvSent # rest \<and> EvSent \<notin> set rest \<and> st \<noteq> Created)"
proof (cases evs)
  case Nil
  with assms show ?thesis by simp
next
  case (Cons ev rest)
  with assms obtain st1 where st1: "machine_apply ev Created = Inr st1" "machine_run rest st1 = Inr st"
    by (auto simp: res_bind_Inr_iff)
  from machine_apply_from_Created [OF st1(1)] show ?thesis
  proof
    assume "ev = EvSent \<and> st1 = Sent"
    with Cons st1(2) machine_run_never_resends [of rest Sent st] show ?thesis by auto
  next
    assume "ev = EvRejected \<and> st1 = Rejected"
    with Cons st1(2) machine_run_Rejected [of rest st] show ?thesis by auto
  qed
qed

theorem legal_histories_witness:
  "\<exists>rest. [EvSent, EvAccepted, EvPartiallyFilled, EvFilled] = EvSent # rest \<and> EvSent \<notin> set rest"
proof -
  have "machine_run [EvSent, EvAccepted, EvPartiallyFilled, EvFilled] Created = Inr Filled"
    by (simp add: machine_defs)
  from legal_histories [OF this] show ?thesis by simp
qed

text \<open>A FILLED or REJECTED order never changes state again, while a CANCELLED order can: a late
  fill reported after the cancellation moves it back to PARTIALLY_FILLED or FILLED, and nothing
  else does.
\<close>

theorem terminal_states:
  "(machine_run evs Filled = Inr st \<longrightarrow> st = Filled) \<and>
   (machine_run evs Rejected = Inr st \<longrightarrow> st = Rejected) \<and>
   (machine_apply ev Cancelled = Inr st \<longleftrightarrow>
      ev = EvCancelled \<and> st = Cancelled \<or> ev = EvPartiallyFilled \<and> st = PartiallyFilled \<or>
      ev = EvFilled \<and> st = Filled)"
proof -
  have *: "machine_run evs s = Inr st \<Longrightarrow> s \<in> {Filled, Rejected} \<Longrightarrow> st = s" for s
    by (induction evs) (auto simp: res_bind_Inr_iff dest!: machine_apply_terminal)
  have "machine_apply ev Cancelled = Inr st \<longleftrightarrow>
      ev = EvCancelled \<and> st = Cancelled \<or> ev = EvPartiallyFilled \<and> st = PartiallyFilled \<or>
      ev = EvFilled \<and> st = Filled"
    by (cases ev) (auto simp: machine_defs)
  with * show ?thesis by auto
qed

theorem terminal_states_witness:
  "machine_run [EvFilled, EvFilled] Filled = Inr Filled \<and>
   machine_apply EvFilled Cancelled = Inr Filled"
proof -
  have "machine_run [EvFilled, EvFilled] Filled = Inr Filled" by (simp add: machine_defs)
  then show ?thesis using terminal_states [of "[EvFilled, EvFilled]" Filled EvFilled] by simp
qed

section \<open>The invariant of the order manager\<close>

text \<open>
  Ownership of ids: a per-order map owns non-empty, pairwise disjoint, finite subsets of the
  global set.
\<close>

definition ids_owned :: "(order_id, string set) dict \<Rightarrow> string set \<Rightarrow> bool" where
  "ids_owned d g \<longleftrightarrow> dict_wf d \<and> finite g \<and>
     (\<forall>k ids. map_of d k = Some ids \<longrightarrow> ids \<noteq> {} \<and> ids \<subseteq> g) \<and>
     (\<forall>k k' ids ids'. map_of d k = Some ids \<longrightarrow> map_of d k' = Some ids' \<longrightarrow> k \<noteq> k' \<longrightarrow> ids \<inter> ids' = {})"

text \<open>Every tracked order has a machine in the same state, and is filed under its own id.\<close>

definition orders_inv :: "(order_id, order) dict \<Rightarrow> (order_id, order_state) dict \<Rightarrow> bool" where
  "orders_inv orders machines \<longleftrightarrow> dict_wf orders \<and> dict_wf machines \<and>
     (\<forall>oid. map_of machines oid = map_option or_state (map_of orders oid)) \<and>
     (\<forall>oid o'. map_of orders oid = Some o' \<longrightarrow> or_order_id o' = oid)"

definition om_inv :: "order_manager \<Rightarrow> bool" where
  "om_inv m \<longleftrightarrow>
     orders_inv (om_orders m) (om_machines m) \<and> dict_wf (om_broker_to_order m) \<and>
     fs_inv (om_fill_ids m) \<and>
     ids_owned (om_fill_ids_by_order m) (fs_seen (om_fill_ids m)) \<and>
     ids_owned (om_report_ids_by_order m) (om_seen_report_ids m)"

lemma orders_inv_update:
  "orders_inv orders machines \<Longrightarrow> oid = or_order_id o' \<Longrightarrow> st = or_state o' \<Longrightarrow>
     orders_inv (AList.update oid o' orders) (AList.update oid st machines)"
  by (auto simp: orders_inv_def update_conv')

lemma orders_inv_delete:
  "orders_inv orders machines \<Longrightarrow> orders_inv (AList.delete oid orders) (AList.delete oid machines)"
  by (auto simp: orders_inv_def delete_conv' split: if_splits)

lemma orders_inv_machine:
  "orders_inv orders machines \<Longrightarrow> map_of machines oid = Some st \<Longrightarrow>
     \<exists>o'. map_of orders oid = Some o' \<and> or_state o' = st \<and> or_order_id o' = oid"
  by (auto simp: orders_inv_def)

lemma ids_owned_add:
  assumes "ids_owned d g" and "x \<notin> g"
  shows "ids_owned (add_id k x d) (insert x g)"
  using assms unfolding ids_owned_def add_id_def
  by (auto simp: update_conv' dict_lookup_def split: option.splits if_splits)

lemma ids_owned_delete:
  assumes "ids_owned d g"
  shows "ids_owned (AList.delete k d) (g - dict_lookup d k {})"
  using assms unfolding ids_owned_def
  by (auto simp: delete_conv' dict_lookup_def split: option.splits if_splits) (meson disjoint_iff subsetD)+

subsection \<open>Every operation keeps the invariant\<close>

lemma om_init_inv: "om_inv om_init"
  by (simp add: om_inv_def om_init_def orders_inv_def ids_owned_def fs_inv_init)

lemma apply_event_cases:
  "(\<exists>e. apply_event oid ev m = (Inl e, m)) \<or>
   (\<exists>st st'. map_of (om_machines m) oid = Some st \<and> machine_apply ev st = Inr st' \<and>
      apply_event oid ev m = (Inr st', m\<lparr>om_machines := AList.update oid st' (om_machines m)\<rparr>))"
  by (auto simp: apply_event_def split: option.splits sum.splits)

text \<open>Advancing the machine and then replacing the order is one atomic update under the invariant.\<close>

definition set_order :: "order \<Rightarrow> order_manager \<Rightarrow> order_manager" where
  "set_order o' m = m\<lparr>om_machines := AList.update (or_order_id o') (or_state o') (om_machines m),
                     om_orders := AList.update (or_order_id o') o' (om_orders m)\<rparr>"

lemma set_order_inv: "om_inv m \<Longrightarrow> om_inv (set_order o' m)"
  by (auto simp: om_inv_def set_order_def orders_inv_update)

lemma om_inv_machine: "om_inv m \<Longrightarrow> map_of (om_machines m) oid = Some st \<Longrightarrow>
    \<exists>o'. map_of (om_orders m) oid = Some o' \<and> or_state o' = st \<and> or_order_id o' = oid"
  by (auto simp: om_inv_def orders_inv_machine)

lemma apply_then_replace:
  assumes "om_inv m" and "apply_event oid ev m = (Inr st', m1)"
  shows "\<exists>o'. map_of (om_orders m) oid = Some o' \<and> or_order_id o' = oid \<and>
           machine_apply ev (or_state o') = Inr st' \<and>
           m1 = m\<lparr>om_machines := AList.update oid st' (om_machines m)\<rparr> \<and>
           (let o'' = o'\<lparr>or_state := st', or_broker_order_id :=
                          (case bid of Some b \<Rightarrow> Some b | None \<Rightarrow> or_broker_order_id o')\<rparr>
            in replace_order oid st' bid m1 = (Inr o'', set_order o'' m))"
proof -
  from assms(2) obtain st where st: "map_of (om_machines m) oid = Some st" "machine_apply ev st = Inr st'"
    and m1: "m1 = m\<lparr>om_machines := AList.update oid st' (om_machines m)\<rparr>"
    using apply_event_cases [of oid ev m] by auto
  from om_inv_machine [OF assms(1) st(1)] obtain o' where
    o': "map_of (om_orders m) oid = Some o'" "or_state o' = st" "or_order_id o' = oid" by blast
  then show ?thesis using st m1
    by (intro exI [of _ o'], cases o') (auto simp: replace_order_def set_order_def Let_def)
qed

lemma create_order_inv: "om_inv m \<Longrightarrow> om_inv (snd (create_order i d m))"
  using set_order_inv [of m "\<lparr>or_order_id = oi_order_id i, or_intent = i, or_state = Created,
      or_broker_order_id = None\<rparr>"]
  by (auto simp: create_order_def Let_def set_order_def om_inv_def)

lemma mark_sent_inv:
  assumes "om_inv m" shows "om_inv (snd (mark_sent oid bid m))"
proof -
  { fix st m1 assume ev: "apply_event oid EvSent m = (Inr st, m1)"
    from apply_then_replace [OF assms ev, of "Some bid"] obtain o' where
      "replace_order oid st (Some bid) m1 = (Inr o', set_order o' m)" by (auto simp: Let_def)
    with set_order_inv [OF assms, of o'] have
      "om_inv (snd (obind (replace_order oid st (Some bid) m1) (\<lambda>o' m2.
         (Inr o', m2\<lparr>om_broker_to_order := AList.update bid oid (om_broker_to_order m2)\<rparr>))))"
      by (simp add: om_inv_def) }
  then show ?thesis using assms apply_event_cases [of oid EvSent m]
    by (auto simp: mark_sent_def)
qed

lemma request_cancel_inv:
  assumes "om_inv m" shows "om_inv (snd (request_cancel i m))"
  using assms apply_event_cases [of "ci_order_id i" EvCancelRequested m]
    apply_then_replace [OF assms, of "ci_order_id i" EvCancelRequested _ _ None]
  by (fastforce simp: request_cancel_def set_order_inv Let_def)

lemma request_replace_inv:
  assumes "om_inv m" and "0 < ri_new_quantity i"
  shows "om_inv (snd (request_replace i d m))"
proof (cases "apply_event (ri_order_id i) EvReplaceRequested m")
  case (Pair r m1)
  show ?thesis
  proof (cases r)
    case (Inl e)
    with Pair apply_event_cases [of "ri_order_id i" EvReplaceRequested m] assms show ?thesis
      by (auto simp: request_replace_def)
  next
    case (Inr st)
    from apply_then_replace [OF assms(1) Pair [unfolded Inr], of None] obtain cur where
      cur: "map_of (om_orders m) (ri_order_id i) = Some cur" "or_order_id cur = ri_order_id i"
      and m1: "m1 = m\<lparr>om_machines := AList.update (ri_order_id i) st (om_machines m)\<rparr>" by blast
    let ?o = "cur\<lparr>or_state := st, or_intent := (or_intent cur)\<lparr>oi_quantity := ri_new_quantity i, oi_intent_id := None\<rparr>\<rparr>"
    from set_order_inv [OF assms(1), of ?o] show ?thesis using assms Pair Inr cur m1
      by (cases cur, cases "or_intent cur")
         (auto simp: request_replace_def Let_def mk_order_intent_def blank_opt_def checked_def set_order_def)
  qed
qed

lemma fills_for_report_inv: "om_inv m \<Longrightarrow> om_inv (snd (fills_for_report o' r m))"
proof -
  assume inv: "om_inv m"
  { fix fid assume nb: "\<not> blank fid" "fid \<notin> fs_seen (om_fill_ids m)"
    then have "fs_mark_seen fid (om_fill_ids m) = (Inr True, snd (fs_mark_seen fid (om_fill_ids m)))"
      by (simp add: fs_mark_seen_def)
    moreover have "ids_owned (add_id (or_order_id o') fid (om_fill_ids_by_order m))
                     (fs_seen (snd (fs_mark_seen fid (om_fill_ids m))))"
      using inv nb by (simp add: om_inv_def ids_owned_add)
    moreover note fs_inv_mark_seen [of "om_fill_ids m" fid]
    ultimately have "\<exists>fs. fs_mark_seen fid (om_fill_ids m) = (Inr True, fs) \<and> fs_inv fs \<and>
        ids_owned (add_id (or_order_id o') fid (om_fill_ids_by_order m)) (fs_seen fs)"
      using inv by (auto simp: om_inv_def) }
  then show ?thesis using inv
    by (cases "er_fill_id r"; cases "er_fill_price r"; cases "blank (the (er_fill_id r))";
        cases "the (er_fill_id r) \<in> fs_seen (om_fill_ids m)")
       (fastforce simp: fills_for_report_def fs_mark_seen_def Let_def om_inv_def split: sum.splits)+
qed

lemma record_report_inv:
  assumes inv: "om_inv m" and new: "rid \<notin> om_seen_report_ids m"
  shows "om_inv ((set_order o' m)\<lparr>om_seen_report_ids := insert rid (om_seen_report_ids m),
     om_report_ids_by_order := add_id oid rid (om_report_ids_by_order m)\<rparr>)"
  using inv new by (simp add: om_inv_def set_order_def orders_inv_update ids_owned_add)

text \<open>What a new report does, once its order is known and its event is legal.\<close>

lemma process_report_new:
  assumes inv: "om_inv m"
    and b: "map_of (om_broker_to_order m) (er_broker_order_id r) = Some oid"
    and new: "er_report_id r \<notin> om_seen_report_ids m"
    and ev: "apply_event oid (event_for_report (er_status r)) m = (Inr st, m1)"
  shows "\<exists>o'. map_of (om_orders m) oid = Some o' \<and> or_order_id o' = oid \<and>
     machine_apply (event_for_report (er_status r)) (or_state o') = Inr st \<and>
     (let o'' = o'\<lparr>or_state := st\<rparr>;
          m3 = (set_order o'' m)\<lparr>om_seen_report_ids := insert (er_report_id r) (om_seen_report_ids m),
                 om_report_ids_by_order := add_id oid (er_report_id r) (om_report_ids_by_order m)\<rparr>
      in om_inv m3 \<and>
         process_report r m = obind (fills_for_report o'' r m3) (\<lambda>fills m4.
            (Inr \<lparr>pr_order = o'', pr_fills = fills\<rparr>, m4)))"
proof -
  from apply_then_replace [OF inv ev, of None] obtain o' where
    o': "map_of (om_orders m) oid = Some o'" "or_order_id o' = oid"
      "machine_apply (event_for_report (er_status r)) (or_state o') = Inr st"
    and ro: "replace_order oid st None m1 = (Inr (o'\<lparr>or_state := st\<rparr>), set_order (o'\<lparr>or_state := st\<rparr>) m)"
    by (auto simp: Let_def)
  have eq: "om_seen_report_ids (set_order x m) = om_seen_report_ids m"
    "om_report_ids_by_order (set_order x m) = om_report_ids_by_order m" for x
    by (simp_all add: set_order_def)
  show ?thesis
    using o' b new ev ro record_report_inv [OF inv new, where o' = "o'\<lparr>or_state := st\<rparr>" and oid = oid]
    by (intro exI [of _ o']) (simp add: process_report_def Let_def eq)
qed

lemma process_report_inv:
  assumes inv: "om_inv m" shows "om_inv (snd (process_report r m))"
proof (cases "map_of (om_broker_to_order m) (er_broker_order_id r)")
  case None
  with inv show ?thesis by (simp add: process_report_def)
next
  case (Some oid)
  note b = Some
  show ?thesis
  proof (cases "er_report_id r \<in> om_seen_report_ids m")
    case True
    with b inv show ?thesis by (simp add: process_report_def split: option.splits)
  next
    case False
    obtain x m1 where ev: "apply_event oid (event_for_report (er_status r)) m = (x, m1)" by fastforce
    show ?thesis
    proof (cases x)
      case (Inl e)
      with ev have "m1 = m" using apply_event_cases [of oid "event_for_report (er_status r)" m] by auto
      with b False ev Inl inv show ?thesis by (simp add: process_report_def)
    next
      case (Inr st)
      from process_report_new [OF inv b False ev [unfolded Inr]] show ?thesis
        by (auto simp: Let_def fills_for_report_inv)
    qed
  qed
qed

lemma fold_fs_discard_seen: "fs_seen (fold fs_discard ids st) = fs_seen st - set ids"
  by (induction ids arbitrary: st) auto

lemma fold_fs_discard_inv: "fs_inv st \<Longrightarrow> fs_inv (fold fs_discard ids st)"
  by (induction ids arbitrary: st) (auto simp: fs_inv_discard)

lemma ids_owned_finite: "ids_owned d g \<Longrightarrow> finite (dict_lookup d k {})"
  by (auto simp: ids_owned_def dict_lookup_def split: option.splits) (meson finite_subset)

lemma discard_inv:
  assumes inv: "om_inv m" shows "om_inv (snd (discard_terminal_order oid m))"
proof -
  let ?ids = "dict_lookup (om_fill_ids_by_order m) oid {}"
  from inv have "finite ?ids" by (auto simp: om_inv_def intro: ids_owned_finite)
  then have "fs_seen (fold fs_discard (sorted_list_of_set ?ids) (om_fill_ids m)) = fs_seen (om_fill_ids m) - ?ids"
    by (simp add: fold_fs_discard_seen)
  moreover from inv have "ids_owned (AList.delete oid (om_fill_ids_by_order m)) (fs_seen (om_fill_ids m) - ?ids)"
    by (simp add: om_inv_def ids_owned_delete)
  ultimately show ?thesis using inv
    by (auto simp: discard_terminal_order_def om_inv_def ids_owned_delete fold_fs_discard_inv
        orders_inv_delete split: option.splits)
qed

lemma om_snapshot_inv: "om_inv m \<Longrightarrow> om_inv (snd (om_snapshot m))"
  by (auto simp: om_snapshot_def om_inv_def case_prod_unfold Let_def fs_inv_snapshot)

subsection \<open>Sequences of manager operations\<close>

datatype om_op =
    OpCreate order_intent risk_decision
  | OpMarkSent order_id string
  | OpCancel cancel_intent
  | OpReplace replace_intent risk_decision
  | OpReport execution_report
  | OpDiscard order_id
  | OpSnapshot

text \<open>One call on the manager: the state after it (raised or not) and the fills it returned.\<close>

fun om_step :: "order_manager \<Rightarrow> om_op \<Rightarrow> order_manager \<times> order_fill list" where
  "om_step m (OpCreate i d) = (snd (create_order i d m), [])"
| "om_step m (OpMarkSent oid bid) = (snd (mark_sent oid bid m), [])"
| "om_step m (OpCancel i) = (snd (request_cancel i m), [])"
| "om_step m (OpReplace i d) = (snd (request_replace i d m), [])"
| "om_step m (OpReport r) =
     (snd (process_report r m),
      case fst (process_report r m) of Inl _ \<Rightarrow> [] | Inr res \<Rightarrow> pr_fills res)"
| "om_step m (OpDiscard oid) = (snd (discard_terminal_order oid m), [])"
| "om_step m OpSnapshot = (snd (om_snapshot m), [])"

text \<open>\<open>ReplaceIntent\<close> rejects non-positive quantities, so a replace operation carries a positive one.\<close>

fun op_valid :: "om_op \<Rightarrow> bool" where
  "op_valid (OpReplace i d) = (mk_replace_intent i = Inr i)"
| "op_valid _ = True"

fun no_discard :: "om_op \<Rightarrow> bool" where
  "no_discard (OpDiscard oid) = False"
| "no_discard _ = True"

interpretation om_inv_steps: kept_by_steps om_step om_inv op_valid
proof unfold_locales
  fix s m assume "om_inv s" "op_valid m"
  then show "om_inv (fst (om_step s m))"
    by (cases m) (auto simp: create_order_inv mark_sent_inv request_cancel_inv request_replace_inv
        process_report_inv discard_inv om_snapshot_inv mk_replace_intent_def split: if_splits)
qed

inductive om_reachable :: "order_manager \<Rightarrow> bool" where
  om_start: "om_reachable om_init"
| om_next: "om_reachable m \<Longrightarrow> op_valid op \<Longrightarrow> om_reachable (fst (om_step m op))"

lemma om_reachable_run: "list_all op_valid ops \<Longrightarrow> om_reachable m \<Longrightarrow> om_reachable (fst (run_steps om_step m ops))"
  by (induction ops arbitrary: m) (auto intro: om_next)

text \<open>C3. Consistency of the order manager: in every manager reachable by any sequence of create, mark
  sent, cancel, replace, report, discard and snapshot calls, raising calls included, each tracked
  order has a state machine in exactly its recorded state and is filed under its own id, the fill
  snapshot cache is the sorted list of the seen ids, and the fill and report ids of the orders are
  pairwise disjoint non-empty subsets of the global ones.
\<close>

theorem om_reachable_inv: "om_reachable m \<Longrightarrow> om_inv m"
proof (induction rule: om_reachable.induct)
  case om_start
  show ?case by (rule om_init_inv)
next
  case (om_next m op)
  from om_next.IH om_next.hyps(2) show ?case by (rule om_inv_steps.step_keeps)
qed

subsection \<open>Each fill is delivered once\<close>

lemma fills_for_report_fresh:
  assumes "fills_for_report o' r m = (Inr fs, m')"
  shows "fs = [] \<and> fs_seen (om_fill_ids m') = fs_seen (om_fill_ids m) \<or>
    (\<exists>f. fs = [f] \<and> of_fill_id f \<notin> fs_seen (om_fill_ids m) \<and> er_fill_id r = Some (of_fill_id f) \<and>
      of_order_id f = or_order_id o' \<and> of_quantity f = er_filled_quantity r \<and>
      of_instrument_id f = oi_instrument_id (or_intent o') \<and> of_side f = oi_side (or_intent o') \<and>
      of_account_id f = oi_account_id (or_intent o') \<and> of_commission f = er_commission r \<and>
      er_fill_price r = Some (of_price f) \<and> of_intent_id f = oi_intent_id (or_intent o') \<and>
      fs_seen (om_fill_ids m') = insert (of_fill_id f) (fs_seen (om_fill_ids m)))"
  using assms
  by (auto simp: fills_for_report_def fs_mark_seen_def Let_def mk_order_fill_def
      split: option.splits if_splits sum.splits)

lemma fills_for_report_seen_mono:
  "fs_seen (om_fill_ids m) \<subseteq> fs_seen (om_fill_ids (snd (fills_for_report o' r m)))"
  by (auto simp: fills_for_report_def fs_mark_seen_def Let_def split: option.splits sum.splits if_splits)

lemma apply_event_fill_ids: "om_fill_ids (snd (apply_event oid ev m)) = om_fill_ids m"
  by (auto simp: apply_event_def split: option.splits sum.splits)

lemma replace_order_fill_ids: "om_fill_ids (snd (replace_order oid st b m)) = om_fill_ids m"
  by (auto simp: replace_order_def Let_def split: option.splits)

lemma process_report_shape:
  "(\<exists>x m'. process_report r m = (x, m') \<and> om_fill_ids m' = om_fill_ids m \<and>
      (\<forall>res. x = Inr res \<longrightarrow> pr_fills res = [])) \<or>
   (\<exists>o' m3. om_fill_ids m3 = om_fill_ids m \<and>
      process_report r m = obind (fills_for_report o' r m3)
        (\<lambda>fills m4. (Inr \<lparr>pr_order = o', pr_fills = fills\<rparr>, m4)))"
proof (cases "map_of (om_broker_to_order m) (er_broker_order_id r)")
  case (Some oid)
  note b = Some
  show ?thesis
  proof (cases "er_report_id r \<in> om_seen_report_ids m")
    case True
    with b show ?thesis by (auto simp: process_report_def split: option.splits)
  next
    case False
    obtain x m1 where ev: "apply_event oid (event_for_report (er_status r)) m = (x, m1)" by fastforce
    with apply_event_fill_ids [of oid "event_for_report (er_status r)" m]
    have m1: "om_fill_ids m1 = om_fill_ids m" by simp
    show ?thesis
    proof (cases x)
      case (Inl e)
      with b False ev m1 show ?thesis by (simp add: process_report_def)
    next
      case (Inr st)
      obtain y m2 where ro: "replace_order oid st None m1 = (y, m2)" by fastforce
      with replace_order_fill_ids [of oid st None m1] m1 have m2: "om_fill_ids m2 = om_fill_ids m" by simp
      show ?thesis
      proof (cases y)
        case (Inl e)
        with b False ev Inr ro m2 show ?thesis by (simp add: process_report_def)
      next
        case (Inr o')
        with b False ev \<open>x = Inr st\<close> ro m2 show ?thesis
          by (intro disjI2 exI [of _ o'] exI [of _ "m2\<lparr>om_seen_report_ids :=
                 insert (er_report_id r) (om_seen_report_ids m2), om_report_ids_by_order :=
                 add_id oid (er_report_id r) (om_report_ids_by_order m2)\<rparr>"])
             (simp add: process_report_def Let_def)
      qed
    qed
  qed
qed (simp add: process_report_def)

text \<open>A manager after a report: nothing delivered, or one fresh fill, recorded as seen.\<close>

lemma process_report_fills:
  "(snd (om_step m (OpReport r)) = [] \<or>
     (\<exists>f. snd (om_step m (OpReport r)) = [f] \<and> of_fill_id f \<notin> fs_seen (om_fill_ids m))) \<and>
   fs_seen (om_fill_ids m) \<union> of_fill_id ` set (snd (om_step m (OpReport r)))
     \<subseteq> fs_seen (om_fill_ids (fst (om_step m (OpReport r))))"
  using process_report_shape [of r m]
proof (elim disjE exE conjE)
  fix x m' assume "process_report r m = (x, m')" "om_fill_ids m' = om_fill_ids m"
    "\<forall>res. x = Inr res \<longrightarrow> pr_fills res = []"
  then show ?thesis by (cases x) simp_all
next
  fix o' m3 assume 4: "om_fill_ids m3 = om_fill_ids m"
    "process_report r m = obind (fills_for_report o' r m3)
        (\<lambda>fills m4. (Inr \<lparr>pr_order = o', pr_fills = fills\<rparr>, m4))"
  obtain x m4 where f: "fills_for_report o' r m3 = (x, m4)" by fastforce
  show ?thesis
  proof (cases x)
    case (Inl e)
    with 4 f fills_for_report_seen_mono [of m3 o' r] show ?thesis by simp
  next
    case (Inr fs)
    with 4 f have st: "om_step m (OpReport r) = (m4, fs)" by simp
    from fills_for_report_fresh [OF f [unfolded Inr]]
    have "fs = [] \<and> fs_seen (om_fill_ids m4) = fs_seen (om_fill_ids m3) \<or>
      (\<exists>f. fs = [f] \<and> of_fill_id f \<notin> fs_seen (om_fill_ids m3) \<and>
         fs_seen (om_fill_ids m4) = insert (of_fill_id f) (fs_seen (om_fill_ids m3)))" by blast
    then show ?thesis
      unfolding st fst_conv snd_conv 4(1) [symmetric] by (elim disjE exE conjE) simp_all
  qed
qed

lemma om_step_other_fill_ids:
  "no_discard op \<Longrightarrow> (\<And>r. op \<noteq> OpReport r) \<Longrightarrow>
     fs_seen (om_fill_ids (fst (om_step m op))) = fs_seen (om_fill_ids m) \<and> snd (om_step m op) = []"
  by (cases op)
     (auto simp: create_order_def mark_sent_def request_cancel_def request_replace_def om_snapshot_def
       Let_def case_prod_unfold apply_event_def replace_order_def
       split: option.splits sum.splits if_splits)

lemma om_step_fills:
  assumes "no_discard op"
  shows "(snd (om_step m op) = [] \<or>
     (\<exists>f. snd (om_step m op) = [f] \<and> of_fill_id f \<notin> fs_seen (om_fill_ids m))) \<and>
   fs_seen (om_fill_ids m) \<union> of_fill_id ` set (snd (om_step m op)) \<subseteq> fs_seen (om_fill_ids (fst (om_step m op)))"
proof (cases "\<exists>r. op = OpReport r")
  case True
  then show ?thesis using process_report_fills by blast
next
  case False
  with om_step_other_fill_ids [OF assms, of m] show ?thesis by auto
qed

interpretation om_fills: exactly_once om_step "\<lambda>m. fs_seen (om_fill_ids m)" of_fill_id no_discard
proof unfold_locales
  fix op :: om_op and m :: order_manager assume ok: "no_discard op"
  note f = om_step_fills [OF ok, of m]
  from f show "of_fill_id ` set (snd (om_step m op)) \<inter> fs_seen (om_fill_ids m) = {}" by auto
  from f show "distinct (map of_fill_id (snd (om_step m op)))" by auto
  from f show "fs_seen (om_fill_ids m) \<union> of_fill_id ` set (snd (om_step m op))
      \<subseteq> fs_seen (om_fill_ids (fst (om_step m op)))" by blast
qed

text \<open>C2. Exactly-once delivery: over any sequence of manager operations that does not discard orders,
  with duplicated, reordered and failing reports, no fill id is returned twice, and none that the
  manager had already seen is returned.
\<close>

theorem fills_delivered_once:
  assumes "list_all no_discard ops"
  shows "distinct (map of_fill_id (snd (run_steps om_step m ops))) \<and>
         of_fill_id ` set (snd (run_steps om_step m ops)) \<inter> fs_seen (om_fill_ids m) = {}"
  using om_fills.run_distinct [OF assms, of m] om_fills.run_fresh [OF assms, of m] by blast

subsection \<open>Snapshot and restore\<close>

text \<open>Two managers that no operation can tell apart: the dictionaries agree as maps.\<close>

definition om_equiv :: "order_manager \<Rightarrow> order_manager \<Rightarrow> bool" where
  "om_equiv a b \<longleftrightarrow>
     om_orders a = om_orders b \<and> map_of (om_machines a) = map_of (om_machines b) \<and>
     om_broker_to_order a = om_broker_to_order b \<and>
     fs_seen (om_fill_ids a) = fs_seen (om_fill_ids b) \<and>
     map_of (om_fill_ids_by_order a) = map_of (om_fill_ids_by_order b) \<and>
     om_seen_report_ids a = om_seen_report_ids b \<and>
     map_of (om_report_ids_by_order a) = map_of (om_report_ids_by_order b)"

lemma sort_key_dict:
  "dict_wf d \<Longrightarrow> dict_wf (sort_key fst d) \<and> map_of (sort_key fst d) = map_of d"
proof -
  assume wf: "dict_wf d"
  have "mset (map fst (sort_key fst d)) = mset (map fst d)" by simp
  with wf have wf': "dict_wf (sort_key fst d)" by (metis mset_eq_imp_distinct_iff)
  have "map_of (sort_key fst d) = map_of d"
  proof
    fix k
    have "(k, v) \<in> set (sort_key fst d) \<longleftrightarrow> (k, v) \<in> set d" for v by simp
    then show "map_of (sort_key fst d) k = map_of d k"
      using wf wf' by (metis map_of_eq_Some_iff option.exhaust)
  qed
  with wf' show ?thesis by simp
qed

lemma payload_roundtrip:
  assumes own: "ids_owned d g"
  shows "map_of (ids_by_order_from_payload (ids_by_order_payload d)) = map_of d"
    and "dict_wf (ids_by_order_from_payload (ids_by_order_payload d))"
proof -
  let ?s = "sort_key fst d"
  from own have wf: "dict_wf d" by (simp add: ids_owned_def)
  note s = sort_key_dict [OF wf]
  have el: "ids \<noteq> {} \<and> finite ids" if "(k, ids) \<in> set ?s" for k ids
  proof -
    from that s have "map_of d k = Some ids" by (simp add: map_of_eq_Some_iff wf)
    with own show ?thesis by (auto simp: ids_owned_def dest: finite_subset)
  qed
  have "filter (\<lambda>(oid, ids). ids \<noteq> {}) ?s = ?s"
    using el by (intro filter_True) auto
  then have "map (\<lambda>(oid, ids). (oid, set ids)) (ids_by_order_payload d) = map id ?s"
    unfolding ids_by_order_payload_def map_map using el by (intro map_cong) auto
  then have "ids_by_order_from_payload (ids_by_order_payload d) = ?s"
    using s by (simp add: ids_by_order_from_payload_def dict_of_distinct)
  with s show "map_of (ids_by_order_from_payload (ids_by_order_payload d)) = map_of d"
    and "dict_wf (ids_by_order_from_payload (ids_by_order_payload d))" by simp_all
qed

lemma orders_roundtrip:
  assumes "orders_inv orders machines"
  shows "dict_of (map (\<lambda>o'. (or_order_id o', o')) (map snd orders)) = orders"
    and "map_of (dict_of (map (\<lambda>o'. (or_order_id o', or_state o')) (map snd orders))) = map_of machines"
proof -
  from assms have wf: "dict_wf orders" by (simp add: orders_inv_def)
  have key: "or_order_id o' = k" if "(k, o') \<in> set orders" for k o'
    using assms that wf by (simp add: orders_inv_def map_of_eq_Some_iff)
  have "map (\<lambda>o'. (or_order_id o', o')) (map snd orders) = map id orders"
    unfolding map_map using key by (intro map_cong) auto
  with wf show "dict_of (map (\<lambda>o'. (or_order_id o', o')) (map snd orders)) = orders"
    by (simp add: dict_of_distinct)
  have eq: "map (\<lambda>o'. (or_order_id o', or_state o')) (map snd orders) = map (\<lambda>(k, o'). (k, or_state o')) orders"
    unfolding map_map using key by (intro map_cong) auto
  have "dict_wf (map (\<lambda>(k, o'). (k, or_state o')) orders)"
    using wf by (simp add: comp_def case_prod_unfold)
  then show "map_of (dict_of (map (\<lambda>o'. (or_order_id o', or_state o')) (map snd orders))) = map_of machines"
    using assms unfolding eq
    by (simp only: dict_of_distinct map_of_map orders_inv_def) (auto simp: fun_eq_iff)
qed

lemma om_inv_equiv: "om_inv b \<Longrightarrow> om_equiv a b \<Longrightarrow> dict_wf (om_machines a) \<Longrightarrow> fs_inv (om_fill_ids a) \<Longrightarrow>
   dict_wf (om_fill_ids_by_order a) \<Longrightarrow> dict_wf (om_report_ids_by_order a) \<Longrightarrow> om_inv a"
  by (simp add: om_inv_def om_equiv_def orders_inv_def ids_owned_def)

text \<open>Recovery round trip: restoring the snapshot of a manager gives a manager with the same
  orders, state machines, broker mapping, seen fill and report ids and per-order id ownership, and
  it satisfies the invariant again.
\<close>

theorem snapshot_restore:
  assumes inv: "om_inv m"
  shows "om_equiv (om_restore (fst (om_snapshot m))) m \<and> om_inv (om_restore (fst (om_snapshot m)))"
proof -
  from inv have o: "orders_inv (om_orders m) (om_machines m)" and b: "dict_wf (om_broker_to_order m)"
    and f: "fs_inv (om_fill_ids m)"
    and fo: "ids_owned (om_fill_ids_by_order m) (fs_seen (om_fill_ids m))"
    and ro: "ids_owned (om_report_ids_by_order m) (om_seen_report_ids m)"
    by (simp_all add: om_inv_def)
  have fin: "finite (fs_seen (om_fill_ids m))" "finite (om_seen_report_ids m)"
    using fo ro by (simp_all add: ids_owned_def)
  let ?r = "om_restore (fst (om_snapshot m))"
  have "om_equiv ?r m"
    using orders_roundtrip [OF o] payload_roundtrip [OF fo] payload_roundtrip [OF ro] fin b
    by (simp add: om_equiv_def om_restore_def om_snapshot_def case_prod_unfold Let_def
        dict_of_distinct fs_snapshot_sorted [OF f])
  moreover have "om_inv ?r"
    by (rule om_inv_equiv [OF inv \<open>om_equiv ?r m\<close>])
       (simp_all add: om_restore_def om_snapshot_def case_prod_unfold Let_def fs_restore_def
        fs_inv_init ids_by_order_from_payload_def)
  ultimately show ?thesis ..
qed

subsection \<open>Behaviour of single operations\<close>

text \<open>What a report does, on every branch before fills are built: an unknown broker id and an
  illegal transition raise and change nothing, a report id already seen is acknowledged with the
  current order and no fills, and otherwise the order moves to the machine's next state and the
  report id is recorded, whether or not building the fills then raises.
\<close>

theorem process_report_branches:
  assumes inv: "om_inv m"
  shows "(map_of (om_broker_to_order m) (er_broker_order_id r) = None \<longrightarrow>
            process_report r m = (Inl (UnknownBrokerOrder (er_broker_order_id r)), m)) \<and>
    (\<forall>oid o'. map_of (om_broker_to_order m) (er_broker_order_id r) = Some oid \<longrightarrow>
              map_of (om_orders m) oid = Some o' \<longrightarrow>
       (er_report_id r \<in> om_seen_report_ids m \<longrightarrow>
          process_report r m = (Inr \<lparr>pr_order = o', pr_fills = []\<rparr>, m)) \<and>
       (\<forall>e. er_report_id r \<notin> om_seen_report_ids m \<longrightarrow>
          machine_apply (event_for_report (er_status r)) (or_state o') = Inl e \<longrightarrow>
          process_report r m = (Inl e, m)) \<and>
       (\<forall>st. er_report_id r \<notin> om_seen_report_ids m \<longrightarrow>
          machine_apply (event_for_report (er_status r)) (or_state o') = Inr st \<longrightarrow>
          er_report_id r \<in> om_seen_report_ids (snd (process_report r m)) \<and>
          map_of (om_orders (snd (process_report r m))) oid = Some (o'\<lparr>or_state := st\<rparr>) \<and>
          (\<forall>res. fst (process_report r m) = Inr res \<longrightarrow> pr_order res = o'\<lparr>or_state := st\<rparr>)))"
proof (intro conjI allI impI)
  fix oid o' st
  assume b: "map_of (om_broker_to_order m) (er_broker_order_id r) = Some oid"
    and o': "map_of (om_orders m) oid = Some o'" and new: "er_report_id r \<notin> om_seen_report_ids m"
    and ma: "machine_apply (event_for_report (er_status r)) (or_state o') = Inr st"
  from inv o' have mc: "map_of (om_machines m) oid = Some (or_state o')"
    by (simp add: om_inv_def orders_inv_def)
  with ma have "apply_event oid (event_for_report (er_status r)) m =
      (Inr st, m\<lparr>om_machines := AList.update oid st (om_machines m)\<rparr>)"
    by (simp add: apply_event_def)
  from process_report_new [OF inv b new this] o' obtain m3 where
    m3: "process_report r m = obind (fills_for_report (o'\<lparr>or_state := st\<rparr>) r m3)
         (\<lambda>fills m4. (Inr \<lparr>pr_order = o'\<lparr>or_state := st\<rparr>, pr_fills = fills\<rparr>, m4))"
      "er_report_id r \<in> om_seen_report_ids m3" "om_orders m3 = AList.update oid (o'\<lparr>or_state := st\<rparr>) (om_orders m)"
    by (auto simp: Let_def set_order_def)
  have frame: "om_seen_report_ids (snd (fills_for_report x r m3)) = om_seen_report_ids m3 \<and>
    om_orders (snd (fills_for_report x r m3)) = om_orders m3" for x
    by (auto simp: fills_for_report_def fs_mark_seen_def Let_def split: option.splits sum.splits)
  show "er_report_id r \<in> om_seen_report_ids (snd (process_report r m))"
    and "map_of (om_orders (snd (process_report r m))) oid = Some (o'\<lparr>or_state := st\<rparr>)"
    by (simp_all add: m3 frame update_conv')
  fix res assume "fst (process_report r m) = Inr res"
  then show "pr_order res = o'\<lparr>or_state := st\<rparr>"
    by (auto simp: m3(1) obind_def split: prod.splits sum.splits)
next
  fix oid o' e
  assume "map_of (om_broker_to_order m) (er_broker_order_id r) = Some oid"
    and o': "map_of (om_orders m) oid = Some o'" and "er_report_id r \<notin> om_seen_report_ids m"
    and "machine_apply (event_for_report (er_status r)) (or_state o') = Inl e"
  moreover from inv o' have "map_of (om_machines m) oid = Some (or_state o')"
    by (simp add: om_inv_def orders_inv_def)
  ultimately show "process_report r m = (Inl e, m)"
    by (simp add: process_report_def apply_event_def)
qed (simp_all add: process_report_def)

lemma ids_lookup: "ids_owned d g \<Longrightarrow> k \<noteq> k' \<Longrightarrow> dict_lookup d k {} \<inter> dict_lookup d k' {} = {}"
  unfolding ids_owned_def dict_lookup_def by (simp split: option.splits)

text \<open>Compaction: discarding succeeds exactly for tracked orders in a terminal state; it forgets
  the order and precisely the fill and report ids that order owned, so every id owned by another
  order is still recognised as a duplicate afterwards.
\<close>

theorem discard_compacts:
  assumes inv: "om_inv m"
  shows "(fst (discard_terminal_order oid m) = Inr () \<longleftrightarrow>
            (\<exists>o'. map_of (om_orders m) oid = Some o' \<and> or_state o' \<in> terminal_order_states)) \<and>
    (\<forall>m'. discard_terminal_order oid m = (Inr (), m') \<longrightarrow>
       map_of (om_orders m') = (map_of (om_orders m))(oid := None) \<and>
       fs_seen (om_fill_ids m') = fs_seen (om_fill_ids m) - dict_lookup (om_fill_ids_by_order m) oid {} \<and>
       om_seen_report_ids m' = om_seen_report_ids m - dict_lookup (om_report_ids_by_order m) oid {} \<and>
       (\<forall>k. k \<noteq> oid \<longrightarrow> dict_lookup (om_fill_ids_by_order m) k {} \<subseteq> fs_seen (om_fill_ids m') \<and>
            dict_lookup (om_report_ids_by_order m) k {} \<subseteq> om_seen_report_ids m'))"
proof -
  from inv have own: "ids_owned (om_fill_ids_by_order m) (fs_seen (om_fill_ids m))"
    "ids_owned (om_report_ids_by_order m) (om_seen_report_ids m)" by (simp_all add: om_inv_def)
  have sub: "ids_owned d g \<Longrightarrow> dict_lookup d k {} \<subseteq> g" for d g k
    by (auto simp: ids_owned_def dict_lookup_def split: option.splits)
  from own(1) have fin: "finite (dict_lookup (om_fill_ids_by_order m) oid {})" by (rule ids_owned_finite)
  have keep: "dict_lookup (om_fill_ids_by_order m) k {} \<subseteq>
        fs_seen (om_fill_ids m) - dict_lookup (om_fill_ids_by_order m) oid {} \<and>
      dict_lookup (om_report_ids_by_order m) k {} \<subseteq>
        om_seen_report_ids m - dict_lookup (om_report_ids_by_order m) oid {}" if "k \<noteq> oid" for k
    using ids_lookup [OF own(1) that] ids_lookup [OF own(2) that] sub [OF own(1)] sub [OF own(2)] by blast
  have "fst (discard_terminal_order oid m) = Inr () \<longleftrightarrow>
            (\<exists>o'. map_of (om_orders m) oid = Some o' \<and> or_state o' \<in> terminal_order_states)"
    by (auto simp: discard_terminal_order_def split: option.splits)
  then show ?thesis using keep fin
    by (auto simp: discard_terminal_order_def fold_fs_discard_seen delete_conv'
        split: option.splits if_splits)
qed

text \<open>A fill report without a price is lost: the call raises MISSING FILL PRICE only after the
  order has advanced and the report id is recorded as seen, so the broker's corrected report under
  the same report id is taken for a duplicate and delivers no fill.
\<close>

theorem missing_price_loses_fill:
  assumes inv: "om_inv m"
    and miss: "process_report r m = (Inl (MissingFillPrice msg), m')"
    and same: "er_report_id r' = er_report_id r" "er_broker_order_id r' = er_broker_order_id r"
  shows "\<exists>o'. process_report r' m' = (Inr \<lparr>pr_order = o', pr_fills = []\<rparr>, m')"
proof -
  from miss obtain oid where b: "map_of (om_broker_to_order m) (er_broker_order_id r) = Some oid"
    by (auto simp: process_report_def split: option.splits)
  from miss b have new: "er_report_id r \<notin> om_seen_report_ids m"
    by (auto simp: process_report_def split: option.splits)
  obtain x m1 where ev: "apply_event oid (event_for_report (er_status r)) m = (x, m1)" by fastforce
  have "\<exists>st. x = Inr st"
  proof (cases x)
    case (Inl e)
    with miss b new ev have "e = MissingFillPrice msg" by (simp add: process_report_def)
    with ev Inl show ?thesis
      by (auto simp: apply_event_def machine_apply_def split: option.splits sum.splits if_splits)
  qed simp
  then obtain st where "x = Inr st" ..
  from process_report_new [OF inv b new ev [unfolded this]] obtain o'' m3 where
    m3: "process_report r m = obind (fills_for_report o'' r m3)
         (\<lambda>fills m4. (Inr \<lparr>pr_order = o'', pr_fills = fills\<rparr>, m4))"
      "er_report_id r \<in> om_seen_report_ids m3" "map_of (om_orders m3) oid = Some o''"
      "om_broker_to_order m3 = om_broker_to_order m"
    by (auto simp: Let_def set_order_def update_conv')
  from miss m3(1) have "fills_for_report o'' r m3 = (Inl (MissingFillPrice msg), m')"
    by (auto simp: obind_def split: prod.splits sum.splits)
  then have "m' = m3"
    by (auto simp: fills_for_report_def fs_mark_seen_def Let_def mk_order_fill_def checked_def
        split: option.splits sum.splits if_splits)
  with m3 b same show ?thesis by (simp add: process_report_def)
qed

text \<open>Replacing an order keeps its id, instrument, side, account, specification and broker id and
  installs the new quantity, but drops the intent correlation id, so the fills of a replaced order
  no longer carry it.
\<close>

theorem replace_drops_intent_id:
  assumes "request_replace i d m = (Inr o', m')" and inv: "om_inv m"
  shows "decision_approved d \<and>
    (\<exists>cur. map_of (om_orders m) (ri_order_id i) = Some cur \<and>
       map_of (om_orders m') (ri_order_id i) = Some o' \<and> or_state o' = ReplaceRequested \<and>
       or_broker_order_id o' = or_broker_order_id cur \<and>
       or_intent o' = (or_intent cur)\<lparr>oi_quantity := ri_new_quantity i, oi_intent_id := None\<rparr>)"
proof -
  from assms(1) have d: "decision_approved d" by (auto simp: request_replace_def split: if_splits)
  obtain x m1 where ev: "apply_event (ri_order_id i) EvReplaceRequested m = (x, m1)" by fastforce
  from assms(1) d ev obtain st where x: "x = Inr st"
    by (cases x) (simp_all add: request_replace_def)
  from apply_then_replace [OF inv ev [unfolded x], of None] obtain cur where
    cur: "map_of (om_orders m) (ri_order_id i) = Some cur"
      "machine_apply EvReplaceRequested (or_state cur) = Inr st"
      "m1 = m\<lparr>om_machines := AList.update (ri_order_id i) st (om_machines m)\<rparr>" by blast
  from cur(2) have "st = ReplaceRequested"
    by (cases "or_state cur") (simp_all add: machine_defs)
  with assms(1) d ev x cur show ?thesis
    by (cases cur, cases "or_intent cur")
       (auto simp: request_replace_def mk_order_intent_def blank_opt_def checked_def Let_def update_conv'
         split: if_splits)
qed

section \<open>Concrete runs\<close>

definition sample_intent :: order_intent where
  "sample_intent = \<lparr>oi_order_id = ''O1'', oi_instrument_id = ''GC'', oi_side = BUY, oi_quantity = 2,
     oi_account_id = Some ''A1'', oi_order_spec = default_order_spec, oi_intent_id = Some ''I1''\<rparr>"

definition sample_fill_report :: "string \<Rightarrow> decimal option \<Rightarrow> execution_report" where
  "sample_fill_report rid px = (report_defaults rid ''B1'' RepFilled)
     \<lparr>er_filled_quantity := 2, er_fill_price := px, er_fill_id := Some ''F1''\<rparr>"

definition sample_sent :: order_manager where
  "sample_sent = fst (run_steps om_step om_init
     [OpCreate sample_intent (approve None [] []), OpMarkSent ''O1'' ''B1''])"

lemmas sample_defs = sample_sent_def sample_intent_def sample_fill_report_def report_defaults_def
  om_init_def create_order_def mark_sent_def apply_event_def replace_order_def process_report_def
  fills_for_report_def fs_mark_seen_def fs_init_def add_id_def mk_order_fill_def machine_defs Let_def
  checked_def blank_opt_def

lemma sample_sent_eq: "sample_sent =
  \<lparr>om_orders = [(''O1'', \<lparr>or_order_id = ''O1'', or_intent = sample_intent, or_state = Sent,
       or_broker_order_id = Some ''B1''\<rparr>)],
   om_machines = [(''O1'', Sent)], om_broker_to_order = [(''B1'', ''O1'')],
   om_fill_ids = fs_init {}, om_fill_ids_by_order = [], om_seen_report_ids = {},
   om_report_ids_by_order = []\<rparr>"
  by (simp add: sample_defs is_space_def)

lemma sample_sent_reachable: "om_reachable sample_sent"
  unfolding sample_sent_def by (rule om_reachable_run) (simp_all add: om_start)

lemma sample_sent_inv: "om_inv sample_sent"
  unfolding sample_sent_def by (rule om_inv_steps.run_keeps) (simp_all add: om_init_inv)

theorem om_reachable_inv_witness: "om_reachable sample_sent \<and> om_inv sample_sent"
  using om_reachable_inv [OF sample_sent_reachable] sample_sent_reachable by simp

theorem fills_delivered_once_witness:
  "let ops = [OpReport (sample_fill_report ''R1'' (Some 100)), OpReport (sample_fill_report ''R1'' (Some 100)),
              OpReport (sample_fill_report ''R2'' (Some 100))]
   in list_all no_discard ops \<and> map of_fill_id (snd (run_steps om_step sample_sent ops)) = [''F1''] \<and>
      distinct (map of_fill_id (snd (run_steps om_step sample_sent ops)))"
proof -
  let ?ops = "[OpReport (sample_fill_report ''R1'' (Some 100)), OpReport (sample_fill_report ''R1'' (Some 100)),
              OpReport (sample_fill_report ''R2'' (Some 100))]"
  have ok: "list_all no_discard ?ops" by simp
  have "map of_fill_id (snd (run_steps om_step sample_sent ?ops)) = [''F1'']"
    unfolding sample_sent_eq by (simp add: sample_defs is_space_def)
  with fills_delivered_once [OF ok, of sample_sent] ok show ?thesis by (simp only: Let_def)
qed

theorem snapshot_restore_witness:
  "om_inv sample_sent \<and> om_equiv (om_restore (fst (om_snapshot sample_sent))) sample_sent"
  using snapshot_restore [OF sample_sent_inv] sample_sent_inv by simp

theorem process_report_branches_witness:
  "process_report (sample_fill_report ''R1'' (Some 100)\<lparr>er_broker_order_id := ''B9''\<rparr>) sample_sent =
     (Inl (UnknownBrokerOrder ''B9''), sample_sent)"
proof -
  have "map_of (om_broker_to_order sample_sent)
      (er_broker_order_id (sample_fill_report ''R1'' (Some 100)\<lparr>er_broker_order_id := ''B9''\<rparr>)) = None"
    unfolding sample_sent_eq by simp
  with process_report_branches [OF sample_sent_inv,
      of "sample_fill_report ''R1'' (Some 100)\<lparr>er_broker_order_id := ''B9''\<rparr>"]
  show ?thesis by simp
qed

definition sample_filled :: order_manager where
  "sample_filled = fst (om_step sample_sent (OpReport (sample_fill_report ''R1'' (Some 100))))"

lemma sample_filled_inv: "om_inv sample_filled"
  unfolding sample_filled_def by (rule om_inv_steps.step_keeps) (simp_all add: sample_sent_inv)

theorem discard_compacts_witness:
  "fst (discard_terminal_order ''O1'' sample_filled) = Inr () \<and>
   fs_seen (om_fill_ids (snd (discard_terminal_order ''O1'' sample_filled))) = {}"
proof -
  have f: "map_of (om_orders sample_filled) ''O1'' =
      Some \<lparr>or_order_id = ''O1'', or_intent = sample_intent, or_state = Filled, or_broker_order_id = Some ''B1''\<rparr>"
    "fs_seen (om_fill_ids sample_filled) = {''F1''}"
    "dict_lookup (om_fill_ids_by_order sample_filled) ''O1'' {} = {''F1''}"
    unfolding sample_filled_def sample_sent_eq by (simp_all add: sample_defs is_space_def)
  note d = discard_compacts [OF sample_filled_inv, of "''O1''"]
  have ok: "fst (discard_terminal_order ''O1'' sample_filled) = Inr ()"
    using d f(1) by (simp add: terminal_order_states_def)
  then have "discard_terminal_order ''O1'' sample_filled =
      (Inr (), snd (discard_terminal_order ''O1'' sample_filled))" by (metis prod.collapse)
  with d f(2,3) ok show ?thesis by simp
qed

theorem missing_price_loses_fill_witness:
  "\<exists>o'. process_report (sample_fill_report ''R1'' (Some 100))
       (snd (process_report (sample_fill_report ''R1'' None) sample_sent)) =
     (Inr \<lparr>pr_order = o', pr_fills = []\<rparr>,
      snd (process_report (sample_fill_report ''R1'' None) sample_sent))"
proof (rule missing_price_loses_fill [OF sample_sent_inv])
  show "process_report (sample_fill_report ''R1'' None) sample_sent =
      (Inl (MissingFillPrice ''fill_price is required when filled_quantity is positive''),
       snd (process_report (sample_fill_report ''R1'' None) sample_sent))"
    unfolding sample_sent_eq by (simp add: sample_defs is_space_def)
qed (simp_all add: sample_fill_report_def report_defaults_def)

theorem replace_drops_intent_id_witness:
  "let i = \<lparr>ri_order_id = ''O1'', ri_new_quantity = 3\<rparr>; r = request_replace i (approve None [] []) sample_sent
   in \<exists>o'. fst r = Inr o' \<and> oi_quantity (or_intent o') = 3 \<and> oi_intent_id (or_intent o') = None"
proof -
  let ?r = "request_replace \<lparr>ri_order_id = ''O1'', ri_new_quantity = 3\<rparr> (approve None [] []) sample_sent"
  have "\<exists>o'. ?r = (Inr o', snd ?r)"
    unfolding sample_sent_eq
    by (simp add: request_replace_def sample_defs mk_order_intent_def)
  then obtain o' where r: "?r = (Inr o', snd ?r)" ..
  from replace_drops_intent_id [OF r sample_sent_inv] have
    "oi_quantity (or_intent o') = 3 \<and> oi_intent_id (or_intent o') = None" by auto
  with r show ?thesis unfolding Let_def by (metis fst_conv)
qed

end
