(* ===== verification/Simulated_Execution.thy ===== *)
theory Simulated_Execution
  imports Broker_Boundary Order_Lifecycle
begin

text \<open>
  The two simulated counterparties: \<open>SimulatedExecutionAdapter\<close>, which fills one order against one
  bar, and \<open>SimulatedBrokerAdapter\<close>, a stateful broker that hands out broker order ids and report
  ids. The locale \<open>execution_adapter\<close> is the \<open>ExecutionAdapter\<close> protocol the runtime actors rely on.
\<close>

section \<open>Bar-touch fills (\<open>adapters/simulated_execution_adapter.py\<close>)\<close>

record fill_decision =
  fd_triggered :: bool
  fd_fill_price :: decimal

record simulated_adapter =
  sa_cost_model :: cost_model
  sa_capabilities :: broker_capabilities

definition unsupported_sim_order_types :: "order_type list" where
  "unsupported_sim_order_types = [TRAILING_STOP, MARKET_ON_OPEN, MARKET_ON_CLOSE, ICEBERG]"

definition sim_supported_order_types :: "order_type list" where
  "sim_supported_order_types = filter (\<lambda>t. t \<notin> set unsupported_sim_order_types) all_order_types"

definition default_simulated_capabilities :: broker_capabilities where
  "default_simulated_capabilities = (capabilities_defaults ''simulated'')\<lparr>bc_fractional := True,
     bc_stop_orders := True, bc_order_types := sim_supported_order_types, bc_time_in_force := all_time_in_force\<rparr>"

definition resolve_bar_range :: "decimal \<Rightarrow> decimal option \<Rightarrow> decimal option \<Rightarrow> (decimal \<times> decimal) res" where
  "resolve_bar_range market_price bar_high bar_low =
     (case (bar_high, bar_low) of
        (None, None) \<Rightarrow> Inr (market_price, market_price)
      | (Some h, Some l) \<Rightarrow>
          if h < l then Inl (ValueError ''bar_high must be greater than or equal to bar_low'')
          else if market_price < l \<or> market_price > h
          then Inl (ValueError ''market_price must lie within the bar range'')
          else Inr (h, l)
      | _ \<Rightarrow> Inl (ValueError ''bar_high and bar_low must be provided together''))"

definition validate_order :: "broker_capabilities \<Rightarrow> order_intent \<Rightarrow> unit res" where
  "validate_order c intent =
     (let t = os_order_type (oi_order_spec intent); q = oi_quantity intent
      in if \<not> supports_order_type c t then
           Inl (ValueError (if t = MARKET then ''market orders are not supported by broker capabilities''
                            else ''order type is not supported by broker capabilities''))
         else if \<not> supports_tif c (os_time_in_force (oi_order_spec intent)) then
           Inl (ValueError ''time in force is not supported by broker capabilities'')
         else if \<not> bc_fractional c \<and> q \<noteq> integral_half_even q then
           Inl (ValueError ''fractional quantity is not supported'')
         else validate_order_quantity c q)"

definition evaluate_limit :: "order_intent \<Rightarrow> decimal \<Rightarrow> decimal \<Rightarrow> fill_decision res" where
  "evaluate_limit intent bar_high bar_low =
     (case os_limit_price (oi_order_spec intent) of
        None \<Rightarrow> Inl (ValueError ''LIMIT order requires limit_price'')
      | Some limit_price \<Rightarrow>
          if oi_side intent = BUY then
            if bar_low \<le> limit_price
            then Inr \<lparr>fd_triggered = True, fd_fill_price = min limit_price bar_high\<rparr>
            else Inr \<lparr>fd_triggered = False, fd_fill_price = limit_price\<rparr>
          else if bar_high \<ge> limit_price
            then Inr \<lparr>fd_triggered = True, fd_fill_price = max limit_price bar_low\<rparr>
            else Inr \<lparr>fd_triggered = False, fd_fill_price = limit_price\<rparr>)"

definition evaluate_stop :: "order_intent \<Rightarrow> decimal \<Rightarrow> decimal \<Rightarrow> fill_decision res" where
  "evaluate_stop intent bar_high bar_low =
     (case os_stop_price (oi_order_spec intent) of
        None \<Rightarrow> Inl (ValueError ''STOP order requires stop_price'')
      | Some stop_price \<Rightarrow>
          if oi_side intent = BUY then
            if bar_high \<ge> stop_price
            then Inr \<lparr>fd_triggered = True, fd_fill_price = max stop_price bar_low\<rparr>
            else Inr \<lparr>fd_triggered = False, fd_fill_price = stop_price\<rparr>
          else if bar_low \<le> stop_price
            then Inr \<lparr>fd_triggered = True, fd_fill_price = min stop_price bar_high\<rparr>
            else Inr \<lparr>fd_triggered = False, fd_fill_price = stop_price\<rparr>)"

definition evaluate_stop_limit :: "order_intent \<Rightarrow> decimal \<Rightarrow> decimal \<Rightarrow> fill_decision res" where
  "evaluate_stop_limit intent bar_high bar_low =
     (case (os_stop_price (oi_order_spec intent), os_limit_price (oi_order_spec intent)) of
        (Some stop_price, Some limit_price) \<Rightarrow>
          if oi_side intent = BUY then
            if bar_high \<ge> stop_price \<and> bar_low \<le> limit_price
            then Inr \<lparr>fd_triggered = True, fd_fill_price = min limit_price bar_high\<rparr>
            else Inr \<lparr>fd_triggered = False, fd_fill_price = limit_price\<rparr>
          else if bar_low \<le> stop_price \<and> bar_high \<ge> limit_price
            then Inr \<lparr>fd_triggered = True, fd_fill_price = max limit_price bar_low\<rparr>
            else Inr \<lparr>fd_triggered = False, fd_fill_price = limit_price\<rparr>
      | _ \<Rightarrow> Inl (ValueError ''STOP_LIMIT order requires stop_price and limit_price''))"

definition evaluate_fill :: "order_intent \<Rightarrow> decimal \<Rightarrow> decimal \<Rightarrow> decimal \<Rightarrow> fill_decision res" where
  "evaluate_fill intent market_price bar_high bar_low =
     (case os_order_type (oi_order_spec intent) of
        MARKET \<Rightarrow> Inr \<lparr>fd_triggered = True, fd_fill_price = market_price\<rparr>
      | BRACKET \<Rightarrow> Inr \<lparr>fd_triggered = True, fd_fill_price = market_price\<rparr>
      | LIMIT \<Rightarrow> evaluate_limit intent bar_high bar_low
      | STOP \<Rightarrow> evaluate_stop intent bar_high bar_low
      | STOP_LIMIT \<Rightarrow> evaluate_stop_limit intent bar_high bar_low
      | _ \<Rightarrow> Inr \<lparr>fd_triggered = False, fd_fill_price = market_price\<rparr>)"

definition rejected_report :: "string \<Rightarrow> string \<Rightarrow> string \<Rightarrow> instant option \<Rightarrow> execution_report res" where
  "rejected_report boid reason_code failure_reason fill_time =
     mk_execution_report ((report_defaults (boid @ ''-reject-1'') boid RepRejected)
       \<lparr>er_fill_time := fill_time, er_reason_code := Some reason_code, er_failure_reason := Some failure_reason\<rparr>)"

definition fill_report ::
  "simulated_adapter \<Rightarrow> order_intent \<Rightarrow> string \<Rightarrow> decimal \<Rightarrow> instant option \<Rightarrow> execution_report res" where
  "fill_report a intent boid base_price bar_time =
     (let slippage = ddiv (dmul base_price (cm_slippage_bps (sa_cost_model a))) 10000;
          fill_price = (if oi_side intent = BUY then dadd base_price slippage else dsub base_price slippage);
          commission = dmul (cm_fixed_commission_per_contract (sa_cost_model a)) (oi_quantity intent)
      in mk_execution_report ((report_defaults (boid @ ''-report-1'') boid RepFilled)
           \<lparr>er_filled_quantity := oi_quantity intent, er_fill_price := Some fill_price,
            er_fill_id := Some (boid @ ''-fill-1''), er_commission := commission,
            er_slippage := dabs (dsub fill_price base_price), er_fill_time := bar_time\<rparr>))"

definition execute_market_order ::
  "simulated_adapter \<Rightarrow> order_intent \<Rightarrow> string \<Rightarrow> decimal \<Rightarrow> decimal option \<Rightarrow> decimal option \<Rightarrow> instant option \<Rightarrow> execution_report res" where
  "execute_market_order a intent boid market_price bar_high bar_low bar_time =
     (if market_price < 0 then Inl (ValueError ''market_price must be non-negative'')
      else let t = os_order_type (oi_order_spec intent) in
      if t \<in> set unsupported_sim_order_types then
        rejected_report boid ''UNSUPPORTED_ORDER_TYPE''
          (''simulated execution does not support '' @ order_type_value t @ '' orders'') bar_time
      else res_bind (validate_order (sa_capabilities a) intent) (\<lambda>_.
        res_bind (resolve_bar_range market_price bar_high bar_low) (\<lambda>(high, low).
          res_bind (evaluate_fill intent market_price high low) (\<lambda>decision.
            if \<not> fd_triggered decision then
              mk_execution_report ((report_defaults (boid @ ''-report-1'') boid RepAccepted)
                \<lparr>er_fill_time := bar_time\<rparr>)
            else fill_report a intent boid (fd_fill_price decision) bar_time))))"

definition sim_cancel_order :: "string \<Rightarrow> execution_report res" where
  "sim_cancel_order boid = mk_execution_report (report_defaults (boid @ ''-cancel-1'') boid RepCancelled)"

definition sim_replace_order :: "string \<Rightarrow> execution_report res" where
  "sim_replace_order boid = mk_execution_report (report_defaults (boid @ ''-replace-1'') boid RepAccepted)"

text \<open>\<open>ImmediateFillModel.fill\<close> of \<open>execution/simulator/fill_model.py\<close>.\<close>

definition immediate_fill :: "order_intent \<Rightarrow> string \<Rightarrow> decimal \<Rightarrow> execution_report res" where
  "immediate_fill intent boid market_price =
     (if market_price < 0 then Inl (ValueError ''market_price must be non-negative'')
      else mk_execution_report ((report_defaults (boid @ ''-report-1'') boid RepFilled)
        \<lparr>er_filled_quantity := oi_quantity intent, er_fill_price := Some market_price,
         er_fill_id := Some (boid @ ''-fill-1'')\<rparr>))"

section \<open>The simulated broker (\<open>simulation/broker.py\<close>)\<close>

record simulated_broker =
  sb_broker_id :: broker_id
  sb_orders :: "(order_id, broker_order_request) dict"
  sb_broker_order_ids :: "(order_id, string) dict"
  sb_sequence :: nat

definition sb_init :: "broker_id option \<Rightarrow> simulated_broker" where
  "sb_init b = \<lparr>sb_broker_id = (case b of None \<Rightarrow> ''simulated'' | Some b \<Rightarrow> b), sb_orders = [],
     sb_broker_order_ids = [], sb_sequence = 0\<rparr>"

definition sb_capabilities :: "simulated_broker \<Rightarrow> broker_capabilities" where
  "sb_capabilities s = (capabilities_defaults (sb_broker_id s))\<lparr>bc_replace := True\<rparr>"

definition sb_report ::
  "broker_order_request \<Rightarrow> string \<Rightarrow> report_status \<Rightarrow> decimal \<Rightarrow> decimal option \<Rightarrow> string option \<Rightarrow> simulated_broker \<Rightarrow>
   (simulated_broker, broker_execution_report) outcome" where
  "sb_report q boid status filled_quantity fill_price fill_id s =
     (let s1 = s\<lparr>sb_sequence := sb_sequence s + 1\<rparr>
      in (mk_broker_execution_report
            \<lparr>br_report_id = sb_broker_id s1 @ ''-report-'' @ nat_str (sb_sequence s1),
             br_broker_id = sb_broker_id s1, br_broker_order_id = boid, br_order_id = bq_order_id q,
             br_account_id = bq_account_id q, br_strategy_id = bq_strategy_id q,
             br_instrument_id = bq_instrument_id q, br_status = status, br_filled_quantity = filled_quantity,
             br_fill_price = fill_price, br_fill_id = fill_id, br_fill_time = None\<rparr>, s1))"

definition sb_submit_order ::
  "broker_order_request \<Rightarrow> simulated_broker \<Rightarrow> (simulated_broker, broker_execution_report) outcome" where
  "sb_submit_order q s =
     (let s1 = s\<lparr>sb_orders := AList.update (bq_order_id q) q (sb_orders s)\<rparr>;
          fresh = sb_broker_id s1 @ ''-'' @ nat_str (length (sb_broker_order_ids s1) + 1);
          boid = (case map_of (sb_broker_order_ids s1) (bq_order_id q) of None \<Rightarrow> fresh | Some b \<Rightarrow> b);
          s2 = s1\<lparr>sb_broker_order_ids := setdefault (bq_order_id q) fresh (sb_broker_order_ids s1)\<rparr>
      in sb_report q boid RepAccepted 0 None None s2)"

definition sb_cancel_order :: "order_id \<Rightarrow> simulated_broker \<Rightarrow> (simulated_broker, broker_execution_report) outcome" where
  "sb_cancel_order oid s =
     (case map_of (sb_orders s) oid of
        None \<Rightarrow> (Inl (KeyError oid), s)
      | Some q \<Rightarrow> (case map_of (sb_broker_order_ids s) oid of
                     None \<Rightarrow> (Inl (KeyError oid), s)
                   | Some boid \<Rightarrow> sb_report q boid RepCancelled 0 None None s))"

definition sb_replace_order ::
  "order_id \<Rightarrow> decimal \<Rightarrow> simulated_broker \<Rightarrow> (simulated_broker, broker_execution_report) outcome" where
  "sb_replace_order oid new_quantity s =
     (if new_quantity \<le> 0 then (Inl (ValueError ''new_quantity must be positive''), s)
      else case map_of (sb_orders s) oid of
        None \<Rightarrow> (Inl (KeyError oid), s)
      | Some q0 \<Rightarrow>
         (case mk_broker_order_request (q0\<lparr>bq_quantity := new_quantity\<rparr>) of
            Inl e \<Rightarrow> (Inl e, s)
          | Inr q \<Rightarrow>
             (let s1 = s\<lparr>sb_orders := AList.update oid q (sb_orders s)\<rparr>
              in case map_of (sb_broker_order_ids s1) oid of
                   None \<Rightarrow> (Inl (KeyError oid), s1)
                 | Some boid \<Rightarrow> sb_report q boid RepAccepted 0 None None s1)))"

definition sb_emit_fill ::
  "order_id \<Rightarrow> decimal \<Rightarrow> decimal \<Rightarrow> string \<Rightarrow> simulated_broker \<Rightarrow> (simulated_broker, broker_execution_report) outcome" where
  "sb_emit_fill oid quantity price fill_id s =
     (if quantity \<le> 0 then (Inl (ValueError ''quantity must be positive''), s)
      else if price < 0 then (Inl (ValueError ''price must be non-negative''), s)
      else if blank fill_id then (Inl (ValueError ''fill_id must not be empty''), s)
      else case map_of (sb_orders s) oid of
        None \<Rightarrow> (Inl (KeyError oid), s)
      | Some q \<Rightarrow>
         (case map_of (sb_broker_order_ids s) oid of
            None \<Rightarrow> (Inl (KeyError oid), s)
          | Some boid \<Rightarrow>
              sb_report q boid (if quantity \<ge> bq_quantity q then RepFilled else RepPartiallyFilled)
                quantity (Some price) (Some fill_id) s))"

datatype sb_op =
    Submit broker_order_request
  | Cancel order_id
  | Replace order_id decimal
  | EmitFill order_id decimal decimal string

fun sb_call :: "sb_op \<Rightarrow> simulated_broker \<Rightarrow> (simulated_broker, broker_execution_report) outcome" where
  "sb_call (Submit q) s = sb_submit_order q s"
| "sb_call (Cancel i) s = sb_cancel_order i s"
| "sb_call (Replace i q) s = sb_replace_order i q s"
| "sb_call (EmitFill i q p f) s = sb_emit_fill i q p f s"

definition sb_step :: "simulated_broker \<Rightarrow> sb_op \<Rightarrow> simulated_broker \<times> broker_execution_report list" where
  "sb_step s op = (case sb_call op s of (Inl e, s') \<Rightarrow> (s', []) | (Inr r, s') \<Rightarrow> (s', [r]))"

section \<open>The adapter contract\<close>

text \<open>
  What the order manager relies on when it gets a report from an execution adapter: the report is
  valid, answers for the broker order that was asked about, and a fill carries its price, a fill
  id and the ordered quantity.
\<close>

locale execution_adapter =
  fixes execute :: "order_intent \<Rightarrow> string \<Rightarrow> decimal \<Rightarrow> instant option \<Rightarrow> execution_report res"
    and cancel :: "string \<Rightarrow> execution_report res"
    and amend :: "string \<Rightarrow> execution_report res"
  assumes execute_valid: "execute i boid p t = Inr r \<Longrightarrow> mk_execution_report r = Inr r \<and> er_broker_order_id r = boid"
    and execute_fill: "execute i boid p t = Inr r \<Longrightarrow> er_status r = RepFilled \<Longrightarrow>
      er_filled_quantity r = oi_quantity i \<and> er_fill_price r \<noteq> None \<and> (\<exists>f. er_fill_id r = Some f \<and> \<not> blank f)"
    and cancel_valid: "cancel boid = Inr r \<Longrightarrow> er_broker_order_id r = boid \<and> er_status r = RepCancelled"
    and amend_valid: "amend boid = Inr r \<Longrightarrow> er_broker_order_id r = boid \<and> er_status r = RepAccepted"
begin

text \<open>A fill from an adapter becomes exactly one order fill, unless its fill id was seen before.\<close>

lemma adapter_fill_delivered:
  assumes "execute (or_intent ord) boid p t = Inr r" and "er_status r = RepFilled"
    and "mk_order_intent (or_intent ord) = Inr i"
    and "the (er_fill_id r) \<notin> fs_seen (om_fill_ids m)"
  shows "\<exists>f m'. fills_for_report ord r m = (Inr [f], m') \<and> of_quantity f = oi_quantity (or_intent ord) \<and>
     Some (of_price f) = er_fill_price r \<and> of_order_id f = or_order_id ord \<and> of_side f = oi_side (or_intent ord)"
proof -
  from execute_fill [OF assms(1,2)] obtain fid px where
    r: "er_filled_quantity r = oi_quantity (or_intent ord)" "er_fill_price r = Some px" "er_fill_id r = Some fid" "\<not> blank fid"
    by auto
  moreover have "0 < oi_quantity (or_intent ord)" "\<not> blank_opt (oi_intent_id (or_intent ord))"
    using assms(3) by (auto simp: ctor_simps split: if_splits)
  ultimately show ?thesis using assms(4)
    by (simp add: fills_for_report_def fs_mark_seen_def Let_def ctor_simps checked_def)
qed

end

lemma mk_execution_report_id: "mk_execution_report r = Inr r' \<Longrightarrow> r' = r \<and> mk_execution_report r = Inr r"
  by (simp add: ctor_simps)

lemma execute_cases:
  assumes "execute_market_order a intent boid p bh bl t = Inr r"
  shows "(\<exists>e. rejected_report boid ''UNSUPPORTED_ORDER_TYPE'' e t = Inr r \<and>
            os_order_type (oi_order_spec intent) \<in> set unsupported_sim_order_types) \<or>
     (\<exists>h l d. resolve_bar_range p bh bl = Inr (h, l) \<and> evaluate_fill intent p h l = Inr d \<and> 0 \<le> p \<and>
        validate_order (sa_capabilities a) intent = Inr () \<and>
        (\<not> fd_triggered d \<and> mk_execution_report
            ((report_defaults (boid @ ''-report-1'') boid RepAccepted)\<lparr>er_fill_time := t\<rparr>) = Inr r \<or>
         fd_triggered d \<and> fill_report a intent boid (fd_fill_price d) t = Inr r))"
  using assms unfolding execute_market_order_def Let_def
  by (auto simp: res_bind_Inr_iff split: if_splits)

lemma fill_report_fields:
  assumes "fill_report a intent boid base t = Inr r"
  defines "slip \<equiv> ddiv (dmul base (cm_slippage_bps (sa_cost_model a))) 10000"
  shows "mk_execution_report r = Inr r" "er_broker_order_id r = boid" "er_status r = RepFilled"
    "er_filled_quantity r = oi_quantity intent" "er_fill_id r = Some (boid @ ''-fill-1'')"
    "er_fill_price r = Some (if oi_side intent = BUY then dadd base slip else dsub base slip)"
  using mk_execution_report_id [OF assms(1) [unfolded fill_report_def Let_def]]
  by (simp_all add: report_defaults_def slip_def)

lemma accepted_fields:
  assumes "mk_execution_report ((report_defaults (boid @ ''-report-1'') boid RepAccepted)\<lparr>er_fill_time := t\<rparr>) = Inr r"
  shows "mk_execution_report r = Inr r" "er_broker_order_id r = boid" "er_status r = RepAccepted"
    "er_report_id r = boid @ ''-report-1''"
  using mk_execution_report_id [OF assms] by (simp_all add: report_defaults_def)

lemma rejected_fields:
  assumes "rejected_report boid c e t = Inr r"
  shows "mk_execution_report r = Inr r" "er_broker_order_id r = boid" "er_status r = RepRejected"
  using mk_execution_report_id [OF assms [unfolded rejected_report_def]] by (simp_all add: report_defaults_def)

lemma execute_filled:
  assumes "execute_market_order a intent boid p bh bl t = Inr r" and "er_status r = RepFilled"
  obtains h l d where "resolve_bar_range p bh bl = Inr (h, l)" "evaluate_fill intent p h l = Inr d"
    "fd_triggered d" "fill_report a intent boid (fd_fill_price d) t = Inr r" "0 \<le> p"
  using execute_cases [OF assms(1)] assms(2) accepted_fields rejected_fields by fastforce

lemma execute_fields:
  assumes "execute_market_order a intent boid p bh bl t = Inr r"
  shows "mk_execution_report r = Inr r \<and> er_broker_order_id r = boid"
    "er_status r = RepFilled \<Longrightarrow> er_filled_quantity r = oi_quantity intent \<and> er_fill_price r \<noteq> None \<and>
       er_fill_id r = Some (boid @ ''-fill-1'')"
proof -
  show "mk_execution_report r = Inr r \<and> er_broker_order_id r = boid"
    using execute_cases [OF assms]
    by (elim disjE exE conjE) (metis accepted_fields(1,2) rejected_fields(1,2) fill_report_fields(1,2))+
  show "er_filled_quantity r = oi_quantity intent \<and> er_fill_price r \<noteq> None \<and> er_fill_id r = Some (boid @ ''-fill-1'')"
    if "er_status r = RepFilled"
    using execute_filled [OF assms that] fill_report_fields by (metis option.distinct(1))
qed

interpretation simulated: execution_adapter
  "\<lambda>i boid p t. execute_market_order a i boid p bh bl t" sim_cancel_order sim_replace_order for a bh bl
proof
  show "er_broker_order_id r = boid \<and> er_status r = RepCancelled" if "sim_cancel_order boid = Inr r" for boid r
    using that by (auto simp: sim_cancel_order_def report_defaults_def dest: mk_execution_report_id)
  show "er_broker_order_id r = boid \<and> er_status r = RepAccepted" if "sim_replace_order boid = Inr r" for boid r
    using that by (auto simp: sim_replace_order_def report_defaults_def dest: mk_execution_report_id)
qed (use execute_fields in \<open>auto simp: is_space_def\<close>)

section \<open>The simulated broker's identifiers\<close>

definition sb_report_id :: "broker_id \<Rightarrow> nat \<Rightarrow> string" where
  "sb_report_id b k = b @ ''-report-'' @ nat_str k"

definition sb_issued :: "simulated_broker \<Rightarrow> string set" where
  "sb_issued s = sb_report_id (sb_broker_id s) ` {1..sb_sequence s}"

text \<open>Every call that returns a report has taken the next sequence number; other calls take none or
  one, and the broker's own id never changes.\<close>

lemma sb_report_effect:
  "sb_report q boid st fq fp fi s = (x, s') \<Longrightarrow>
     sb_broker_id s' = sb_broker_id s \<and> sb_sequence s' = sb_sequence s + 1 \<and>
     sb_broker_order_ids s' = sb_broker_order_ids s \<and>
     (\<forall>r. x = Inr r \<longrightarrow> br_report_id r = sb_report_id (sb_broker_id s) (sb_sequence s + 1))"
  by (auto simp: sb_report_def Let_def ctor_simps sb_report_id_def)

lemma sb_call_effect:
  "sb_call op s = (x, s') \<Longrightarrow>
     sb_broker_id s' = sb_broker_id s \<and> sb_sequence s \<le> sb_sequence s' \<and>
     (\<forall>r. x = Inr r \<longrightarrow> sb_sequence s' = sb_sequence s + 1 \<and>
        br_report_id r = sb_report_id (sb_broker_id s) (sb_sequence s + 1))"
  by (cases op)
     (auto simp: sb_submit_order_def sb_cancel_order_def sb_replace_order_def sb_emit_fill_def Let_def
       dest!: sb_report_effect split: if_splits option.splits sum.splits)

lemma sb_report_id_inj: "sb_report_id b j = sb_report_id b k \<longleftrightarrow> j = k"
  by (simp add: sb_report_id_def nat_str_inj)

interpretation sb_reports: exactly_once sb_step sb_issued br_report_id "\<lambda>_. True"
proof
  fix m s
  obtain x s' where c: "sb_call m s = (x, s')" by (cases "sb_call m s")
  note eff = sb_call_effect [OF c]
  show "br_report_id ` set (snd (sb_step s m)) \<inter> sb_issued s = {}"
    using eff c by (cases x) (auto simp: sb_step_def sb_issued_def sb_report_id_inj)
  show "distinct (map br_report_id (snd (sb_step s m)))"
    using c by (cases x) (auto simp: sb_step_def)
  show "sb_issued s \<union> br_report_id ` set (snd (sb_step s m)) \<subseteq> sb_issued (fst (sb_step s m))"
    using eff c by (cases x) (auto simp: sb_step_def sb_issued_def)
qed

definition sb_ids_ok :: "simulated_broker \<Rightarrow> bool" where
  "sb_ids_ok s \<longleftrightarrow> map snd (sb_broker_order_ids s) =
     map (\<lambda>k. sb_broker_id s @ ''-'' @ nat_str (k + 1)) [0..<length (sb_broker_order_ids s)]"

lemma setdefault_append: "map_of d k = None \<Longrightarrow> setdefault k v d = d @ [(k, v)]"
  using update_append_new [of k d v] by (simp add: setdefault_def) (simp add: map_of_eq_None_iff)

lemma setdefault_present: "map_of d k \<noteq> None \<Longrightarrow> setdefault k v d = d"
  by (auto simp: setdefault_def)

lemma sb_call_ids: "sb_ids_ok s \<Longrightarrow> sb_call op s = (x, s') \<Longrightarrow> sb_ids_ok s'"
proof (cases op)
  case (Submit q)
  assume ok: "sb_ids_ok s" and "sb_call op s = (x, s')"
  with Submit show ?thesis
    by (cases "map_of (sb_broker_order_ids s) (bq_order_id q) = None")
       (auto simp: sb_submit_order_def Let_def sb_ids_ok_def setdefault_append setdefault_present
         dest!: sb_report_effect)
qed (auto simp: sb_cancel_order_def sb_replace_order_def sb_emit_fill_def Let_def sb_ids_ok_def
       dest!: sb_report_effect split: if_splits option.splits sum.splits)

interpretation sb_ids: kept_by_steps sb_step sb_ids_ok "\<lambda>_. True"
proof
  show "sb_ids_ok (fst (sb_step s m))" if "sb_ids_ok s" for s m
    using sb_call_ids [OF that, of m] by (auto simp: sb_step_def split: prod.splits sum.splits)
qed

lemma sb_ids_distinct:
  assumes "sb_ids_ok s" shows "distinct (map snd (sb_broker_order_ids s))"
  unfolding assms [unfolded sb_ids_ok_def] by (auto simp: distinct_map inj_on_def nat_str_inj)

section \<open>Sample orders\<close>

definition sample_adapter :: simulated_adapter where
  "sample_adapter = \<lparr>sa_cost_model = \<lparr>cm_fixed_commission_per_contract = 2, cm_slippage_bps = 10\<rparr>,
     sa_capabilities = default_simulated_capabilities\<rparr>"

definition sample_limit_intent :: order_intent where
  "sample_limit_intent = sample_intent\<lparr>oi_side := BUY, oi_quantity := 10,
     oi_order_spec := default_order_spec\<lparr>os_order_type := LIMIT, os_limit_price := Some 100\<rparr>\<rparr>"

section \<open>Properties\<close>

text \<open>C17. Simulated fills respect the bar: a FILLED report fills the whole order at a base price inside
  the bar's range, moved by the slippage against the order's side; for limit orders the base price
  is no worse than the limit, and a stop has been touched by the bar.\<close>

theorem fills_touch_the_bar:
  assumes "execute_market_order a intent boid p bh bl t = Inr r" and "er_status r = RepFilled"
  shows "\<exists>h l base. resolve_bar_range p bh bl = Inr (h, l) \<and> l \<le> base \<and> base \<le> h \<and>
     er_filled_quantity r = oi_quantity intent \<and>
     er_fill_price r = Some (let slip = ddiv (dmul base (cm_slippage_bps (sa_cost_model a))) 10000
        in if oi_side intent = BUY then dadd base slip else dsub base slip) \<and>
     (\<forall>lmt. os_order_type (oi_order_spec intent) \<in> {LIMIT, STOP_LIMIT} \<and> os_limit_price (oi_order_spec intent) = Some lmt \<longrightarrow>
        (if oi_side intent = BUY then base \<le> lmt else lmt \<le> base)) \<and>
     (\<forall>stp. os_order_type (oi_order_spec intent) \<in> {STOP, STOP_LIMIT} \<and> os_stop_price (oi_order_spec intent) = Some stp \<longrightarrow>
        (if oi_side intent = BUY then stp \<le> h else l \<le> stp))"
proof -
  from execute_filled [OF assms] obtain h l d where
    bar: "resolve_bar_range p bh bl = Inr (h, l)" and d: "evaluate_fill intent p h l = Inr d" "fd_triggered d"
    and rep: "fill_report a intent boid (fd_fill_price d) t = Inr r" .
  from bar have hl: "l \<le> p" "p \<le> h" by (auto simp: resolve_bar_range_def split: option.splits if_splits)
  have "l \<le> fd_fill_price d \<and> fd_fill_price d \<le> h"
    using d hl unfolding evaluate_fill_def evaluate_limit_def evaluate_stop_def evaluate_stop_limit_def
    by (auto split: order_type.splits option.splits if_splits)
  moreover have "(if oi_side intent = BUY then fd_fill_price d \<le> lmt else lmt \<le> fd_fill_price d)"
    if "os_order_type (oi_order_spec intent) \<in> {LIMIT, STOP_LIMIT}" "os_limit_price (oi_order_spec intent) = Some lmt" for lmt
    using d that unfolding evaluate_fill_def evaluate_limit_def evaluate_stop_limit_def
    by (auto split: option.splits if_splits)
  moreover have "(if oi_side intent = BUY then stp \<le> h else l \<le> stp)"
    if "os_order_type (oi_order_spec intent) \<in> {STOP, STOP_LIMIT}" "os_stop_price (oi_order_spec intent) = Some stp" for stp
    using d that unfolding evaluate_fill_def evaluate_stop_def evaluate_stop_limit_def
    by (auto split: option.splits if_splits)
  ultimately show ?thesis using bar fill_report_fields [OF rep]
    by (intro exI [of _ h] exI [of _ l] exI [of _ "fd_fill_price d"]) (simp add: Let_def)
qed

theorem fills_touch_the_bar_witness:
  "\<exists>r. execute_market_order sample_adapter sample_limit_intent ''b1'' 100 None None None = Inr r \<and>
     er_status r = RepFilled \<and> er_filled_quantity r = 10"
proof -
  have "case execute_market_order sample_adapter sample_limit_intent ''b1'' 100 None None None of
      Inl e \<Rightarrow> False | Inr r \<Rightarrow> er_status r = RepFilled" by code_simp
  then obtain r where r: "execute_market_order sample_adapter sample_limit_intent ''b1'' 100 None None None = Inr r"
    "er_status r = RepFilled" by (auto split: sum.splits)
  from fills_touch_the_bar [OF r] show ?thesis
    using r by (auto simp: sample_limit_intent_def)
qed

text \<open>A limit order can fill beyond its limit: slippage is added after the limit test, so a buy limit
  that is touched fills at the better of limit and bar high plus slippage, and whenever that base is
  the limit itself the fill price exceeds the limit by the whole slippage.\<close>

theorem limit_fill_beyond_limit:
  assumes "execute_market_order a intent boid p bh bl t = Inr r" and "er_status r = RepFilled"
    and "os_order_type (oi_order_spec intent) = LIMIT" "os_limit_price (oi_order_spec intent) = Some lmt" "oi_side intent = BUY"
    and "resolve_bar_range p bh bl = Inr (h, l)" "lmt \<le> h"
    and "0 < ddiv (dmul lmt (cm_slippage_bps (sa_cost_model a))) 10000"
    and "rep28 (lmt + ddiv (dmul lmt (cm_slippage_bps (sa_cost_model a))) 10000)"
  shows "\<exists>px. er_fill_price r = Some px \<and> lmt < px \<and>
     px = lmt + ddiv (dmul lmt (cm_slippage_bps (sa_cost_model a))) 10000"
proof -
  from execute_filled [OF assms(1,2)] obtain h' l' d where
    bar: "resolve_bar_range p bh bl = Inr (h', l')" and d: "evaluate_fill intent p h' l' = Inr d" "fd_triggered d"
    and rep: "fill_report a intent boid (fd_fill_price d) t = Inr r" .
  with assms(3-7) have "fd_fill_price d = lmt"
    by (auto simp: evaluate_fill_def evaluate_limit_def split: if_splits)
  with fill_report_fields(6) [OF rep] assms(5,8,9) show ?thesis
    by (simp add: dadd_def ctx_round_exact)
qed

theorem limit_fill_beyond_limit_witness:
  "\<exists>r px. execute_market_order sample_adapter sample_limit_intent ''b1'' 100 None None None = Inr r \<and>
     er_fill_price r = Some px \<and> 100 < px"
proof -
  have "case execute_market_order sample_adapter sample_limit_intent ''b1'' 100 None None None of
      Inl e \<Rightarrow> False | Inr r \<Rightarrow> er_status r = RepFilled" by code_simp
  then obtain r where r: "execute_market_order sample_adapter sample_limit_intent ''b1'' 100 None None None = Inr r"
    "er_status r = RepFilled" by (auto split: sum.splits)
  have slip: "ddiv (dmul 100 (cm_slippage_bps (sa_cost_model sample_adapter))) 10000 = 1 / 10" by code_simp
  have "rep28 (100 + 1 / 10)" unfolding rep28_def by (rule exI [of _ 1001], rule exI [of _ "-1"]) simp
  then show ?thesis
    using limit_fill_beyond_limit [OF r, of 100 100 100] r slip
    by (auto simp: sample_limit_intent_def default_order_spec_def resolve_bar_range_def)
qed

text \<open>Simulated execution is total on valid orders: with the default capabilities, a validated
  order, cost model and bar never raise; unsupported order types come back as REJECTED reports, the
  others as FILLED or ACCEPTED.\<close>

theorem simulated_execution_total:
  assumes "mk_order_spec (oi_order_spec intent) = Inr s" "mk_order_intent intent = Inr intent'"
    and "mk_cost_model (cm_fixed_commission_per_contract (sa_cost_model a)) (cm_slippage_bps (sa_cost_model a)) = Inr c"
    and "sa_capabilities a = default_simulated_capabilities"
    and "\<not> blank boid" "0 \<le> p" "resolve_bar_range p bh bl = Inr (h, l)"
  shows "\<exists>r. execute_market_order a intent boid p bh bl t = Inr r \<and>
     er_status r \<in> (if os_order_type (oi_order_spec intent) \<in> set unsupported_sim_order_types
       then {RepRejected} else {RepFilled, RepAccepted})"
proof -
  let ?t = "os_order_type (oi_order_spec intent)"
  have q: "0 < oi_quantity intent" using assms(2) by (auto simp: ctor_simps split: if_splits)
  have spec: "raise_first (validate_shape_checks (oi_order_spec intent)) = None"
    using assms(1) by (auto simp: mk_order_spec_def validate_optional_price_def split: if_splits)
  show ?thesis
  proof (cases "?t \<in> set unsupported_sim_order_types")
    case True
    then show ?thesis using assms(5,6)
      by (simp add: execute_market_order_def rejected_report_def ctor_simps report_defaults_def checked_def
          missing_text_def is_space_def)
  next
    case False
    have "?t \<in> set sim_supported_order_types"
      using False by (cases ?t) (auto simp: sim_supported_order_types_def unsupported_sim_order_types_def all_order_types_def)
    moreover have "os_time_in_force (oi_order_spec intent) \<in> set all_time_in_force"
      by (cases "os_time_in_force (oi_order_spec intent)") (auto simp: all_time_in_force_def)
    ultimately have valid: "validate_order (sa_capabilities a) intent = Inr ()"
      using assms(4) q
      by (auto simp: validate_order_def default_simulated_capabilities_def capabilities_defaults_def
          supports_order_type_def supports_tif_def validate_order_quantity_def checked_def Let_def)
    have "\<exists>d. evaluate_fill intent p h l = Inr d"
      using spec False
      by (cases ?t) (auto simp: evaluate_fill_def evaluate_limit_def evaluate_stop_def evaluate_stop_limit_def
          validate_shape_checks_def unsupported_sim_order_types_def split: if_splits)
    then obtain d where d: "evaluate_fill intent p h l = Inr d" by blast
    have "0 \<le> cm_fixed_commission_per_contract (sa_cost_model a)"
      using assms(3) by (auto simp: ctor_simps split: if_splits)
    then have "\<exists>r. fill_report a intent boid x t = Inr r" for x
      using q assms(5) by (simp add: fill_report_def Let_def ctor_simps report_defaults_def checked_def is_space_def not_less)
    then obtain r where r: "fill_report a intent boid (fd_fill_price d) t = Inr r" by blast
    have acc: "\<exists>r. mk_execution_report ((report_defaults (boid @ ''-report-1'') boid RepAccepted)\<lparr>er_fill_time := t\<rparr>) = Inr r \<and>
       er_status r = RepAccepted"
      using assms(5) by (simp add: ctor_simps report_defaults_def checked_def is_space_def)
    show ?thesis using False assms(6,7) valid d r acc fill_report_fields(3) [OF r]
      by (cases "fd_triggered d") (auto simp: execute_market_order_def)
  qed
qed

theorem simulated_execution_total_witness:
  "\<exists>r. execute_market_order sample_adapter sample_limit_intent ''b1'' 100 None None None = Inr r"
proof -
  have "mk_order_spec (oi_order_spec sample_limit_intent) = Inr (oi_order_spec sample_limit_intent)"
    "mk_order_intent sample_limit_intent = Inr sample_limit_intent"
    "mk_cost_model (cm_fixed_commission_per_contract (sa_cost_model sample_adapter))
       (cm_slippage_bps (sa_cost_model sample_adapter)) = Inr (sa_cost_model sample_adapter)"
    by code_simp+
  from simulated_execution_total [OF this, of "''b1''" 100 None None] show ?thesis
    by (auto simp: sample_adapter_def resolve_bar_range_def is_space_def)
qed

text \<open>The simulated broker never reuses an identifier: over any sequence of submit, cancel, replace
  and fill calls the report ids it returns are all different, and different orders have different
  broker order ids.\<close>

theorem simulated_broker_ids_unique:
  "distinct (map br_report_id (snd (run_steps sb_step (sb_init b) ops))) \<and>
   distinct (map snd (sb_broker_order_ids (fst (run_steps sb_step (sb_init b) ops))))"
proof -
  have all: "list_all (\<lambda>_. True) ops" by (simp add: list_all_iff)
  have "sb_ids_ok (sb_init b)" by (simp add: sb_ids_ok_def sb_init_def)
  from sb_ids_distinct [OF sb_ids.run_keeps [OF this all]] sb_reports.run_distinct [OF all]
  show ?thesis by blast
qed

text \<open>Risk and broker agree on order types exactly when the capabilities list them: with a
  non-empty list the risk policy accepts the types the capabilities support; with the empty list
  the policy accepts every type, iceberg included, which the capabilities never support.\<close>

theorem risk_policy_order_types:
  "(bc_order_types (bm_capabilities m) \<noteq> [] \<longrightarrow>
      (\<forall>t. t \<in> set (bp_supported_order_types (risk_policy m)) \<longleftrightarrow> supports_order_type (bm_capabilities m) t)) \<and>
   (bc_order_types (bm_capabilities m) = [] \<longrightarrow>
      (\<forall>t. t \<in> set (bp_supported_order_types (risk_policy m))) \<and> \<not> supports_order_type (bm_capabilities m) ICEBERG)"
proof -
  have "t \<in> set all_order_types" for t by (cases t) (auto simp: all_order_types_def)
  then show ?thesis by (simp add: risk_policy_def bm_supported_order_types_def supports_order_type_def)
qed

theorem risk_policy_order_types_witness:
  "ICEBERG \<in> set (bp_supported_order_types (risk_policy (model_defaults ''m'' (capabilities_defaults ''b'')))) \<and>
   \<not> supports_order_type (capabilities_defaults ''b'') ICEBERG"
  using risk_policy_order_types [of "model_defaults ''m'' (capabilities_defaults ''b'')"]
  by (simp add: model_defaults_def capabilities_defaults_def)

end
