(* ===== verification/Trading_Actors.thy ===== *)
theory Trading_Actors
  imports Actor_System Simulated_Execution
begin

text \<open>
  The three actors of an account partition and what they exchange: \<open>OrderManagerActor\<close> (orders and
  route metadata), \<open>ExecutionActor\<close> (the execution adapter, with the live-capital gate) and
  \<open>AccountActor\<close> (cash, holdings, fill idempotency), with the \<open>ExecutionReportHandler\<close> and
  \<open>OrderRouteMetadata\<close>. Handlers have the type of \<open>Actor_System.handler\<close>. The execution adapter and the
  live-capital decision are arguments.
\<close>

section \<open>Route metadata (\<open>runtime/order_route_metadata.py\<close>)\<close>

record route_metadata =
  rm_broker_id :: broker_id
  rm_account_id :: account_id
  rm_strategy_id :: strategy_id
  rm_client_order_id :: string
  rm_correlation_id :: string
  rm_contributing_strategy_ids :: "strategy_id list"
  rm_aggregation_decision_id :: "string option"

definition mk_route_metadata :: "route_metadata \<Rightarrow> route_metadata res" where
  [ctor_simps]: "mk_route_metadata m = checked
     [(blank (rm_client_order_id m), ValueError ''client_order_id must not be empty''),
      (blank_opt (rm_aggregation_decision_id m), ValueError ''aggregation_decision_id must not be empty'')] m"

fun join_commas :: "string list \<Rightarrow> string" where
  "join_commas [] = []"
| "join_commas [s] = s"
| "join_commas (s # t # ss) = s @ '','' @ join_commas (t # ss)"

text \<open>\<open>str.split(",")\<close>: never empty.\<close>

fun split_commas :: "string \<Rightarrow> string list" where
  "split_commas [] = [[]]"
| "split_commas (c # s) =
     (if c = CHR '','' then [] # split_commas s
      else case split_commas s of [] \<Rightarrow> [[c]] | w # ws \<Rightarrow> (c # w) # ws)"

definition rm_to_payload :: "route_metadata \<Rightarrow> (string, string) dict" where
  "rm_to_payload m =
     [(''broker_id'', rm_broker_id m), (''account_id'', rm_account_id m), (''strategy_id'', rm_strategy_id m),
      (''client_order_id'', rm_client_order_id m), (''correlation_id'', rm_correlation_id m)] @
     (if rm_contributing_strategy_ids m \<noteq> []
      then [(''contributing_strategy_ids'', join_commas (rm_contributing_strategy_ids m))] else []) @
     (case rm_aggregation_decision_id m of None \<Rightarrow> [] | Some a \<Rightarrow> [(''aggregation_decision_id'', a)])"

definition payload_get :: "(string, string) dict \<Rightarrow> string \<Rightarrow> string res" where
  "payload_get p k = (case map_of p k of None \<Rightarrow> Inl (KeyError k) | Some v \<Rightarrow> Inr v)"

text \<open>\<open>from_payload\<close> on payloads with string values, which is what \<open>to_payload\<close> writes.\<close>

definition rm_from_payload :: "(string, string) dict \<Rightarrow> route_metadata res" where
  "rm_from_payload p =
     res_bind (res_map mk_string_id
       (filter (\<lambda>v. v \<noteq> []) (split_commas (dict_lookup p ''contributing_strategy_ids'' [])))) (\<lambda>contrib.
     res_bind (res_bind (payload_get p ''broker_id'') mk_string_id) (\<lambda>b.
     res_bind (res_bind (payload_get p ''account_id'') mk_string_id) (\<lambda>a.
     res_bind (res_bind (payload_get p ''strategy_id'') mk_string_id) (\<lambda>s.
     res_bind (payload_get p ''client_order_id'') (\<lambda>c.
     res_bind (res_bind (payload_get p ''correlation_id'') mk_string_id) (\<lambda>corr.
       mk_route_metadata \<lparr>rm_broker_id = b, rm_account_id = a, rm_strategy_id = s, rm_client_order_id = c,
         rm_correlation_id = corr, rm_contributing_strategy_ids = contrib,
         rm_aggregation_decision_id = map_of p ''aggregation_decision_id''\<rparr>))))))"

definition matches_route :: "route_metadata \<Rightarrow> route_metadata \<Rightarrow> bool" where
  "matches_route m n \<longleftrightarrow> m = n"

section \<open>Account actor (\<open>runtime/actors/account_actor.py\<close>)\<close>

record apply_fill =
  af_fill :: order_fill
  af_currency :: string
  af_multiplier :: decimal
  af_fill_time :: "instant option"

datatype account_msg =
    ApplyFill apply_fill
  | GetAccountSnapshot
  | DrainPositionClosedEvents
  | OtherAccountMsg string

datatype account_answer = SnapshotAnswer account_snapshot | ClosedEventsAnswer "position_closed list"

record account_actor =
  aa_account_id :: "account_id option"
  aa_cash :: cash_book
  aa_holdings :: holding_book
  aa_fill_ids :: fill_store
  aa_closed_events :: "position_closed list"

definition aa_init :: "(string, decimal) dict option \<Rightarrow> account_id option \<Rightarrow> account_actor" where
  "aa_init initial_cash account = \<lparr>aa_account_id = account, aa_cash = cb_init initial_cash,
     aa_holdings = hb_init [] AVERAGE, aa_fill_ids = fs_init {}, aa_closed_events = []\<rparr>"

definition aa_snapshot :: "account_actor \<Rightarrow> account_snapshot \<times> account_actor" where
  "aa_snapshot a =
     (case fs_snapshot (aa_fill_ids a) of (seen, fs) \<Rightarrow>
        (mk_account_snapshot (cb_balances (aa_cash a)) (Some (hb_snapshot (aa_holdings a))) None
           (aa_account_id a) seen,
         a\<lparr>aa_fill_ids := fs\<rparr>))"

definition aa_restore :: "account_snapshot \<Rightarrow> account_actor" where
  "aa_restore s = (aa_init (Some (as_cash s)) (as_account_id s))
     \<lparr>aa_holdings := hb_restore (as_holdings s), aa_fill_ids := fs_restore (as_seen_fill_ids s)\<rparr>"

definition drain_position_closed_events :: "account_actor \<Rightarrow> position_closed list \<times> account_actor" where
  "drain_position_closed_events a = (aa_closed_events a, a\<lparr>aa_closed_events := []\<rparr>)"

definition fill_signed_quantity :: "order_fill \<Rightarrow> decimal" where
  "fill_signed_quantity f = (if of_side f = BUY then of_quantity f else dneg (of_quantity f))"

definition fill_cash_delta :: "apply_fill \<Rightarrow> decimal" where
  "fill_cash_delta m = dsub
     (dmul (dmul (dneg (fill_signed_quantity (af_fill m))) (of_price (af_fill m))) (af_multiplier m))
     (of_commission (af_fill m))"

definition aa_apply_fill :: "apply_fill \<Rightarrow> account_actor \<Rightarrow> (account_actor, unit) outcome" where
  "aa_apply_fill m a =
     (let fill = af_fill m in
      if aa_account_id a \<noteq> None \<and> of_account_id fill \<noteq> aa_account_id a
      then (Inl (ValueError ''fill account_id does not match AccountActor account_id''), a)
      else case fs_mark_seen (of_fill_id fill) (aa_fill_ids a) of
        (Inl e, fs) \<Rightarrow> (Inl e, a\<lparr>aa_fill_ids := fs\<rparr>)
      | (Inr False, fs) \<Rightarrow> (Inr (), a\<lparr>aa_fill_ids := fs\<rparr>)
      | (Inr True, fs) \<Rightarrow>
         (let a1 = a\<lparr>aa_fill_ids := fs\<rparr> in
          case hb_apply_fill (of_instrument_id fill) (fill_signed_quantity fill) (of_price fill)
                 (af_multiplier m) (af_fill_time m) (aa_holdings a1) of
            (Inl e, hb) \<Rightarrow> (Inl e, a1\<lparr>aa_holdings := hb\<rparr>)
          | (Inr events, hb) \<Rightarrow>
             (let a2 = a1\<lparr>aa_holdings := hb, aa_closed_events := aa_closed_events a1 @ events\<rparr> in
              case cb_apply_delta (af_currency m) (fill_cash_delta m) (aa_cash a2) of
                (r, cb) \<Rightarrow> (r, a2\<lparr>aa_cash := cb\<rparr>))))"

definition account_handle :: "(account_actor, account_msg, unit, account_answer) handler" where
  "account_handle msg a = (case msg of
      GetAccountSnapshot \<Rightarrow> (case aa_snapshot a of (s, a') \<Rightarrow> (Inr ([], Some (SnapshotAnswer s)), a'))
    | DrainPositionClosedEvents \<Rightarrow>
        (case drain_position_closed_events a of (es, a') \<Rightarrow> (Inr ([], Some (ClosedEventsAnswer es)), a'))
    | ApplyFill m \<Rightarrow> obind (aa_apply_fill m a) (\<lambda>_ a'. (Inr ([], None), a'))
    | OtherAccountMsg n \<Rightarrow> (Inl (ActorUnhandledMessageError n), a))"

section \<open>Execution actor (\<open>runtime/actors/execution_actor.py\<close>)\<close>

record execution_request =
  xq_intent :: order_intent
  xq_broker_order_id :: string
  xq_market_price :: decimal
  xq_account_id :: account_id
  xq_strategy_id :: strategy_id
  xq_route_metadata :: route_metadata
  xq_bar_time :: "instant option"

record cancel_request =
  cq_order_id :: order_id
  cq_broker_order_id :: string
  cq_account_id :: account_id
  cq_strategy_id :: strategy_id
  cq_route_metadata :: route_metadata

record replace_request =
  pq_order_id :: order_id
  pq_broker_order_id :: string
  pq_new_quantity :: decimal
  pq_account_id :: account_id
  pq_strategy_id :: strategy_id
  pq_route_metadata :: route_metadata

definition route_checks :: "route_metadata \<Rightarrow> account_id \<Rightarrow> strategy_id \<Rightarrow> string \<Rightarrow> (bool \<times> exn) list" where
  "route_checks m account strategy what =
     [(rm_account_id m \<noteq> account, ValueError (what @ '' account_id does not match route metadata'')),
      (rm_strategy_id m \<noteq> strategy, ValueError (what @ '' strategy_id does not match route metadata''))]"

definition mk_execution_request :: "execution_request \<Rightarrow> execution_request res" where
  [ctor_simps]: "mk_execution_request q = checked
     (route_checks (xq_route_metadata q) (xq_account_id q) (xq_strategy_id q) ''execution'') q"

definition mk_cancel_request :: "cancel_request \<Rightarrow> cancel_request res" where
  [ctor_simps]: "mk_cancel_request q = checked
     (route_checks (cq_route_metadata q) (cq_account_id q) (cq_strategy_id q) ''cancel'') q"

definition mk_replace_request :: "replace_request \<Rightarrow> replace_request res" where
  [ctor_simps]: "mk_replace_request q = checked
     (route_checks (pq_route_metadata q) (pq_account_id q) (pq_strategy_id q) ''replace'' @
      [(pq_new_quantity q \<le> 0, ValueError ''replace new_quantity must be positive'')]) q"

datatype execution_msg =
    Execute execution_request
  | CancelRequest cancel_request
  | ReplaceRequest replace_request
  | OtherExecutionMsg string

text \<open>
  The adapter is passed as its three methods; \<open>live\<close> is the result of
  \<open>assert_live_order_allowed\<close> when a live-capital decision is configured.
\<close>

record execution_port =
  xp_execute :: "execution_request \<Rightarrow> execution_report res"
  xp_cancel :: "cancel_request \<Rightarrow> execution_report res"
  xp_replace :: "replace_request \<Rightarrow> execution_report res"
  xp_live_capital :: "unit res option"

definition execution_handle :: "(execution_port, execution_msg, execution_report, unit) handler" where
  "execution_handle msg x = (case msg of
      Execute q \<Rightarrow>
        (case xp_live_capital x of
           Some (Inl e) \<Rightarrow> (Inl e, x)
         | _ \<Rightarrow> (case xp_execute x q of Inl e \<Rightarrow> (Inl e, x) | Inr r \<Rightarrow> (Inr ([r], None), x)))
    | CancelRequest q \<Rightarrow> (case xp_cancel x q of Inl e \<Rightarrow> (Inl e, x) | Inr r \<Rightarrow> (Inr ([r], None), x))
    | ReplaceRequest q \<Rightarrow> (case xp_replace x q of Inl e \<Rightarrow> (Inl e, x) | Inr r \<Rightarrow> (Inr ([r], None), x))
    | OtherExecutionMsg n \<Rightarrow> (Inl (ActorUnhandledMessageError n), x))"

definition sim_execute :: "simulated_adapter \<Rightarrow> execution_request \<Rightarrow> execution_report res" where
  "sim_execute a q = execute_market_order a (xq_intent q) (xq_broker_order_id q) (xq_market_price q) None None (xq_bar_time q)"

definition sim_cancel :: "cancel_request \<Rightarrow> execution_report res" where
  "sim_cancel q = sim_cancel_order (cq_broker_order_id q)"

definition sim_replace :: "replace_request \<Rightarrow> execution_report res" where
  "sim_replace q = sim_replace_order (pq_broker_order_id q)"

definition simulated_port :: "simulated_adapter \<Rightarrow> execution_port" where
  "simulated_port a = \<lparr>xp_execute = sim_execute a, xp_cancel = sim_cancel, xp_replace = sim_replace,
     xp_live_capital = None\<rparr>"

section \<open>Execution reports (\<open>runtime/execution_report_handler.py\<close>)\<close>

record report_handler =
  rh_manager :: order_manager
  rh_account_id :: "account_id option"
  rh_quarantined :: "execution_report list"

fun is_quarantine_exn :: "exn \<Rightarrow> bool" where
  "is_quarantine_exn (KeyError k) = True"
| "is_quarantine_exn (UnknownBrokerOrder b) = True"
| "is_quarantine_exn RouteNotFoundError = True"
| "is_quarantine_exn _ = False"

definition rh_handle :: "execution_report \<Rightarrow> report_handler \<Rightarrow> (report_handler, order_fill list) outcome" where
  "rh_handle r h =
     (case process_report r (rh_manager h) of
        (Inl e, m) \<Rightarrow>
          (if is_quarantine_exn e
           then (Inr [], h\<lparr>rh_manager := m, rh_quarantined := rh_quarantined h @ [r]\<rparr>)
           else (Inl e, h\<lparr>rh_manager := m\<rparr>))
      | (Inr result, m) \<Rightarrow>
          (if rh_account_id h \<noteq> None \<and> list_ex (\<lambda>f. of_account_id f \<noteq> rh_account_id h) (pr_fills result)
           then (Inr [], h\<lparr>rh_manager := m, rh_quarantined := rh_quarantined h @ [r]\<rparr>)
           else (Inr (pr_fills result), h\<lparr>rh_manager := m\<rparr>)))"

section \<open>Order manager actor (\<open>runtime/actors/order_manager_actor.py\<close>)\<close>

record submit_order =
  so_intent :: order_intent
  so_risk_decision :: risk_decision
  so_broker_order_id :: string
  so_market_price :: decimal
  so_account_id :: account_id
  so_strategy_id :: strategy_id
  so_route_metadata :: route_metadata
  so_bar_time :: "instant option"

record cancel_order =
  co_intent :: cancel_intent
  co_account_id :: account_id
  co_strategy_id :: strategy_id
  co_route_metadata :: route_metadata

record replace_order_msg =
  ro_intent :: replace_intent
  ro_risk_decision :: risk_decision
  ro_account_id :: account_id
  ro_strategy_id :: strategy_id
  ro_route_metadata :: route_metadata

definition mk_submit_order :: "submit_order \<Rightarrow> submit_order res" where
  [ctor_simps]: "mk_submit_order m = checked
     (route_checks (so_route_metadata m) (so_account_id m) (so_strategy_id m) ''SubmitOrder'') m"

definition mk_cancel_order :: "cancel_order \<Rightarrow> cancel_order res" where
  [ctor_simps]: "mk_cancel_order m = checked
     (route_checks (co_route_metadata m) (co_account_id m) (co_strategy_id m) ''CancelOrder'') m"

definition mk_replace_order_msg :: "replace_order_msg \<Rightarrow> replace_order_msg res" where
  [ctor_simps]: "mk_replace_order_msg m = checked
     (route_checks (ro_route_metadata m) (ro_account_id m) (ro_strategy_id m) ''ReplaceOrder'') m"

datatype order_manager_msg =
    SubmitOrder submit_order
  | CancelOrder cancel_order
  | ReplaceOrder replace_order_msg
  | Report execution_report
  | CompactForStreaming "order_id list"
  | GetOrderManagerSnapshot
  | GetFillCount
  | GetFillsSince int
  | GetOrder order_id
  | GetRouteMetadata order_id
  | OtherOrderMsg string

datatype order_manager_answer =
    OrderSnapshotAnswer order_state_snapshot
  | FillCountAnswer nat
  | FillsAnswer "order_fill list"
  | OrderAnswer order
  | RouteMetadataAnswer route_metadata

datatype om_out = ToExecution execution_msg | ToAccount account_msg

record om_actor =
  oa_account_id :: "account_id option"
  oa_handler :: report_handler
  oa_multipliers :: "(instrument_id, decimal) dict"
  oa_currency :: string
  oa_supports_replace :: bool
  oa_fills :: "order_fill list"
  oa_routes :: "(order_id, route_metadata) dict"

abbreviation oa_manager :: "om_actor \<Rightarrow> order_manager" where
  "oa_manager a \<equiv> rh_manager (oa_handler a)"

definition set_manager :: "order_manager \<Rightarrow> om_actor \<Rightarrow> om_actor" where
  "set_manager m a = a\<lparr>oa_handler := (oa_handler a)\<lparr>rh_manager := m\<rparr>\<rparr>"

definition oa_init ::
  "account_id option \<Rightarrow> (instrument_id, decimal) dict \<Rightarrow> string \<Rightarrow> broker_capabilities option \<Rightarrow> om_actor" where
  "oa_init account multipliers currency caps =
     \<lparr>oa_account_id = account,
      oa_handler = \<lparr>rh_manager = om_init, rh_account_id = account, rh_quarantined = []\<rparr>,
      oa_multipliers = multipliers, oa_currency = currency,
      oa_supports_replace = (case caps of None \<Rightarrow> False | Some c \<Rightarrow> bc_replace c),
      oa_fills = [], oa_routes = []\<rparr>"

definition slice_from :: "int \<Rightarrow> 'a list \<Rightarrow> 'a list" where
  "slice_from i xs = (if 0 \<le> i then drop (nat i) xs else drop (nat (max 0 (int (length xs) + i))) xs)"

definition oa_fill_count :: "om_actor \<Rightarrow> nat" where
  "oa_fill_count a = length (oa_fills a)"

definition oa_fills_since :: "int \<Rightarrow> om_actor \<Rightarrow> order_fill list" where
  "oa_fills_since i a = slice_from i (oa_fills a)"

definition oa_route_metadata :: "order_id \<Rightarrow> om_actor \<Rightarrow> route_metadata res" where
  "oa_route_metadata oid a = (case map_of (oa_routes a) oid of None \<Rightarrow> Inl (KeyError oid) | Some m \<Rightarrow> Inr m)"

text \<open>A call on the wrapped manager, with the actor carrying the manager's new state.\<close>

definition on_manager :: "(order_manager, 'a) outcome \<Rightarrow> om_actor \<Rightarrow> (om_actor, 'a) outcome" where
  "on_manager r a = (fst r, set_manager (snd r) a)"

fun discard_all :: "order_id list \<Rightarrow> om_actor \<Rightarrow> (om_actor, unit) outcome" where
  "discard_all [] a = (Inr (), a)"
| "discard_all (oid # oids) a =
     obind (on_manager (discard_terminal_order oid (oa_manager a)) a) (\<lambda>_ a'. discard_all oids a')"

definition compact_for_streaming :: "order_id list \<Rightarrow> om_actor \<Rightarrow> (om_actor, unit) outcome" where
  "compact_for_streaming oids a = obind (discard_all oids a) (\<lambda>_ a'. (Inr (), a'\<lparr>oa_fills := []\<rparr>))"

definition handle_submit :: "submit_order \<Rightarrow> om_actor \<Rightarrow> (om_actor, om_out list) outcome" where
  "handle_submit m a =
     (if oi_account_id (so_intent m) \<noteq> Some (so_account_id m)
      then (Inl (ValueError ''order account_id does not match SubmitOrder account_id''), a)
      else if oa_account_id a \<noteq> None \<and> oi_account_id (so_intent m) \<noteq> oa_account_id a
      then (Inl (ValueError ''order account_id does not match OrderManagerActor account_id''), a)
      else obind (on_manager (create_order (so_intent m) (so_risk_decision m) (oa_manager a)) a) (\<lambda>ord a1.
        let a2 = a1\<lparr>oa_routes := AList.update (oi_order_id (so_intent m)) (so_route_metadata m) (oa_routes a1)\<rparr>
        in obind (on_manager (mark_sent (or_order_id ord) (so_broker_order_id m) (oa_manager a2)) a2) (\<lambda>_ a3.
          case mk_execution_request \<lparr>xq_intent = so_intent m, xq_broker_order_id = so_broker_order_id m,
                 xq_market_price = so_market_price m, xq_account_id = so_account_id m,
                 xq_strategy_id = so_strategy_id m, xq_route_metadata = so_route_metadata m,
                 xq_bar_time = so_bar_time m\<rparr> of
            Inl e \<Rightarrow> (Inl e, a3)
          | Inr q \<Rightarrow> (Inr [ToExecution (Execute q)], a3))))"

text \<open>The guards \<open>_handle_cancel\<close> and \<open>_handle_replace\<close> share: the tracked order, or the error.\<close>

definition command_target ::
  "order_id \<Rightarrow> account_id \<Rightarrow> route_metadata \<Rightarrow> string \<Rightarrow> om_actor \<Rightarrow> order res" where
  "command_target oid account cmd_route what a =
     res_bind (get_order oid (oa_manager a)) (\<lambda>current.
       res_bind (oa_route_metadata oid a) (\<lambda>metadata.
         if oi_account_id (or_intent current) \<noteq> Some account
         then Inl (ValueError (what @ '' account_id does not match order account_id''))
         else if \<not> matches_route metadata cmd_route
         then Inl (ValueError (what @ '' route metadata does not match submitted order''))
         else if oa_account_id a \<noteq> None \<and> Some account \<noteq> oa_account_id a
         then Inl (ValueError (what @ '' account_id does not match OrderManagerActor account_id''))
         else Inr current))"

definition handle_cancel :: "cancel_order \<Rightarrow> om_actor \<Rightarrow> (om_actor, om_out list) outcome" where
  "handle_cancel m a =
     (case command_target (ci_order_id (co_intent m)) (co_account_id m) (co_route_metadata m) ''cancel'' a of
        Inl e \<Rightarrow> (Inl e, a)
      | Inr current \<Rightarrow>
         (if or_broker_order_id current = None
          then (Inl (RuntimeError ''order must have broker_order_id before cancellation''), a)
          else obind (on_manager (request_cancel (co_intent m) (oa_manager a)) a) (\<lambda>ord a1.
            case or_broker_order_id ord of
              None \<Rightarrow> (Inl AssertionError, a1)
            | Some boid \<Rightarrow>
               (case mk_cancel_request \<lparr>cq_order_id = or_order_id ord, cq_broker_order_id = boid,
                       cq_account_id = co_account_id m, cq_strategy_id = co_strategy_id m,
                       cq_route_metadata = co_route_metadata m\<rparr> of
                  Inl e \<Rightarrow> (Inl e, a1)
                | Inr q \<Rightarrow> (Inr [ToExecution (CancelRequest q)], a1)))))"

definition handle_replace :: "replace_order_msg \<Rightarrow> om_actor \<Rightarrow> (om_actor, om_out list) outcome" where
  "handle_replace m a =
     (case command_target (ri_order_id (ro_intent m)) (ro_account_id m) (ro_route_metadata m) ''replace'' a of
        Inl e \<Rightarrow> (Inl e, a)
      | Inr current \<Rightarrow>
         (if \<not> oa_supports_replace a
          then (Inl (UnsupportedOrderReplace ''broker does not support order replacement''), a)
          else if or_broker_order_id current = None
          then (Inl (RuntimeError ''order must have broker_order_id before replacement''), a)
          else obind (on_manager (request_replace (ro_intent m) (ro_risk_decision m) (oa_manager a)) a) (\<lambda>ord a1.
            case or_broker_order_id ord of
              None \<Rightarrow> (Inl AssertionError, a1)
            | Some boid \<Rightarrow>
               (case mk_replace_request \<lparr>pq_order_id = or_order_id ord, pq_broker_order_id = boid,
                       pq_new_quantity = ri_new_quantity (ro_intent m), pq_account_id = ro_account_id m,
                       pq_strategy_id = ro_strategy_id m, pq_route_metadata = ro_route_metadata m\<rparr> of
                  Inl e \<Rightarrow> (Inl e, a1)
                | Inr q \<Rightarrow> (Inr [ToExecution (ReplaceRequest q)], a1)))))"

definition handle_report :: "execution_report \<Rightarrow> om_actor \<Rightarrow> (om_actor, om_out list) outcome" where
  "handle_report r a =
     (case rh_handle r (oa_handler a) of
        (Inl e, h) \<Rightarrow> (Inl e, a\<lparr>oa_handler := h\<rparr>)
      | (Inr fills, h) \<Rightarrow>
          (Inr (map (\<lambda>f. ToAccount (ApplyFill \<lparr>af_fill = f, af_currency = oa_currency a,
                  af_multiplier = dict_lookup (oa_multipliers a) (of_instrument_id f) 1,
                  af_fill_time = er_fill_time r\<rparr>)) fills),
           a\<lparr>oa_handler := h, oa_fills := oa_fills a @ fills\<rparr>))"

definition order_handle :: "(om_actor, order_manager_msg, om_out, order_manager_answer) handler" where
  "order_handle msg a = (case msg of
      SubmitOrder m \<Rightarrow> obind (handle_submit m a) (\<lambda>outs a'. (Inr (outs, None), a'))
    | CancelOrder m \<Rightarrow> obind (handle_cancel m a) (\<lambda>outs a'. (Inr (outs, None), a'))
    | ReplaceOrder m \<Rightarrow> obind (handle_replace m a) (\<lambda>outs a'. (Inr (outs, None), a'))
    | Report r \<Rightarrow> obind (handle_report r a) (\<lambda>outs a'. (Inr (outs, None), a'))
    | CompactForStreaming oids \<Rightarrow> obind (compact_for_streaming oids a) (\<lambda>_ a'. (Inr ([], None), a'))
    | GetOrderManagerSnapshot \<Rightarrow>
        (case om_snapshot (oa_manager a) of (s, m) \<Rightarrow> (Inr ([], Some (OrderSnapshotAnswer s)), set_manager m a))
    | GetFillCount \<Rightarrow> (Inr ([], Some (FillCountAnswer (oa_fill_count a))), a)
    | GetFillsSince i \<Rightarrow> (Inr ([], Some (FillsAnswer (oa_fills_since i a))), a)
    | GetOrder oid \<Rightarrow>
        (case get_order oid (oa_manager a) of Inl e \<Rightarrow> (Inl e, a) | Inr ord \<Rightarrow> (Inr ([], Some (OrderAnswer ord)), a))
    | GetRouteMetadata oid \<Rightarrow>
        (case oa_route_metadata oid a of Inl e \<Rightarrow> (Inl e, a)
         | Inr m \<Rightarrow> (Inr ([], Some (RouteMetadataAnswer m)), a))
    | OtherOrderMsg n \<Rightarrow> (Inl (ActorUnhandledMessageError n), a))"

section \<open>The account applies every fill once\<close>

text \<open>An account step, with the fills it took into its books as outputs.\<close>

definition account_step :: "account_actor \<Rightarrow> account_msg \<Rightarrow> account_actor \<times> order_fill list" where
  "account_step a msg =
     (snd (account_handle msg a),
      case msg of ApplyFill m \<Rightarrow>
        (if aa_holdings (snd (account_handle msg a)) \<noteq> aa_holdings a \<or> aa_cash (snd (account_handle msg a)) \<noteq> aa_cash a
         then [af_fill m] else [])
      | _ \<Rightarrow> [])"

lemma aa_apply_fill_seen:
  "fs_seen (aa_fill_ids a) \<subseteq> fs_seen (aa_fill_ids (snd (aa_apply_fill m a)))"
  by (auto simp: aa_apply_fill_def fs_mark_seen_def Let_def split: prod.splits sum.splits bool.splits if_splits)

lemma aa_apply_fill_effect:
  assumes "aa_holdings (snd (aa_apply_fill m a)) \<noteq> aa_holdings a \<or> aa_cash (snd (aa_apply_fill m a)) \<noteq> aa_cash a"
  shows "of_fill_id (af_fill m) \<notin> fs_seen (aa_fill_ids a)"
    "of_fill_id (af_fill m) \<in> fs_seen (aa_fill_ids (snd (aa_apply_fill m a)))"
  using assms
  by (auto simp: aa_apply_fill_def fs_mark_seen_def Let_def split: prod.splits sum.splits bool.splits if_splits)

lemma account_handle_state:
  "snd (account_handle msg a) =
     (case msg of ApplyFill m \<Rightarrow> snd (aa_apply_fill m a)
      | GetAccountSnapshot \<Rightarrow> snd (aa_snapshot a)
      | DrainPositionClosedEvents \<Rightarrow> snd (drain_position_closed_events a)
      | OtherAccountMsg n \<Rightarrow> a)"
proof (cases msg)
  case (ApplyFill m)
  then show ?thesis by (cases "aa_apply_fill m a") (auto simp: account_handle_def obind_def split: sum.splits)
qed (auto simp: account_handle_def split: prod.splits)

lemma aa_snapshot_seen [simp]: "fs_seen (aa_fill_ids (snd (aa_snapshot a))) = fs_seen (aa_fill_ids a)"
  by (simp add: aa_snapshot_def case_prod_unfold)

interpretation account_fills: exactly_once account_step "\<lambda>a. fs_seen (aa_fill_ids a)" of_fill_id "\<lambda>_. True"
proof
  fix msg a
  show "of_fill_id ` set (snd (account_step a msg)) \<inter> fs_seen (aa_fill_ids a) = {}"
    using aa_apply_fill_effect by (cases msg) (auto simp: account_step_def account_handle_state)
  show "distinct (map of_fill_id (snd (account_step a msg)))"
    by (cases msg) (auto simp: account_step_def)
  show "fs_seen (aa_fill_ids a) \<union> of_fill_id ` set (snd (account_step a msg)) \<subseteq> fs_seen (aa_fill_ids (fst (account_step a msg)))"
    using aa_apply_fill_effect aa_apply_fill_seen
    by (cases msg) (auto simp: account_step_def account_handle_state drain_position_closed_events_def)
qed

lemma aa_apply_fill_new:
  assumes "aa_account_id a = None \<or> of_account_id (af_fill m) = aa_account_id a"
    and "\<not> blank (of_fill_id (af_fill m))" "of_fill_id (af_fill m) \<notin> fs_seen (aa_fill_ids a)"
  shows "aa_apply_fill m a =
     (let fill = af_fill m;
          a1 = a\<lparr>aa_fill_ids := (aa_fill_ids a)\<lparr>fs_seen := insert (of_fill_id fill) (fs_seen (aa_fill_ids a)),
                                               fs_snapshot_cache := None\<rparr>\<rparr>
      in case hb_apply_fill (of_instrument_id fill) (fill_signed_quantity fill) (of_price fill)
             (af_multiplier m) (af_fill_time m) (aa_holdings a) of
           (Inl e, hb) \<Rightarrow> (Inl e, a1\<lparr>aa_holdings := hb\<rparr>)
         | (Inr events, hb) \<Rightarrow>
             (fst (cb_apply_delta (af_currency m) (fill_cash_delta m) (aa_cash a)),
              a1\<lparr>aa_holdings := hb, aa_closed_events := aa_closed_events a @ events,
                 aa_cash := snd (cb_apply_delta (af_currency m) (fill_cash_delta m) (aa_cash a))\<rparr>))"
  using assms
  by (auto simp: aa_apply_fill_def fs_mark_seen_def Let_def case_prod_unfold split: prod.splits sum.splits)

lemma aa_apply_fill_accounts:
  assumes "aa_account_id a = None \<or> of_account_id (af_fill m) = aa_account_id a"
    and "\<not> blank (of_fill_id (af_fill m))" "of_fill_id (af_fill m) \<notin> fs_seen (aa_fill_ids a)"
    and "average_holding (of_instrument_id (af_fill m)) (hb_holding (aa_holdings a) (of_instrument_id (af_fill m)))"
    and "of_quantity (af_fill m) \<noteq> 0" "0 \<le> of_price (af_fill m)" "0 < af_multiplier m"
    and "normalize_currency (af_currency m) = Inr n"
  shows "\<exists>a'. aa_apply_fill m a = (Inr (), a') \<and>
     hb_quantity (aa_holdings a') = (hb_quantity (aa_holdings a))
       (of_instrument_id (af_fill m) :=
          dadd (hb_quantity (aa_holdings a) (of_instrument_id (af_fill m))) (fill_signed_quantity (af_fill m))) \<and>
     cb_code_balance (aa_cash a') = (cb_code_balance (aa_cash a))
       (n := dadd (cb_code_balance (aa_cash a) n) (fill_cash_delta m)) \<and>
     fs_seen (aa_fill_ids a') = insert (of_fill_id (af_fill m)) (fs_seen (aa_fill_ids a))"
proof -
  let ?i = "of_instrument_id (af_fill m)" and ?s = "fill_signed_quantity (af_fill m)"
  have "?s \<noteq> 0" using assms(5) by (simp add: fill_signed_quantity_def)
  from average_fill [OF assms(4) this assms(6,7), of "af_fill_time m"] obtain evs h where
    hb: "hb_apply_fill ?i ?s (of_price (af_fill m)) (af_multiplier m) (af_fill_time m) (aa_holdings a) =
      (Inr evs, hb_store ?i h (aa_holdings a))" "h_quantity h = dadd (hb_quantity (aa_holdings a) ?i) ?s" by blast
  from cash.post_ok [OF assms(8)] obtain cb where
    cb: "cb_apply_delta (af_currency m) (fill_cash_delta m) (aa_cash a) = (Inr (), cb)"
      "cb_code_balance cb = (cb_code_balance (aa_cash a))(n := dadd (cb_code_balance (aa_cash a) n) (fill_cash_delta m))"
    by blast
  show ?thesis using aa_apply_fill_new [OF assms(1-3)] hb cb
    by (simp add: Let_def hb_quantity_store)
qed

section \<open>Sample fills\<close>

definition sample_fill :: order_fill where
  "sample_fill = \<lparr>of_fill_id = ''F1'', of_order_id = ''O1'', of_instrument_id = ''GC'', of_side = BUY, of_quantity = 2,
     of_price = 100, of_commission = 4, of_slippage = 0, of_account_id = Some ''A1'', of_intent_id = None\<rparr>"

definition sample_apply :: apply_fill where
  "sample_apply = \<lparr>af_fill = sample_fill, af_currency = ''usd'', af_multiplier = 10, af_fill_time = Some 7\<rparr>"

definition sample_account :: account_actor where
  "sample_account = aa_init (Some [(''USD'', 5000)]) (Some ''A1'')"

lemma sample_account_facts:
  "aa_account_id sample_account = None \<or> of_account_id (af_fill sample_apply) = aa_account_id sample_account"
  "\<not> blank (of_fill_id (af_fill sample_apply))" "of_fill_id (af_fill sample_apply) \<notin> fs_seen (aa_fill_ids sample_account)"
  "average_holding (of_instrument_id (af_fill sample_apply))
     (hb_holding (aa_holdings sample_account) (of_instrument_id (af_fill sample_apply)))"
  "of_quantity (af_fill sample_apply) \<noteq> 0" "0 \<le> of_price (af_fill sample_apply)" "0 < af_multiplier sample_apply"
  "normalize_currency (af_currency sample_apply) = Inr ''USD''"
  by code_simp+

section \<open>Properties of the account\<close>

text \<open>C7. Every fill is booked once: over any sequence of messages to an account, with fills repeated and
  failing at will, no fill id changes the books twice, and none the account had already seen does.\<close>

theorem account_books_fills_once:
  "distinct (map of_fill_id (snd (run_steps account_step a msgs))) \<and>
   of_fill_id ` set (snd (run_steps account_step a msgs)) \<inter> fs_seen (aa_fill_ids a) = {}"
proof -
  have all: "list_all (\<lambda>_. True) msgs" by (simp add: list_all_iff)
  from account_fills.run_distinct [OF all] account_fills.run_fresh [OF all] show ?thesis by blast
qed



text \<open>C9. No value is created: where the arithmetic is exact, booking a fill changes the account's value,
  marked at the fill price, by exactly minus the commission.\<close>

theorem mark_to_market_identity:
  assumes "aa_account_id a = None \<or> of_account_id (af_fill m) = aa_account_id a"
    and "\<not> blank (of_fill_id (af_fill m))" "of_fill_id (af_fill m) \<notin> fs_seen (aa_fill_ids a)"
    and "average_holding (of_instrument_id (af_fill m)) (hb_holding (aa_holdings a) (of_instrument_id (af_fill m)))"
    and "of_quantity (af_fill m) \<noteq> 0" "0 \<le> of_price (af_fill m)" "0 < af_multiplier m"
    and "normalize_currency (af_currency m) = Inr n"
    and s: "s = fill_signed_quantity (af_fill m)" and p: "p = of_price (af_fill m)" and k: "k = af_multiplier m"
    and q: "q = hb_quantity (aa_holdings a) (of_instrument_id (af_fill m))" and c: "c = cb_code_balance (aa_cash a) n"
    and exact: "rep28 s" "rep28 (s * p)" "rep28 (s * p * k)" "rep28 (- (s * p * k) - of_commission (af_fill m))"
      "rep28 (c + (- (s * p * k) - of_commission (af_fill m)))" "rep28 (q + s)"
  shows "\<exists>a'. account_handle (ApplyFill m) a = (Inr ([], None), a') \<and>
     cb_code_balance (aa_cash a') n + hb_quantity (aa_holdings a') (of_instrument_id (af_fill m)) * p * k =
     c + q * p * k - of_commission (af_fill m)"
proof -
  from aa_apply_fill_accounts [OF assms(1-8)] obtain a' where a': "aa_apply_fill m a = (Inr (), a')"
    "hb_quantity (aa_holdings a') (of_instrument_id (af_fill m)) = dadd q s"
    "cb_code_balance (aa_cash a') n = dadd c (fill_cash_delta m)"
    unfolding s q c by auto
  have "dneg s = - s" using exact(1) by (simp add: dneg_def ctx_round_exact)
  moreover have "dmul (- s) p = - (s * p)" using exact(2) by (simp add: dmul_def ctx_round_exact)
  moreover have "dmul (- (s * p)) k = - (s * p * k)" using exact(3) by (simp add: dmul_def ctx_round_exact)
  ultimately have "fill_cash_delta m = - (s * p * k) - of_commission (af_fill m)"
    using exact(4) by (simp add: fill_cash_delta_def s [symmetric] p [symmetric] k [symmetric] dsub_def ctx_round_exact)
  then have "cb_code_balance (aa_cash a') n = c + (- (s * p * k) - of_commission (af_fill m))"
    using a'(3) exact(5) by (simp add: dadd_def ctx_round_exact)
  moreover have "dadd q s = q + s" using exact(6) by (simp add: dadd_def ctx_round_exact)
  ultimately show ?thesis using a' by (simp add: account_handle_def algebra_simps)
qed

theorem mark_to_market_identity_witness:
  "\<exists>a'. account_handle (ApplyFill sample_apply) sample_account = (Inr ([], None), a') \<and>
     cb_code_balance (aa_cash a') ''USD'' + hb_quantity (aa_holdings a') ''GC'' * 100 * 10 = 5000 - 4"
proof -
  have v: "fill_signed_quantity (af_fill sample_apply) = 2" "of_price (af_fill sample_apply) = 100"
    "af_multiplier sample_apply = 10" "hb_quantity (aa_holdings sample_account) (of_instrument_id (af_fill sample_apply)) = 0"
    "cb_code_balance (aa_cash sample_account) ''USD'' = 5000" "of_commission (af_fill sample_apply) = 4"
    "of_instrument_id (af_fill sample_apply) = ''GC''" "hb_quantity (aa_holdings sample_account) ''GC'' = 0"
    by code_simp+
  have r: "rep28 2" "rep28 (2 * 100)" "rep28 (2 * 100 * 10)" "rep28 (- (2 * 100 * 10) - 4)"
    "rep28 (5000 + (- (2 * 100 * 10) - 4))" "rep28 (0 + 2)"
    using rep28_of_int [of 2] rep28_of_int [of 200] rep28_of_int [of 2000] rep28_of_int [of "-2004"]
      rep28_of_int [of 2996] by simp_all
  from mark_to_market_identity [OF sample_account_facts refl refl refl refl refl, unfolded v, OF r] show ?thesis by simp
qed

text \<open>A fill that cannot be booked is lost: the fill id is recorded before the holdings are updated,
  so when the books refuse the fill (zero quantity, negative price, multiplier not positive) the
  corrected fill under the same id is silently ignored.\<close>

theorem refused_fill_is_consumed:
  assumes "aa_account_id a = None \<or> of_account_id (af_fill m) = aa_account_id a"
    and "\<not> blank (of_fill_id (af_fill m))" "of_fill_id (af_fill m) \<notin> fs_seen (aa_fill_ids a)"
    and "of_quantity (af_fill m) = 0 \<or> of_price (af_fill m) < 0 \<or> af_multiplier m \<le> 0"
    and "of_fill_id (af_fill m') = of_fill_id (af_fill m)" "of_account_id (af_fill m') = of_account_id (af_fill m)"
  shows "\<exists>e a'. aa_apply_fill m a = (Inl (ValueError e), a') \<and> aa_holdings a' = aa_holdings a \<and>
     aa_cash a' = aa_cash a \<and> aa_apply_fill m' a' = (Inr (), a')"
proof -
  have "fill_signed_quantity (af_fill m) = 0 \<longleftrightarrow> of_quantity (af_fill m) = 0"
    by (simp add: fill_signed_quantity_def)
  with assms(4) obtain e where hb: "hb_apply_fill (of_instrument_id (af_fill m)) (fill_signed_quantity (af_fill m))
     (of_price (af_fill m)) (af_multiplier m) (af_fill_time m) (aa_holdings a) = (Inl (ValueError e), aa_holdings a)"
    by (cases "of_quantity (af_fill m) = 0"; cases "of_price (af_fill m) < 0") (auto simp: hb_apply_fill_def)
  show ?thesis using aa_apply_fill_new [OF assms(1-3)] hb assms(1,2,5,6)
    by (auto simp: Let_def aa_apply_fill_def fs_mark_seen_def)
qed

theorem refused_fill_is_consumed_witness:
  "\<exists>e a'. aa_apply_fill (sample_apply\<lparr>af_multiplier := 0\<rparr>) sample_account = (Inl (ValueError e), a') \<and>
     aa_apply_fill sample_apply a' = (Inr (), a') \<and> aa_cash a' = aa_cash sample_account"
proof -
  let ?m = "sample_apply\<lparr>af_multiplier := 0\<rparr>"
  have "aa_account_id sample_account = None \<or> of_account_id (af_fill ?m) = aa_account_id sample_account"
    "\<not> blank (of_fill_id (af_fill ?m))" "of_fill_id (af_fill ?m) \<notin> fs_seen (aa_fill_ids sample_account)"
    "of_quantity (af_fill ?m) = 0 \<or> of_price (af_fill ?m) < 0 \<or> af_multiplier ?m \<le> 0"
    "of_fill_id (af_fill sample_apply) = of_fill_id (af_fill ?m)"
    "of_account_id (af_fill sample_apply) = of_account_id (af_fill ?m)"
    by code_simp+
  from refused_fill_is_consumed [OF this] show ?thesis by blast
qed

end
