(* ===== verification/Reconciliation.thy ===== *)
theory Reconciliation
  imports Trading_Actors
begin

text \<open>
  Reconciliation of the internal state with the broker: \<open>reconciliation/snapshots.py\<close>, \<open>drift.py\<close>,
  \<open>report.py\<close>, \<open>engine.py\<close>, \<open>startup_gate.py\<close>, \<open>persistent_drift.py\<close>, \<open>persistent_drift_coordinator.py\<close>
  and \<open>runtime/broker_runtime_reconciliation.py\<close>. A drift item keeps the values of the two sides
  where the code keeps their text. The call of the safety controller is the output of the
  coordinator's step.

  Properties: a report has no drift exactly when the two snapshots agree; what it lists; when the
  persistent-drift switch trips, over whole histories of reports; and what an account that is flat
  again looks like to the startup gate.
\<close>

section \<open>Snapshots (\<open>snapshots.py\<close>)\<close>

record order_snapshot =
  sn_order_id :: order_id
  sn_instrument_id :: instrument_id
  sn_side :: order_side
  sn_quantity :: decimal
  sn_status :: string

definition mk_order_snapshot :: "order_snapshot \<Rightarrow> order_snapshot res" where
  [ctor_simps]: "mk_order_snapshot s = checked
     [(sn_quantity s \<le> 0, ValueError ''quantity must be positive''),
      (blank (sn_status s), ValueError ''status must not be empty'')] s"

record position_snapshot =
  ps_instrument_id :: instrument_id
  ps_quantity :: decimal

record cash_snapshot =
  ch_currency :: string
  ch_balance :: decimal

definition mk_cash_snapshot :: "cash_snapshot \<Rightarrow> cash_snapshot res" where
  [ctor_simps]: "mk_cash_snapshot s = checked [(blank (ch_currency s), ValueError ''currency must not be empty'')] s"

record reconciliation_snapshot =
  rn_account_id :: account_id
  rn_orders :: "order_snapshot list"
  rn_positions :: "position_snapshot list"
  rn_cash :: "cash_snapshot list"

section \<open>Drift items (\<open>drift.py\<close>)\<close>

datatype drift_kind = MATCHED | MISSING_AT_BROKER | EXTRA_AT_BROKER | DIVERGENT | TOLERANCE_ONLY

datatype drift_value = OrderValue order_side decimal string instrument_id | AmountValue decimal

record drift_item =
  di_kind :: drift_kind
  di_key :: string
  di_internal :: "drift_value option"
  di_broker :: "drift_value option"

definition order_repr :: "order_snapshot option \<Rightarrow> drift_value option" where
  "order_repr x = map_option (\<lambda>s. OrderValue (sn_side s) (sn_quantity s) (sn_status s) (sn_instrument_id s)) x"

definition amount_repr :: "decimal option \<Rightarrow> drift_value option" where
  "amount_repr x = map_option AmountValue x"

definition order_item :: "string \<Rightarrow> order_snapshot option \<Rightarrow> order_snapshot option \<Rightarrow> drift_item" where
  "order_item key internal broker =
     \<lparr>di_kind = (case internal of None \<Rightarrow> EXTRA_AT_BROKER
        | Some l \<Rightarrow> (case broker of None \<Rightarrow> MISSING_AT_BROKER
            | Some r \<Rightarrow> if l = r then MATCHED else DIVERGENT)),
      di_key = key, di_internal = order_repr internal, di_broker = order_repr broker\<rparr>"

text \<open>The keys of a union of two dictionaries, sorted.\<close>

definition union_keys :: "('k :: linorder, 'v) dict \<Rightarrow> ('k, 'v) dict \<Rightarrow> 'k list" where
  "union_keys l r = sort (remdups (dict_keys l @ dict_keys r))"

definition compare_orders :: "order_snapshot list \<Rightarrow> order_snapshot list \<Rightarrow> drift_item list" where
  "compare_orders internal broker =
     (let left = dict_of (map (\<lambda>s. (sn_order_id s, s)) internal);
          right = dict_of (map (\<lambda>s. (sn_order_id s, s)) broker)
      in map (\<lambda>i. order_item (''order:'' @ i) (map_of left i) (map_of right i)) (union_keys left right))"

definition quantity_item :: "string \<Rightarrow> decimal option \<Rightarrow> decimal option \<Rightarrow> decimal \<Rightarrow> drift_item" where
  "quantity_item key internal broker tolerance =
     \<lparr>di_kind = (case internal of None \<Rightarrow> EXTRA_AT_BROKER
        | Some l \<Rightarrow> (case broker of None \<Rightarrow> MISSING_AT_BROKER
            | Some r \<Rightarrow> if l = r then MATCHED
                else if dabs (dsub l r) \<le> tolerance then TOLERANCE_ONLY else DIVERGENT)),
      di_key = key, di_internal = amount_repr internal, di_broker = amount_repr broker\<rparr>"

definition compare_positions :: "position_snapshot list \<Rightarrow> position_snapshot list \<Rightarrow> decimal \<Rightarrow> drift_item list" where
  "compare_positions internal broker tolerance =
     (let left = dict_of (map (\<lambda>s. (ps_instrument_id s, ps_quantity s)) internal);
          right = dict_of (map (\<lambda>s. (ps_instrument_id s, ps_quantity s)) broker)
      in map (\<lambda>i. quantity_item (''position:'' @ i) (map_of left i) (map_of right i) tolerance) (union_keys left right))"

definition compare_cash :: "cash_snapshot list \<Rightarrow> cash_snapshot list \<Rightarrow> decimal \<Rightarrow> drift_item list" where
  "compare_cash internal broker tolerance =
     (let left = dict_of (map (\<lambda>s. (ch_currency s, ch_balance s)) internal);
          right = dict_of (map (\<lambda>s. (ch_currency s, ch_balance s)) broker)
      in map (\<lambda>i. quantity_item (''cash:'' @ i) (map_of left i) (map_of right i) tolerance) (union_keys left right))"

definition drift_sort_key :: "string \<Rightarrow> (nat \<times> string) res" where
  "drift_sort_key key =
     (let prefix = takeWhile (\<lambda>c. c \<noteq> CHR '':'') key
      in case map_of [(''order'', 0), (''position'', 1), (''cash'', 2)] prefix of
           None \<Rightarrow> Inl (KeyError prefix) | Some n \<Rightarrow> Inr (n, key))"

section \<open>Reports and the engine (\<open>report.py\<close>, \<open>engine.py\<close>, \<open>startup_gate.py\<close>)\<close>

record reconciliation_report =
  rp_account_id :: account_id
  rp_items :: "drift_item list"

definition has_drift :: "reconciliation_report \<Rightarrow> bool" where
  "has_drift r = list_ex (\<lambda>i. di_kind i \<notin> {MATCHED, TOLERANCE_ONLY}) (rp_items r)"

definition reconcile_snapshots ::
  "reconciliation_snapshot \<Rightarrow> reconciliation_snapshot \<Rightarrow> decimal \<Rightarrow> reconciliation_report res" where
  "reconcile_snapshots internal broker tolerance =
     (if rn_account_id internal \<noteq> rn_account_id broker then Inl (ValueError ''cannot reconcile different accounts'')
      else if tolerance < 0 then Inl (ValueError ''tolerance must be non-negative'')
      else let items = compare_orders (rn_orders internal) (rn_orders broker) @
                 compare_positions (rn_positions internal) (rn_positions broker) tolerance @
                 compare_cash (rn_cash internal) (rn_cash broker) tolerance
           in res_bind (res_map (\<lambda>i. drift_sort_key (di_key i)) items) (\<lambda>keys.
              Inr \<lparr>rp_account_id = rn_account_id internal, rp_items = map snd (sort_key fst (zip keys items))\<rparr>))"

record reconciliation_engine = ng_tolerance :: decimal

definition mk_reconciliation_engine :: "decimal \<Rightarrow> reconciliation_engine res" where
  [ctor_simps]: "mk_reconciliation_engine tolerance = checked
     [(tolerance < 0, ValueError ''tolerance must be non-negative'')] \<lparr>ng_tolerance = tolerance\<rparr>"

definition effective_tolerance :: "reconciliation_engine \<Rightarrow> decimal option \<Rightarrow> decimal res" where
  "effective_tolerance e override =
     (case override of None \<Rightarrow> Inr (ng_tolerance e)
      | Some t \<Rightarrow> if t < 0 then Inl (ValueError ''tolerance must be non-negative'') else Inr t)"

definition reconcile ::
  "reconciliation_engine \<Rightarrow> reconciliation_snapshot \<Rightarrow> reconciliation_snapshot \<Rightarrow> decimal option \<Rightarrow>
   reconciliation_report res" where
  "reconcile e internal broker tolerance =
     res_bind (effective_tolerance e tolerance) (reconcile_snapshots internal broker)"

record startup_decision =
  sd_trading_enabled :: bool
  sd_report :: reconciliation_report
  sd_reason_code :: "string option"

definition startup_reconciliation_gate :: "reconciliation_report \<Rightarrow> startup_decision" where
  "startup_reconciliation_gate r =
     (if has_drift r
      then \<lparr>sd_trading_enabled = False, sd_report = r, sd_reason_code = Some ''RECONCILIATION_DRIFT''\<rparr>
      else \<lparr>sd_trading_enabled = True, sd_report = r, sd_reason_code = None\<rparr>)"

section \<open>Persistent drift (\<open>persistent_drift.py\<close>, \<open>persistent_drift_coordinator.py\<close>)\<close>

record drift_switch =
  pd_consecutive_threshold :: int
  pd_streak_key :: "string option"
  pd_streak_count :: int
  pd_tripped :: bool
  pd_tripped_key :: "string option"

record drift_decision =
  dd_tripped :: bool
  dd_tripped_key :: "string option"

definition mk_drift_switch :: "int \<Rightarrow> drift_switch res" where
  [ctor_simps]: "mk_drift_switch threshold = checked
     [(threshold \<le> 0, ValueError ''consecutive_threshold must be positive'')]
     \<lparr>pd_consecutive_threshold = threshold, pd_streak_key = None, pd_streak_count = 0, pd_tripped = False,
      pd_tripped_key = None\<rparr>"

definition divergent_keys :: "reconciliation_report \<Rightarrow> string list" where
  "divergent_keys r = sort (map di_key (filter (\<lambda>i. di_kind i = DIVERGENT) (rp_items r)))"

definition pd_observe :: "reconciliation_report \<Rightarrow> drift_switch \<Rightarrow> drift_decision \<times> drift_switch" where
  "pd_observe r s =
     (if pd_tripped s then (\<lparr>dd_tripped = True, dd_tripped_key = pd_tripped_key s\<rparr>, s)
      else case divergent_keys r of
        [] \<Rightarrow> (\<lparr>dd_tripped = False, dd_tripped_key = None\<rparr>, s\<lparr>pd_streak_key := None, pd_streak_count := 0\<rparr>)
      | focus_key # _ \<Rightarrow>
          (let s1 = (if pd_streak_key s = Some focus_key then s\<lparr>pd_streak_count := pd_streak_count s + 1\<rparr>
                     else s\<lparr>pd_streak_key := Some focus_key, pd_streak_count := 1\<rparr>)
           in if pd_streak_count s1 \<ge> pd_consecutive_threshold s1
              then (\<lparr>dd_tripped = True, dd_tripped_key = Some focus_key\<rparr>,
                    s1\<lparr>pd_tripped := True, pd_tripped_key := Some focus_key\<rparr>)
              else (\<lparr>dd_tripped = False, dd_tripped_key = None\<rparr>, s1)))"

record drift_coordinator =
  pc_kill_switch :: drift_switch
  pc_already_tripped :: bool

definition mk_drift_coordinator :: "int \<Rightarrow> drift_coordinator res" where
  [ctor_simps]: "mk_drift_coordinator threshold =
     res_bind (mk_drift_switch threshold) (\<lambda>s. Inr \<lparr>pc_kill_switch = s, pc_already_tripped = False\<rparr>)"

text \<open>The output is the list of calls of the safety controller: the drift key and the threshold that
  its reason text quotes.\<close>

definition pc_observe :: "drift_coordinator \<Rightarrow> reconciliation_report \<Rightarrow> drift_coordinator \<times> (string option \<times> int) list" where
  "pc_observe c r =
     (case pd_observe r (pc_kill_switch c) of (d, s) \<Rightarrow>
        let c1 = c\<lparr>pc_kill_switch := s\<rparr>
        in if \<not> dd_tripped d \<or> pc_already_tripped c then (c1, [])
           else (c1\<lparr>pc_already_tripped := True\<rparr>, [(dd_tripped_key d, pd_consecutive_threshold s)]))"

section \<open>Broker runtime reconciliation (\<open>runtime/broker_runtime_reconciliation.py\<close>)\<close>

fun order_state_value :: "order_state \<Rightarrow> string" where
  "order_state_value Created = ''created''"
| "order_state_value Sent = ''sent''"
| "order_state_value Accepted = ''accepted''"
| "order_state_value PartiallyFilled = ''partially_filled''"
| "order_state_value Filled = ''filled''"
| "order_state_value CancelRequested = ''cancel_requested''"
| "order_state_value ReplaceRequested = ''replace_requested''"
| "order_state_value Cancelled = ''cancelled''"
| "order_state_value Rejected = ''rejected''"

definition order_snapshot_of :: "order \<Rightarrow> order_snapshot" where
  "order_snapshot_of ord =
     \<lparr>sn_order_id = or_order_id ord, sn_instrument_id = oi_instrument_id (or_intent ord),
      sn_side = oi_side (or_intent ord), sn_quantity = oi_quantity (or_intent ord),
      sn_status = order_state_value (or_state ord)\<rparr>"

definition internal_snapshot ::
  "account_id \<Rightarrow> order_state_snapshot \<Rightarrow> account_snapshot \<Rightarrow> reconciliation_snapshot res" where
  "internal_snapshot account_id order_manager account =
     res_bind (res_map (\<lambda>ord. mk_order_snapshot (order_snapshot_of ord)) (ss_orders order_manager)) (\<lambda>orders.
     res_bind (res_map (\<lambda>(c, x). mk_cash_snapshot \<lparr>ch_currency = c, ch_balance = x\<rparr>) (as_cash account)) (\<lambda>cash.
     Inr \<lparr>rn_account_id = account_id, rn_orders = orders,
       rn_positions = map (\<lambda>(i, h). \<lparr>ps_instrument_id = i, ps_quantity = h_quantity h\<rparr>) (as_holdings account),
       rn_cash = cash\<rparr>))"

definition startup_decision_for ::
  "reconciliation_engine \<Rightarrow> reconciliation_snapshot \<Rightarrow> reconciliation_snapshot \<Rightarrow> startup_decision res" where
  "startup_decision_for e internal broker =
     res_bind (reconcile e internal broker None) (\<lambda>r. Inr (startup_reconciliation_gate r))"

record runtime_event =
  ev_kind :: string
  ev_payload :: "(string, evidence) dict"

definition periodic_check ::
  "account_id \<Rightarrow> reconciliation_engine \<Rightarrow> reconciliation_snapshot \<Rightarrow> reconciliation_snapshot \<Rightarrow>
   (reconciliation_report \<times> runtime_event option) res" where
  "periodic_check account_id e internal broker =
     res_bind (reconcile e internal broker None) (\<lambda>r.
       if \<not> has_drift r then Inr (r, None)
       else Inr (r, Some \<lparr>ev_kind = ''runtime.degraded'',
         ev_payload = [(''reason'', EvStr ''reconciliation_drift''), (''account_id'', EvStr account_id),
           (''drift_count'', EvNum (of_nat (length (rp_items r))))]\<rparr>))"

section \<open>Sorted keys\<close>

lemma sort_key_already:
  fixes xs :: "'a list" and f :: "'a \<Rightarrow> 'b :: linorder"
  assumes "sorted (map f xs)"
  shows "sort_key f xs = xs"
  by (rule properties_for_sort_key) (use assms in simp_all)

lemma res_map_Inr_map: "(\<And>x. x \<in> set xs \<Longrightarrow> f x = Inr (g x)) \<Longrightarrow> res_map f xs = Inr (map g xs)"
  by (induction xs) auto

lemma set_union_keys [simp]: "set (union_keys l r) = dom (map_of l) \<union> dom (map_of r)"
  by (auto simp: union_keys_def dom_map_of_conv_image_fst)

lemma union_keys_eq: "union_keys l r = sorted_list_of_set (dom (map_of l) \<union> dom (map_of r))"
proof -
  have "sorted (union_keys l r)" "distinct (union_keys l r)" by (simp_all add: union_keys_def)
  then show ?thesis using sorted_list_of_set.idem_if_sorted_distinct by (metis set_union_keys)
qed

text \<open>The drift keys of one category are ordered as the identifiers they carry.\<close>

definition category_key :: "string \<Rightarrow> nat \<times> string" where
  "category_key k = ((if hd k = CHR ''o'' then 0 else if hd k = CHR ''p'' then 1 else 2), k)"

lemma drift_sort_key_simps [simp]:
  "drift_sort_key (''order:'' @ i) = Inr (category_key (''order:'' @ i))"
  "drift_sort_key (''position:'' @ i) = Inr (category_key (''position:'' @ i))"
  "drift_sort_key (''cash:'' @ i) = Inr (category_key (''cash:'' @ i))"
  by (simp_all add: drift_sort_key_def category_key_def)

lemma sorted_category:
  assumes "sorted (xs :: string list)" and "sorted (ys :: string list)" and "sorted (zs :: string list)"
  shows "sorted (map category_key (map (\<lambda>i. ''order:'' @ i) xs @ map (\<lambda>i. ''position:'' @ i) ys @ map (\<lambda>i. ''cash:'' @ i) zs))"
  using assms unfolding sorted_append map_append
  by (auto simp: category_key_def sorted_map sorted_wrt_map o_def less_eq_prod_def)

section \<open>What a report says\<close>

definition orders_map :: "reconciliation_snapshot \<Rightarrow> order_id \<Rightarrow> order_snapshot option" where
  "orders_map s = map_of (dict_of (map (\<lambda>x. (sn_order_id x, x)) (rn_orders s)))"

definition positions_map :: "reconciliation_snapshot \<Rightarrow> instrument_id \<Rightarrow> decimal option" where
  "positions_map s = map_of (dict_of (map (\<lambda>x. (ps_instrument_id x, ps_quantity x)) (rn_positions s)))"

definition cash_map :: "reconciliation_snapshot \<Rightarrow> string \<Rightarrow> decimal option" where
  "cash_map s = map_of (dict_of (map (\<lambda>x. (ch_currency x, ch_balance x)) (rn_cash s)))"

text \<open>The report as a function of the two snapshots read as maps: one item per identifier that either
  side knows, in the order of the identifiers.\<close>

definition items_of ::
  "(string \<Rightarrow> 'v option \<Rightarrow> 'v option \<Rightarrow> drift_item) \<Rightarrow> string \<Rightarrow> (string \<Rightarrow> 'v option) \<Rightarrow> (string \<Rightarrow> 'v option) \<Rightarrow> drift_item list" where
  "items_of item category l r = map (\<lambda>i. item (category @ i) (l i) (r i)) (sorted_list_of_set (dom l \<union> dom r))"

definition pointwise_items :: "decimal \<Rightarrow> reconciliation_snapshot \<Rightarrow> reconciliation_snapshot \<Rightarrow> drift_item list" where
  "pointwise_items t l r =
     items_of order_item ''order:'' (orders_map l) (orders_map r) @
     items_of (\<lambda>k x y. quantity_item k x y t) ''position:'' (positions_map l) (positions_map r) @
     items_of (\<lambda>k x y. quantity_item k x y t) ''cash:'' (cash_map l) (cash_map r)"

lemma item_keys [simp]: "di_key (order_item k x y) = k" "di_key (quantity_item k u v t) = k"
  by (simp_all add: order_item_def quantity_item_def)

lemma compare_pointwise:
  "compare_orders (rn_orders l) (rn_orders r) @ compare_positions (rn_positions l) (rn_positions r) t @
     compare_cash (rn_cash l) (rn_cash r) t = pointwise_items t l r"
  by (simp add: compare_orders_def compare_positions_def compare_cash_def pointwise_items_def items_of_def
      orders_map_def positions_map_def cash_map_def union_keys_eq Let_def)

lemma pointwise_keys:
  "\<exists>xs ys zs. map di_key (pointwise_items t l r) =
     map (\<lambda>i. ''order:'' @ i) xs @ map (\<lambda>i. ''position:'' @ i) ys @ map (\<lambda>i. ''cash:'' @ i) zs \<and>
     sorted xs \<and> sorted ys \<and> sorted zs"
  by (intro exI conjI) (simp add: pointwise_items_def items_of_def o_def | rule sorted_sorted_list_of_set)+

lemma sort_pointwise:
  "res_map (\<lambda>i. drift_sort_key (di_key i)) (pointwise_items t l r) = Inr (map (\<lambda>i. category_key (di_key i)) (pointwise_items t l r))"
  "sorted (map (\<lambda>i. category_key (di_key i)) (pointwise_items t l r))"
proof -
  from pointwise_keys obtain xs ys zs where k: "map di_key (pointwise_items t l r) =
     map (\<lambda>i. ''order:'' @ i) xs @ map (\<lambda>i. ''position:'' @ i) ys @ map (\<lambda>i. ''cash:'' @ i) zs"
     "sorted xs" "sorted ys" "sorted zs" by metis
  have "drift_sort_key q = Inr (category_key q)" if "q \<in> set (map di_key (pointwise_items t l r))" for q
    using that unfolding k(1) by (auto simp del: append.simps append_Cons)
  then show "res_map (\<lambda>i. drift_sort_key (di_key i)) (pointwise_items t l r) = Inr (map (\<lambda>i. category_key (di_key i)) (pointwise_items t l r))"
    by (intro res_map_Inr_map) simp
  show "sorted (map (\<lambda>i. category_key (di_key i)) (pointwise_items t l r))"
    using sorted_category [OF k(2-4)] unfolding k(1) [symmetric] by (simp add: o_def)
qed

lemma reconcile_pointwise:
  assumes "rn_account_id l = rn_account_id r" and "0 \<le> t"
  shows "reconcile_snapshots l r t = Inr \<lparr>rp_account_id = rn_account_id l, rp_items = pointwise_items t l r\<rparr>"
proof -
  let ?its = "pointwise_items t l r" and ?ks = "map (\<lambda>i. category_key (di_key i)) (pointwise_items t l r)"
  have "sort_key fst (zip ?ks ?its) = zip ?ks ?its"
    by (rule sort_key_already) (simp add: sort_pointwise)
  then show ?thesis using assms
    by (simp add: reconcile_snapshots_def compare_pointwise sort_pointwise(1) Let_def)
qed

definition close_amounts :: "decimal \<Rightarrow> decimal \<Rightarrow> decimal \<Rightarrow> bool" where
  "close_amounts t x y \<longleftrightarrow> x = y \<or> dabs (dsub x y) \<le> t"

definition snapshots_agree :: "decimal \<Rightarrow> reconciliation_snapshot \<Rightarrow> reconciliation_snapshot \<Rightarrow> bool" where
  "snapshots_agree t l r \<longleftrightarrow> orders_map l = orders_map r \<and>
     (\<forall>i. rel_option (close_amounts t) (positions_map l i) (positions_map r i)) \<and>
     (\<forall>c. rel_option (close_amounts t) (cash_map l c) (cash_map r c))"

lemma item_tolerable:
  "x \<noteq> None \<or> y \<noteq> None \<Longrightarrow> di_kind (order_item k x y) \<in> {MATCHED, TOLERANCE_ONLY} \<longleftrightarrow> x = y"
  "u \<noteq> None \<or> v \<noteq> None \<Longrightarrow>
     di_kind (quantity_item k u v t) \<in> {MATCHED, TOLERANCE_ONLY} \<longleftrightarrow> rel_option (close_amounts t) u v"
  by (auto simp: order_item_def quantity_item_def close_amounts_def split: option.splits)

lemma items_of_all:
  assumes "\<And>k x y. x \<noteq> None \<or> y \<noteq> None \<Longrightarrow> P (item k x y) \<longleftrightarrow> R x y" and "R None None"
    and "finite (dom l)" "finite (dom r)"
  shows "list_all P (items_of item c l r) \<longleftrightarrow> (\<forall>i. R (l i) (r i))"
proof -
  have "P (item (c @ i) (l i) (r i)) \<longleftrightarrow> R (l i) (r i)" if "i \<in> dom l \<union> dom r" for i
    by (rule assms(1)) (use that in auto)
  then have "list_all P (items_of item c l r) \<longleftrightarrow> (\<forall>i \<in> dom l \<union> dom r. R (l i) (r i))"
    using assms(3,4) unfolding items_of_def list_all_iff by simp
  also have "\<dots> \<longleftrightarrow> (\<forall>i. R (l i) (r i))" using assms(2) by (metis Un_iff domIff)
  finally show ?thesis .
qed

lemma snapshot_maps_finite [simp]:
  "finite (dom (orders_map s))" "finite (dom (positions_map s))" "finite (dom (cash_map s))"
  by (simp_all add: orders_map_def positions_map_def cash_map_def finite_dom_map_of)

lemma pointwise_no_drift:
  "list_all (\<lambda>i. di_kind i \<in> {MATCHED, TOLERANCE_ONLY}) (pointwise_items t l r) \<longleftrightarrow> snapshots_agree t l r"
proof -
  let ?ok = "\<lambda>i. di_kind i \<in> {MATCHED, TOLERANCE_ONLY}"
  have "list_all ?ok (items_of order_item c (orders_map l) (orders_map r)) \<longleftrightarrow> (\<forall>i. orders_map l i = orders_map r i)" for c
    by (rule items_of_all) (simp_all only: item_tolerable snapshot_maps_finite)
  moreover have "list_all ?ok (items_of (\<lambda>k x y. quantity_item k x y t) c m n) \<longleftrightarrow>
      (\<forall>i. rel_option (close_amounts t) (m i) (n i))" if "finite (dom m)" "finite (dom n)" for c m n
    by (rule items_of_all [where R = "rel_option (close_amounts t)"]) (use that in \<open>simp_all only: item_tolerable option.rel_inject\<close>)
  ultimately show ?thesis
    unfolding pointwise_items_def snapshots_agree_def list_all_append fun_eq_iff by (simp only: snapshot_maps_finite)
qed

lemma has_drift_pointwise:
  "has_drift \<lparr>rp_account_id = a, rp_items = pointwise_items t l r\<rparr> \<longleftrightarrow> \<not> snapshots_agree t l r"
  unfolding has_drift_def pointwise_no_drift [symmetric] by (simp add: list_ex_iff list_all_iff)

section \<open>Histories of reports\<close>

text \<open>The key a report counts towards: the smallest divergent one.\<close>

definition focus :: "reconciliation_report \<Rightarrow> string option" where
  "focus r = (case divergent_keys r of [] \<Rightarrow> None | k # _ \<Rightarrow> Some k)"

text \<open>\<open>n\<close> consecutive reports with the same focus.\<close>

definition streak_at :: "nat \<Rightarrow> string option list \<Rightarrow> string \<Rightarrow> bool" where
  "streak_at n fs k \<longleftrightarrow> (\<exists>pre post. fs = pre @ replicate n (Some k) @ post)"

definition tail_run :: "string \<Rightarrow> string option list \<Rightarrow> nat" where
  "tail_run k fs = length (takeWhile (\<lambda>x. x = Some k) (rev fs))"

lemma takeWhile_eq_replicate: "takeWhile (\<lambda>x. x = y) xs = replicate (length (takeWhile (\<lambda>x. x = y) xs)) y"
  by (induction xs) auto

lemma ends_with_run: "(\<exists>pre. fs = pre @ replicate n (Some k)) \<longleftrightarrow> n \<le> tail_run k fs"
proof
  assume "\<exists>pre. fs = pre @ replicate n (Some k)"
  then obtain pre where "rev fs = replicate n (Some k) @ rev pre" by auto
  then show "n \<le> tail_run k fs" by (simp add: tail_run_def takeWhile_append)
next
  assume le: "n \<le> tail_run k fs"
  let ?w = "takeWhile (\<lambda>x. x = Some k) (rev fs)" and ?d = "dropWhile (\<lambda>x. x = Some k) (rev fs)"
  have "rev fs = replicate (length ?w) (Some k) @ ?d" using takeWhile_eq_replicate takeWhile_dropWhile_id by metis
  also have "\<dots> = replicate n (Some k) @ (replicate (length ?w - n) (Some k) @ ?d)"
    using le by (simp add: tail_run_def flip: append_assoc replicate_add)
  finally have "fs = rev (replicate (length ?w - n) (Some k) @ ?d) @ replicate n (Some k)"
    by (metis rev_append rev_replicate rev_rev_ident)
  then show "\<exists>pre. fs = pre @ replicate n (Some k)" by blast
qed

lemma tail_run_snoc [simp]: "tail_run k (fs @ [x]) = (if x = Some k then Suc (tail_run k fs) else 0)"
  by (simp add: tail_run_def)

lemma streak_at_snoc:
  assumes "0 < n"
  shows "streak_at n (fs @ [x]) k \<longleftrightarrow> streak_at n fs k \<or> x = Some k \<and> n \<le> Suc (tail_run k fs)"
proof -
  have "streak_at n (fs @ [x]) k \<longleftrightarrow> streak_at n fs k \<or> (\<exists>pre. fs @ [x] = pre @ replicate n (Some k))"
  proof
    assume "streak_at n (fs @ [x]) k"
    then obtain pre post where e: "fs @ [x] = pre @ replicate n (Some k) @ post" unfolding streak_at_def by blast
    then show "streak_at n fs k \<or> (\<exists>pre. fs @ [x] = pre @ replicate n (Some k))"
      by (cases post rule: rev_cases) (auto simp: streak_at_def simp flip: append_assoc)
  next
    assume "streak_at n fs k \<or> (\<exists>pre. fs @ [x] = pre @ replicate n (Some k))"
    then show "streak_at n (fs @ [x]) k" unfolding streak_at_def by (metis append.assoc append_Nil2)
  qed
  with assms show ?thesis by (auto simp: ends_with_run)
qed

lemma observe_by_focus:
  "\<not> pd_tripped s \<Longrightarrow> pd_observe r s =
     (case focus r of
        None \<Rightarrow> (\<lparr>dd_tripped = False, dd_tripped_key = None\<rparr>, s\<lparr>pd_streak_key := None, pd_streak_count := 0\<rparr>)
      | Some k \<Rightarrow>
          (let n = (if pd_streak_key s = Some k then pd_streak_count s + 1 else 1);
               s1 = s\<lparr>pd_streak_key := Some k, pd_streak_count := n\<rparr>
           in if n \<ge> pd_consecutive_threshold s
              then (\<lparr>dd_tripped = True, dd_tripped_key = Some k\<rparr>, s1\<lparr>pd_tripped := True, pd_tripped_key := Some k\<rparr>)
              else (\<lparr>dd_tripped = False, dd_tripped_key = None\<rparr>, s1)))"
  by (auto simp: pd_observe_def focus_def Let_def split: list.splits)

text \<open>What the coordinator knows after a history that has not reached the threshold.\<close>

definition watching :: "nat \<Rightarrow> string option list \<Rightarrow> drift_coordinator \<Rightarrow> bool" where
  "watching n fs c \<longleftrightarrow> (let s = pc_kill_switch c in
     \<not> pd_tripped s \<and> \<not> pc_already_tripped c \<and> pd_consecutive_threshold s = int n \<and>
     pd_streak_key s = (if fs = [] then None else last fs) \<and>
     (\<forall>k. pd_streak_key s = Some k \<longrightarrow> pd_streak_count s = int (tail_run k fs)) \<and>
     (\<forall>k. \<not> streak_at n fs k))"

lemma observe_watching:
  assumes "watching n fs c" and "0 < n"
  shows "case pc_observe c r of (c', calls) \<Rightarrow>
     (\<forall>k. \<not> streak_at n (fs @ [focus r]) k) \<and> calls = [] \<and> watching n (fs @ [focus r]) c' \<or>
     (\<exists>k. focus r = Some k \<and> streak_at n (fs @ [focus r]) k \<and> calls = [(Some k, int n)] \<and>
        pd_tripped (pc_kill_switch c') \<and> pc_already_tripped c')"
proof (cases "focus r")
  case None
  with assms show ?thesis
    by (simp add: watching_def pc_observe_def observe_by_focus streak_at_snoc Let_def)
next
  case (Some k)
  let ?s = "pc_kill_switch c"
  have count: "(if pd_streak_key ?s = Some k then pd_streak_count ?s + 1 else 1) = int (Suc (tail_run k fs))"
  proof (cases "pd_streak_key ?s = Some k")
    case False
    with assms(1) have "fs = [] \<or> last fs \<noteq> Some k" by (auto simp: watching_def Let_def split: if_splits)
    then have "tail_run k fs = 0" by (cases fs rule: rev_cases) (auto simp: tail_run_def)
    with False show ?thesis by simp
  qed (use assms(1) in \<open>simp add: watching_def Let_def\<close>)
  from assms(1) have base: "\<not> pd_tripped ?s" "\<not> pc_already_tripped c" "pd_consecutive_threshold ?s = int n" "\<And>k. \<not> streak_at n fs k"
    by (simp_all add: watching_def Let_def)
  show ?thesis
    unfolding pc_observe_def observe_by_focus [OF base(1)] Some option.case Let_def count base(3)
    using base assms(2) by (auto simp: streak_at_snoc watching_def Let_def)
qed

lemma observe_tripped:
  "pd_tripped (pc_kill_switch c) \<Longrightarrow> pc_already_tripped c \<Longrightarrow> snd (run_steps pc_observe c rs) = []"
  by (induction rs arbitrary: c) (auto simp: pc_observe_def pd_observe_def)

lemma coordinator_run:
  assumes "watching n fs c" and "0 < n"
  shows "snd (run_steps pc_observe c rs) = [] \<and> (\<forall>k. \<not> streak_at n (fs @ map focus rs) k) \<or>
     (\<exists>m k. m < length rs \<and> focus (rs ! m) = Some k \<and> snd (run_steps pc_observe c rs) = [(Some k, int n)] \<and>
        streak_at n (fs @ map focus (take (Suc m) rs)) k \<and> (\<forall>j. \<not> streak_at n (fs @ map focus (take m rs)) j))"
  using assms(1)
proof (induction rs arbitrary: fs c)
  case Nil
  then show ?case by (simp add: watching_def Let_def)
next
  case (Cons r rs)
  obtain c' calls where o: "pc_observe c r = (c', calls)" by fastforce
  from observe_watching [OF Cons.prems assms(2), of r] consider
      (on) "calls = []" "watching n (fs @ [focus r]) c'"
    | (trip) k where "focus r = Some k" "streak_at n (fs @ [focus r]) k" "calls = [(Some k, int n)]"
        "pd_tripped (pc_kill_switch c')" "pc_already_tripped c'"
    unfolding o by auto
  then show ?case
  proof cases
    case on
    from Cons.IH [OF on(2)] show ?thesis
    proof (elim disjE exE conjE)
      fix m k assume "m < length rs" "focus (rs ! m) = Some k" "snd (run_steps pc_observe c' rs) = [(Some k, int n)]"
        "streak_at n ((fs @ [focus r]) @ map focus (take (Suc m) rs)) k"
        "\<forall>j. \<not> streak_at n ((fs @ [focus r]) @ map focus (take m rs)) j"
      then show ?thesis by (intro disjI2 exI [of _ "Suc m"] exI [of _ k]) (simp add: o on)
    qed (simp add: o on)
  next
    case trip
    then show ?thesis using Cons.prems observe_tripped [of c' rs]
      by (intro disjI2 exI [of _ 0] exI [of _ k]) (simp add: o watching_def Let_def)
  qed
qed

lemma new_coordinator:
  assumes "mk_drift_coordinator threshold = Inr c"
  shows "0 < threshold" "watching (nat threshold) [] c"
  using assms by (auto simp: ctor_simps res_bind_Inr_iff watching_def streak_at_def split: if_splits)

section \<open>Properties\<close>

text \<open>C12. Reconciliation sees every disagreement and nothing else: for two snapshots of the same account
  and a non-negative tolerance the engine returns a report with exactly one item per order,
  instrument or currency that either side knows, ordered by category and identifier; the report
  depends only on the last entry each side has for an identifier; and it has no drift, so that the
  startup gate enables trading, exactly when the orders are equal and every amount is present on both
  sides and equal up to the tolerance.\<close>

theorem reconciliation_sound_and_complete:
  assumes "mk_reconciliation_engine t = Inr e" and "rn_account_id l = rn_account_id r"
  shows "reconcile e l r None = Inr \<lparr>rp_account_id = rn_account_id l, rp_items = pointwise_items t l r\<rparr> \<and>
     distinct (map di_key (pointwise_items t l r)) \<and>
     (\<exists>d. startup_decision_for e l r = Inr d \<and> (sd_trading_enabled d \<longleftrightarrow> snapshots_agree t l r))"
proof -
  from assms(1) have t: "0 \<le> t" "e = \<lparr>ng_tolerance = t\<rparr>" by (auto simp: ctor_simps split: if_splits)
  then have "reconcile e l r None = Inr \<lparr>rp_account_id = rn_account_id l, rp_items = pointwise_items t l r\<rparr>"
    by (simp add: reconcile_def effective_tolerance_def reconcile_pointwise [OF assms(2)])
  moreover have "distinct (map di_key (pointwise_items t l r))"
    by (auto simp: pointwise_items_def items_of_def o_def distinct_map inj_on_def)
  ultimately show ?thesis
    by (simp add: startup_decision_for_def startup_reconciliation_gate_def has_drift_pointwise)
qed

definition sample_recon :: "(instrument_id \<times> decimal) list \<Rightarrow> reconciliation_snapshot" where
  "sample_recon ps = \<lparr>rn_account_id = ''A1'', rn_orders = [],
     rn_positions = map (\<lambda>(i, q). \<lparr>ps_instrument_id = i, ps_quantity = q\<rparr>) ps,
     rn_cash = [\<lparr>ch_currency = ''USD'', ch_balance = 100\<rparr>]\<rparr>"

theorem reconciliation_sound_and_complete_witness:
  "\<exists>d. startup_decision_for \<lparr>ng_tolerance = 0\<rparr> (sample_recon [(''ES'', 2)]) (sample_recon [(''ES'', 3)]) = Inr d \<and>
     \<not> sd_trading_enabled d"
proof -
  have e: "mk_reconciliation_engine 0 = Inr \<lparr>ng_tolerance = 0\<rparr>" by (simp add: ctor_simps)
  have "\<not> snapshots_agree 0 (sample_recon [(''ES'', 2)]) (sample_recon [(''ES'', 3)])"
  proof -
    have "\<not> rel_option (close_amounts 0) (positions_map (sample_recon [(''ES'', 2)]) ''ES'')
      (positions_map (sample_recon [(''ES'', 3)]) ''ES'')" by code_simp
    then show ?thesis unfolding snapshots_agree_def by blast
  qed
  with reconciliation_sound_and_complete [OF e, of "sample_recon [(''ES'', 2)]" "sample_recon [(''ES'', 3)]"]
  show ?thesis by (auto simp: sample_recon_def)
qed

text \<open>C13. The persistent-drift switch over a whole history of reports: the safety controller is called
  exactly when some threshold-many consecutive reports have the same smallest divergent key, it is
  called once however long the drift lasts, with that key, and at the first report that completes
  such a streak.\<close>

theorem drift_switch_trips_once:
  assumes "mk_drift_coordinator threshold = Inr c"
  shows "(let n = nat threshold; calls = snd (run_steps pc_observe c rs)
     in calls = [] \<and> (\<forall>k. \<not> streak_at n (map focus rs) k) \<or>
       (\<exists>m k. m < length rs \<and> focus (rs ! m) = Some k \<and> calls = [(Some k, threshold)] \<and>
          streak_at n (map focus (take (Suc m) rs)) k \<and> (\<forall>j. \<not> streak_at n (map focus (take m rs)) j)))"
  using coordinator_run [OF new_coordinator(2) [OF assms], of rs] new_coordinator(1) [OF assms] by simp

definition sample_report :: "string list \<Rightarrow> reconciliation_report" where
  "sample_report ks = \<lparr>rp_account_id = ''A1'', rp_items =
     map (\<lambda>k. \<lparr>di_kind = DIVERGENT, di_key = k, di_internal = Some (AmountValue 1), di_broker = Some (AmountValue 2)\<rparr>) ks\<rparr>"

theorem drift_switch_trips_once_witness:
  "\<exists>c. mk_drift_coordinator 3 = Inr c \<and>
     snd (run_steps pc_observe c (replicate 5 (sample_report [''cash:USD'']))) = [(Some ''cash:USD'', 3)]"
proof -
  obtain c where c: "mk_drift_coordinator 3 = Inr c" by (simp add: ctor_simps checked_def)
  let ?rs = "replicate 5 (sample_report [''cash:USD''])"
  have f: "focus (sample_report [''cash:USD'']) = Some ''cash:USD''" by code_simp
  have "streak_at (nat 3) (map focus ?rs) ''cash:USD''"
    unfolding streak_at_def by (rule exI [of _ "[]"], rule exI [of _ "replicate 2 (Some ''cash:USD'')"]) (simp add: f numeral_eq_Suc)
  with drift_switch_trips_once [OF c, of ?rs] have "snd (run_steps pc_observe c ?rs) = [(Some ''cash:USD'', 3)]"
    using f by (auto simp: Let_def nth_replicate simp del: replicate.simps)
  with c show ?thesis by blast
qed

lemma alternating_nth:
  assumes "i < 2 * m"
  shows "concat (replicate m [x, y]) ! i = (if even i then x else y)"
  using assms
proof (induction m arbitrary: i)
  case (Suc m)
  then show ?case by (cases i; cases "i - 1") auto
qed simp

lemma alternating_no_streak:
  assumes "x \<noteq> y" and "2 \<le> n"
  shows "\<not> streak_at n (concat (replicate m [x, y])) k"
proof
  let ?w = "concat (replicate m [x, y])"
  assume "streak_at n ?w k"
  then obtain pre post where e: "?w = pre @ replicate n (Some k) @ post" unfolding streak_at_def by blast
  have len: "length ?w = 2 * m" by (induction m) auto
  let ?i = "length pre"
  from arg_cong [OF e, of length] have "2 * m = ?i + n + length post" unfolding len by simp
  with assms(2) have b: "Suc ?i < 2 * m" by linarith
  from e assms(2) have "?w ! ?i = Some k" "?w ! Suc ?i = Some k" by (simp_all add: nth_append)
  with b assms(1) show False by (auto simp: alternating_nth split: if_splits)
qed

text \<open>A key can diverge forever without tripping the switch: with a threshold of at least two, if
  reports alternate between two whose smallest divergent keys differ, the safety controller is never
  called, although another key is divergent in every one of them.\<close>

theorem persistent_key_escapes_switch:
  assumes "mk_drift_coordinator threshold = Inr c" and "2 \<le> threshold" and "focus r1 \<noteq> focus r2"
    and "k \<in> set (divergent_keys r1)" "k \<in> set (divergent_keys r2)"
  shows "snd (run_steps pc_observe c (concat (replicate m [r1, r2]))) = [] \<and>
     (\<forall>r \<in> set (concat (replicate m [r1, r2])). k \<in> set (divergent_keys r))"
proof -
  have "map focus (concat (replicate m [r1, r2])) = concat (replicate m [focus r1, focus r2])" by (simp add: map_concat)
  moreover from assms have "\<not> streak_at (nat threshold) (concat (replicate m [focus r1, focus r2])) k'" for k'
    by (intro alternating_no_streak) auto
  moreover have "streak_at n (map focus (take j rs)) k' \<Longrightarrow> streak_at n (map focus rs) k'" for n j rs k'
    unfolding streak_at_def by (metis append.assoc append_take_drop_id map_append)
  ultimately have "snd (run_steps pc_observe c (concat (replicate m [r1, r2]))) = []"
    using coordinator_run [OF new_coordinator(2) [OF assms(1)], of "concat (replicate m [r1, r2])"] new_coordinator(1) [OF assms(1)]
    by (metis append_Nil zero_less_nat_eq)
  with assms(4,5) show ?thesis by auto
qed

theorem persistent_key_escapes_switch_witness:
  "\<exists>c. mk_drift_coordinator 3 = Inr c \<and> snd (run_steps pc_observe c
     (concat (replicate 50 [sample_report [''position:ES''], sample_report [''cash:USD'', ''position:ES'']]))) = []"
proof -
  obtain c where c: "mk_drift_coordinator 3 = Inr c" by (simp add: ctor_simps checked_def)
  have "focus (sample_report [''position:ES'']) \<noteq> focus (sample_report [''cash:USD'', ''position:ES''])"
    "''position:ES'' \<in> set (divergent_keys (sample_report [''position:ES'']))"
    "''position:ES'' \<in> set (divergent_keys (sample_report [''cash:USD'', ''position:ES'']))" by code_simp+
  from persistent_key_escapes_switch [OF c _ this, of 50] c show ?thesis by fastforce
qed

text \<open>An account that bought two contracts and sold them again: the book keeps the flat holding.\<close>

definition sample_round_trip :: account_snapshot where
  "sample_round_trip =
     (let book = snd (hb_apply_fill ''ES'' (-2) 110 50 None (snd (hb_apply_fill ''ES'' 2 100 50 None (hb_init [] AVERAGE))))
      in mk_account_snapshot [(''USD'', 100)] (Some (hb_snapshot book)) None (Some ''A1'') [])"

text \<open>A flat position stops the next start: every instrument the account has ever held is in its
  reconciliation snapshot, flat ones with quantity zero, so if the broker does not list the
  instrument the gate refuses to enable trading, whatever the tolerance and whatever the quantity.\<close>

theorem flat_position_blocks_startup:
  assumes "mk_reconciliation_engine t = Inr e"
    and "internal_snapshot (rn_account_id broker) om account = Inr internal"
    and "i \<in> set (dict_keys (as_holdings account))"
    and "i \<notin> set (map ps_instrument_id (rn_positions broker))"
  shows "\<exists>d. startup_decision_for e internal broker = Inr d \<and> \<not> sd_trading_enabled d \<and>
     sd_reason_code d = Some ''RECONCILIATION_DRIFT''"
proof -
  from assms(2) have internal: "rn_account_id internal = rn_account_id broker"
    "rn_positions internal = map (\<lambda>(i, h). \<lparr>ps_instrument_id = i, ps_quantity = h_quantity h\<rparr>) (as_holdings account)"
    by (auto simp: internal_snapshot_def res_bind_Inr_iff)
  then have "i \<in> dom (positions_map internal)"
    using assms(3) by (simp add: positions_map_def map_of_dict_of dom_map_of_conv_image_fst image_image case_prod_unfold)
  moreover have "i \<notin> dom (positions_map broker)"
    using assms(4) by (auto simp: positions_map_def map_of_dict_of dom_map_of_conv_image_fst)
  ultimately have "\<not> rel_option (close_amounts t) (positions_map internal i) (positions_map broker i)" by auto
  then have "\<not> snapshots_agree t internal broker" unfolding snapshots_agree_def by blast
  moreover from assms(1) have "0 \<le> t" "e = \<lparr>ng_tolerance = t\<rparr>" by (auto simp: ctor_simps split: if_splits)
  ultimately show ?thesis
    by (simp add: startup_decision_for_def reconcile_def effective_tolerance_def reconcile_pointwise [OF internal(1)]
        startup_reconciliation_gate_def has_drift_pointwise)
qed

theorem flat_position_blocks_startup_witness:
  "h_quantity (the (map_of (as_holdings sample_round_trip) ''ES'')) = 0 \<and>
   (\<exists>internal d. internal_snapshot ''A1'' (fst (om_snapshot om_init)) sample_round_trip = Inr internal \<and>
      startup_decision_for \<lparr>ng_tolerance = 1\<rparr> internal (sample_recon []) = Inr d \<and> \<not> sd_trading_enabled d)"
proof -
  have q: "h_quantity (the (map_of (as_holdings sample_round_trip) ''ES'')) = 0" by code_simp
  have e: "mk_reconciliation_engine 1 = Inr \<lparr>ng_tolerance = 1\<rparr>" by (simp add: ctor_simps)
  have k: "''ES'' \<in> set (dict_keys (as_holdings sample_round_trip))" by code_simp
  have c: "as_cash sample_round_trip = [(''USD'', 100)]"
    by (simp add: sample_round_trip_def mk_account_snapshot_def)
  have o: "ss_orders (fst (om_snapshot om_init)) = []" by (simp add: om_snapshot_def om_init_def case_prod_unfold Let_def)
  obtain internal where i: "internal_snapshot (rn_account_id (sample_recon [])) (fst (om_snapshot om_init)) sample_round_trip = Inr internal"
    unfolding internal_snapshot_def o c by (simp add: ctor_simps checked_def is_space_def)
  from flat_position_blocks_startup [OF e i k] q i show ?thesis by (simp add: sample_recon_def) blast
qed

end
