(* ===== verification/Future_Roll.thy ===== *)
theory Future_Roll
  imports Broker_Boundary Step_Systems
begin

text \<open>
  Continuous futures (\<open>registry/future_roll.py\<close>): the contract selectors and the registry that maps
  a continuous future and a time to the concrete contract in force and its execution prices.
  Dates are day numbers. The exchange-calendar callable \<open>session_offset\<close> is an argument of the
  first-notice selector.
\<close>

section \<open>Candidates and selectors\<close>

type_synonym day = int

record contract_candidate =
  cc_root_symbol :: string
  cc_symbol :: string
  cc_instrument_id :: instrument_id
  cc_as_of :: instant
  cc_close :: decimal
  cc_volume :: decimal
  cc_session_date :: "day option"

definition mk_contract_candidate :: "contract_candidate \<Rightarrow> contract_candidate res" where
  [ctor_simps]: "mk_contract_candidate c = checked
     [(blank (cc_root_symbol c), ValueError ''root_symbol must not be empty''),
      (blank (cc_symbol c), ValueError ''symbol must not be empty''),
      (cc_volume c < 0, ValueError ''volume must be non-negative'')] c"

text \<open>The month of the expiry timestamp is kept as a field of its own.\<close>

record roll_spec =
  rl_symbol :: string
  rl_instrument_id :: instrument_id
  rl_first_notice_day :: day
  rl_expiry :: instant
  rl_expiry_month :: int

definition mk_roll_spec :: "roll_spec \<Rightarrow> roll_spec res" where
  [ctor_simps]: "mk_roll_spec c = checked [(blank (rl_symbol c), ValueError ''symbol must not be empty'')] c"

text \<open>Python's \<open>max\<close> with a key: the first of the maximal elements.\<close>

fun max_by :: "('a \<Rightarrow> 'k::linorder) \<Rightarrow> 'a \<Rightarrow> 'a list \<Rightarrow> 'a" where
  "max_by key best [] = best"
| "max_by key best (x # xs) = max_by key (if key best < key x then x else best) xs"

definition volume_key :: "contract_candidate \<Rightarrow> decimal \<times> string \<times> string" where
  "volume_key c = (cc_volume c, cc_symbol c, cc_instrument_id c)"

definition select_highest_volume :: "contract_candidate list \<Rightarrow> contract_candidate res" where
  "select_highest_volume candidates =
     (case candidates of
        [] \<Rightarrow> Inl (ValueError ''candidates must not be empty'')
      | c # cs \<Rightarrow> Inr (max_by volume_key c cs))"

record first_notice_selector =
  fn_contracts :: "roll_spec list"
  fn_roll_sessions_before :: int
  fn_roll_sessions :: "(instrument_id \<times> instant, day) dict"

definition mk_first_notice_selector :: "roll_spec list \<Rightarrow> int list \<Rightarrow> int \<Rightarrow> first_notice_selector res" where
  "mk_first_notice_selector contracts active_months n =
     (if n \<le> 0 then Inl (ValueError ''roll_sessions_before_first_notice must be positive'')
      else let filtered = sort_key (\<lambda>c. (rl_expiry c, rl_symbol c))
             (filter (\<lambda>c. active_months = [] \<or> rl_expiry_month c \<in> set active_months) contracts)
           in if filtered = [] then Inl (ValueError ''at least one roll contract is required'')
              else Inr \<lparr>fn_contracts = filtered, fn_roll_sessions_before = n, fn_roll_sessions = []\<rparr>)"

definition roll_session_for ::
  "(day \<Rightarrow> int \<Rightarrow> day) \<Rightarrow> roll_spec \<Rightarrow> first_notice_selector \<Rightarrow> day \<times> first_notice_selector" where
  "roll_session_for session_offset c s =
     (let key = (rl_instrument_id c, rl_expiry c)
      in case map_of (fn_roll_sessions s) key of
           Some d \<Rightarrow> (d, s)
         | None \<Rightarrow>
             (let d = session_offset (rl_first_notice_day c) (- fn_roll_sessions_before s)
              in (d, s\<lparr>fn_roll_sessions := AList.update key d (fn_roll_sessions s)\<rparr>)))"

fun contract_loop ::
  "(day \<Rightarrow> int \<Rightarrow> day) \<Rightarrow> day \<Rightarrow> roll_spec list \<Rightarrow> first_notice_selector \<Rightarrow> roll_spec option \<times> first_notice_selector" where
  "contract_loop session_offset d [] s = (None, s)"
| "contract_loop session_offset d (c # cs) s =
     (case roll_session_for session_offset c s of (roll, s1) \<Rightarrow>
        if d < roll then (Some c, s1) else contract_loop session_offset d cs s1)"

definition contract_for_session ::
  "(day \<Rightarrow> int \<Rightarrow> day) \<Rightarrow> day \<Rightarrow> first_notice_selector \<Rightarrow> roll_spec \<times> first_notice_selector" where
  "contract_for_session session_offset d s =
     (case contract_loop session_offset d (fn_contracts s) s of
        (Some c, s1) \<Rightarrow> (c, s1)
      | (None, s1) \<Rightarrow> (last (fn_contracts s1), s1))"

definition select_first_notice ::
  "(day \<Rightarrow> int \<Rightarrow> day) \<Rightarrow> contract_candidate list \<Rightarrow> first_notice_selector \<Rightarrow>
   (first_notice_selector, contract_candidate) outcome" where
  "select_first_notice session_offset candidates s =
     (if candidates = [] then (Inl (ValueError ''candidates must not be empty''), s)
      else case remdups (map cc_session_date candidates) of
        [Some d] \<Rightarrow>
          (case contract_for_session session_offset d s of (target, s1) \<Rightarrow>
             case map_of (dict_of (map (\<lambda>c. (cc_instrument_id c, c)) candidates)) (rl_instrument_id target) of
               None \<Rightarrow> (Inl (LookupError (rl_instrument_id target)), s1)
             | Some c \<Rightarrow> (Inr c, s1))
      | _ \<Rightarrow> (Inl (ValueError ''first-notice roll selection requires one exchange session date''), s))"

section \<open>The roll registry\<close>

record roll_selection =
  sel_continuous :: instrument_id
  sel_root_symbol :: string
  sel_as_of :: instant
  sel_concrete :: instrument_id
  sel_source_symbol :: string
  sel_prices :: "(instrument_id, decimal) dict"

definition mk_roll_selection :: "roll_selection \<Rightarrow> roll_selection res" where
  [ctor_simps]: "mk_roll_selection s = checked
     [(blank (sel_root_symbol s), ValueError ''root_symbol must not be empty''),
      (blank (sel_source_symbol s), ValueError ''source_symbol must not be empty'')] s"

record roll_registry =
  rr_retain_history :: bool
  rr_continuous_by_root :: "(string, instrument_id) dict"
  rr_root_by_continuous :: "(instrument_id, string) dict"
  rr_contracts :: "(instrument_id, instrument_id list) dict"
  rr_selections :: "(instrument_id, roll_selection list) dict"
  rr_selection_times :: "(instrument_id, instant list) dict"
  rr_latest_prices :: "(instrument_id, (instrument_id, decimal) dict) dict"
  rr_exchange_by_root :: "(string, string) dict"
  rr_front_by_deferred :: "(instrument_id, instrument_id) dict"
  rr_offset_by_deferred :: "(instrument_id, nat) dict"

definition rr_init :: "bool \<Rightarrow> roll_registry" where
  "rr_init retain = \<lparr>rr_retain_history = retain, rr_continuous_by_root = [], rr_root_by_continuous = [],
     rr_contracts = [], rr_selections = [], rr_selection_times = [], rr_latest_prices = [],
     rr_exchange_by_root = [], rr_front_by_deferred = [], rr_offset_by_deferred = []\<rparr>"

definition max_deferred_offset :: nat where
  "max_deferred_offset = 3"

definition normalize_root :: "string \<Rightarrow> string res" where
  "normalize_root s = checked [(upper (strip s) = [], ValueError ''root_symbol must not be empty'')] (upper (strip s))"

definition front_id :: "string \<Rightarrow> string \<Rightarrow> instrument_id" where
  "front_id exchange rt = ''CONTINUOUS_FUTURE.'' @ exchange @ ''.'' @ rt"

definition deferred_id :: "string \<Rightarrow> string \<Rightarrow> nat \<Rightarrow> instrument_id" where
  "deferred_id exchange rt k = front_id exchange rt @ ''.M'' @ nat_str (k + 1)"

text \<open>\<open>tuple(dict.fromkeys(xs))\<close>: the first occurrence of each element, in order.\<close>

definition unique_in_order :: "'a list \<Rightarrow> 'a list" where
  "unique_in_order xs = rev (remdups (rev xs))"

fun register_deferred ::
  "string \<Rightarrow> string \<Rightarrow> instrument_id list \<Rightarrow> nat list \<Rightarrow> roll_registry \<Rightarrow> roll_registry" where
  "register_deferred exchange rt contracts [] r = r"
| "register_deferred exchange rt contracts (k # ks) r =
     (let i = deferred_id exchange rt k
      in register_deferred exchange rt contracts ks
           (r\<lparr>rr_root_by_continuous := AList.update i rt (rr_root_by_continuous r),
              rr_contracts := AList.update i contracts (rr_contracts r),
              rr_front_by_deferred := AList.update i (front_id exchange rt) (rr_front_by_deferred r),
              rr_offset_by_deferred := AList.update i k (rr_offset_by_deferred r)\<rparr>))"

definition register_root ::
  "string \<Rightarrow> string \<Rightarrow> instrument_id list \<Rightarrow> roll_registry \<Rightarrow> (roll_registry, instrument_id) outcome" where
  "register_root root_symbol exchange contracts r =
     (case normalize_root root_symbol of
        Inl e \<Rightarrow> (Inl e, r)
      | Inr rt \<Rightarrow>
         (if blank exchange then (Inl (ValueError ''exchange must not be empty''), r)
          else let us = unique_in_order contracts in
          if us = [] then (Inl (ValueError ''contracts must not be empty''), r)
          else let ex = upper (strip exchange); i = front_id ex rt;
                   r1 = r\<lparr>rr_exchange_by_root := AList.update rt ex (rr_exchange_by_root r),
                          rr_continuous_by_root := AList.update rt i (rr_continuous_by_root r),
                          rr_root_by_continuous := AList.update i rt (rr_root_by_continuous r),
                          rr_contracts := AList.update i us (rr_contracts r),
                          rr_selections := setdefault i [] (rr_selections r),
                          rr_selection_times := setdefault i [] (rr_selection_times r),
                          rr_latest_prices := setdefault i [] (rr_latest_prices r)\<rparr>
               in (Inr i, register_deferred ex rt us [1..<Suc (min (length us - 1) max_deferred_offset)] r1)))"

definition continuous_instrument_id :: "string \<Rightarrow> int \<Rightarrow> roll_registry \<Rightarrow> instrument_id res" where
  "continuous_instrument_id root_symbol k r =
     (if k < 0 then Inl (ValueError ''offset must be non-negative'')
      else res_bind (normalize_root root_symbol) (\<lambda>rt.
        case map_of (rr_continuous_by_root r) rt of
          None \<Rightarrow> Inl (KeyError root_symbol)
        | Some i \<Rightarrow>
           (if k = 0 then Inr i
            else case map_of (rr_contracts r) i of
              None \<Rightarrow> Inl (KeyError i)
            | Some contracts \<Rightarrow>
               (if k > int (min (length contracts - 1) max_deferred_offset)
                then Inl (ValueError ''offset exceeds available deferred contracts'')
                else case map_of (rr_exchange_by_root r) rt of
                  None \<Rightarrow> Inl (KeyError rt)
                | Some ex \<Rightarrow> Inr (deferred_id ex rt (nat k))))))"

text \<open>\<open>d[k]\<close> on a dictionary keyed by instrument ids.\<close>

definition by_instrument :: "(instrument_id, 'v) dict \<Rightarrow> instrument_id \<Rightarrow> 'v res" where
  "by_instrument d i = (case map_of d i of None \<Rightarrow> Inl (KeyError i) | Some v \<Rightarrow> Inr v)"

definition update_all :: "('k, 'v) dict \<Rightarrow> ('k, 'v) dict \<Rightarrow> ('k, 'v) dict" where
  "update_all new d = foldl (\<lambda>d p. AList.update (fst p) (snd p) d) d new"

definition record_selection :: "roll_selection \<Rightarrow> roll_registry \<Rightarrow> (roll_registry, unit) outcome" where
  "record_selection sel r =
     (let i = sel_continuous sel in
      if map_of (rr_front_by_deferred r) i \<noteq> None
      then (Inl (ValueError ''selections must be recorded against the front continuous future''), r)
      else if map_of (rr_root_by_continuous r) i = None then (Inl (KeyError i), r)
      else case (by_instrument (rr_selections r) i, by_instrument (rr_selection_times r) i) of
        (Inr sels, Inr tms) \<Rightarrow>
          (if tms \<noteq> [] \<and> sel_as_of sel < last tms
           then (Inl (ValueError ''future roll selections must be recorded in chronological order''), r)
           else case by_instrument (rr_latest_prices r) i of
             Inl e \<Rightarrow> (Inl e, r)
           | Inr latest \<Rightarrow>
              (let latest' = update_all (sel_prices sel) latest; sel' = sel\<lparr>sel_prices := latest'\<rparr>;
                   sels' = (if rr_retain_history r then sels @ [sel'] else [sel']);
                   tms' = (if rr_retain_history r then tms @ [sel_as_of sel'] else [sel_as_of sel'])
               in (Inr (), r\<lparr>rr_latest_prices := AList.update i latest' (rr_latest_prices r),
                             rr_selections := AList.update i sels' (rr_selections r),
                             rr_selection_times := AList.update i tms' (rr_selection_times r)\<rparr>)))
      | (Inl e, _) \<Rightarrow> (Inl e, r)
      | (_, Inl e) \<Rightarrow> (Inl e, r))"

definition is_continuous :: "instrument_id \<Rightarrow> roll_registry \<Rightarrow> bool" where
  "is_continuous i r \<longleftrightarrow> map_of (rr_root_by_continuous r) i \<noteq> None"

text \<open>\<open>bisect.bisect_right\<close> of the standard library.\<close>

function bisect_loop :: "'a::linorder list \<Rightarrow> 'a \<Rightarrow> nat \<Rightarrow> nat \<Rightarrow> nat" where
  "bisect_loop xs x lo hi =
     (if lo < hi
      then let mid = (lo + hi) div 2
           in if x < xs ! mid then bisect_loop xs x lo mid else bisect_loop xs x (mid + 1) hi
      else lo)"
  by pat_completeness auto
termination
  by (relation "measure (\<lambda>(xs, x, lo, hi). hi - lo)") auto

declare bisect_loop.simps [simp del]

definition bisect_right :: "'a::linorder list \<Rightarrow> 'a \<Rightarrow> nat" where
  "bisect_right xs x = bisect_loop xs x 0 (length xs)"

definition selection_in_force :: "instrument_id \<Rightarrow> instant \<Rightarrow> roll_registry \<Rightarrow> roll_selection res" where
  "selection_in_force i as_of r =
     res_bind (by_instrument (rr_selections r) i) (\<lambda>sels.
       res_bind (by_instrument (rr_selection_times r) i) (\<lambda>tms.
         let k = bisect_right tms as_of
         in if k = 0 then Inl (KeyError i)
            else if k \<le> length sels then Inr (sels ! (k - 1)) else Inl IndexError))"

definition front_continuous_id :: "instrument_id \<Rightarrow> roll_registry \<Rightarrow> instrument_id" where
  "front_continuous_id i r = dict_lookup (rr_front_by_deferred r) i i"

definition selection_at :: "instrument_id \<Rightarrow> instant \<Rightarrow> roll_registry \<Rightarrow> roll_selection res" where
  "selection_at i as_of r = selection_in_force (front_continuous_id i r) as_of r"

datatype contract_reference = ByRoot string | ById instrument_id

fun index_of :: "'a \<Rightarrow> 'a list \<Rightarrow> nat option" where
  "index_of x [] = None"
| "index_of x (y # ys) = (if x = y then Some 0 else map_option Suc (index_of x ys))"

definition resolve_contract :: "contract_reference \<Rightarrow> instant \<Rightarrow> int \<Rightarrow> roll_registry \<Rightarrow> instrument_id res" where
  "resolve_contract ref as_of k r =
     (if k < 0 then Inl (ValueError ''offset must be non-negative'')
      else res_bind (case ref of ById i \<Rightarrow> Inr i | ByRoot rt \<Rightarrow> continuous_instrument_id rt 0 r) (\<lambda>i.
        let front = front_continuous_id i r;
            eff = nat k + dict_lookup (rr_offset_by_deferred r) i 0
        in res_bind (selection_in_force front as_of r) (\<lambda>sel.
          if eff = 0 then Inr (sel_concrete sel)
          else res_bind (by_instrument (rr_contracts r) front) (\<lambda>contracts.
            case index_of (sel_concrete sel) contracts of
              None \<Rightarrow> Inl (ValueError ''front contract not found in registered contracts'')
            | Some fi \<Rightarrow>
               (if fi + eff \<ge> length contracts
                then Inl (ValueError ''effective offset exceeds available contracts'')
                else Inr (contracts ! (fi + eff)))))))"

definition related_contracts :: "instrument_id \<Rightarrow> roll_registry \<Rightarrow> instrument_id list res" where
  "related_contracts i r = by_instrument (rr_contracts r) i"

definition selection_history :: "contract_reference option \<Rightarrow> roll_registry \<Rightarrow> roll_selection list res" where
  "selection_history ref r =
     (case ref of
        None \<Rightarrow> Inr (concat (map snd (rr_selections r)))
      | Some (ById i) \<Rightarrow> by_instrument (rr_selections r) i
      | Some (ByRoot rt) \<Rightarrow> res_bind (continuous_instrument_id rt 0 r) (by_instrument (rr_selections r)))"

definition execution_price :: "instrument_id \<Rightarrow> instrument_id \<Rightarrow> instant \<Rightarrow> roll_registry \<Rightarrow> decimal res" where
  "execution_price i concrete as_of r =
     res_bind (selection_in_force (front_continuous_id i r) as_of r) (\<lambda>sel.
       case map_of (sel_prices sel) concrete of
         None \<Rightarrow> Inl (MissingExecutionPriceError concrete)
       | Some p \<Rightarrow> Inr p)"

section \<open>Binary search\<close>

text \<open>The loop keeps everything left of \<open>lo\<close> at most \<open>x\<close> and everything from \<open>hi\<close> on above \<open>x\<close>.\<close>

lemma bisect_loop_bounds:
  assumes "sorted xs" "lo \<le> hi" "hi \<le> length xs"
    and "\<And>i. i < lo \<Longrightarrow> xs ! i \<le> x" and "\<And>i. hi \<le> i \<Longrightarrow> i < length xs \<Longrightarrow> x < xs ! i"
  shows "bisect_loop xs x lo hi \<le> length xs \<and>
    (\<forall>i < bisect_loop xs x lo hi. xs ! i \<le> x) \<and>
    (\<forall>i. bisect_loop xs x lo hi \<le> i \<longrightarrow> i < length xs \<longrightarrow> x < xs ! i)"
  using assms
proof (induction xs x lo hi rule: bisect_loop.induct)
  case (1 xs x lo hi)
  let ?mid = "(lo + hi) div 2"
  show ?case
  proof (cases "lo < hi")
    case False
    with "1.prems" show ?thesis using bisect_loop.simps [of xs x lo hi] by auto
  next
    case True
    then have mid: "lo \<le> ?mid" "?mid < hi" by auto
    show ?thesis
    proof (cases "x < xs ! ?mid")
      case less: True
      have "x < xs ! i" if "?mid \<le> i" "i < length xs" for i
        using less sorted_nth_mono [OF "1.prems"(1) that] by (rule less_le_trans)
      with "1.IH"(1) [OF True refl less] "1.prems" mid show ?thesis
        using bisect_loop.simps [of xs x lo hi] True less by simp
    next
      case more: False
      have "xs ! i \<le> x" if "i < ?mid + 1" for i
        using more sorted_nth_mono [OF "1.prems"(1), of i ?mid] that mid "1.prems"(3) by fastforce
      with "1.IH"(2) [OF True refl more] "1.prems" mid show ?thesis
        using bisect_loop.simps [of xs x lo hi] True more by simp
    qed
  qed
qed

lemma bisect_right_takeWhile:
  assumes "sorted xs" shows "bisect_right xs x = length (takeWhile (\<lambda>y. y \<le> x) xs)"
proof -
  let ?k = "bisect_right xs x"
  have b: "?k \<le> length xs" "\<And>i. i < ?k \<Longrightarrow> xs ! i \<le> x" "\<And>i. ?k \<le> i \<Longrightarrow> i < length xs \<Longrightarrow> x < xs ! i"
    using bisect_loop_bounds [OF assms, of 0 "length xs" x] by (auto simp: bisect_right_def)
  have "takeWhile (\<lambda>y. y \<le> x) xs = take ?k xs"
    by (rule takeWhile_eq_take_P_nth) (use b in \<open>auto simp: not_le\<close>)
  with b(1) show ?thesis by simp
qed

lemma sorted_takeWhile_filter: "sorted (map f xs) \<Longrightarrow> takeWhile (\<lambda>y. f y \<le> x) xs = filter (\<lambda>y. f y \<le> (x::'b::linorder)) xs"
  by (induction xs) (auto intro!: filter_False [symmetric] dest: order_trans)

text \<open>The element \<open>bisect_right\<close> points at is the last one at or before \<open>x\<close>.\<close>

lemma bisect_last:
  assumes "sorted (map f ys)"
  shows "bisect_right (map f ys) x \<le> length ys"
    "bisect_right (map f ys) x = 0 \<longleftrightarrow> filter (\<lambda>y. f y \<le> x) ys = []"
    "bisect_right (map f ys) x \<noteq> 0 \<Longrightarrow> ys ! (bisect_right (map f ys) x - 1) = last (filter (\<lambda>y. f y \<le> x) ys)"
proof -
  let ?t = "takeWhile (\<lambda>y. f y \<le> x) ys"
  have k: "bisect_right (map f ys) x = length ?t"
    using bisect_right_takeWhile [OF assms, of x] by (simp add: takeWhile_map comp_def)
  show "bisect_right (map f ys) x \<le> length ys" unfolding k by (rule length_takeWhile_le)
  show "bisect_right (map f ys) x = 0 \<longleftrightarrow> filter (\<lambda>y. f y \<le> x) ys = []"
    unfolding k using sorted_takeWhile_filter [OF assms, of x] by simp
  assume "bisect_right (map f ys) x \<noteq> 0"
  then have ne: "?t \<noteq> []" using k by auto
  then have "last ?t = ?t ! (length ?t - 1)" by (rule last_conv_nth)
  also have "\<dots> = ys ! (length ?t - 1)" using ne by (intro takeWhile_nth) simp
  finally show "ys ! (bisect_right (map f ys) x - 1) = last (filter (\<lambda>y. f y \<le> x) ys)"
    unfolding k using sorted_takeWhile_filter [OF assms, of x] by simp
qed

section \<open>The registry invariant\<close>

datatype roll_op = RegisterRoot string string "instrument_id list" | RecordSelection roll_selection

fun roll_step :: "roll_registry \<Rightarrow> roll_op \<Rightarrow> roll_registry \<times> unit list" where
  "roll_step r (RegisterRoot rt ex cs) = (snd (register_root rt ex cs r), [])"
| "roll_step r (RecordSelection sel) = (snd (record_selection sel r), [])"

text \<open>
  The times are those of the selections and ascending, every selection is filed under its own
  continuous future, and every front future has its three histories.
\<close>

definition roll_inv :: "roll_registry \<Rightarrow> bool" where
  "roll_inv r \<longleftrightarrow>
     (\<forall>i. map_of (rr_selection_times r) i = map_option (map sel_as_of) (map_of (rr_selections r) i)) \<and>
     (\<forall>i sels. map_of (rr_selections r) i = Some sels \<longrightarrow>
        sorted (map sel_as_of sels) \<and> list_all (\<lambda>s. sel_continuous s = i) sels) \<and>
     (\<forall>i. map_of (rr_root_by_continuous r) i \<noteq> None \<longrightarrow> map_of (rr_front_by_deferred r) i = None \<longrightarrow>
        map_of (rr_selections r) i \<noteq> None \<and> map_of (rr_latest_prices r) i \<noteq> None)"

lemma map_of_setdefault: "map_of (setdefault k v d) = (if map_of d k = None then (map_of d)(k \<mapsto> v) else map_of d)"
  by (auto simp: setdefault_def update_conv' split: option.splits)

lemma register_deferred_fields [simp]:
  "rr_selections (register_deferred ex rt cs ks r) = rr_selections r"
  "rr_selection_times (register_deferred ex rt cs ks r) = rr_selection_times r"
  "rr_latest_prices (register_deferred ex rt cs ks r) = rr_latest_prices r"
  "rr_retain_history (register_deferred ex rt cs ks r) = rr_retain_history r"
  by (induction ks arbitrary: r) (simp_all add: Let_def)

lemma register_deferred_inv: "roll_inv r \<Longrightarrow> roll_inv (register_deferred ex rt cs ks r)"
proof (induction ks arbitrary: r)
  case (Cons k ks)
  let ?r = "r\<lparr>rr_root_by_continuous := AList.update (deferred_id ex rt k) rt (rr_root_by_continuous r),
              rr_contracts := AList.update (deferred_id ex rt k) cs (rr_contracts r),
              rr_front_by_deferred := AList.update (deferred_id ex rt k) (front_id ex rt) (rr_front_by_deferred r),
              rr_offset_by_deferred := AList.update (deferred_id ex rt k) k (rr_offset_by_deferred r)\<rparr>"
  from Cons.prems have "roll_inv ?r" by (auto simp: roll_inv_def update_conv' split: if_splits)
  with Cons.IH show ?case by (simp add: Let_def)
qed simp

lemma register_root_inv: "roll_inv r \<Longrightarrow> roll_inv (snd (register_root rt ex cs r))"
  by (auto simp: register_root_def Let_def split: sum.splits intro!: register_deferred_inv)
     (auto simp: roll_inv_def update_conv' map_of_setdefault split: if_splits)

lemma sorted_snoc: "sorted xs \<Longrightarrow> xs = [] \<or> last xs \<le> x \<Longrightarrow> sorted (xs @ [x])"
  by (cases xs rule: rev_cases) (auto simp: sorted_append intro: order_trans)

lemma record_selection_inv: "roll_inv r \<Longrightarrow> roll_inv (snd (record_selection sel r))"
proof (cases "map_of (rr_selections r) (sel_continuous sel)")
  case (Some sels)
  assume inv: "roll_inv r"
  then have s: "map_of (rr_selection_times r) (sel_continuous sel) = Some (map sel_as_of sels)"
    "sorted (map sel_as_of sels)" "list_all (\<lambda>s. sel_continuous s = sel_continuous sel) sels"
    using Some by (auto simp: roll_inv_def)
  have "sorted (map sel_as_of sels @ [sel_as_of sel])"
    if "sels \<noteq> [] \<longrightarrow> \<not> sel_as_of sel < last (map sel_as_of sels)"
    using s(2) that by (intro sorted_snoc) (cases "sels = []"; simp add: not_less)+
  with inv s Some show ?thesis
    by (cases "sels = []") (auto simp: record_selection_def by_instrument_def Let_def roll_inv_def update_conv' last_map
        split: sum.splits option.splits)
qed (auto simp: record_selection_def by_instrument_def Let_def split: sum.splits option.splits)

interpretation roll_steps: kept_by_steps roll_step roll_inv "\<lambda>_. True"
proof
  show "roll_inv (fst (roll_step r op))" if "roll_inv r" for r op
    using that by (cases op) (auto simp: register_root_inv record_selection_inv)
qed

lemma roll_init_inv: "roll_inv (rr_init retain)"
  by (simp add: roll_inv_def rr_init_def)

lemma roll_run_inv: "roll_inv (fst (run_steps roll_step (rr_init retain) ops))"
  using roll_steps.run_keeps [OF roll_init_inv] by (simp add: list_all_iff)

lemma roll_step_retain [simp]: "rr_retain_history (fst (roll_step r op)) = rr_retain_history r"
  by (cases op) (auto simp: register_root_def record_selection_def Let_def split: sum.splits)

lemma roll_run_retain: "rr_retain_history (fst (run_steps roll_step r ops)) = rr_retain_history r"
  by (induction ops arbitrary: r) auto

text \<open>The selection in force, by a linear scan.\<close>

definition latest_selection :: "instrument_id \<Rightarrow> instant \<Rightarrow> roll_registry \<Rightarrow> roll_selection option" where
  "latest_selection i t r =
     (case filter (\<lambda>s. sel_as_of s \<le> t) (dict_lookup (rr_selections r) i []) of
        [] \<Rightarrow> None | ss \<Rightarrow> Some (last ss))"

lemma selection_in_force_latest:
  assumes "roll_inv r"
  shows "selection_in_force i t r =
    (case latest_selection i t r of None \<Rightarrow> Inl (KeyError i) | Some s \<Rightarrow> Inr s)"
proof (cases "map_of (rr_selections r) i")
  case None
  then show ?thesis by (simp add: selection_in_force_def by_instrument_def latest_selection_def dict_lookup_def)
next
  case (Some sels)
  with assms have s: "map_of (rr_selection_times r) i = Some (map sel_as_of sels)" "sorted (map sel_as_of sels)"
    by (auto simp: roll_inv_def)
  note b = bisect_last [OF s(2), of t]
  show ?thesis
  proof (cases "filter (\<lambda>s. sel_as_of s \<le> t) sels")
    case Nil
    with Some s(1) b(2) show ?thesis
      by (simp add: selection_in_force_def by_instrument_def latest_selection_def dict_lookup_def)
  next
    case (Cons y ys)
    with b(2) have "bisect_right (map sel_as_of sels) t \<noteq> 0" by simp
    with Some s(1) b(1) b(3) Cons show ?thesis
      by (simp add: selection_in_force_def by_instrument_def latest_selection_def dict_lookup_def)
  qed
qed

lemma record_selection_past:
  assumes "record_selection sel r = (Inr (), r')" and "rr_retain_history r" and "t < sel_as_of sel"
  shows "latest_selection i t r' = latest_selection i t r"
  using assms
  by (auto simp: record_selection_def by_instrument_def Let_def latest_selection_def dict_lookup_def update_conv'
      split: if_splits sum.splits option.splits)

section \<open>The first-notice schedule\<close>

text \<open>The memo holds what the calendar says, for contracts whose key determines their notice day.\<close>

definition memo_ok :: "(day \<Rightarrow> int \<Rightarrow> day) \<Rightarrow> first_notice_selector \<Rightarrow> bool" where
  "memo_ok off s \<longleftrightarrow>
     (\<forall>c \<in> set (fn_contracts s). \<forall>d. map_of (fn_roll_sessions s) (rl_instrument_id c, rl_expiry c) = Some d \<longrightarrow>
        d = off (rl_first_notice_day c) (- fn_roll_sessions_before s)) \<and>
     (\<forall>c \<in> set (fn_contracts s). \<forall>c' \<in> set (fn_contracts s).
        rl_instrument_id c = rl_instrument_id c' \<longrightarrow> rl_expiry c = rl_expiry c' \<longrightarrow>
        rl_first_notice_day c = rl_first_notice_day c')"

lemma roll_session_for_memo:
  assumes "memo_ok off s" and "c \<in> set (fn_contracts s)" and "roll_session_for off c s = (d, s')"
  shows "d = off (rl_first_notice_day c) (- fn_roll_sessions_before s) \<and> memo_ok off s' \<and>
    fn_contracts s' = fn_contracts s \<and> fn_roll_sessions_before s' = fn_roll_sessions_before s"
proof (cases "map_of (fn_roll_sessions s) (rl_instrument_id c, rl_expiry c)")
  case None
  with assms(3) have d: "d = off (rl_first_notice_day c) (- fn_roll_sessions_before s)"
    and s': "s' = s\<lparr>fn_roll_sessions := AList.update (rl_instrument_id c, rl_expiry c) d (fn_roll_sessions s)\<rparr>"
    by (auto simp: roll_session_for_def Let_def)
  have fn: "rl_first_notice_day c' = rl_first_notice_day c"
    if "c' \<in> set (fn_contracts s)" "rl_instrument_id c' = rl_instrument_id c" "rl_expiry c' = rl_expiry c" for c'
    using assms(1,2) that unfolding memo_ok_def by blast
  have "x = off (rl_first_notice_day c') (- fn_roll_sessions_before s)"
    if "c' \<in> set (fn_contracts s)" "map_of (fn_roll_sessions s') (rl_instrument_id c', rl_expiry c') = Some x" for c' x
  proof (cases "(rl_instrument_id c', rl_expiry c') = (rl_instrument_id c, rl_expiry c)")
    case True
    with that fn [OF that(1)] d show ?thesis by (simp add: s' update_conv')
  next
    case False
    with that have "map_of (fn_roll_sessions s) (rl_instrument_id c', rl_expiry c') = Some x"
      by (auto simp: s' update_conv')
    with assms(1) that(1) show ?thesis unfolding memo_ok_def by blast
  qed
  note rolled = this
  have "fn_contracts s' = fn_contracts s" "fn_roll_sessions_before s' = fn_roll_sessions_before s" by (simp_all add: s')
  then have "memo_ok off s'" using assms(1) rolled unfolding memo_ok_def by metis
  with d s' show ?thesis by simp
next
  case (Some d')
  with assms(3) have "d = d'" "s' = s" by (simp_all add: roll_session_for_def)
  moreover have "d' = off (rl_first_notice_day c) (- fn_roll_sessions_before s)"
    using assms(1,2) Some unfolding memo_ok_def by blast
  ultimately show ?thesis using assms(1) by simp
qed

lemma contract_loop_first:
  assumes "memo_ok off s" and "set cs \<subseteq> set (fn_contracts s)" and "contract_loop off d cs s = (r, s')"
  shows "r = find (\<lambda>c. d < off (rl_first_notice_day c) (- fn_roll_sessions_before s)) cs \<and>
    memo_ok off s' \<and> fn_contracts s' = fn_contracts s \<and> fn_roll_sessions_before s' = fn_roll_sessions_before s"
  using assms
proof (induction cs arbitrary: s)
  case (Cons c cs)
  obtain roll s1 where rs: "roll_session_for off c s = (roll, s1)" by (cases "roll_session_for off c s")
  with roll_session_for_memo [OF Cons.prems(1) _ rs] Cons.prems have
    m: "roll = off (rl_first_notice_day c) (- fn_roll_sessions_before s)" "memo_ok off s1"
      "fn_contracts s1 = fn_contracts s" "fn_roll_sessions_before s1 = fn_roll_sessions_before s" by auto
  with Cons.IH [OF m(2)] Cons.prems rs show ?case by (auto split: if_splits)
qed simp

lemma find_mem: "find P xs = Some x \<Longrightarrow> x \<in> set xs"
  by (auto simp: find_Some_iff)

lemma max_by_max: "list_all (\<lambda>y. key y \<le> key (max_by key best xs)) (best # xs)"
proof (induction xs arbitrary: best)
  case (Cons x xs)
  let ?b = "if key best < key x then x else best"
  have "key best \<le> key ?b" "key x \<le> key ?b" by auto
  moreover have "key ?b \<le> key (max_by key ?b xs)" "list_all (\<lambda>y. key y \<le> key (max_by key ?b xs)) xs"
    using Cons.IH [of ?b] by simp_all
  ultimately show ?case by (metis list.pred_inject(2) max_by.simps(2) order_trans)
qed simp

lemma max_by_mem: "max_by key best xs \<in> set (best # xs)"
proof (induction xs arbitrary: best)
  case (Cons x xs)
  show ?case using Cons.IH [of x] Cons.IH [of best] by auto
qed simp

section \<open>Sample registry\<close>

definition sample_selection :: "instant \<Rightarrow> string \<Rightarrow> roll_selection" where
  "sample_selection t c = \<lparr>sel_continuous = ''CONTINUOUS_FUTURE.CME.ES'', sel_root_symbol = ''ES'', sel_as_of = t,
     sel_concrete = c, sel_source_symbol = c, sel_prices = [(c, 100)]\<rparr>"

definition sample_ops :: "roll_op list" where
  "sample_ops = [RegisterRoot ''es'' ''cme'' [''ESH'', ''ESM'', ''ESU''],
     RecordSelection (sample_selection 10 ''ESH''), RecordSelection (sample_selection 20 ''ESM'')]"

definition sample_roll :: roll_registry where
  "sample_roll = fst (run_steps roll_step (rr_init True) sample_ops)"

section \<open>Properties\<close>

text \<open>Roll selection is point in time: for a registry built by any sequence of registrations and
  recordings, the binary search returns the last selection recorded at or before the given time, as
  a linear scan of the history would, and raises when there is none.\<close>

theorem selection_is_latest:
  "selection_in_force i t (fst (run_steps roll_step (rr_init retain) ops)) =
     (case filter (\<lambda>s. sel_as_of s \<le> t)
        (dict_lookup (rr_selections (fst (run_steps roll_step (rr_init retain) ops))) i []) of
      [] \<Rightarrow> Inl (KeyError i) | s # ss \<Rightarrow> Inr (last (s # ss)))"
  using selection_in_force_latest [OF roll_run_inv, of i t retain ops]
  by (simp add: latest_selection_def split: list.splits)

text \<open>C18. No look-ahead: recording a selection never changes what an earlier time resolves to, neither
  the contract nor any execution price, while the history is retained.\<close>

theorem roll_no_lookahead:
  assumes "r = fst (run_steps roll_step (rr_init True) ops)" and "record_selection sel r = (Inr (), r')"
    and "t < sel_as_of sel"
  shows "selection_in_force i t r' = selection_in_force i t r \<and>
     resolve_contract (ById i) t k r' = resolve_contract (ById i) t k r \<and>
     execution_price i c t r' = execution_price i c t r"
proof -
  have inv: "roll_inv r" unfolding assms(1) by (rule roll_run_inv)
  with record_selection_inv [OF this, of sel] assms(2) have inv': "roll_inv r'" by simp
  have sel: "selection_in_force j t r' = selection_in_force j t r" for j
    using selection_in_force_latest [OF inv] selection_in_force_latest [OF inv']
      record_selection_past [OF assms(2) _ assms(3)] roll_run_retain [of "rr_init True" ops] assms(1)
    by (simp add: rr_init_def)
  have same: "rr_front_by_deferred r' = rr_front_by_deferred r" "rr_offset_by_deferred r' = rr_offset_by_deferred r"
    "rr_contracts r' = rr_contracts r"
    using assms(2) by (auto simp: record_selection_def Let_def split: if_splits sum.splits)
  show ?thesis
    by (simp only: resolve_contract_def execution_price_def front_continuous_id_def Let_def sel same
        contract_reference.case)
qed

theorem roll_no_lookahead_witness:
  "resolve_contract (ById ''CONTINUOUS_FUTURE.CME.ES'') 15 0
     (snd (record_selection (sample_selection 30 ''ESU'') sample_roll)) =
   resolve_contract (ById ''CONTINUOUS_FUTURE.CME.ES'') 15 0 sample_roll"
proof -
  have "fst (record_selection (sample_selection 30 ''ESU'') sample_roll) = Inr ()" "(15 :: int) < sel_as_of (sample_selection 30 ''ESU'')" by code_simp+
  then show ?thesis using roll_no_lookahead [OF sample_roll_def, of "sample_selection 30 ''ESU''"]
    by (metis prod.collapse)
qed

text \<open>The first-notice schedule: the selector returns the candidate of the first contract, in order
  of expiry, whose roll session (the calendar session a fixed number of sessions before first notice)
  is still ahead; once every contract has rolled it keeps returning the last one.\<close>

theorem first_notice_schedule:
  assumes "mk_first_notice_selector contracts months n = Inr s" and "memo_ok off s"
    and "select_first_notice off cands s = (Inr c, s')" and "cc_session_date c = Some d"
  shows "\<exists>target \<in> set (fn_contracts s). cc_instrument_id c = rl_instrument_id target \<and> c \<in> set cands \<and>
     sorted (map (\<lambda>c. (rl_expiry c, rl_symbol c)) (fn_contracts s)) \<and>
     (case find (\<lambda>c. d < off (rl_first_notice_day c) (- n)) (fn_contracts s) of
        Some c' \<Rightarrow> target = c' | None \<Rightarrow> target = last (fn_contracts s))"
proof -
  from assms(1) have s: "fn_contracts s \<noteq> []" "sorted (map (\<lambda>c. (rl_expiry c, rl_symbol c)) (fn_contracts s))"
    "fn_roll_sessions_before s = n"
    by (auto simp: mk_first_notice_selector_def Let_def split: if_splits)
  from assms(3) obtain d' target s1 where d': "remdups (map cc_session_date cands) = [Some d']"
    and t: "contract_for_session off d' s = (target, s1)"
    and c: "map_of (dict_of (map (\<lambda>c. (cc_instrument_id c, c)) cands)) (rl_instrument_id target) = Some c"
    by (auto simp: select_first_notice_def split: if_splits list.splits option.splits prod.splits)
  from c have mem: "c \<in> set cands" "cc_instrument_id c = rl_instrument_id target"
    by (auto simp: map_of_dict_of rev_map dest!: map_of_SomeD)
  from d' mem(1) have "cc_session_date c = Some d'"
    by (metis (no_types, lifting) image_eqI list.set_map set_ConsD set_remdups empty_iff list.set(1))
  with assms(4) have "d' = d" by simp
  obtain r s2 where loop: "contract_loop off d (fn_contracts s) s = (r, s2)" by (cases "contract_loop off d (fn_contracts s) s")
  from contract_loop_first [OF assms(2) subset_refl loop] have r:
    "r = find (\<lambda>c. d < off (rl_first_notice_day c) (- n)) (fn_contracts s)" "fn_contracts s2 = fn_contracts s"
    using s(3) by auto
  have "(case find (\<lambda>c. d < off (rl_first_notice_day c) (- n)) (fn_contracts s) of
      Some c' \<Rightarrow> target = c' | None \<Rightarrow> target = last (fn_contracts s)) \<and> target \<in> set (fn_contracts s)"
    using t loop r(2) s(1) find_mem [of "\<lambda>c. d < off (rl_first_notice_day c) (- n)" "fn_contracts s"] r(1)
    unfolding \<open>d' = d\<close> contract_for_session_def
    by (cases "find (\<lambda>c. d < off (rl_first_notice_day c) (- n)) (fn_contracts s)") auto
  with mem s(2) show ?thesis by blast
qed

theorem first_notice_schedule_witness:
  "let mk = (\<lambda>n d e. \<lparr>rl_symbol = n, rl_instrument_id = n, rl_first_notice_day = d, rl_expiry = e, rl_expiry_month = 3\<rparr>);
       off = (\<lambda>d k. d + k);
       cand = (\<lambda>n. \<lparr>cc_root_symbol = ''ES'', cc_symbol = n, cc_instrument_id = n, cc_as_of = 1, cc_close = 5,
         cc_volume = 1, cc_session_date = Some 8\<rparr>)
   in \<exists>s c s'. mk_first_notice_selector [mk ''B'' 20 2000, mk ''A'' 10 1000] [] 3 = Inr s \<and>
        select_first_notice off [cand ''A'', cand ''B''] s = (Inr c, s') \<and> cc_instrument_id c = ''B''"
proof -
  define mk where "mk = (\<lambda>n d e. \<lparr>rl_symbol = n, rl_instrument_id = n, rl_first_notice_day = d, rl_expiry = e, rl_expiry_month = 3\<rparr>)"
  define off where "off = (\<lambda>d k :: int. d + k)"
  define cand where "cand = (\<lambda>n. \<lparr>cc_root_symbol = ''ES'', cc_symbol = n, cc_instrument_id = n, cc_as_of = 1, cc_close = 5,
         cc_volume = 1, cc_session_date = Some 8\<rparr>)"
  define s where "s = \<lparr>fn_contracts = [mk ''A'' 10 1000, mk ''B'' 20 2000], fn_roll_sessions_before = 3, fn_roll_sessions = []\<rparr>"
  have 1: "mk_first_notice_selector [mk ''B'' 20 2000, mk ''A'' 10 1000] [] 3 = Inr s"
    by (simp add: mk_first_notice_selector_def s_def mk_def)
  have 2: "memo_ok off s" by (auto simp: memo_ok_def s_def mk_def)
  have 3: "\<exists>s'. select_first_notice off [cand ''A'', cand ''B''] s = (Inr (cand ''B''), s')"
    by (simp add: select_first_notice_def cand_def contract_for_session_def s_def roll_session_for_def mk_def off_def dict_of_def)
  then obtain s' where 3: "select_first_notice off [cand ''A'', cand ''B''] s = (Inr (cand ''B''), s')" by blast
  from first_notice_schedule [OF 1 2 3, of 8] have "cc_instrument_id (cand ''B'') = ''B''" by (simp add: cand_def)
  with 1 3 show ?thesis unfolding Let_def mk_def off_def cand_def by blast
qed

end
