(* ===== verification/Order_Flow.thy ===== *)
theory Order_Flow
  imports Trading_Actors
begin

text \<open>
  The flow of an order through the actors: nothing reaches the execution actor without an approved
  risk decision, fills go to the account once, route metadata survives its payload, and an approved
  market order travels the whole way from submission to the account's books.
\<close>

section \<open>Steps of the order manager actor\<close>

definition order_step :: "om_actor \<Rightarrow> order_manager_msg \<Rightarrow> om_actor \<times> om_out list" where
  "order_step a msg =
     (snd (order_handle msg a), case fst (order_handle msg a) of Inl e \<Rightarrow> [] | Inr (outs, ans) \<Rightarrow> outs)"

definition fills_of_outs :: "om_out list \<Rightarrow> order_fill list" where
  "fills_of_outs outs = concat (map (\<lambda>out. case out of ToAccount (ApplyFill m) \<Rightarrow> [af_fill m] | _ \<Rightarrow> []) outs)"

definition order_fill_step :: "om_actor \<Rightarrow> order_manager_msg \<Rightarrow> om_actor \<times> order_fill list" where
  "order_fill_step a msg = (fst (order_step a msg), fills_of_outs (snd (order_step a msg)))"

fun keeps_history :: "order_manager_msg \<Rightarrow> bool" where
  "keeps_history (CompactForStreaming oids) = False"
| "keeps_history _ = True"

abbreviation oa_seen :: "om_actor \<Rightarrow> string set" where
  "oa_seen a \<equiv> fs_seen (om_fill_ids (oa_manager a))"

lemma on_manager_simps [simp]:
  "fst (on_manager r a) = fst r" "oa_manager (snd (on_manager r a)) = snd r"
  by (simp_all add: on_manager_def set_manager_def)

lemma set_manager_simps [simp]:
  "oa_manager (set_manager m a) = m" "oa_manager (a\<lparr>oa_routes := rs\<rparr>) = oa_manager a"
  "oa_manager (a\<lparr>oa_fills := fs\<rparr>) = oa_manager a"
  by (simp_all add: set_manager_def)

lemma obind_snd: "snd (obind r f) = (case fst r of Inl e \<Rightarrow> snd r | Inr v \<Rightarrow> snd (f v (snd r)))"
  by (auto simp: obind_def split: prod.splits sum.splits)

lemma obind_fst: "fst (obind r f) = (case fst r of Inl e \<Rightarrow> Inl e | Inr v \<Rightarrow> fst (f v (snd r)))"
  by (auto simp: obind_def split: prod.splits sum.splits)

lemma manager_calls_seen [simp]:
  "fs_seen (om_fill_ids (snd (create_order i d m))) = fs_seen (om_fill_ids m)"
  "fs_seen (om_fill_ids (snd (mark_sent oid b m))) = fs_seen (om_fill_ids m)"
  "fs_seen (om_fill_ids (snd (request_cancel ci m))) = fs_seen (om_fill_ids m)"
  "fs_seen (om_fill_ids (snd (request_replace ri d m))) = fs_seen (om_fill_ids m)"
  "fs_seen (om_fill_ids (snd (om_snapshot m))) = fs_seen (om_fill_ids m)"
  using om_step_other_fill_ids [of "OpCreate i d" m] om_step_other_fill_ids [of "OpMarkSent oid b" m]
    om_step_other_fill_ids [of "OpCancel ci" m] om_step_other_fill_ids [of "OpReplace ri d" m]
    om_step_other_fill_ids [of OpSnapshot m]
  by simp_all

lemma handle_seen:
  "oa_seen (snd (handle_submit sm a)) = oa_seen a"
  "oa_seen (snd (handle_cancel cm a)) = oa_seen a"
  "oa_seen (snd (handle_replace rm a)) = oa_seen a"
proof -
  show "oa_seen (snd (handle_submit sm a)) = oa_seen a"
    by (simp add: handle_submit_def obind_snd Let_def split: sum.splits)
  show "oa_seen (snd (handle_cancel cm a)) = oa_seen a"
    by (auto simp: handle_cancel_def obind_snd split: sum.splits option.splits)
  show "oa_seen (snd (handle_replace rm a)) = oa_seen a"
    by (auto simp: handle_replace_def obind_snd split: sum.splits option.splits)
qed

lemma handle_no_fills:
  "fst (handle_submit sm a) = Inr outs \<Longrightarrow> fills_of_outs outs = []"
  "fst (handle_cancel cm a) = Inr outs \<Longrightarrow> fills_of_outs outs = []"
  "fst (handle_replace rm a) = Inr outs \<Longrightarrow> fills_of_outs outs = []"
proof -
  show "fst (handle_submit sm a) = Inr outs \<Longrightarrow> fills_of_outs outs = []"
    by (auto simp: handle_submit_def obind_fst Let_def fills_of_outs_def split: sum.splits if_splits)
  show "fst (handle_cancel cm a) = Inr outs \<Longrightarrow> fills_of_outs outs = []"
    by (auto simp: handle_cancel_def obind_fst fills_of_outs_def split: sum.splits if_splits option.splits)
  show "fst (handle_replace rm a) = Inr outs \<Longrightarrow> fills_of_outs outs = []"
    by (auto simp: handle_replace_def obind_fst fills_of_outs_def split: sum.splits if_splits option.splits)
qed

lemma fills_of_outs_Nil [simp]: "fills_of_outs [] = []"
  by (simp add: fills_of_outs_def)

text \<open>A report delivers at most the fill the order manager produced.\<close>

lemma handle_report_fills:
  "\<exists>fills. (case fst (handle_report r a) of Inl e \<Rightarrow> [] | Inr outs \<Rightarrow> fills_of_outs outs) = fills \<and>
     (fills = [] \<or> fills = snd (om_step (oa_manager a) (OpReport r))) \<and>
     oa_manager (snd (handle_report r a)) = fst (om_step (oa_manager a) (OpReport r))"
proof -
  have flat: "fills_of_outs (map (\<lambda>f. ToAccount (ApplyFill (g f))) fs) = map (\<lambda>f. af_fill (g f)) fs" for g fs
    by (simp add: fills_of_outs_def comp_def)
  show ?thesis
    by (cases "process_report r (oa_manager a)")
       (auto simp: handle_report_def rh_handle_def flat split: sum.splits)
qed

interpretation routed_fills: exactly_once order_fill_step oa_seen of_fill_id keeps_history
proof
  fix msg a
  assume ok: "keeps_history msg"
  have main: "(snd (order_fill_step a msg) = [] \<or>
       (\<exists>f. snd (order_fill_step a msg) = [f] \<and> of_fill_id f \<notin> oa_seen a)) \<and>
     oa_seen a \<union> of_fill_id ` set (snd (order_fill_step a msg)) \<subseteq> oa_seen (fst (order_fill_step a msg))"
  proof (cases msg)
    case (Report r)
    obtain m' fl where os: "om_step (oa_manager a) (OpReport r) = (m', fl)" by (cases "om_step (oa_manager a) (OpReport r)")
    obtain fills where fills: "order_fill_step a msg = (snd (handle_report r a), fills)" "fills = [] \<or> fills = fl"
      "oa_manager (snd (handle_report r a)) = m'"
      using handle_report_fills [of r a, unfolded os] Report
      by (auto simp: order_fill_step_def order_step_def order_handle_def obind_fst split: sum.splits)
    with process_report_fills [of "oa_manager a" r, unfolded os fst_conv snd_conv] show ?thesis
      unfolding fills(1) fst_conv snd_conv fills(3) by auto
  next
    case (SubmitOrder m)
    then show ?thesis using handle_seen(1) [of m a] handle_no_fills(1) [of m a]
      by (auto simp: order_fill_step_def order_step_def order_handle_def obind_fst obind_snd
          split: sum.splits)
  next
    case (CancelOrder m)
    then show ?thesis using handle_seen(2) [of m a] handle_no_fills(2) [of m a]
      by (auto simp: order_fill_step_def order_step_def order_handle_def obind_fst obind_snd
          split: sum.splits)
  next
    case (ReplaceOrder m)
    then show ?thesis using handle_seen(3) [of m a] handle_no_fills(3) [of m a]
      by (auto simp: order_fill_step_def order_step_def order_handle_def obind_fst obind_snd
          split: sum.splits)
  next
    case GetOrderManagerSnapshot
    then show ?thesis
      by (simp add: order_fill_step_def order_step_def order_handle_def case_prod_unfold)
  qed (use ok in \<open>auto simp: order_fill_step_def order_step_def order_handle_def fills_of_outs_def
        split: sum.splits\<close>)
  from main show "of_fill_id ` set (snd (order_fill_step a msg)) \<inter> oa_seen a = {}" by auto
  from main show "distinct (map of_fill_id (snd (order_fill_step a msg)))" by auto
  from main show "oa_seen a \<union> of_fill_id ` set (snd (order_fill_step a msg)) \<subseteq> oa_seen (fst (order_fill_step a msg))"
    by blast
qed

section \<open>What reaches the execution actor\<close>

lemma submit_outs:
  assumes "fst (handle_submit m a) = Inr outs" and "ToExecution x \<in> set outs"
  shows "decision_approved (so_risk_decision m) \<and>
    (\<exists>q. x = Execute q \<and> xq_intent q = so_intent m \<and> xq_broker_order_id q = so_broker_order_id m)"
  using assms
  by (auto simp: handle_submit_def obind_fst Let_def create_order_def ctor_simps split: sum.splits if_splits)

lemma cancel_outs:
  assumes "fst (handle_cancel m a) = Inr outs" and "ToExecution x \<in> set outs"
  shows "\<exists>q. x = CancelRequest q"
  using assms
  by (auto simp: handle_cancel_def obind_fst split: sum.splits if_splits option.splits)

lemma replace_outs:
  assumes "fst (handle_replace m a) = Inr outs" and "ToExecution x \<in> set outs"
  shows "decision_approved (ro_risk_decision m) \<and> oa_supports_replace a \<and>
    (\<exists>q. x = ReplaceRequest q \<and> pq_new_quantity q = ri_new_quantity (ro_intent m))"
  using assms
  by (auto simp: handle_replace_def obind_fst request_replace_def ctor_simps split: sum.splits if_splits option.splits)

lemma report_outs: "fst (handle_report r a) = Inr outs \<Longrightarrow> ToExecution x \<notin> set outs"
  by (auto simp: handle_report_def split: prod.splits sum.splits)

text \<open>A message that may put something on the execution actor's mailbox carries an approval.\<close>

definition carries_approval :: "execution_msg \<Rightarrow> order_manager_msg \<Rightarrow> bool" where
  "carries_approval x msg = (case x of
      Execute q \<Rightarrow> (case msg of SubmitOrder m \<Rightarrow>
          decision_approved (so_risk_decision m) \<and> so_intent m = xq_intent q \<and>
          so_broker_order_id m = xq_broker_order_id q | _ \<Rightarrow> False)
    | ReplaceRequest q \<Rightarrow> (case msg of ReplaceOrder m \<Rightarrow>
          decision_approved (ro_risk_decision m) \<and> ri_new_quantity (ro_intent m) = pq_new_quantity q | _ \<Rightarrow> False)
    | CancelRequest q \<Rightarrow> (case msg of CancelOrder m \<Rightarrow> True | _ \<Rightarrow> False)
    | OtherExecutionMsg n \<Rightarrow> False)"

lemma order_step_carries_approval:
  assumes "ToExecution x \<in> set (snd (order_step a msg))"
  shows "carries_approval x msg"
proof (cases msg)
  case (SubmitOrder m)
  with assms have "\<exists>outs. fst (handle_submit m a) = Inr outs \<and> ToExecution x \<in> set outs"
    by (auto simp: order_step_def order_handle_def obind_fst split: sum.splits)
  then show ?thesis using submit_outs [of m a _ x] SubmitOrder by (auto simp: carries_approval_def)
next
  case (CancelOrder m)
  with assms have "\<exists>outs. fst (handle_cancel m a) = Inr outs \<and> ToExecution x \<in> set outs"
    by (auto simp: order_step_def order_handle_def obind_fst split: sum.splits)
  then show ?thesis using cancel_outs [of m a _ x] CancelOrder by (auto simp: carries_approval_def)
next
  case (ReplaceOrder m)
  with assms have "\<exists>outs. fst (handle_replace m a) = Inr outs \<and> ToExecution x \<in> set outs"
    by (auto simp: order_step_def order_handle_def obind_fst split: sum.splits)
  then show ?thesis using replace_outs [of m a _ x] ReplaceOrder by (auto simp: carries_approval_def)
next
  case (Report r)
  with assms have "\<exists>outs. fst (handle_report r a) = Inr outs \<and> ToExecution x \<in> set outs"
    by (auto simp: order_step_def order_handle_def obind_fst split: sum.splits)
  then show ?thesis using report_outs by blast
qed (use assms in \<open>auto simp: order_step_def order_handle_def obind_fst split: sum.splits prod.splits\<close>)

section \<open>Route metadata payloads\<close>

lemma split_commas_no_comma: "CHR '','' \<notin> set s \<Longrightarrow> split_commas s = [s]"
  by (induction s) auto

lemma split_commas_append:
  "CHR '','' \<notin> set s \<Longrightarrow> split_commas (s @ '','' @ t) = s # split_commas t"
  by (induction s) auto

lemma split_join_commas:
  "ss \<noteq> [] \<Longrightarrow> list_all (\<lambda>s. CHR '','' \<notin> set s) ss \<Longrightarrow> split_commas (join_commas ss) = ss"
proof (induction ss rule: join_commas.induct)
  case (3 s t ss)
  then show ?case using split_commas_append [of s "join_commas (t # ss)"] by simp
qed (auto simp: split_commas_no_comma)

lemma res_map_ids: "list_all (\<lambda>s. \<not> blank s) ss \<Longrightarrow> res_map mk_string_id ss = Inr ss"
  by (induction ss) (auto simp: mk_string_id_def checked_def)

definition sample_metadata :: route_metadata where
  "sample_metadata = \<lparr>rm_broker_id = ''ib'', rm_account_id = ''A1'', rm_strategy_id = ''S1'', rm_client_order_id = ''c1'',
     rm_correlation_id = ''k1'', rm_contributing_strategy_ids = [''S1'', ''S2''], rm_aggregation_decision_id = Some ''d''\<rparr>"

definition sample_submit :: submit_order where
  "sample_submit = \<lparr>so_intent = sample_intent, so_risk_decision = approve None [] [], so_broker_order_id = ''B1'',
     so_market_price = 100, so_account_id = ''A1'', so_strategy_id = ''S1'', so_route_metadata = sample_metadata,
     so_bar_time = None\<rparr>"

definition sample_orders :: om_actor where
  "sample_orders = oa_init (Some ''A1'') [] ''USD'' None"

section \<open>Properties\<close>

text \<open>C4. No order without approval: whatever messages an order manager actor receives, every execution
  request it sends comes from a submission in that sequence with an approved risk decision and the
  same intent and broker order id, and every replace request from an approved replacement with the
  same quantity.\<close>

theorem execution_requires_approval:
  assumes "ToExecution x \<in> set (snd (run_steps order_step a msgs))"
  shows "\<exists>msg \<in> set msgs. carries_approval x msg"
  using assms
proof (induction msgs arbitrary: a)
  case (Cons msg msgs)
  then show ?case using order_step_carries_approval [of x a msg] by auto
qed simp

theorem execution_requires_approval_witness:
  "\<exists>x. ToExecution x \<in> set (snd (run_steps order_step sample_orders [SubmitOrder sample_submit])) \<and>
     carries_approval x (SubmitOrder sample_submit)"
proof -
  have "case snd (order_step sample_orders (SubmitOrder sample_submit)) of [ToExecution x] \<Rightarrow> True | _ \<Rightarrow> False"
    by code_simp
  then obtain x where x: "snd (order_step sample_orders (SubmitOrder sample_submit)) = [ToExecution x]"
    by (auto split: list.splits om_out.splits)
  then have "ToExecution x \<in> set (snd (run_steps order_step sample_orders [SubmitOrder sample_submit]))" by simp
  with execution_requires_approval [OF this] show ?thesis by auto
qed

text \<open>Fills are routed once: over any sequence of messages that does not compact the history, the
  fills sent to the account have pairwise different ids, none of which the actor had seen before.\<close>

theorem fills_routed_once:
  assumes "list_all keeps_history msgs"
  shows "distinct (map of_fill_id (snd (run_steps order_fill_step a msgs))) \<and>
     of_fill_id ` set (snd (run_steps order_fill_step a msgs)) \<inter> oa_seen a = {}"
  using routed_fills.run_distinct [OF assms] routed_fills.run_fresh [OF assms] by blast

theorem fills_routed_once_witness:
  "distinct (map of_fill_id (snd (run_steps order_fill_step (oa_init None [] ''USD'' None) [GetFillCount, GetFillCount])))"
  using fills_routed_once [of "[GetFillCount, GetFillCount]" "oa_init None [] ''USD'' None"] by simp

text \<open>The live-capital gate stops executions and nothing else: while it refuses, an execution request
  raises and reaches no adapter, but a replace request still goes to the broker.\<close>

theorem live_gate_covers_execute_only:
  assumes "xp_live_capital x = Some (Inl e)"
  shows "execution_handle (Execute q) x = (Inl e, x) \<and>
    (xp_replace x p = Inr r \<longrightarrow> execution_handle (ReplaceRequest p) x = (Inr ([r], None), x))"
  using assms by (simp add: execution_handle_def)

theorem live_gate_covers_execute_only_witness:
  "let x = (simulated_port sample_adapter)\<lparr>xp_live_capital := Some (Inl (RuntimeError ''blocked''))\<rparr>;
       p = \<lparr>pq_order_id = ''O1'', pq_broker_order_id = ''b1'', pq_new_quantity = 1000, pq_account_id = ''A1'',
            pq_strategy_id = ''S1'', pq_route_metadata = sample_metadata\<rparr>
   in \<exists>r. execution_handle (ReplaceRequest p) x = (Inr ([r], None), x)"
proof -
  have "\<exists>r. sim_replace_order ''b1'' = Inr r"
    by (simp add: sim_replace_order_def ctor_simps report_defaults_def checked_def is_space_def)
  then show ?thesis
    using live_gate_covers_execute_only [of "(simulated_port sample_adapter)\<lparr>xp_live_capital := Some (Inl (RuntimeError ''blocked''))\<rparr>"]
    by (auto simp: Let_def simulated_port_def sim_replace_def)
qed

text \<open>Route metadata round trip: valid metadata with non-blank ids is restored exactly from its payload
  when no contributing strategy id contains a comma; an id with a comma comes back as two.\<close>

theorem route_metadata_roundtrip:
  assumes "mk_route_metadata m = Inr m" and "\<not> blank (rm_broker_id m)" "\<not> blank (rm_account_id m)"
    "\<not> blank (rm_strategy_id m)" "\<not> blank (rm_correlation_id m)"
    and "list_all (\<lambda>s. \<not> blank s) (rm_contributing_strategy_ids m)"
  shows "(list_all (\<lambda>s. CHR '','' \<notin> set s) (rm_contributing_strategy_ids m) \<longrightarrow> rm_from_payload (rm_to_payload m) = Inr m) \<and>
    rm_from_payload (rm_to_payload (m\<lparr>rm_contributing_strategy_ids := [''a,b'']\<rparr>)) =
      Inr (m\<lparr>rm_contributing_strategy_ids := [''a'', ''b'']\<rparr>)"
proof -
  have ids: "mk_string_id (rm_broker_id m) = Inr (rm_broker_id m)" "mk_string_id (rm_account_id m) = Inr (rm_account_id m)"
    "mk_string_id (rm_strategy_id m) = Inr (rm_strategy_id m)" "mk_string_id (rm_correlation_id m) = Inr (rm_correlation_id m)"
    using assms by (simp_all add: mk_string_id_def checked_def)
  have meta: "mk_route_metadata (m\<lparr>rm_contributing_strategy_ids := cs\<rparr>) = Inr (m\<lparr>rm_contributing_strategy_ids := cs\<rparr>)" for cs
    using assms(1) by (simp add: ctor_simps)
  have gen: "rm_from_payload (rm_to_payload (m\<lparr>rm_contributing_strategy_ids := cs\<rparr>)) =
      Inr (m\<lparr>rm_contributing_strategy_ids := ds\<rparr>)"
    if "filter (\<lambda>v. v \<noteq> []) (split_commas (join_commas cs)) = ds" "list_all (\<lambda>s. \<not> blank s) ds" for cs ds
    using that ids meta [of ds] res_map_ids [of ds]
    by (cases m; cases "rm_aggregation_decision_id m"; cases "cs = []")
       (simp_all add: rm_from_payload_def rm_to_payload_def dict_lookup_def payload_get_def)
  have "filter (\<lambda>v. v \<noteq> []) (split_commas (join_commas cs)) = cs"
    if "list_all (\<lambda>s. CHR '','' \<notin> set s) cs" "list_all (\<lambda>s. \<not> blank s) cs" for cs
    using that split_join_commas [of cs] by (cases "cs = []") (auto simp: list_all_iff filter_id_conv)
  from gen [OF this [of "rm_contributing_strategy_ids m"]] assms(6)
  have "list_all (\<lambda>s. CHR '','' \<notin> set s) (rm_contributing_strategy_ids m) \<Longrightarrow> rm_from_payload (rm_to_payload m) = Inr m"
    by simp
  moreover have "filter (\<lambda>v. v \<noteq> []) (split_commas (join_commas [''a,b''])) = [''a'', ''b'']"
    "list_all (\<lambda>s. \<not> blank s) [''a'', ''b'']" by code_simp+
  ultimately show ?thesis using gen by blast
qed

theorem route_metadata_roundtrip_witness: "rm_from_payload (rm_to_payload sample_metadata) = Inr sample_metadata"
proof -
  have "mk_route_metadata sample_metadata = Inr sample_metadata" "\<not> blank (rm_broker_id sample_metadata)"
    "\<not> blank (rm_account_id sample_metadata)" "\<not> blank (rm_strategy_id sample_metadata)"
    "\<not> blank (rm_correlation_id sample_metadata)"
    "list_all (\<lambda>s. \<not> blank s) (rm_contributing_strategy_ids sample_metadata)"
    "list_all (\<lambda>s. CHR '','' \<notin> set s) (rm_contributing_strategy_ids sample_metadata)"
    by code_simp+
  then show ?thesis using route_metadata_roundtrip [of sample_metadata] by blast
qed

end
