(* ===== verification/Intent_Processing.thy ===== *)
theory Intent_Processing
  imports Future_Roll Order_Flow
begin

text \<open>
  From a strategy's target to booked fills: instrument resolution (\<open>runtime/instrument_context.py\<close>),
  order planning and intent processing (\<open>runtime/intent_processing.py\<close>), the order counter of
  \<open>RuntimeSession._process_intent\<close> and cancel routing (\<open>runtime/order_lifecycle.py\<close>). The three actors
  of an account partition are cells with their mailboxes; a processing step tells a message and
  drains the mailboxes in the order the code does. The contract multiplier callable is a parameter.
\<close>

section \<open>Target intents (\<open>strategy_sdk/target.py\<close>)\<close>

datatype target_intent_type = PERCENT | QUANTITY | VALUE | CLOSE

record target_intent =
  tg_instrument_id :: instrument_id
  tg_intent_type :: target_intent_type
  tg_value :: "decimal option"
  tg_intent_id :: string
  tg_order_spec :: order_spec

section \<open>Instrument resolution (\<open>runtime/instrument_context.py\<close>)\<close>

record instrument_context =
  ix_rolls :: "roll_registry option"
  ix_related_cache :: "(instrument_id, instrument_id list) dict"
  ix_timing :: timing_model

definition ix_init :: "roll_registry option \<Rightarrow> timing_model option \<Rightarrow> instrument_context" where
  "ix_init rolls timing = \<lparr>ix_rolls = rolls, ix_related_cache = [],
     ix_timing = (case timing of Some t \<Rightarrow> t | None \<Rightarrow> \<lparr>tm_fill_policy = NEXT_BAR_OPEN, tm_optimistic_waiver = False\<rparr>)\<rparr>"

definition ix_is_continuous :: "instrument_context \<Rightarrow> instrument_id \<Rightarrow> bool" where
  "ix_is_continuous x i = (case ix_rolls x of None \<Rightarrow> False | Some r \<Rightarrow> is_continuous i r)"

definition order_instrument_for_intent :: "instrument_context \<Rightarrow> target_intent \<Rightarrow> bar \<Rightarrow> instrument_id res" where
  "order_instrument_for_intent x intent b =
     (if ix_is_continuous x (tg_instrument_id intent)
      then case ix_rolls x of
             None \<Rightarrow> Inl (RuntimeError ''future roll registry is required for continuous contracts'')
           | Some r \<Rightarrow> resolve_contract (ById (tg_instrument_id intent)) (b_end_time b) 0 r
      else Inr (tg_instrument_id intent))"

definition market_price_for_intent ::
  "instrument_context \<Rightarrow> target_intent \<Rightarrow> instrument_id \<Rightarrow> bar \<Rightarrow> decimal res" where
  "market_price_for_intent x intent i b =
     (if ix_is_continuous x (tg_instrument_id intent)
      then case ix_rolls x of
             None \<Rightarrow> Inl (RuntimeError ''future roll registry is required for continuous contracts'')
           | Some r \<Rightarrow> execution_price (tg_instrument_id intent) i (b_end_time b) r
      else Inr (price_for_execution_bar (ix_timing x) b))"

definition update_rolling_prices ::
  "instrument_context \<Rightarrow> bar \<Rightarrow> (instrument_id, decimal) dict \<Rightarrow> ((instrument_id, decimal) dict, unit) outcome" where
  "update_rolling_prices x b latest =
     (case ix_rolls x of
        None \<Rightarrow> (Inr (), latest)
      | Some r \<Rightarrow>
         (if \<not> ix_is_continuous x (b_instrument_id b) then (Inr (), latest)
          else case resolve_contract (ById (b_instrument_id b)) (b_end_time b) 0 r of
            Inl (KeyError k) \<Rightarrow> (Inr (), latest)
          | Inl e \<Rightarrow> (Inl e, latest)
          | Inr i \<Rightarrow>
             (case execution_price (b_instrument_id b) i (b_end_time b) r of
                Inl (KeyError k) \<Rightarrow> (Inr (), latest)
              | Inl e \<Rightarrow> (Inl e, latest)
              | Inr p \<Rightarrow> (Inr (), AList.update i p latest))))"

definition related_contracts_for ::
  "instrument_id \<Rightarrow> instrument_context \<Rightarrow> (instrument_context, instrument_id list) outcome" where
  "related_contracts_for i x =
     (if \<not> ix_is_continuous x i
      then (Inl (RuntimeError ''future roll registry is not configured for this instrument''), x)
      else case ix_rolls x of
        None \<Rightarrow> (Inl (RuntimeError ''future roll registry is required''), x)
      | Some r \<Rightarrow>
         (case map_of (ix_related_cache x) i of
            Some cs \<Rightarrow> (Inr cs, x)
          | None \<Rightarrow>
             (case related_contracts i r of
                Inl e \<Rightarrow> (Inl e, x)
              | Inr cs \<Rightarrow> (Inr cs, x\<lparr>ix_related_cache := AList.update i cs (ix_related_cache x)\<rparr>))))"

section \<open>Order planning\<close>

record order_plan =
  op_account_id :: account_id
  op_instrument_id :: instrument_id
  op_quantity_delta :: decimal
  op_market_price :: decimal
  op_order_time :: "instant option"
  op_order_spec :: order_spec
  op_aggregation_decision_id :: "string option"
  op_intent_id :: "string option"

text \<open>Division by zero raises in the decimal context.\<close>

definition div_checked :: "decimal \<Rightarrow> decimal \<Rightarrow> decimal res" where
  "div_checked x y = (if y = 0 then Inl DivisionByZero else Inr (ddiv x y))"

definition desired_quantity ::
  "target_intent \<Rightarrow> decimal \<Rightarrow> decimal option \<Rightarrow> decimal \<Rightarrow> decimal res" where
  "desired_quantity intent market_price account_equity multiplier =
     (if tg_intent_type intent = CLOSE then Inr 0
      else case tg_value intent of
        None \<Rightarrow> Inl (ValueError ''target intent value is required'')
      | Some v \<Rightarrow>
         (case tg_intent_type intent of
            QUANTITY \<Rightarrow> Inr v
          | VALUE \<Rightarrow> div_checked v market_price
          | PERCENT \<Rightarrow>
              (case account_equity of
                 None \<Rightarrow> Inl (ValueError ''account_equity is required for PERCENT intent'')
               | Some e \<Rightarrow>
                   if e \<le> 0 then Inl (ValueError ''account_equity must be positive for PERCENT intent'')
                   else div_checked (dmul e v) (dmul market_price multiplier))
          | CLOSE \<Rightarrow> Inr 0))"

definition plan_for ::
  "target_intent \<Rightarrow> account_id \<Rightarrow> bar \<Rightarrow> string option \<Rightarrow> instrument_id \<Rightarrow> decimal \<Rightarrow> decimal \<Rightarrow> order_plan" where
  "plan_for intent account b agg i delta price =
     \<lparr>op_account_id = account, op_instrument_id = i, op_quantity_delta = delta, op_market_price = price,
      op_order_time = Some (b_end_time b), op_order_spec = tg_order_spec intent,
      op_aggregation_decision_id = agg, op_intent_id = Some (tg_intent_id intent)\<rparr>"

fun roll_plans ::
  "instrument_context \<Rightarrow> target_intent \<Rightarrow> account_id \<Rightarrow> bar \<Rightarrow> string option \<Rightarrow> instrument_id \<Rightarrow> instrument_id list \<Rightarrow>
   (instrument_id, holding) dict \<Rightarrow> order_plan list res" where
  "roll_plans x intent account b agg target related [] = Inr []"
| "roll_plans x intent account b agg target related ((i, h) # positions) =
     (if i = target \<or> i \<notin> set related \<or> h_quantity h = 0
      then roll_plans x intent account b agg target related positions
      else res_bind (market_price_for_intent x intent i b) (\<lambda>price.
             res_bind (roll_plans x intent account b agg target related positions) (\<lambda>plans.
               Inr (plan_for intent account b agg i (dneg (h_quantity h)) price # plans))))"

definition build_plans ::
  "target_intent \<Rightarrow> account_id \<Rightarrow> bar \<Rightarrow> (instrument_id, holding) dict \<Rightarrow> string option \<Rightarrow> decimal option \<Rightarrow> decimal \<Rightarrow>
   instrument_context \<Rightarrow> (instrument_context, order_plan list) outcome" where
  "build_plans intent account b positions agg account_equity multiplier x =
     (case order_instrument_for_intent x intent b of
        Inl e \<Rightarrow> (Inl e, x)
      | Inr target \<Rightarrow>
         obind (if ix_is_continuous x (tg_instrument_id intent)
                then obind (related_contracts_for (tg_instrument_id intent) x) (\<lambda>related x1.
                       (roll_plans x1 intent account b agg target related positions, x1))
                else (Inr [], x)) (\<lambda>plans x1.
           (res_bind (market_price_for_intent x1 intent target b) (\<lambda>price.
              res_bind (desired_quantity intent price account_equity multiplier) (\<lambda>desired.
                let current = (case map_of positions target of None \<Rightarrow> 0 | Some h \<Rightarrow> h_quantity h);
                    delta = dsub desired current
                in Inr (plans @ (if delta \<noteq> 0 then [plan_for intent account b agg target delta price] else [])))),
            x1)))"

section \<open>An account partition\<close>

record partition =
  pt_order :: "(om_actor, order_manager_msg, order_manager_answer) cell"
  pt_execution :: "(execution_port, execution_msg, unit) cell"
  pt_account :: "(account_actor, account_msg, account_answer) cell"

fun om_is_query :: "order_manager_msg \<Rightarrow> bool" where
  "om_is_query GetOrderManagerSnapshot = True"
| "om_is_query GetFillCount = True"
| "om_is_query (GetFillsSince k) = True"
| "om_is_query (GetOrder oid) = True"
| "om_is_query (GetRouteMetadata oid) = True"
| "om_is_query _ = False"

fun account_is_query :: "account_msg \<Rightarrow> bool" where
  "account_is_query GetAccountSnapshot = True"
| "account_is_query DrainPositionClosedEvents = True"
| "account_is_query _ = False"

text \<open>What an actor told goes to the mailboxes of the others.\<close>

fun deliver :: "om_out \<Rightarrow> partition \<Rightarrow> partition" where
  "deliver (ToExecution m) p = p\<lparr>pt_execution := tell m (pt_execution p)\<rparr>"
| "deliver (ToAccount m) p = p\<lparr>pt_account := tell m (pt_account p)\<rparr>"

definition run_orders :: "partition \<Rightarrow> (partition, nat) outcome" where
  "run_orders p = (case process_all order_handle om_is_query (pt_order p) of
     (r, c, outs) \<Rightarrow> (r, fold deliver outs (p\<lparr>pt_order := c\<rparr>)))"

definition run_execution :: "partition \<Rightarrow> (partition, nat) outcome" where
  "run_execution p = (case process_all execution_handle (\<lambda>m. False) (pt_execution p) of
     (r, c, reports) \<Rightarrow> (r, p\<lparr>pt_execution := c, pt_order := fold (\<lambda>m. tell (Report m)) reports (pt_order p)\<rparr>))"

definition run_account :: "partition \<Rightarrow> (partition, nat) outcome" where
  "run_account p = (case process_all account_handle account_is_query (pt_account p) of
     (r, c, outs) \<Rightarrow> (r, p\<lparr>pt_account := c\<rparr>))"

definition ask_orders :: "order_manager_msg \<Rightarrow> partition \<Rightarrow> (partition, order_manager_answer) outcome" where
  "ask_orders q p = (case ask order_handle om_is_query q (pt_order p) of
     (r, c, outs) \<Rightarrow> (r, fold deliver outs (p\<lparr>pt_order := c\<rparr>)))"

definition ask_account :: "account_msg \<Rightarrow> partition \<Rightarrow> (partition, account_answer) outcome" where
  "ask_account q p = (case ask account_handle account_is_query q (pt_account p) of
     (r, c, outs) \<Rightarrow> (r, p\<lparr>pt_account := c\<rparr>))"

definition tell_orders :: "order_manager_msg \<Rightarrow> partition \<Rightarrow> partition" where
  "tell_orders m p = p\<lparr>pt_order := tell m (pt_order p)\<rparr>"

text \<open>\<open>validate_response\<close> of the four queries used here.\<close>

definition ask_fill_count :: "partition \<Rightarrow> (partition, nat) outcome" where
  "ask_fill_count p = obind (ask_orders GetFillCount p) (\<lambda>a p'.
     (case a of FillCountAnswer n \<Rightarrow> Inr n | _ \<Rightarrow> Inl (TypeError ''expected int response''), p'))"

definition ask_fills_since :: "nat \<Rightarrow> partition \<Rightarrow> (partition, order_fill list) outcome" where
  "ask_fills_since n p = obind (ask_orders (GetFillsSince (int n)) p) (\<lambda>a p'.
     (case a of FillsAnswer fs \<Rightarrow> Inr fs | _ \<Rightarrow> Inl (TypeError ''expected fills response''), p'))"

definition ask_order :: "order_id \<Rightarrow> partition \<Rightarrow> (partition, order) outcome" where
  "ask_order oid p = obind (ask_orders (GetOrder oid) p) (\<lambda>a p'.
     (case a of OrderAnswer ord \<Rightarrow> Inr ord | _ \<Rightarrow> Inl (TypeError ''expected Order response''), p'))"

definition ask_route_metadata :: "order_id \<Rightarrow> partition \<Rightarrow> (partition, route_metadata) outcome" where
  "ask_route_metadata oid p = obind (ask_orders (GetRouteMetadata oid) p) (\<lambda>a p'.
     (case a of RouteMetadataAnswer m \<Rightarrow> Inr m | _ \<Rightarrow> Inl (TypeError ''expected OrderRouteMetadata response''), p'))"

definition ask_snapshot :: "partition \<Rightarrow> (partition, account_snapshot) outcome" where
  "ask_snapshot p = obind (ask_account GetAccountSnapshot p) (\<lambda>a p'.
     (case a of SnapshotAnswer s \<Rightarrow> Inr s | _ \<Rightarrow> Inl (TypeError ''expected AccountSnapshot response''), p'))"

section \<open>Processing one planned order\<close>

record processed_intent =
  pi_orders :: "order list"
  pi_fills :: "order_fill list"
  pi_risk_decisions :: "risk_decision list"

record intent_processor =
  ip_risk_engine :: risk_engine
  ip_context :: instrument_context
  ip_multiplier_for :: "instrument_id \<Rightarrow> decimal res"
  ip_broker_id :: broker_id
  ip_order_id_prefix :: string
  ip_broker_order_id_prefix :: string
  ip_margin_calculator :: "margin_calculator option"
  ip_intraday :: "intraday_calculator option"

definition mk_intent_processor :: "intent_processor \<Rightarrow> intent_processor res" where
  [ctor_simps]: "mk_intent_processor ip = checked
     [(blank (ip_order_id_prefix ip), ValueError ''order_id_prefix must not be empty''),
      (blank (ip_broker_order_id_prefix ip), ValueError ''broker_order_id_prefix must not be empty'')] ip"

record intent_origin =
  io_strategy_id :: strategy_id
  io_correlation_id :: string
  io_contributing_strategy_ids :: "strategy_id list"
  io_conflict_reason :: "string option"
  io_market_data :: "market_data_context option"

text \<open>\<open>f"{n:06d}"\<close>.\<close>

definition pad_six :: "nat \<Rightarrow> string" where
  "pad_six n = replicate (6 - length (nat_str n)) (CHR ''0'') @ nat_str n"

definition projected_initial_margin ::
  "intent_processor \<Rightarrow> decimal \<Rightarrow> decimal \<Rightarrow> decimal \<Rightarrow> decimal \<Rightarrow> decimal option" where
  "projected_initial_margin ip current_position delta market_price multiplier =
     (case ip_margin_calculator ip of
        None \<Rightarrow> None
      | Some mc \<Rightarrow>
         (let new_position = dadd current_position delta;
              increasing = max (dsub (dabs new_position) (dabs current_position)) 0
          in if increasing = 0 then Some 0
             else Some (order_initial_margin mc (dmul (dmul increasing market_price) multiplier))))"

definition delta_risk_request ::
  "intent_processor \<Rightarrow> intent_origin \<Rightarrow> order_plan \<Rightarrow> risk_state option \<Rightarrow> risk_request res" where
  "delta_risk_request ip origin plan rstate =
     res_bind (ip_multiplier_for ip (op_instrument_id plan)) (\<lambda>multiplier.
     res_bind (mk_risk_request
       \<lparr>rq_instrument_id = op_instrument_id plan, rq_quantity = dabs (op_quantity_delta plan),
        rq_price = op_market_price plan, rq_multiplier = multiplier, rq_order_spec = op_order_spec plan,
        rq_order_time = op_order_time plan, rq_current_position = 0,
        rq_contributing_strategy_ids = io_contributing_strategy_ids origin,
        rq_aggregation_decision_id = op_aggregation_decision_id plan,
        rq_conflict_reason = io_conflict_reason origin, rq_market_data = io_market_data origin,
        rq_account_equity = None, rq_current_exposure = 0, rq_intraday_pnl = None,
        rq_current_notional_by_instrument = None, rq_volatility = None, rq_signed_quantity_delta = None,
        rq_current_margin_requirement = None, rq_projected_initial_margin = None,
        rq_available_margin = None\<rparr>) (\<lambda>request.
       case rstate of
         None \<Rightarrow> Inr request
       | Some rs \<Rightarrow>
          (let current_position = rs_current_position rs (op_instrument_id plan)
           in mk_risk_request (request
                \<lparr>rq_account_equity := Some (rs_account_equity rs),
                 rq_current_exposure := rs_current_exposure rs,
                 rq_intraday_pnl := Some (rs_intraday_pnl rs),
                 rq_current_notional_by_instrument := Some (rs_notional rs),
                 rq_current_position := current_position,
                 rq_signed_quantity_delta := Some (op_quantity_delta plan),
                 rq_current_margin_requirement := Some (rs_current_margin_requirement rs),
                 rq_available_margin := Some (rs_available_margin rs),
                 rq_projected_initial_margin :=
                   projected_initial_margin ip current_position (op_quantity_delta plan)
                     (op_market_price plan) multiplier\<rparr>))))"

text \<open>The decision is stamped with the origin of the intent when it does not carry it already.\<close>

definition stamp_decision :: "intent_origin \<Rightarrow> order_plan \<Rightarrow> risk_decision \<Rightarrow> risk_decision" where
  "stamp_decision origin plan d = d\<lparr>rd_contributing_strategy_ids := io_contributing_strategy_ids origin,
     rd_aggregation_decision_id := op_aggregation_decision_id plan,
     rd_conflict_reason := io_conflict_reason origin\<rparr>"

definition delta_order_intent :: "intent_processor \<Rightarrow> order_plan \<Rightarrow> nat \<Rightarrow> order_intent res" where
  "delta_order_intent ip plan n =
     mk_order_intent \<lparr>oi_order_id = ip_order_id_prefix ip @ ''-'' @ pad_six n,
       oi_instrument_id = op_instrument_id plan,
       oi_side = (if op_quantity_delta plan > 0 then BUY else SELL),
       oi_quantity = dabs (op_quantity_delta plan), oi_account_id = Some (op_account_id plan),
       oi_order_spec = op_order_spec plan, oi_intent_id = op_intent_id plan\<rparr>"

definition delta_route_metadata :: "intent_processor \<Rightarrow> intent_origin \<Rightarrow> order_plan \<Rightarrow> nat \<Rightarrow> route_metadata res" where
  "delta_route_metadata ip origin plan n =
     mk_route_metadata \<lparr>rm_broker_id = ip_broker_id ip, rm_account_id = op_account_id plan,
       rm_strategy_id = io_strategy_id origin,
       rm_client_order_id = ip_order_id_prefix ip @ ''-client-'' @ pad_six n,
       rm_correlation_id = io_correlation_id origin,
       rm_contributing_strategy_ids = io_contributing_strategy_ids origin,
       rm_aggregation_decision_id = op_aggregation_decision_id plan\<rparr>"

definition delta_submit :: "intent_processor \<Rightarrow> intent_origin \<Rightarrow> order_plan \<Rightarrow> nat \<Rightarrow> risk_decision \<Rightarrow> submit_order res" where
  "delta_submit ip origin plan n decision =
     res_bind (delta_order_intent ip plan n) (\<lambda>intent.
     res_bind (delta_route_metadata ip origin plan n) (\<lambda>metadata.
       mk_submit_order \<lparr>so_intent = intent, so_risk_decision = decision,
         so_broker_order_id = ip_broker_order_id_prefix ip @ ''-'' @ pad_six n,
         so_market_price = op_market_price plan, so_account_id = op_account_id plan,
         so_strategy_id = io_strategy_id origin, so_route_metadata = metadata,
         so_bar_time = op_order_time plan\<rparr>))"

text \<open>The four drains after a submission, and the answer read back from the order manager.\<close>

definition run_partition :: "partition \<Rightarrow> (partition, unit) outcome" where
  "run_partition p =
     obind (run_orders p) (\<lambda>_ p1. obind (run_execution p1) (\<lambda>_ p2.
       obind (run_orders p2) (\<lambda>_ p3. obind (run_account p3) (\<lambda>_ p4. (Inr (), p4)))))"

definition process_order_delta ::
  "intent_processor \<Rightarrow> intent_origin \<Rightarrow> order_plan \<Rightarrow> nat \<Rightarrow> risk_state option \<Rightarrow> partition \<Rightarrow>
   (partition, processed_intent) outcome" where
  "process_order_delta ip origin plan n rstate p =
     (if op_quantity_delta plan = 0 then (Inr \<lparr>pi_orders = [], pi_fills = [], pi_risk_decisions = []\<rparr>, p)
      else case res_bind (delta_risk_request ip origin plan rstate) (engine_check (ip_risk_engine ip)) of
        Inl e \<Rightarrow> (Inl e, p)
      | Inr d0 \<Rightarrow>
         (let d = stamp_decision origin plan d0 in
          if \<not> decision_approved d
          then (Inr \<lparr>pi_orders = [], pi_fills = [], pi_risk_decisions = [d]\<rparr>, p)
          else obind (ask_fill_count p) (\<lambda>before p1.
            case delta_submit ip origin plan n d of
              Inl e \<Rightarrow> (Inl e, p1)
            | Inr m \<Rightarrow>
               obind (run_partition (tell_orders (SubmitOrder m) p1)) (\<lambda>_ p2.
                 obind (ask_fills_since before p2) (\<lambda>fills p3.
                   obind (ask_order (oi_order_id (so_intent m)) p3) (\<lambda>ord p4.
                     (Inr \<lparr>pi_orders = [ord], pi_fills = fills, pi_risk_decisions = [d]\<rparr>, p4)))))))"

section \<open>Processing an intent\<close>

fun suppressed_mark_error :: "exn \<Rightarrow> bool" where
  "suppressed_mark_error (KeyError k) = True"
| "suppressed_mark_error (ValueError m) = True"
| "suppressed_mark_error (MissingExecutionPriceError i) = True"
| "suppressed_mark_error _ = False"

fun mark_loop ::
  "instrument_context \<Rightarrow> target_intent \<Rightarrow> bar \<Rightarrow> instrument_id list \<Rightarrow> (instrument_id, decimal) dict \<Rightarrow>
   (instrument_id, decimal) dict res" where
  "mark_loop x intent b [] marks = Inr marks"
| "mark_loop x intent b (i # is) marks =
     (if map_of marks i \<noteq> None then mark_loop x intent b is marks
      else case market_price_for_intent x intent i b of
        Inr p \<Rightarrow> mark_loop x intent b is (AList.update i p marks)
      | Inl e \<Rightarrow> if suppressed_mark_error e then mark_loop x intent b is marks else Inl e)"

definition build_mark_map ::
  "instrument_context \<Rightarrow> target_intent \<Rightarrow> bar \<Rightarrow> (instrument_id, holding) dict \<Rightarrow> (instrument_id, decimal) dict res" where
  "build_mark_map x intent b positions =
     res_bind (order_instrument_for_intent x intent b) (\<lambda>target.
       res_bind (market_price_for_intent x intent target b) (\<lambda>price.
         mark_loop x intent b (map fst positions) [(target, price)]))"

fun process_plans ::
  "intent_processor \<Rightarrow> intent_origin \<Rightarrow> order_plan list \<Rightarrow> nat \<Rightarrow> risk_state option \<Rightarrow> partition \<Rightarrow>
   (partition, processed_intent) outcome" where
  "process_plans ip origin [] n rstate p = (Inr \<lparr>pi_orders = [], pi_fills = [], pi_risk_decisions = []\<rparr>, p)"
| "process_plans ip origin (plan # plans) n rstate p =
     obind (process_order_delta ip origin plan n rstate p) (\<lambda>r1 p1.
       obind (process_plans ip origin plans (n + 1) rstate p1) (\<lambda>r2 p2.
         (Inr \<lparr>pi_orders = pi_orders r1 @ pi_orders r2, pi_fills = pi_fills r1 @ pi_fills r2,
               pi_risk_decisions = pi_risk_decisions r1 @ pi_risk_decisions r2\<rparr>, p2)))"

definition multipliers_for :: "intent_processor \<Rightarrow> (instrument_id, holding) dict \<Rightarrow> (instrument_id, decimal) dict res" where
  "multipliers_for ip positions =
     res_map (\<lambda>(i, h). res_bind (ip_multiplier_for ip i) (\<lambda>m. Inr (i, m))) positions"

text \<open>
  \<open>process_intent\<close>. The state is the processor (its intraday window and roll cache change) and the
  partition; on an exception both keep what was done before it.
\<close>

definition process_intent ::
  "target_intent \<Rightarrow> bar \<Rightarrow> account_id option \<Rightarrow> intent_origin \<Rightarrow> string option \<Rightarrow> nat \<Rightarrow> intent_processor \<times> partition \<Rightarrow>
   (intent_processor \<times> partition, processed_intent) outcome" where
  "process_intent intent b account origin agg n st =
     (case account of
        None \<Rightarrow> (Inl (ValueError ''account_id is required''), st)
      | Some acct \<Rightarrow>
         (case ask_snapshot (snd st) of
            (Inl e, p) \<Rightarrow> (Inl e, (fst st, p))
          | (Inr snap, p) \<Rightarrow>
             (let ip = fst st; positions = as_holdings snap in
              case res_bind (build_mark_map (ip_context ip) intent b positions) (\<lambda>marks.
                     res_bind (multipliers_for ip positions) (\<lambda>ms. Inr (marks, ms))) of
                Inl e \<Rightarrow> (Inl e, (ip, p))
              | Inr (marks, ms) \<Rightarrow>
                 (let pnl = (case ip_intraday ip of None \<Rightarrow> (0, None)
                       | Some c \<Rightarrow> (case ic_compute (b_session_id b) positions marks ms c of (v, c') \<Rightarrow> (v, Some c')));
                      ip1 = ip\<lparr>ip_intraday := snd pnl\<rparr>
                  in case res_bind (risk_state_from_account snap marks ms (fst pnl) 0 0 (ip_margin_calculator ip)) (\<lambda>rs.
                         res_bind (order_instrument_for_intent (ip_context ip1) intent b) (\<lambda>target.
                           res_bind (ip_multiplier_for ip1 target) (\<lambda>mulr. Inr (rs, mulr)))) of
                       Inl e \<Rightarrow> (Inl e, (ip1, p))
                     | Inr (rs, mulr) \<Rightarrow>
                        (case build_plans intent acct b positions agg (Some (rs_account_equity rs)) mulr (ip_context ip1) of
                           (Inl e, x) \<Rightarrow> (Inl e, (ip1\<lparr>ip_context := x\<rparr>, p))
                         | (Inr plans, x) \<Rightarrow>
                            (case process_plans (ip1\<lparr>ip_context := x\<rparr>) origin plans n (Some rs) p of
                               (r, p') \<Rightarrow> (r, (ip1\<lparr>ip_context := x\<rparr>, p'))))))))"

section \<open>The session's order counter (\<open>runtime/session.py\<close>)\<close>

record session_state =
  ss_order_sequence :: nat
  ss_processors :: "(account_id, intent_processor) dict"

definition session_process_intent ::
  "account_id \<Rightarrow> target_intent \<Rightarrow> bar \<Rightarrow> account_id option \<Rightarrow> intent_origin \<Rightarrow> string option \<Rightarrow> session_state \<times> partition \<Rightarrow>
   (session_state \<times> partition, processed_intent) outcome" where
  "session_process_intent partition_account intent b account origin agg st =
     (let s = (fst st)\<lparr>ss_order_sequence := ss_order_sequence (fst st) + 1\<rparr> in
      case map_of (ss_processors s) partition_account of
        None \<Rightarrow> (Inl (ValueError ''missing intent processor for account''), (s, snd st))
      | Some ip \<Rightarrow>
         (case process_intent intent b account origin agg (ss_order_sequence s) (ip, snd st) of
            (r, (ip', p)) \<Rightarrow> (r, (s\<lparr>ss_processors := AList.update partition_account ip' (ss_processors s)\<rparr>, p))))"

section \<open>Cancel routing (\<open>runtime/order_lifecycle.py\<close>)\<close>

definition route_metadata_for :: "order_id \<Rightarrow> partition \<Rightarrow> (partition, route_metadata option) outcome" where
  "route_metadata_for oid p = (case ask_route_metadata oid p of
     (Inr m, p') \<Rightarrow> (Inr (Some m), p')
   | (Inl (KeyError k), p') \<Rightarrow> (Inr None, p')
   | (Inl e, p') \<Rightarrow> (Inl e, p'))"

fun cancel_loop :: "cancel_intent list \<Rightarrow> order_id list \<Rightarrow> partition \<Rightarrow> (partition, order_id list) outcome" where
  "cancel_loop [] routed p = (Inr routed, p)"
| "cancel_loop (ci # cancels) routed p =
     obind (route_metadata_for (ci_order_id ci) p) (\<lambda>m p1.
       case m of
         None \<Rightarrow> cancel_loop cancels routed p1
       | Some metadata \<Rightarrow>
          (case mk_cancel_order \<lparr>co_intent = ci, co_account_id = rm_account_id metadata,
                  co_strategy_id = rm_strategy_id metadata, co_route_metadata = metadata\<rparr> of
             Inl e \<Rightarrow> (Inl e, p1)
           | Inr msg \<Rightarrow> cancel_loop cancels (routed @ [ci_order_id ci]) (tell_orders (CancelOrder msg) p1)))"

definition route_cancels :: "bool \<Rightarrow> cancel_intent list \<Rightarrow> partition \<Rightarrow> (partition, order_id list) outcome" where
  "route_cancels has_execution_ref cancels p =
     obind (cancel_loop cancels [] p) (\<lambda>routed p1.
       if routed = [] then (Inr routed, p1)
       else obind (run_orders p1) (\<lambda>_ p2.
         if \<not> has_execution_ref then (Inr routed, p2)
         else obind (run_execution p2) (\<lambda>_ p3. obind (run_orders p3) (\<lambda>_ p4. (Inr routed, p4)))))"

section \<open>A quiet partition\<close>

text \<open>Between two processing steps no message is waiting; what matters then is the state of the actors.\<close>

definition quiet :: "partition \<Rightarrow> bool" where
  "quiet p \<longleftrightarrow> c_mailbox (pt_order p) = [] \<and> c_mailbox (pt_execution p) = [] \<and> c_mailbox (pt_account p) = []"

definition actors :: "partition \<Rightarrow> om_actor \<times> execution_port \<times> account_actor" where
  "actors p = (c_actor (pt_order p), c_actor (pt_execution p), c_actor (pt_account p))"

lemma tell_simps [simp]:
  "c_mailbox (tell m c) = c_mailbox c @ [m]" "c_actor (tell m c) = c_actor c"
  by (simp_all add: tell_def mb_put_def)

lemma ask_orders_quiet:
  assumes "quiet p" "actors p = (a, x, c)" and "order_handle q a = (Inr ([], Some r), a')"
  shows "\<exists>p'. ask_orders q p = (Inr r, p') \<and> quiet p' \<and> actors p' = (a', x, c)"
  using assms ask_idle [of "pt_order p" order_handle q "[]" r a' om_is_query]
  by (auto simp: ask_orders_def quiet_def actors_def)

lemma ask_queries_quiet:
  assumes "quiet p" "actors p = (a, x, c)"
  shows "\<exists>p'. ask_fill_count p = (Inr (length (oa_fills a)), p') \<and> quiet p' \<and> actors p' = (a, x, c)"
    "\<exists>p'. ask_fills_since n p = (Inr (drop n (oa_fills a)), p') \<and> quiet p' \<and> actors p' = (a, x, c)"
    "get_order oid (oa_manager a) = Inr ord \<Longrightarrow>
       \<exists>p'. ask_order oid p = (Inr ord, p') \<and> quiet p' \<and> actors p' = (a, x, c)"
proof -
  show "\<exists>p'. ask_fill_count p = (Inr (length (oa_fills a)), p') \<and> quiet p' \<and> actors p' = (a, x, c)"
    using ask_orders_quiet [OF assms, of GetFillCount "FillCountAnswer (length (oa_fills a))" a]
    by (auto simp: ask_fill_count_def order_handle_def oa_fill_count_def)
  show "\<exists>p'. ask_fills_since n p = (Inr (drop n (oa_fills a)), p') \<and> quiet p' \<and> actors p' = (a, x, c)"
    using ask_orders_quiet [OF assms, of "GetFillsSince (int n)" "FillsAnswer (drop n (oa_fills a))" a]
    by (auto simp: ask_fills_since_def order_handle_def oa_fills_since_def slice_from_def)
  show "\<exists>p'. ask_order oid p = (Inr ord, p') \<and> quiet p' \<and> actors p' = (a, x, c)"
    if "get_order oid (oa_manager a) = Inr ord"
    using ask_orders_quiet [OF assms, of "GetOrder oid" "OrderAnswer ord" a] that
    by (auto simp: ask_order_def order_handle_def)
qed

text \<open>
  One submission through the partition: the order actor hands a request to the execution actor, whose
  report goes back to the order actor, whose fills go to the account.
\<close>

lemma run_partition_submit:
  assumes "quiet p" "actors p = (a, x, c)"
    and "order_handle (SubmitOrder m) a = (Inr ([ToExecution q], None), a1)"
    and "execution_handle q x = (Inr ([r], None), x1)"
    and "order_handle (Report r) a1 = (Inr (map (\<lambda>f. ToAccount (ApplyFill f)) fs, None), a2)"
    and "(fs = [] \<and> c' = c) \<or> (\<exists>f. fs = [f] \<and> account_handle (ApplyFill f) c = (Inr ([], None), c'))"
  shows "\<exists>p'. run_partition (tell_orders (SubmitOrder m) p) = (Inr (), p') \<and> quiet p' \<and> actors p' = (a2, x1, c')"
proof -
  let ?p0 = "tell_orders (SubmitOrder m) p"
  note q = assms(1) [unfolded quiet_def] and act = assms(2) [unfolded actors_def]
  have "\<exists>p1. run_orders ?p0 = (Inr 1, p1) \<and> c_mailbox (pt_order p1) = [] \<and> c_mailbox (pt_execution p1) = [q] \<and>
      c_mailbox (pt_account p1) = [] \<and> actors p1 = (a1, x, c)"
    using process_all_single [of "pt_order ?p0" "SubmitOrder m" order_handle "[ToExecution q]" None a1 om_is_query] q act assms(3)
    by (auto simp: run_orders_def tell_orders_def actors_def)
  then obtain p1 where p1: "run_orders ?p0 = (Inr 1, p1)" "c_mailbox (pt_order p1) = []" "c_mailbox (pt_execution p1) = [q]"
      "c_mailbox (pt_account p1) = []" "actors p1 = (a1, x, c)" by blast
  have "\<exists>p2. run_execution p1 = (Inr 1, p2) \<and> c_mailbox (pt_order p2) = [Report r] \<and> c_mailbox (pt_execution p2) = [] \<and>
      c_mailbox (pt_account p2) = [] \<and> actors p2 = (a1, x1, c)"
    using process_all_single [of "pt_execution p1" q execution_handle "[r]" None x1 "\<lambda>m. False"] p1 assms(4)
    by (auto simp: run_execution_def actors_def)
  then obtain p2 where p2: "run_execution p1 = (Inr 1, p2)" "c_mailbox (pt_order p2) = [Report r]"
      "c_mailbox (pt_execution p2) = []" "c_mailbox (pt_account p2) = []" "actors p2 = (a1, x1, c)" by blast
  have "\<exists>p3. run_orders p2 = (Inr 1, p3) \<and> c_mailbox (pt_order p3) = [] \<and> c_mailbox (pt_execution p3) = [] \<and>
      c_mailbox (pt_account p3) = map ApplyFill fs \<and> actors p3 = (a2, x1, c)"
    using process_all_single [of "pt_order p2" "Report r" order_handle "map (\<lambda>f. ToAccount (ApplyFill f)) fs" None a2 om_is_query]
      p2 assms(5,6)
    by (elim disjE) (auto simp: run_orders_def actors_def)
  then obtain p3 where p3: "run_orders p2 = (Inr 1, p3)" "c_mailbox (pt_order p3) = []" "c_mailbox (pt_execution p3) = []"
      "c_mailbox (pt_account p3) = map ApplyFill fs" "actors p3 = (a2, x1, c)" by blast
  have "\<exists>n p4. run_account p3 = (Inr n, p4) \<and> quiet p4 \<and> actors p4 = (a2, x1, c')"
    using assms(6)
  proof (elim disjE exE conjE)
    assume "fs = []" "c' = c"
    then show ?thesis using p3 process_all_empty [of "pt_account p3" account_handle account_is_query]
      by (auto simp: run_account_def quiet_def actors_def)
  next
    fix f assume "fs = [f]" "account_handle (ApplyFill f) c = (Inr ([], None), c')"
    then show ?thesis using p3
        process_all_single [of "pt_account p3" "ApplyFill f" account_handle "[]" None c' account_is_query]
      by (auto simp: run_account_def quiet_def actors_def)
  qed
  then show ?thesis using p1(1) p2(1) p3(1) by (auto simp: run_partition_def)
qed

section \<open>One order through the order manager actor\<close>

text \<open>The order a submission leaves behind, before its report.\<close>

definition submitted :: "submit_order \<Rightarrow> order_state \<Rightarrow> order" where
  "submitted m st = \<lparr>or_order_id = oi_order_id (so_intent m), or_intent = so_intent m, or_state = st,
     or_broker_order_id = Some (so_broker_order_id m)\<rparr>"

definition submit_ok :: "submit_order \<Rightarrow> om_actor \<Rightarrow> bool" where
  "submit_ok m a \<longleftrightarrow> oi_account_id (so_intent m) = Some (so_account_id m) \<and>
     (oa_account_id a = None \<or> oa_account_id a = Some (so_account_id m)) \<and> rh_account_id (oa_handler a) = oa_account_id a \<and>
     decision_approved (so_risk_decision m) \<and> \<not> blank (so_broker_order_id m) \<and>
     mk_submit_order m = Inr m \<and> \<not> blank_opt (oi_intent_id (so_intent m))"

definition submit_request :: "submit_order \<Rightarrow> execution_request" where
  "submit_request m = \<lparr>xq_intent = so_intent m, xq_broker_order_id = so_broker_order_id m,
     xq_market_price = so_market_price m, xq_account_id = so_account_id m, xq_strategy_id = so_strategy_id m,
     xq_route_metadata = so_route_metadata m, xq_bar_time = so_bar_time m\<rparr>"

lemma submit_step:
  assumes "submit_ok m a"
  shows "\<exists>a1. order_handle (SubmitOrder m) a = (Inr ([ToExecution (Execute (submit_request m))], None), a1) \<and>
     map_of (om_broker_to_order (oa_manager a1)) (so_broker_order_id m) = Some (oi_order_id (so_intent m)) \<and>
     map_of (om_orders (oa_manager a1)) (oi_order_id (so_intent m)) = Some (submitted m Sent) \<and>
     map_of (om_machines (oa_manager a1)) (oi_order_id (so_intent m)) = Some Sent \<and>
     om_fill_ids (oa_manager a1) = om_fill_ids (oa_manager a) \<and>
     om_seen_report_ids (oa_manager a1) = om_seen_report_ids (oa_manager a) \<and>
     oa_fills a1 = oa_fills a \<and> oa_currency a1 = oa_currency a \<and> oa_multipliers a1 = oa_multipliers a \<and>
     rh_account_id (oa_handler a1) = oa_account_id a"
  using assms
  by (auto simp: submit_ok_def submit_request_def submitted_def order_handle_def handle_submit_def create_order_def
      mark_sent_def apply_event_def machine_defs replace_order_def on_manager_def set_manager_def Let_def update_conv'
      ctor_simps route_checks_def checked_def split: if_splits)

text \<open>The fill a FILLED report of the submitted order becomes.\<close>

definition report_fill :: "submit_order \<Rightarrow> execution_report \<Rightarrow> order_fill" where
  "report_fill m r = \<lparr>of_fill_id = the (er_fill_id r), of_order_id = oi_order_id (so_intent m),
     of_instrument_id = oi_instrument_id (so_intent m), of_side = oi_side (so_intent m),
     of_quantity = er_filled_quantity r, of_price = the (er_fill_price r), of_commission = er_commission r,
     of_slippage = er_slippage r, of_account_id = oi_account_id (so_intent m),
     of_intent_id = oi_intent_id (so_intent m)\<rparr>"

definition full_fill :: "submit_order \<Rightarrow> execution_report \<Rightarrow> bool" where
  "full_fill m r \<longleftrightarrow> er_broker_order_id r = so_broker_order_id m \<and> er_status r = RepFilled \<and>
     er_filled_quantity r = oi_quantity (so_intent m) \<and> 0 < er_filled_quantity r \<and>
     (\<exists>px. er_fill_price r = Some px \<and> 0 \<le> px) \<and> (\<exists>fid. er_fill_id r = Some fid \<and> \<not> blank fid)"

definition account_message :: "om_actor \<Rightarrow> submit_order \<Rightarrow> execution_report \<Rightarrow> apply_fill" where
  "account_message a m r = \<lparr>af_fill = report_fill m r, af_currency = oa_currency a,
     af_multiplier = dict_lookup (oa_multipliers a) (oi_instrument_id (so_intent m)) 1,
     af_fill_time = er_fill_time r\<rparr>"

lemma submit_then_report:
  assumes "submit_ok m a" and "full_fill m r"
  shows "\<exists>a1 a2. order_handle (SubmitOrder m) a = (Inr ([ToExecution (Execute (submit_request m))], None), a1) \<and>
     (if er_report_id r \<in> om_seen_report_ids (oa_manager a)
      then order_handle (Report r) a1 = (Inr ([], None), a2) \<and> oa_fills a2 = oa_fills a \<and>
           get_order (oi_order_id (so_intent m)) (oa_manager a2) = Inr (submitted m Sent)
      else the (er_fill_id r) \<notin> fs_seen (om_fill_ids (oa_manager a)) \<longrightarrow>
           order_handle (Report r) a1 = (Inr ([ToAccount (ApplyFill (account_message a m r))], None), a2) \<and>
           oa_fills a2 = oa_fills a @ [report_fill m r] \<and>
           get_order (oi_order_id (so_intent m)) (oa_manager a2) = Inr (submitted m Filled))"
proof -
  from submit_step [OF assms(1)] obtain a1 where
    s: "order_handle (SubmitOrder m) a = (Inr ([ToExecution (Execute (submit_request m))], None), a1)" and
    a1: "map_of (om_broker_to_order (oa_manager a1)) (so_broker_order_id m) = Some (oi_order_id (so_intent m))"
      "map_of (om_orders (oa_manager a1)) (oi_order_id (so_intent m)) = Some (submitted m Sent)"
      "map_of (om_machines (oa_manager a1)) (oi_order_id (so_intent m)) = Some Sent"
      "om_fill_ids (oa_manager a1) = om_fill_ids (oa_manager a)"
      "om_seen_report_ids (oa_manager a1) = om_seen_report_ids (oa_manager a)"
      "oa_fills a1 = oa_fills a" "oa_currency a1 = oa_currency a" "oa_multipliers a1 = oa_multipliers a"
      "rh_account_id (oa_handler a1) = oa_account_id a" by blast
  from assms(2) obtain px fid where r: "er_broker_order_id r = so_broker_order_id m" "er_status r = RepFilled"
    "er_fill_price r = Some px" "er_fill_id r = Some fid" "\<not> blank fid" "0 < er_filled_quantity r"
    by (auto simp: full_fill_def)
  have acct: "oa_account_id a = None \<or> oi_account_id (so_intent m) = oa_account_id a" "\<not> blank_opt (oi_intent_id (so_intent m))"
    using assms(1) by (auto simp: submit_ok_def)
  show ?thesis
  proof (cases "er_report_id r \<in> om_seen_report_ids (oa_manager a)")
    case True
    have "process_report r (oa_manager a1) = (Inr \<lparr>pr_order = submitted m Sent, pr_fills = []\<rparr>, oa_manager a1)"
      using True a1 r by (simp add: process_report_def)
    then have "\<exists>a2. order_handle (Report r) a1 = (Inr ([], None), a2) \<and> oa_fills a2 = oa_fills a \<and>
        oa_manager a2 = oa_manager a1"
      using a1 by (auto simp: order_handle_def handle_report_def rh_handle_def)
    with s True a1(2) show ?thesis by (auto simp: get_order_def)
  next
    case False
    have "\<exists>a2. order_handle (Report r) a1 = (Inr ([ToAccount (ApplyFill (account_message a m r))], None), a2) \<and>
        oa_fills a2 = oa_fills a @ [report_fill m r] \<and>
        get_order (oi_order_id (so_intent m)) (oa_manager a2) = Inr (submitted m Filled)"
      if "fid \<notin> fs_seen (om_fill_ids (oa_manager a))"
    proof -
      have "\<exists>m'. process_report r (oa_manager a1) = (Inr \<lparr>pr_order = submitted m Filled, pr_fills = [report_fill m r]\<rparr>, m') \<and>
          get_order (oi_order_id (so_intent m)) m' = Inr (submitted m Filled)"
        using False a1 r acct(2) that
        by (simp add: process_report_def apply_event_def machine_defs replace_order_def Let_def fills_for_report_def
            fs_mark_seen_def ctor_simps checked_def submitted_def report_fill_def get_order_def update_conv')
      then obtain m' where "process_report r (oa_manager a1) = (Inr \<lparr>pr_order = submitted m Filled, pr_fills = [report_fill m r]\<rparr>, m')"
        "get_order (oi_order_id (so_intent m)) m' = Inr (submitted m Filled)" by blast
      then show ?thesis using a1(6-9) acct(1)
        by (auto simp: order_handle_def handle_report_def rh_handle_def account_message_def report_fill_def)
    qed
    with s False r(4) show ?thesis by auto
  qed
qed

section \<open>One delta through the partition\<close>

definition delta_message :: "intent_processor \<Rightarrow> intent_origin \<Rightarrow> order_plan \<Rightarrow> nat \<Rightarrow> risk_decision \<Rightarrow> submit_order" where
  "delta_message ip origin plan n d =
     \<lparr>so_intent = \<lparr>oi_order_id = ip_order_id_prefix ip @ ''-'' @ pad_six n, oi_instrument_id = op_instrument_id plan,
        oi_side = (if op_quantity_delta plan > 0 then BUY else SELL), oi_quantity = dabs (op_quantity_delta plan),
        oi_account_id = Some (op_account_id plan), oi_order_spec = op_order_spec plan, oi_intent_id = op_intent_id plan\<rparr>,
      so_risk_decision = d, so_broker_order_id = ip_broker_order_id_prefix ip @ ''-'' @ pad_six n,
      so_market_price = op_market_price plan, so_account_id = op_account_id plan, so_strategy_id = io_strategy_id origin,
      so_route_metadata = \<lparr>rm_broker_id = ip_broker_id ip, rm_account_id = op_account_id plan,
        rm_strategy_id = io_strategy_id origin, rm_client_order_id = ip_order_id_prefix ip @ ''-client-'' @ pad_six n,
        rm_correlation_id = io_correlation_id origin, rm_contributing_strategy_ids = io_contributing_strategy_ids origin,
        rm_aggregation_decision_id = op_aggregation_decision_id plan\<rparr>,
      so_bar_time = op_order_time plan\<rparr>"

lemma delta_risk_request_checks:
  assumes "delta_risk_request ip origin plan rs = Inr rq"
  shows "0 < dabs (op_quantity_delta plan)" "0 \<le> op_market_price plan" "\<not> blank_opt (op_aggregation_decision_id plan)"
  using assms
  by (auto simp: delta_risk_request_def res_bind_Inr_iff ctor_simps request_checks_def split: if_splits)

lemma delta_submit_message:
  assumes "delta_risk_request ip origin plan rs = Inr rq" and "\<not> blank_opt (op_intent_id plan)"
  shows "delta_submit ip origin plan n d = Inr (delta_message ip origin plan n d)"
    "mk_submit_order (delta_message ip origin plan n d) = Inr (delta_message ip origin plan n d)"
    "\<not> blank (so_broker_order_id (delta_message ip origin plan n d))"
proof -
  have pos: "(dabs (op_quantity_delta plan) \<le> 0) = False"
    using delta_risk_request_checks(1) [OF assms(1)] by (metis leD)
  show "delta_submit ip origin plan n d = Inr (delta_message ip origin plan n d)"
    "mk_submit_order (delta_message ip origin plan n d) = Inr (delta_message ip origin plan n d)"
    "\<not> blank (so_broker_order_id (delta_message ip origin plan n d))"
    using delta_risk_request_checks(3) [OF assms(1)] assms(2)
    by (simp_all add: delta_submit_def delta_order_intent_def delta_route_metadata_def delta_message_def ctor_simps
        checked_def route_checks_def is_space_def pos)
qed

text \<open>The partition serves the account of the plan.\<close>

definition serves :: "om_actor \<Rightarrow> account_id \<Rightarrow> bool" where
  "serves a acct \<longleftrightarrow> (oa_account_id a = None \<or> oa_account_id a = Some acct) \<and> rh_account_id (oa_handler a) = oa_account_id a"

text \<open>The account can book a fill of the instrument.\<close>

definition can_book :: "om_actor \<Rightarrow> account_actor \<Rightarrow> account_id \<Rightarrow> instrument_id \<Rightarrow> string \<Rightarrow> bool" where
  "can_book a c acct i code \<longleftrightarrow> (aa_account_id c = None \<or> aa_account_id c = Some acct) \<and>
     average_holding i (hb_holding (aa_holdings c) i) \<and> 0 < dict_lookup (oa_multipliers a) i 1 \<and>
     normalize_currency (oa_currency a) = Inr code"

lemma stamp_approved [simp]: "decision_approved (stamp_decision origin plan d) = decision_approved d"
  by (simp add: stamp_decision_def decision_approved_def)

lemma process_order_delta_through:
  assumes p: "quiet p" "actors p = (a, x, c)" and nz: "op_quantity_delta plan \<noteq> 0"
    and risk: "delta_risk_request ip origin plan rs = Inr rq" "engine_check (ip_risk_engine ip) rq = Inr d0" "decision_approved d0"
    and m: "m = delta_message ip origin plan n (stamp_decision origin plan d0)"
    and ok: "\<not> blank_opt (op_intent_id plan)"
    and s: "order_handle (SubmitOrder m) a = (Inr ([ToExecution q], None), a1)"
      "execution_handle q x = (Inr ([r], None), x1)"
      "order_handle (Report r) a1 = (Inr (map (\<lambda>f. ToAccount (ApplyFill f)) fs, None), a2)"
      "(fs = [] \<and> c' = c) \<or> (\<exists>f. fs = [f] \<and> account_handle (ApplyFill f) c = (Inr ([], None), c'))"
    and fills: "drop (length (oa_fills a)) (oa_fills a2) = fl"
    and ord: "get_order (oi_order_id (so_intent m)) (oa_manager a2) = Inr ord"
  shows "\<exists>p'. process_order_delta ip origin plan n rs p =
      (Inr \<lparr>pi_orders = [ord], pi_fills = fl, pi_risk_decisions = [stamp_decision origin plan d0]\<rparr>, p') \<and>
     quiet p' \<and> actors p' = (a2, x1, c')"
proof -
  from ask_queries_quiet(1) [OF p] obtain p1 where p1: "ask_fill_count p = (Inr (length (oa_fills a)), p1)"
    "quiet p1" "actors p1 = (a, x, c)" by blast
  from run_partition_submit [OF p1(2,3) s] obtain p2 where p2: "run_partition (tell_orders (SubmitOrder m) p1) = (Inr (), p2)"
    "quiet p2" "actors p2 = (a2, x1, c')" by blast
  from ask_queries_quiet(2) [OF p2(2,3), of "length (oa_fills a)"] fills obtain p3 where
    p3: "ask_fills_since (length (oa_fills a)) p2 = (Inr fl, p3)" "quiet p3" "actors p3 = (a2, x1, c')" by auto
  from ask_queries_quiet(3) [OF p3(2,3) ord] obtain p4 where
    p4: "ask_order (oi_order_id (so_intent m)) p3 = (Inr ord, p4)" "quiet p4" "actors p4 = (a2, x1, c')" by blast
  show ?thesis using nz risk delta_submit_message(1) [OF risk(1) ok, of n "stamp_decision origin plan d0"] p1(1) p2(1) p3(1) p4
    by (auto simp: process_order_delta_def m [symmetric] Let_def)
qed

lemma delta_submit_ok:
  assumes "delta_risk_request ip origin plan rs = Inr rq" "decision_approved d" "\<not> blank_opt (op_intent_id plan)"
    and "serves a (op_account_id plan)"
  shows "submit_ok (delta_message ip origin plan n d) a"
  using delta_submit_message [OF assms(1,3), of n d] assms(2-4)
  by (auto simp: submit_ok_def serves_def delta_message_def)

lemma signed_fill_is_delta:
  assumes "rep28 (op_quantity_delta plan)" "op_quantity_delta plan \<noteq> 0"
    and "er_filled_quantity r = oi_quantity (so_intent (delta_message ip origin plan n d))"
  shows "fill_signed_quantity (report_fill (delta_message ip origin plan n d) r) = op_quantity_delta plan"
  using assms rep28_minus [OF assms(1)]
  by (auto simp: fill_signed_quantity_def report_fill_def delta_message_def dabs_def dneg_def ctx_round_exact)

section \<open>Marks and plans\<close>

lemma mark_loop_one_bar:
  assumes "\<not> ix_is_continuous x (tg_instrument_id intent)" and "list_all (\<lambda>(i, p). p = price_for_execution_bar (ix_timing x) b) marks"
  shows "\<exists>marks'. mark_loop x intent b is marks = Inr marks' \<and>
     list_all (\<lambda>(i, p). p = price_for_execution_bar (ix_timing x) b) marks' \<and>
     fst ` set marks' = fst ` set marks \<union> set is"
  using assms(2)
proof (induction "is" arbitrary: marks)
  case (Cons i "is")
  show ?case
  proof (cases "map_of marks i")
    case None
    let ?m = "AList.update i (price_for_execution_bar (ix_timing x) b) marks"
    have "list_all (\<lambda>(i, p). p = price_for_execution_bar (ix_timing x) b) ?m"
      using Cons.prems by (induction marks) auto
    from Cons.IH [OF this] None assms(1) show ?thesis
      by (auto simp: market_price_for_intent_def dom_update)
  next
    case (Some p)
    with Cons.IH [OF Cons.prems] show ?thesis by (force dest: map_of_SomeD)
  qed
qed simp

lemma roll_plans_Inr:
  assumes "roll_plans x intent account b agg target related ps = Inr plans"
  shows "map (\<lambda>q. (op_instrument_id q, op_quantity_delta q)) plans =
    map (\<lambda>(i, h). (i, dneg (h_quantity h)))
      (filter (\<lambda>(i, h). i \<noteq> target \<and> i \<in> set related \<and> h_quantity h \<noteq> 0) ps)"
  using assms
  by (induction x intent account b agg target related ps arbitrary: plans rule: roll_plans.induct)
     (auto simp: res_bind_Inr_iff plan_for_def split: if_splits)

section \<open>Samples\<close>

definition sample_cell :: "'s \<Rightarrow> ('s, 'm, 'r) cell" where
  "sample_cell s = \<lparr>c_mailbox = [], c_actor = s, c_failure_sink = False, c_failures = [], c_answers = []\<rparr>"

definition sample_partition :: partition where
  "sample_partition = \<lparr>pt_order = sample_cell (oa_init (Some ''A1'') [] ''USD'' None),
     pt_execution = sample_cell (simulated_port sample_adapter), pt_account = sample_cell sample_account\<rparr>"

definition sample_processor :: intent_processor where
  "sample_processor = \<lparr>ip_risk_engine = \<lparr>re_rules = [], re_require_live_market_data = False\<rparr>,
     ip_context = ix_init (Some sample_roll) None, ip_multiplier_for = (\<lambda>i. Inr 1), ip_broker_id = ''sim'',
     ip_order_id_prefix = ''bt'', ip_broker_order_id_prefix = ''sim'', ip_margin_calculator = None, ip_intraday = None\<rparr>"

definition sample_origin :: intent_origin where
  "sample_origin = \<lparr>io_strategy_id = ''S1'', io_correlation_id = ''k1'', io_contributing_strategy_ids = [],
     io_conflict_reason = None, io_market_data = None\<rparr>"

definition sample_bar :: "instant \<Rightarrow> bar" where
  "sample_bar t = \<lparr>b_instrument_id = ''GC'', b_start_time = t - 1, b_end_time = t, b_timeframe = ''1m'', b_session_id = ''d1'',
     b_open = 100, b_high = 110, b_low = 90, b_close = 105, b_volume = 10, b_vwap = None, b_open_interest = None,
     b_trade_count = None, b_is_complete = True, b_is_partial = False, b_is_synthetic = False\<rparr>"

definition sample_target :: "instrument_id \<Rightarrow> decimal \<Rightarrow> target_intent" where
  "sample_target i v = \<lparr>tg_instrument_id = i, tg_intent_type = QUANTITY, tg_value = Some v, tg_intent_id = ''I1'',
     tg_order_spec = default_order_spec\<rparr>"

definition sample_plan :: order_plan where
  "sample_plan = plan_for (sample_target ''GC'' (-3)) ''A1'' (sample_bar 15) None ''GC'' (-3) 100"

definition sample_message :: submit_order where
  "sample_message = delta_message sample_processor sample_origin sample_plan 1
     (stamp_decision sample_origin sample_plan (approve None [] []))"

text \<open>The same partition after order number one was reported.\<close>

definition sample_used_partition :: partition where
  "sample_used_partition = sample_partition\<lparr>pt_order := sample_cell
     (set_manager (om_init\<lparr>om_seen_report_ids := {''sim-000001-report-1''}\<rparr>) (oa_init (Some ''A1'') [] ''USD'' None))\<rparr>"

lemma sample_risk:
  "\<exists>rq. delta_risk_request sample_processor sample_origin sample_plan None = Inr rq \<and>
     engine_check (ip_risk_engine sample_processor) rq = Inr (approve None [] [])"
proof -
  have "case delta_risk_request sample_processor sample_origin sample_plan None of
      Inl e \<Rightarrow> False | Inr rq \<Rightarrow> engine_check (ip_risk_engine sample_processor) rq = Inr (approve None [] [])"
    by code_simp
  then show ?thesis by (auto split: sum.splits)
qed

lemma sample_execution:
  "\<exists>r. xp_execute (simulated_port sample_adapter) (submit_request sample_message) = Inr r \<and> full_fill sample_message r \<and>
     er_report_id r = ''sim-000001-report-1''"
proof -
  have "case xp_execute (simulated_port sample_adapter) (submit_request sample_message) of Inl e \<Rightarrow> False
     | Inr r \<Rightarrow> er_broker_order_id r = so_broker_order_id sample_message \<and> er_status r = RepFilled \<and>
         er_filled_quantity r = oi_quantity (so_intent sample_message) \<and> 0 < er_filled_quantity r \<and>
         (case er_fill_price r of None \<Rightarrow> False | Some px \<Rightarrow> 0 \<le> px) \<and>
         (case er_fill_id r of None \<Rightarrow> False | Some fid \<Rightarrow> \<not> blank fid) \<and> er_report_id r = ''sim-000001-report-1''"
    by code_simp
  then show ?thesis by (auto simp: full_fill_def split: sum.splits option.splits)
qed

section \<open>Properties\<close>

text \<open>C1. An approved order is booked end to end: from a partition with no message waiting, a delta the
  risk engine approves is submitted, executed and reported, and if the adapter fills it in full under
  new ids, the answer is the order in state FILLED with that one fill, the account's position moves
  by exactly the delta and its cash by the fill's cash amount, no other instrument or currency
  changes, and no message is left waiting.\<close>

theorem approved_delta_is_booked:
  assumes "quiet p" "actors p = (a, x, c)" and "op_quantity_delta plan \<noteq> 0" "rep28 (op_quantity_delta plan)"
    and "delta_risk_request ip origin plan rs = Inr rq" "engine_check (ip_risk_engine ip) rq = Inr d0" "decision_approved d0"
    and "\<not> blank_opt (op_intent_id plan)" "serves a (op_account_id plan)"
    and "can_book a c (op_account_id plan) (op_instrument_id plan) code"
    and "m = delta_message ip origin plan n (stamp_decision origin plan d0)"
    and "execution_handle (Execute (submit_request m)) x = (Inr ([r], None), x)" "full_fill m r"
    and "er_report_id r \<notin> om_seen_report_ids (oa_manager a)"
    and "the (er_fill_id r) \<notin> fs_seen (om_fill_ids (oa_manager a)) \<union> fs_seen (aa_fill_ids c)"
  shows "\<exists>p' a' c'. process_order_delta ip origin plan n rs p =
      (Inr \<lparr>pi_orders = [submitted m Filled], pi_fills = [report_fill m r],
            pi_risk_decisions = [stamp_decision origin plan d0]\<rparr>, p') \<and>
     quiet p' \<and> actors p' = (a', x, c') \<and>
     hb_quantity (aa_holdings c') = (hb_quantity (aa_holdings c))
       (op_instrument_id plan := dadd (hb_quantity (aa_holdings c) (op_instrument_id plan)) (op_quantity_delta plan)) \<and>
     cb_code_balance (aa_cash c') = (cb_code_balance (aa_cash c))
       (code := dadd (cb_code_balance (aa_cash c) code) (fill_cash_delta (account_message a m r)))"
proof -
  let ?f = "account_message a m r"
  have ok: "submit_ok m a" unfolding assms(11)
    by (rule delta_submit_ok) (use assms in simp_all)
  have f: "of_instrument_id (af_fill ?f) = op_instrument_id plan" "of_account_id (af_fill ?f) = Some (op_account_id plan)"
    "of_fill_id (af_fill ?f) = the (er_fill_id r)" "0 \<le> of_price (af_fill ?f)" "of_quantity (af_fill ?f) \<noteq> 0"
    "\<not> blank (the (er_fill_id r))" "af_multiplier ?f = dict_lookup (oa_multipliers a) (op_instrument_id plan) 1"
    "af_currency ?f = oa_currency a"
    using assms(13) by (auto simp: account_message_def report_fill_def full_fill_def assms(11) delta_message_def)
  have s: "fill_signed_quantity (af_fill ?f) = op_quantity_delta plan"
    using signed_fill_is_delta [OF assms(4,3)] assms(13)
    by (simp add: assms(11) account_message_def full_fill_def)
  from submit_then_report [OF ok assms(13)] assms(14,15) obtain a1 a2 where sub:
    "order_handle (SubmitOrder m) a = (Inr ([ToExecution (Execute (submit_request m))], None), a1)"
    "order_handle (Report r) a1 = (Inr ([ToAccount (ApplyFill ?f)], None), a2)"
    "oa_fills a2 = oa_fills a @ [report_fill m r]"
    "get_order (oi_order_id (so_intent m)) (oa_manager a2) = Inr (submitted m Filled)" by auto
  have "\<exists>c'. aa_apply_fill ?f c = (Inr (), c') \<and>
     hb_quantity (aa_holdings c') = (hb_quantity (aa_holdings c)) (op_instrument_id plan :=
        dadd (hb_quantity (aa_holdings c) (op_instrument_id plan)) (op_quantity_delta plan)) \<and>
     cb_code_balance (aa_cash c') = (cb_code_balance (aa_cash c))
       (code := dadd (cb_code_balance (aa_cash c) code) (fill_cash_delta ?f))"
    using aa_apply_fill_accounts [of c ?f code, unfolded f s] f assms(10,15) by (auto simp: can_book_def)
  then obtain c' where c': "account_handle (ApplyFill ?f) c = (Inr ([], None), c')"
    "hb_quantity (aa_holdings c') = (hb_quantity (aa_holdings c)) (op_instrument_id plan :=
        dadd (hb_quantity (aa_holdings c) (op_instrument_id plan)) (op_quantity_delta plan))"
    "cb_code_balance (aa_cash c') = (cb_code_balance (aa_cash c))
       (code := dadd (cb_code_balance (aa_cash c) code) (fill_cash_delta ?f))"
    by (auto simp: account_handle_def)
  from process_order_delta_through [OF assms(1,2,3,5,6,7,11,8) sub(1) assms(12), of "[?f]" a2 c' "[report_fill m r]" "submitted m Filled"]
    sub c' show ?thesis by auto
qed

theorem approved_delta_is_booked_witness:
  "\<exists>p' c' ord f d a x. process_order_delta sample_processor sample_origin sample_plan 1 None sample_partition =
      (Inr \<lparr>pi_orders = [ord], pi_fills = [f], pi_risk_decisions = [d]\<rparr>, p') \<and> or_state ord = Filled \<and>
     quiet p' \<and> actors p' = (a, x, c') \<and> hb_quantity (aa_holdings c') ''GC'' = -3"
proof -
  define a where "a = oa_init (Some ''A1'') [] ''USD'' None"
  define x where "x = simulated_port sample_adapter"
  define c where "c = sample_account"
  have p: "quiet sample_partition" "actors sample_partition = (a, x, c)"
    by (simp_all add: quiet_def actors_def sample_partition_def sample_cell_def a_def x_def c_def)
  have nz: "op_quantity_delta sample_plan \<noteq> 0" by (simp add: sample_plan_def plan_for_def)
  have rep: "rep28 (op_quantity_delta sample_plan)"
    using rep28_of_int [of "-3"] by (simp add: sample_plan_def plan_for_def)
  from sample_risk obtain rq where rq: "delta_risk_request sample_processor sample_origin sample_plan None = Inr rq"
    "engine_check (ip_risk_engine sample_processor) rq = Inr (approve None [] [])" by blast
  define m where "m = sample_message"
  note m_def' = m_def [unfolded sample_message_def]
  from sample_execution obtain r where r: "xp_execute x (submit_request m) = Inr r" "full_fill m r"
    unfolding x_def m_def by blast
  have x: "execution_handle (Execute (submit_request m)) x = (Inr ([r], None), x)"
    using r(1) by (simp add: execution_handle_def x_def simulated_port_def)
  have book: "can_book a c (op_account_id sample_plan) (op_instrument_id sample_plan) ''USD''"
    unfolding a_def c_def by code_simp
  have rest: "decision_approved (approve None [] [])" "\<not> blank_opt (op_intent_id sample_plan)"
    "serves a (op_account_id sample_plan)" "er_report_id r \<notin> om_seen_report_ids (oa_manager a)"
    "the (er_fill_id r) \<notin> fs_seen (om_fill_ids (oa_manager a)) \<union> fs_seen (aa_fill_ids c)"
    "dadd (hb_quantity (aa_holdings c) ''GC'') (op_quantity_delta sample_plan) = -3"
    "op_instrument_id sample_plan = ''GC''"
    by (simp_all add: a_def c_def oa_init_def om_init_def serves_def sample_plan_def plan_for_def sample_target_def
        sample_account_def aa_init_def blank_opt_def is_space_def) code_simp+
  from approved_delta_is_booked [OF p nz rep rq rest(1,2,3) book m_def' x r(2) rest(4,5)] obtain p' a' c' where
    "process_order_delta sample_processor sample_origin sample_plan 1 None sample_partition =
      (Inr \<lparr>pi_orders = [submitted m Filled], pi_fills = [report_fill m r],
            pi_risk_decisions = [stamp_decision sample_origin sample_plan (approve None [] [])]\<rparr>, p')"
    "quiet p'" "actors p' = (a', x, c')"
    "hb_quantity (aa_holdings c') = (hb_quantity (aa_holdings c)) (op_instrument_id sample_plan :=
       dadd (hb_quantity (aa_holdings c) (op_instrument_id sample_plan)) (op_quantity_delta sample_plan))"
    by blast
  with rest(6,7) show ?thesis by (intro exI conjI) (assumption | simp add: submitted_def)+
qed

text \<open>C11. A refused delta leaves no trace: when the engine rejects it, or the account's equity is not
  positive so that no risk request can be built, no order is created and the partition is exactly as
  before; the rejection is returned as a decision, the missing equity as a \<open>ValueError\<close>.\<close>

theorem refused_delta_leaves_no_trace:
  assumes "op_quantity_delta plan \<noteq> 0"
  shows "(\<forall>rq d. delta_risk_request ip origin plan rs = Inr rq \<and> engine_check (ip_risk_engine ip) rq = Inr d \<and>
        \<not> decision_approved d \<longrightarrow>
      process_order_delta ip origin plan n rs p =
        (Inr \<lparr>pi_orders = [], pi_fills = [], pi_risk_decisions = [stamp_decision origin plan d]\<rparr>, p)) \<and>
    (\<forall>s mul. rs = Some s \<and> rs_account_equity s \<le> 0 \<and> ip_multiplier_for ip (op_instrument_id plan) = Inr mul \<longrightarrow>
      (\<exists>e. process_order_delta ip origin plan n rs p = (Inl (ValueError e), p)))"
proof -
  have "\<exists>e. delta_risk_request ip origin plan (Some s) = Inl (ValueError e)"
    if "rs_account_equity s \<le> 0" "ip_multiplier_for ip (op_instrument_id plan) = Inr mul" for s mul
    using that by (auto simp: delta_risk_request_def ctor_simps request_checks_def res_bind_def checked_def Let_def)
  then show ?thesis using assms by (auto simp: process_order_delta_def Let_def) fastforce
qed

theorem refused_delta_leaves_no_trace_witness:
  "\<exists>e. process_order_delta sample_processor sample_origin sample_plan 1
     (Some \<lparr>rs_account_equity = 0, rs_current_exposure = 0, rs_notional = [], rs_position = [], rs_intraday_pnl = 0,
       rs_current_margin_requirement = 0, rs_available_margin = 0\<rparr>) sample_partition = (Inl (ValueError e), sample_partition)"
proof -
  have "op_quantity_delta sample_plan \<noteq> 0" by (simp add: sample_plan_def plan_for_def)
  from refused_delta_leaves_no_trace [OF this] show ?thesis by (simp add: sample_processor_def)
qed

text \<open>A reused order number loses its fill: if the adapter answers a submission with a report id the
  order manager has already processed, the order stays SENT, no fill is returned, and the account is
  untouched, although the adapter has filled the order.\<close>

theorem reused_report_id_loses_fill:
  assumes "quiet p" "actors p = (a, x, c)" and "op_quantity_delta plan \<noteq> 0"
    and "delta_risk_request ip origin plan rs = Inr rq" "engine_check (ip_risk_engine ip) rq = Inr d0" "decision_approved d0"
    and "\<not> blank_opt (op_intent_id plan)" "serves a (op_account_id plan)"
    and "m = delta_message ip origin plan n (stamp_decision origin plan d0)"
    and "execution_handle (Execute (submit_request m)) x = (Inr ([r], None), x)" "full_fill m r"
    and "er_report_id r \<in> om_seen_report_ids (oa_manager a)"
  shows "\<exists>p' a'. process_order_delta ip origin plan n rs p =
      (Inr \<lparr>pi_orders = [submitted m Sent], pi_fills = [], pi_risk_decisions = [stamp_decision origin plan d0]\<rparr>, p') \<and>
     quiet p' \<and> actors p' = (a', x, c)"
proof -
  have ok: "submit_ok m a" unfolding assms(9)
    by (rule delta_submit_ok) (use assms in simp_all)
  from submit_then_report [OF ok assms(11)] assms(12) obtain a1 a2 where sub:
    "order_handle (SubmitOrder m) a = (Inr ([ToExecution (Execute (submit_request m))], None), a1)"
    "order_handle (Report r) a1 = (Inr ([], None), a2)" "oa_fills a2 = oa_fills a"
    "get_order (oi_order_id (so_intent m)) (oa_manager a2) = Inr (submitted m Sent)" by auto
  from process_order_delta_through [OF assms(1,2,3,4,5,6,9,7) sub(1) assms(10), of "[]" a2 c "[]" "submitted m Sent"] sub
  show ?thesis by auto
qed

theorem reused_report_id_loses_fill_witness:
  "\<exists>p' ord d. process_order_delta sample_processor sample_origin sample_plan 1 None sample_used_partition =
      (Inr \<lparr>pi_orders = [ord], pi_fills = [], pi_risk_decisions = [d]\<rparr>, p') \<and> or_state ord = Sent"
proof -
  define a where "a = c_actor (pt_order sample_used_partition)"
  define x where "x = simulated_port sample_adapter"
  have p: "quiet sample_used_partition" "actors sample_used_partition = (a, x, sample_account)"
    by (simp_all add: quiet_def actors_def sample_used_partition_def sample_partition_def sample_cell_def a_def x_def)
  have nz: "op_quantity_delta sample_plan \<noteq> 0" by (simp add: sample_plan_def plan_for_def)
  from sample_risk obtain rq where rq: "delta_risk_request sample_processor sample_origin sample_plan None = Inr rq"
    "engine_check (ip_risk_engine sample_processor) rq = Inr (approve None [] [])" by blast
  from sample_execution obtain r where r: "xp_execute x (submit_request sample_message) = Inr r" "full_fill sample_message r"
    "er_report_id r = ''sim-000001-report-1''" unfolding x_def by blast
  have x: "execution_handle (Execute (submit_request sample_message)) x = (Inr ([r], None), x)"
    using r(1) by (simp add: execution_handle_def x_def simulated_port_def)
  have rest: "\<not> blank_opt (op_intent_id sample_plan)" "serves a (op_account_id sample_plan)"
    "er_report_id r \<in> om_seen_report_ids (oa_manager a)"
    by (simp_all add: a_def oa_init_def serves_def sample_plan_def plan_for_def sample_target_def set_manager_def
        sample_used_partition_def sample_partition_def sample_cell_def blank_opt_def is_space_def r(3))
  from reused_report_id_loses_fill [OF p nz rq approve_approved rest(1,2) sample_message_def x r(2) rest(3)]
  show ?thesis by (force simp: submitted_def)
qed

text \<open>Marks ignore which instrument is held: for an intent on an instrument that is not a continuous
  future, every position of the account, whatever its instrument, is marked at the price of the
  intent's bar.\<close>

theorem held_instruments_marked_at_intent_bar:
  assumes "\<not> ix_is_continuous x (tg_instrument_id intent)"
  shows "\<exists>marks. build_mark_map x intent b positions = Inr marks \<and>
     (\<forall>i. i = tg_instrument_id intent \<or> i \<in> set (dict_keys positions) \<longrightarrow>
        map_of marks i = Some (price_for_execution_bar (ix_timing x) b))"
proof -
  let ?px = "price_for_execution_bar (ix_timing x) b"
  from mark_loop_one_bar [OF assms, of b "[(tg_instrument_id intent, ?px)]" "dict_keys positions"] obtain marks where
    m: "mark_loop x intent b (dict_keys positions) [(tg_instrument_id intent, ?px)] = Inr marks"
      "list_all (\<lambda>(i, p). p = ?px) marks" "fst ` set marks = {tg_instrument_id intent} \<union> set (dict_keys positions)" by auto
  have "map_of marks i = Some ?px" if "i \<in> fst ` set marks" for i
  proof -
    from that obtain v where v: "map_of marks i = Some v" by (metis map_of_eq_None_iff not_None_eq)
    then have "(i, v) \<in> set marks" by (rule map_of_SomeD)
    with m(2) v show ?thesis by (auto simp: list_all_iff)
  qed
  with m assms show ?thesis
    by (auto simp: build_mark_map_def order_instrument_for_intent_def market_price_for_intent_def)
qed

theorem held_instruments_marked_at_intent_bar_witness:
  "\<exists>marks. build_mark_map (ix_init None None) (sample_target ''GC'' 1) (sample_bar 15)
     [(''BOND'', hb_holding (hb_init [] AVERAGE) ''BOND'')] = Inr marks \<and> map_of marks ''BOND'' = Some 100"
proof -
  have "\<not> ix_is_continuous (ix_init None None) (tg_instrument_id (sample_target ''GC'' 1))"
    by (simp add: ix_is_continuous_def ix_init_def)
  from held_instruments_marked_at_intent_bar [OF this, of "sample_bar 15"
      "[(''BOND'', hb_holding (hb_init [] AVERAGE) ''BOND'')]"]
  show ?thesis by (auto simp: price_for_execution_bar_def ix_init_def sample_bar_def)
qed

text \<open>The session's order numbers overlap: each intent takes the counter's next value as its first
  order number and its further plans take the numbers after it, but the counter advances by one per
  intent. Whatever an intent does, the second plan of an intent and the first plan of the next
  intent are submitted under the same order id, broker order id and client order id.\<close>

theorem session_order_numbers_overlap:
  "let s1 = fst (snd (session_process_intent pa i1 b1 acct o1 agg1 (s, p)));
       n1 = ss_order_sequence s + 1; n2 = ss_order_sequence s1 + 1;
       second = delta_message ip o1 plan_b (n1 + 1) d; following = delta_message ip o2 plan_c n2 d'
   in oi_order_id (so_intent second) = oi_order_id (so_intent following) \<and>
      so_broker_order_id second = so_broker_order_id following \<and>
      rm_client_order_id (so_route_metadata second) = rm_client_order_id (so_route_metadata following)"
proof -
  have "ss_order_sequence (fst (snd (session_process_intent pa i1 b1 acct o1 agg1 (s, p)))) = ss_order_sequence s + 1"
    by (simp add: session_process_intent_def Let_def split: option.splits prod.splits)
  then show ?thesis by (simp add: Let_def delta_message_def)
qed

end
