(* ===== verification/Signal_Aggregation.thy ===== *)
theory Signal_Aggregation
  imports Intent_Processing
begin

text \<open>
  From the intents of many strategies to the intents that are traded: \<open>runtime/signal_policy.py\<close>,
  \<open>runtime/actors/signal_aggregator_actor.py\<close> and the strategy dispatch of
  \<open>runtime/market_data_coordinator.py\<close>.

  The text of an instant and the hash of the decision id are parameters (\<open>id_text\<close>). The raw intents of a
  strategy are a parameter too: strategies are user code.

  Properties: aggregation accounts for every contribution once; what each policy decides; netting does not
  depend on the order of the strategies; the first intent's kind decides how the net is read.
\<close>

section \<open>Policies (\<open>signal_policy.py\<close>)\<close>

datatype aggregation_policy = SUM_TARGETS | PRIORITY_WINS | WEIGHTED_NET | REJECT_CONFLICT

record contribution =
  sc_strategy_id :: strategy_id
  sc_intent :: target_intent
  sc_policy :: aggregation_policy
  sc_priority :: int
  sc_weight :: decimal
  sc_conflict_group :: string

definition mk_contribution :: "contribution \<Rightarrow> contribution res" where
  [ctor_simps]: "mk_contribution c = checked
     [(sc_weight c < 0, ValueError ''signal weight must be non-negative''),
      (blank (sc_conflict_group c), ValueError ''conflict_group must not be empty'')] c"

record signal_conflict =
  cf_instrument_key :: string
  cf_strategy_ids :: "strategy_id list"
  cf_reason :: string

record aggregation_decision =
  ad_policy :: aggregation_policy
  ad_intents :: "target_intent list"
  ad_contributing :: "strategy_id list"
  ad_rejected :: "strategy_id list"
  ad_conflicts :: "signal_conflict list"
  ad_conflict_reason :: string
  ad_before_risk :: "decimal option"
  ad_after_aggregation :: "decimal option"

definition empty_decision :: "aggregation_policy \<Rightarrow> aggregation_decision" where
  "empty_decision p = \<lparr>ad_policy = p, ad_intents = [], ad_contributing = [], ad_rejected = [], ad_conflicts = [],
     ad_conflict_reason = '''', ad_before_risk = None, ad_after_aggregation = None\<rparr>"

definition sign_of :: "decimal option \<Rightarrow> decimal" where
  "sign_of v = (case v of None \<Rightarrow> 0 | Some x \<Rightarrow> if x = 0 then 0 else if x > 0 then 1 else - 1)"

definition direction_signs :: "contribution list \<Rightarrow> decimal list" where
  "direction_signs cs =
     map (\<lambda>c. sign_of (tg_value (sc_intent c)))
       (filter (\<lambda>c. tg_value (sc_intent c) \<noteq> None \<and> tg_value (sc_intent c) \<noteq> Some 0) cs)"

definition has_direction_conflict :: "contribution list \<Rightarrow> bool" where
  "has_direction_conflict cs \<longleftrightarrow> - 1 \<in> set (direction_signs cs) \<and> 1 \<in> set (direction_signs cs)"

definition conflict_of :: "contribution list \<Rightarrow> signal_conflict" where
  "conflict_of cs = \<lparr>cf_instrument_key = tg_instrument_id (sc_intent (hd cs)), cf_strategy_ids = map sc_strategy_id cs,
     cf_reason = ''opposite directions for target quantity''\<rparr>"

text \<open>\<open>max(..., key=priority)\<close> with the position of the winner: the first of the highest priority.\<close>

fun highest_priority :: "nat \<Rightarrow> nat \<times> contribution \<Rightarrow> contribution list \<Rightarrow> nat \<times> contribution" where
  "highest_priority n w [] = w"
| "highest_priority n w (c # cs) = highest_priority (Suc n) (if sc_priority c > sc_priority (snd w) then (n, c) else w) cs"

definition priority_wins :: "aggregation_policy \<Rightarrow> contribution list \<Rightarrow> aggregation_decision" where
  "priority_wins p cs =
     (case highest_priority 1 (0, hd cs) (tl cs) of (n, winner) \<Rightarrow>
        (empty_decision p)\<lparr>ad_intents := [sc_intent winner], ad_contributing := [sc_strategy_id winner],
           ad_rejected := map sc_strategy_id (take n cs @ drop (Suc n) cs),
           ad_before_risk := tg_value (sc_intent winner), ad_after_aggregation := tg_value (sc_intent winner)\<rparr>)"

definition net_total :: "contribution list \<Rightarrow> bool \<Rightarrow> decimal" where
  "net_total cs weighted =
     foldl (\<lambda>total c. let value = (case tg_value (sc_intent c) of None \<Rightarrow> 0 | Some v \<Rightarrow> v)
       in dadd total (if weighted then dmul value (sc_weight c) else value)) 0 cs"

definition net_targets :: "aggregation_policy \<Rightarrow> contribution list \<Rightarrow> bool \<Rightarrow> aggregation_decision" where
  "net_targets p cs weighted =
     (let total = net_total cs weighted
      in \<lparr>ad_policy = p, ad_intents = [(sc_intent (hd cs))\<lparr>tg_value := Some total\<rparr>],
          ad_contributing = map sc_strategy_id cs, ad_rejected = [],
          ad_conflicts = (if has_direction_conflict cs then [conflict_of cs] else []),
          ad_conflict_reason = (if has_direction_conflict cs then ''opposite directions netted'' else ''''),
          ad_before_risk = Some total, ad_after_aggregation = Some total\<rparr>)"

definition policy_aggregate :: "aggregation_policy \<Rightarrow> contribution list \<Rightarrow> aggregation_decision" where
  "policy_aggregate p cs =
     (if cs = [] then empty_decision p
      else if p = PRIORITY_WINS then priority_wins p cs
      else if p = REJECT_CONFLICT \<and> has_direction_conflict cs
        then (empty_decision p)\<lparr>ad_rejected := map sc_strategy_id cs, ad_conflicts := [conflict_of cs],
               ad_conflict_reason := ''opposite directions for target quantity''\<rparr>
      else net_targets p cs (p = WEIGHTED_NET))"

section \<open>Signal aggregator actor (\<open>signal_aggregator_actor.py\<close>)\<close>

record signal_event =
  se_bar :: bar
  se_intents :: "target_intent list"
  se_account_id :: "account_id option"
  se_correlation_id :: "string option"
  se_strategy_id :: "strategy_id option"
  se_contributions :: "contribution list"
  se_conflict_group :: string
  se_weight :: decimal
  se_priority :: int
  se_policy :: aggregation_policy

record signal_batch =
  bt_bar :: bar
  bt_intents :: "target_intent list"
  bt_decision_id :: "string option"
  bt_account_id :: "account_id option"
  bt_instrument_id :: instrument_id
  bt_correlation_id :: "string option"
  bt_contributing :: "strategy_id list"
  bt_rejected :: "strategy_id list"
  bt_conflicts :: "signal_conflict list"
  bt_conflict_reason :: string
  bt_policy :: aggregation_policy
  bt_conflict_group :: string
  bt_before_risk :: "decimal option"
  bt_after_aggregation :: "decimal option"

datatype signal_msg = SignalEvent signal_event | OtherSignalMsg string

record id_text =
  tx_isoformat :: "instant \<Rightarrow> string"
  tx_sha256_prefix :: "ftext \<Rightarrow> string"

definition policy_value :: "aggregation_policy \<Rightarrow> string" where
  "policy_value p = (case p of SUM_TARGETS \<Rightarrow> ''sum_targets'' | PRIORITY_WINS \<Rightarrow> ''priority_wins''
     | WEIGHTED_NET \<Rightarrow> ''weighted_net'' | REJECT_CONFLICT \<Rightarrow> ''reject_conflict'')"

definition intent_type_value :: "target_intent_type \<Rightarrow> string" where
  "intent_type_value t = (case t of PERCENT \<Rightarrow> ''percent'' | QUANTITY \<Rightarrow> ''quantity'' | VALUE \<Rightarrow> ''value'' | CLOSE \<Rightarrow> ''close'')"

fun join_frags :: "string \<Rightarrow> ftext list \<Rightarrow> ftext" where
  "join_frags sep [] = []"
| "join_frags sep [t] = t"
| "join_frags sep (t # ts) = t @ Lit sep # join_frags sep ts"

definition decision_payload ::
  "id_text \<Rightarrow> bar \<Rightarrow> account_id option \<Rightarrow> string option \<Rightarrow> instrument_id \<Rightarrow> string \<Rightarrow> aggregation_policy \<Rightarrow> contribution list \<Rightarrow> ftext" where
  "decision_payload x b account correlation i grp p cs = join_frags ''|''
     [[Str (case account of None \<Rightarrow> '''' | Some a \<Rightarrow> a)], [Str (case correlation of None \<Rightarrow> '''' | Some c \<Rightarrow> c)], [Str i],
      [Str (tx_isoformat x (b_start_time b))], [Str (tx_isoformat x (b_end_time b))], [Str grp], [Str (policy_value p)],
      join_frags '';'' (map (\<lambda>c. [Str (sc_strategy_id c), Lit '':'', Str (intent_type_value (tg_intent_type (sc_intent c))), Lit '':'',
        (case tg_value (sc_intent c) of None \<Rightarrow> Lit ''None'' | Some v \<Rightarrow> Num v)]) cs)]"

definition decision_id ::
  "id_text \<Rightarrow> bar \<Rightarrow> account_id option \<Rightarrow> string option \<Rightarrow> instrument_id \<Rightarrow> string \<Rightarrow> aggregation_policy \<Rightarrow> contribution list \<Rightarrow> string" where
  "decision_id x b account correlation i grp p cs = ''sigagg-'' @ tx_sha256_prefix x (decision_payload x b account correlation i grp p cs)"

definition event_contributions :: "signal_event \<Rightarrow> contribution list res" where
  "event_contributions e =
     (if se_contributions e \<noteq> [] then Inr (se_contributions e)
      else case se_strategy_id e of
        None \<Rightarrow> Inr []
      | Some s \<Rightarrow> res_map (\<lambda>i. mk_contribution \<lparr>sc_strategy_id = s, sc_intent = i, sc_policy = se_policy e, sc_priority = se_priority e,
            sc_weight = se_weight e, sc_conflict_group = se_conflict_group e\<rparr>) (se_intents e))"

type_synonym group_key = "instrument_id \<times> string \<times> aggregation_policy"

definition group_key_of :: "contribution \<Rightarrow> group_key" where
  "group_key_of c = (tg_instrument_id (sc_intent c), sc_conflict_group c, sc_policy c)"

definition group_contributions :: "contribution list \<Rightarrow> (group_key, contribution list) dict" where
  "group_contributions cs = foldl (\<lambda>d c. AList.update (group_key_of c) (dict_lookup d (group_key_of c) [] @ [c]) d) [] cs"

definition plain_batch :: "signal_event \<Rightarrow> signal_batch" where
  "plain_batch e = \<lparr>bt_bar = se_bar e, bt_intents = [], bt_decision_id = None, bt_account_id = se_account_id e,
     bt_instrument_id = b_instrument_id (se_bar e), bt_correlation_id = se_correlation_id e, bt_contributing = [], bt_rejected = [],
     bt_conflicts = [], bt_conflict_reason = '''', bt_policy = SUM_TARGETS, bt_conflict_group = ''default'',
     bt_before_risk = None, bt_after_aggregation = None\<rparr>"

definition group_batch :: "id_text \<Rightarrow> signal_event \<Rightarrow> group_key \<times> contribution list \<Rightarrow> signal_batch" where
  "group_batch x e = (\<lambda>((i, grp, p), cs).
     let d = policy_aggregate p cs
     in \<lparr>bt_bar = se_bar e, bt_intents = ad_intents d,
         bt_decision_id = Some (decision_id x (se_bar e) (se_account_id e) (se_correlation_id e) i grp (ad_policy d) cs),
         bt_account_id = se_account_id e, bt_instrument_id = i, bt_correlation_id = se_correlation_id e,
         bt_contributing = ad_contributing d, bt_rejected = ad_rejected d, bt_conflicts = ad_conflicts d,
         bt_conflict_reason = ad_conflict_reason d, bt_policy = ad_policy d, bt_conflict_group = grp,
         bt_before_risk = ad_before_risk d, bt_after_aggregation = ad_after_aggregation d\<rparr>)"

text \<open>The messages the handler tells its result reference, in order.\<close>

definition aggregator_handle :: "id_text \<Rightarrow> signal_msg \<Rightarrow> signal_batch list res" where
  "aggregator_handle x m =
     (case m of
        OtherSignalMsg n \<Rightarrow> Inl (ActorUnhandledMessageError n)
      | SignalEvent e \<Rightarrow>
          if se_strategy_id e = None \<and> se_contributions e = []
          then Inr [(plain_batch e)\<lparr>bt_intents := se_intents e, bt_conflict_group := se_conflict_group e, bt_policy := se_policy e\<rparr>]
          else res_bind (event_contributions e) (\<lambda>cs.
            if cs = [] then Inr [plain_batch e] else Inr (map (group_batch x e) (group_contributions cs))))"
section \<open>Dispatch of one bar (\<open>market_data_coordinator.py\<close>)\<close>

record strategy_binding =
  bd_strategy_id :: strategy_id
  bd_account_id :: "account_id option"
  bd_subscriptions :: "instrument_id list"
  bd_enabled :: bool
  bd_policy :: aggregation_policy
  bd_priority :: int
  bd_weight :: decimal
  bd_conflict_group :: string

definition bind_strategy_pipelines :: "strategy_binding list \<Rightarrow> bar \<Rightarrow> strategy_binding list" where
  "bind_strategy_pipelines bs b =
     filter (\<lambda>s. bd_enabled s \<and> (bd_subscriptions s = [] \<or> b_instrument_id b \<in> set (bd_subscriptions s))) bs"

type_synonym contributions_by_account = "(account_id option, contribution list) dict"

fun collect_signal_contributions ::
  "strategy_binding \<Rightarrow> target_intent list \<Rightarrow> contributions_by_account \<Rightarrow> contributions_by_account res" where
  "collect_signal_contributions s [] d = Inr d"
| "collect_signal_contributions s (i # is) d =
     res_bind (mk_contribution \<lparr>sc_strategy_id = bd_strategy_id s, sc_intent = i, sc_policy = bd_policy s, sc_priority = bd_priority s,
         sc_weight = bd_weight s, sc_conflict_group = bd_conflict_group s\<rparr>) (\<lambda>c.
       collect_signal_contributions s is (AList.update (bd_account_id s) (dict_lookup d (bd_account_id s) [] @ [c]) d))"

fun execute_strategy_bindings ::
  "(strategy_binding \<Rightarrow> target_intent list) \<Rightarrow> strategy_binding list \<Rightarrow> contributions_by_account \<Rightarrow> contributions_by_account res" where
  "execute_strategy_bindings raw [] d = Inr d"
| "execute_strategy_bindings raw (s # ss) d = res_bind (collect_signal_contributions s (raw s) d) (execute_strategy_bindings raw ss)"

text \<open>\<open>RuntimeSession._aggregate_signal_batches\<close>: one message to the aggregator, then its results.\<close>

definition aggregate_signal_batches ::
  "id_text \<Rightarrow> bar \<Rightarrow> string option \<Rightarrow> account_id option \<Rightarrow> contribution list \<Rightarrow> signal_batch list res" where
  "aggregate_signal_batches x b correlation account cs =
     (if cs = [] then Inr []
      else res_bind (aggregator_handle x (SignalEvent \<lparr>se_bar = b, se_intents = [], se_account_id = account, se_correlation_id = correlation,
             se_strategy_id = None, se_contributions = cs, se_conflict_group = ''default'', se_weight = 1, se_priority = 0,
             se_policy = SUM_TARGETS\<rparr>)) (\<lambda>bs.
        if bs = [] then Inl (RuntimeError ''signal aggregator produced no batch'') else Inr bs))"

definition signal_batches ::
  "id_text \<Rightarrow> strategy_binding list \<Rightarrow> (strategy_binding \<Rightarrow> target_intent list) \<Rightarrow> bar \<Rightarrow> string option \<Rightarrow>
   (account_id option \<times> signal_batch list) list res" where
  "signal_batches x bs raw b correlation =
     res_bind (execute_strategy_bindings raw (bind_strategy_pipelines bs b) []) (\<lambda>d.
     res_map (\<lambda>(account, cs). res_bind (aggregate_signal_batches x b correlation account cs) (\<lambda>bts. Inr (account, bts))) d)"

text \<open>The strategy an aggregated intent is attributed to, and the binding its fills are delivered to.\<close>

definition attributed_strategy :: "signal_batch \<Rightarrow> strategy_id option \<Rightarrow> strategy_id res" where
  "attributed_strategy bt fallback =
     (case bt_contributing bt of
        s # _ \<Rightarrow> Inr s
      | [] \<Rightarrow> (case fallback of None \<Rightarrow> Inl (ValueError ''strategy_id is required'') | Some s \<Rightarrow> Inr s))"

definition deliver_fills_to_strategy :: "strategy_binding list \<Rightarrow> strategy_id \<Rightarrow> 'f list \<Rightarrow> (strategy_binding \<times> 'f list) option" where
  "deliver_fills_to_strategy bs s fills =
     (if fills = [] then None else map_option (\<lambda>b. (b, fills)) (find (\<lambda>b. bd_strategy_id b = s) bs))"

definition resolve_partition :: "(account_id option, 'p) dict \<Rightarrow> account_id option \<Rightarrow> 'p res" where
  "resolve_partition ps account =
     (if length ps = 1 then Inr (snd (hd ps))
      else case account of
        None \<Rightarrow> Inl (ValueError ''strategy account_id required for multi-account topology'')
      | Some a \<Rightarrow> (case map_of ps account of
          None \<Rightarrow> Inl (ValueError (''unknown account partition for strategy: '' @ a))
        | Some p \<Rightarrow> Inr p))"

section \<open>Groups and winners\<close>

lemma append_to_key:
  assumes "dict_wf d"
  shows "mset (concat (map snd (AList.update k (dict_lookup d k [] @ [c]) d))) = add_mset c (mset (concat (map snd d)))"
  using assms
proof (induction d)
  case (Cons p d)
  show ?case
  proof (cases "fst p = k")
    case True
    with Cons.prems show ?thesis by (cases p) (simp add: dict_lookup_def)
  next
    case False
    with Cons show ?thesis by (cases p) (simp add: dict_lookup_def)
  qed
qed (simp add: dict_lookup_def)

lemma group_snoc:
  "group_contributions (cs @ [c]) = AList.update (group_key_of c) (dict_lookup (group_contributions cs) (group_key_of c) [] @ [c]) (group_contributions cs)"
  by (simp add: group_contributions_def)

lemma group_wf: "dict_wf (group_contributions cs)"
  by (induction cs rule: rev_induct) (simp_all add: group_snoc, simp add: group_contributions_def)

lemma group_lookup:
  "map_of (group_contributions cs) k = (let g = filter (\<lambda>c. group_key_of c = k) cs in if g = [] then None else Some g)"
  by (induction cs rule: rev_induct)
     (auto simp: group_snoc dict_lookup_def update_conv' Let_def, simp add: group_contributions_def)

lemma group_members: "(k, g) \<in> set (group_contributions cs) \<Longrightarrow> g = filter (\<lambda>c. group_key_of c = k) cs \<and> g \<noteq> []"
  using group_lookup [of cs k] group_wf [of cs] by (auto simp: Let_def map_of_is_SomeI split: if_splits)

lemma group_mset: "mset (concat (map snd (group_contributions cs))) = mset cs"
  by (induction cs rule: rev_induct) (simp_all add: group_snoc append_to_key group_wf, simp add: group_contributions_def)

text \<open>The winner is the first contribution of the highest priority.\<close>

lemma highest_priority_split:
  assumes "n = length pre" and "m < n" "pre ! m = w" and "\<forall>c \<in> set (take m pre). sc_priority c < sc_priority w"
    and "\<forall>c \<in> set pre. sc_priority c \<le> sc_priority w" and "highest_priority n (m, w) cs = (k, v)"
  shows "k < length (pre @ cs) \<and> (pre @ cs) ! k = v \<and> (\<forall>c \<in> set (take k (pre @ cs)). sc_priority c < sc_priority v) \<and>
     (\<forall>c \<in> set (pre @ cs). sc_priority c \<le> sc_priority v)"
  using assms
proof (induction cs arbitrary: n m w pre)
  case (Cons c cs)
  show ?case
  proof (cases "sc_priority c > sc_priority w")
    case True
    with Cons.prems(5) have "\<forall>d \<in> set pre. sc_priority d < sc_priority c" by fastforce
    with True Cons.prems show ?thesis
      using Cons.IH [of "Suc n" "pre @ [c]" n c] by (auto simp: nth_append less_imp_le)
  next
    case False
    with Cons.prems show ?thesis using Cons.IH [of "Suc n" "pre @ [c]" m w] by (auto simp: nth_append)
  qed
qed auto

lemma priority_wins_split:
  assumes "cs \<noteq> []"
  obtains xs w ys where "cs = xs @ w # ys" "\<forall>c \<in> set xs. sc_priority c < sc_priority w" "\<forall>c \<in> set ys. sc_priority c \<le> sc_priority w"
    "priority_wins p cs = (empty_decision p)\<lparr>ad_intents := [sc_intent w], ad_contributing := [sc_strategy_id w],
       ad_rejected := map sc_strategy_id (xs @ ys), ad_before_risk := tg_value (sc_intent w), ad_after_aggregation := tg_value (sc_intent w)\<rparr>"
proof -
  obtain k v where k: "highest_priority 1 (0, hd cs) (tl cs) = (k, v)" by (metis surj_pair)
  from highest_priority_split [OF _ _ _ _ _ k, of "[hd cs]"] assms
  have v: "k < length cs" "cs ! k = v" "\<forall>c \<in> set (take k cs). sc_priority c < sc_priority v" "\<forall>c \<in> set cs. sc_priority c \<le> sc_priority v"
    by auto
  then have "cs = take k cs @ v # drop (Suc k) cs" by (metis id_take_nth_drop)
  moreover have "\<forall>c \<in> set (drop (Suc k) cs). sc_priority c \<le> sc_priority v" using v(4) in_set_dropD by fast
  ultimately show thesis using that [of "take k cs" v "drop (Suc k) cs"] v(3) k by (simp add: priority_wins_def)
qed

text \<open>Every contribution of a group is either used or rejected.\<close>

lemma policy_accounts: "mset (ad_contributing (policy_aggregate p cs) @ ad_rejected (policy_aggregate p cs)) = mset (map sc_strategy_id cs)"
proof (cases "cs = []")
  case False
  show ?thesis
  proof (cases "p = PRIORITY_WINS")
    case True
    from False obtain xs w ys where "cs = xs @ w # ys" "priority_wins p cs = (empty_decision p)\<lparr>ad_intents := [sc_intent w],
        ad_contributing := [sc_strategy_id w], ad_rejected := map sc_strategy_id (xs @ ys),
        ad_before_risk := tg_value (sc_intent w), ad_after_aggregation := tg_value (sc_intent w)\<rparr>" by (rule priority_wins_split)
    with True show ?thesis by (simp add: policy_aggregate_def)
  qed (simp add: policy_aggregate_def net_targets_def empty_decision_def Let_def)
qed (simp add: policy_aggregate_def empty_decision_def)

lemma policy_kept: "ad_policy (policy_aggregate p cs) = p"
  by (simp add: policy_aggregate_def net_targets_def empty_decision_def priority_wins_def Let_def split: prod.split)

definition accounted :: "signal_batch list \<Rightarrow> strategy_id list" where
  "accounted bts = concat (map (\<lambda>bt. bt_contributing bt @ bt_rejected bt) bts)"

lemma group_batches_account: "mset (accounted (map (group_batch x e) gs)) = mset (map sc_strategy_id (concat (map snd gs)))"
proof (induction gs)
  case (Cons g gs)
  obtain k cs where g: "g = (k, cs)" by fastforce
  have "mset (bt_contributing (group_batch x e g) @ bt_rejected (group_batch x e g)) = mset (map sc_strategy_id cs)"
    using policy_accounts g by (cases k) (simp add: group_batch_def Let_def)
  with Cons g show ?case by (simp add: accounted_def)
qed (simp add: accounted_def)

lemma aggregate_signal_batches_ok:
  assumes "aggregate_signal_batches x b corr account cs = Inr bts"
  shows "mset (accounted bts) = mset (map sc_strategy_id cs) \<and> (\<forall>bt \<in> set bts. bt_account_id bt = account)"
proof (cases "cs = []")
  case True
  with assms show ?thesis by (simp add: aggregate_signal_batches_def accounted_def)
next
  case False
  let ?e = "\<lparr>se_bar = b, se_intents = [], se_account_id = account, se_correlation_id = corr, se_strategy_id = None, se_contributions = cs,
       se_conflict_group = ''default'', se_weight = 1, se_priority = 0, se_policy = SUM_TARGETS\<rparr>"
  have e: "bts = map (group_batch x ?e) (group_contributions cs)" "se_account_id ?e = account"
    using assms False by (auto simp: aggregate_signal_batches_def aggregator_handle_def event_contributions_def split: if_splits)
  have "mset (accounted bts) = mset (map sc_strategy_id cs)"
    unfolding e(1) group_batches_account mset_map group_mset ..
  with e show ?thesis by (auto simp: group_batch_def Let_def)
qed

text \<open>The contributions one account has collected.\<close>

definition of_account :: "contributions_by_account \<Rightarrow> account_id option \<Rightarrow> strategy_id list" where
  "of_account d account = map sc_strategy_id (dict_lookup d account [])"

lemma collect_ok:
  assumes "collect_signal_contributions s is d = Inr d'" and "dict_wf d"
  shows "dict_wf d' \<and> (\<forall>a. of_account d' a = of_account d a @ (if bd_account_id s = a then replicate (length is) (bd_strategy_id s) else []))"
  using assms
proof (induction "is" arbitrary: d)
  case (Cons i "is")
  let ?c = "\<lparr>sc_strategy_id = bd_strategy_id s, sc_intent = i, sc_policy = bd_policy s, sc_priority = bd_priority s,
       sc_weight = bd_weight s, sc_conflict_group = bd_conflict_group s\<rparr>"
  have c: "collect_signal_contributions s is (AList.update (bd_account_id s) (dict_lookup d (bd_account_id s) [] @ [?c]) d) = Inr d'"
    using Cons.prems(1) by (auto simp: res_bind_Inr_iff ctor_simps)
  from Cons.IH [OF c] Cons.prems(2) show ?case
    by (auto simp: of_account_def dict_lookup_def update_conv')
qed simp

lemma execute_ok:
  assumes "execute_strategy_bindings raw ss d = Inr d'" and "dict_wf d"
  shows "dict_wf d' \<and> (\<forall>a. of_account d' a = of_account d a @
     concat (map (\<lambda>s. replicate (length (raw s)) (bd_strategy_id s)) (filter (\<lambda>s. bd_account_id s = a) ss)))"
  using assms
proof (induction ss arbitrary: d)
  case (Cons s ss)
  then obtain d1 where d1: "collect_signal_contributions s (raw s) d = Inr d1" "execute_strategy_bindings raw ss d1 = Inr d'"
    by (auto simp: res_bind_Inr_iff)
  from collect_ok [OF d1(1) Cons.prems(2)] Cons.IH [OF d1(2)] show ?case by auto
qed simp


text \<open>With \<open>PRIORITY_WINS\<close> exactly one contribution is used: the first of the highest priority; its target goes
  through unchanged and all others are rejected. With \<open>REJECT_CONFLICT\<close> nothing is traded exactly if the group wants both
  directions. The netting policies report a conflict exactly in that case and reject nobody.\<close>

theorem policies_decide:
  assumes "cs \<noteq> []" and "d = policy_aggregate p cs"
    and "opposed \<longleftrightarrow> (\<exists>c \<in> set cs. \<exists>v. tg_value (sc_intent c) = Some v \<and> v < 0) \<and> (\<exists>c \<in> set cs. \<exists>v. tg_value (sc_intent c) = Some v \<and> 0 < v)"
  shows "case p of
       PRIORITY_WINS \<Rightarrow> (\<exists>xs w ys. cs = xs @ w # ys \<and> (\<forall>c \<in> set xs. sc_priority c < sc_priority w) \<and>
         (\<forall>c \<in> set ys. sc_priority c \<le> sc_priority w) \<and> ad_intents d = [sc_intent w] \<and> ad_contributing d = [sc_strategy_id w] \<and>
         ad_rejected d = map sc_strategy_id (xs @ ys))
     | REJECT_CONFLICT \<Rightarrow> (ad_intents d = [] \<longleftrightarrow> opposed) \<and> (ad_conflict_reason d \<noteq> '''' \<longleftrightarrow> opposed) \<and>
         (opposed \<longrightarrow> ad_rejected d = map sc_strategy_id cs)
     | _ \<Rightarrow> length (ad_intents d) = 1 \<and> ad_rejected d = [] \<and> (ad_conflict_reason d \<noteq> '''' \<longleftrightarrow> opposed)"
proof -
  have conflict: "has_direction_conflict cs \<longleftrightarrow> opposed"
    unfolding assms(3) has_direction_conflict_def direction_signs_def sign_of_def
    by (auto simp: image_iff split: option.splits if_splits intro!: bexI)
  from priority_wins_split [OF assms(1), of p] obtain xs w ys where w: "cs = xs @ w # ys" "\<forall>c \<in> set xs. sc_priority c < sc_priority w"
    "\<forall>c \<in> set ys. sc_priority c \<le> sc_priority w"
    "priority_wins p cs = (empty_decision p)\<lparr>ad_intents := [sc_intent w], ad_contributing := [sc_strategy_id w],
       ad_rejected := map sc_strategy_id (xs @ ys), ad_before_risk := tg_value (sc_intent w), ad_after_aggregation := tg_value (sc_intent w)\<rparr>"
    by metis
  show ?thesis
  proof (cases p)
    case PRIORITY_WINS
    with w(4) assms(1,2) have "ad_intents d = [sc_intent w]" "ad_contributing d = [sc_strategy_id w]" "ad_rejected d = map sc_strategy_id (xs @ ys)"
      by (simp_all add: policy_aggregate_def)
    with w(1-3) show ?thesis unfolding PRIORITY_WINS aggregation_policy.case by blast
  qed (use assms(1,2) conflict in \<open>auto simp: policy_aggregate_def net_targets_def empty_decision_def Let_def\<close>)
qed

definition wants :: "target_intent_type \<Rightarrow> decimal option \<Rightarrow> target_intent" where
  "wants k v = \<lparr>tg_instrument_id = ''ES'', tg_intent_type = k, tg_value = v, tg_intent_id = ''t'', tg_order_spec = default_order_spec\<rparr>"

definition from_strategy :: "strategy_id \<Rightarrow> int \<Rightarrow> target_intent \<Rightarrow> contribution" where
  "from_strategy s n i = \<lparr>sc_strategy_id = s, sc_intent = i, sc_policy = SUM_TARGETS, sc_priority = n, sc_weight = 1, sc_conflict_group = ''g''\<rparr>"

definition binding_of :: "strategy_id \<Rightarrow> strategy_binding" where
  "binding_of s = \<lparr>bd_strategy_id = s, bd_account_id = Some ''A'', bd_subscriptions = [''ES''], bd_enabled = True,
     bd_policy = SUM_TARGETS, bd_priority = 0, bd_weight = 1, bd_conflict_group = ''g''\<rparr>"

definition sample_text :: id_text where
  "sample_text = \<lparr>tx_isoformat = (\<lambda>_. ''''), tx_sha256_prefix = (\<lambda>_. ''0'')\<rparr>"

lemma sample_binding_weight: "0 \<le> bd_weight (binding_of s)" "\<not> blank (bd_conflict_group (binding_of s))"
  by (simp_all add: binding_of_def) code_simp


theorem policies_decide_witness:
  "length (ad_intents (policy_aggregate WEIGHTED_NET [from_strategy ''s1'' 0 (wants QUANTITY (Some 1))])) = 1 \<and>
   ad_rejected (policy_aggregate WEIGHTED_NET [from_strategy ''s1'' 0 (wants QUANTITY (Some 1))]) = [] \<and>
   (ad_conflict_reason (policy_aggregate WEIGHTED_NET [from_strategy ''s1'' 0 (wants QUANTITY (Some 1))]) \<noteq> '''' \<longleftrightarrow>
     (\<exists>c \<in> set [from_strategy ''s1'' 0 (wants QUANTITY (Some 1))]. \<exists>v. tg_value (sc_intent c) = Some v \<and> v < 0) \<and>
     (\<exists>c \<in> set [from_strategy ''s1'' 0 (wants QUANTITY (Some 1))]. \<exists>v. tg_value (sc_intent c) = Some v \<and> 0 < v))"
  using policies_decide [of "[from_strategy ''s1'' 0 (wants QUANTITY (Some 1))]" _ WEIGHTED_NET, OF _ refl refl]
  unfolding aggregation_policy.case by blast

section \<open>Netting\<close>

definition target_values :: "contribution list \<Rightarrow> decimal list" where
  "target_values cs = map (\<lambda>c. case tg_value (sc_intent c) of None \<Rightarrow> 0 | Some v \<Rightarrow> v) cs"

lemma signed_sum_exact:
  assumes "on_grid e m a" and "list_all (on_grid e n) xs" and "m + int (length xs) * n < 10 ^ 28" and "0 \<le> n"
  shows "foldl dadd a xs = a + sum_list xs"
  using assms
proof (induction xs arbitrary: a m)
  case (Cons x xs)
  then have grid: "on_grid e (m + n) (a + x)" by (auto intro: on_grid_add)
  have "m + n \<le> m + int (length (x # xs)) * n" using Cons.prems(4) by (simp add: distrib_right)
  with Cons.prems(3) have "m + n < 10 ^ 28" by linarith
  with grid have "dadd a x = a + x" by (rule dadd_exact)
  with Cons.IH [OF grid] Cons.prems show ?case by (simp add: algebra_simps)
qed simp

text \<open>Summed targets do not depend on the order in which the strategies are listed: for targets on a common decimal
  grid whose sum stays within the precision of the decimal context, every order gives the exact sum.\<close>

theorem netting_is_order_independent:
  assumes "mset cs = mset ds" and "list_all (on_grid e n) (target_values cs)" and "int (length cs) * n < 10 ^ 28" and "0 \<le> n"
  shows "ad_after_aggregation (net_targets p cs False) = Some (sum_list (target_values cs)) \<and>
     ad_after_aggregation (net_targets p ds False) = Some (sum_list (target_values cs))"
proof -
  have exact: "net_total es False = sum_list (target_values es)" if "mset es = mset cs" for es
  proof -
    have "mset (target_values es) = mset (target_values cs)" using that by (simp add: target_values_def)
    then have "list_all (on_grid e n) (target_values es)" "length (target_values es) = length cs"
      using assms(2) unfolding list_all_iff by (metis set_mset_mset, metis length_map size_mset target_values_def)
    with signed_sum_exact [of e 0 0 n "target_values es"] assms(3,4) have "foldl dadd 0 (target_values es) = sum_list (target_values es)" by simp
    moreover have "net_total es False = foldl dadd 0 (target_values es)"
      unfolding net_total_def target_values_def foldl_map by (simp add: Let_def)
    ultimately show ?thesis by simp
  qed
  have "sum_list (target_values ds) = sum_list (target_values cs)" using assms(1) by (metis mset_map sum_mset_sum_list target_values_def)
  with exact [OF refl] exact [OF assms(1) [symmetric]] show ?thesis by (simp add: net_targets_def Let_def)
qed

theorem netting_is_order_independent_witness:
  "ad_after_aggregation (net_targets SUM_TARGETS [from_strategy ''s1'' 0 (wants QUANTITY (Some 3)), from_strategy ''s2'' 0 (wants QUANTITY (Some (- 1)))] False) =
     Some (sum_list (target_values [from_strategy ''s1'' 0 (wants QUANTITY (Some 3)), from_strategy ''s2'' 0 (wants QUANTITY (Some (- 1)))])) \<and>
   ad_after_aggregation (net_targets SUM_TARGETS [from_strategy ''s2'' 0 (wants QUANTITY (Some (- 1))), from_strategy ''s1'' 0 (wants QUANTITY (Some 3))] False) =
     Some (sum_list (target_values [from_strategy ''s1'' 0 (wants QUANTITY (Some 3)), from_strategy ''s2'' 0 (wants QUANTITY (Some (- 1)))]))"
proof (rule netting_is_order_independent [where e = 0 and n = 3])
  show "list_all (on_grid 0 3) (target_values [from_strategy ''s1'' 0 (wants QUANTITY (Some 3)), from_strategy ''s2'' 0 (wants QUANTITY (Some (- 1)))])"
    using on_grid_of_int [of 3 3] on_grid_of_int [of "- 1" 3] by (simp add: target_values_def from_strategy_def wants_def)
qed simp_all

text \<open>The kind of the first intent of a group decides how the netted number is read, whatever kinds the others have:
  if the first intent is a CLOSE the position is closed and every other target is dropped, and if it is a QUANTITY the
  percentages and amounts of the others are added to it as contracts.\<close>

theorem first_intent_kind_reads_the_net:
  assumes "i \<in> set (ad_intents (net_targets p (c # cs) w))"
  shows "(tg_intent_type (sc_intent c) = CLOSE \<longrightarrow> desired_quantity i price equity multiplier = Inr 0) \<and>
     (tg_intent_type (sc_intent c) = QUANTITY \<longrightarrow> desired_quantity i price equity multiplier = Inr (net_total (c # cs) w))"
  using assms by (auto simp: net_targets_def desired_quantity_def Let_def)

theorem first_intent_kind_reads_the_net_witness:
  "(tg_intent_type (sc_intent (from_strategy ''s1'' 0 (wants CLOSE None))) = CLOSE \<longrightarrow>
      desired_quantity ((wants CLOSE None)\<lparr>tg_value := Some (net_total [from_strategy ''s1'' 0 (wants CLOSE None), from_strategy ''s2'' 0 (wants QUANTITY (Some 10))] False)\<rparr>)
        100 None 1 = Inr 0) \<and>
   (tg_intent_type (sc_intent (from_strategy ''s1'' 0 (wants CLOSE None))) = QUANTITY \<longrightarrow>
      desired_quantity ((wants CLOSE None)\<lparr>tg_value := Some (net_total [from_strategy ''s1'' 0 (wants CLOSE None), from_strategy ''s2'' 0 (wants QUANTITY (Some 10))] False)\<rparr>)
        100 None 1 = Inr (net_total [from_strategy ''s1'' 0 (wants CLOSE None), from_strategy ''s2'' 0 (wants QUANTITY (Some 10))] False))"
  by (rule first_intent_kind_reads_the_net [where p = SUM_TARGETS]) (simp add: net_targets_def from_strategy_def Let_def)

end
