(* ===== verification/Market_Data_Flow.thy ===== *)
theory Market_Data_Flow
  imports Bar_Aggregation Reconciliation Signal_Aggregation
begin

text \<open>
  Market data from a source to the strategies and to the risk engine: \<open>data/capabilities.py\<close>,
  \<open>data/subscriptions.py\<close>, \<open>data/events.py\<close>, \<open>data/permissions.py\<close>, \<open>data/sources/streaming_market_data_source.py\<close>
  after the provider adapter has normalized a callback, \<open>runtime/actors/market_data_actor.py\<close> and
  \<open>runtime/market_data_flow.py\<close>.

  The feed's \<open>subscribe\<close>, the provider adapter and the wall clock are parameters. Actor references of subscribers
  are values of a type of their own.

  Properties: a feed stream is subscribed once; what each subscriber receives; a refused subscription; staleness is
  reported once and blocks orders until the next bar.
\<close>

section \<open>Subscriptions (\<open>subscriptions.py\<close>, \<open>events.py\<close>)\<close>

datatype stream_type = BarStream | TickStream | QuoteStream

record logical_subscription =
  ls_subscriber_id :: string
  ls_instrument_id :: instrument_id
  ls_timeframe :: string
  ls_stream_type :: stream_type

definition mk_logical_subscription :: "logical_subscription \<Rightarrow> logical_subscription res" where
  [ctor_simps]: "mk_logical_subscription s = checked
     [(blank (ls_subscriber_id s), ValueError ''subscriber_id must not be empty''),
      (blank (ls_timeframe s), ValueError ''requested_timeframe must not be empty'')] s"

record subscription_key =
  lk_instrument_id :: instrument_id
  lk_timeframe :: string
  lk_stream_type :: stream_type

definition subscription_key_of :: "logical_subscription \<Rightarrow> subscription_key" where
  "subscription_key_of s = \<lparr>lk_instrument_id = ls_instrument_id s, lk_timeframe = ls_timeframe s, lk_stream_type = ls_stream_type s\<rparr>"

record physical_key =
  pk_source_id :: string
  pk_instrument_id :: instrument_id
  pk_stream_type :: stream_type
  pk_timeframe :: string

definition mk_physical_key :: "physical_key \<Rightarrow> physical_key res" where
  [ctor_simps]: "mk_physical_key k = checked
     [(blank (pk_source_id k), ValueError ''source_id must not be empty''),
      (blank (pk_timeframe k), ValueError ''source_timeframe must not be empty'')] k"

record feed_subscription =
  fd_subscription_id :: string
  fd_instrument_id :: instrument_id
  fd_timeframe :: string

definition mk_feed_subscription :: "feed_subscription \<Rightarrow> feed_subscription res" where
  [ctor_simps]: "mk_feed_subscription s = checked
     [(blank (fd_subscription_id s), ValueError ''subscription_id must not be empty''),
      (blank (fd_timeframe s), ValueError ''timeframe must not be empty'')] s"

text \<open>A set of instruments is a list; the result is sorted and free of duplicates.\<close>

definition plan_universe :: "instrument_id list \<Rightarrow> instrument_id list \<Rightarrow> instrument_id list \<times> instrument_id list" where
  "plan_universe current target =
     (sort (remdups (filter (\<lambda>i. i \<notin> set current) target)), sort (remdups (filter (\<lambda>i. i \<notin> set target) current)))"

section \<open>Feed capabilities (\<open>capabilities.py\<close>)\<close>

record feed_capabilities =
  fc_source_id :: string
  fc_supports_ticks :: bool
  fc_supports_quotes :: bool
  fc_supports_bars :: bool
  fc_max_subscriptions :: "int option"
  fc_supported_timeframes :: "string list"

definition mk_feed_capabilities :: "feed_capabilities \<Rightarrow> feed_capabilities res" where
  [ctor_simps]: "mk_feed_capabilities c = checked
     [(blank (fc_source_id c), ValueError ''source_id must not be empty''),
      (case fc_max_subscriptions c of None \<Rightarrow> False | Some n \<Rightarrow> n \<le> 0, ValueError ''max_subscriptions must be positive''),
      (\<not> list_all (\<lambda>t. \<not> blank t) (fc_supported_timeframes c), ValueError ''supported_timeframes must not contain empty values'')] c"

definition supports_timeframe :: "feed_capabilities \<Rightarrow> string \<Rightarrow> bool res" where
  "supports_timeframe c t =
     (let requested = strip t
      in if requested = [] then Inl (ValueError ''timeframe must not be empty'')
         else Inr (fc_supported_timeframes c = [] \<or> requested \<in> set (fc_supported_timeframes c)))"

definition can_derive :: "timeframe \<Rightarrow> timeframe \<Rightarrow> bool" where
  "can_derive source requested =
     (case (tf_alignment source, tf_duration source) of
        (CLOCK, Some d) \<Rightarrow>
          if tf_alignment requested = SESSION then True
          else (case tf_duration requested of None \<Rightarrow> False | Some r \<Rightarrow> r > d \<and> r mod d = 0)
      | _ \<Rightarrow> False)"

definition timedelta_max :: int where
  "timedelta_max = 999999999 * day_micros + (day_micros - 1)"

definition source_priority :: "timeframe \<Rightarrow> int" where
  "source_priority t = (case tf_duration t of None \<Rightarrow> timedelta_max | Some d \<Rightarrow> if d = 0 then timedelta_max else d)"

text \<open>The supported timeframes are a frozenset in the code; the list is its iteration order.\<close>

definition parsed_sources :: "feed_capabilities \<Rightarrow> (string \<times> timeframe) list res" where
  "parsed_sources c = res_map (\<lambda>s. res_bind (parse_timeframe s) (\<lambda>p. Inr (s, p))) (fc_supported_timeframes c)"

definition compatible_sources :: "timeframe \<Rightarrow> (string \<times> timeframe) list \<Rightarrow> (string \<times> timeframe) list" where
  "compatible_sources target sources = sort_key (\<lambda>p. source_priority (snd p)) (filter (\<lambda>p. can_derive (snd p) target) sources)"

definition finest_source :: "string \<Rightarrow> string \<Rightarrow> (string \<times> timeframe) list \<Rightarrow> string res" where
  "finest_source source_id requested compatible =
     (case compatible of
        p # _ \<Rightarrow> Inr (fst p)
      | [] \<Rightarrow> Inl (ValueError (''requested timeframe '' @ requested @ '' cannot be derived from source '' @ source_id)))"

definition source_timeframe_for :: "feed_capabilities \<Rightarrow> string \<Rightarrow> string res" where
  "source_timeframe_for c requested_timeframe =
     (let requested = strip requested_timeframe
      in if requested = [] then Inl (ValueError ''requested_timeframe must not be empty'')
         else if \<not> fc_supports_bars c then Inl (ValueError (''source '' @ fc_source_id c @ '' does not support bars''))
         else res_bind (supports_timeframe c requested) (\<lambda>direct.
           if direct then Inr requested
           else res_bind (parse_timeframe requested) (\<lambda>target.
             res_bind (parsed_sources c) (\<lambda>sources. finest_source (fc_source_id c) requested (compatible_sources target sources)))))"

definition plan_physical_subscription :: "logical_subscription \<Rightarrow> feed_capabilities \<Rightarrow> physical_key res" where
  "plan_physical_subscription s c =
     (if ls_stream_type s \<noteq> BarStream then Inl (ValueError ''only bar subscriptions are supported'')
      else res_bind (source_timeframe_for c (ls_timeframe s)) (\<lambda>t.
        mk_physical_key \<lparr>pk_source_id = fc_source_id c, pk_instrument_id = ls_instrument_id s, pk_stream_type = ls_stream_type s, pk_timeframe = t\<rparr>))"

section \<open>Market data actor (\<open>market_data_actor.py\<close>)\<close>

datatype payload = PayBar bar | PayQuote quote | PayTick tick

record 'r md_actor =
  ma_subscribers :: "'r list"
  ma_target_timeframe :: "timeframe option"
  ma_feed :: "feed_capabilities option"
  ma_pipeline :: "pipeline option"
  ma_logical :: "(subscription_key, (string, 'r) dict) dict"
  ma_source_timeframes :: "(subscription_key, string) dict"
  ma_physical :: "physical_key list"

datatype 'r md_output = Deliver 'r payload | FeedSubscribe physical_key feed_subscription

datatype 'r md_msg = SubscribeMarketData string 'r instrument_id string | MarketDataEvent payload | OtherMarketDataMsg string

definition mk_md_actor ::
  "'r list \<Rightarrow> string option \<Rightarrow> exchange_zone option \<Rightarrow> interval_source option \<Rightarrow> feed_capabilities option \<Rightarrow> 'r md_actor res" where
  "mk_md_actor subscribers aggregate_timeframe z window source_feed =
     res_bind (case aggregate_timeframe of None \<Rightarrow> Inr None | Some t \<Rightarrow> res_bind (parse_timeframe t) (\<lambda>p. Inr (Some p))) (\<lambda>target.
       if (target \<noteq> None \<or> source_feed \<noteq> None) \<and> z = None
       then Inl (ValueError ''exchange_timezone is required when aggregate_timeframe is set'')
       else Inr \<lparr>ma_subscribers = subscribers, ma_target_timeframe = target, ma_feed = source_feed,
              ma_pipeline = map_option (\<lambda>z. pipeline_init z window) z, ma_logical = [], ma_source_timeframes = [], ma_physical = []\<rparr>)"

definition mk_subscribe_message :: "string \<Rightarrow> 'r \<Rightarrow> instrument_id \<Rightarrow> string \<Rightarrow> 'r md_msg res" where
  [ctor_simps]: "mk_subscribe_message subscriber ref i t = checked
     [(blank subscriber, ValueError ''subscriber_id must not be empty''), (blank t, ValueError ''timeframe must not be empty'')]
     (SubscribeMarketData subscriber ref i t)"

definition stream_type_value :: "stream_type \<Rightarrow> string" where
  "stream_type_value t = (case t of BarStream \<Rightarrow> ''bar'' | TickStream \<Rightarrow> ''tick'' | QuoteStream \<Rightarrow> ''quote'')"

definition subscription_id_of :: "physical_key \<Rightarrow> string" where
  "subscription_id_of k = pk_source_id k @ '':'' @ pk_instrument_id k @ '':'' @ stream_type_value (pk_stream_type k) @ '':'' @ pk_timeframe k"

text \<open>The handlers answer with the exception, if any, the state, and what was told or requested before it.\<close>

type_synonym 'r md_result = "unit res \<times> 'r md_actor \<times> 'r md_output list"

definition md_subscribe :: "(feed_subscription \<Rightarrow> exn option) \<Rightarrow> string \<Rightarrow> 'r \<Rightarrow> instrument_id \<Rightarrow> string \<Rightarrow> 'r md_actor \<Rightarrow> 'r md_result" where
  "md_subscribe feed_call subscriber ref i t a =
     (case mk_logical_subscription \<lparr>ls_subscriber_id = subscriber, ls_instrument_id = i, ls_timeframe = t, ls_stream_type = BarStream\<rparr> of
        Inl e \<Rightarrow> (Inl e, a, [])
      | Inr s \<Rightarrow>
         (let key = subscription_key_of s;
              a1 = a\<lparr>ma_logical := AList.update key (AList.update subscriber ref (dict_lookup (ma_logical a) key [])) (ma_logical a)\<rparr>
          in case ma_feed a of
               None \<Rightarrow> (Inr (), a1\<lparr>ma_source_timeframes := setdefault key t (ma_source_timeframes a)\<rparr>, [])
             | Some c \<Rightarrow>
                (case plan_physical_subscription s c of
                   Inl e \<Rightarrow> (Inl e, a1, [])
                 | Inr pk \<Rightarrow>
                    (let a2 = a1\<lparr>ma_source_timeframes := AList.update key (pk_timeframe pk) (ma_source_timeframes a)\<rparr>
                     in if pk \<in> set (ma_physical a) then (Inr (), a2, [])
                        else case mk_feed_subscription \<lparr>fd_subscription_id = subscription_id_of pk,
                                  fd_instrument_id = pk_instrument_id pk, fd_timeframe = pk_timeframe pk\<rparr> of
                          Inl e \<Rightarrow> (Inl e, a2, [])
                        | Inr f \<Rightarrow> (case feed_call f of
                            Some e \<Rightarrow> (Inl e, a2, [])
                          | None \<Rightarrow> (Inr (), a2\<lparr>ma_physical := ma_physical a @ [pk]\<rparr>, [FeedSubscribe pk f]))))))"

definition deliver_to :: "'r list \<Rightarrow> payload list \<Rightarrow> 'r md_output list" where
  "deliver_to refs ps = concat (map (\<lambda>p. map (\<lambda>r. Deliver r p) refs) ps)"

text \<open>The loop over the logical subscribers; the items are those present when it starts.\<close>

definition serve_subscription :: "bar \<Rightarrow> subscription_key \<Rightarrow> (string, 'r) dict \<Rightarrow> 'r md_actor \<Rightarrow> 'r md_result" where
  "serve_subscription b key subscribers a =
     (if lk_stream_type key \<noteq> BarStream \<or> lk_instrument_id key \<noteq> b_instrument_id b then (Inr (), a, [])
      else case map_of (ma_source_timeframes a) key of
        None \<Rightarrow> (Inl (KeyError (lk_instrument_id key)), a, [])
      | Some source \<Rightarrow>
          if lk_timeframe key = b_timeframe b then (Inr (), a, deliver_to (map snd subscribers) [PayBar b])
          else if source \<noteq> b_timeframe b then (Inr (), a, [])
          else case ma_pipeline a of
            None \<Rightarrow> (Inl (RuntimeError ''bar aggregation is not configured''), a, [])
          | Some p \<Rightarrow>
             (case aggregate_logical b source (lk_timeframe key) p of
                (Inl e, p') \<Rightarrow> (Inl e, a\<lparr>ma_pipeline := Some p'\<rparr>, [])
              | (Inr bars, p') \<Rightarrow> (Inr (), a\<lparr>ma_pipeline := Some p'\<rparr>, deliver_to (map snd subscribers) (map PayBar bars))))"

fun publish_loop :: "bar \<Rightarrow> (subscription_key \<times> (string, 'r) dict) list \<Rightarrow> 'r md_actor \<Rightarrow> 'r md_result" where
  "publish_loop b [] a = (Inr (), a, [])"
| "publish_loop b ((key, subscribers) # rest) a =
     (case serve_subscription b key subscribers a of
        (Inl e, a1, os) \<Rightarrow> (Inl e, a1, os)
      | (Inr _, a1, os) \<Rightarrow> (case publish_loop b rest a1 of (r, a2, os') \<Rightarrow> (r, a2, os @ os')))"

definition md_publish :: "payload \<Rightarrow> 'r md_actor \<Rightarrow> 'r md_result" where
  "md_publish p a = (Inr (), a, deliver_to (ma_subscribers a) [p])"

definition md_handle :: "(feed_subscription \<Rightarrow> exn option) \<Rightarrow> 'r md_msg \<Rightarrow> 'r md_actor \<Rightarrow> 'r md_result" where
  "md_handle feed_call m a =
     (case m of
        SubscribeMarketData subscriber ref i t \<Rightarrow> md_subscribe feed_call subscriber ref i t a
      | MarketDataEvent p \<Rightarrow>
          if ma_logical a \<noteq> [] then (case p of PayBar b \<Rightarrow> publish_loop b (ma_logical a) a | _ \<Rightarrow> md_publish p a)
          else (case (p, ma_target_timeframe a) of
             (PayBar b, Some target) \<Rightarrow>
               (case ma_pipeline a of
                  None \<Rightarrow> (Inl (RuntimeError ''bar aggregation is not configured''), a, [])
                | Some q \<Rightarrow> (case pipeline_aggregate b target q of
                    (Inl e, q') \<Rightarrow> (Inl e, a\<lparr>ma_pipeline := Some q'\<rparr>, [])
                  | (Inr bars, q') \<Rightarrow> (Inr (), a\<lparr>ma_pipeline := Some q'\<rparr>, deliver_to (ma_subscribers a) (map PayBar bars))))
           | _ \<Rightarrow> md_publish p a)
      | OtherMarketDataMsg n \<Rightarrow> (Inl (ActorUnhandledMessageError n), a, []))"
section \<open>Streaming source (\<open>streaming_market_data_source.py\<close>)\<close>

datatype permission_state = LIVE | FROZEN | DELAYED | DELAYED_FROZEN | UNAVAILABLE

definition permission_value :: "permission_state \<Rightarrow> string" where
  "permission_value s = (case s of LIVE \<Rightarrow> ''live'' | FROZEN \<Rightarrow> ''frozen'' | DELAYED \<Rightarrow> ''delayed''
     | DELAYED_FROZEN \<Rightarrow> ''delayed_frozen'' | UNAVAILABLE \<Rightarrow> ''unavailable'')"

record permission_event =
  pe_source_id :: string
  pe_state :: permission_state
  pe_provider_type :: int
  pe_request_id :: int

datatype subscription_event_type = SUBSCRIBED | UNSUBSCRIBED | RESUBSCRIBED | FAILED

record subscription_event =
  su_event_type :: subscription_event_type
  su_source_id :: string
  su_instrument_id :: instrument_id
  su_subscription :: subscription_key
  su_broker_symbol :: string
  su_observed_at :: instant
  su_reason :: "string option"

definition mk_subscription_event :: "subscription_event \<Rightarrow> subscription_event res" where
  [ctor_simps]: "mk_subscription_event e = checked
     [(blank (su_source_id e), ValueError ''source_id must not be empty''),
      (blank (su_broker_symbol e), ValueError ''broker_symbol must not be empty''),
      (su_event_type e = FAILED \<and> (case su_reason e of None \<Rightarrow> True | Some r \<Rightarrow> blank r),
       ValueError ''reason is required for failed subscription events''),
      (su_event_type e \<noteq> FAILED \<and> (case su_reason e of None \<Rightarrow> False | Some r \<Rightarrow> blank r),
       ValueError ''reason must not be empty when provided'')] e"

record degradation =
  dg_instrument_id :: instrument_id
  dg_subscription :: subscription_key
  dg_observed_at :: instant
  dg_age :: int
  dg_max_age :: int
  dg_reason :: string

definition mk_degradation :: "degradation \<Rightarrow> degradation res" where
  [ctor_simps]: "mk_degradation d = checked
     [(dg_age d \<le> dg_max_age d, ValueError ''age must exceed max_age for stale data degradation'')] d"

record stream_subscription =
  ss_logical :: logical_subscription
  ss_broker_symbol :: string
  ss_source_id :: string
  ss_max_age :: int
  ss_subscribed_at :: instant

definition mk_stream_subscription :: "stream_subscription \<Rightarrow> stream_subscription res" where
  [ctor_simps]: "mk_stream_subscription s = checked
     [(blank (ss_broker_symbol s), ValueError ''broker_symbol must not be empty''),
      (blank (ss_source_id s), ValueError ''source_id must not be empty''),
      (ss_max_age s \<le> 0, ValueError ''max_age must be positive'')] s"

text \<open>Diagnostics of replay sources (\<open>data/provenance.py\<close>); instants are aware.\<close>

datatype anomaly_type = GAP_DETECTED | OUT_OF_ORDER_REJECTED | DUPLICATE_DROPPED | SESSION_FILTERED | DATA_SCHEMA_ERROR

definition anomaly_value :: "anomaly_type \<Rightarrow> string" where
  "anomaly_value t = (case t of GAP_DETECTED \<Rightarrow> ''replay_gap_detected'' | OUT_OF_ORDER_REJECTED \<Rightarrow> ''replay_out_of_order_rejected''
     | DUPLICATE_DROPPED \<Rightarrow> ''replay_duplicate_dropped'' | SESSION_FILTERED \<Rightarrow> ''replay_session_filtered''
     | DATA_SCHEMA_ERROR \<Rightarrow> ''replay_data_schema_error'')"

record replay_anomaly =
  an_type :: anomaly_type
  an_source_id :: string
  an_instrument_id :: instrument_id
  an_timeframe :: string
  an_bar_start :: instant
  an_bar_end :: instant
  an_observed_at :: instant
  an_previous_end :: "instant option"
  an_reason :: "string option"

definition mk_replay_anomaly :: "replay_anomaly \<Rightarrow> replay_anomaly res" where
  [ctor_simps]: "mk_replay_anomaly a = checked
     [(blank (an_source_id a), ValueError ''source_id must not be empty''),
      (blank (an_timeframe a), ValueError ''timeframe must not be empty''),
      (an_bar_start a \<ge> an_bar_end a, ValueError ''bar_start must be before bar_end''),
      (case an_reason a of None \<Rightarrow> False | Some r \<Rightarrow> blank r, ValueError ''reason must not be empty'')] a"

datatype source_event = SrcPayload payload | SrcDegraded degradation | SrcSubscription subscription_event | SrcPermission permission_event
  | SrcAnomaly replay_anomaly

record streaming_source =
  sm_default_max_age :: int
  sm_max_ages :: "(subscription_key, int) dict"
  sm_subscriptions :: "(subscription_key, stream_subscription) dict"
  sm_last_event_at :: "(subscription_key, instant) dict"
  sm_stale_emitted :: "subscription_key list"
  sm_pending :: "source_event list"

definition mk_streaming_source :: "int \<Rightarrow> (subscription_key, int) dict \<Rightarrow> streaming_source res" where
  [ctor_simps]: "mk_streaming_source default_age ages = checked
     [(default_age \<le> 0, ValueError ''default_max_age must be positive'')]
     \<lparr>sm_default_max_age = default_age, sm_max_ages = ages, sm_subscriptions = [], sm_last_event_at = [], sm_stale_emitted = [], sm_pending = []\<rparr>"

definition stream_event :: "subscription_event_type \<Rightarrow> stream_subscription \<Rightarrow> instant \<Rightarrow> string option \<Rightarrow> subscription_event res" where
  "stream_event t s observed_at reason = mk_subscription_event
     \<lparr>su_event_type = t, su_source_id = ss_source_id s, su_instrument_id = ls_instrument_id (ss_logical s),
      su_subscription = subscription_key_of (ss_logical s), su_broker_symbol = ss_broker_symbol s, su_observed_at = observed_at, su_reason = reason\<rparr>"

definition push_event :: "subscription_event res \<Rightarrow> streaming_source \<Rightarrow> (streaming_source, unit) outcome" where
  "push_event r m = (case r of Inl e \<Rightarrow> (Inl e, m) | Inr ev \<Rightarrow> (Inr (), m\<lparr>sm_pending := sm_pending m @ [SrcSubscription ev]\<rparr>))"

text \<open>The provider's answer to \<open>subscription_for\<close> is a symbol and a source id; a zero \<open>max_age\<close> counts as none.\<close>

definition source_subscribe ::
  "logical_subscription \<Rightarrow> string \<times> string \<Rightarrow> int option \<Rightarrow> instant \<Rightarrow> streaming_source \<Rightarrow> (streaming_source, string \<times> string) outcome" where
  "source_subscribe s provider max_age subscribed_at m =
     (let key = subscription_key_of s;
          age = (case max_age of Some n \<Rightarrow> if n \<noteq> 0 then n else dict_lookup (sm_max_ages m) key (sm_default_max_age m)
                 | None \<Rightarrow> dict_lookup (sm_max_ages m) key (sm_default_max_age m))
      in case mk_stream_subscription \<lparr>ss_logical = s, ss_broker_symbol = fst provider, ss_source_id = snd provider,
                ss_max_age = age, ss_subscribed_at = subscribed_at\<rparr> of
           Inl e \<Rightarrow> (Inl e, m)
         | Inr st \<Rightarrow>
            obind (push_event (stream_event SUBSCRIBED st subscribed_at None)
                (m\<lparr>sm_subscriptions := AList.update key st (sm_subscriptions m),
                   sm_stale_emitted := filter (\<lambda>k. k \<noteq> key) (sm_stale_emitted m)\<rparr>)) (\<lambda>_ m1. (Inr provider, m1)))"

definition source_unsubscribe :: "logical_subscription \<Rightarrow> instant \<Rightarrow> streaming_source \<Rightarrow> (streaming_source, unit) outcome" where
  "source_unsubscribe s observed_at m =
     (let key = subscription_key_of s;
          m1 = m\<lparr>sm_subscriptions := AList.delete key (sm_subscriptions m), sm_last_event_at := AList.delete key (sm_last_event_at m),
                 sm_stale_emitted := filter (\<lambda>k. k \<noteq> key) (sm_stale_emitted m)\<rparr>
      in case map_of (sm_subscriptions m) key of
           None \<Rightarrow> (Inr (), m1)
         | Some st \<Rightarrow> push_event (stream_event UNSUBSCRIBED st observed_at None) m1)"

definition mark_stream :: "subscription_event_type \<Rightarrow> logical_subscription \<Rightarrow> instant \<Rightarrow> string option \<Rightarrow> streaming_source \<Rightarrow> (streaming_source, unit) outcome" where
  "mark_stream t s observed_at reason m =
     (case map_of (sm_subscriptions m) (subscription_key_of s) of
        None \<Rightarrow> (Inl (KeyError ''unknown streaming market-data subscription''), m)
      | Some st \<Rightarrow> push_event (stream_event t st observed_at reason) m)"

definition mark_resubscribed :: "logical_subscription \<Rightarrow> instant \<Rightarrow> streaming_source \<Rightarrow> (streaming_source, unit) outcome" where
  "mark_resubscribed s observed_at m = mark_stream RESUBSCRIBED s observed_at None m"

definition mark_subscription_failed :: "logical_subscription \<Rightarrow> string \<Rightarrow> instant \<Rightarrow> streaming_source \<Rightarrow> (streaming_source, unit) outcome" where
  "mark_subscription_failed s reason observed_at m = mark_stream FAILED s observed_at (Some reason) m"

definition resubscribe_active :: "instant \<Rightarrow> streaming_source \<Rightarrow> (streaming_source, subscription_event list) outcome" where
  "resubscribe_active observed_at m =
     (case res_map (\<lambda>(k, st). stream_event RESUBSCRIBED st observed_at None)
             (sort_key (\<lambda>(k, st). (lk_instrument_id k, lk_timeframe k, stream_type_value (lk_stream_type k))) (sm_subscriptions m)) of
        Inl e \<Rightarrow> (Inl e, m)
      | Inr evs \<Rightarrow> (Inr evs, m\<lparr>sm_pending := sm_pending m @ map SrcSubscription evs\<rparr>))"

text \<open>The keys a normalized callback refreshes, in subscription order.\<close>

definition refreshed :: "instrument_id \<Rightarrow> stream_type \<Rightarrow> streaming_source \<Rightarrow> subscription_key list" where
  "refreshed i t m = map fst (filter (\<lambda>(k, st). lk_instrument_id k = i \<and> ls_stream_type (ss_logical st) = t) (sm_subscriptions m))"

definition record_event :: "instrument_id \<Rightarrow> stream_type \<Rightarrow> instant \<Rightarrow> streaming_source \<Rightarrow> streaming_source" where
  "record_event i t event_time m =
     m\<lparr>sm_last_event_at := foldl (\<lambda>d k. AList.update k event_time d) (sm_last_event_at m) (refreshed i t m),
       sm_stale_emitted := filter (\<lambda>k. k \<notin> set (refreshed i t m)) (sm_stale_emitted m)\<rparr>"

definition source_on_tick :: "tick \<Rightarrow> streaming_source \<Rightarrow> streaming_source" where
  "source_on_tick t m = (let m1 = record_event (t_instrument_id t) TickStream (t_time t) m
     in m1\<lparr>sm_pending := sm_pending m1 @ [SrcPayload (PayTick t)]\<rparr>)"

definition source_on_quote :: "quote \<Rightarrow> streaming_source \<Rightarrow> streaming_source" where
  "source_on_quote q m = (let m1 = record_event (q_instrument_id q) QuoteStream (q_time q) m
     in m1\<lparr>sm_pending := sm_pending m1 @ [SrcPayload (PayQuote q)]\<rparr>)"

definition source_on_bar :: "bar \<Rightarrow> streaming_source \<Rightarrow> streaming_source" where
  "source_on_bar b m = (let m1 = record_event (b_instrument_id b) BarStream (b_end_time b) m
     in if b_is_complete b then m1\<lparr>sm_pending := sm_pending m1 @ [SrcPayload (PayBar b)]\<rparr> else m1)"

definition source_on_permission :: "permission_event \<Rightarrow> streaming_source \<Rightarrow> streaming_source" where
  "source_on_permission e m = m\<lparr>sm_pending := sm_pending m @ [SrcPermission e]\<rparr>"

definition stale_age :: "streaming_source \<Rightarrow> instant \<Rightarrow> subscription_key \<times> stream_subscription \<Rightarrow> int" where
  "stale_age m observed_at = (\<lambda>(k, st). observed_at - dict_lookup (sm_last_event_at m) k (ss_subscribed_at st))"

fun stale_loop :: "instant \<Rightarrow> (subscription_key \<times> stream_subscription) list \<Rightarrow> streaming_source \<Rightarrow> (streaming_source, unit) outcome" where
  "stale_loop observed_at [] m = (Inr (), m)"
| "stale_loop observed_at ((k, st) # rest) m =
     (if stale_age m observed_at (k, st) \<le> ss_max_age st \<or> k \<in> set (sm_stale_emitted m) then stale_loop observed_at rest m
      else case mk_degradation \<lparr>dg_instrument_id = lk_instrument_id k, dg_subscription = k, dg_observed_at = observed_at,
                dg_age = stale_age m observed_at (k, st), dg_max_age = ss_max_age st, dg_reason = ''stale_market_data''\<rparr> of
        Inl e \<Rightarrow> (Inl e, m)
      | Inr d \<Rightarrow> stale_loop observed_at rest
            (m\<lparr>sm_pending := sm_pending m @ [SrcDegraded d], sm_stale_emitted := sm_stale_emitted m @ [k]\<rparr>))"

definition source_drain :: "instant \<Rightarrow> streaming_source \<Rightarrow> (streaming_source, source_event list) outcome" where
  "source_drain observed_at m = obind (stale_loop observed_at (sm_subscriptions m) m) (\<lambda>_ m1. (Inr (sm_pending m1), m1\<lparr>sm_pending := []\<rparr>))"

section \<open>Market data flow (\<open>market_data_flow.py\<close>)\<close>

text \<open>Zones and session windows are named; what a name stands for is a parameter.\<close>

record ('z, 'w) market_data_flow =
  mf_target_timeframe :: "string option"
  mf_timezones :: "(instrument_id, 'z) dict"
  mf_windows :: "(instrument_id, 'w) dict"
  mf_refs :: "((string option \<times> 'z option \<times> 'w option), unit md_actor) dict"
  mf_permission_context :: market_data_context
  mf_stale_contexts :: "(instrument_id, market_data_context) dict"

definition flow_init :: "string option \<Rightarrow> (instrument_id, 'z) dict \<Rightarrow> (instrument_id, 'w) dict \<Rightarrow> ('z, 'w) market_data_flow" where
  "flow_init t zs ws = \<lparr>mf_target_timeframe = t, mf_timezones = zs, mf_windows = ws, mf_refs = [],
     mf_permission_context = \<lparr>md_permission_state = None, md_stale = False, md_evidence = []\<rparr>, mf_stale_contexts = []\<rparr>"

definition flow_shape :: "('z, 'w) market_data_flow \<Rightarrow> bar \<Rightarrow> (string option \<times> 'z option \<times> 'w option) res" where
  "flow_shape f b =
     (case mf_target_timeframe f of
        None \<Rightarrow> Inr (None, None, None)
      | Some t \<Rightarrow>
          if b_timeframe b = t then Inr (None, None, None)
          else case map_of (mf_timezones f) (b_instrument_id b) of
            None \<Rightarrow> Inl (RuntimeError ''exchange timezone is required to aggregate'')
          | Some z \<Rightarrow> Inr (Some t, Some z, map_of (mf_windows f) (b_instrument_id b)))"

definition flow_actor_for ::
  "('z \<Rightarrow> exchange_zone) \<Rightarrow> ('w \<Rightarrow> interval_source) \<Rightarrow> ('z, 'w) market_data_flow \<Rightarrow>
   string option \<times> 'z option \<times> 'w option \<Rightarrow> unit md_actor res" where
  "flow_actor_for zone window f shape =
     (case map_of (mf_refs f) shape of Some a \<Rightarrow> Inr a
      | None \<Rightarrow> (case shape of (t, z, w) \<Rightarrow> mk_md_actor [()] t (map_option zone z) (map_option window w) None))"

definition delivered_bars :: "'r md_output list \<Rightarrow> bar list" where
  "delivered_bars os = concat (map (\<lambda>out. case out of Deliver r p \<Rightarrow> (case p of PayBar b \<Rightarrow> [b] | _ \<Rightarrow> []) | _ \<Rightarrow> []) os)"

definition publish_bar ::
  "('z \<Rightarrow> exchange_zone) \<Rightarrow> ('w \<Rightarrow> interval_source) \<Rightarrow> bar \<Rightarrow> ('z, 'w) market_data_flow \<Rightarrow>
   (('z, 'w) market_data_flow, bar list) outcome" where
  "publish_bar zone window b f =
     (let f1 = f\<lparr>mf_stale_contexts := AList.delete (b_instrument_id b) (mf_stale_contexts f)\<rparr>
      in case flow_shape f1 b of
           Inl e \<Rightarrow> (Inl e, f1)
         | Inr shape \<Rightarrow>
            (case flow_actor_for zone window f1 shape of
               Inl e \<Rightarrow> (Inl e, f1)
             | Inr a \<Rightarrow>
                (case md_handle (\<lambda>_. None) (MarketDataEvent (PayBar b)) a of
                   (r, a', os) \<Rightarrow>
                     (case r of Inl e \<Rightarrow> Inl e | Inr _ \<Rightarrow> Inr (delivered_bars os),
                      f1\<lparr>mf_refs := AList.update shape a' (mf_refs f1)\<rparr>))))"

definition stale_data_payload :: "degradation \<Rightarrow> (string, evidence) dict" where
  "stale_data_payload d =
     [(''reason'', EvStr (dg_reason d)), (''reason_code'', EvStr ''MARKET_DATA_STALE''), (''instrument_id'', EvStr (dg_instrument_id d)),
      (''requested_timeframe'', EvStr (lk_timeframe (dg_subscription d))),
      (''stream_type'', EvStr (stream_type_value (lk_stream_type (dg_subscription d)))),
      (''age_seconds'', EvNum (of_int (dg_age d) / 1000000)), (''max_age_seconds'', EvNum (of_int (dg_max_age d) / 1000000)),
      (''observed_at'', EvTime (dg_observed_at d))]"

definition permission_payload :: "permission_event \<Rightarrow> (string, evidence) dict" where
  "permission_payload e =
     [(''source_id'', EvStr (pe_source_id e)), (''permission_state'', EvStr (permission_value (pe_state e))),
      (''provider_market_data_type'', EvNum (of_int (pe_provider_type e))), (''request_id'', EvNum (of_int (pe_request_id e)))]"

definition merge_dict :: "('k, 'v) dict \<Rightarrow> ('k, 'v) dict \<Rightarrow> ('k, 'v) dict" where
  "merge_dict d e = foldl (\<lambda>d p. AList.update (fst p) (snd p) d) d e"

definition runtime_degradation_events :: "degradation \<Rightarrow> runtime_event list" where
  "runtime_degradation_events d =
     [\<lparr>ev_kind = ''market_data_stale_detected'', ev_payload = stale_data_payload d\<rparr>,
      \<lparr>ev_kind = ''runtime.degraded'', ev_payload = stale_data_payload d\<rparr>]"

definition runtime_permission_events :: "permission_event \<Rightarrow> runtime_event list" where
  "runtime_permission_events e =
     \<lparr>ev_kind = ''market_data_permission_changed'', ev_payload = permission_payload e\<rparr> #
     (if pe_state e = LIVE then []
      else [\<lparr>ev_kind = ''runtime.degraded'', ev_payload = merge_dict (permission_payload e)
              [(''reason'', EvStr ''market_data_permission_not_live''), (''reason_code'', EvStr ''MARKET_DATA_PERMISSION_ERROR'')]\<rparr>])"

definition subscription_event_kind :: "subscription_event_type \<Rightarrow> string" where
  "subscription_event_kind t = (case t of SUBSCRIBED \<Rightarrow> ''market_data_subscribed'' | UNSUBSCRIBED \<Rightarrow> ''market_data_unsubscribed''
     | RESUBSCRIBED \<Rightarrow> ''market_data_resubscribed'' | FAILED \<Rightarrow> ''market_data_subscription_failed'')"

definition subscription_payload :: "subscription_event \<Rightarrow> (string, evidence) dict" where
  "subscription_payload e =
     [(''source_id'', EvStr (su_source_id e)), (''instrument_id'', EvStr (su_instrument_id e)),
      (''requested_timeframe'', EvStr (lk_timeframe (su_subscription e))),
      (''stream_type'', EvStr (stream_type_value (lk_stream_type (su_subscription e)))),
      (''broker_symbol'', EvStr (su_broker_symbol e)), (''observed_at'', EvTime (su_observed_at e))] @
     (case su_reason e of None \<Rightarrow> [] | Some r \<Rightarrow> [(''reason'', EvStr r)])"

definition runtime_subscription_events :: "subscription_event \<Rightarrow> runtime_event list" where
  "runtime_subscription_events e =
     \<lparr>ev_kind = subscription_event_kind (su_event_type e), ev_payload = subscription_payload e\<rparr> #
     (if su_event_type e \<noteq> FAILED then []
      else [\<lparr>ev_kind = ''runtime.degraded'', ev_payload = merge_dict (subscription_payload e)
              [(''reason'', EvStr ''market_data_subscription_failed''), (''reason_code'', EvStr ''MARKET_DATA_SUBSCRIPTION_FAILED''),
               (''subscription_failure_reason'', case su_reason e of None \<Rightarrow> EvNone | Some r \<Rightarrow> EvStr r)]\<rparr>])"

definition replay_anomaly_payload :: "replay_anomaly \<Rightarrow> (string, evidence) dict" where
  "replay_anomaly_payload a =
     [(''source_id'', EvStr (an_source_id a)), (''instrument_id'', EvStr (an_instrument_id a)), (''timeframe'', EvStr (an_timeframe a)),
      (''bar_start'', EvTime (an_bar_start a)), (''bar_end'', EvTime (an_bar_end a)), (''observed_at'', EvTime (an_observed_at a))] @
     (case an_previous_end a of None \<Rightarrow> [] | Some t \<Rightarrow> [(''previous_end'', EvTime t)]) @
     (case an_reason a of None \<Rightarrow> [] | Some r \<Rightarrow> [(''detail'', EvStr r)])"

definition runtime_replay_anomaly_events :: "replay_anomaly \<Rightarrow> runtime_event list" where
  "runtime_replay_anomaly_events a =
     \<lparr>ev_kind = anomaly_value (an_type a), ev_payload = replay_anomaly_payload a\<rparr> #
     (if an_type a \<noteq> GAP_DETECTED \<and> an_type a \<noteq> OUT_OF_ORDER_REJECTED \<and> an_type a \<noteq> DATA_SCHEMA_ERROR then []
      else [\<lparr>ev_kind = ''runtime.degraded'', ev_payload = merge_dict (replay_anomaly_payload a) [(''reason'', EvStr (anomaly_value (an_type a)))]\<rparr>])"

definition publish_source_event ::
  "('z \<Rightarrow> exchange_zone) \<Rightarrow> ('w \<Rightarrow> interval_source) \<Rightarrow> source_event \<Rightarrow> ('z, 'w) market_data_flow \<Rightarrow>
   (('z, 'w) market_data_flow, bar list \<times> runtime_event list) outcome" where
  "publish_source_event zone window ev f =
     (case ev of
        SrcPayload (PayBar b) \<Rightarrow> obind (publish_bar zone window b f) (\<lambda>bars f1. (Inr (bars, []), f1))
      | SrcPayload (PayQuote q) \<Rightarrow> (Inl (TypeError ''unsupported market data source event: Quote''), f)
      | SrcPayload (PayTick t) \<Rightarrow> (Inl (TypeError ''unsupported market data source event: Tick''), f)
      | SrcDegraded d \<Rightarrow>
          (Inr ([], runtime_degradation_events d),
           f\<lparr>mf_stale_contexts := AList.update (dg_instrument_id d)
               \<lparr>md_permission_state = md_permission_state (mf_permission_context f), md_stale = True, md_evidence = stale_data_payload d\<rparr>
               (mf_stale_contexts f)\<rparr>)
      | SrcSubscription e \<Rightarrow> (Inr ([], runtime_subscription_events e), f)
      | SrcAnomaly a \<Rightarrow> (Inr ([], runtime_replay_anomaly_events a), f)
      | SrcPermission e \<Rightarrow>
          (Inr ([], runtime_permission_events e),
           f\<lparr>mf_permission_context := \<lparr>md_permission_state = Some (permission_value (pe_state e)), md_stale = False,
               md_evidence = permission_payload e\<rparr>\<rparr>))"

definition risk_context_for :: "('z, 'w) market_data_flow \<Rightarrow> instrument_id \<Rightarrow> market_data_context" where
  "risk_context_for f i =
     (case map_of (mf_stale_contexts f) i of
        None \<Rightarrow> mf_permission_context f
      | Some c \<Rightarrow> \<lparr>md_permission_state = md_permission_state c, md_stale = True,
            md_evidence = merge_dict (evidence_payload (mf_permission_context f)) (evidence_payload c)\<rparr>)"

section \<open>Streams requested from the feed\<close>

definition feed_keys :: "'r md_output list \<Rightarrow> physical_key list" where
  "feed_keys os = concat (map (\<lambda>out. case out of FeedSubscribe k f \<Rightarrow> [k] | _ \<Rightarrow> []) os)"

definition feed_step :: "(feed_subscription \<Rightarrow> exn option) \<Rightarrow> 'r md_actor \<Rightarrow> 'r md_msg \<Rightarrow> 'r md_actor \<times> physical_key list" where
  "feed_step feed_call a m = (case md_handle feed_call m a of (r, a', os) \<Rightarrow> (a', feed_keys os))"

lemma feed_keys_simps [simp]:
  "feed_keys [] = []" "feed_keys (deliver_to refs ps) = []" "feed_keys (os @ os') = feed_keys os @ feed_keys os'"
  "feed_keys [FeedSubscribe k f] = [k]"
  by (auto simp: feed_keys_def deliver_to_def)

text \<open>What serving a bar leaves alone.\<close>

definition same_streams :: "'r md_actor \<Rightarrow> 'r md_actor \<Rightarrow> bool" where
  "same_streams a a' \<longleftrightarrow> ma_physical a' = ma_physical a \<and> ma_source_timeframes a' = ma_source_timeframes a \<and> ma_logical a' = ma_logical a"

lemma serve_quiet:
  "serve_subscription b k subs a = (r, a', os) \<Longrightarrow> feed_keys os = [] \<and> same_streams a a'"
  by (auto simp: serve_subscription_def same_streams_def split: if_splits option.splits sum.splits prod.splits)

lemma publish_loop_quiet: "publish_loop b items a = (r, a', os) \<Longrightarrow> feed_keys os = [] \<and> same_streams a a'"
proof (induction items arbitrary: a os)
  case (Cons x items)
  obtain k subs where x: "x = (k, subs)" by fastforce
  obtain r1 a1 os1 where s: "serve_subscription b k subs a = (r1, a1, os1)" by (metis prod_cases3)
  from serve_quiet [OF s] Cons s x show ?case by (cases r1) (auto simp: same_streams_def split: prod.splits)
qed (simp add: same_streams_def)

lemma subscribe_physical:
  "md_subscribe feed_call subscriber ref i t a = (r, a', os) \<Longrightarrow>
     distinct (feed_keys os) \<and> set (feed_keys os) \<inter> set (ma_physical a) = {} \<and> set (ma_physical a') = set (ma_physical a) \<union> set (feed_keys os)"
  unfolding md_subscribe_def Let_def by (auto split: option.splits sum.splits if_splits)

lemma feed_step_physical:
  "distinct (snd (feed_step feed_call a m)) \<and> set (snd (feed_step feed_call a m)) \<inter> set (ma_physical a) = {} \<and>
   set (ma_physical (fst (feed_step feed_call a m))) = set (ma_physical a) \<union> set (snd (feed_step feed_call a m))"
proof (cases m)
  case (SubscribeMarketData subscriber ref i t)
  obtain r a' os where "md_subscribe feed_call subscriber ref i t a = (r, a', os)" by (metis prod_cases3)
  with subscribe_physical [OF this] SubscribeMarketData show ?thesis by (simp add: feed_step_def md_handle_def)
next
  case (MarketDataEvent p)
  show ?thesis
  proof (cases "\<exists>b. p = PayBar b")
    case True
    then obtain b where b: "p = PayBar b" by blast
    obtain r a' os where l: "publish_loop b (ma_logical a) a = (r, a', os)" by (metis prod_cases3)
    from publish_loop_quiet [OF l] have q: "feed_keys os = []" "ma_physical a' = ma_physical a" by (simp_all add: same_streams_def)
    show ?thesis
    proof (cases "ma_logical a = []")
      case True
      then show ?thesis unfolding MarketDataEvent b feed_step_def md_handle_def md_publish_def
        by (simp split: option.split sum.split prod.split)
    next
      case False
      with l q show ?thesis unfolding MarketDataEvent b feed_step_def md_handle_def by simp
    qed
  next
    case False
    then show ?thesis unfolding MarketDataEvent feed_step_def md_handle_def md_publish_def by (cases p) (simp_all split: option.split)
  qed
qed (simp add: feed_step_def md_handle_def)

interpretation feed: exactly_once "feed_step feed_call" "\<lambda>a. set (ma_physical a)" "\<lambda>k. k" "\<lambda>_. True" for feed_call
  by unfold_locales (use feed_step_physical [of feed_call] in auto)

text \<open>Over any run of the market data actor a physical stream is requested from the feed at most once, however many
  strategies subscribe to it and whatever the feed refuses, and never while it is already open.\<close>

theorem feed_stream_requested_once:
  "distinct (snd (run_steps (feed_step feed_call) a ms)) \<and>
   set (snd (run_steps (feed_step feed_call) a ms)) \<inter> set (ma_physical a) = {}"
  using feed.run_distinct [of ms feed_call a] feed.run_fresh [of ms feed_call a] by (auto simp: list_all_iff)

section \<open>What subscribers receive\<close>

text \<open>Publishing a bar serves every logical subscription in order: the subscribers of another instrument get nothing,
  those who asked for the bar's own timeframe get exactly this bar, once each, and those who asked for a longer one
  get, all the same, the bars its consolidation completes.\<close>

theorem fan_out_by_subscription:
  fixes a :: "'r md_actor"
  assumes "md_handle feed_call (MarketDataEvent (PayBar b)) a = (Inr (), a', os)" and "ma_logical a \<noteq> []"
  shows "\<exists>parts. os = concat parts \<and> list_all2 (\<lambda>(k, subscribers) part.
     if lk_stream_type k \<noteq> BarStream \<or> lk_instrument_id k \<noteq> b_instrument_id b then part = []
     else if lk_timeframe k = b_timeframe b then part = map (\<lambda>r. Deliver r (PayBar b)) (map snd subscribers)
     else \<exists>bars. part = deliver_to (map snd subscribers) (map PayBar bars)) (ma_logical a) parts"
proof -
  define fair where "fair = (\<lambda>(k :: subscription_key, subscribers :: (string, 'r) dict) part.
     if lk_stream_type k \<noteq> BarStream \<or> lk_instrument_id k \<noteq> b_instrument_id b then part = []
     else if lk_timeframe k = b_timeframe b then part = map (\<lambda>r. Deliver r (PayBar b)) (map snd subscribers)
     else \<exists>bars. part = deliver_to (map snd subscribers) (map PayBar bars))"
  have one: "fair (k, subs) part" if "serve_subscription b k subs a = (Inr (), a', part)" for k subs part and a a' :: "'r md_actor"
    using that unfolding fair_def serve_subscription_def
    by (auto simp: deliver_to_def split: if_splits option.splits sum.splits prod.splits dest: spec [of _ "[]"])
  have "\<exists>parts. os = concat parts \<and> list_all2 fair items parts" if "publish_loop b items a = (Inr (), a', os)" for items os and a a' :: "'r md_actor"
    using that
  proof (induction items arbitrary: a os)
    case (Cons x items)
    obtain k subs where x: "x = (k, subs)" by fastforce
    with Cons.prems obtain a1 part rest where s: "serve_subscription b k subs a = (Inr (), a1, part)"
      "publish_loop b items a1 = (Inr (), a', rest)" "os = part @ rest" by (auto split: prod.splits sum.splits)
    from Cons.IH [OF s(2)] obtain parts where "rest = concat parts" "list_all2 fair items parts" by blast
    with s(3) one [OF s(1)] x show ?case by (intro exI [of _ "part # parts"]) simp
  qed simp
  from this [of "ma_logical a" a a' os] assms show ?thesis unfolding fair_def by (simp add: md_handle_def)
qed

text \<open>A subscription the feed cannot serve stays registered without a source timeframe: the request raises, and from then
  on every bar of the instrument makes the actor raise, for all its subscribers.\<close>

theorem refused_subscription_blocks_instrument:
  assumes "ma_feed a = Some c" and "mk_logical_subscription s = Inr s" and "ls_stream_type s = BarStream"
    and "plan_physical_subscription s c = Inl e" and "map_of (ma_source_timeframes a) (subscription_key_of s) = None"
    and "md_handle feed_call (SubscribeMarketData (ls_subscriber_id s) ref (ls_instrument_id s) (ls_timeframe s)) a = (r, a', os)"
    and "b_instrument_id b = ls_instrument_id s"
  shows "r = Inl e \<and> (\<exists>e'. fst (md_handle feed_call (MarketDataEvent (PayBar b)) a') = Inl e')"
proof -
  let ?k = "subscription_key_of s"
  have s: "\<lparr>ls_subscriber_id = ls_subscriber_id s, ls_instrument_id = ls_instrument_id s, ls_timeframe = ls_timeframe s, ls_stream_type = BarStream\<rparr> = s"
    using assms(3) by simp
  have "md_subscribe feed_call (ls_subscriber_id s) ref (ls_instrument_id s) (ls_timeframe s) a =
     (Inl e, a\<lparr>ma_logical := AList.update ?k (AList.update (ls_subscriber_id s) ref (dict_lookup (ma_logical a) ?k [])) (ma_logical a)\<rparr>, [])"
    unfolding md_subscribe_def s using assms(1,2,4) by (simp add: Let_def)
  with assms(6) have r: "r = Inl e" "ma_source_timeframes a' = ma_source_timeframes a" "?k \<in> fst ` set (ma_logical a')"
    by (auto simp: md_handle_def dom_update)
  have raises: "\<exists>e'. fst (publish_loop b items a) = Inl e'"
    if "?k \<in> fst ` set items" "map_of (ma_source_timeframes a) ?k = None" for items and a :: "'a md_actor"
    using that
  proof (induction items arbitrary: a)
    case (Cons x items)
    obtain k subs where x: "x = (k, subs)" by fastforce
    obtain q a1 os1 where sv: "serve_subscription b k subs a = (q, a1, os1)" by (metis prod_cases3)
    show ?case
    proof (cases "k = ?k")
      case True
      then have "serve_subscription b k subs a = (Inl (KeyError (ls_instrument_id s)), a, [])"
        using Cons.prems(2) assms(3,7) by (simp add: serve_subscription_def subscription_key_of_def)
      with x show ?thesis by simp
    next
      case False
      with Cons.prems x have "?k \<in> fst ` set items" by auto
      with Cons.IH [of a1] Cons.prems(2) serve_quiet [OF sv] sv x show ?thesis
        by (cases q) (auto simp: same_streams_def split: prod.splits)
    qed
  qed simp
  have "ma_logical a' \<noteq> []" using r(3) by auto
  with raises [OF r(3)] r(1,2) assms(5) show ?thesis by (simp add: md_handle_def)
qed

definition minute_subscription :: logical_subscription where
  "minute_subscription = \<lparr>ls_subscriber_id = ''s1'', ls_instrument_id = ''ES'', ls_timeframe = ''1m'', ls_stream_type = BarStream\<rparr>"

definition quote_feed :: feed_capabilities where
  "quote_feed = \<lparr>fc_source_id = ''src'', fc_supports_ticks = True, fc_supports_quotes = True, fc_supports_bars = False,
     fc_max_subscriptions = None, fc_supported_timeframes = []\<rparr>"

definition feed_actor :: "nat md_actor" where
  "feed_actor = \<lparr>ma_subscribers = [], ma_target_timeframe = None, ma_feed = Some quote_feed, ma_pipeline = Some (pipeline_init utc_zone None),
     ma_logical = [], ma_source_timeframes = [], ma_physical = []\<rparr>"

lemma minute_subscription_ok: "mk_logical_subscription minute_subscription = Inr minute_subscription" "strip (ls_timeframe minute_subscription) \<noteq> []"
  unfolding minute_subscription_def by (simp add: ctor_simps, code_simp) code_simp

theorem refused_subscription_blocks_instrument_witness:
  "(Inl (ValueError ''source src does not support bars'') :: unit res) = Inl (ValueError ''source src does not support bars'') \<and>
   (\<exists>e'. fst (md_handle (\<lambda>_. None) (MarketDataEvent (PayBar (minute_bar ''d1'' 1)))
     (fst (snd (md_handle (\<lambda>_. None) (SubscribeMarketData (ls_subscriber_id minute_subscription) 7 (ls_instrument_id minute_subscription)
       (ls_timeframe minute_subscription)) feed_actor)))) = Inl e')"
proof (rule refused_subscription_blocks_instrument)
  show plan: "plan_physical_subscription minute_subscription quote_feed = Inl (ValueError ''source src does not support bars'')"
    using minute_subscription_ok(2)
    by (simp add: plan_physical_subscription_def source_timeframe_for_def Let_def quote_feed_def) (simp add: minute_subscription_def)
  show "ma_feed feed_actor = Some quote_feed" "map_of (ma_source_timeframes feed_actor) (subscription_key_of minute_subscription) = None"
    by (simp_all add: feed_actor_def)
  show "mk_logical_subscription minute_subscription = Inr minute_subscription" by (rule minute_subscription_ok)
  show "ls_stream_type minute_subscription = BarStream" "b_instrument_id (minute_bar ''d1'' 1) = ls_instrument_id minute_subscription"
    by (simp_all add: minute_subscription_def minute_bar_def)
  have s: "\<lparr>ls_subscriber_id = ls_subscriber_id minute_subscription, ls_instrument_id = ls_instrument_id minute_subscription,
      ls_timeframe = ls_timeframe minute_subscription, ls_stream_type = BarStream\<rparr> = minute_subscription"
    by (simp add: minute_subscription_def)
  have "fst (md_handle (\<lambda>_. None) (SubscribeMarketData (ls_subscriber_id minute_subscription) 7 (ls_instrument_id minute_subscription)
      (ls_timeframe minute_subscription)) feed_actor) = Inl (ValueError ''source src does not support bars'')"
    unfolding md_handle_def md_msg.case md_subscribe_def s minute_subscription_ok(1) using plan
    by (simp add: Let_def feed_actor_def)
  then show "md_handle (\<lambda>_. None) (SubscribeMarketData (ls_subscriber_id minute_subscription) 7 (ls_instrument_id minute_subscription)
      (ls_timeframe minute_subscription)) feed_actor =
    (Inl (ValueError ''source src does not support bars''),
     fst (snd (md_handle (\<lambda>_. None) (SubscribeMarketData (ls_subscriber_id minute_subscription) 7 (ls_instrument_id minute_subscription)
       (ls_timeframe minute_subscription)) feed_actor)),
     snd (snd (md_handle (\<lambda>_. None) (SubscribeMarketData (ls_subscriber_id minute_subscription) 7 (ls_instrument_id minute_subscription)
       (ls_timeframe minute_subscription)) feed_actor)))"
    by (metis prod.collapse)
qed

section \<open>Derivable timeframes\<close>

lemma list_all2_left: "list_all2 P xs ys \<Longrightarrow> x \<in> set xs \<Longrightarrow> \<exists>y \<in> set ys. P x y"
  by (induction xs ys rule: list_all2_induct) auto

lemma list_all2_right: "list_all2 P xs ys \<Longrightarrow> y \<in> set ys \<Longrightarrow> \<exists>x \<in> set xs. P x y"
  by (induction xs ys rule: list_all2_induct) auto

text \<open>The source timeframe planned for a request is either the request itself or the finest supported timeframe from which it can be
  consolidated, and for the latter the consolidator of this pair can always be built: a planned subscription never
  fails later in the aggregation pipeline.\<close>

theorem planned_source_can_be_consolidated:
  assumes "source_timeframe_for c requested = Inr s" and "s \<noteq> strip requested"
  shows "\<exists>ps pt d k. s \<in> set (fc_supported_timeframes c) \<and> parse_timeframe s = Inr ps \<and> parse_timeframe (strip requested) = Inr pt \<and>
     tf_duration ps = Some d \<and> mk_consolidator ps pt z w = Inr k \<and>
     (\<forall>s' \<in> set (fc_supported_timeframes c). \<forall>p'. parse_timeframe s' = Inr p' \<longrightarrow> can_derive p' pt \<longrightarrow>
        (\<exists>d'. tf_duration p' = Some d' \<and> d \<le> d'))"
proof -
  from assms obtain pt sources where parse: "parse_timeframe (strip requested) = Inr pt" "parsed_sources c = Inr sources"
    "finest_source (fc_source_id c) (strip requested) (compatible_sources pt sources) = Inr s"
    by (auto simp: source_timeframe_for_def Let_def res_bind_Inr_iff split: if_splits)
  obtain p rest where "compatible_sources pt sources = p # rest" "fst p = s"
    using parse(3) by (cases "compatible_sources pt sources") (auto simp: finest_source_def)
  with parse have t: "parse_timeframe (strip requested) = Inr pt" "parsed_sources c = Inr sources"
    "sort_key (\<lambda>p. source_priority (snd p)) (filter (\<lambda>p. can_derive (snd p) pt) sources) = p # rest" "fst p = s"
    by (simp_all add: compatible_sources_def)
  have parses: "list_all2 (\<lambda>s q. res_bind (parse_timeframe s) (\<lambda>p. Inr (s, p)) = Inr q) (fc_supported_timeframes c) sources"
    using t(2) unfolding parsed_sources_def res_map_Inr_iff .
  have parsed: "\<exists>p'. (s', p') \<in> set sources \<and> parse_timeframe s' = Inr p'" if "s' \<in> set (fc_supported_timeframes c)" for s'
    using list_all2_left [OF parses that] by (auto simp: res_bind_Inr_iff)
  have origin: "s' \<in> set (fc_supported_timeframes c) \<and> parse_timeframe s' = Inr p'" if "(s', p') \<in> set sources" for s' p'
    using list_all2_right [OF parses that] by (auto simp: res_bind_Inr_iff)
  have "p \<in> set (filter (\<lambda>p. can_derive (snd p) pt) sources)" using t(3) by (metis list.set_intros(1) set_sort)
  then have p: "p \<in> set sources" "can_derive (snd p) pt" by simp_all
  have "sorted (map (\<lambda>p. source_priority (snd p)) (p # rest))" using sorted_sort_key t(3) by metis
  then have "\<forall>q \<in> set (p # rest). source_priority (snd p) \<le> source_priority (snd q)" by auto
  then have sorted: "\<forall>q \<in> set (filter (\<lambda>p. can_derive (snd p) pt) sources). source_priority (snd p) \<le> source_priority (snd q)"
    using t(3) by (metis set_sort)
  from origin [of s "snd p"] p(1) t(4) have ps: "s \<in> set (fc_supported_timeframes c)" "parse_timeframe s = Inr (snd p)"
    by (metis prod.collapse)+
  have prio: "\<exists>d. tf_duration q = Some d \<and> 0 < d \<and> source_priority q = d" if "parse_timeframe s' = Inr q" "can_derive q pt" for s' q
  proof -
    from that(2) have "tf_alignment q = CLOCK" by (auto simp: can_derive_def split: alignment_mode.splits option.splits)
    from parsed_clock_duration [OF that(1) this] show ?thesis by (force simp: source_priority_def)
  qed
  from prio [OF ps(2) p(2)] obtain d where d: "tf_duration (snd p) = Some d" "0 < d" "source_priority (snd p) = d" by blast
  have "\<exists>k. mk_consolidator (snd p) pt z w = Inr k"
    using p(2) d(1) by (cases "tf_alignment pt") (auto simp: can_derive_def ctor_simps Let_def split: alignment_mode.splits option.splits if_splits)
  then obtain k where k: "mk_consolidator (snd p) pt z w = Inr k" by blast
  have "\<exists>d'. tf_duration p' = Some d' \<and> d \<le> d'" if "s' \<in> set (fc_supported_timeframes c)" "parse_timeframe s' = Inr p'" "can_derive p' pt" for s' p'
  proof -
    from parsed [OF that(1)] that(2) have "(s', p') \<in> set sources" by auto
    with sorted that(3) have "source_priority (snd p) \<le> source_priority p'" by force
    with prio [OF that(2,3)] d(3) show ?thesis by force
  qed
  with ps t(1) d(1) k show ?thesis by blast
qed

definition bar_feed :: feed_capabilities where
  "bar_feed = \<lparr>fc_source_id = ''src'', fc_supports_ticks = True, fc_supports_quotes = True, fc_supports_bars = True,
     fc_max_subscriptions = None, fc_supported_timeframes = [''30m'', ''1m'']\<rparr>"

lemma parse_samples:
  "parse_timeframe ''1m'' = Inr \<lparr>tf_value = ''1m'', tf_duration = Some 60000000, tf_alignment = CLOCK\<rparr>"
  "parse_timeframe ''30m'' = Inr \<lparr>tf_value = ''30m'', tf_duration = Some 1800000000, tf_alignment = CLOCK\<rparr>"
  "parse_timeframe ''1h'' = Inr \<lparr>tf_value = ''1h'', tf_duration = Some 3600000000, tf_alignment = CLOCK\<rparr>"
  "strip ''1h'' = ''1h''"
proof -
  have "lower (strip ''1m'') = ''1m''" "lower (strip ''30m'') = ''30m''" "lower (strip ''1h'') = ''1h''" by code_simp+
  then show "parse_timeframe ''1m'' = Inr \<lparr>tf_value = ''1m'', tf_duration = Some 60000000, tf_alignment = CLOCK\<rparr>"
    "parse_timeframe ''30m'' = Inr \<lparr>tf_value = ''30m'', tf_duration = Some 1800000000, tf_alignment = CLOCK\<rparr>"
    "parse_timeframe ''1h'' = Inr \<lparr>tf_value = ''1h'', tf_duration = Some 3600000000, tf_alignment = CLOCK\<rparr>"
    by (simp_all add: parse_timeframe_def clock_durations_def minutes_def)
qed code_simp

theorem planned_source_can_be_consolidated_witness:
  "\<exists>ps pt d k. ''1m'' \<in> set (fc_supported_timeframes bar_feed) \<and> parse_timeframe ''1m'' = Inr ps \<and>
     parse_timeframe (strip ''1h'') = Inr pt \<and> tf_duration ps = Some d \<and> mk_consolidator ps pt utc_zone None = Inr k \<and>
     (\<forall>s' \<in> set (fc_supported_timeframes bar_feed). \<forall>p'. parse_timeframe s' = Inr p' \<longrightarrow> can_derive p' pt \<longrightarrow>
        (\<exists>d'. tf_duration p' = Some d' \<and> d \<le> d'))"
proof (rule planned_source_can_be_consolidated)
  show "source_timeframe_for bar_feed ''1h'' = Inr ''1m''"
    by (simp add: source_timeframe_for_def parse_samples supports_timeframe_def bar_feed_def parsed_sources_def
        compatible_sources_def can_derive_def finest_source_def source_priority_def sort_key_def)
  show "''1m'' \<noteq> strip ''1h''" by (simp add: parse_samples)
qed

section \<open>Stale streams\<close>

lemma stale_loop_ok:
  assumes "dict_wf items"
  shows "\<exists>ds. stale_loop t items m = (Inr (), m\<lparr>sm_pending := sm_pending m @ map SrcDegraded ds, sm_stale_emitted := sm_stale_emitted m @ map dg_subscription ds\<rparr>) \<and>
     map dg_subscription ds = map fst (filter (\<lambda>(k, st). stale_age m t (k, st) > ss_max_age st \<and> k \<notin> set (sm_stale_emitted m)) items) \<and>
     list_all (\<lambda>d. dg_instrument_id d = lk_instrument_id (dg_subscription d)) ds"
  using assms
proof (induction items arbitrary: m)
  case (Cons x items)
  obtain k st where x: "x = (k, st)" by fastforce
  show ?case
  proof (cases "stale_age m t (k, st) \<le> ss_max_age st \<or> k \<in> set (sm_stale_emitted m)")
    case True
    with Cons x show ?thesis by auto
  next
    case False
    let ?d = "\<lparr>dg_instrument_id = lk_instrument_id k, dg_subscription = k, dg_observed_at = t,
        dg_age = stale_age m t (k, st), dg_max_age = ss_max_age st, dg_reason = ''stale_market_data''\<rparr>"
    let ?m = "m\<lparr>sm_pending := sm_pending m @ [SrcDegraded ?d], sm_stale_emitted := sm_stale_emitted m @ [k]\<rparr>"
    have step: "stale_loop t (x # items) m = stale_loop t items ?m" using False x by (simp add: mk_degradation_def checked_def)
    have same: "filter (\<lambda>(k, st). stale_age ?m t (k, st) > ss_max_age st \<and> k \<notin> set (sm_stale_emitted ?m)) items =
        filter (\<lambda>(k, st). stale_age m t (k, st) > ss_max_age st \<and> k \<notin> set (sm_stale_emitted m)) items"
      using Cons.prems x by (intro filter_cong refl) (auto simp: stale_age_def image_iff)
    have "dict_wf items" using Cons.prems by simp
    from Cons.IH [OF this, of ?m] obtain ds where ds: "stale_loop t items ?m = (Inr (), ?m\<lparr>sm_pending := sm_pending ?m @ map SrcDegraded ds,
        sm_stale_emitted := sm_stale_emitted ?m @ map dg_subscription ds\<rparr>)"
      "map dg_subscription ds = map fst (filter (\<lambda>(k, st). stale_age m t (k, st) > ss_max_age st \<and> k \<notin> set (sm_stale_emitted m)) items)"
      "list_all (\<lambda>d. dg_instrument_id d = lk_instrument_id (dg_subscription d)) ds" unfolding same by blast
    with False x step show ?thesis by (intro exI [of _ "?d # ds"]) simp
  qed
qed simp

text \<open>Draining a streaming source never raises; it hands on what was pending and then one degradation for each subscription
  whose age exceeds its limit and that has not been reported since its last event; a second drain without a callback in
  between repeats none of them.\<close>

theorem staleness_reported_once:
  assumes "dict_wf (sm_subscriptions m)"
  shows "\<exists>ds m1. source_drain t m = (Inr (sm_pending m @ map SrcDegraded ds), m1) \<and>
     map dg_subscription ds = map fst (filter (\<lambda>(k, st). stale_age m t (k, st) > ss_max_age st \<and> k \<notin> set (sm_stale_emitted m)) (sm_subscriptions m)) \<and>
     (\<forall>t'. \<exists>ds' m2. source_drain t' m1 = (Inr (map SrcDegraded ds'), m2) \<and>
        set (map dg_subscription ds') \<inter> (set (sm_stale_emitted m) \<union> set (map dg_subscription ds)) = {})"
proof -
  from stale_loop_ok [OF assms, of t m] obtain ds where ds: "stale_loop t (sm_subscriptions m) m =
      (Inr (), m\<lparr>sm_pending := sm_pending m @ map SrcDegraded ds, sm_stale_emitted := sm_stale_emitted m @ map dg_subscription ds\<rparr>)"
    "map dg_subscription ds = map fst (filter (\<lambda>(k, st). stale_age m t (k, st) > ss_max_age st \<and> k \<notin> set (sm_stale_emitted m)) (sm_subscriptions m))"
    by blast
  let ?m1 = "m\<lparr>sm_pending := [], sm_stale_emitted := sm_stale_emitted m @ map dg_subscription ds\<rparr>"
  have drain: "source_drain t m = (Inr (sm_pending m @ map SrcDegraded ds), ?m1)" using ds(1) by (simp add: source_drain_def)
  have again: "\<exists>ds' m2. source_drain t' ?m1 = (Inr (map SrcDegraded ds'), m2) \<and>
      set (map dg_subscription ds') \<inter> (set (sm_stale_emitted m) \<union> set (map dg_subscription ds)) = {}" for t'
  proof -
    from stale_loop_ok [of "sm_subscriptions ?m1" t' ?m1] assms obtain ds' where ds': "stale_loop t' (sm_subscriptions ?m1) ?m1 =
        (Inr (), ?m1\<lparr>sm_pending := sm_pending ?m1 @ map SrcDegraded ds', sm_stale_emitted := sm_stale_emitted ?m1 @ map dg_subscription ds'\<rparr>)"
      "map dg_subscription ds' = map fst (filter (\<lambda>(k, st). stale_age ?m1 t' (k, st) > ss_max_age st \<and> k \<notin> set (sm_stale_emitted ?m1)) (sm_subscriptions ?m1))"
      by auto
    have "set (map dg_subscription ds') \<inter> set (sm_stale_emitted ?m1) = {}" unfolding ds'(2) by auto
    with ds'(1) show ?thesis by (intro exI [of _ ds'] exI) (auto simp: source_drain_def)
  qed
  from drain ds(2) again show ?thesis by blast
qed

definition minute_source :: streaming_source where
  "minute_source = \<lparr>sm_default_max_age = 30, sm_max_ages = [], sm_subscriptions = [(subscription_key_of minute_subscription,
       \<lparr>ss_logical = minute_subscription, ss_broker_symbol = ''ES'', ss_source_id = ''src'', ss_max_age = 30, ss_subscribed_at = 0\<rparr>)],
     sm_last_event_at = [(subscription_key_of minute_subscription, 10)], sm_stale_emitted = [], sm_pending = []\<rparr>"

theorem staleness_reported_once_witness:
  "\<exists>ds m1. source_drain 100 minute_source = (Inr (sm_pending minute_source @ map SrcDegraded ds), m1) \<and>
     map dg_subscription ds = map fst (filter (\<lambda>(k, st). stale_age minute_source 100 (k, st) > ss_max_age st \<and>
       k \<notin> set (sm_stale_emitted minute_source)) (sm_subscriptions minute_source)) \<and>
     (\<forall>t'. \<exists>ds' m2. source_drain t' m1 = (Inr (map SrcDegraded ds'), m2) \<and>
        set (map dg_subscription ds') \<inter> (set (sm_stale_emitted minute_source) \<union> set (map dg_subscription ds)) = {})"
  by (rule staleness_reported_once) (simp add: minute_source_def)

section \<open>Stale data and orders\<close>

definition flow_step ::
  "('z \<Rightarrow> exchange_zone) \<Rightarrow> ('w \<Rightarrow> interval_source) \<Rightarrow> ('z, 'w) market_data_flow \<Rightarrow> source_event \<Rightarrow>
   ('z, 'w) market_data_flow \<times> runtime_event list" where
  "flow_step zone window f e =
     (case publish_source_event zone window e f of (r, f') \<Rightarrow> (f', case r of Inl _ \<Rightarrow> [] | Inr (bars, evs) \<Rightarrow> evs))"

definition stale_by_history :: "instrument_id \<Rightarrow> source_event list \<Rightarrow> bool" where
  "stale_by_history i evs \<longleftrightarrow> (\<exists>pre d post. evs = pre @ SrcDegraded d # post \<and> dg_instrument_id d = i \<and>
     (\<forall>b. SrcPayload (PayBar b) \<in> set post \<longrightarrow> b_instrument_id b \<noteq> i))"

lemma stale_by_history_snoc:
  "stale_by_history i (evs @ [e]) \<longleftrightarrow> (case e of
     SrcDegraded d \<Rightarrow> dg_instrument_id d = i \<or> stale_by_history i evs
   | SrcPayload (PayBar b) \<Rightarrow> b_instrument_id b \<noteq> i \<and> stale_by_history i evs
   | _ \<Rightarrow> stale_by_history i evs)"
proof -
  have "stale_by_history i (evs @ [e]) \<longleftrightarrow> (\<exists>d. e = SrcDegraded d \<and> dg_instrument_id d = i) \<or>
     (stale_by_history i evs \<and> (\<forall>b. e = SrcPayload (PayBar b) \<longrightarrow> b_instrument_id b \<noteq> i))"
  proof
    assume "stale_by_history i (evs @ [e])"
    then obtain pre d post where h: "evs @ [e] = pre @ SrcDegraded d # post" "dg_instrument_id d = i"
      "\<forall>b. SrcPayload (PayBar b) \<in> set post \<longrightarrow> b_instrument_id b \<noteq> i" unfolding stale_by_history_def by blast
    show "(\<exists>d. e = SrcDegraded d \<and> dg_instrument_id d = i) \<or>
     (stale_by_history i evs \<and> (\<forall>b. e = SrcPayload (PayBar b) \<longrightarrow> b_instrument_id b \<noteq> i))"
    proof (cases post rule: rev_cases)
      case Nil
      with h show ?thesis by simp
    next
      case (snoc post' e')
      with h have "evs = pre @ SrcDegraded d # post'" "e' = e" by simp_all
      with h snoc have "stale_by_history i evs" unfolding stale_by_history_def by auto
      moreover have "\<forall>b. e = SrcPayload (PayBar b) \<longrightarrow> b_instrument_id b \<noteq> i" using h(3) snoc \<open>e' = e\<close> by auto
      ultimately show ?thesis by blast
    qed
  next
    assume "(\<exists>d. e = SrcDegraded d \<and> dg_instrument_id d = i) \<or>
     (stale_by_history i evs \<and> (\<forall>b. e = SrcPayload (PayBar b) \<longrightarrow> b_instrument_id b \<noteq> i))"
    then show "stale_by_history i (evs @ [e])"
    proof
      assume "\<exists>d. e = SrcDegraded d \<and> dg_instrument_id d = i"
      then show ?thesis unfolding stale_by_history_def by (metis empty_iff empty_set)
    next
      assume "stale_by_history i evs \<and> (\<forall>b. e = SrcPayload (PayBar b) \<longrightarrow> b_instrument_id b \<noteq> i)"
      then obtain pre d post where "evs = pre @ SrcDegraded d # post" "dg_instrument_id d = i"
        "\<forall>b. SrcPayload (PayBar b) \<in> set (post @ [e]) \<longrightarrow> b_instrument_id b \<noteq> i" unfolding stale_by_history_def by auto
      then show ?thesis unfolding stale_by_history_def by (intro exI [of _ pre] exI [of _ d] exI [of _ "post @ [e]"]) simp
    qed
  qed
  then show ?thesis by (auto split: source_event.split payload.split)
qed

lemma publish_bar_stale: "mf_stale_contexts (snd (publish_bar zone window b f)) = AList.delete (b_instrument_id b) (mf_stale_contexts f) \<and>
    mf_permission_context (snd (publish_bar zone window b f)) = mf_permission_context f"
  by (simp add: publish_bar_def Let_def split: sum.split prod.split)

lemma flow_step_stale:
  assumes "\<not> md_stale (mf_permission_context f)" and "f' = fst (flow_step zone window f e)"
  shows "\<not> md_stale (mf_permission_context f') \<and> map_of (mf_stale_contexts f') i \<noteq> None = (case e of
     SrcDegraded d \<Rightarrow> dg_instrument_id d = i \<or> map_of (mf_stale_contexts f) i \<noteq> None
   | SrcPayload (PayBar b) \<Rightarrow> b_instrument_id b \<noteq> i \<and> map_of (mf_stale_contexts f) i \<noteq> None
   | _ \<Rightarrow> map_of (mf_stale_contexts f) i \<noteq> None)"
proof -
  have f': "f' = snd (publish_source_event zone window e f)" using assms(2) by (simp add: flow_step_def split: prod.splits)
  show ?thesis
  proof (cases "\<exists>b. e = SrcPayload (PayBar b)")
    case True
    then obtain b where b: "e = SrcPayload (PayBar b)" by blast
    have "f' = snd (publish_bar zone window b f)" unfolding f' b publish_source_event_def by simp
    with publish_bar_stale [of zone window b f] assms(1) show ?thesis unfolding b by (auto simp: delete_conv')
  next
    case False
    then show ?thesis using assms(1) unfolding f' publish_source_event_def
      by (auto simp: update_conv' split: source_event.split payload.split)
  qed
qed

lemma flow_stale:
  assumes "f = fst (run_steps (flow_step zone window) (flow_init t zs ws) evs)"
  shows "\<not> md_stale (mf_permission_context f) \<and> (map_of (mf_stale_contexts f) i \<noteq> None) = stale_by_history i evs"
  using assms
proof (induction evs arbitrary: f rule: rev_induct)
  case (snoc e evs)
  from snoc.prems have "f = fst (flow_step zone window (fst (run_steps (flow_step zone window) (flow_init t zs ws) evs)) e)"
    by (simp add: run_steps_append)
  from flow_step_stale [OF _ this, of i] snoc.IH [OF refl] show ?case unfolding stale_by_history_snoc
    by (auto split: source_event.split payload.split)
qed (auto simp: flow_init_def stale_by_history_def)

text \<open>C40. The market-data context that reaches the risk engine is stale exactly if the last bar or degradation of the instrument was a
  degradation, whatever other events arrived; and the freshness rule rejects every order that carries a stale context.\<close>

theorem stale_data_blocks_orders:
  assumes "c = risk_context_for (fst (run_steps (flow_step zone window) (flow_init t zs ws) evs)) i"
  shows "(md_stale c \<longleftrightarrow> stale_by_history i evs) \<and>
     (stale_by_history i evs \<and> rq_market_data r = Some c \<longrightarrow> \<not> approves (check_freshness q r))"
proof -
  from flow_stale [OF refl, of zone window t zs ws evs i] have stale: "md_stale c \<longleftrightarrow> stale_by_history i evs"
    unfolding assms risk_context_for_def by (auto split: option.splits)
  then show ?thesis by (auto simp: freshness_allows)
qed

definition late_minute :: degradation where
  "late_minute = \<lparr>dg_instrument_id = ''ES'', dg_subscription = subscription_key_of minute_subscription, dg_observed_at = 100, dg_age = 90,
     dg_max_age = 30, dg_reason = ''stale_market_data''\<rparr>"

definition sample_flow :: "source_event list \<Rightarrow> (nat, nat) market_data_flow" where
  "sample_flow evs = fst (run_steps (flow_step (\<lambda>_. utc_zone) (\<lambda>_ _. Inr None)) (flow_init None [] []) evs)"

theorem stale_data_blocks_orders_witness:
  "stale_by_history ''ES'' [SrcPayload (PayBar (minute_bar ''d1'' 1)), SrcDegraded late_minute] \<and>
   \<not> approves (check_freshness True (sample_request\<lparr>rq_market_data :=
        Some (risk_context_for (sample_flow [SrcPayload (PayBar (minute_bar ''d1'' 1)), SrcDegraded late_minute]) ''ES'')\<rparr>))"
proof
  let ?evs = "[SrcPayload (PayBar (minute_bar ''d1'' 1)), SrcDegraded late_minute]"
  show stale: "stale_by_history ''ES'' ?evs"
    unfolding stale_by_history_def
    by (rule exI [of _ "[SrcPayload (PayBar (minute_bar ''d1'' 1))]"], rule exI [of _ late_minute], rule exI [of _ "[]"])
      (simp add: late_minute_def)
  have c: "risk_context_for (sample_flow ?evs) ''ES'' = risk_context_for
      (fst (run_steps (flow_step (\<lambda>_. utc_zone) (\<lambda>_ _. Inr None)) (flow_init None [] [] :: (nat, nat) market_data_flow) ?evs)) ''ES''"
    by (simp only: sample_flow_def)
  have "rq_market_data (sample_request\<lparr>rq_market_data := Some m\<rparr>) = Some m" for m by simp
  with stale_data_blocks_orders [OF c] stale
  show "\<not> approves (check_freshness True (sample_request\<lparr>rq_market_data := Some (risk_context_for (sample_flow ?evs) ''ES'')\<rparr>))"
    by blast
qed

text \<open>The permission state in a stale context is the one at the time of the degradation, not the latest one.\<close>

lemma stale_context_keeps_old_permission:
  "md_permission_state (risk_context_for (sample_flow [SrcPermission \<lparr>pe_source_id = ''src'', pe_state = LIVE, pe_provider_type = 1, pe_request_id = 1\<rparr>,
     SrcDegraded late_minute, SrcPermission \<lparr>pe_source_id = ''src'', pe_state = DELAYED, pe_provider_type = 3, pe_request_id = 1\<rparr>]) ''ES'') = Some ''live''"
  by (simp add: sample_flow_def flow_step_def publish_source_event_def flow_init_def risk_context_for_def late_minute_def permission_value_def)

text \<open>Subscribing again keeps the time of the last event: a stream that was silent is reported stale at the moment of its renewal.\<close>

lemma renewed_stream_reported_stale:
  "\<exists>m. source_subscribe minute_subscription (''ES'', ''src'') None 100 minute_source = (Inr (''ES'', ''src''), m) \<and>
     (\<exists>d m'. source_drain 100 m = (Inr (sm_pending m @ [SrcDegraded d]), m') \<and> dg_observed_at d = 100 \<and> dg_age d = 90)"
proof -
  have "\<not> blank ''ES''" "\<not> blank ''src''" by code_simp+
  then show ?thesis
    by (simp add: source_subscribe_def minute_source_def push_event_def stream_event_def source_drain_def stale_age_def ctor_simps checked_def
        Let_def dict_lookup_def)
qed

end
