(* ===== verification/Live_Capital.thy ===== *)
theory Live_Capital
  imports Trading_Actors
begin

text \<open>
  What has to be true before a real-money order leaves the process: the vocabulary of modes and permissions
  (\<open>runtime/mode.py\<close>, \<open>runtime/permissions.py\<close>), the broker runtime configuration (\<open>BrokerRuntimeConfig\<close> of
  \<open>runtime/config/models.py\<close>), the operators' signoff and the last-mile order decision (\<open>runtime/live_capital.py\<close>),
  the startup checklist (\<open>runtime/broker_startup.py\<close>) and the startup gate (\<open>runtime/startup_gate.py\<close>).

  A field typed \<open>Enum | str\<close> is a \<open>labelled\<close> value. The wall clock is an argument. The evidence text of a check is
  kept as its fragments, before rendering.
\<close>

section \<open>Modes and environments (\<open>mode.py\<close>, \<open>permissions.py\<close>)\<close>

datatype runtime_mode = BACKTEST | PAPER_BROKER | PAPER_SIMULATED | LIVE_OBSERVATION | LIVE | OBSERVATION

datatype market_data_environment = REPLAY | REALTIME

datatype execution_environment = EXEC_SIMULATED | EXEC_BROKER | EXEC_DISABLED

datatype account_environment = ACCT_SIMULATED | ACCT_PAPER | ACCT_LIVE

datatype 'e labelled = Member 'e | Label string

fun mode_text :: "runtime_mode \<Rightarrow> string" where
  "mode_text BACKTEST = ''backtest''"
| "mode_text PAPER_BROKER = ''paper_broker''"
| "mode_text PAPER_SIMULATED = ''paper_simulated''"
| "mode_text LIVE_OBSERVATION = ''live_observation''"
| "mode_text LIVE = ''live''"
| "mode_text OBSERVATION = ''observation''"

fun market_data_text :: "market_data_environment \<Rightarrow> string" where
  "market_data_text REPLAY = ''replay''"
| "market_data_text REALTIME = ''realtime''"

fun execution_text :: "execution_environment \<Rightarrow> string" where
  "execution_text EXEC_SIMULATED = ''simulated''"
| "execution_text EXEC_BROKER = ''broker''"
| "execution_text EXEC_DISABLED = ''disabled''"

fun account_text :: "account_environment \<Rightarrow> string" where
  "account_text ACCT_SIMULATED = ''simulated''"
| "account_text ACCT_PAPER = ''paper''"
| "account_text ACCT_LIVE = ''live''"

text \<open>\<open>value.strip().lower().replace("-", "_")\<close>, and the lookup of an enumeration by value.\<close>

definition normal_label :: "string \<Rightarrow> string" where
  "normal_label s = map (\<lambda>c. if c = CHR ''-'' then CHR ''_'' else c) (lower (strip s))"

definition member_of :: "('e \<Rightarrow> string) \<Rightarrow> 'e list \<Rightarrow> string \<Rightarrow> 'e res" where
  "member_of text members v = (case find (\<lambda>m. text m = v) members of
     Some m \<Rightarrow> Inr m | None \<Rightarrow> Inl (ValueError v))"

fun mode_from_value :: "runtime_mode labelled \<Rightarrow> runtime_mode res" where
  "mode_from_value (Member m) = Inr m"
| "mode_from_value (Label s) =
     member_of mode_text [BACKTEST, PAPER_BROKER, PAPER_SIMULATED, LIVE_OBSERVATION, LIVE, OBSERVATION] (normal_label s)"

fun market_data_from_value ::
  "market_data_environment labelled option \<Rightarrow> runtime_mode \<Rightarrow> market_data_environment res" where
  "market_data_from_value (Some (Member e)) mode = Inr e"
| "market_data_from_value None mode = Inr (if mode = BACKTEST then REPLAY else REALTIME)"
| "market_data_from_value (Some (Label s)) mode = member_of market_data_text [REPLAY, REALTIME] (normal_label s)"

fun execution_from_value ::
  "execution_environment labelled option \<Rightarrow> runtime_mode \<Rightarrow> execution_environment res" where
  "execution_from_value (Some (Member e)) mode = Inr e"
| "execution_from_value None mode = Inr
     (if mode \<in> {BACKTEST, PAPER_SIMULATED} then EXEC_SIMULATED
      else if mode \<in> {OBSERVATION, LIVE_OBSERVATION} then EXEC_DISABLED else EXEC_BROKER)"
| "execution_from_value (Some (Label s)) mode =
     member_of execution_text [EXEC_SIMULATED, EXEC_BROKER, EXEC_DISABLED] (normal_label s)"

fun account_from_value ::
  "account_environment labelled option \<Rightarrow> runtime_mode \<Rightarrow> account_environment res" where
  "account_from_value (Some (Member e)) mode = Inr e"
| "account_from_value None mode = Inr
     (if mode \<in> {BACKTEST, PAPER_SIMULATED} then ACCT_SIMULATED
      else if mode = LIVE then ACCT_LIVE else ACCT_PAPER)"
| "account_from_value (Some (Label s)) mode =
     member_of account_text [ACCT_SIMULATED, ACCT_PAPER, ACCT_LIVE] (normal_label s)"

datatype order_permission = OBSERVATION_ONLY | PAPER_ORDERS_ALLOWED | LIVE_ORDERS_ALLOWED

fun permission_text :: "order_permission \<Rightarrow> string" where
  "permission_text OBSERVATION_ONLY = ''observation_only''"
| "permission_text PAPER_ORDERS_ALLOWED = ''paper_orders_allowed''"
| "permission_text LIVE_ORDERS_ALLOWED = ''live_orders_allowed''"

text \<open>\<open>OrderSubmissionPermission(value)\<close>: a member, or a text that is exactly its value.\<close>

fun permission_from_value :: "order_permission labelled \<Rightarrow> order_permission res" where
  "permission_from_value (Member p) = Inr p"
| "permission_from_value (Label s) =
     member_of permission_text [OBSERVATION_ONLY, PAPER_ORDERS_ALLOWED, LIVE_ORDERS_ALLOWED] s"

definition allows_order_submission :: "order_permission \<Rightarrow> bool" where
  "allows_order_submission p \<longleftrightarrow> p \<noteq> OBSERVATION_ONLY"

definition allows_live_orders :: "order_permission \<Rightarrow> bool" where
  "allows_live_orders p \<longleftrightarrow> p = LIVE_ORDERS_ALLOWED"

section \<open>The broker runtime configuration (\<open>config/models.py\<close>)\<close>

record broker_config_args =
  ba_mode :: "runtime_mode labelled"
  ba_broker_configured :: bool
  ba_account_configured :: bool
  ba_risk_configured :: bool
  ba_calendar_configured :: bool
  ba_kill_switch_configured :: bool
  ba_allow_live_orders :: bool
  ba_observation_only :: bool
  ba_broker_account_kind :: "string option"
  ba_execution_environment :: "execution_environment labelled option"
  ba_market_data_environment :: "market_data_environment labelled option"
  ba_account_environment :: "account_environment labelled option"
  ba_broker_account_code :: "string option"
  ba_broker_port :: "int option"
  ba_broker_port_override_reason :: "string option"
  ba_operator_signoff_id :: "string option"
  ba_api_read_only :: bool
  ba_broker_time_synced :: bool
  ba_market_data_permission_live :: bool
  ba_reconciliation_passed :: bool
  ba_open_order_reconciliation_passed :: "bool option"
  ba_position_reconciliation_passed :: "bool option"
  ba_cash_reconciliation_passed :: "bool option"
  ba_event_sink_writable :: bool
  ba_snapshot_store_configured :: bool
  ba_schema_version :: string

text \<open>The object after \<open>__post_init__\<close>: every label resolved, every default filled in.\<close>

record broker_config =
  bc_mode :: runtime_mode
  bc_broker_configured :: bool
  bc_account_configured :: bool
  bc_risk_configured :: bool
  bc_calendar_configured :: bool
  bc_kill_switch_configured :: bool
  bc_allow_live_orders :: bool
  bc_observation_only :: bool
  bc_broker_account_kind :: string
  bc_execution_environment :: execution_environment
  bc_market_data_environment :: market_data_environment
  bc_account_environment :: account_environment
  bc_broker_account_code :: "string option"
  bc_broker_port :: "int option"
  bc_broker_port_override_reason :: "string option"
  bc_operator_signoff_id :: "string option"
  bc_api_read_only :: bool
  bc_broker_time_synced :: bool
  bc_market_data_permission_live :: bool
  bc_reconciliation_passed :: bool
  bc_open_order_reconciliation_passed :: bool
  bc_position_reconciliation_passed :: bool
  bc_cash_reconciliation_passed :: bool
  bc_event_sink_writable :: bool
  bc_snapshot_store_configured :: bool
  bc_schema_version :: string

definition normalize_broker_account_kind :: "string option \<Rightarrow> account_environment \<Rightarrow> string res" where
  "normalize_broker_account_kind v env = (case v of
     None \<Rightarrow> Inr (account_text env)
   | Some s \<Rightarrow> (let n = lower (strip s)
               in if n \<in> {''paper'', ''live'', ''simulated''} then Inr n
                  else Inl (ValueError ''broker_account_kind must be paper, live, or simulated'')))"

text \<open>\<open>bool\<close> of an optional string: present and not empty.\<close>

definition truthy :: "string option \<Rightarrow> bool" where
  "truthy v = (case v of None \<Rightarrow> False | Some s \<Rightarrow> s \<noteq> [])"

definition validate_mode_contract :: "broker_config \<Rightarrow> broker_config res" where
  "validate_mode_contract c =
     (let is_paper_account = bc_broker_account_kind c = ''paper'';
          is_live_account = bc_broker_account_kind c = ''live''
      in if bc_mode c = LIVE then checked
           [(is_paper_account, ValueError ''live mode cannot use a paper account''),
            (truthy (bc_broker_account_code c) \<and> \<not> is_live_account, ValueError ''live mode requires a live account''),
            (bc_broker_account_kind c \<noteq> account_text ACCT_LIVE, ValueError ''live mode requires broker_account_kind=live''),
            (bc_account_environment c \<noteq> ACCT_LIVE, ValueError ''live mode requires account_environment=live''),
            (bc_execution_environment c \<noteq> EXEC_BROKER, ValueError ''live mode requires execution_environment=broker''),
            (bc_market_data_environment c \<noteq> REALTIME, ValueError ''live mode requires market_data_environment=realtime''),
            (bc_broker_port c \<noteq> None \<and> bc_broker_port c \<noteq> Some 4001 \<and> \<not> truthy (bc_broker_port_override_reason c),
             ValueError ''live broker port override requires broker_port_override_reason''),
            (\<not> bc_allow_live_orders c, ValueError ''live mode requires allow_live_orders=true''),
            (\<not> truthy (bc_operator_signoff_id c), ValueError ''live mode requires operator_signoff_id''),
            (bc_observation_only c, ValueError ''live mode with allow_live_orders cannot be observation_only'')] c
         else if bc_allow_live_orders c then Inl (ValueError (mode_text (bc_mode c) @ '' mode cannot allow live orders''))
         else if bc_mode c = PAPER_BROKER then checked
           [(truthy (bc_broker_account_code c) \<and> \<not> is_paper_account, ValueError ''paper broker mode requires a paper account''),
            (bc_broker_account_kind c \<noteq> account_text ACCT_PAPER, ValueError ''paper broker mode requires broker_account_kind=paper''),
            (bc_execution_environment c \<noteq> EXEC_BROKER, ValueError ''paper broker mode requires execution_environment=broker''),
            (bc_broker_port c \<noteq> None \<and> bc_broker_port c \<noteq> Some 4002, ValueError ''paper broker mode requires broker port 4002'')] c
         else if bc_mode c = PAPER_SIMULATED then checked
           [(bc_execution_environment c \<noteq> EXEC_SIMULATED, ValueError ''paper simulated mode requires execution_environment=simulated''),
            (bc_account_environment c \<noteq> ACCT_SIMULATED, ValueError ''paper simulated mode requires account_environment=simulated''),
            (bc_broker_account_kind c \<noteq> account_text ACCT_SIMULATED,
             ValueError ''paper simulated mode requires broker_account_kind=simulated'')] c
         else if bc_mode c \<in> {OBSERVATION, LIVE_OBSERVATION} then checked
           [(bc_execution_environment c \<noteq> EXEC_DISABLED,
             ValueError (mode_text (bc_mode c) @ '' mode requires execution_environment=disabled''))]
           (c\<lparr>bc_observation_only := True\<rparr>)
         else Inr c)"

definition resolved_config ::
  "broker_config_args \<Rightarrow> runtime_mode \<Rightarrow> execution_environment \<Rightarrow> market_data_environment \<Rightarrow> account_environment \<Rightarrow>
   string \<Rightarrow> broker_config" where
  "resolved_config a mode execution market_data account kind =
     \<lparr>bc_mode = mode, bc_broker_configured = ba_broker_configured a, bc_account_configured = ba_account_configured a,
      bc_risk_configured = ba_risk_configured a, bc_calendar_configured = ba_calendar_configured a,
      bc_kill_switch_configured = ba_kill_switch_configured a, bc_allow_live_orders = ba_allow_live_orders a,
      bc_observation_only = ba_observation_only a, bc_broker_account_kind = kind,
      bc_execution_environment = execution, bc_market_data_environment = market_data,
      bc_account_environment = account,
      bc_broker_account_code = map_option strip (ba_broker_account_code a),
      bc_broker_port = (case ba_broker_port a of Some p \<Rightarrow> Some p
         | None \<Rightarrow> if mode = LIVE then Some 4001 else if mode = PAPER_BROKER then Some 4002 else None),
      bc_broker_port_override_reason = map_option strip (ba_broker_port_override_reason a),
      bc_operator_signoff_id = map_option strip (ba_operator_signoff_id a),
      bc_api_read_only = ba_api_read_only a, bc_broker_time_synced = ba_broker_time_synced a,
      bc_market_data_permission_live = ba_market_data_permission_live a,
      bc_reconciliation_passed = ba_reconciliation_passed a,
      bc_open_order_reconciliation_passed =
        (case ba_open_order_reconciliation_passed a of Some b \<Rightarrow> b | None \<Rightarrow> ba_reconciliation_passed a),
      bc_position_reconciliation_passed =
        (case ba_position_reconciliation_passed a of Some b \<Rightarrow> b | None \<Rightarrow> ba_reconciliation_passed a),
      bc_cash_reconciliation_passed =
        (case ba_cash_reconciliation_passed a of Some b \<Rightarrow> b | None \<Rightarrow> ba_reconciliation_passed a),
      bc_event_sink_writable = ba_event_sink_writable a, bc_snapshot_store_configured = ba_snapshot_store_configured a,
      bc_schema_version = strip (ba_schema_version a)\<rparr>"

definition mk_broker_config :: "broker_config_args \<Rightarrow> broker_config res" where
  "mk_broker_config a =
     (if blank (ba_schema_version a) then Inl (ValueError ''schema_version must not be empty'')
      else res_bind (mode_from_value (ba_mode a)) (\<lambda>mode.
      if mode = BACKTEST then Inl (ValueError ''BrokerRuntimeConfig mode cannot be backtest'')
      else if mode \<notin> {PAPER_BROKER, LIVE_OBSERVATION, LIVE, OBSERVATION}
        then Inl (ValueError (''BrokerRuntimeConfig mode cannot be '' @ mode_text mode))
      else res_bind (execution_from_value (ba_execution_environment a) mode) (\<lambda>execution.
      res_bind (market_data_from_value (ba_market_data_environment a) mode) (\<lambda>market_data.
      res_bind (account_from_value (ba_account_environment a) mode) (\<lambda>account.
      res_bind (normalize_broker_account_kind (ba_broker_account_kind a) account) (\<lambda>kind.
      validate_mode_contract
        (resolved_config a mode execution market_data account kind)))))))"

section \<open>Operator signoff (\<open>live_capital.py\<close>)\<close>

record operator_signoff =
  sg_operator_id :: string
  sg_reason :: string
  sg_risk_approver_id :: string
  sg_engineering_approver_id :: string
  sg_expires_at :: instant
  sg_strategy_ids :: "string list"
  sg_account_ids :: "string list"
  sg_max_notional_limit :: decimal
  sg_allowed_instruments :: "string list"

definition normalized_scope :: "string list \<Rightarrow> string list" where
  "normalized_scope vs = [strip v. v \<leftarrow> vs, strip v \<noteq> []]"

definition mk_operator_signoff :: "operator_signoff \<Rightarrow> operator_signoff" where
  "mk_operator_signoff s =
     \<lparr>sg_operator_id = strip (sg_operator_id s), sg_reason = strip (sg_reason s),
      sg_risk_approver_id = strip (sg_risk_approver_id s),
      sg_engineering_approver_id = strip (sg_engineering_approver_id s),
      sg_expires_at = sg_expires_at s, sg_strategy_ids = normalized_scope (sg_strategy_ids s),
      sg_account_ids = normalized_scope (sg_account_ids s), sg_max_notional_limit = sg_max_notional_limit s,
      sg_allowed_instruments = normalized_scope (sg_allowed_instruments s)\<rparr>"

record enablement_request =
  eq_operator_signoff :: "operator_signoff option"
  eq_strategy_id :: string
  eq_account_id :: string
  eq_instrument_id :: string
  eq_requested_notional :: decimal

definition mk_enablement_request :: "enablement_request \<Rightarrow> enablement_request" where
  "mk_enablement_request q = q\<lparr>eq_strategy_id := strip (eq_strategy_id q),
     eq_account_id := strip (eq_account_id q), eq_instrument_id := strip (eq_instrument_id q)\<rparr>"

record enablement_decision =
  ed_allowed :: bool
  ed_order_permission :: order_permission
  ed_reason :: string
  ed_evaluated_at :: instant
  ed_operator_signoff :: "operator_signoff option"
  ed_request :: enablement_request

definition scope_reason :: "string \<Rightarrow> string \<Rightarrow> string \<Rightarrow> string list \<Rightarrow> string list" where
  "scope_reason scope_name name value approved =
     (if approved = [] then [scope_name @ '' scope is required'']
      else if value \<notin> set approved then [name @ '' '' @ value @ '' is not approved''] else [])"

definition signoff_reasons :: "enablement_request \<Rightarrow> operator_signoff \<Rightarrow> instant \<Rightarrow> string list" where
  "signoff_reasons q s evaluated_at =
     (let approvers = {sg_operator_id s, sg_risk_approver_id s, sg_engineering_approver_id s}
      in (if sg_operator_id s = [] then [''operator_id is required''] else []) @
         (if sg_reason s = [] then [''reason is required''] else []) @
         (if sg_risk_approver_id s = [] then [''risk_approver_id is required''] else []) @
         (if sg_engineering_approver_id s = [] then [''engineering_approver_id is required''] else []) @
         (if [] \<notin> approvers \<and> card approvers \<noteq> 3
          then [''operator, risk, and engineering approvers must be distinct''] else []) @
         (if sg_expires_at s \<le> evaluated_at then [''operator_signoff expired''] else []) @
         scope_reason ''strategy_ids'' ''strategy_id'' (eq_strategy_id q) (sg_strategy_ids s) @
         scope_reason ''account_ids'' ''account_id'' (eq_account_id q) (sg_account_ids s) @
         scope_reason ''allowed_instruments'' ''instrument_id'' (eq_instrument_id q) (sg_allowed_instruments s) @
         (if sg_max_notional_limit s \<le> 0 then [''max_notional_limit must be positive'']
          else if eq_requested_notional q > sg_max_notional_limit s
            then [''requested_notional exceeds max_notional_limit''] else []))"

fun join_text :: "string \<Rightarrow> string list \<Rightarrow> string" where
  "join_text sep [] = []"
| "join_text sep [s] = s"
| "join_text sep (s # t # ss) = s @ sep @ join_text sep (t # ss)"

definition evaluate_enablement :: "enablement_request \<Rightarrow> instant option \<Rightarrow> instant \<Rightarrow> enablement_decision" where
  "evaluate_enablement q now clock =
     (let evaluated_at = (case now of Some t \<Rightarrow> t | None \<Rightarrow> clock);
          reasons = (case eq_operator_signoff q of
              None \<Rightarrow> [''operator_signoff is required'']
            | Some s \<Rightarrow> signoff_reasons q s evaluated_at);
          allowed = (reasons = [])
      in \<lparr>ed_allowed = allowed,
          ed_order_permission = (if allowed then LIVE_ORDERS_ALLOWED else OBSERVATION_ONLY),
          ed_reason = (if reasons \<noteq> [] then join_text ''; '' reasons else ''live capital signoff accepted''),
          ed_evaluated_at = evaluated_at, ed_operator_signoff = eq_operator_signoff q, ed_request = q\<rparr>)"

definition ed_observation_only :: "enablement_decision \<Rightarrow> bool" where
  "ed_observation_only d \<longleftrightarrow> \<not> ed_allowed d"

section \<open>The last-mile order decision\<close>

datatype startup_status = ALLOW_OBSERVATION | ALLOW_PAPER | ALLOW_LIVE | BLOCK_STARTUP

fun startup_status_text :: "startup_status \<Rightarrow> string" where
  "startup_status_text ALLOW_OBSERVATION = ''allow_observation''"
| "startup_status_text ALLOW_PAPER = ''allow_paper''"
| "startup_status_text ALLOW_LIVE = ''allow_live''"
| "startup_status_text BLOCK_STARTUP = ''block''"

fun status_value :: "startup_status labelled \<Rightarrow> string" where
  "status_value (Member s) = lower (strip (startup_status_text s))"
| "status_value (Label s) = lower (strip s)"

record live_order_decision =
  lo_runtime_mode :: "runtime_mode labelled"
  lo_order_submission_permission :: "order_permission labelled"
  lo_startup_decision_status :: "startup_status labelled"
  lo_operator_signoff_valid :: bool
  lo_market_data_permission :: string
  lo_market_data_freshness :: string
  lo_reconciliation_status :: string
  lo_kill_switch_active :: bool
  lo_broker_account_kind :: string
  lo_broker_account_code :: string
  lo_gateway_port :: int
  lo_approved_gateway_port_override :: bool
  lo_disabled_reason :: "string option"

definition live_orders_disabled :: live_order_decision where
  "live_orders_disabled =
     \<lparr>lo_runtime_mode = Member LIVE, lo_order_submission_permission = Member OBSERVATION_ONLY,
      lo_startup_decision_status = Label ''block'', lo_operator_signoff_valid = False,
      lo_market_data_permission = ''unknown'', lo_market_data_freshness = ''unknown'',
      lo_reconciliation_status = ''unknown'', lo_kill_switch_active = True,
      lo_broker_account_kind = ''unknown'', lo_broker_account_code = [], lo_gateway_port = 0,
      lo_approved_gateway_port_override = False, lo_disabled_reason = Some ''LIVE_CAPITAL_DISABLED''\<rparr>"

definition starts_with :: "string \<Rightarrow> string \<Rightarrow> bool" where
  "starts_with p s \<longleftrightarrow> take (length p) s = p"

definition is_live_account_code :: "string \<Rightarrow> bool" where
  "is_live_account_code code =
     (let normalized = upper (strip code) in starts_with ''DU'' normalized \<and> \<not> starts_with ''DUP'' normalized)"

text \<open>The first condition that holds names the reason.\<close>

fun first_reason :: "(bool \<times> string) list \<Rightarrow> string option" where
  "first_reason [] = None"
| "first_reason ((b, r) # cs) = (if b then Some r else first_reason cs)"

definition live_blocked_reason :: "live_order_decision \<Rightarrow> string option res" where
  "live_blocked_reason d =
     (if lo_disabled_reason d \<noteq> None then Inr (lo_disabled_reason d)
      else res_bind (mode_from_value (lo_runtime_mode d)) (\<lambda>mode.
      if mode \<noteq> LIVE then Inr (Some ''LIVE_RUNTIME_MODE_REQUIRED'')
      else res_bind (permission_from_value (lo_order_submission_permission d)) (\<lambda>permission.
      Inr (first_reason
        [(permission \<noteq> LIVE_ORDERS_ALLOWED, ''LIVE_ORDER_PERMISSION_REQUIRED''),
         (status_value (lo_startup_decision_status d) \<noteq> ''allow_live'', ''LIVE_STARTUP_NOT_ALLOWED''),
         (\<not> lo_operator_signoff_valid d, ''LIVE_OPERATOR_SIGNOFF_REQUIRED''),
         (lower (strip (lo_market_data_permission d)) \<noteq> ''live'', ''LIVE_MARKET_DATA_PERMISSION_REQUIRED''),
         (lower (strip (lo_market_data_freshness d)) \<noteq> ''fresh'', ''LIVE_MARKET_DATA_NOT_FRESH''),
         (lower (strip (lo_reconciliation_status d)) \<noteq> ''clean'', ''LIVE_RECONCILIATION_NOT_CLEAN''),
         (lo_kill_switch_active d, ''LIVE_KILL_SWITCH_ACTIVE''),
         (lower (strip (lo_broker_account_kind d)) \<noteq> ''live'', ''LIVE_ACCOUNT_KIND_REQUIRED''),
         (\<not> is_live_account_code (lo_broker_account_code d), ''LIVE_ACCOUNT_CODE_REQUIRED''),
         (lo_gateway_port d \<noteq> 4001 \<and> \<not> lo_approved_gateway_port_override d, ''LIVE_GATEWAY_PORT_REQUIRED'')]))))"

definition assert_live_order_allowed :: "live_order_decision \<Rightarrow> unit res" where
  "assert_live_order_allowed d = res_bind (live_blocked_reason d) (\<lambda>reason.
     case reason of None \<Rightarrow> Inr () | Some r \<Rightarrow> Inl (PermissionError r))"

section \<open>Readiness from the kill-switch drill\<close>

text \<open>A JSON value. The text of a \<open>Decimal\<close> and the ISO text of a time are kept before rendering (\<open>JDecimalText\<close>,
  \<open>JTimeText\<close>). The evidence file is missing, unreadable as JSON, or holds a value.\<close>

datatype json = JNull | JBool bool | JNumber rat | JText string | JDecimalText decimal | JTimeText instant
  | JList "json list" | JObject "(string, json) dict"

datatype evidence_file = FileMissing | FileMalformed | FileValue json

record readiness_decision =
  rn_ready :: bool
  rn_reason_code :: "string option"

text \<open>\<open>==\<close> between a JSON value and 1: \<open>True == 1\<close> and \<open>1.0 == 1\<close> in Python.\<close>

definition json_equals_one :: "json \<Rightarrow> bool" where
  "json_equals_one j \<longleftrightarrow> j = JNumber 1 \<or> j = JBool True"

definition json_get :: "(string, json) dict \<Rightarrow> string \<Rightarrow> json" where
  "json_get d k = dict_lookup d k JNull"

definition payload_satisfies_kill_switch_gate :: "(string, json) dict \<Rightarrow> bool" where
  "payload_satisfies_kill_switch_gate payload =
     (case json_get payload ''manifest'' of
        JObject manifest \<Rightarrow>
          json_equals_one (json_get payload ''schema_version'') \<and>
          json_get payload ''collector'' = JText ''kill_switch_drill'' \<and>
          json_get payload ''live_orders_enabled'' = JBool False \<and>
          list_all (\<lambda>flag. json_get manifest flag = JBool True)
            [''kill_switch_blocks_new_orders'', ''kill_switch_allows_safety_cancel'',
             ''kill_switch_deactivation_requires_authorized_signoff'', ''live_capital_disabled_by_default'',
             ''deterministic_no_network'']
      | _ \<Rightarrow> False)"

definition readiness_from_drill :: "evidence_file \<Rightarrow> readiness_decision" where
  "readiness_from_drill f =
     (case f of
        FileMissing \<Rightarrow> \<lparr>rn_ready = False, rn_reason_code = Some ''KILL_SWITCH_DRILL_EVIDENCE_MISSING''\<rparr>
      | FileMalformed \<Rightarrow> \<lparr>rn_ready = False, rn_reason_code = Some ''KILL_SWITCH_DRILL_EVIDENCE_INVALID''\<rparr>
      | FileValue (JObject payload) \<Rightarrow>
          if payload_satisfies_kill_switch_gate payload then \<lparr>rn_ready = True, rn_reason_code = None\<rparr>
          else \<lparr>rn_ready = False, rn_reason_code = Some ''KILL_SWITCH_DRILL_EVIDENCE_INCOMPLETE''\<rparr>
      | FileValue _ \<Rightarrow> \<lparr>rn_ready = False, rn_reason_code = Some ''KILL_SWITCH_DRILL_EVIDENCE_INVALID''\<rparr>)"

section \<open>The startup checklist (\<open>broker_startup.py\<close>)\<close>

datatype evidence_part = EvText string | EvFlag bool | EvNumber decimal | EvInteger int | EvInstant instant

text \<open>Only literal or interpolated text can be whitespace: a rendered flag, number or time never is.\<close>

fun part_blank :: "evidence_part \<Rightarrow> bool" where
  "part_blank (EvText s) = blank s"
| "part_blank _ = False"

record startup_check =
  sk_name :: string
  sk_status :: string
  sk_severity :: string
  sk_evidence :: "evidence_part list"
  sk_remediation :: string

definition mk_startup_check :: "startup_check \<Rightarrow> startup_check res" where
  [ctor_simps]: "mk_startup_check k = checked
     [(blank (sk_name k), ValueError ''check_name must not be empty''),
      (sk_status k \<notin> {''PASS'', ''WARN'', ''FAIL''}, ValueError ''status must be PASS, WARN, or FAIL''),
      (sk_severity k \<notin> {''INFO'', ''WARNING'', ''BLOCKER''}, ValueError ''severity must be INFO, WARNING, or BLOCKER''),
      (list_all part_blank (sk_evidence k), ValueError ''evidence must not be empty''),
      (blank (sk_remediation k), ValueError ''remediation must not be empty'')] k"

definition checklist_item :: "string \<Rightarrow> bool \<Rightarrow> evidence_part list \<Rightarrow> string \<Rightarrow> startup_check res" where
  "checklist_item name passed evidence remediation = mk_startup_check
     \<lparr>sk_name = name, sk_status = (if passed then ''PASS'' else ''FAIL''),
      sk_severity = (if passed then ''INFO'' else ''BLOCKER''), sk_evidence = evidence,
      sk_remediation = (if passed then ''none'' else remediation)\<rparr>"

abbreviation checklist_items :: "(string \<times> bool \<times> evidence_part list \<times> string) list \<Rightarrow> startup_check list res" where
  "checklist_items rows \<equiv> res_map (\<lambda>(name, passed, evidence, remediation). checklist_item name passed evidence remediation) rows"

definition optional_text :: "string option \<Rightarrow> evidence_part" where
  "optional_text v = EvText (case v of None \<Rightarrow> ''None'' | Some s \<Rightarrow> s)"

definition optional_integer :: "int option \<Rightarrow> evidence_part" where
  "optional_integer v = (case v of None \<Rightarrow> EvText ''None'' | Some n \<Rightarrow> EvInteger n)"

definition connectivity_checks :: "broker_config \<Rightarrow> startup_check list res" where
  "connectivity_checks c =
     (let broker_port_needed = bc_mode c \<in> {LIVE, PAPER_BROKER} in
      checklist_items
       [(''broker_configured'', bc_broker_configured c,
         [EvText ''broker_configured='', EvFlag (bc_broker_configured c)], ''configure broker connection''),
        (''account_configured'', bc_account_configured c,
         [EvText ''account_configured='', EvFlag (bc_account_configured c)], ''configure account mapping''),
        (''account_mode_check'', bc_account_configured c,
         [EvText ''account_environment='', EvText (account_text (bc_account_environment c)),
          EvText '';broker_account_kind='', EvText (bc_broker_account_kind c),
          EvText '';broker_account_code='', optional_text (bc_broker_account_code c)],
         ''configure account environment and broker account kind for the runtime mode''),
        (''port_check'', \<not> broker_port_needed \<or> bc_broker_port c \<noteq> None,
         (if broker_port_needed then [EvText ''broker_port='', optional_integer (bc_broker_port c)]
          else [EvText ''broker_port=not_required'']),
         ''configure the broker port for the runtime mode'')])"

definition data_checks :: "broker_config \<Rightarrow> startup_check list res" where
  "data_checks c = checklist_items
     [(''market_data_permission_check'', bc_market_data_permission_live c,
       [EvText ''market_data_permission_live='', EvFlag (bc_market_data_permission_live c)],
       ''obtain live market-data permission or switch to observation-only''),
      (''broker_time_check'', bc_broker_time_synced c,
       [EvText ''broker_time_synced='', EvFlag (bc_broker_time_synced c)],
       ''synchronize broker/runtime clocks before startup''),
      (''calendar_configured'', bc_calendar_configured c,
       [EvText ''calendar_configured='', EvFlag (bc_calendar_configured c)], ''configure trading calendar'')]"

definition execution_checks :: "broker_config \<Rightarrow> startup_check list res" where
  "execution_checks c = checklist_items
     [(''api_read_only_check'', bc_mode c \<noteq> LIVE \<or> \<not> bc_api_read_only c,
       [EvText ''api_read_only='', EvFlag (bc_api_read_only c)],
       ''disable broker API read-only mode before enabling live orders''),
      (''risk_config_check'', bc_risk_configured c,
       [EvText ''risk_configured='', EvFlag (bc_risk_configured c)], ''configure risk limits''),
      (''kill_switch_check'', bc_kill_switch_configured c,
       [EvText ''kill_switch_configured='', EvFlag (bc_kill_switch_configured c)], ''configure kill switch''),
      (''event_sink_check'', bc_event_sink_writable c,
       [EvText ''event_sink_writable='', EvFlag (bc_event_sink_writable c)], ''configure a writable runtime event sink''),
      (''snapshot_store_check'', bc_snapshot_store_configured c,
       [EvText ''snapshot_store_configured='', EvFlag (bc_snapshot_store_configured c)],
       ''configure a runtime snapshot store'')]"

definition reconciliation_checks :: "broker_config \<Rightarrow> startup_check list res" where
  "reconciliation_checks c = checklist_items
     [(''open_order_reconciliation_check'', bc_open_order_reconciliation_passed c,
       [EvText ''open_order_reconciliation_passed='', EvFlag (bc_open_order_reconciliation_passed c)],
       ''run open-order reconciliation and resolve drift''),
      (''position_reconciliation_check'', bc_position_reconciliation_passed c,
       [EvText ''position_reconciliation_passed='', EvFlag (bc_position_reconciliation_passed c)],
       ''run position reconciliation and resolve drift''),
      (''cash_reconciliation_check'', bc_cash_reconciliation_passed c,
       [EvText ''cash_reconciliation_passed='', EvFlag (bc_cash_reconciliation_passed c)],
       ''run cash reconciliation and resolve drift'')]"

definition checklist_evidence :: "enablement_decision \<Rightarrow> evidence_part list" where
  "checklist_evidence d =
     (case ed_operator_signoff d of
        None \<Rightarrow> [EvText ''allowed='', EvFlag (ed_allowed d), EvText '';reason='', EvText (ed_reason d)]
      | Some s \<Rightarrow>
         [EvText ''allowed='', EvFlag (ed_allowed d), EvText '';operator_id='', EvText (sg_operator_id s),
          EvText '';risk_approver_id='', EvText (sg_risk_approver_id s),
          EvText '';engineering_approver_id='', EvText (sg_engineering_approver_id s),
          EvText '';expires_at='', EvInstant (sg_expires_at s),
          EvText '';strategy_ids='', EvText (join_text '','' (sg_strategy_ids s)),
          EvText '';account_ids='', EvText (join_text '','' (sg_account_ids s)),
          EvText '';allowed_instruments='', EvText (join_text '','' (sg_allowed_instruments s)),
          EvText '';max_notional_limit='', EvNumber (sg_max_notional_limit s),
          EvText '';reason='', EvText (ed_reason d)])"

definition capital_checks :: "broker_config \<Rightarrow> enablement_decision option \<Rightarrow> startup_check list res" where
  "capital_checks c decision =
     res_bind (checklist_item ''operator_signoff_check'' (bc_mode c \<noteq> LIVE \<or> truthy (bc_operator_signoff_id c))
       (if bc_mode c = LIVE then [EvText ''operator_signoff_id='', optional_text (bc_operator_signoff_id c)]
        else [EvText ''operator_signoff_id=not_required''])
       ''record operator signoff before enabling live orders'') (\<lambda>signoff_check.
     res_bind (if bc_mode c = LIVE
       then checklist_item ''live_capital_signoff_check''
              (case decision of None \<Rightarrow> False | Some d \<Rightarrow> ed_allowed d)
              (case decision of None \<Rightarrow> [EvText ''live_capital_signoff=missing''] | Some d \<Rightarrow> checklist_evidence d)
              ''record non-expired dual-control signoff within approved scope''
       else mk_startup_check
              \<lparr>sk_name = ''live_capital_signoff_check'', sk_status = ''PASS'', sk_severity = ''INFO'',
               sk_evidence = [EvText ''live_capital_signoff=not_required''], sk_remediation = ''none''\<rparr>)
       (\<lambda>capital_check. Inr [signoff_check, capital_check]))"

definition check_order :: "string list" where
  "check_order =
     [''broker_configured'', ''account_configured'', ''account_mode_check'', ''port_check'', ''api_read_only_check'',
      ''broker_time_check'', ''risk_config_check'', ''calendar_configured'', ''kill_switch_check'',
      ''market_data_permission_check'', ''open_order_reconciliation_check'', ''position_reconciliation_check'',
      ''cash_reconciliation_check'', ''event_sink_check'', ''snapshot_store_check'', ''operator_signoff_check'',
      ''live_capital_signoff_check'']"

definition checklist_from_config :: "broker_config \<Rightarrow> enablement_decision option \<Rightarrow> startup_check list res" where
  "checklist_from_config c decision =
     res_bind (connectivity_checks c) (\<lambda>connectivity. res_bind (data_checks c) (\<lambda>data.
     res_bind (execution_checks c) (\<lambda>execution. res_bind (reconciliation_checks c) (\<lambda>reconciliation.
     res_bind (capital_checks c decision) (\<lambda>capital.
       let by_name = dict_of [(sk_name k, k). k \<leftarrow> connectivity @ data @ execution @ reconciliation @ capital]
       in res_map (\<lambda>n. case map_of by_name n of None \<Rightarrow> Inl (KeyError n) | Some k \<Rightarrow> Inr k) check_order)))))"

definition check_blocks :: "startup_check \<Rightarrow> bool" where
  "check_blocks k \<longleftrightarrow> sk_status k = ''FAIL'' \<and> sk_severity k = ''BLOCKER''"

definition checklist_passed :: "startup_check list \<Rightarrow> bool" where
  "checklist_passed ks = list_all (\<lambda>k. \<not> check_blocks k) ks"

definition checklist_by_name :: "startup_check list \<Rightarrow> string \<Rightarrow> startup_check res" where
  "checklist_by_name ks name = (case find (\<lambda>k. sk_name k = name) ks of
     Some k \<Rightarrow> Inr k | None \<Rightarrow> Inl (KeyError name))"

record startup_decision =
  sd_status :: startup_status
  sd_mode :: runtime_mode
  sd_order_permission :: order_permission
  sd_real_order_submission_enabled :: bool
  sd_checklist :: "startup_check list"

definition startup_decision_status :: "runtime_mode \<Rightarrow> enablement_decision option \<Rightarrow> startup_status" where
  "startup_decision_status mode decision =
     (if mode = LIVE then
        (case decision of None \<Rightarrow> ALLOW_OBSERVATION
         | Some d \<Rightarrow> if \<not> ed_allowed d then ALLOW_OBSERVATION else ALLOW_LIVE)
      else if mode \<in> {PAPER_BROKER, PAPER_SIMULATED} then ALLOW_PAPER
      else if mode \<in> {OBSERVATION, LIVE_OBSERVATION} then ALLOW_OBSERVATION
      else BLOCK_STARTUP)"

fun order_permission_for_status :: "startup_status \<Rightarrow> order_permission" where
  "order_permission_for_status ALLOW_LIVE = LIVE_ORDERS_ALLOWED"
| "order_permission_for_status ALLOW_PAPER = PAPER_ORDERS_ALLOWED"
| "order_permission_for_status _ = OBSERVATION_ONLY"

text \<open>The message lists the failed checks; the model keeps their names.\<close>

definition missing_checks :: "startup_check list \<Rightarrow> startup_check list" where
  "missing_checks ks = filter (\<lambda>k. check_blocks k \<and> sk_name k \<noteq> ''live_capital_signoff_check'') ks"

definition validate_live_startup ::
  "broker_config \<Rightarrow> enablement_request option \<Rightarrow> instant \<Rightarrow> startup_decision res" where
  "validate_live_startup c request clock =
     (let decision = map_option (\<lambda>q. evaluate_enablement q None clock) request in
      res_bind (checklist_from_config c decision) (\<lambda>checks.
        if missing_checks checks \<noteq> []
        then Inl (ValueError (''live startup missing required config: '' @ join_text '', '' (map sk_name (missing_checks checks))))
        else let status = startup_decision_status (bc_mode c) decision in
          Inr \<lparr>sd_status = status, sd_mode = bc_mode c, sd_order_permission = order_permission_for_status status,
               sd_real_order_submission_enabled =
                 (allows_live_orders (order_permission_for_status status) \<and> bc_allow_live_orders c \<and>
                  \<not> bc_observation_only c),
               sd_checklist = checks\<rparr>))"

section \<open>The startup gate (\<open>startup_gate.py\<close>)\<close>

definition startup_gate_reason :: "runtime_mode \<Rightarrow> startup_decision option \<Rightarrow> string option" where
  "startup_gate_reason mode decision =
     (case decision of
        None \<Rightarrow> if mode = LIVE then Some ''LIVE_STARTUP_NOT_ALLOWED''
                else if mode = PAPER_BROKER then Some ''BROKER_STARTUP_NOT_ALLOWED'' else None
      | Some d \<Rightarrow>
         if \<not> allows_order_submission (sd_order_permission d) then Some ''OBSERVATION_ONLY''
         else if mode = LIVE \<and> \<not> allows_live_orders (sd_order_permission d) then Some ''LIVE_ORDER_PERMISSION_REQUIRED''
         else if allows_live_orders (sd_order_permission d) \<and> \<not> sd_real_order_submission_enabled d
           then Some ''LIVE_STARTUP_NOT_ALLOWED''
         else None)"

section \<open>What the checklist says\<close>

definition item :: "string \<Rightarrow> bool \<Rightarrow> evidence_part list \<Rightarrow> string \<Rightarrow> startup_check" where
  "item name passed evidence remediation =
     \<lparr>sk_name = name, sk_status = (if passed then ''PASS'' else ''FAIL''),
      sk_severity = (if passed then ''INFO'' else ''BLOCKER''), sk_evidence = evidence,
      sk_remediation = (if passed then ''none'' else remediation)\<rparr>"

lemma item_simps [simp]:
  "sk_name (item n p e r) = n" "sk_evidence (item n p e r) = e" "check_blocks (item n p e r) \<longleftrightarrow> \<not> p"
  by (auto simp: item_def check_blocks_def)

lemma literal_not_blank: "\<not> is_space c \<Longrightarrow> \<not> blank (c # s)"
  by simp

lemma letters_not_space [simp]:
  "\<not> is_space (CHR ''a'')" "\<not> is_space (CHR ''b'')" "\<not> is_space (CHR ''c'')" "\<not> is_space (CHR ''d'')"
  "\<not> is_space (CHR ''e'')" "\<not> is_space (CHR ''k'')" "\<not> is_space (CHR ''l'')" "\<not> is_space (CHR ''m'')" "\<not> is_space (CHR ''n'')"
  "\<not> is_space (CHR ''o'')" "\<not> is_space (CHR ''p'')" "\<not> is_space (CHR ''r'')" "\<not> is_space (CHR ''s'')"
  by (simp_all add: is_space_def)

lemma checklist_item_ok:
  "\<not> blank name \<Longrightarrow> \<not> part_blank e \<Longrightarrow> \<not> blank remediation \<Longrightarrow>
     checklist_item name p (e # es) remediation = Inr (item name p (e # es) remediation)"
  by (cases p) (simp_all add: checklist_item_def mk_startup_check_def item_def checked_def)

lemma checklist_evidence_starts: "\<exists>es. checklist_evidence d = EvText ''allowed='' # es"
  by (simp add: checklist_evidence_def split: option.split)

text \<open>The name of every check, and whether it blocks.\<close>

definition rows :: "startup_check list \<Rightarrow> (string \<times> bool) list" where
  "rows ks = map (\<lambda>k. (sk_name k, check_blocks k)) ks"

lemma rows_simps [simp]: "rows [] = []" "rows (k # ks) = (sk_name k, check_blocks k) # rows ks"
  "rows (ks @ ls) = rows ks @ rows ls" "map fst (rows ks) = map sk_name ks"
  by (simp_all add: rows_def comp_def)

lemma connectivity_rows:
  "\<exists>ks. connectivity_checks c = Inr ks \<and> rows ks =
     [(''broker_configured'', \<not> bc_broker_configured c), (''account_configured'', \<not> bc_account_configured c),
      (''account_mode_check'', \<not> bc_account_configured c),
      (''port_check'', bc_mode c \<in> {LIVE, PAPER_BROKER} \<and> bc_broker_port c = None)]"
  by (cases "bc_mode c \<in> {LIVE, PAPER_BROKER}") (simp_all add: connectivity_checks_def checklist_item_ok)

lemma data_rows:
  "\<exists>ks. data_checks c = Inr ks \<and> rows ks =
     [(''market_data_permission_check'', \<not> bc_market_data_permission_live c),
      (''broker_time_check'', \<not> bc_broker_time_synced c), (''calendar_configured'', \<not> bc_calendar_configured c)]"
  by (simp add: data_checks_def checklist_item_ok)

lemma execution_rows:
  "\<exists>ks. execution_checks c = Inr ks \<and> rows ks =
     [(''api_read_only_check'', bc_mode c = LIVE \<and> bc_api_read_only c), (''risk_config_check'', \<not> bc_risk_configured c),
      (''kill_switch_check'', \<not> bc_kill_switch_configured c), (''event_sink_check'', \<not> bc_event_sink_writable c),
      (''snapshot_store_check'', \<not> bc_snapshot_store_configured c)]"
  by (simp add: execution_checks_def checklist_item_ok)

lemma reconciliation_rows:
  "\<exists>ks. reconciliation_checks c = Inr ks \<and> rows ks =
     [(''open_order_reconciliation_check'', \<not> bc_open_order_reconciliation_passed c),
      (''position_reconciliation_check'', \<not> bc_position_reconciliation_passed c),
      (''cash_reconciliation_check'', \<not> bc_cash_reconciliation_passed c)]"
  by (simp add: reconciliation_checks_def checklist_item_ok)

lemma capital_rows:
  "\<exists>ks. capital_checks c decision = Inr ks \<and> rows ks =
     [(''operator_signoff_check'', bc_mode c = LIVE \<and> \<not> truthy (bc_operator_signoff_id c)),
      (''live_capital_signoff_check'', bc_mode c = LIVE \<and> \<not> (\<exists>d. decision = Some d \<and> ed_allowed d))]"
proof -
  obtain es where "decision = None \<or> (\<exists>d. decision = Some d \<and> checklist_evidence d = EvText ''allowed='' # es)"
    using checklist_evidence_starts by (cases decision) auto
  moreover have "mk_startup_check \<lparr>sk_name = ''live_capital_signoff_check'', sk_status = ''PASS'', sk_severity = ''INFO'',
      sk_evidence = [EvText ''live_capital_signoff=not_required''], sk_remediation = ''none''\<rparr> =
      Inr (item ''live_capital_signoff_check'' True [EvText ''live_capital_signoff=not_required''] ''none'')"
    by (simp add: mk_startup_check_def item_def checked_def)
  ultimately show ?thesis
    by (cases "bc_mode c = LIVE") (auto simp: capital_checks_def checklist_item_ok)
qed

text \<open>Looking every name of a permutation up in the dictionary of the checks yields the checks.\<close>

lemma look_up_all:
  assumes "distinct (map nm ks)" and "set order \<subseteq> set (map nm ks)"
  shows "\<exists>ls. res_map (\<lambda>n. case map_of (dict_of (map (\<lambda>k. (nm k, k)) ks)) n of None \<Rightarrow> Inl (KeyError n) | Some k \<Rightarrow> Inr k)
                order = Inr ls \<and> map nm ls = order \<and> set ls = {k \<in> set ks. nm k \<in> set order}"
proof -
  have d: "dict_of (map (\<lambda>k. (nm k, k)) ks) = map (\<lambda>k. (nm k, k)) ks"
    using assms(1) by (intro dict_of_distinct) (simp add: comp_def)
  have look: "k \<in> set ks \<Longrightarrow> map_of (map (\<lambda>k. (nm k, k)) ks) (nm k) = Some k" for k
    using assms(1) by (induction ks) (auto simp: rev_image_eqI)
  show ?thesis using assms(2)
  proof (induction order)
    case (Cons n order)
    then obtain ls where ls: "res_map (\<lambda>n. case map_of (dict_of (map (\<lambda>k. (nm k, k)) ks)) n of
        None \<Rightarrow> Inl (KeyError n) | Some k \<Rightarrow> Inr k) order = Inr ls" "map nm ls = order"
        "set ls = {k \<in> set ks. nm k \<in> set order}" by auto
    from Cons.prems obtain k where k: "k \<in> set ks" "n = nm k" by auto
    have "{l \<in> set ks. nm l \<in> set (n # order)} = insert k {l \<in> set ks. nm l \<in> set order}"
      using k assms(1) by (auto simp: distinct_map inj_on_def)
    with ls k look [OF k(1)] show ?case by (simp add: d)
  qed simp
qed

text \<open>The seventeen checks: the checklist can always be built, in the order of \<open>check_order\<close>, and blocks where the
  configuration or the signoff falls short.\<close>

definition checklist_rows :: "broker_config \<Rightarrow> enablement_decision option \<Rightarrow> (string \<times> bool) list" where
  "checklist_rows c decision =
     [(''broker_configured'', \<not> bc_broker_configured c), (''account_configured'', \<not> bc_account_configured c),
      (''account_mode_check'', \<not> bc_account_configured c),
      (''port_check'', bc_mode c \<in> {LIVE, PAPER_BROKER} \<and> bc_broker_port c = None),
      (''market_data_permission_check'', \<not> bc_market_data_permission_live c),
      (''broker_time_check'', \<not> bc_broker_time_synced c), (''calendar_configured'', \<not> bc_calendar_configured c),
      (''api_read_only_check'', bc_mode c = LIVE \<and> bc_api_read_only c), (''risk_config_check'', \<not> bc_risk_configured c),
      (''kill_switch_check'', \<not> bc_kill_switch_configured c), (''event_sink_check'', \<not> bc_event_sink_writable c),
      (''snapshot_store_check'', \<not> bc_snapshot_store_configured c),
      (''open_order_reconciliation_check'', \<not> bc_open_order_reconciliation_passed c),
      (''position_reconciliation_check'', \<not> bc_position_reconciliation_passed c),
      (''cash_reconciliation_check'', \<not> bc_cash_reconciliation_passed c),
      (''operator_signoff_check'', bc_mode c = LIVE \<and> \<not> truthy (bc_operator_signoff_id c)),
      (''live_capital_signoff_check'', bc_mode c = LIVE \<and> \<not> (\<exists>d. decision = Some d \<and> ed_allowed d))]"

lemma checklist_names: "set check_order = fst ` set (checklist_rows c d)" "distinct (map fst (checklist_rows c d))"
proof -
  show "set check_order = fst ` set (checklist_rows c d)"
    unfolding check_order_def checklist_rows_def by auto
  have "distinct check_order" unfolding check_order_def by code_simp
  moreover have "mset (map fst (checklist_rows c d)) = mset check_order"
    by (simp add: check_order_def checklist_rows_def)
  ultimately show "distinct (map fst (checklist_rows c d))" using mset_eq_imp_distinct_iff by blast
qed

lemma checklist_ok:
  "\<exists>ks. checklist_from_config c decision = Inr ks \<and> map sk_name ks = check_order \<and>
        set (rows ks) = set (checklist_rows c decision)"
proof -
  obtain a b e r k where parts: "connectivity_checks c = Inr a" "data_checks c = Inr b" "execution_checks c = Inr e"
    "reconciliation_checks c = Inr r" "capital_checks c decision = Inr k"
    and rws: "rows (a @ b @ e @ r @ k) = checklist_rows c decision"
    using connectivity_rows [of c] data_rows [of c] execution_rows [of c] reconciliation_rows [of c]
      capital_rows [of c decision] by (fastforce simp: checklist_rows_def)
  define every where "every = a @ b @ e @ r @ k"
  have names: "map sk_name every = map fst (checklist_rows c decision)"
    unfolding rws [folded every_def, symmetric] by (rule rows_simps(4) [symmetric])
  obtain ls where ls: "res_map (\<lambda>n. case map_of (dict_of (map (\<lambda>k. (sk_name k, k)) every)) n of
      None \<Rightarrow> Inl (KeyError n) | Some k \<Rightarrow> Inr k) check_order = Inr ls" "map sk_name ls = check_order" "set ls = set every"
    using look_up_all [of sk_name every check_order] checklist_names [of c decision] unfolding names
    by (metis (no_types, lifting) Collect_mem_eq Collect_cong image_eqI list.set_map names subsetI)
  have "checklist_from_config c decision = Inr ls"
    using ls(1) by (simp only: checklist_from_config_def parts res_bind_simps Let_def every_def)
  moreover have "set (rows ls) = set (checklist_rows c decision)"
    unfolding rws [folded every_def, symmetric] by (simp add: rows_def ls(3))
  ultimately show ?thesis using ls(2) by blast
qed

section \<open>Properties\<close>

lemma card_three: "card {a, b, c} = 3 \<longleftrightarrow> distinct [a, b, c]"
proof (cases "distinct [a, b, c]")
  case False
  then have "{a, b, c} = {a, b} \<or> {a, b, c} = {b, c} \<or> {a, b, c} = {a, c}" by auto
  then show ?thesis using False card_2_iff' [of "{}"]
    by (elim disjE) (auto simp: card_insert_if)
qed auto

lemma scope_reason_empty [simp]: "scope_reason sn n v vs = [] \<longleftrightarrow> v \<in> set vs"
  by (auto simp: scope_reason_def)

text \<open>Live capital is enabled for a request exactly when a signoff is attached whose operator, risk approver and
  engineering approver are named and are three different people, whose reason is given, which has not expired, whose
  scopes name the request's strategy, account and instrument, and whose positive notional limit is not exceeded; the
  decision then carries the live permission, and otherwise the observation-only one.
\<close>

theorem signoff_accepted_iff:
  "(ed_allowed (evaluate_enablement q now clock) \<longleftrightarrow>
     (\<exists>s. eq_operator_signoff q = Some s \<and>
        sg_reason s \<noteq> [] \<and> sg_operator_id s \<noteq> [] \<and> sg_risk_approver_id s \<noteq> [] \<and> sg_engineering_approver_id s \<noteq> [] \<and>
        distinct [sg_operator_id s, sg_risk_approver_id s, sg_engineering_approver_id s] \<and>
        (case now of Some t \<Rightarrow> t | None \<Rightarrow> clock) < sg_expires_at s \<and>
        eq_strategy_id q \<in> set (sg_strategy_ids s) \<and> eq_account_id q \<in> set (sg_account_ids s) \<and>
        eq_instrument_id q \<in> set (sg_allowed_instruments s) \<and>
        0 < sg_max_notional_limit s \<and> eq_requested_notional q \<le> sg_max_notional_limit s)) \<and>
   ed_order_permission (evaluate_enablement q now clock) =
     (if ed_allowed (evaluate_enablement q now clock) then LIVE_ORDERS_ALLOWED else OBSERVATION_ONLY)"
proof (cases "eq_operator_signoff q")
  case (Some s)
  then show ?thesis
    by (simp add: evaluate_enablement_def Let_def signoff_reasons_def card_three not_le not_less)
qed (simp add: evaluate_enablement_def)

lemma first_reason_None [simp]: "first_reason cs = None \<longleftrightarrow> (\<forall>(b, r) \<in> set cs. \<not> b)"
  by (induction cs rule: first_reason.induct) auto

lemma assert_allowed_iff: "assert_live_order_allowed d = Inr () \<longleftrightarrow> live_blocked_reason d = Inr None"
  by (auto simp: assert_live_order_allowed_def res_bind_Inr_iff split: option.splits)

text \<open>C24. An execution actor with a live-capital decision hands an order to its adapter exactly when the decision is not
  disabled, is for live mode with the live permission, was allowed at startup, has a valid signoff, live and fresh
  market data, a clean reconciliation, no active kill switch, a live account, and the live gateway port or an approved
  override; otherwise the adapter is not called and the actor's handler raises.
\<close>

theorem live_order_needs_every_gate:
  "execution_handle (Execute q) (x\<lparr>xp_live_capital := Some (assert_live_order_allowed d)\<rparr>) =
     (case assert_live_order_allowed d of
        Inl e \<Rightarrow> (Inl e, x\<lparr>xp_live_capital := Some (assert_live_order_allowed d)\<rparr>)
      | Inr _ \<Rightarrow> (case xp_execute x q of Inl e \<Rightarrow> Inl e | Inr r \<Rightarrow> Inr ([r], None),
          x\<lparr>xp_live_capital := Some (assert_live_order_allowed d)\<rparr>)) \<and>
   (assert_live_order_allowed d = Inr () \<longleftrightarrow>
      lo_disabled_reason d = None \<and> mode_from_value (lo_runtime_mode d) = Inr LIVE \<and>
      permission_from_value (lo_order_submission_permission d) = Inr LIVE_ORDERS_ALLOWED \<and>
      status_value (lo_startup_decision_status d) = ''allow_live'' \<and> lo_operator_signoff_valid d \<and>
      lower (strip (lo_market_data_permission d)) = ''live'' \<and> lower (strip (lo_market_data_freshness d)) = ''fresh'' \<and>
      lower (strip (lo_reconciliation_status d)) = ''clean'' \<and> \<not> lo_kill_switch_active d \<and>
      lower (strip (lo_broker_account_kind d)) = ''live'' \<and> is_live_account_code (lo_broker_account_code d) \<and>
      (lo_gateway_port d = 4001 \<or> lo_approved_gateway_port_override d))"
proof (intro conjI)
  show "execution_handle (Execute q) (x\<lparr>xp_live_capital := Some (assert_live_order_allowed d)\<rparr>) =
     (case assert_live_order_allowed d of
        Inl e \<Rightarrow> (Inl e, x\<lparr>xp_live_capital := Some (assert_live_order_allowed d)\<rparr>)
      | Inr _ \<Rightarrow> (case xp_execute x q of Inl e \<Rightarrow> Inl e | Inr r \<Rightarrow> Inr ([r], None),
          x\<lparr>xp_live_capital := Some (assert_live_order_allowed d)\<rparr>))"
    by (simp add: execution_handle_def split: sum.split)
qed (auto simp: assert_allowed_iff live_blocked_reason_def res_bind_Inr_iff)

text \<open>A replacement goes to the adapter whatever the decision says.\<close>

lemma replacement_is_not_gated:
  "execution_handle (ReplaceRequest q) (x\<lparr>xp_live_capital := Some (assert_live_order_allowed live_orders_disabled)\<rparr>) =
     (case xp_replace x q of Inl e \<Rightarrow> Inl e | Inr r \<Rightarrow> Inr ([r], None),
      x\<lparr>xp_live_capital := Some (assert_live_order_allowed live_orders_disabled)\<rparr>)"
  by (simp add: execution_handle_def split: sum.split)

lemma normalized_kind: "normalize_broker_account_kind v env = Inr k \<Longrightarrow> k \<in> {''paper'', ''live'', ''simulated''}"
  by (cases env) (auto simp: normalize_broker_account_kind_def Let_def split: option.splits if_splits)

text \<open>What a constructed configuration was checked as.\<close>

lemma mk_broker_config_Inr:
  assumes "mk_broker_config a = Inr c"
  obtains c0 where "validate_mode_contract c0 = Inr c" "bc_mode c0 \<in> {PAPER_BROKER, LIVE_OBSERVATION, LIVE, OBSERVATION}"
    "mode_from_value (ba_mode a) = Inr (bc_mode c0)" "bc_broker_account_kind c0 \<in> {''paper'', ''live'', ''simulated''}"
    "bc_mode c0 \<in> {LIVE, PAPER_BROKER} \<Longrightarrow> bc_broker_port c0 \<noteq> None" "bc_observation_only c0 = ba_observation_only a"
proof -
  obtain mode execution market_data account kind where r:
    "mode_from_value (ba_mode a) = Inr mode" "mode \<in> {PAPER_BROKER, LIVE_OBSERVATION, LIVE, OBSERVATION}"
    "normalize_broker_account_kind (ba_broker_account_kind a) account = Inr kind"
    "validate_mode_contract (resolved_config a mode execution market_data account kind) = Inr c"
    using assms unfolding mk_broker_config_def by (auto simp: res_bind_Inr_iff split: if_splits)
  then show ?thesis
    using that [of "resolved_config a mode execution market_data account kind"] normalized_kind [OF r(3)]
    by (auto simp: resolved_config_def split: option.split)
qed

lemma broker_config_contract_lib:
  assumes "mk_broker_config a = Inr c"
  shows "bc_mode c \<in> {PAPER_BROKER, LIVE_OBSERVATION, LIVE, OBSERVATION} \<and>
    mode_from_value (ba_mode a) = Inr (bc_mode c) \<and>
    bc_broker_account_kind c \<in> {''paper'', ''live'', ''simulated''} \<and>
    (bc_allow_live_orders c \<longleftrightarrow> bc_mode c = LIVE) \<and>
    (case bc_mode c of
       LIVE \<Rightarrow> bc_broker_account_kind c = ''live'' \<and> bc_account_environment c = ACCT_LIVE \<and>
         bc_execution_environment c = EXEC_BROKER \<and> bc_market_data_environment c = REALTIME \<and>
         truthy (bc_operator_signoff_id c) \<and> \<not> bc_observation_only c \<and>
         (\<exists>port. bc_broker_port c = Some port \<and> (port = 4001 \<or> truthy (bc_broker_port_override_reason c)))
     | PAPER_BROKER \<Rightarrow> bc_broker_account_kind c = ''paper'' \<and> bc_execution_environment c = EXEC_BROKER \<and>
         bc_broker_port c = Some 4002 \<and> bc_observation_only c = ba_observation_only a
     | _ \<Rightarrow> bc_observation_only c \<and> bc_execution_environment c = EXEC_DISABLED)"
proof -
  obtain c0 where c0: "validate_mode_contract c0 = Inr c" "bc_mode c0 \<in> {PAPER_BROKER, LIVE_OBSERVATION, LIVE, OBSERVATION}"
    "mode_from_value (ba_mode a) = Inr (bc_mode c0)" "bc_broker_account_kind c0 \<in> {''paper'', ''live'', ''simulated''}"
    "bc_mode c0 \<in> {LIVE, PAPER_BROKER} \<Longrightarrow> bc_broker_port c0 \<noteq> None" "bc_observation_only c0 = ba_observation_only a"
    using mk_broker_config_Inr [OF assms] by blast
  show ?thesis
    using c0 by (cases "bc_mode c0") (auto simp: validate_mode_contract_def split: if_splits)
qed

text \<open>A broker configuration that can be constructed is for one of the four broker modes and keeps its mode's contract:
  live orders are allowed exactly in live mode; live mode has a live account, broker execution, realtime data, an operator
  signoff, the live port or a reason for another one, and is not observation-only; paper mode has a paper account, broker
  execution and the paper port; the observation modes are observation-only with execution disabled.
\<close>

theorem broker_config_contract:
  assumes "mk_broker_config a = Inr c"
  shows "bc_mode c \<in> {PAPER_BROKER, LIVE_OBSERVATION, LIVE, OBSERVATION} \<and>
    mode_from_value (ba_mode a) = Inr (bc_mode c) \<and>
    bc_broker_account_kind c \<in> {''paper'', ''live'', ''simulated''} \<and>
    (bc_allow_live_orders c \<longleftrightarrow> bc_mode c = LIVE) \<and>
    (case bc_mode c of
       LIVE \<Rightarrow> bc_broker_account_kind c = ''live'' \<and> bc_account_environment c = ACCT_LIVE \<and>
         bc_execution_environment c = EXEC_BROKER \<and> bc_market_data_environment c = REALTIME \<and>
         truthy (bc_operator_signoff_id c) \<and> \<not> bc_observation_only c \<and>
         (\<exists>port. bc_broker_port c = Some port \<and> (port = 4001 \<or> truthy (bc_broker_port_override_reason c)))
     | PAPER_BROKER \<Rightarrow> bc_broker_account_kind c = ''paper'' \<and> bc_execution_environment c = EXEC_BROKER \<and>
         bc_broker_port c = Some 4002 \<and> bc_observation_only c = ba_observation_only a
     | _ \<Rightarrow> bc_observation_only c \<and> bc_execution_environment c = EXEC_DISABLED)"
  by (rule broker_config_contract_lib [OF assms])

definition sample_broker_args :: "runtime_mode \<Rightarrow> broker_config_args" where
  "sample_broker_args mode =
     \<lparr>ba_mode = Member mode, ba_broker_configured = True, ba_account_configured = True, ba_risk_configured = True,
      ba_calendar_configured = True, ba_kill_switch_configured = True, ba_allow_live_orders = (mode = LIVE),
      ba_observation_only = False, ba_broker_account_kind = None, ba_execution_environment = None,
      ba_market_data_environment = None, ba_account_environment = None, ba_broker_account_code = None,
      ba_broker_port = None, ba_broker_port_override_reason = None,
      ba_operator_signoff_id = Some ''signoff-1'', ba_api_read_only = False, ba_broker_time_synced = True,
      ba_market_data_permission_live = True, ba_reconciliation_passed = True,
      ba_open_order_reconciliation_passed = None, ba_position_reconciliation_passed = None,
      ba_cash_reconciliation_passed = None, ba_event_sink_writable = True, ba_snapshot_store_configured = True,
      ba_schema_version = ''1''\<rparr>"

definition sample_broker_config :: "runtime_mode \<Rightarrow> broker_config" where
  "sample_broker_config mode =
     (case mk_broker_config (sample_broker_args mode) of Inr c \<Rightarrow> c | Inl e \<Rightarrow> undefined)"

lemma sample_broker_config:
  "mk_broker_config (sample_broker_args LIVE) = Inr (sample_broker_config LIVE)"
  "mk_broker_config (sample_broker_args PAPER_BROKER) = Inr (sample_broker_config PAPER_BROKER)"
  by (code_simp, code_simp)

theorem broker_config_contract_witness:
  "bc_mode (sample_broker_config LIVE) = LIVE \<and> bc_allow_live_orders (sample_broker_config LIVE)"
proof -
  have "bc_mode (sample_broker_config LIVE) = LIVE" by code_simp
  with broker_config_contract [OF sample_broker_config(1)] show ?thesis by simp
qed

definition startup_complete :: "broker_config \<Rightarrow> bool" where
  "startup_complete c \<longleftrightarrow>
      bc_broker_configured c \<and> bc_account_configured c \<and> (bc_mode c \<notin> {LIVE, PAPER_BROKER} \<or> bc_broker_port c \<noteq> None) \<and>
      bc_market_data_permission_live c \<and> bc_broker_time_synced c \<and> bc_calendar_configured c \<and>
      (bc_mode c = LIVE \<longrightarrow> \<not> bc_api_read_only c) \<and> bc_risk_configured c \<and> bc_kill_switch_configured c \<and>
      bc_event_sink_writable c \<and> bc_snapshot_store_configured c \<and> bc_open_order_reconciliation_passed c \<and>
      bc_position_reconciliation_passed c \<and> bc_cash_reconciliation_passed c \<and>
      (bc_mode c = LIVE \<longrightarrow> truthy (bc_operator_signoff_id c))"

lemma missing_checks_empty:
  assumes "checklist_from_config c decision = Inr ks"
  shows "missing_checks ks = [] \<longleftrightarrow> startup_complete c"
proof -
  have r: "set (rows ks) = set (checklist_rows c decision)"
    using checklist_ok [of c decision] assms by auto
  have "missing_checks ks = [] \<longleftrightarrow> (\<forall>(n, b) \<in> set (rows ks). b \<longrightarrow> n = ''live_capital_signoff_check'')"
    by (auto simp: missing_checks_def filter_empty_conv rows_def)
  also have "\<dots> \<longleftrightarrow> startup_complete c"
    unfolding r checklist_rows_def startup_complete_def by simp
  finally show ?thesis .
qed

lemma validate_succeeds_iff: "(\<exists>d. validate_live_startup c request clock = Inr d) \<longleftrightarrow> startup_complete c"
proof -
  obtain ks where "checklist_from_config c (map_option (\<lambda>q. evaluate_enablement q None clock) request) = Inr ks"
    using checklist_ok by blast
  with missing_checks_empty [OF this] show ?thesis by (auto simp: validate_live_startup_def Let_def)
qed

lemma validate_live_startup_Inr:
  assumes "validate_live_startup c request clock = Inr d"
  defines "decision \<equiv> map_option (\<lambda>q. evaluate_enablement q None clock) request"
  defines "status \<equiv> startup_decision_status (bc_mode c) decision"
  shows "checklist_from_config c decision = Inr (sd_checklist d)" "missing_checks (sd_checklist d) = []"
    "sd_order_permission d = order_permission_for_status status" "sd_mode d = bc_mode c"
    "sd_real_order_submission_enabled d \<longleftrightarrow>
       allows_live_orders (order_permission_for_status status) \<and> bc_allow_live_orders c \<and> \<not> bc_observation_only c"
  using assms by (auto simp: validate_live_startup_def Let_def res_bind_Inr_iff split: if_splits)

lemma live_startup_status:
  "allows_live_orders (order_permission_for_status (startup_decision_status mode decision)) \<longleftrightarrow>
     mode = LIVE \<and> (\<exists>d. decision = Some d \<and> ed_allowed d)"
  "allows_order_submission (order_permission_for_status (startup_decision_status mode decision)) \<longleftrightarrow>
     (mode = LIVE \<and> (\<exists>d. decision = Some d \<and> ed_allowed d)) \<or> mode \<in> {PAPER_BROKER, PAPER_SIMULATED}"
  by (auto simp: startup_decision_status_def allows_live_orders_def allows_order_submission_def split: option.splits)

text \<open>When startup of a broker runtime succeeds, the configuration is complete and real-money submission is enabled exactly when the configured mode is live
  and a signoff was attached that is accepted at that moment; every checklist item has passed in that case. Orders then get
  past the startup gate exactly in that case and in paper-broker mode.
\<close>

theorem startup_enables_live_orders_iff:
  assumes "mk_broker_config a = Inr c" and "validate_live_startup c request clock = Inr d"
  shows "startup_complete c \<and>
         (sd_real_order_submission_enabled d \<longleftrightarrow>
            bc_mode c = LIVE \<and> (\<exists>q. request = Some q \<and> ed_allowed (evaluate_enablement q None clock))) \<and>
         (sd_real_order_submission_enabled d \<longrightarrow> checklist_passed (sd_checklist d)) \<and>
         (startup_gate_reason (bc_mode c) (Some d) = None \<longleftrightarrow>
            sd_real_order_submission_enabled d \<or> bc_mode c = PAPER_BROKER)"
proof -
  note d = validate_live_startup_Inr [OF assms(2)]
  have contract: "bc_mode c \<in> {PAPER_BROKER, LIVE_OBSERVATION, LIVE, OBSERVATION}"
    "bc_allow_live_orders c \<longleftrightarrow> bc_mode c = LIVE" "bc_mode c = LIVE \<Longrightarrow> \<not> bc_observation_only c"
    using broker_config_contract_lib [OF assms(1)] by auto
  have real: "sd_real_order_submission_enabled d \<longleftrightarrow>
      bc_mode c = LIVE \<and> (\<exists>q. request = Some q \<and> ed_allowed (evaluate_enablement q None clock))"
    using contract by (auto simp: d(5) live_startup_status)
  moreover have "checklist_passed (sd_checklist d)" if "sd_real_order_submission_enabled d"
  proof -
    from that real obtain q where q: "request = Some q" "ed_allowed (evaluate_enablement q None clock)" by auto
    have "set (rows (sd_checklist d)) = set (checklist_rows c (Some (evaluate_enablement q None clock)))"
      using checklist_ok [of c "Some (evaluate_enablement q None clock)"] d(1) q(1) by auto
    moreover have "(''live_capital_signoff_check'', True) \<notin> set (checklist_rows c (Some (evaluate_enablement q None clock)))"
      using q(2) by (simp add: checklist_rows_def)
    ultimately have "(''live_capital_signoff_check'', True) \<notin> set (rows (sd_checklist d))" by blast
    with d(2) show ?thesis
      by (force simp: checklist_passed_def missing_checks_def filter_empty_conv list_all_iff rows_def image_iff)
  qed
  moreover have "startup_gate_reason (bc_mode c) (Some d) = None \<longleftrightarrow>
      sd_real_order_submission_enabled d \<or> bc_mode c = PAPER_BROKER"
    using contract by (auto simp: startup_gate_reason_def real d(3) live_startup_status)
  moreover have "startup_complete c" using validate_succeeds_iff assms(2) by blast
  ultimately show ?thesis by blast
qed

definition sample_signoff :: operator_signoff where
  "sample_signoff = mk_operator_signoff
     \<lparr>sg_operator_id = ''ops'', sg_reason = ''go live'', sg_risk_approver_id = ''risk'',
      sg_engineering_approver_id = ''eng'', sg_expires_at = 100, sg_strategy_ids = [''s1''], sg_account_ids = [''a1''],
      sg_max_notional_limit = 1000, sg_allowed_instruments = ['' ES '']\<rparr>"

definition sample_enablement :: enablement_request where
  "sample_enablement = mk_enablement_request
     \<lparr>eq_operator_signoff = Some sample_signoff, eq_strategy_id = ''s1'', eq_account_id = ''a1'',
      eq_instrument_id = ''ES'', eq_requested_notional = 500\<rparr>"

definition sample_live_startup :: startup_decision where
  "sample_live_startup =
     (case validate_live_startup (sample_broker_config LIVE) (Some sample_enablement) 50 of Inr d \<Rightarrow> d | Inl e \<Rightarrow> undefined)"

lemma sample_live_startup:
  "validate_live_startup (sample_broker_config LIVE) (Some sample_enablement) 50 = Inr sample_live_startup"
proof -
  have "startup_complete (sample_broker_config LIVE)" by code_simp
  then show ?thesis
    using validate_succeeds_iff [of "sample_broker_config LIVE" "Some sample_enablement" 50]
    by (auto simp: sample_live_startup_def)
qed

theorem startup_enables_live_orders_iff_witness:
  "sd_real_order_submission_enabled sample_live_startup \<and> startup_gate_reason LIVE (Some sample_live_startup) = None"
proof -
  have "bc_mode (sample_broker_config LIVE) = LIVE" "ed_allowed (evaluate_enablement sample_enablement None 50)"
    by (code_simp, code_simp)
  with startup_enables_live_orders_iff [OF sample_broker_config(1) sample_live_startup] show ?thesis by simp
qed

text \<open>A paper-broker configuration marked observation-only passes the startup gate all the same.\<close>

lemma paper_observation_only_submits:
  assumes "mk_broker_config a = Inr c" and "bc_mode c = PAPER_BROKER" and "validate_live_startup c request clock = Inr d"
  shows "startup_gate_reason PAPER_BROKER (Some d) = None"
  using validate_live_startup_Inr(3,5) [OF assms(3)] assms(2)
  by (auto simp: startup_gate_reason_def live_startup_status)

end
