(* ===== verification/Event_Store.thy ===== *)
theory Event_Store
  imports Live_Capital
begin

text \<open>
  Runtime events from the session to storage: the event and its envelope, the run context and the broker sink
  (\<open>runtime/sinks/base.py\<close>, \<open>sinks/broker_runtime.py\<close>), the event stores and the schema migrations
  (\<open>runtime/event_store.py\<close>, \<open>event_migrations.py\<close>), and the base event of \<open>domain/events\<close>.

  A JSON line is kept as its value; \<open>json.dumps(sort_keys=True)\<close> orders the keys of every object (\<open>json_sorted\<close>).
  The event hash (SHA-256) and the clocks are parameters. Values the code turns into text with \<open>str\<close> are texts in
  the model, as the stores write them.
\<close>

section \<open>JSON helpers\<close>

fun json_sorted :: "json \<Rightarrow> json" where
  "json_sorted (JObject d) = JObject (sort_key fst (map (\<lambda>(k, v). (k, json_sorted v)) d))"
| "json_sorted (JList js) = JList (map json_sorted js)"
| "json_sorted j = j"

definition optional_json :: "string option \<Rightarrow> json" where
  "optional_json v = (case v of None \<Rightarrow> JNull | Some s \<Rightarrow> JText s)"

fun json_text :: "json \<Rightarrow> string res" where
  "json_text (JText s) = Inr s"
| "json_text _ = Inl (TypeError ''not a text'')"

fun json_optional_text :: "json \<Rightarrow> string option res" where
  "json_optional_text JNull = Inr None"
| "json_optional_text j = res_bind (json_text j) (\<lambda>s. Inr (Some s))"

fun json_time :: "json \<Rightarrow> instant res" where
  "json_time (JTimeText t) = Inr t"
| "json_time _ = Inl (ValueError ''Invalid isoformat string'')"

fun json_int :: "json \<Rightarrow> int res" where
  "json_int (JNumber n) = Inr (if n \<ge> 0 then \<lfloor>n\<rfloor> else \<lceil>n\<rceil>)"
| "json_int (JBool b) = Inr (if b then 1 else 0)"
| "json_int _ = Inl (TypeError ''not a number'')"

definition json_index :: "(string, json) dict \<Rightarrow> string \<Rightarrow> json res" where
  "json_index d k = (case map_of d k of None \<Rightarrow> Inl (KeyError k) | Some j \<Rightarrow> Inr j)"

section \<open>Runtime events (\<open>sinks/base.py\<close>)\<close>

record runtime_event =
  re_kind :: string
  re_payload :: "(string, json) dict"
  re_event_id :: "string option"
  re_parent_event_id :: "string option"
  re_run_id :: "string option"
  re_mode :: "string option"
  re_sequence_no :: "int option"
  re_ts_event :: "instant option"
  re_ts_ingest :: "instant option"
  re_account_id :: "string option"
  re_strategy_id :: "string option"
  re_instrument_id :: "string option"
  re_correlation_id :: "string option"
  re_causation_id :: "string option"
  re_execution_environment :: "string option"
  re_payload_schema_version :: string

definition schema_version :: string where
  "schema_version = ''1''"

definition requires_correlation_id :: "string \<Rightarrow> bool" where
  "requires_correlation_id kind = list_ex (\<lambda>p. starts_with p (lower kind))
     [''runtime.order'', ''order.'', ''order_'', ''runtime.risk'', ''risk.'', ''risk_'', ''runtime.fill'', ''fill.'',
      ''fill_'', ''runtime.broker_report'', ''broker_report'', ''runtime.broker_rejected'', ''broker_rejected'']"

definition requires_client_order_id :: "string \<Rightarrow> bool" where
  "requires_client_order_id kind = list_ex (\<lambda>p. starts_with p (lower kind))
     [''runtime.order'', ''order.'', ''order_'', ''runtime.broker_report'', ''broker_report'', ''runtime.fill'',
      ''fill.'', ''fill_'']"

definition requires_causation_id :: "string \<Rightarrow> bool" where
  "requires_causation_id kind = list_ex (\<lambda>p. starts_with p (lower kind)) [''runtime.fill'', ''fill.'', ''fill_'']"

definition event_checks :: "runtime_event \<Rightarrow> (bool \<times> exn) list" where
  "event_checks e =
     [(requires_correlation_id (re_kind e) \<and> re_correlation_id e = None,
       ValueError ''correlation_id is required for order, risk, and fill events''),
      (requires_client_order_id (re_kind e) \<and>
         (case json_get (re_payload e) ''client_order_id'' of JText s \<Rightarrow> blank s | _ \<Rightarrow> True),
       ValueError ''client_order_id is required for order and fill events''),
      (requires_causation_id (re_kind e) \<and> re_causation_id e = None,
       ValueError ''causation_id is required for fill events''),
      ((case re_sequence_no e of None \<Rightarrow> False | Some n \<Rightarrow> n \<le> 0), ValueError ''sequence_no must be positive'')]"

definition stamped :: "instant \<Rightarrow> runtime_event \<Rightarrow> runtime_event" where
  "stamped clock e =
     (let ingest = (case re_ts_ingest e of Some t \<Rightarrow> t | None \<Rightarrow> clock)
      in e\<lparr>re_ts_ingest := Some ingest, re_ts_event := Some (case re_ts_event e of Some t \<Rightarrow> t | None \<Rightarrow> ingest)\<rparr>)"

definition mk_runtime_event :: "instant \<Rightarrow> runtime_event \<Rightarrow> runtime_event res" where
  "mk_runtime_event clock e = checked (event_checks e) (stamped clock e)"

definition plain_event :: "string \<Rightarrow> (string, json) dict \<Rightarrow> runtime_event" where
  "plain_event kind payload =
     \<lparr>re_kind = kind, re_payload = payload, re_event_id = None, re_parent_event_id = None, re_run_id = None,
      re_mode = None, re_sequence_no = None, re_ts_event = None, re_ts_ingest = None, re_account_id = None,
      re_strategy_id = None, re_instrument_id = None, re_correlation_id = None, re_causation_id = None,
      re_execution_environment = None, re_payload_schema_version = schema_version\<rparr>"

definition time_json :: "instant option \<Rightarrow> json" where
  "time_json t = (case t of None \<Rightarrow> JNull | Some i \<Rightarrow> JTimeText i)"

definition to_envelope :: "runtime_event \<Rightarrow> int option \<Rightarrow> (string, json) dict" where
  "to_envelope e sequence_no =
     [(''event_id'', optional_json (re_event_id e)), (''parent_event_id'', optional_json (re_parent_event_id e)),
      (''run_id'', optional_json (re_run_id e)), (''mode'', optional_json (re_mode e)),
      (''runtime_mode'', optional_json (re_mode e)), (''platform_baseline_version'', JText ''qts-platform-v1''),
      (''sequence_no'', case (case re_sequence_no e of Some n \<Rightarrow> Some n | None \<Rightarrow> sequence_no) of
                          None \<Rightarrow> JNull | Some n \<Rightarrow> JNumber (of_int n)),
      (''ts_event'', time_json (re_ts_event e)), (''ts_ingest'', time_json (re_ts_ingest e)),
      (''account_id'', optional_json (re_account_id e)), (''strategy_id'', optional_json (re_strategy_id e)),
      (''instrument_id'', optional_json (re_instrument_id e)), (''correlation_id'', optional_json (re_correlation_id e)),
      (''causation_id'', optional_json (re_causation_id e)), (''kind'', JText (re_kind e)),
      (''event_type'', JText (re_kind e)), (''execution_environment'', optional_json (re_execution_environment e)),
      (''payload_schema_version'', JText (re_payload_schema_version e)), (''payload'', JObject (re_payload e))]"

fun absent_or_blank :: "json \<Rightarrow> bool" where
  "absent_or_blank JNull = True"
| "absent_or_blank (JText s) = blank s"
| "absent_or_blank _ = False"

definition require_canonical_envelope :: "(string, json) dict \<Rightarrow> unit res" where
  "require_canonical_envelope row =
     checked (map (\<lambda>f. (absent_or_blank (json_get row f), ValueError f))
       [''run_id'', ''runtime_mode'', ''sequence_no'', ''event_id'', ''payload_schema_version'',
        ''platform_baseline_version'']) ()"

section \<open>The run context\<close>

record event_context =
  ec_run_id :: string
  ec_mode :: string
  ec_execution_environment :: "string option"
  ec_account_id :: "string option"
  ec_strategy_id :: "string option"

definition mk_event_context ::
  "string \<Rightarrow> runtime_mode labelled \<Rightarrow> string option \<Rightarrow> string option \<Rightarrow> string option \<Rightarrow> event_context res" where
  "mk_event_context run mode execution account strategy =
     res_bind (mode_from_value mode) (\<lambda>m.
       if execution \<noteq> None \<and> normal_label (the execution) = []
       then Inl (ValueError ''runtime context labels must not be empty'')
       else Inr \<lparr>ec_run_id = run, ec_mode = mode_text m, ec_execution_environment = map_option normal_label execution,
              ec_account_id = account, ec_strategy_id = strategy\<rparr>)"

definition conflicting :: "'v option \<Rightarrow> 'v option \<Rightarrow> bool" where
  "conflicting a b \<longleftrightarrow> a \<noteq> None \<and> b \<noteq> None \<and> a \<noteq> b"

text \<open>\<open>a or b\<close> on identifiers, and on texts, where the empty text counts as absent.\<close>

definition or_else :: "'v option \<Rightarrow> 'v option \<Rightarrow> 'v option" where
  "or_else a b = (case a of None \<Rightarrow> b | Some v \<Rightarrow> Some v)"

definition text_or_else :: "string option \<Rightarrow> string option \<Rightarrow> string option" where
  "text_or_else a b = (if truthy a then a else b)"

definition pad_twelve :: "nat \<Rightarrow> string" where
  "pad_twelve n = replicate (12 - length (nat_str n)) (CHR ''0'') @ nat_str n"

definition context_apply :: "event_context \<Rightarrow> instant \<Rightarrow> runtime_event \<Rightarrow> int \<Rightarrow> runtime_event res" where
  "context_apply c clock e n =
     res_bind (checked
       [(n \<le> 0, ValueError ''sequence_no must be positive''),
        (conflicting (re_run_id e) (Some (ec_run_id c)), ValueError ''event run_id conflicts with runtime context''),
        (conflicting (re_mode e) (Some (ec_mode c)), ValueError ''event mode conflicts with runtime context''),
        (conflicting (re_execution_environment e) (ec_execution_environment c),
         ValueError ''event execution_environment conflicts with runtime context''),
        (conflicting (re_account_id e) (ec_account_id c), ValueError ''event account_id conflicts with runtime context''),
        (conflicting (re_strategy_id e) (ec_strategy_id c), ValueError ''event strategy_id conflicts with runtime context''),
        (re_sequence_no e \<noteq> None \<and> re_sequence_no e \<noteq> Some n,
         ValueError ''event sequence_no does not match sink sequence'')] ()) (\<lambda>_.
     mk_runtime_event clock
       (e\<lparr>re_event_id := or_else (re_event_id e) (Some (ec_run_id c @ ''-'' @ pad_twelve (nat n))),
          re_run_id := or_else (re_run_id e) (Some (ec_run_id c)), re_mode := text_or_else (re_mode e) (Some (ec_mode c)),
          re_sequence_no := Some n, re_account_id := or_else (re_account_id e) (ec_account_id c),
          re_strategy_id := or_else (re_strategy_id e) (ec_strategy_id c),
          re_execution_environment := text_or_else (re_execution_environment e) (ec_execution_environment c)\<rparr>))"

section \<open>The broker sink (\<open>sinks/broker_runtime.py\<close>)\<close>

fun contains_text :: "string \<Rightarrow> string \<Rightarrow> bool" where
  "contains_text p [] \<longleftrightarrow> p = []"
| "contains_text p (c # s) \<longleftrightarrow> starts_with p (c # s) \<or> contains_text p s"

definition secret_like :: "string \<Rightarrow> bool" where
  "secret_like key = list_ex (\<lambda>part. contains_text part (lower key)) [''password'', ''secret'', ''token'', ''credential'']"

text \<open>The first secret-like key met, depth first.\<close>

fun secret_key :: "json \<Rightarrow> string option"
  and secret_in_list :: "json list \<Rightarrow> string option"
  and secret_in_dict :: "(string, json) dict \<Rightarrow> string option" where
  "secret_key (JObject d) = secret_in_dict d"
| "secret_key (JList js) = secret_in_list js"
| "secret_key _ = None"
| "secret_in_list [] = None"
| "secret_in_list (j # js) = (case secret_key j of Some k \<Rightarrow> Some k | None \<Rightarrow> secret_in_list js)"
| "secret_in_dict [] = None"
| "secret_in_dict ((k, j) # d) =
     (if secret_like k then Some k
      else case secret_key j of Some k' \<Rightarrow> Some k' | None \<Rightarrow> secret_in_dict d)"

record broker_sink =
  bk_rows :: "(string, json) dict list"
  bk_context :: "event_context option"
  bk_closed :: bool

definition sink_write ::
  "((string, json) dict \<Rightarrow> string) \<Rightarrow> instant \<Rightarrow> runtime_event \<Rightarrow> broker_sink \<Rightarrow> (broker_sink, int \<times> string) outcome" where
  "sink_write hash clock e s =
     (if bk_closed s then (Inl (RuntimeError ''event sink is closed''), s)
      else case secret_in_dict (re_payload e) of
        Some k \<Rightarrow> (Inl (ValueError (''runtime event payload contains secret-like key: '' @ k)), s)
      | None \<Rightarrow>
         (let sequence = int (length (bk_rows s)) + 1 in
          case (case bk_context s of None \<Rightarrow> Inr e | Some c \<Rightarrow> context_apply c clock e sequence) of
            Inl x \<Rightarrow> (Inl x, s)
          | Inr e1 \<Rightarrow>
             (let row = to_envelope e1 (Some sequence) in
              case require_canonical_envelope row of
                Inl x \<Rightarrow> (Inl x, s)
              | Inr _ \<Rightarrow>
                 (let h = hash (filter (\<lambda>(k, v). k \<notin> {''event_id'', ''sequence_no'', ''ts_event'', ''ts_ingest''}) row)
                  in (Inr (sequence, h), s\<lparr>bk_rows := bk_rows s @ [row @ [(''event_hash'', JText h)]]\<rparr>)))))"

definition sink_close :: "broker_sink \<Rightarrow> broker_sink" where
  "sink_close s = s\<lparr>bk_closed := True\<rparr>"

text \<open>\<open>RuntimeSession._write\<close>: the session counts the event, puts it in its context and hands it to the sink.\<close>

record event_stream =
  es_sequence :: int
  es_context :: event_context
  es_sink :: "broker_sink option"

definition stream_write ::
  "((string, json) dict \<Rightarrow> string) \<Rightarrow> instant \<Rightarrow> runtime_event \<Rightarrow> event_stream \<Rightarrow> (event_stream, unit) outcome" where
  "stream_write hash clock e st =
     (let st1 = st\<lparr>es_sequence := es_sequence st + 1\<rparr> in
      case context_apply (es_context st) clock e (es_sequence st1) of
        Inl x \<Rightarrow> (Inl x, st1)
      | Inr e1 \<Rightarrow>
         (case es_sink st of
            None \<Rightarrow> (Inr (), st1)
          | Some s \<Rightarrow> (case sink_write hash clock e1 s of
               (Inl x, s') \<Rightarrow> (Inl x, st1\<lparr>es_sink := Some s'\<rparr>)
             | (Inr _, s') \<Rightarrow> (Inr (), st1\<lparr>es_sink := Some s'\<rparr>))))"

section \<open>Schema migrations (\<open>event_store.py\<close>, \<open>event_migrations.py\<close>)\<close>

type_synonym migration = "(string, json) dict \<Rightarrow> (string, json) dict"
type_synonym migration_registry = "(string \<times> string, string \<times> migration) dict"

definition register_migration ::
  "string \<Rightarrow> string \<Rightarrow> string \<Rightarrow> migration \<Rightarrow> migration_registry \<Rightarrow> migration_registry res" where
  "register_migration kind from_version to_version migrate reg =
     (if from_version = to_version then Inl (ValueError ''from_version and to_version must differ'')
      else if map_of reg (kind, from_version) \<noteq> None then Inl (ValueError ''migration already registered'')
      else Inr (AList.update (kind, from_version) (to_version, migrate) reg))"

lemma res_bind_cong [fundef_cong]:
  "r = r' \<Longrightarrow> (\<And>v. r' = Inr v \<Longrightarrow> f v = g v) \<Longrightarrow> res_bind r f = res_bind r' g"
  by (auto simp: res_bind_def split: sum.split)

text \<open>The loop of \<open>apply\<close>: \<open>seen\<close> are the versions met so far, \<open>applied\<close> whether a hop was taken. It ends because
  every round meets a new version that has a hop.\<close>

lemma known_version: "map_of reg (k, v) = Some hop \<Longrightarrow> v \<in> snd ` fst ` set reg"
  by (force dest: map_of_SomeD)

function apply_hops ::
  "instant \<Rightarrow> migration_registry \<Rightarrow> runtime_event \<Rightarrow> string set \<Rightarrow> bool \<Rightarrow> runtime_event res" where
  "apply_hops clock reg e seen applied =
     (let version = re_payload_schema_version e in
      if version \<in> seen then Inl (KeyError ''migration cycle detected'')
      else case map_of reg (re_kind e, version) of
        None \<Rightarrow> if \<not> applied \<and> version \<noteq> schema_version then Inl (KeyError ''no migration registered'') else Inr e
      | Some hop \<Rightarrow>
          res_bind (mk_runtime_event clock
             (e\<lparr>re_payload := snd hop (re_payload e), re_payload_schema_version := fst hop\<rparr>)) (\<lambda>e1.
            apply_hops clock reg e1 (insert version seen) True))"
  by pat_completeness auto
termination
proof (relation "measure (\<lambda>(clock, reg, e, seen, applied). card (snd ` fst ` set reg - seen))")
  fix clock :: instant and reg :: migration_registry and e :: runtime_event and seen applied version hop e1
  assume "version = re_payload_schema_version e" "version \<notin> seen" "map_of reg (re_kind e, version) = Some hop"
  then have "snd ` fst ` set reg - insert version seen \<subset> snd ` fst ` set reg - seen"
    using known_version [of reg "re_kind e" version hop] by blast
  then show "((clock, reg, e1, insert version seen, True), clock, reg, e, seen, applied) \<in>
      measure (\<lambda>(clock, reg, e, seen, applied). card (snd ` fst ` set reg - seen))"
    by (simp add: psubset_card_mono)
qed simp

declare apply_hops.simps [simp del]

definition apply_migrations :: "instant \<Rightarrow> migration_registry \<Rightarrow> runtime_event \<Rightarrow> runtime_event res" where
  "apply_migrations clock reg e = apply_hops clock reg e {} False"

definition position_closed_v0_to_v1 :: migration where
  "position_closed_v0_to_v1 payload = AList.update ''schema_audit'' (JText ''migrated_v0_to_v1'') payload"

definition canonical_migrations :: migration_registry where
  "canonical_migrations = [((''account.position_closed'', ''0''), (''1'', position_closed_v0_to_v1))]"

section \<open>Stored events\<close>

record base_event =
  be_event_id :: string
  be_event_type :: string
  be_event_time :: instant
  be_source :: string
  be_partition_key :: string
  be_correlation_id :: "string option"
  be_causation_id :: "string option"

definition mk_base_event :: "base_event \<Rightarrow> base_event res" where
  [ctor_simps]: "mk_base_event b = checked
     [(blank (be_event_type b), ValueError ''event_type must not be empty''),
      (blank (be_source b), ValueError ''source must not be empty''),
      (blank (be_partition_key b), ValueError ''partition_key must not be empty'')] b"

datatype stored_event = BaseEv base_event | RuntimeEv runtime_event

definition stored_correlation_id :: "stored_event \<Rightarrow> string option" where
  "stored_correlation_id ev = (case ev of BaseEv b \<Rightarrow> be_correlation_id b | RuntimeEv e \<Rightarrow> re_correlation_id e)"

definition stored_partition_key :: "stored_event \<Rightarrow> string res" where
  "stored_partition_key ev = (case ev of
      BaseEv b \<Rightarrow> Inr (be_partition_key b)
    | RuntimeEv e \<Rightarrow>
        if json_get (re_payload e) ''partition_key'' \<noteq> JNull then json_text (json_get (re_payload e) ''partition_key'')
        else if json_get (re_payload e) ''order_id'' \<noteq> JNull then json_text (json_get (re_payload e) ''order_id'')
        else Inr (re_kind e))"

section \<open>The in-memory store\<close>

record memory_event_store =
  me_events :: "stored_event list"
  me_registry :: migration_registry

definition memory_append :: "stored_event \<Rightarrow> memory_event_store \<Rightarrow> nat \<times> memory_event_store" where
  "memory_append ev s =
     (let s1 = s\<lparr>me_events := me_events s @ [ev]\<rparr> in (length (me_events s1), s1))"

definition memory_append_many :: "stored_event list \<Rightarrow> memory_event_store \<Rightarrow> memory_event_store" where
  "memory_append_many evs s = fold (\<lambda>ev s. snd (memory_append ev s)) evs s"

definition with_migration :: "instant \<Rightarrow> migration_registry \<Rightarrow> stored_event \<Rightarrow> stored_event res" where
  "with_migration clock reg ev = (case ev of
      BaseEv b \<Rightarrow> Inr ev
    | RuntimeEv e \<Rightarrow> res_bind (apply_migrations clock reg e) (\<lambda>e1. Inr (RuntimeEv e1)))"

text \<open>Events of one partition, each migrated as it is read; the first exception wins.\<close>

fun read_events :: "(stored_event \<Rightarrow> stored_event res) \<Rightarrow> string option \<Rightarrow> stored_event list \<Rightarrow> stored_event list res" where
  "read_events convert key [] = Inr []"
| "read_events convert key (ev # evs) =
     (case key of
        None \<Rightarrow> res_bind (convert ev) (\<lambda>ev1. res_bind (read_events convert key evs) (\<lambda>evs1. Inr (ev1 # evs1)))
      | Some k \<Rightarrow>
          res_bind (stored_partition_key ev) (\<lambda>p.
            if p = k then res_bind (convert ev) (\<lambda>ev1. res_bind (read_events convert key evs) (\<lambda>evs1. Inr (ev1 # evs1)))
            else read_events convert key evs))"

definition memory_replay :: "instant \<Rightarrow> string option \<Rightarrow> memory_event_store \<Rightarrow> stored_event list res" where
  "memory_replay clock key s = read_events (with_migration clock (me_registry s)) key (me_events s)"

definition memory_replay_after :: "instant \<Rightarrow> int \<Rightarrow> string option \<Rightarrow> memory_event_store \<Rightarrow> stored_event list res" where
  "memory_replay_after clock sequence key s =
     (if sequence < 0 then Inl (ValueError ''sequence must be non-negative'')
      else read_events (with_migration clock (me_registry s)) key (drop (nat sequence) (me_events s)))"

definition memory_by_correlation_id :: "instant \<Rightarrow> string \<Rightarrow> memory_event_store \<Rightarrow> stored_event list res" where
  "memory_by_correlation_id clock cid s =
     res_map (with_migration clock (me_registry s))
       (filter (\<lambda>ev. stored_correlation_id ev = Some cid) (me_events s))"

section \<open>The file store\<close>

text \<open>A record of the file is the parsed JSON line. Two stores open on one path share the file and its writer lock.\<close>

record event_file =
  ef_records :: "(string, json) dict list"
  ef_lock_holder :: "nat option"

record file_event_store =
  fe_id :: nat
  fe_single_writer :: bool
  fe_holds_lock :: bool
  fe_next_sequence :: int

definition event_to_json :: "base_event \<Rightarrow> (string, json) dict" where
  "event_to_json b =
     [(''event_id'', JText (be_event_id b)), (''event_type'', JText (be_event_type b)),
      (''event_time'', JTimeText (be_event_time b)), (''source'', JText (be_source b)),
      (''partition_key'', JText (be_partition_key b)), (''correlation_id'', optional_json (be_correlation_id b)),
      (''causation_id'', optional_json (be_causation_id b))]"

definition event_from_json :: "(string, json) dict \<Rightarrow> base_event res" where
  "event_from_json d =
     res_bind (res_bind (json_index d ''correlation_id'') json_optional_text) (\<lambda>correlation.
     res_bind (res_bind (json_index d ''causation_id'') json_optional_text) (\<lambda>causation.
     res_bind (res_bind (json_index d ''event_id'') json_text) (\<lambda>eid.
     res_bind (res_bind (json_index d ''event_type'') json_text) (\<lambda>etype.
     res_bind (res_bind (json_index d ''event_time'') json_time) (\<lambda>etime.
     res_bind (res_bind (json_index d ''source'') json_text) (\<lambda>source.
     res_bind (res_bind (json_index d ''partition_key'') json_text) (\<lambda>key.
       mk_base_event \<lparr>be_event_id = eid, be_event_type = etype, be_event_time = etime, be_source = source,
         be_partition_key = key, be_correlation_id = correlation, be_causation_id = causation\<rparr>)))))))"

definition runtime_event_from_json :: "instant \<Rightarrow> (string, json) dict \<Rightarrow> runtime_event res" where
  "runtime_event_from_json clock d =
     res_bind (res_bind (json_index d ''event_id'') json_text) (\<lambda>eid.
     res_bind (json_optional_text (json_get d ''parent_event_id'')) (\<lambda>parent.
     res_bind (res_bind (json_index d ''kind'') json_text) (\<lambda>kind.
     res_bind (json_index d ''payload'') (\<lambda>payload.
     res_bind (case payload of JObject p \<Rightarrow> Inr p | _ \<Rightarrow> Inl (TypeError ''payload'')) (\<lambda>p.
     res_bind (res_bind (json_index d ''run_id'') json_text) (\<lambda>run.
     res_bind (res_bind (json_index d ''runtime_mode'') json_text) (\<lambda>mode.
     res_bind (res_bind (json_index d ''sequence_no'') json_int) (\<lambda>n.
     res_bind (res_bind (json_index d ''ts_event'') json_time) (\<lambda>tse.
     res_bind (res_bind (json_index d ''ts_ingest'') json_time) (\<lambda>tsi.
     res_bind (json_optional_text (json_get d ''account_id'')) (\<lambda>account.
     res_bind (json_optional_text (json_get d ''strategy_id'')) (\<lambda>strategy.
     res_bind (json_optional_text (json_get d ''instrument_id'')) (\<lambda>instrument.
     res_bind (json_optional_text (json_get d ''correlation_id'')) (\<lambda>correlation.
     res_bind (json_optional_text (json_get d ''causation_id'')) (\<lambda>causation.
     res_bind (json_optional_text (json_get d ''execution_environment'')) (\<lambda>execution.
     res_bind (res_bind (json_index d ''payload_schema_version'') json_text) (\<lambda>version.
       mk_runtime_event clock
         \<lparr>re_kind = kind, re_payload = p, re_event_id = Some eid, re_parent_event_id = parent, re_run_id = Some run,
          re_mode = Some mode, re_sequence_no = Some n, re_ts_event = Some tse, re_ts_ingest = Some tsi,
          re_account_id = account, re_strategy_id = strategy, re_instrument_id = instrument,
          re_correlation_id = correlation, re_causation_id = causation, re_execution_environment = execution,
          re_payload_schema_version = version\<rparr>)))))))))))))))))"

fun json_object :: "json \<Rightarrow> (string, json) dict res" where
  "json_object (JObject d) = Inr d"
| "json_object _ = Inl (TypeError ''not an object'')"

definition event_from_record :: "instant \<Rightarrow> (string, json) dict \<Rightarrow> stored_event res" where
  "event_from_record clock d =
     (case map_of d ''runtime_event'' of
        Some j \<Rightarrow> res_bind (json_object j) (\<lambda>obj. res_bind (runtime_event_from_json clock obj) (\<lambda>e. Inr (RuntimeEv e)))
      | None \<Rightarrow> res_bind (res_bind (json_index d ''event'') json_object) (\<lambda>obj.
          res_bind (event_from_json obj) (\<lambda>b. Inr (BaseEv b))))"

definition record_sequence :: "(string, json) dict \<Rightarrow> int res" where
  "record_sequence d = res_bind (json_index d ''sequence'') json_int"

definition read_sequences :: "event_file \<Rightarrow> int list res" where
  "read_sequences f = res_map record_sequence (ef_records f)"

definition highest_sequence :: "event_file \<Rightarrow> int res" where
  "highest_sequence f = res_bind (read_sequences f) (\<lambda>ns. Inr (if ns = [] then 0 else Max (set ns)))"

definition open_file_store :: "nat \<Rightarrow> bool \<Rightarrow> event_file \<Rightarrow> file_event_store res" where
  "open_file_store ident single_writer f =
     res_bind (highest_sequence f) (\<lambda>n.
       Inr \<lparr>fe_id = ident, fe_single_writer = single_writer, fe_holds_lock = False, fe_next_sequence = n + 1\<rparr>)"

text \<open>The advisory lock: taken by the first append, refused while another store holds it.\<close>

definition acquire_writer_lock :: "file_event_store \<times> event_file \<Rightarrow> (file_event_store \<times> event_file, unit) outcome" where
  "acquire_writer_lock st = (case st of (s, f) \<Rightarrow>
     if \<not> fe_single_writer s \<or> fe_holds_lock s then (Inr (), (s, f))
     else if ef_lock_holder f \<noteq> None then (Inl (RuntimeError ''another writer holds the event store lock''), (s, f))
     else (Inr (), (s\<lparr>fe_holds_lock := True\<rparr>, f\<lparr>ef_lock_holder := Some (fe_id s)\<rparr>)))"

definition file_record :: "instant \<Rightarrow> int \<Rightarrow> stored_event \<Rightarrow> (string, json) dict res" where
  "file_record clock n ev = (case ev of
      RuntimeEv e \<Rightarrow>
        res_bind (mk_runtime_event clock (e\<lparr>re_ts_ingest := Some clock\<rparr>)) (\<lambda>e1.
        res_bind (require_canonical_envelope (to_envelope e1 (Some n))) (\<lambda>_.
          Inr [(''sequence'', JNumber (of_int n)), (''runtime_event'', JObject (to_envelope e1 (Some n)))]))
    | BaseEv b \<Rightarrow> Inr [(''sequence'', JNumber (of_int n)), (''event'', JObject (event_to_json b))])"

definition file_append ::
  "instant \<Rightarrow> stored_event \<Rightarrow> file_event_store \<times> event_file \<Rightarrow> (file_event_store \<times> event_file, int) outcome" where
  "file_append clock ev st =
     obind (acquire_writer_lock st) (\<lambda>_ st1. case st1 of (s, f) \<Rightarrow>
       (case file_record clock (fe_next_sequence s) ev of
          Inl x \<Rightarrow> (Inl x, (s, f))
        | Inr row \<Rightarrow>
            (case json_sorted (JObject row) of
               JObject line \<Rightarrow> (Inr (fe_next_sequence s),
                 (s\<lparr>fe_next_sequence := fe_next_sequence s + 1\<rparr>, f\<lparr>ef_records := ef_records f @ [line]\<rparr>))
             | _ \<Rightarrow> (Inl AssertionError, (s, f)))))"

definition file_close :: "file_event_store \<times> event_file \<Rightarrow> file_event_store \<times> event_file" where
  "file_close st = (case st of (s, f) \<Rightarrow>
     if fe_holds_lock s then (s\<lparr>fe_holds_lock := False\<rparr>, f\<lparr>ef_lock_holder := None\<rparr>) else (s, f))"

fun read_records :: "instant \<Rightarrow> int \<Rightarrow> string option \<Rightarrow> (string, json) dict list \<Rightarrow> stored_event list res" where
  "read_records clock after key [] = Inr []"
| "read_records clock after key (d # ds) =
     res_bind (record_sequence d) (\<lambda>n.
       if n \<le> after then read_records clock after key ds
       else res_bind (event_from_record clock d) (\<lambda>ev.
         res_bind (case key of None \<Rightarrow> Inr True | Some k \<Rightarrow> res_bind (stored_partition_key ev) (\<lambda>p. Inr (p = k))) (\<lambda>keep.
         res_bind (read_records clock after key ds) (\<lambda>evs. Inr (if keep then ev # evs else evs)))))"

definition file_replay_after :: "instant \<Rightarrow> int \<Rightarrow> string option \<Rightarrow> event_file \<Rightarrow> stored_event list res" where
  "file_replay_after clock sequence key f =
     (if sequence < 0 then Inl (ValueError ''sequence must be non-negative'')
      else read_records clock sequence key (ef_records f))"

text \<open>\<open>replay\<close> does not look at the sequence numbers.\<close>

fun read_all :: "instant \<Rightarrow> string option \<Rightarrow> (string, json) dict list \<Rightarrow> stored_event list res" where
  "read_all clock key [] = Inr []"
| "read_all clock key (d # ds) =
     res_bind (event_from_record clock d) (\<lambda>ev.
     res_bind (case key of None \<Rightarrow> Inr True | Some k \<Rightarrow> res_bind (stored_partition_key ev) (\<lambda>p. Inr (p = k))) (\<lambda>keep.
     res_bind (read_all clock key ds) (\<lambda>evs. Inr (if keep then ev # evs else evs))))"

definition file_replay :: "instant \<Rightarrow> string option \<Rightarrow> event_file \<Rightarrow> stored_event list res" where
  "file_replay clock key f = read_all clock key (ef_records f)"

definition file_by_correlation_id :: "instant \<Rightarrow> string \<Rightarrow> event_file \<Rightarrow> stored_event list res" where
  "file_by_correlation_id clock cid f =
     res_bind (file_replay clock None f) (\<lambda>evs. Inr (filter (\<lambda>ev. stored_correlation_id ev = Some cid) evs))"

record sequence_report =
  sr_valid :: bool
  sr_missing :: "int list"
  sr_duplicate :: "int list"

fun duplicate_loop :: "int list \<Rightarrow> int set \<Rightarrow> int list \<Rightarrow> int list" where
  "duplicate_loop [] seen dups = dups"
| "duplicate_loop (n # ns) seen dups =
     duplicate_loop ns (insert n seen) (if n \<in> seen \<and> n \<notin> set dups then dups @ [n] else dups)"

definition validate_sequences :: "int list \<Rightarrow> sequence_report" where
  "validate_sequences ns =
     (let duplicates = sort (duplicate_loop ns {} []);
          highest = (if ns = [] then 0 else Max (set ns));
          missing = filter (\<lambda>n. n \<notin> set ns) [1..highest]
      in \<lparr>sr_valid = (missing = [] \<and> duplicates = []), sr_missing = missing, sr_duplicate = duplicates\<rparr>)"

definition validate_sequence :: "event_file \<Rightarrow> sequence_report res" where
  "validate_sequence f = res_bind (read_sequences f) (\<lambda>ns. Inr (validate_sequences ns))"

section \<open>Migrations end\<close>

lemma stamped_simps [simp]:
  "re_kind (stamped clock e) = re_kind e" "re_payload (stamped clock e) = re_payload e"
  "re_payload_schema_version (stamped clock e) = re_payload_schema_version e"
  "re_sequence_no (stamped clock e) = re_sequence_no e"
  by (simp_all add: stamped_def Let_def)

lemma stamped_fixed: "stamped clock e = e \<longleftrightarrow> re_ts_ingest e \<noteq> None \<and> re_ts_event e \<noteq> None"
proof
  assume "stamped clock e = e"
  then have "re_ts_ingest (stamped clock e) = re_ts_ingest e" "re_ts_event (stamped clock e) = re_ts_event e" by simp_all
  then show "re_ts_ingest e \<noteq> None \<and> re_ts_event e \<noteq> None"
    by (cases "re_ts_ingest e"; cases "re_ts_event e") (auto simp: stamped_def Let_def)
qed (cases e, auto simp: stamped_def Let_def)

lemma rebuilt_event:
  assumes "mk_runtime_event clock e = Inr e" and "\<not> requires_client_order_id (re_kind e)"
  shows "mk_runtime_event clock (e\<lparr>re_payload := p, re_payload_schema_version := v\<rparr>) =
     Inr (e\<lparr>re_payload := p, re_payload_schema_version := v\<rparr>)"
proof -
  have "stamped clock e = e" "raise_first (event_checks e) = None" using assms(1) by (simp_all add: mk_runtime_event_def)
  then have "stamped clock (e\<lparr>re_payload := p, re_payload_schema_version := v\<rparr>) = e\<lparr>re_payload := p, re_payload_schema_version := v\<rparr>"
    "raise_first (event_checks (e\<lparr>re_payload := p, re_payload_schema_version := v\<rparr>)) = None"
    using assms(2) by (auto simp: stamped_fixed event_checks_def split: if_splits)
  then show ?thesis by (simp add: mk_runtime_event_def)
qed

definition ranked :: "(string \<Rightarrow> nat) \<Rightarrow> migration_registry \<Rightarrow> bool" where
  "ranked rank reg \<longleftrightarrow> (\<forall>k v hop. map_of reg (k, v) = Some hop \<longrightarrow> rank v < rank (fst hop))"

lemma apply_hops_ends:
  assumes "ranked rank reg" and "mk_runtime_event clock e = Inr e" and "\<not> requires_client_order_id (re_kind e)"
    and "\<And>v. v \<in> seen \<Longrightarrow> rank v < rank (re_payload_schema_version e)"
    and "applied \<or> re_payload_schema_version e = schema_version \<or> map_of reg (re_kind e, re_payload_schema_version e) \<noteq> None"
  shows "\<exists>e'. apply_hops clock reg e seen applied = Inr e' \<and> re_kind e' = re_kind e \<and>
     map_of reg (re_kind e, re_payload_schema_version e') = None \<and>
     rank (re_payload_schema_version e) \<le> rank (re_payload_schema_version e')"
  using assms
proof (induction clock reg e seen applied rule: apply_hops.induct)
  case (1 clock reg e seen applied)
  let ?v = "re_payload_schema_version e"
  have new: "?v \<notin> seen" using "1.prems"(4) by blast
  show ?case
  proof (cases "map_of reg (re_kind e, ?v)")
    case None
    with "1.prems"(5) new show ?thesis by (subst apply_hops.simps) auto
  next
    case (Some hop)
    let ?e1 = "e\<lparr>re_payload := snd hop (re_payload e), re_payload_schema_version := fst hop\<rparr>"
    have e1: "mk_runtime_event clock ?e1 = Inr ?e1" using rebuilt_event "1.prems"(2,3) by blast
    have up: "rank ?v < rank (fst hop)" using "1.prems"(1) Some unfolding ranked_def by blast
    then have "\<And>v. v \<in> insert ?v seen \<Longrightarrow> rank v < rank (re_payload_schema_version ?e1)"
      using "1.prems"(4) by fastforce
    then have "\<exists>e'. apply_hops clock reg ?e1 (insert ?v seen) True = Inr e' \<and> re_kind e' = re_kind ?e1 \<and>
        map_of reg (re_kind ?e1, re_payload_schema_version e') = None \<and>
        rank (re_payload_schema_version ?e1) \<le> rank (re_payload_schema_version e')"
      by (intro "1.IH" [OF refl new Some e1 "1.prems"(1) e1]) (use "1.prems"(3) in auto)
    with up new Some e1 show ?thesis by (subst apply_hops.simps) (auto simp: Let_def)
  qed
qed

text \<open>C25. When every migration hop leads to a later version, advancing an event that has a hop or is already current ends: it
  yields an event of the same kind at a version with no further hop, and leaves an event without a hop as it is. Events
  whose kind needs a client order id are excluded, because rebuilding them checks the migrated payload.
\<close>

theorem migration_chain_ends:
  assumes "ranked rank reg" and "mk_runtime_event clock e = Inr e" and "\<not> requires_client_order_id (re_kind e)"
    and "re_payload_schema_version e = schema_version \<or> map_of reg (re_kind e, re_payload_schema_version e) \<noteq> None"
  shows "\<exists>e'. apply_migrations clock reg e = Inr e' \<and> re_kind e' = re_kind e \<and>
     map_of reg (re_kind e, re_payload_schema_version e') = None \<and>
     (map_of reg (re_kind e, re_payload_schema_version e) = None \<longrightarrow> e' = e)"
proof (cases "map_of reg (re_kind e, re_payload_schema_version e)")
  case None
  then show ?thesis using assms(4) by (auto simp: apply_migrations_def apply_hops.simps Let_def)
next
  case (Some hop)
  then show ?thesis using apply_hops_ends [OF assms(1-3), of "{}" False] by (auto simp: apply_migrations_def)
qed

definition sample_v0_event :: runtime_event where
  "sample_v0_event = (plain_event ''account.position_closed'' [(''realized_pnl'', JDecimalText 5)])
     \<lparr>re_ts_event := Some 1, re_ts_ingest := Some 2, re_payload_schema_version := ''0''\<rparr>"

lemma canonical_ranked: "ranked (\<lambda>v. if v = ''0'' then 0 else 1) canonical_migrations"
  by (auto simp: ranked_def canonical_migrations_def)

theorem migration_chain_ends_witness:
  "\<exists>e'. apply_migrations 9 canonical_migrations sample_v0_event = Inr e' \<and>
     map_of canonical_migrations (''account.position_closed'', re_payload_schema_version e') = None"
proof -
  have "mk_runtime_event 9 sample_v0_event = Inr sample_v0_event" "\<not> requires_client_order_id (re_kind sample_v0_event)"
    "map_of canonical_migrations (re_kind sample_v0_event, re_payload_schema_version sample_v0_event) \<noteq> None"
    "re_kind sample_v0_event = ''account.position_closed''"
    by (code_simp, code_simp, simp add: canonical_migrations_def sample_v0_event_def plain_event_def,
        simp add: sample_v0_event_def plain_event_def)
  with migration_chain_ends [OF canonical_ranked, of 9 sample_v0_event] show ?thesis by auto
qed

section \<open>A refused event stops the stream\<close>

text \<open>The session numbers an event before the sink accepts it, the sink numbers rows: after one refusal the two counts
  differ for good, and a sink with a context refuses every later event.\<close>

definition out_of_step :: "event_stream \<Rightarrow> bool" where
  "out_of_step st \<longleftrightarrow> (\<exists>s c. es_sink st = Some s \<and> bk_context s = Some c \<and> int (length (bk_rows s)) < es_sequence st)"

definition stream_rows :: "event_stream \<Rightarrow> (string, json) dict list" where
  "stream_rows st = (case es_sink st of None \<Rightarrow> [] | Some s \<Rightarrow> bk_rows s)"

lemma context_apply_sequence: "context_apply c clock e n = Inr e1 \<Longrightarrow> re_sequence_no e1 = Some n"
  by (auto simp: context_apply_def res_bind_Inr_iff mk_runtime_event_def)

lemma context_apply_mismatch: "re_sequence_no e = Some k \<Longrightarrow> k \<noteq> n \<Longrightarrow> \<exists>x. context_apply c clock e n = Inl x"
proof (cases "context_apply c clock e n")
  case (Inr e1)
  moreover assume "re_sequence_no e = Some k" "k \<noteq> n"
  ultimately show ?thesis by (auto simp: context_apply_def res_bind_Inr_iff split: if_splits)
qed simp

lemma sink_write_mismatch:
  assumes "bk_context s = Some c" and "re_sequence_no e = Some k" and "k \<noteq> int (length (bk_rows s)) + 1"
  shows "\<exists>x. sink_write hash clock e s = (Inl x, s)"
  using context_apply_mismatch [OF assms(2,3), of c clock] assms(1)
  by (auto simp: sink_write_def Let_def split: option.split)

lemma sink_refuses_secret:
  "secret_in_dict (re_payload e) \<noteq> None \<Longrightarrow> \<exists>x. sink_write hash clock e s = (Inl x, s)"
  by (auto simp: sink_write_def)

lemma out_of_step_write:
  assumes "out_of_step st"
  shows "\<exists>x. fst (stream_write hash clock e st) = Inl x" "out_of_step (snd (stream_write hash clock e st))"
    "stream_rows (snd (stream_write hash clock e st)) = stream_rows st"
proof -
  from assms obtain s c where s: "es_sink st = Some s" "bk_context s = Some c" "int (length (bk_rows s)) < es_sequence st"
    by (auto simp: out_of_step_def)
  have "(\<exists>x. fst (stream_write hash clock e st) = Inl x) \<and> out_of_step (snd (stream_write hash clock e st)) \<and>
    stream_rows (snd (stream_write hash clock e st)) = stream_rows st"
  proof (cases "context_apply (es_context st) clock e (es_sequence st + 1)")
    case (Inl x)
    with s show ?thesis by (auto simp: stream_write_def Let_def out_of_step_def stream_rows_def)
  next
    case (Inr e1)
    have "re_sequence_no e1 = Some (es_sequence st + 1)" using context_apply_sequence [OF Inr] .
    with s obtain x where "sink_write hash clock e1 s = (Inl x, s)"
      using sink_write_mismatch [of s c e1 "es_sequence st + 1" hash clock] by auto
    with s Inr show ?thesis by (auto simp: stream_write_def Let_def out_of_step_def stream_rows_def)
  qed
  then show "\<exists>x. fst (stream_write hash clock e st) = Inl x" "out_of_step (snd (stream_write hash clock e st))"
    "stream_rows (snd (stream_write hash clock e st)) = stream_rows st" by auto
qed

fun write_all ::
  "((string, json) dict \<Rightarrow> string) \<Rightarrow> (instant \<times> runtime_event) list \<Rightarrow> event_stream \<Rightarrow> unit res list \<times> event_stream" where
  "write_all hash [] st = ([], st)"
| "write_all hash ((clock, e) # es) st =
     (case stream_write hash clock e st of (r, st1) \<Rightarrow>
        (case write_all hash es st1 of (rs, st2) \<Rightarrow> (r # rs, st2)))"

lemma out_of_step_forever:
  "out_of_step st \<Longrightarrow> (\<forall>r \<in> set (fst (write_all hash es st)). \<exists>x. r = Inl x) \<and>
     stream_rows (snd (write_all hash es st)) = stream_rows st"
proof (induction hash es st rule: write_all.induct)
  case (2 hash clock e es st)
  obtain r st1 where w: "stream_write hash clock e st = (r, st1)" by fastforce
  have "out_of_step st1" "stream_rows st1 = stream_rows st" "\<exists>x. r = Inl x"
    using out_of_step_write [OF "2.prems", of hash clock e] w by auto
  with "2.IH" [OF w [symmetric]] w show ?case by (auto simp: case_prod_unfold)
qed simp

text \<open>In a session whose sink has a context, when one event is refused by the sink (it carries a secret-like key), every
  event written afterwards is refused as well and no further row is ever written.
\<close>

theorem refused_event_stops_the_stream:
  assumes "es_sink st = Some s" and "bk_context s = Some c" and "es_sequence st = int (length (bk_rows s))"
    and "secret_in_dict (re_payload bad) \<noteq> None"
  shows "(\<forall>r \<in> set (fst (write_all hash ((t, bad) # es) st)). \<exists>x. r = Inl x) \<and>
    stream_rows (snd (write_all hash ((t, bad) # es) st)) = bk_rows s"
proof -
  obtain r st1 where w: "stream_write hash t bad st = (r, st1)" by fastforce
  have "(\<exists>x. r = Inl x) \<and> out_of_step st1 \<and> stream_rows st1 = bk_rows s"
  proof (cases "context_apply (es_context st) t bad (es_sequence st + 1)")
    case (Inl x)
    with w assms show ?thesis by (auto simp: stream_write_def Let_def out_of_step_def stream_rows_def)
  next
    case (Inr e1)
    then have "re_payload e1 = re_payload bad"
      by (auto simp: context_apply_def res_bind_Inr_iff mk_runtime_event_def)
    with assms(4) obtain x where "sink_write hash t e1 s = (Inl x, s)" using sink_refuses_secret [of e1] by metis
    with w assms Inr show ?thesis by (auto simp: stream_write_def Let_def out_of_step_def stream_rows_def)
  qed
  with out_of_step_forever [of st1 hash es] w show ?thesis by (auto simp: case_prod_unfold)
qed

definition sample_context :: event_context where
  "sample_context = \<lparr>ec_run_id = ''run'', ec_mode = ''paper_broker'', ec_execution_environment = Some ''broker'',
     ec_account_id = Some ''A1'', ec_strategy_id = None\<rparr>"

definition sample_stream :: event_stream where
  "sample_stream = \<lparr>es_sequence = 0, es_context = sample_context,
     es_sink = Some \<lparr>bk_rows = [], bk_context = Some sample_context, bk_closed = False\<rparr>\<rparr>"

theorem refused_event_stops_the_stream_witness:
  "\<forall>r \<in> set (fst (write_all (\<lambda>_. ''h'') [(1, plain_event ''runtime.note'' [(''api_token'', JText ''x'')]),
       (2, plain_event ''runtime.state_transition'' [])] sample_stream)). \<exists>x. r = Inl x"
proof -
  have "secret_in_dict (re_payload (plain_event ''runtime.note'' [(''api_token'', JText ''x'')])) = Some ''api_token''"
    by code_simp
  then have "secret_in_dict (re_payload (plain_event ''runtime.note'' [(''api_token'', JText ''x'')])) \<noteq> None" by simp
  moreover have "es_sink sample_stream = Some \<lparr>bk_rows = [], bk_context = Some sample_context, bk_closed = False\<rparr>"
    "es_sequence sample_stream = 0" by (simp_all add: sample_stream_def)
  ultimately show ?thesis
    using refused_event_stops_the_stream [of sample_stream "\<lparr>bk_rows = [], bk_context = Some sample_context, bk_closed = False\<rparr>"
        sample_context "plain_event ''runtime.note'' [(''api_token'', JText ''x'')]" "\<lambda>_. ''h''" 1
        "[(2, plain_event ''runtime.state_transition'' [])]"] by (simp del: write_all.simps)
qed

text \<open>The same later event is written when nothing was refused before it.\<close>

lemma accepted_without_refusal:
  "fst (write_all (\<lambda>_. ''h'') [(2, plain_event ''runtime.state_transition'' [])] sample_stream) = [Inr ()]"
  by code_simp

section \<open>What the file store keeps\<close>

lemma sorted_lookup:
  assumes "distinct (map fst d)"
  shows "map_of (sort_key fst (map (\<lambda>(k, v). (k, json_sorted v)) d)) k = map_option json_sorted (map_of d k)"
proof -
  let ?m = "map (\<lambda>(k, v). (k, json_sorted v)) d"
  have fst_m: "map fst ?m = map fst d" by (simp add: case_prod_unfold comp_def)
  have "distinct (map fst (sort_key fst ?m))"
    using assms by (metis fst_m mset_map mset_sort mset_eq_imp_distinct_iff)
  then have "map_of (sort_key fst ?m) = map_of ?m"
    using assms fst_m by (subst map_of_inject_set) (simp_all only: fst_m set_sort)
  moreover have "map_of ?m k = map_option json_sorted (map_of d k)" by (induction d) auto
  ultimately show ?thesis by simp
qed

text \<open>The line written for an event, and the event read back from it.\<close>

definition file_line :: "instant \<Rightarrow> int \<Rightarrow> stored_event \<Rightarrow> (string, json) dict" where
  "file_line clock n ev = (case file_record clock n ev of
     Inr row \<Rightarrow> (case json_sorted (JObject row) of JObject line \<Rightarrow> line | _ \<Rightarrow> []) | Inl x \<Rightarrow> [])"

definition read_back :: "instant \<Rightarrow> int \<Rightarrow> stored_event \<Rightarrow> stored_event" where
  "read_back clock n ev = (case ev of
      BaseEv b \<Rightarrow> BaseEv b
    | RuntimeEv e \<Rightarrow> RuntimeEv
       ((stamped clock (e\<lparr>re_ts_ingest := Some clock\<rparr>))
          \<lparr>re_sequence_no := Some (case re_sequence_no e of Some k \<Rightarrow> k | None \<Rightarrow> n),
           re_payload := sort_key fst (map (\<lambda>(k, v). (k, json_sorted v)) (re_payload e))\<rparr>))"

definition named :: "string option \<Rightarrow> bool" where
  "named v = (case v of None \<Rightarrow> False | Some s \<Rightarrow> \<not> blank s)"

lemma named_iff: "named v \<longleftrightarrow> (\<exists>s. v = Some s \<and> \<not> blank s)"
  by (auto simp: named_def split: option.split)

text \<open>An event the store accepts: constructed by its class, with the identity the envelope requires.\<close>

definition storable :: "stored_event \<Rightarrow> bool" where
  "storable ev = (case ev of
      BaseEv b \<Rightarrow> mk_base_event b = Inr b
    | RuntimeEv e \<Rightarrow> raise_first (event_checks e) = None \<and> distinct (map fst (re_payload e)) \<and>
        named (re_event_id e) \<and> named (re_run_id e) \<and> named (re_mode e) \<and> \<not> blank (re_payload_schema_version e))"

lemma json_optional [simp]: "json_optional_text (optional_json v) = Inr v"
  by (cases v) (simp_all add: optional_json_def)

lemma json_int_of_int [simp]: "json_int (JNumber (of_int n)) = Inr n"
  by simp

lemma sorted_optional [simp]: "json_sorted (optional_json v) = optional_json v"
  by (cases v) (simp_all add: optional_json_def)

lemma envelope_keys: "distinct (map fst (to_envelope e n))"
  by (simp add: to_envelope_def)

lemma event_checks_ingest [simp]: "event_checks (e\<lparr>re_ts_ingest := t\<rparr>) = event_checks e"
  by (simp add: event_checks_def)

lemma storable_envelope:
  assumes "storable (RuntimeEv e)"
  shows "mk_runtime_event clock (e\<lparr>re_ts_ingest := Some clock\<rparr>) = Inr (stamped clock (e\<lparr>re_ts_ingest := Some clock\<rparr>))"
    "require_canonical_envelope (to_envelope (stamped clock (e\<lparr>re_ts_ingest := Some clock\<rparr>)) (Some n)) = Inr ()"
proof -
  from assms obtain eid run mode where e: "raise_first (event_checks e) = None" "re_event_id e = Some eid"
    "re_run_id e = Some run" "re_mode e = Some mode" "\<not> blank eid" "\<not> blank run" "\<not> blank mode"
    "\<not> blank (re_payload_schema_version e)"
    by (auto simp: storable_def named_iff)
  then show "mk_runtime_event clock (e\<lparr>re_ts_ingest := Some clock\<rparr>) = Inr (stamped clock (e\<lparr>re_ts_ingest := Some clock\<rparr>))"
    by (simp add: mk_runtime_event_def)
  have "\<not> blank ''qts-platform-v1''" by code_simp
  with e show "require_canonical_envelope (to_envelope (stamped clock (e\<lparr>re_ts_ingest := Some clock\<rparr>)) (Some n)) = Inr ()"
    by (simp add: require_canonical_envelope_def checked_def json_get_def dict_lookup_def to_envelope_def stamped_def Let_def
        optional_json_def split: option.split)
qed

lemma file_line_written:
  assumes "storable ev"
  shows "\<exists>row. file_record clock n ev = Inr row \<and> distinct (map fst row) \<and> map_of row ''sequence'' = Some (JNumber (of_int n)) \<and>
     json_sorted (JObject row) = JObject (file_line clock n ev)"
  using assms storable_envelope
  by (cases ev) (auto simp: file_record_def file_line_def)

lemma file_line_lookup:
  assumes "storable ev"
  shows "\<exists>row. file_record clock n ev = Inr row \<and> map_of row ''sequence'' = Some (JNumber (of_int n)) \<and>
     (\<forall>k. map_of (file_line clock n ev) k = map_option json_sorted (map_of row k))"
proof -
  obtain row where row: "file_record clock n ev = Inr row" "distinct (map fst row)"
    "map_of row ''sequence'' = Some (JNumber (of_int n))" "json_sorted (JObject row) = JObject (file_line clock n ev)"
    using file_line_written [OF assms] by blast
  then show ?thesis using sorted_lookup [OF row(2)] by auto
qed

lemma record_sequence_line: "storable ev \<Longrightarrow> record_sequence (file_line clock n ev) = Inr n"
  using file_line_lookup [of ev clock n] by (auto simp: record_sequence_def json_index_def)

lemma envelope_lookup:
  "map_of (to_envelope e n) ''event_id'' = Some (optional_json (re_event_id e))"
  "map_of (to_envelope e n) ''parent_event_id'' = Some (optional_json (re_parent_event_id e))"
  "map_of (to_envelope e n) ''kind'' = Some (JText (re_kind e))"
  "map_of (to_envelope e n) ''payload'' = Some (JObject (re_payload e))"
  "map_of (to_envelope e n) ''run_id'' = Some (optional_json (re_run_id e))"
  "map_of (to_envelope e n) ''runtime_mode'' = Some (optional_json (re_mode e))"
  "map_of (to_envelope e n) ''sequence_no'' = Some
     (case (case re_sequence_no e of Some k \<Rightarrow> Some k | None \<Rightarrow> n) of None \<Rightarrow> JNull | Some k \<Rightarrow> JNumber (of_int k))"
  "map_of (to_envelope e n) ''ts_event'' = Some (time_json (re_ts_event e))"
  "map_of (to_envelope e n) ''ts_ingest'' = Some (time_json (re_ts_ingest e))"
  "map_of (to_envelope e n) ''account_id'' = Some (optional_json (re_account_id e))"
  "map_of (to_envelope e n) ''strategy_id'' = Some (optional_json (re_strategy_id e))"
  "map_of (to_envelope e n) ''instrument_id'' = Some (optional_json (re_instrument_id e))"
  "map_of (to_envelope e n) ''correlation_id'' = Some (optional_json (re_correlation_id e))"
  "map_of (to_envelope e n) ''causation_id'' = Some (optional_json (re_causation_id e))"
  "map_of (to_envelope e n) ''execution_environment'' = Some (optional_json (re_execution_environment e))"
  "map_of (to_envelope e n) ''payload_schema_version'' = Some (JText (re_payload_schema_version e))"
  by (simp_all add: to_envelope_def)

text \<open>Reading the sorted envelope of an event that has its identity and times.\<close>

lemma envelope_read_back:
  assumes "re_event_id e = Some eid" "re_run_id e = Some run" "re_mode e = Some mode" "re_ts_event e = Some t1"
    "re_ts_ingest e = Some t2"
  shows "runtime_event_from_json clock (sort_key fst (map (\<lambda>(k, v). (k, json_sorted v)) (to_envelope e (Some n)))) =
    mk_runtime_event clock
      (e\<lparr>re_sequence_no := Some (case re_sequence_no e of Some k \<Rightarrow> k | None \<Rightarrow> n),
         re_payload := sort_key fst (map (\<lambda>(k, v). (k, json_sorted v)) (re_payload e))\<rparr>)"
proof -
  have "json_sorted (time_json (Some t)) = JTimeText t" for t by (simp add: time_json_def)
  moreover have "optional_json (Some s) = JText s" for s by (simp add: optional_json_def)
  ultimately have "runtime_event_from_json clock (sort_key fst (map (\<lambda>(k, v). (k, json_sorted v)) (to_envelope e (Some n)))) =
    mk_runtime_event clock
     \<lparr>re_kind = re_kind e, re_payload = sort_key fst (map (\<lambda>(k, v). (k, json_sorted v)) (re_payload e)),
      re_event_id = Some eid, re_parent_event_id = re_parent_event_id e, re_run_id = Some run, re_mode = Some mode,
      re_sequence_no = Some (case re_sequence_no e of Some k \<Rightarrow> k | None \<Rightarrow> n), re_ts_event = Some t1,
      re_ts_ingest = Some t2, re_account_id = re_account_id e, re_strategy_id = re_strategy_id e,
      re_instrument_id = re_instrument_id e, re_correlation_id = re_correlation_id e, re_causation_id = re_causation_id e,
      re_execution_environment = re_execution_environment e, re_payload_schema_version = re_payload_schema_version e\<rparr>"
    using assms by (simp add: runtime_event_from_json_def json_index_def json_get_def dict_lookup_def
        sorted_lookup [OF envelope_keys] envelope_lookup split: option.split)
  with assms show ?thesis by (cases e) simp
qed

lemma json_get_sorted_text:
  "distinct (map fst d) \<Longrightarrow> (case json_get (sort_key fst (map (\<lambda>(k, v). (k, json_sorted v)) d)) k of JText s \<Rightarrow> blank s | _ \<Rightarrow> True) =
     (case json_get d k of JText s \<Rightarrow> blank s | _ \<Rightarrow> True)"
  by (cases "map_of d k"; cases "the (map_of d k)") (simp_all add: json_get_def dict_lookup_def sorted_lookup)

lemma event_read_back:
  assumes "storable ev" and n: "0 < n"
  shows "event_from_record clock' (file_line clock n ev) = Inr (read_back clock n ev)"
proof (cases ev)
  case (BaseEv b)
  obtain row where row: "file_record clock n ev = Inr row"
    "\<And>k. map_of (file_line clock n ev) k = map_option json_sorted (map_of row k)"
    using file_line_lookup [OF assms(1)] by blast
  have keys: "distinct (map fst (event_to_json b))" by (simp add: event_to_json_def)
  have "map_of row ''runtime_event'' = None" "map_of row ''event'' = Some (JObject (event_to_json b))"
    using row(1) BaseEv by (auto simp: file_record_def)
  then have "event_from_record clock' (file_line clock n ev) =
      res_bind (event_from_json (sort_key fst (map (\<lambda>(k, v). (k, json_sorted v)) (event_to_json b)))) (\<lambda>b. Inr (BaseEv b))"
    by (simp add: event_from_record_def row(2) json_index_def)
  then show ?thesis
    using assms BaseEv
    by (simp add: json_index_def event_from_json_def sorted_lookup [OF keys] storable_def read_back_def)
       (cases b, simp add: event_to_json_def)
next
  case (RuntimeEv e)
  let ?e1 = "stamped clock (e\<lparr>re_ts_ingest := Some clock\<rparr>)"
  let ?env = "to_envelope ?e1 (Some n)"
  obtain row where row: "file_record clock n ev = Inr row"
    "\<And>k. map_of (file_line clock n ev) k = map_option json_sorted (map_of row k)"
    using file_line_lookup [OF assms(1)] by blast
  have "map_of row ''runtime_event'' = Some (JObject ?env)"
    using row(1) storable_envelope(1) [of e clock] storable_envelope(2) [of e clock n] assms RuntimeEv by (auto simp: file_record_def)
  then have *: "event_from_record clock' (file_line clock n ev) =
      res_bind (runtime_event_from_json clock' (sort_key fst (map (\<lambda>(k, v). (k, json_sorted v)) ?env))) (\<lambda>e. Inr (RuntimeEv e))"
    by (simp add: event_from_record_def row(2))
  from assms RuntimeEv obtain eid run mode where e: "raise_first (event_checks e) = None" "re_event_id e = Some eid"
    "re_run_id e = Some run" "re_mode e = Some mode" "distinct (map fst (re_payload e))"
    by (auto simp: storable_def named_iff)
  let ?e2 = "?e1\<lparr>re_sequence_no := Some (case re_sequence_no ?e1 of Some k \<Rightarrow> k | None \<Rightarrow> n),
      re_payload := sort_key fst (map (\<lambda>(k, v). (k, json_sorted v)) (re_payload ?e1))\<rparr>"
  obtain t1 t2 where t: "re_ts_event ?e1 = Some t1" "re_ts_ingest ?e1 = Some t2" by (simp add: stamped_def Let_def)
  have "raise_first (event_checks ?e2) = None"
    using e(1,5) n by (auto simp: event_checks_def stamped_def Let_def json_get_sorted_text split: if_splits option.splits)
  moreover have "stamped clock' ?e2 = ?e2" using t by (simp add: stamped_fixed)
  ultimately have "mk_runtime_event clock' ?e2 = Inr ?e2" by (simp add: mk_runtime_event_def)
  moreover have "re_event_id ?e1 = Some eid" "re_run_id ?e1 = Some run" "re_mode ?e1 = Some mode"
    using e(2-4) by (simp_all add: stamped_def Let_def)
  ultimately show ?thesis
    unfolding * envelope_read_back [OF \<open>re_event_id ?e1 = _\<close> \<open>re_run_id ?e1 = _\<close> \<open>re_mode ?e1 = _\<close> t]
    by (simp add: RuntimeEv read_back_def)
qed

definition may_write :: "file_event_store \<Rightarrow> event_file \<Rightarrow> bool" where
  "may_write s f \<longleftrightarrow> \<not> fe_single_writer s \<or> fe_holds_lock s \<or> ef_lock_holder f = None"

lemma file_append_ok:
  assumes "storable ev" and "may_write s f"
  shows "\<exists>s' f'. file_append clock ev (s, f) = (Inr (fe_next_sequence s), (s', f')) \<and> may_write s' f' \<and>
    fe_next_sequence s' = fe_next_sequence s + 1 \<and> fe_id s' = fe_id s \<and> fe_single_writer s' = fe_single_writer s \<and>
    (fe_single_writer s' \<longrightarrow> fe_holds_lock s') \<and>
    ef_records f' = ef_records f @ [file_line clock (fe_next_sequence s) ev]"
  using file_line_written [OF assms(1), of clock "fe_next_sequence s"] assms(2)
  by (auto simp: file_append_def acquire_writer_lock_def may_write_def)

fun append_all ::
  "(instant \<times> stored_event) list \<Rightarrow> file_event_store \<times> event_file \<Rightarrow> (file_event_store \<times> event_file, int list) outcome" where
  "append_all [] st = (Inr [], st)"
| "append_all ((clock, ev) # evs) st =
     obind (file_append clock ev st) (\<lambda>n st1. obind (append_all evs st1) (\<lambda>ns st2. (Inr (n # ns), st2)))"

definition stored_back :: "(instant \<times> stored_event) list \<Rightarrow> int \<Rightarrow> stored_event list" where
  "stored_back evs n = map (\<lambda>((clock, ev), m). read_back clock m ev) (zip evs [n..n + int (length evs) - 1])"

definition lines_from :: "(instant \<times> stored_event) list \<Rightarrow> int \<Rightarrow> (string, json) dict list" where
  "lines_from evs n = map (\<lambda>((clock, ev), m). file_line clock m ev) (zip evs [n..n + int (length evs) - 1])"

lemma upto_Cons: "[n..n + int (Suc k) - 1] = n # [n + 1..n + 1 + int k - 1]"
  by (subst upto.simps) (simp add: algebra_simps)

lemma append_all_ok:
  assumes "list_all (\<lambda>(clock, ev). storable ev) evs" and "may_write s f"
  shows "\<exists>s' f'. append_all evs (s, f) = (Inr [fe_next_sequence s..fe_next_sequence s + int (length evs) - 1], (s', f')) \<and>
    ef_records f' = ef_records f @ lines_from evs (fe_next_sequence s)"
  using assms
proof (induction evs arbitrary: s f)
  case (Cons p evs)
  obtain clock ev where p: "p = (clock, ev)" by (cases p)
  from Cons.prems p obtain s1 f1 where a: "file_append clock ev (s, f) = (Inr (fe_next_sequence s), (s1, f1))"
    "may_write s1 f1" "fe_next_sequence s1 = fe_next_sequence s + 1"
    "ef_records f1 = ef_records f @ [file_line clock (fe_next_sequence s) ev]"
    using file_append_ok [of ev s f clock] by auto
  from Cons.IH [OF _ a(2)] Cons.prems(1) obtain s2 f2 where b:
    "append_all evs (s1, f1) = (Inr [fe_next_sequence s1..fe_next_sequence s1 + int (length evs) - 1], (s2, f2))"
    "ef_records f2 = ef_records f1 @ lines_from evs (fe_next_sequence s1)" by auto
  then show ?case
    unfolding p by (simp add: a lines_from_def upto_Cons del: of_nat_Suc)
qed (simp add: lines_from_def)

lemma res_map_append: "res_map g (xs @ ys) = res_bind (res_map g xs) (\<lambda>us. res_bind (res_map g ys) (\<lambda>vs. Inr (us @ vs)))"
  by (induction xs) (auto simp: res_bind_def split: sum.splits)

lemma lines_sequences:
  "list_all (\<lambda>(clock, ev). storable ev) evs \<Longrightarrow>
     res_map record_sequence (lines_from evs n) = Inr [n..n + int (length evs) - 1]"
proof (induction evs arbitrary: n)
  case (Cons p evs)
  then show ?case
    using Cons.IH [of "n + 1"] by (cases p) (simp add: lines_from_def upto_Cons record_sequence_line del: of_nat_Suc)
qed (simp add: lines_from_def)

lemma lines_read:
  "list_all (\<lambda>(clock, ev). storable ev) evs \<Longrightarrow> 0 < n \<Longrightarrow> k < n \<Longrightarrow>
     read_records clock' k None (lines_from evs n) = Inr (stored_back evs n)"
proof (induction evs arbitrary: n)
  case (Cons p evs)
  then show ?case
    using Cons.IH [of "n + 1"]
    by (cases p) (simp add: lines_from_def stored_back_def upto_Cons record_sequence_line event_read_back del: of_nat_Suc)
qed (simp add: lines_from_def stored_back_def)

lemma read_records_skip:
  "res_map record_sequence ds = Inr ns \<Longrightarrow> \<forall>n \<in> set ns. n \<le> k \<Longrightarrow>
     read_records clock k key (ds @ es) = read_records clock k key es"
  by (induction ds arbitrary: ns) (auto simp: res_bind_Inr_iff)

lemma highest_upto: "0 \<le> k \<Longrightarrow> (if [1..k] = [] then 0 else Max (set [1..k])) = k"
  by (auto intro: Max_eqI)

lemma duplicate_loop_fresh:
  "distinct ns \<Longrightarrow> set ns \<inter> seen = {} \<Longrightarrow> duplicate_loop (ns @ ms) seen dups = duplicate_loop ms (seen \<union> set ns) dups"
  by (induction ns arbitrary: seen) auto

lemma validate_contiguous:
  assumes "0 \<le> k"
  shows "validate_sequences [1..k] = \<lparr>sr_valid = True, sr_missing = [], sr_duplicate = []\<rparr>"
proof -
  have "filter (\<lambda>n. n \<notin> set [1..k]) [1..k] = []" by (auto simp: filter_empty_conv)
  moreover have "duplicate_loop [1..k] {} [] = []" using duplicate_loop_fresh [of "[1..k]" "{}" "[]"] by simp
  ultimately show ?thesis unfolding validate_sequences_def Let_def highest_upto [OF assms] by simp
qed

lemma validate_repeated:
  assumes "0 \<le> k"
  shows "validate_sequences ([1..k] @ [k + 1, k + 1]) = \<lparr>sr_valid = False, sr_missing = [], sr_duplicate = [k + 1]\<rparr>"
proof -
  have "Max (set ([1..k] @ [k + 1, k + 1])) = k + 1" using assms by (intro Max_eqI) auto
  moreover have "filter (\<lambda>n. n \<notin> set ([1..k] @ [k + 1, k + 1])) [1..k + 1] = []" by (auto simp: filter_empty_conv)
  moreover have "duplicate_loop ([1..k] @ [k + 1, k + 1]) {} [] = [k + 1]"
    by (subst duplicate_loop_fresh) auto
  ultimately show ?thesis unfolding validate_sequences_def Let_def by simp
qed

lemma opened_store:
  assumes "read_sequences f = Inr [1..k]" and "0 \<le> k" and "open_file_store i single f = Inr s"
  shows "s = \<lparr>fe_id = i, fe_single_writer = single, fe_holds_lock = False, fe_next_sequence = k + 1\<rparr>"
  using assms(3) unfolding open_file_store_def highest_sequence_def assms(1) res_bind_simps highest_upto [OF assms(2)] by simp

text \<open>C26. A file store opened on a file numbered \<open>1..k\<close> that no other store is writing takes every acceptable event, numbers
  them on from \<open>k+1\<close>, leaves a file whose sequence validates, and a replay after \<open>k\<close> returns exactly those events in
  order, as they are read back (ingest time of the store, payload keys sorted).
\<close>

theorem file_store_appends_in_order:
  assumes "read_sequences f = Inr [1..k]" and "0 \<le> k" and "ef_lock_holder f = None"
    and "open_file_store i single f = Inr s" and "list_all (\<lambda>(clock, ev). storable ev) evs"
  shows "\<exists>s' f'. append_all evs (s, f) = (Inr [k + 1..k + int (length evs)], (s', f')) \<and>
     read_sequences f' = Inr [1..k + int (length evs)] \<and>
     validate_sequence f' = Inr \<lparr>sr_valid = True, sr_missing = [], sr_duplicate = []\<rparr> \<and>
     file_replay_after clock' k None f' = Inr (stored_back evs (k + 1))"
proof -
  have s: "fe_next_sequence s = k + 1" "may_write s f"
    using opened_store [OF assms(1,2,4)] assms(3) by (auto simp: may_write_def)
  obtain s' f' where a: "append_all evs (s, f) = (Inr [k + 1..k + int (length evs)], (s', f'))"
    "ef_records f' = ef_records f @ lines_from evs (k + 1)"
    using append_all_ok [OF assms(5) s(2)] s(1) by auto
  have "[1..k] @ [k + 1..k + 1 + int (length evs) - 1] = [1..k + int (length evs)]"
    using assms(2) upto_split2 [of 1 k "k + int (length evs)"] by (cases "k = 0") simp_all
  then have seqs: "read_sequences f' = Inr [1..k + int (length evs)]"
    using assms(1) lines_sequences [OF assms(5), of "k + 1"]
    by (simp add: read_sequences_def a(2) res_map_append)
  then have "validate_sequence f' = Inr \<lparr>sr_valid = True, sr_missing = [], sr_duplicate = []\<rparr>"
    using assms(2) by (simp add: validate_sequence_def validate_contiguous)
  moreover have "file_replay_after clock' k None f' = Inr (stored_back evs (k + 1))"
    using assms(1,2) lines_read [OF assms(5), of "k + 1" k clock']
    by (simp add: file_replay_after_def a(2) read_sequences_def read_records_skip)
  ultimately show ?thesis using a(1) seqs by blast
qed

text \<open>Two single-writer stores opened on the same file before either has written: the second, writing after the first has
  closed, is given the lock but still counts from where it was opened, so it writes the first one's number again and the
  file no longer validates.
\<close>

theorem stale_writer_repeats_sequence:
  assumes "read_sequences f = Inr [1..k]" and "0 \<le> k" and "ef_lock_holder f = None"
    and "open_file_store i True f = Inr s1" and "open_file_store j True f = Inr s2"
    and "storable ev1" and "storable ev2"
  shows "\<exists>s1' f1 s2' f2. file_append t1 ev1 (s1, f) = (Inr (k + 1), (s1', f1)) \<and>
     file_append t2 ev2 (s2, snd (file_close (s1', f1))) = (Inr (k + 1), (s2', f2)) \<and>
     validate_sequence f2 = Inr \<lparr>sr_valid = False, sr_missing = [], sr_duplicate = [k + 1]\<rparr>"
proof -
  note s1 = opened_store [OF assms(1,2,4)] and s2 = opened_store [OF assms(1,2,5)]
  obtain s1' f1 where a: "file_append t1 ev1 (s1, f) = (Inr (k + 1), (s1', f1))" "fe_holds_lock s1'"
    "ef_records f1 = ef_records f @ [file_line t1 (k + 1) ev1]"
    using file_append_ok [OF assms(6), of s1 f t1] assms(3) by (auto simp: s1 may_write_def)
  define f1' where "f1' = snd (file_close (s1', f1))"
  have f1': "ef_lock_holder f1' = None" "ef_records f1' = ef_records f1" using a(2) by (simp_all add: f1'_def file_close_def)
  obtain s2' f2 where b: "file_append t2 ev2 (s2, f1') = (Inr (k + 1), (s2', f2))"
    "ef_records f2 = ef_records f1' @ [file_line t2 (k + 1) ev2]"
    using file_append_ok [OF assms(7), of s2 f1' t2] f1'(1) by (auto simp: s2 may_write_def)
  have "read_sequences f2 = Inr ([1..k] @ [k + 1, k + 1])"
    using assms(1,6,7) by (simp add: read_sequences_def b(2) f1'(2) a(3) res_map_append record_sequence_line)
  then have "validate_sequence f2 = Inr \<lparr>sr_valid = False, sr_missing = [], sr_duplicate = [k + 1]\<rparr>"
    using validate_repeated [OF assms(2)] by (simp add: validate_sequence_def)
  with a(1) b(1) show ?thesis unfolding f1'_def by blast
qed

definition sample_base_event :: base_event where
  "sample_base_event = \<lparr>be_event_id = ''e1'', be_event_type = ''order'', be_event_time = 5, be_source = ''s'',
     be_partition_key = ''p'', be_correlation_id = None, be_causation_id = Some ''c''\<rparr>"

definition sample_stored_event :: stored_event where
  "sample_stored_event = RuntimeEv ((plain_event ''runtime.note'' [(''b'', JNumber 1), (''a'', JText ''x'')])
     \<lparr>re_event_id := Some ''e2'', re_run_id := Some ''run'', re_mode := Some ''paper''\<rparr>)"

lemma sample_storable: "storable (BaseEv sample_base_event)" "storable sample_stored_event"
proof -
  show "storable (BaseEv sample_base_event)" by code_simp
  have "raise_first (event_checks (plain_event ''runtime.note'' [(''b'', JNumber 1), (''a'', JText ''x'')])) = None"
    "\<not> blank ''e2''" "\<not> blank ''run''" "\<not> blank ''paper''" "\<not> blank ''1''"
    by (code_simp, code_simp, code_simp, code_simp, code_simp)
  then show "storable sample_stored_event"
    by (simp add: sample_stored_event_def storable_def named_def plain_event_def schema_version_def event_checks_def)
qed

definition empty_event_file :: event_file where
  "empty_event_file = \<lparr>ef_records = [], ef_lock_holder = None\<rparr>"

lemma empty_event_file: "read_sequences empty_event_file = Inr [1..0]" "ef_lock_holder empty_event_file = None"
  "open_file_store i b empty_event_file = Inr \<lparr>fe_id = i, fe_single_writer = b, fe_holds_lock = False, fe_next_sequence = 1\<rparr>"
  by (simp_all add: empty_event_file_def read_sequences_def open_file_store_def highest_sequence_def)

theorem file_store_appends_in_order_witness:
  "\<exists>s' f'. append_all [(7, BaseEv sample_base_event), (8, sample_stored_event)]
     (\<lparr>fe_id = 0, fe_single_writer = True, fe_holds_lock = False, fe_next_sequence = 1\<rparr>, empty_event_file) = (Inr [1, 2], (s', f'))"
proof -
  have "[0 + 1..0 + int (length [(7, BaseEv sample_base_event), (8, sample_stored_event)])] = [1, 2]" by code_simp
  with file_store_appends_in_order [OF empty_event_file(1) order.refl empty_event_file(2) empty_event_file(3) [of 0 True],
      of "[(7, BaseEv sample_base_event), (8, sample_stored_event)]"] sample_storable
  show ?thesis by (simp del: append_all.simps) blast
qed

theorem stale_writer_repeats_sequence_witness:
  "\<exists>s1' f1 s2' f2.
     file_append 7 (BaseEv sample_base_event)
       (\<lparr>fe_id = 0, fe_single_writer = True, fe_holds_lock = False, fe_next_sequence = 1\<rparr>, empty_event_file) = (Inr 1, (s1', f1)) \<and>
     file_append 8 sample_stored_event
       (\<lparr>fe_id = 1, fe_single_writer = True, fe_holds_lock = False, fe_next_sequence = 1\<rparr>, snd (file_close (s1', f1))) =
         (Inr 1, (s2', f2)) \<and>
     validate_sequence f2 = Inr \<lparr>sr_valid = False, sr_missing = [], sr_duplicate = [1]\<rparr>"
  using stale_writer_repeats_sequence [OF empty_event_file(1) order.refl empty_event_file(2) empty_event_file(3) [of 0 True]
      empty_event_file(3) [of 1 True] sample_storable, of 7 8] by simp

text \<open>What a file store replays is not migrated, unlike what the in-memory store replays.\<close>

lemma file_replay_is_not_migrated:
  "file_replay 9 None (\<lparr>ef_records = [file_line 5 1 (RuntimeEv (sample_v0_event
       \<lparr>re_event_id := Some ''e'', re_run_id := Some ''r'', re_mode := Some ''m''\<rparr>))], ef_lock_holder = None\<rparr>) =
     Inr [read_back 5 1 (RuntimeEv (sample_v0_event
       \<lparr>re_event_id := Some ''e'', re_run_id := Some ''r'', re_mode := Some ''m''\<rparr>))]"
proof -
  have "raise_first (event_checks (sample_v0_event\<lparr>re_event_id := Some ''e'', re_run_id := Some ''r'', re_mode := Some ''m''\<rparr>)) = None"
    "\<not> blank ''e''" "\<not> blank ''r''" "\<not> blank ''m''" "\<not> blank ''0''"
    by (code_simp, code_simp, code_simp, code_simp, code_simp)
  then have "storable (RuntimeEv (sample_v0_event\<lparr>re_event_id := Some ''e'', re_run_id := Some ''r'', re_mode := Some ''m''\<rparr>))"
    by (simp add: storable_def named_def sample_v0_event_def plain_event_def)
  then show ?thesis by (simp add: file_replay_def event_read_back)
qed

end
