(* ===== verification/State_Durability.thy ===== *)
theory State_Durability
  imports Event_Store
begin

text \<open>
  State that survives a restart: snapshots and their stores, the snapshot cadence and the recovery gates
  (\<open>runtime/state_recovery.py\<close>), the persistence of an account actor (\<open>runtime/durable_recovery.py\<close>) and the recovery
  drill (\<open>runtime/durability.py\<close>).

  The store protocol is the locale \<open>snapshot_store\<close>, interpreted on the in-memory store and on the file store.
\<close>

section \<open>Snapshots and stores (\<open>state_recovery.py\<close>)\<close>

record state_snapshot =
  sn_actor_id :: string
  sn_state_version :: int
  sn_payload :: json
  sn_snapshot_id :: "string option"
  sn_run_id :: "string option"
  sn_schema_version :: string
  sn_created_at :: instant
  sn_last_sequence :: int
  sn_topology_hash :: "string option"
  sn_config_hash :: "string option"

definition mk_state_snapshot :: "state_snapshot \<Rightarrow> state_snapshot res" where
  [ctor_simps]: "mk_state_snapshot s = checked
     [(blank_opt (sn_snapshot_id s), ValueError ''snapshot_id must not be empty''),
      (blank (sn_actor_id s), ValueError ''actor_id must not be empty''),
      (blank (sn_schema_version s), ValueError ''schema_version must not be empty''),
      (sn_state_version s < 0, ValueError ''state_version must be non-negative''),
      (sn_last_sequence s < 0, ValueError ''last_sequence must be non-negative''),
      (blank_opt (sn_topology_hash s), ValueError ''topology_hash must not be empty''),
      (blank_opt (sn_config_hash s), ValueError ''config_hash must not be empty'')] s"

type_synonym memory_snapshots = "(string, state_snapshot) dict"

definition memory_save :: "state_snapshot \<Rightarrow> memory_snapshots \<Rightarrow> memory_snapshots" where
  "memory_save s st = AList.update (sn_actor_id s) s st"

definition memory_load :: "string \<Rightarrow> memory_snapshots \<Rightarrow> state_snapshot option res" where
  "memory_load a st = (if blank a then Inl (ValueError ''actor_id must not be empty'') else Inr (map_of st a))"

text \<open>A line of the snapshot file: a JSON object, or text that is blank or does not parse. No file is \<open>None\<close>.\<close>

datatype snapshot_line = ObjectLine "(string, json) dict" | OtherLine string

type_synonym snapshot_file = "snapshot_line list option"

definition snapshot_to_json :: "state_snapshot \<Rightarrow> (string, json) dict" where
  "snapshot_to_json s =
     [(''snapshot_id'', optional_json (sn_snapshot_id s)), (''actor_id'', JText (sn_actor_id s)),
      (''run_id'', optional_json (sn_run_id s)), (''schema_version'', JText (sn_schema_version s)),
      (''created_at'', JTimeText (sn_created_at s)), (''state_version'', JNumber (of_int (sn_state_version s))),
      (''last_sequence'', JNumber (of_int (sn_last_sequence s))),
      (''last_event_sequence_no'', JNumber (of_int (sn_last_sequence s))),
      (''topology_hash'', optional_json (sn_topology_hash s)), (''config_hash'', optional_json (sn_config_hash s)),
      (''payload'', sn_payload s)]"

definition snapshot_from_json :: "instant \<Rightarrow> (string, json) dict \<Rightarrow> state_snapshot res" where
  "snapshot_from_json clock d =
     res_bind (json_optional_text (json_get d ''snapshot_id'')) (\<lambda>snapshot.
     res_bind (res_bind (json_index d ''actor_id'') json_text) (\<lambda>actor.
     res_bind (json_optional_text (json_get d ''run_id'')) (\<lambda>run.
     res_bind (case run of None \<Rightarrow> Inr None | Some r \<Rightarrow> res_bind (mk_string_id r) (\<lambda>i. Inr (Some i))) (\<lambda>run_id.
     res_bind (json_text (dict_lookup d ''schema_version'' (JText ''1''))) (\<lambda>version.
     res_bind (if json_get d ''created_at'' = JNull then Inr clock else json_time (json_get d ''created_at'')) (\<lambda>created.
     res_bind (res_bind (json_index d ''state_version'') json_int) (\<lambda>state_version.
     res_bind (json_int (dict_lookup d ''last_event_sequence_no'' (dict_lookup d ''last_sequence'' (JNumber 0)))) (\<lambda>last_sequence.
     res_bind (json_optional_text (json_get d ''topology_hash'')) (\<lambda>topology.
     res_bind (json_optional_text (json_get d ''config_hash'')) (\<lambda>config.
     res_bind (json_index d ''payload'') (\<lambda>payload.
       mk_state_snapshot
         \<lparr>sn_actor_id = actor, sn_state_version = state_version, sn_payload = payload, sn_snapshot_id = snapshot,
          sn_run_id = run_id, sn_schema_version = version, sn_created_at = created, sn_last_sequence = last_sequence,
          sn_topology_hash = topology, sn_config_hash = config\<rparr>)))))))))))"

text \<open>The file is rewritten with one more line and replaced atomically.\<close>

definition file_save :: "state_snapshot \<Rightarrow> snapshot_file \<Rightarrow> snapshot_file" where
  "file_save s f =
     (let existing = (case f of None \<Rightarrow> [] | Some ls \<Rightarrow> ls) in
      case json_sorted (JObject (snapshot_to_json s)) of
        JObject line \<Rightarrow> Some (existing @ [ObjectLine line])
      | _ \<Rightarrow> Some existing)"

text \<open>Lines that do not parse into a snapshot are skipped; the last match wins.\<close>

fun latest_snapshot :: "instant \<Rightarrow> string \<Rightarrow> snapshot_line list \<Rightarrow> state_snapshot option \<Rightarrow> state_snapshot option" where
  "latest_snapshot clock a [] latest = latest"
| "latest_snapshot clock a (OtherLine s # ls) latest = latest_snapshot clock a ls latest"
| "latest_snapshot clock a (ObjectLine d # ls) latest =
     (case snapshot_from_json clock d of
        Inl e \<Rightarrow> latest_snapshot clock a ls latest
      | Inr s \<Rightarrow> latest_snapshot clock a ls (if sn_actor_id s = a then Some s else latest))"

definition file_load :: "instant \<Rightarrow> string \<Rightarrow> snapshot_file \<Rightarrow> state_snapshot option res" where
  "file_load clock a f =
     (if blank a then Inl (ValueError ''actor_id must not be empty'')
      else case f of None \<Rightarrow> Inr None | Some ls \<Rightarrow> Inr (latest_snapshot clock a ls None))"

record snapshot_policy =
  sp_every_event_count :: "int option"
  sp_every_elapsed :: "int option"

definition mk_snapshot_policy :: "int option \<Rightarrow> int option \<Rightarrow> snapshot_policy res" where
  [ctor_simps]: "mk_snapshot_policy n t = checked
     [((case n of None \<Rightarrow> False | Some k \<Rightarrow> k \<le> 0), ValueError ''every_event_count must be positive when configured''),
      ((case t of None \<Rightarrow> False | Some k \<Rightarrow> k \<le> 0), ValueError ''every_elapsed must be positive when configured''),
      (n = None \<and> t = None, ValueError ''at least one snapshot frequency trigger is required'')]
     \<lparr>sp_every_event_count = n, sp_every_elapsed = t\<rparr>"

definition should_snapshot :: "snapshot_policy \<Rightarrow> int \<Rightarrow> int \<Rightarrow> bool res" where
  "should_snapshot p event_count elapsed =
     (if event_count < 0 then Inl (ValueError ''event_count must be non-negative'')
      else if elapsed < 0 then Inl (ValueError ''elapsed must be non-negative'')
      else Inr ((case sp_every_event_count p of None \<Rightarrow> False | Some k \<Rightarrow> event_count \<ge> k) \<or>
                (case sp_every_elapsed p of None \<Rightarrow> False | Some t \<Rightarrow> elapsed \<ge> t)))"

section \<open>Recovery gates\<close>

record recovery_readiness =
  rr_recovery_allowed :: bool
  rr_reason_code :: "string option"
  rr_missing :: "int list"
  rr_duplicate :: "int list"

definition mk_recovery_readiness :: "recovery_readiness \<Rightarrow> recovery_readiness res" where
  [ctor_simps]: "mk_recovery_readiness r = checked
     [(rr_recovery_allowed r \<and> rr_reason_code r \<noteq> None,
       ValueError ''successful recovery decision must not have a reason_code''),
      (\<not> rr_recovery_allowed r \<and> \<not> truthy (rr_reason_code r),
       ValueError ''blocked recovery decision requires a reason_code'')] r"

datatype recovery_status = ENTER_OBSERVATION | RECOVER_LIVE | RECOVERY_BLOCKED

record recovery_decision =
  rc_status :: recovery_status
  rc_real_order_submission_enabled :: bool
  rc_reason_code :: "string option"

definition mk_recovery_decision :: "recovery_decision \<Rightarrow> recovery_decision res" where
  [ctor_simps]: "mk_recovery_decision d = checked
     (if rc_status d = RECOVER_LIVE then
        [(\<not> rc_real_order_submission_enabled d, ValueError ''ALLOW_LIVE requires real_order_submission_enabled''),
         (rc_reason_code d \<noteq> None, ValueError ''ALLOW_LIVE decision must not have a reason_code'')]
      else [(rc_real_order_submission_enabled d,
             ValueError ''blocked or observation recovery cannot enable real orders'')]) d"

definition validate_event_sequence_for_recovery :: "sequence_report \<Rightarrow> recovery_readiness res" where
  "validate_event_sequence_for_recovery r =
     (if sr_missing r \<noteq> [] then mk_recovery_readiness
        \<lparr>rr_recovery_allowed = False, rr_reason_code = Some ''EVENT_SEQUENCE_GAP'', rr_missing = sr_missing r, rr_duplicate = []\<rparr>
      else if sr_duplicate r \<noteq> [] then mk_recovery_readiness
        \<lparr>rr_recovery_allowed = False, rr_reason_code = Some ''EVENT_SEQUENCE_DUPLICATE'', rr_missing = [],
         rr_duplicate = sr_duplicate r\<rparr>
      else mk_recovery_readiness
        \<lparr>rr_recovery_allowed = sr_valid r, rr_reason_code = None, rr_missing = [], rr_duplicate = []\<rparr>)"

definition validate_runtime_recovery_gate :: "recovery_readiness \<Rightarrow> bool \<Rightarrow> bool \<Rightarrow> recovery_decision res" where
  "validate_runtime_recovery_gate readiness observation_entered reconciliation_passed =
     mk_recovery_decision
      (if \<not> rr_recovery_allowed readiness then
         \<lparr>rc_status = RECOVERY_BLOCKED, rc_real_order_submission_enabled = False, rc_reason_code = rr_reason_code readiness\<rparr>
       else if \<not> observation_entered then
         \<lparr>rc_status = ENTER_OBSERVATION, rc_real_order_submission_enabled = False,
          rc_reason_code = Some ''RECOVERY_OBSERVATION_REQUIRED''\<rparr>
       else if \<not> reconciliation_passed then
         \<lparr>rc_status = ENTER_OBSERVATION, rc_real_order_submission_enabled = False,
          rc_reason_code = Some ''RECOVERY_RECONCILIATION_REQUIRED''\<rparr>
       else \<lparr>rc_status = RECOVER_LIVE, rc_real_order_submission_enabled = True, rc_reason_code = None\<rparr>)"

section \<open>Persisting an account (\<open>durable_recovery.py\<close>)\<close>

record durable_recovery =
  dr_store :: snapshot_file
  dr_policy :: snapshot_policy
  dr_last_snapshot_event_count :: int

definition snapshot_actor_id :: "account_id option \<Rightarrow> string" where
  "snapshot_actor_id a = (case a of None \<Rightarrow> ''account:default'' | Some i \<Rightarrow> ''account:'' @ i)"

definition holding_to_json :: "holding \<Rightarrow> json" where
  "holding_to_json h = JObject
     [(''quantity'', JDecimalText (h_quantity h)), (''average_cost'', JDecimalText (h_average_cost h)),
      (''realized_pnl'', JDecimalText (h_realized_pnl h)), (''opened_at'', time_json (h_opened_at h)),
      (''last_fill_at'', time_json (h_last_fill_at h))]"

definition serialize_account_snapshot :: "account_snapshot \<Rightarrow> json" where
  "serialize_account_snapshot s = JObject
     [(''account_id'', optional_json (as_account_id s)),
      (''cash'', JObject (map (\<lambda>(c, b). (c, JDecimalText b)) (as_cash s))),
      (''holdings'', JObject (map (\<lambda>(i, h). (i, holding_to_json h)) (as_holdings s))),
      (''seen_fill_ids'', JList (map JText (as_seen_fill_ids s)))]"

definition account_state_snapshot :: "instant \<Rightarrow> int \<Rightarrow> account_snapshot \<Rightarrow> state_snapshot" where
  "account_state_snapshot clock event_count snapshot =
     \<lparr>sn_actor_id = snapshot_actor_id (as_account_id snapshot), sn_state_version = event_count,
      sn_payload = serialize_account_snapshot snapshot, sn_snapshot_id = None, sn_run_id = None,
      sn_schema_version = ''1'', sn_created_at = clock, sn_last_sequence = event_count,
      sn_topology_hash = None, sn_config_hash = None\<rparr>"

definition persist_if_due ::
  "instant \<Rightarrow> int \<Rightarrow> int \<Rightarrow> durable_recovery \<times> account_actor \<Rightarrow> (durable_recovery \<times> account_actor, bool) outcome" where
  "persist_if_due clock event_count elapsed st = (case st of (r, a) \<Rightarrow>
     (case should_snapshot (dr_policy r) (event_count - dr_last_snapshot_event_count r) elapsed of
        Inl e \<Rightarrow> (Inl e, (r, a))
      | Inr False \<Rightarrow> (Inr False, (r, a))
      | Inr True \<Rightarrow>
         (case aa_snapshot a of (snapshot, a1) \<Rightarrow>
           (case mk_state_snapshot (account_state_snapshot clock event_count snapshot) of
              Inl e \<Rightarrow> (Inl e, (r, a1))
            | Inr s \<Rightarrow> (Inr True, (r\<lparr>dr_store := file_save s (dr_store r),
                                    dr_last_snapshot_event_count := event_count\<rparr>, a1))))))"

fun json_decimal :: "json \<Rightarrow> decimal res" where
  "json_decimal (JDecimalText d) = Inr d"
| "json_decimal (JNumber n) = Inr n"
| "json_decimal _ = Inl (ValueError ''invalid decimal text'')"

definition parse_optional_datetime :: "json \<Rightarrow> instant option res" where
  "parse_optional_datetime j = (if j = JNull then Inr None else res_bind (json_time j) (\<lambda>t. Inr (Some t)))"

definition holding_from_json :: "instrument_id \<Rightarrow> json \<Rightarrow> holding res" where
  "holding_from_json i j =
     res_bind (json_object j) (\<lambda>d.
     res_bind (res_bind (json_index d ''quantity'') json_decimal) (\<lambda>q.
     res_bind (res_bind (json_index d ''average_cost'') json_decimal) (\<lambda>c.
     res_bind (res_bind (json_index d ''realized_pnl'') json_decimal) (\<lambda>p.
     res_bind (parse_optional_datetime (json_get d ''opened_at'')) (\<lambda>opened.
     res_bind (parse_optional_datetime (json_get d ''last_fill_at'')) (\<lambda>filled.
       Inr \<lparr>h_instrument_id = i, h_quantity = q, h_average_cost = c, h_realized_pnl = p,
            h_cost_basis_method = AVERAGE, h_opened_at = opened, h_last_fill_at = filled, h_lots = []\<rparr>))))))"

fun json_texts :: "json \<Rightarrow> string list res" where
  "json_texts (JList js) = res_map json_text js"
| "json_texts _ = Inl (TypeError ''not iterable'')"

definition restore_from_payload :: "json \<Rightarrow> account_id \<Rightarrow> account_actor res" where
  "restore_from_payload payload account =
     res_bind (json_object payload) (\<lambda>d.
     res_bind (json_object (dict_lookup d ''cash'' (JObject []))) (\<lambda>raw_cash.
     res_bind (res_map (\<lambda>(c, j). res_bind (json_decimal j) (\<lambda>b. Inr (c, b))) raw_cash) (\<lambda>cash.
     res_bind (json_object (dict_lookup d ''holdings'' (JObject []))) (\<lambda>raw_holdings.
     res_bind (res_map (\<lambda>(i, j). res_bind (mk_string_id i) (\<lambda>i. res_bind (holding_from_json i j) (\<lambda>h. Inr (i, h))))
                raw_holdings) (\<lambda>holdings.
     res_bind (json_texts (dict_lookup d ''seen_fill_ids'' (JList []))) (\<lambda>seen.
       Inr ((aa_init (Some (dict_of cash)) (Some account))
         \<lparr>aa_holdings := hb_init (dict_of holdings) AVERAGE, aa_fill_ids := fs_restore seen\<rparr>)))))))"

definition restore_account ::
  "instant \<Rightarrow> string \<Rightarrow> (string, decimal) dict \<Rightarrow> account_id \<Rightarrow> durable_recovery \<Rightarrow> account_actor res" where
  "restore_account clock actor initial_cash account r =
     res_bind (file_load clock actor (dr_store r)) (\<lambda>stored.
       case stored of
         None \<Rightarrow> Inr (aa_init (Some initial_cash) (Some account))
       | Some s \<Rightarrow> restore_from_payload (sn_payload s) account)"

section \<open>The recovery drill (\<open>durability.py\<close>)\<close>

record drill_config =
  dc_actor_ids :: "string list"
  dc_expected_snapshot_schema_version :: string

definition mk_drill_config :: "string list \<Rightarrow> string \<Rightarrow> drill_config res" where
  [ctor_simps]: "mk_drill_config ids version = checked
     [(ids = [], ValueError ''actor_ids must not be empty''),
      (list_ex blank ids, ValueError ''actor_ids must not contain empty values''),
      (blank version, ValueError ''expected_snapshot_schema_version must not be empty'')]
     \<lparr>dc_actor_ids = ids, dc_expected_snapshot_schema_version = version\<rparr>"

record drill_result =
  dl_recovered_state :: "(string, json) dict"
  dl_latest_snapshot_sequence :: int
  dl_replayed_event_count :: nat
  dl_readiness :: recovery_readiness
  dl_decision :: recovery_decision

fun load_snapshot_state ::
  "(string \<Rightarrow> state_snapshot option res) \<Rightarrow> string \<Rightarrow> string list \<Rightarrow> (string, json) dict \<Rightarrow> int \<Rightarrow>
   ((string, json) dict \<times> int) res" where
  "load_snapshot_state load version [] state latest = Inr (state, latest)"
| "load_snapshot_state load version (a # as) state latest =
     res_bind (load a) (\<lambda>stored. case stored of
        None \<Rightarrow> load_snapshot_state load version as state latest
      | Some s \<Rightarrow>
         (if sn_schema_version s \<noteq> version then Inl (RuntimeError ''snapshot schema version does not match expected'')
          else load_snapshot_state load version as (AList.update a (sn_payload s) state) (max latest (sn_last_sequence s))))"

definition apply_replayed_event :: "string list \<Rightarrow> stored_event \<Rightarrow> (string, json) dict \<Rightarrow> (string, json) dict" where
  "apply_replayed_event ids ev state =
     (case ev of
        BaseEv b \<Rightarrow> state
      | RuntimeEv e \<Rightarrow>
         (case json_get (re_payload e) ''state_snapshots'' of
            JObject d \<Rightarrow> fold (\<lambda>(a, p) st. if a \<in> set ids then AList.update a p st else st) d state
          | _ \<Rightarrow> state))"

text \<open>\<open>!=\<close> on recovered values: dictionaries compare without regard to the order of their keys.\<close>

definition same_state :: "json option \<Rightarrow> json option \<Rightarrow> bool" where
  "same_state a b \<longleftrightarrow> map_option json_sorted a = map_option json_sorted b"

definition state_matches :: "string list \<Rightarrow> (string, json) dict \<Rightarrow> (string, json) dict \<Rightarrow> bool" where
  "state_matches ids recovered expected = list_all (\<lambda>a. same_state (map_of recovered a) (map_of expected a)) ids"

definition drill_recover ::
  "drill_config \<Rightarrow> instant \<Rightarrow> event_file \<Rightarrow> (string \<Rightarrow> state_snapshot option res) \<Rightarrow> (string, json) dict \<Rightarrow> bool \<Rightarrow> bool \<Rightarrow>
   drill_result res" where
  "drill_recover c clock events load expected observation_entered reconciliation_passed =
     res_bind (validate_sequence events) (\<lambda>report.
     res_bind (validate_event_sequence_for_recovery report) (\<lambda>readiness.
     if \<not> rr_recovery_allowed readiness then
       res_bind (validate_runtime_recovery_gate readiness observation_entered reconciliation_passed) (\<lambda>decision.
         Inr \<lparr>dl_recovered_state = [], dl_latest_snapshot_sequence = 0, dl_replayed_event_count = 0,
              dl_readiness = readiness, dl_decision = decision\<rparr>)
     else
       res_bind (load_snapshot_state load (dc_expected_snapshot_schema_version c) (dc_actor_ids c) [] 0) (\<lambda>(state, latest).
       res_bind (file_replay_after clock latest None events) (\<lambda>replayed.
       let recovered = fold (apply_replayed_event (dc_actor_ids c)) replayed state in
       if \<not> state_matches (dc_actor_ids c) recovered expected
       then Inl (RuntimeError ''recovered state does not match pre-crash state'')
       else res_bind (validate_runtime_recovery_gate readiness observation_entered reconciliation_passed) (\<lambda>decision.
         Inr \<lparr>dl_recovered_state = recovered, dl_latest_snapshot_sequence = latest,
              dl_replayed_event_count = length replayed, dl_readiness = readiness, dl_decision = decision\<rparr>)))))"

definition drill_run ::
  "drill_config \<Rightarrow> (instant \<times> stored_event) list \<Rightarrow> state_snapshot list \<Rightarrow> file_event_store \<times> event_file \<Rightarrow> snapshot_file \<Rightarrow>
   instant \<Rightarrow> (string, json) dict \<Rightarrow> bool \<Rightarrow> bool \<Rightarrow> drill_result res" where
  "drill_run c evs snapshots st f clock expected observation_entered reconciliation_passed =
     (case append_all evs st of
        (Inl e, st1) \<Rightarrow> Inl e
      | (Inr _, st1) \<Rightarrow>
          drill_recover c clock (snd st1) (\<lambda>a. file_load clock a (fold file_save snapshots f))
            expected observation_entered reconciliation_passed)"

section \<open>The store protocol\<close>

locale snapshot_store =
  fixes save :: "state_snapshot \<Rightarrow> 's \<Rightarrow> 's"
    and load :: "string \<Rightarrow> 's \<Rightarrow> state_snapshot option res"
    and view :: "state_snapshot \<Rightarrow> state_snapshot"
    and accepted :: "state_snapshot \<Rightarrow> bool"
  assumes load_saved: "accepted s \<Longrightarrow> load (sn_actor_id s) (save s st) = Inr (Some (view s))"
    and load_other: "accepted s \<Longrightarrow> \<not> blank a \<Longrightarrow> a \<noteq> sn_actor_id s \<Longrightarrow> load a (save s st) = load a st"
begin

text \<open>After a sequence of saves a load returns the last snapshot saved for the actor.\<close>

lemma load_latest:
  "list_all accepted ss \<Longrightarrow> \<not> blank a \<Longrightarrow>
     load a (fold save ss st) =
       (if filter (\<lambda>s. sn_actor_id s = a) ss = [] then load a st
        else Inr (Some (view (last (filter (\<lambda>s. sn_actor_id s = a) ss)))))"
proof (induction ss rule: rev_induct)
  case (snoc s ss)
  then show ?case
    by (cases "sn_actor_id s = a") (auto simp: load_saved load_other)
qed simp

end

definition valid_snapshot :: "state_snapshot \<Rightarrow> bool" where
  "valid_snapshot s \<longleftrightarrow> mk_state_snapshot s = Inr s \<and> \<not> blank_opt (sn_run_id s)"

definition written_snapshot :: "state_snapshot \<Rightarrow> state_snapshot" where
  "written_snapshot s = s\<lparr>sn_payload := json_sorted (sn_payload s)\<rparr>"

lemma valid_snapshot_actor: "valid_snapshot s \<Longrightarrow> \<not> blank (sn_actor_id s)"
  by (auto simp: valid_snapshot_def mk_state_snapshot_def split: if_splits)

interpretation memory_snapshots: snapshot_store memory_save memory_load "\<lambda>s. s" valid_snapshot
  by unfold_locales (auto simp: memory_load_def memory_save_def update_conv' dest: valid_snapshot_actor)

lemma snapshot_keys: "distinct (map fst (snapshot_to_json s))"
  by (simp add: snapshot_to_json_def)

lemma snapshot_lookup:
  "map_of (snapshot_to_json s) ''snapshot_id'' = Some (optional_json (sn_snapshot_id s))"
  "map_of (snapshot_to_json s) ''actor_id'' = Some (JText (sn_actor_id s))"
  "map_of (snapshot_to_json s) ''run_id'' = Some (optional_json (sn_run_id s))"
  "map_of (snapshot_to_json s) ''schema_version'' = Some (JText (sn_schema_version s))"
  "map_of (snapshot_to_json s) ''created_at'' = Some (JTimeText (sn_created_at s))"
  "map_of (snapshot_to_json s) ''state_version'' = Some (JNumber (of_int (sn_state_version s)))"
  "map_of (snapshot_to_json s) ''last_event_sequence_no'' = Some (JNumber (of_int (sn_last_sequence s)))"
  "map_of (snapshot_to_json s) ''topology_hash'' = Some (optional_json (sn_topology_hash s))"
  "map_of (snapshot_to_json s) ''config_hash'' = Some (optional_json (sn_config_hash s))"
  "map_of (snapshot_to_json s) ''payload'' = Some (sn_payload s)"
  by (simp_all add: snapshot_to_json_def)

lemma snapshot_read_back:
  assumes "valid_snapshot s"
  shows "snapshot_from_json clock (sort_key fst (map (\<lambda>(k, v). (k, json_sorted v)) (snapshot_to_json s))) =
    Inr (written_snapshot s)"
proof -
  have run: "(case sn_run_id s of None \<Rightarrow> Inr None | Some r \<Rightarrow> res_bind (mk_string_id r) (\<lambda>i. Inr (Some i))) = Inr (sn_run_id s)"
    using assms by (auto simp: valid_snapshot_def blank_opt_def mk_string_id_def checked_def split: option.splits)
  have "mk_state_snapshot s = Inr s" using assms by (simp add: valid_snapshot_def)
  then have "mk_state_snapshot (written_snapshot s) = Inr (written_snapshot s)"
    by (auto simp: mk_state_snapshot_def written_snapshot_def split: if_splits)
  then have "mk_state_snapshot
      \<lparr>sn_actor_id = sn_actor_id s, sn_state_version = sn_state_version s, sn_payload = json_sorted (sn_payload s),
       sn_snapshot_id = sn_snapshot_id s, sn_run_id = sn_run_id s, sn_schema_version = sn_schema_version s,
       sn_created_at = sn_created_at s, sn_last_sequence = sn_last_sequence s,
       sn_topology_hash = sn_topology_hash s, sn_config_hash = sn_config_hash s\<rparr> = Inr (written_snapshot s)"
    by (cases s) (simp add: written_snapshot_def)
  with run show ?thesis
    by (simp add: snapshot_from_json_def json_index_def json_get_def dict_lookup_def
        sorted_lookup [OF snapshot_keys] snapshot_lookup)
qed

lemma latest_snapshot_append:
  "latest_snapshot clock a (ls @ ms) l = latest_snapshot clock a ms (latest_snapshot clock a ls l)"
  by (induction clock a ls l rule: latest_snapshot.induct) (auto split: sum.split)

interpretation file_snapshots: snapshot_store file_save "file_load clock" written_snapshot valid_snapshot for clock
proof
  fix s st
  assume s: "valid_snapshot s"
  show "file_load clock (sn_actor_id s) (file_save s st) = Inr (Some (written_snapshot s))"
    using s valid_snapshot_actor [OF s]
    by (simp add: file_load_def file_save_def latest_snapshot_append snapshot_read_back)
       (simp add: written_snapshot_def)
  fix a
  assume "\<not> blank a" "a \<noteq> sn_actor_id s"
  with s show "file_load clock a (file_save s st) = file_load clock a st"
    by (cases st) (auto simp: file_load_def file_save_def latest_snapshot_append snapshot_read_back written_snapshot_def)
qed

text \<open>C27. The two snapshot stores agree: after any sequence of saves of valid snapshots, the file store returns for every
  actor what the in-memory store returns, with the payload's keys sorted.
\<close>

theorem snapshot_stores_agree:
  assumes "list_all valid_snapshot ss" and "\<not> blank a"
  shows "file_load clock a (fold file_save ss None) =
     res_bind (memory_load a (fold memory_save ss [])) (\<lambda>s. Inr (map_option written_snapshot s))"
  unfolding file_snapshots.load_latest [OF assms] memory_snapshots.load_latest [OF assms]
  using assms(2) by (simp add: file_load_def memory_load_def)

definition sample_snapshot :: "string \<Rightarrow> int \<Rightarrow> json \<Rightarrow> state_snapshot" where
  "sample_snapshot a n payload =
     \<lparr>sn_actor_id = a, sn_state_version = n, sn_payload = payload, sn_snapshot_id = None, sn_run_id = None,
      sn_schema_version = ''1'', sn_created_at = 0, sn_last_sequence = n, sn_topology_hash = None, sn_config_hash = None\<rparr>"

theorem snapshot_stores_agree_witness:
  "file_load 0 ''a'' (fold file_save [sample_snapshot ''a'' 1 (JNumber 1), sample_snapshot ''b'' 1 JNull,
      sample_snapshot ''a'' 2 (JNumber 2)] None) = Inr (Some (sample_snapshot ''a'' 2 (JNumber 2)))"
proof -
  let ?ss = "[sample_snapshot ''a'' 1 (JNumber 1), sample_snapshot ''b'' 1 JNull, sample_snapshot ''a'' 2 (JNumber 2)]"
  have v: "list_all valid_snapshot ?ss" "\<not> blank ''a''" by (code_simp, code_simp)
  show ?thesis
    unfolding snapshot_stores_agree [OF v] by code_simp
qed

section \<open>A restored account\<close>

text \<open>Two accounts that differ at most in the order of their dictionaries, the fill-id cache and the undelivered
  position-closed events.\<close>

definition account_same :: "account_actor \<Rightarrow> account_actor \<Rightarrow> bool" where
  "account_same a b \<longleftrightarrow> aa_account_id a = aa_account_id b \<and> map_of (aa_cash a) = map_of (aa_cash b) \<and>
     map_of (hb_holdings (aa_holdings a)) = map_of (hb_holdings (aa_holdings b)) \<and>
     hb_cost_basis_method (aa_holdings a) = hb_cost_basis_method (aa_holdings b) \<and>
     fs_seen (aa_fill_ids a) = fs_seen (aa_fill_ids b)"

lemma hb_apply_fill_same:
  assumes "map_of (hb_holdings g) = map_of (hb_holdings h)" and "hb_cost_basis_method g = hb_cost_basis_method h"
  shows "fst (hb_apply_fill i q p m t g) = fst (hb_apply_fill i q p m t h)"
    "map_of (hb_holdings (snd (hb_apply_fill i q p m t g))) = map_of (hb_holdings (snd (hb_apply_fill i q p m t h)))"
    "hb_cost_basis_method (snd (hb_apply_fill i q p m t g)) = hb_cost_basis_method (snd (hb_apply_fill i q p m t h))"
proof -
  have cur: "hb_holding g i = hb_holding h i" using assms by (simp add: hb_holding_def dict_lookup_def)
  show "fst (hb_apply_fill i q p m t g) = fst (hb_apply_fill i q p m t h)"
    "map_of (hb_holdings (snd (hb_apply_fill i q p m t g))) = map_of (hb_holdings (snd (hb_apply_fill i q p m t h)))"
    "hb_cost_basis_method (snd (hb_apply_fill i q p m t g)) = hb_cost_basis_method (snd (hb_apply_fill i q p m t h))"
    using assms
    by (simp_all add: hb_apply_fill_def Let_def cur hb_store_def update_conv' split: sum.split prod.split)
qed

lemma cb_apply_delta_same:
  assumes "map_of b = map_of c"
  shows "fst (cb_apply_delta cur d b) = fst (cb_apply_delta cur d c)"
    "map_of (snd (cb_apply_delta cur d b)) = map_of (snd (cb_apply_delta cur d c))"
  using assms by (simp_all add: cb_apply_delta_def cb_balance_def dict_lookup_def update_conv' res_bind_def split: sum.split)

lemma fs_mark_seen_same:
  "fs_seen s = fs_seen t \<Longrightarrow> fst (fs_mark_seen f s) = fst (fs_mark_seen f t)"
  by (auto simp: fs_mark_seen_def)

lemma aa_apply_fill_same:
  assumes "account_same a b"
  shows "fst (aa_apply_fill m a) = fst (aa_apply_fill m b) \<and> account_same (snd (aa_apply_fill m a)) (snd (aa_apply_fill m b))"
proof -
  note ab = assms [unfolded account_same_def]
  let ?f = "af_fill m"
  obtain rs fa fb where seen: "fs_mark_seen (of_fill_id ?f) (aa_fill_ids a) = (rs, fa)"
    "fs_mark_seen (of_fill_id ?f) (aa_fill_ids b) = (rs, fb)" "fs_seen fa = fs_seen fb"
  proof
    show "fs_mark_seen (of_fill_id ?f) (aa_fill_ids a) =
        (fst (fs_mark_seen (of_fill_id ?f) (aa_fill_ids a)), snd (fs_mark_seen (of_fill_id ?f) (aa_fill_ids a)))" by simp
    show "fs_mark_seen (of_fill_id ?f) (aa_fill_ids b) =
        (fst (fs_mark_seen (of_fill_id ?f) (aa_fill_ids a)), snd (fs_mark_seen (of_fill_id ?f) (aa_fill_ids b)))"
      using ab fs_mark_seen_same [of "aa_fill_ids a" "aa_fill_ids b"] by (simp add: prod_eq_iff)
  qed (use ab in simp)
  obtain rh ha hb where hold: "hb_apply_fill (of_instrument_id ?f) (fill_signed_quantity ?f) (of_price ?f)
        (af_multiplier m) (af_fill_time m) (aa_holdings a) = (rh, ha)"
    "hb_apply_fill (of_instrument_id ?f) (fill_signed_quantity ?f) (of_price ?f)
        (af_multiplier m) (af_fill_time m) (aa_holdings b) = (rh, hb)"
    "map_of (hb_holdings ha) = map_of (hb_holdings hb)" "hb_cost_basis_method ha = hb_cost_basis_method hb"
    using hb_apply_fill_same [of "aa_holdings a" "aa_holdings b"] ab by (metis prod.collapse)
  obtain rc ca cb where cash: "cb_apply_delta (af_currency m) (fill_cash_delta m) (aa_cash a) = (rc, ca)"
    "cb_apply_delta (af_currency m) (fill_cash_delta m) (aa_cash b) = (rc, cb)" "map_of ca = map_of cb"
    using cb_apply_delta_same [of "aa_cash a" "aa_cash b"] ab by (metis prod.collapse)
  show ?thesis
    using ab seen hold cash
    by (auto simp: aa_apply_fill_def account_same_def Let_def split: sum.split bool.split)
qed

fun apply_fills :: "apply_fill list \<Rightarrow> account_actor \<Rightarrow> unit res list \<times> account_actor" where
  "apply_fills [] a = ([], a)"
| "apply_fills (m # ms) a = (case aa_apply_fill m a of (r, a1) \<Rightarrow>
     (case apply_fills ms a1 of (rs, a2) \<Rightarrow> (r # rs, a2)))"

lemma apply_fills_same:
  "account_same a b \<Longrightarrow> fst (apply_fills ms a) = fst (apply_fills ms b) \<and> account_same (snd (apply_fills ms a)) (snd (apply_fills ms b))"
proof (induction ms arbitrary: a b)
  case (Cons m ms)
  from aa_apply_fill_same [OF Cons.prems, of m] Cons.IH show ?case by (auto simp: case_prod_unfold)
qed simp

lemma insort_key_map: "(\<And>x. k' (h x) = k x) \<Longrightarrow> insort_key k' (h x) (map h xs) = map h (insort_key k x xs)"
  by (induction xs) auto

lemma sort_key_map: "(\<And>x. k' (h x) = k x) \<Longrightarrow> sort_key k' (map h xs) = map h (sort_key k xs)"
  by (induction xs) (auto simp: insort_key_map)

lemma map_of_sort: "distinct (map fst d) \<Longrightarrow> map_of (sort_key fst d) = map_of d"
proof -
  assume d: "distinct (map fst d)"
  then have "distinct (map fst (sort_key fst d))"
    by (metis mset_map mset_sort mset_eq_imp_distinct_iff)
  with d show ?thesis by (subst map_of_inject_set) simp_all
qed

lemma res_map_decode: "(\<And>x. x \<in> set xs \<Longrightarrow> g (h x) = Inr x) \<Longrightarrow> res_map g (map h xs) = Inr xs"
  by (induction xs) auto

text \<open>An encoded dictionary, sorted and decoded again.\<close>

lemma decode_sorted:
  assumes "\<And>k v. (k, v) \<in> set d \<Longrightarrow> g (k, json_sorted (enc v)) = Inr (k, v)" and "distinct (map fst d)"
  obtains d' where "json_sorted (JObject (map (\<lambda>(k, v). (k, enc v)) d)) = JObject (map (\<lambda>(k, v). (k, json_sorted (enc v))) d')"
    "res_map g (map (\<lambda>(k, v). (k, json_sorted (enc v))) d') = Inr d'" "map_of (dict_of d') = map_of d"
proof
  let ?d = "sort_key fst d"
  show "json_sorted (JObject (map (\<lambda>(k, v). (k, enc v)) d)) = JObject (map (\<lambda>(k, v). (k, json_sorted (enc v))) ?d)"
    using sort_key_map [of fst "\<lambda>x. (fst x, json_sorted (enc (snd x)))" fst d] by (simp add: comp_def case_prod_unfold)
  show "res_map g (map (\<lambda>(k, v). (k, json_sorted (enc v))) ?d) = Inr ?d"
    using assms(1) by (intro res_map_decode) auto
  have "distinct (map fst ?d)" using assms(2) by (metis mset_map mset_sort mset_eq_imp_distinct_iff)
  then show "map_of (dict_of ?d) = map_of d" using assms(2) by (simp add: dict_of_distinct map_of_sort)
qed

lemma holding_round_trip:
  assumes "h_instrument_id h = i" and "h_lots h = []" and "h_cost_basis_method h = AVERAGE"
  shows "holding_from_json i (json_sorted (holding_to_json h)) = Inr h"
proof -
  have keys: "distinct (map fst [(''quantity'', JDecimalText (h_quantity h)), (''average_cost'', JDecimalText (h_average_cost h)),
      (''realized_pnl'', JDecimalText (h_realized_pnl h)), (''opened_at'', time_json (h_opened_at h)),
      (''last_fill_at'', time_json (h_last_fill_at h))])" by simp
  have time: "parse_optional_datetime (json_sorted (time_json t)) = Inr t" for t
    by (cases t) (simp_all add: parse_optional_datetime_def time_json_def)
  show ?thesis
    using assms unfolding holding_to_json_def holding_from_json_def json_index_def json_get_def dict_lookup_def
    by (cases h) (simp only: json_sorted.simps json_object.simps res_bind_simps sorted_lookup [OF keys], simp add: time)
qed

text \<open>The holdings an account actor keeps: average cost, no lots, stored under their instrument.\<close>

definition book_ok :: "holding_book \<Rightarrow> bool" where
  "book_ok b \<longleftrightarrow> dict_wf (hb_holdings b) \<and> hb_cost_basis_method b = AVERAGE \<and>
     (\<forall>(i, h) \<in> set (hb_holdings b). \<not> blank i \<and> h_instrument_id h = i \<and> h_lots h = [] \<and> h_cost_basis_method h = AVERAGE)"

definition account_ok :: "account_actor \<Rightarrow> bool" where
  "account_ok a \<longleftrightarrow> dict_wf (aa_cash a) \<and> book_ok (aa_holdings a) \<and> fs_inv (aa_fill_ids a)"

lemma restore_serialized:
  assumes "account_ok a" and "aa_account_id a = Some account"
  shows "\<exists>b. restore_from_payload (json_sorted (serialize_account_snapshot (fst (aa_snapshot a)))) account = Inr b \<and> account_same a b"
proof -
  let ?s = "fst (aa_snapshot a)"
  note ok = assms(1) [unfolded account_ok_def book_ok_def]
  have s: "as_cash ?s = aa_cash a" "as_holdings ?s = hb_holdings (aa_holdings a)"
    "as_seen_fill_ids ?s = sorted_list_of_set (fs_seen (aa_fill_ids a))"
    using fs_snapshot_sorted [of "aa_fill_ids a"] ok
    by (auto simp: aa_snapshot_def mk_account_snapshot_def cb_balances_def hb_snapshot_def case_prod_unfold)
  let ?gc = "\<lambda>(c, j). res_bind (json_decimal j) (\<lambda>b. Inr (c, b))"
  let ?gh = "\<lambda>(i, j). res_bind (mk_string_id i) (\<lambda>i. res_bind (holding_from_json i j) (\<lambda>h. Inr (i, h)))"
  obtain c where c: "json_sorted (JObject (map (\<lambda>(k, v). (k, JDecimalText v)) (aa_cash a))) =
        JObject (map (\<lambda>(k, v). (k, json_sorted (JDecimalText v))) c)"
      "res_map ?gc (map (\<lambda>(k, v). (k, json_sorted (JDecimalText v))) c) = Inr c" "map_of (dict_of c) = map_of (aa_cash a)"
    using ok by (rule_tac decode_sorted [of "aa_cash a" ?gc JDecimalText]) auto
  obtain h where h: "json_sorted (JObject (map (\<lambda>(k, v). (k, holding_to_json v)) (hb_holdings (aa_holdings a)))) =
        JObject (map (\<lambda>(k, v). (k, json_sorted (holding_to_json v))) h)"
      "res_map ?gh (map (\<lambda>(k, v). (k, json_sorted (holding_to_json v))) h) = Inr h"
      "map_of (dict_of h) = map_of (hb_holdings (aa_holdings a))"
    using ok by (rule_tac decode_sorted [of "hb_holdings (aa_holdings a)" ?gh holding_to_json])
       (auto simp: mk_string_id_def checked_def holding_round_trip)
  have keys: "distinct (map fst
     [(''account_id'', optional_json (as_account_id ?s)),
      (''cash'', JObject (map (\<lambda>(c, b). (c, JDecimalText b)) (as_cash ?s))),
      (''holdings'', JObject (map (\<lambda>(i, h). (i, holding_to_json h)) (as_holdings ?s))),
      (''seen_fill_ids'', JList (map JText (as_seen_fill_ids ?s)))])" by simp
  have "json_texts (json_sorted (JList (map JText xs))) = Inr xs" for xs
    by (induction xs) auto
  then have "restore_from_payload (json_sorted (serialize_account_snapshot ?s)) account =
      Inr ((aa_init (Some (dict_of c)) (Some account))
         \<lparr>aa_holdings := hb_init (dict_of h) AVERAGE, aa_fill_ids := fs_restore (as_seen_fill_ids ?s)\<rparr>)"
    unfolding restore_from_payload_def serialize_account_snapshot_def json_sorted.simps(1) json_object.simps res_bind_simps
      dict_lookup_def sorted_lookup [OF keys]
    using c h by (simp add: s del: json_sorted.simps)
  then show ?thesis
    using c(3) h(3) ok assms(2)
    by (auto simp: account_same_def aa_init_def cb_init_def hb_init_def s fs_inv_def)
qed

lemma account_same_refl [simp]: "account_same a a"
  by (simp add: account_same_def)

lemma account_same_trans: "account_same a b \<Longrightarrow> account_same b c \<Longrightarrow> account_same a c"
  by (simp add: account_same_def)

lemma account_same_snapshot: "account_same a (snd (aa_snapshot a))"
  by (simp add: account_same_def aa_snapshot_def case_prod_unfold)

lemma account_ok_snapshot: "account_ok a \<Longrightarrow> account_ok (snd (aa_snapshot a))"
  using fs_inv_snapshot [of "aa_fill_ids a"] by (simp add: account_ok_def aa_snapshot_def case_prod_unfold)

lemma account_ok_init: "dict_wf cash \<Longrightarrow> account_ok (aa_init (Some cash) account)"
  by (simp add: account_ok_def book_ok_def aa_init_def cb_init_def hb_init_def fs_inv_init)

lemma set_update_subset: "p \<in> set (AList.update k v d) \<Longrightarrow> p = (k, v) \<or> p \<in> set d"
  by (induction d) (auto split: if_splits)

lemma book_ok_store:
  "book_ok b \<Longrightarrow> \<not> blank i \<Longrightarrow> h_instrument_id h = i \<Longrightarrow> h_lots h = [] \<Longrightarrow> h_cost_basis_method h = AVERAGE \<Longrightarrow>
     book_ok (hb_store i h b)"
  by (auto simp: book_ok_def hb_store_def dest!: set_update_subset)

lemma hb_apply_fill_ok:
  assumes "book_ok b" and "\<not> blank i"
  shows "book_ok (snd (hb_apply_fill i q p m t b))"
proof -
  have cur: "h_instrument_id (hb_holding b i) = i" "h_lots (hb_holding b i) = []" "h_cost_basis_method (hb_holding b i) = AVERAGE"
    using assms(1)
    by (cases "map_of (hb_holdings b) i";
        force dest: map_of_SomeD simp: book_ok_def hb_holding_def dict_lookup_def flat_holding_def)+
  have "book_ok (hb_store i (increase (hb_holding b i) q p t') b)" for t'
    by (rule book_ok_store [OF assms]) (simp_all add: increase_def Let_def cur)
  moreover have "book_ok (hb_store i (fst (reduce_or_flip (hb_holding b i) q p m t')) b)" for t'
    by (rule book_ok_store [OF assms]) (simp_all add: reduce_or_flip_def Let_def cur)
  ultimately show ?thesis
    using assms(1) by (simp add: hb_apply_fill_def Let_def cur case_prod_unfold)
qed

lemma account_ok_fill:
  assumes "account_ok a" and "\<not> blank (of_instrument_id (af_fill m))"
  shows "account_ok (snd (aa_apply_fill m a))"
proof -
  note ok = assms(1) [unfolded account_ok_def]
  obtain rs fs where fs: "fs_mark_seen (of_fill_id (af_fill m)) (aa_fill_ids a) = (rs, fs)" "fs_inv fs"
    using fs_inv_mark_seen [of "aa_fill_ids a"] ok by (metis prod.collapse)
  obtain rh hb where hb: "hb_apply_fill (of_instrument_id (af_fill m)) (fill_signed_quantity (af_fill m)) (of_price (af_fill m))
        (af_multiplier m) (af_fill_time m) (aa_holdings a) = (rh, hb)" "book_ok hb"
    using hb_apply_fill_ok [of "aa_holdings a", OF _ assms(2)] ok by (metis prod.collapse)
  have "dict_wf (snd (cb_apply_delta c d (aa_cash a)))" for c d
    using ok by (auto simp: cb_apply_delta_def split: sum.split)
  with ok fs hb show ?thesis
    by (auto simp: aa_apply_fill_def account_ok_def Let_def case_prod_unfold split: sum.split bool.split)
qed

lemma aa_account_id_fill [simp]: "aa_account_id (snd (aa_apply_fill m a)) = aa_account_id a"
  by (auto simp: aa_apply_fill_def Let_def split: sum.split prod.split bool.split)

lemma aa_account_id_snapshot [simp]: "aa_account_id (snd (aa_snapshot a)) = aa_account_id a"
  by (simp add: aa_snapshot_def case_prod_unfold)

lemma actor_id_not_blank: "\<not> blank (snapshot_actor_id account)"
  by (cases account) (simp_all add: snapshot_actor_id_def)

text \<open>A snapshot that was due was written, and can be read back.\<close>

lemma persisted:
  assumes "account_ok a" and "aa_account_id a = Some account"
    and "persist_if_due clock n elapsed (r, a) = (Inr True, (r', a'))"
  shows "dr_policy r' = dr_policy r" "dr_last_snapshot_event_count r' = n" "a' = snd (aa_snapshot a)"
    "\<exists>b. restore_account clock' (snapshot_actor_id (Some account)) init account r' = Inr b \<and> account_same a b"
proof -
  define s where "s = account_state_snapshot clock n (fst (aa_snapshot a))"
  have same: "mk_state_snapshot t = Inr t' \<Longrightarrow> t' = t" for t t' by (auto simp: mk_state_snapshot_def)
  have mk: "mk_state_snapshot s = Inr s"
    and r': "r' = r\<lparr>dr_store := file_save s (dr_store r), dr_last_snapshot_event_count := n\<rparr>" "a' = snd (aa_snapshot a)"
    using assms(3) by (auto simp: persist_if_due_def s_def case_prod_unfold dest: same split: sum.splits bool.splits)
  have s: "sn_actor_id s = snapshot_actor_id (as_account_id (fst (aa_snapshot a)))"
    "sn_payload s = serialize_account_snapshot (fst (aa_snapshot a))" "sn_run_id s = None"
    by (simp_all add: s_def account_state_snapshot_def)
  have "as_account_id (fst (aa_snapshot a)) = Some account"
    using assms(2) by (simp add: aa_snapshot_def mk_account_snapshot_def case_prod_unfold)
  then have "file_load clock' (snapshot_actor_id (Some account)) (dr_store r') = Inr (Some (written_snapshot s))"
    using file_snapshots.load_saved [of s clock' "dr_store r"] s mk by (simp add: valid_snapshot_def blank_opt_def r')
  then show "\<exists>b. restore_account clock' (snapshot_actor_id (Some account)) init account r' = Inr b \<and> account_same a b"
    using restore_serialized [OF assms(1,2)] s(2) by (simp add: restore_account_def written_snapshot_def)
  show "dr_policy r' = dr_policy r" "dr_last_snapshot_event_count r' = n" "a' = snd (aa_snapshot a)"
    by (simp_all add: r')
qed

text \<open>C28. When a snapshot of an account actor was due and written, restoring the account yields an actor that answers every
  later sequence of fills with the same results and ends with the same cash, holdings and seen fills.
\<close>

theorem durable_account_round_trip:
  assumes "account_ok a" and "aa_account_id a = Some account"
    and "persist_if_due clock n elapsed (r, a) = (Inr True, (r', a'))"
  shows "\<exists>b. restore_account clock' (snapshot_actor_id (Some account)) init account r' = Inr b \<and>
     fst (apply_fills ms b) = fst (apply_fills ms a') \<and>
     account_same (snd (apply_fills ms b)) (snd (apply_fills ms a'))"
proof -
  from persisted(4) [OF assms] obtain b where b:
    "restore_account clock' (snapshot_actor_id (Some account)) init account r' = Inr b" "account_same a b" by blast
  have "account_same b a'"
    using b(2) account_same_snapshot [of a] persisted(3) [OF assms] by (simp add: account_same_def)
  with b(1) apply_fills_same [of b a'] show ?thesis by blast
qed

definition sample_fill_message :: "string \<Rightarrow> apply_fill" where
  "sample_fill_message fid =
     \<lparr>af_fill = \<lparr>of_fill_id = fid, of_order_id = ''o1'', of_instrument_id = ''ES'', of_side = BUY, of_quantity = 2, of_price = 10, of_commission = 1, of_slippage = 0,
        of_account_id = Some ''A1'', of_intent_id = None\<rparr>,
      af_currency = ''USD'', af_multiplier = 1, af_fill_time = Some 4\<rparr>"

definition sample_account :: account_actor where
  "sample_account = aa_init (Some [(''USD'', 100)]) (Some ''A1'')"

definition sample_recovery :: durable_recovery where
  "sample_recovery = \<lparr>dr_store = None, dr_policy = \<lparr>sp_every_event_count = Some 2, sp_every_elapsed = None\<rparr>,
     dr_last_snapshot_event_count = 0\<rparr>"

lemma sample_account_ok: "account_ok sample_account" "aa_account_id sample_account = Some ''A1''"
  unfolding sample_account_def by (rule account_ok_init, simp) (simp add: aa_init_def)

theorem durable_account_round_trip_witness:
  "\<exists>r' a' b. persist_if_due 9 2 0 (sample_recovery, sample_account) = (Inr True, (r', a')) \<and>
     restore_account 10 (snapshot_actor_id (Some ''A1'')) [] ''A1'' r' = Inr b \<and>
     fst (apply_fills [sample_fill_message ''f1''] b) = fst (apply_fills [sample_fill_message ''f1''] a')"
proof -
  have "fst (persist_if_due 9 2 0 (sample_recovery, sample_account)) = Inr True" by code_simp
  then obtain r' a' where p: "persist_if_due 9 2 0 (sample_recovery, sample_account) = (Inr True, (r', a'))"
    by (metis prod.collapse)
  from durable_account_round_trip [OF sample_account_ok this, of 10 "[]" "[sample_fill_message ''f1'']"] p show ?thesis by blast
qed

section \<open>What a crash can lose\<close>

text \<open>An account that is offered for persistence after every fill: the fill, the clock and the time since the last snapshot.\<close>

definition process_event ::
  "apply_fill \<times> instant \<times> int \<Rightarrow> durable_recovery \<times> account_actor \<times> int \<Rightarrow> durable_recovery \<times> account_actor \<times> int" where
  "process_event ev st = (case (ev, st) of ((m, clock, elapsed), (r, a, n)) \<Rightarrow>
     (case persist_if_due clock (n + 1) elapsed (r, snd (aa_apply_fill m a)) of (_, (r1, a1)) \<Rightarrow> (r1, a1, n + 1)))"

lemma apply_fills_snoc: "snd (apply_fills (ms @ [m]) a) = snd (aa_apply_fill m (snd (apply_fills ms a)))"
  by (induction ms arbitrary: a) (simp_all add: case_prod_unfold)

definition recoverable ::
  "instant \<Rightarrow> (string, decimal) dict \<Rightarrow> account_id \<Rightarrow> int \<Rightarrow> apply_fill list \<Rightarrow> durable_recovery \<times> account_actor \<times> int \<Rightarrow> bool" where
  "recoverable clock cash account k ms st = (case st of (r, a, n) \<Rightarrow>
     account_ok a \<and> aa_account_id a = Some account \<and> n = int (length ms) \<and> sp_every_event_count (dr_policy r) = Some k \<and>
     account_same (snd (apply_fills ms (aa_init (Some cash) (Some account)))) a \<and>
     0 \<le> dr_last_snapshot_event_count r \<and> dr_last_snapshot_event_count r \<le> n \<and> n - dr_last_snapshot_event_count r < k \<and>
     (\<exists>b. restore_account clock (snapshot_actor_id (Some account)) cash account r = Inr b \<and>
        account_same (snd (apply_fills (take (nat (dr_last_snapshot_event_count r)) ms) (aa_init (Some cash) (Some account)))) b))"

lemma recoverable_step:
  assumes "recoverable clock cash account k ms st" and "\<not> blank (of_instrument_id (af_fill m))" and "0 \<le> elapsed"
  shows "recoverable clock cash account k (ms @ [m]) (process_event (m, t, elapsed) st)"
proof -
  obtain r a n where st: "st = (r, a, n)" by (cases st)
  let ?a0 = "aa_init (Some cash) (Some account)" and ?last = "dr_last_snapshot_event_count r"
  note inv = assms(1) [unfolded recoverable_def st prod.case]
  let ?a1 = "snd (aa_apply_fill m a)"
  have a1: "account_ok ?a1" "aa_account_id ?a1 = Some account" "account_same (snd (apply_fills (ms @ [m]) ?a0)) ?a1"
    using inv account_ok_fill [OF _ assms(2)] aa_apply_fill_same [of "snd (apply_fills ms ?a0)" a m]
    by (simp_all add: apply_fills_snoc)
  obtain due where due: "should_snapshot (dr_policy r) (n + 1 - ?last) elapsed = Inr due" "n + 1 - ?last \<ge> k \<Longrightarrow> due"
    using inv assms(3) by (auto simp: should_snapshot_def)
  show ?thesis
  proof (cases due)
    case True
    have "mk_state_snapshot (account_state_snapshot t (n + 1) s) = Inr (account_state_snapshot t (n + 1) s)" for s
      using inv actor_id_not_blank [of "as_account_id s"]
      by (simp add: mk_state_snapshot_def checked_def account_state_snapshot_def blank_opt_def is_space_def)
    then obtain r1 a2 where p: "persist_if_due t (n + 1) elapsed (r, ?a1) = (Inr True, (r1, a2))"
      using due(1) True by (simp add: persist_if_due_def case_prod_unfold)
    note q = persisted [OF a1(1,2) p]
    have same: "account_same ?a1 a2" using account_same_snapshot q(3) by simp
    obtain c where c: "restore_account clock (snapshot_actor_id (Some account)) cash account r1 = Inr c" "account_same ?a1 c"
      using q(4) by blast
    have "account_same (snd (apply_fills (ms @ [m]) ?a0)) a2" "account_same (snd (apply_fills (ms @ [m]) ?a0)) c"
      using account_same_trans [OF a1(3)] same c(2) by blast+
    with inv a1 q c(1) account_ok_snapshot [OF a1(1)] show ?thesis
      unfolding recoverable_def st process_event_def prod.case p by simp
  next
    case False
    then have "persist_if_due t (n + 1) elapsed (r, ?a1) = (Inr False, (r, ?a1))"
      using due(1) by (simp add: persist_if_due_def)
    moreover have "take (nat ?last) (ms @ [m]) = take (nat ?last) ms"
    proof -
      have "?last \<le> int (length ms)" using inv by auto
      then show ?thesis by simp
    qed
    moreover have "n + 1 - ?last < k" by (rule ccontr) (use due(2) False in simp)
    ultimately show ?thesis
      using inv a1 unfolding recoverable_def st process_event_def prod.case by simp
  qed
qed

text \<open>C29. An account that is offered for persistence after each of its fills, under a policy of one snapshot every \<open>k\<close> events,
  can be restored at any moment to its state after some prefix of the fills that misses fewer than \<open>k\<close> of them.
\<close>

theorem crash_loses_less_than_cadence:
  assumes "dict_wf cash" and "0 < k"
    and "list_all (\<lambda>(m, t, elapsed). \<not> blank (of_instrument_id (af_fill m)) \<and> 0 \<le> elapsed) evs"
  shows "\<exists>j b. j \<le> length evs \<and> int (length evs) - int j < k \<and>
     restore_account clock (snapshot_actor_id (Some account)) cash account
       (fst (fold process_event evs (\<lparr>dr_store = None, dr_policy = \<lparr>sp_every_event_count = Some k, sp_every_elapsed = el\<rparr>,
          dr_last_snapshot_event_count = 0\<rparr>, aa_init (Some cash) (Some account), 0))) = Inr b \<and>
     account_same (snd (apply_fills (map fst (take j evs)) (aa_init (Some cash) (Some account)))) b"
proof -
  let ?st = "(\<lparr>dr_store = None, dr_policy = \<lparr>sp_every_event_count = Some k, sp_every_elapsed = el\<rparr>,
     dr_last_snapshot_event_count = 0\<rparr>, aa_init (Some cash) (Some account), 0)"
  have start: "recoverable clock cash account k [] ?st"
    using assms(1,2) account_ok_init [OF assms(1)] actor_id_not_blank
    by (auto simp: recoverable_def restore_account_def file_load_def) (simp add: aa_init_def)
  have "recoverable clock cash account k (map fst evs) (fold process_event evs ?st)"
    using assms(3)
  proof (induction evs rule: rev_induct)
    case (snoc ev evs)
    obtain m t elapsed where "ev = (m, t, elapsed)" by (cases ev)
    with snoc recoverable_step [of clock cash account k "map fst evs" "fold process_event evs ?st" m elapsed t]
    show ?case by simp
  qed (use start in simp)
  then obtain r a n b where "fold process_event evs ?st = (r, a, n)" "n = int (length evs)"
    "0 \<le> dr_last_snapshot_event_count r" "dr_last_snapshot_event_count r \<le> n" "n - dr_last_snapshot_event_count r < k"
    "restore_account clock (snapshot_actor_id (Some account)) cash account r = Inr b"
    "account_same (snd (apply_fills (take (nat (dr_last_snapshot_event_count r)) (map fst evs)) (aa_init (Some cash) (Some account)))) b"
    by (auto simp: recoverable_def split: prod.splits)
  then show ?thesis
    by (intro exI [of _ "nat (dr_last_snapshot_event_count r)"] exI [of _ b]) (simp add: take_map)
qed

definition sample_events :: "(apply_fill \<times> instant \<times> int) list" where
  "sample_events = [(sample_fill_message ''f1'', 1, 0), (sample_fill_message ''f2'', 2, 0), (sample_fill_message ''f3'', 3, 0)]"

theorem crash_loses_less_than_cadence_witness:
  "\<exists>j b. j \<le> 3 \<and> 3 - int j < 2 \<and>
     restore_account 10 (snapshot_actor_id (Some ''A1'')) [(''USD'', 100)] ''A1''
       (fst (fold process_event sample_events (\<lparr>dr_store = None, dr_policy = \<lparr>sp_every_event_count = Some 2, sp_every_elapsed = None\<rparr>,
          dr_last_snapshot_event_count = 0\<rparr>, aa_init (Some [(''USD'', 100)]) (Some ''A1''), 0))) = Inr b"
proof -
  have ok: "list_all (\<lambda>(m, t, elapsed). \<not> blank (of_instrument_id (af_fill m)) \<and> 0 \<le> elapsed) sample_events"
    by (simp add: sample_events_def sample_fill_message_def is_space_def)
  have len: "length sample_events = 3" by (simp add: sample_events_def)
  have "dict_wf [(''USD'', 100 :: decimal)]" "(0 :: int) < 2" by simp_all
  from crash_loses_less_than_cadence [OF this ok, of 10 "''A1''" None, unfolded len of_nat_numeral] show ?thesis by blast
qed

end
