(* ===== verification/Runtime_Control.thy ===== *)
theory Runtime_Control
  imports Intent_Processing State_Durability
begin

text \<open>
  The runtime session as an operator sees it: the lifecycle state machine (\<open>runtime/state.py\<close>), the lifecycle methods of
  \<open>session.py\<close>, the safety controller and rollback (\<open>safety_controller.py\<close>, \<open>rollback.py\<close>), broker connectivity
  (\<open>broker_lifecycle.py\<close>, \<open>recovery.py\<close>), the supervision coordinator (\<open>actor_supervisor.py\<close>), and the control plane
  from a command to a session (\<open>commands.py\<close>, \<open>control_plane.py\<close>, \<open>operations_command_handler.py\<close>).

  An operation returns the session on both paths, so a refused runtime event leaves what was done before it. The event
  hashes, the clock, read once per event by its number, and \<open>str\<close> of a payload value are the parameter \<open>event_world\<close>; the answers of the broker
  refresh boundary are an argument. The supervisor knows paths; the mailboxes are those of the account partitions.
\<close>

section \<open>The lifecycle state machine (\<open>state.py\<close>)\<close>

datatype runtime_state = STOPPED | STARTING | RUNNING | PAUSED | IN_OBSERVATION | DEGRADED

fun runtime_state_text :: "runtime_state \<Rightarrow> string" where
  "runtime_state_text STOPPED = ''stopped''"
| "runtime_state_text STARTING = ''starting''"
| "runtime_state_text RUNNING = ''running''"
| "runtime_state_text PAUSED = ''paused''"
| "runtime_state_text IN_OBSERVATION = ''observation''"
| "runtime_state_text DEGRADED = ''degraded''"

definition lifecycle_transitions :: "(runtime_state, (string, runtime_state) dict) dict" where
  "lifecycle_transitions =
     [(STOPPED, [(''start'', STARTING)]),
      (STARTING, [(''started'', RUNNING), (''stop'', STOPPED)]),
      (RUNNING, [(''pause'', PAUSED), (''enter_observation'', IN_OBSERVATION), (''degrade'', DEGRADED), (''stop'', STOPPED)]),
      (PAUSED, [(''resume'', RUNNING), (''enter_observation'', IN_OBSERVATION), (''degrade'', DEGRADED), (''stop'', STOPPED)]),
      (IN_OBSERVATION, [(''exit_observation'', RUNNING), (''degrade'', DEGRADED), (''stop'', STOPPED)]),
      (DEGRADED, [(''recover'', RUNNING), (''pause'', PAUSED), (''enter_observation'', IN_OBSERVATION), (''stop'', STOPPED)])]"

definition lifecycle_apply :: "string \<Rightarrow> runtime_state \<Rightarrow> runtime_state res" where
  "lifecycle_apply command st =
     (case map_of (dict_lookup lifecycle_transitions st []) command of
        None \<Rightarrow> Inl (ValueError ''invalid runtime transition'')
      | Some st' \<Rightarrow> Inr st')"

section \<open>The session\<close>

record event_world =
  ew_hash :: "(string, json) dict \<Rightarrow> string"
  ew_checklist_hash :: "startup_check list \<Rightarrow> string"
  ew_now :: "int \<Rightarrow> instant"
  ew_str :: "json \<Rightarrow> string"

datatype actor_role = AccountRole | OrderManagerRole | ExecutionRole

record session =
  se_state :: runtime_state
  se_kill_switch :: bool
  se_events :: event_stream
  se_mode :: runtime_mode
  se_startup_decision :: "startup_decision option"
  se_partitions :: "(account_id option, partition) dict"
  se_snapshot_stores :: "(account_id option, snapshot_file) dict"
  se_reconnect_configured :: bool
  se_supervisor :: "unit supervisor"

abbreviation se_run_id :: "session \<Rightarrow> string" where
  "se_run_id s \<equiv> ec_run_id (es_context (se_events s))"

text \<open>\<open>_write_event\<close>: the constructor of the event, then \<open>_write\<close>.\<close>

definition write_runtime_event :: "event_world \<Rightarrow> runtime_event \<Rightarrow> session \<Rightarrow> (session, unit) outcome" where
  "write_runtime_event w e s =
     (let now = ew_now w (es_sequence (se_events s) + 1) in
      case mk_runtime_event now e of
        Inl x \<Rightarrow> (Inl x, s)
      | Inr e1 \<Rightarrow> (case stream_write (ew_hash w) now e1 (se_events s) of (r, st) \<Rightarrow> (r, s\<lparr>se_events := st\<rparr>)))"

definition write_event :: "event_world \<Rightarrow> string \<Rightarrow> (string, json) dict \<Rightarrow> session \<Rightarrow> (session, unit) outcome" where
  "write_event w kind payload s = write_runtime_event w (plain_event kind payload) s"

definition apply_lifecycle :: "string \<Rightarrow> session \<Rightarrow> (session, runtime_state) outcome" where
  "apply_lifecycle command s = (case lifecycle_apply command (se_state s) of
     Inl e \<Rightarrow> (Inl e, s) | Inr st \<Rightarrow> (Inr st, s\<lparr>se_state := st\<rparr>))"

text \<open>\<open>pause\<close>, \<open>resume\<close>, \<open>stop\<close>, \<open>enter_observation\<close>, \<open>exit_observation\<close>, \<open>degrade\<close> and \<open>recover\<close> differ in the command only.\<close>

definition session_transition :: "event_world \<Rightarrow> string \<Rightarrow> session \<Rightarrow> (session, runtime_state) outcome" where
  "session_transition w command s =
     obind (apply_lifecycle command s) (\<lambda>st s1.
       obind (write_event w ''runtime.state_transition'' [(''state'', JText (runtime_state_text st))] s1) (\<lambda>_ s2. (Inr st, s2)))"

definition session_degrade :: "event_world \<Rightarrow> session \<Rightarrow> (session, runtime_state) outcome" where
  "session_degrade w = session_transition w ''degrade''"

definition session_recover :: "event_world \<Rightarrow> session \<Rightarrow> (session, runtime_state) outcome" where
  "session_recover w = session_transition w ''recover''"

section \<open>Starting\<close>

text \<open>The evidence text of a check stays a list of fragments.\<close>

fun part_json :: "evidence_part \<Rightarrow> json" where
  "part_json (EvText s) = JText s"
| "part_json (EvFlag b) = JBool b"
| "part_json (EvNumber d) = JDecimalText d"
| "part_json (EvInteger n) = JNumber (of_int n)"
| "part_json (EvInstant t) = JTimeText t"

definition check_json :: "startup_check \<Rightarrow> json" where
  "check_json k = JObject [(''check_name'', JText (sk_name k)), (''status'', JText (sk_status k)),
     (''severity'', JText (sk_severity k)), (''evidence'', JList (map part_json (sk_evidence k))),
     (''remediation'', JText (sk_remediation k))]"

definition write_startup_gate_event :: "event_world \<Rightarrow> session \<Rightarrow> (session, unit) outcome" where
  "write_startup_gate_event w s = (case se_startup_decision s of
     None \<Rightarrow> (Inr (), s)
   | Some d \<Rightarrow> write_event w ''runtime.startup_gate''
       [(''status'', JText (startup_status_text (sd_status d))),
        (''order_permission'', JText (permission_text (sd_order_permission d))),
        (''real_order_submission_enabled'', JBool (sd_real_order_submission_enabled d)),
        (''checklist_hash'', JText (ew_checklist_hash w (sd_checklist d))),
        (''passed'', JBool (checklist_passed (sd_checklist d))),
        (''checks'', JList (map check_json (sd_checklist d)))] s)"

definition session_start :: "event_world \<Rightarrow> session \<Rightarrow> (session, runtime_state) outcome" where
  "session_start w s =
     obind (apply_lifecycle ''start'' s) (\<lambda>_ s1.
     obind (apply_lifecycle ''started'' s1) (\<lambda>st s2.
     let blocked = startup_gate_reason (se_mode s2) (se_startup_decision s2) in
     obind (write_startup_gate_event w s2) (\<lambda>_ s3.
     case blocked of
       Some reason \<Rightarrow>
         obind (write_event w ''runtime.startup_blocked'' [(''reason_code'', JText reason)] s3) (\<lambda>_ s4. session_degrade w s4)
     | None \<Rightarrow>
         obind (write_event w ''runtime.state_transition'' [(''state'', JText (runtime_state_text st))] s3) (\<lambda>_ s4. (Inr st, s4)))))"

section \<open>The order gate\<close>

definition blocked_reason :: "session \<Rightarrow> string option" where
  "blocked_reason s =
     (if se_kill_switch s then Some ''KILL_SWITCH_ACTIVE''
      else if se_state s = PAUSED then Some ''RUNTIME_PAUSED''
      else if se_state s \<notin> {RUNNING, DEGRADED} then Some ''RUNTIME_NOT_RUNNING''
      else case startup_gate_reason (se_mode s) (se_startup_decision s) of
        Some reason \<Rightarrow> Some reason
      | None \<Rightarrow> if se_state s = DEGRADED then Some ''RUNTIME_DEGRADED'' else None)"

section \<open>Broker connectivity (\<open>broker_lifecycle.py\<close>)\<close>

record reconnect_result =
  rr_passed :: bool
  rr_reason_code :: "string option"
  rr_drift_count :: int
  rr_unresolved_callback_count :: int

definition mk_reconnect_result :: "reconnect_result \<Rightarrow> reconnect_result res" where
  [ctor_simps]: "mk_reconnect_result r = checked
     [(rr_passed r \<and> rr_reason_code r \<noteq> None, ValueError ''passed reconnect reconciliation must not have a reason_code''),
      (\<not> rr_passed r \<and> \<not> truthy (rr_reason_code r), ValueError ''failed reconnect reconciliation requires a reason_code''),
      (rr_drift_count r < 0, ValueError ''drift_count must be non-negative''),
      (rr_unresolved_callback_count r < 0, ValueError ''unresolved_callback_count must be non-negative'')] r"

text \<open>What the five refresh calls of the boundary do, in order, and what its reconciliation says.\<close>

record reconnect_answers =
  ra_refresh :: "unit res list"
  ra_result :: "reconnect_result res"

definition reconnect_refreshed :: "reconnect_answers \<Rightarrow> reconnect_result res" where
  "reconnect_refreshed a = res_bind (res_map (\<lambda>r. r) (ra_refresh a)) (\<lambda>_. ra_result a)"

definition state_before :: "session \<Rightarrow> string \<times> json" where
  "state_before s = (''state_before'', JText (runtime_state_text (se_state s)))"

definition degrade_if_active :: "event_world \<Rightarrow> session \<Rightarrow> (session, runtime_state) outcome" where
  "degrade_if_active w s = (if se_state s \<in> {RUNNING, PAUSED} then session_degrade w s else (Inr (se_state s), s))"

definition on_broker_disconnect :: "event_world \<Rightarrow> string \<Rightarrow> session \<Rightarrow> (session, runtime_state) outcome" where
  "on_broker_disconnect w reason s =
     (if blank reason then (Inl (ValueError ''reason must not be empty''), s)
      else obind (write_event w ''runtime.broker_disconnected'' [(''reason'', JText reason), state_before s] s) (\<lambda>_ s1.
             degrade_if_active w s1))"

definition reconciliation_counts :: "reconnect_result \<Rightarrow> (string, json) dict" where
  "reconciliation_counts r = [(''drift_count'', JNumber (of_int (rr_drift_count r))),
     (''unresolved_callback_count'', JNumber (of_int (rr_unresolved_callback_count r)))]"

definition on_broker_reconnect :: "event_world \<Rightarrow> string \<Rightarrow> reconnect_answers \<Rightarrow> session \<Rightarrow> (session, runtime_state) outcome" where
  "on_broker_reconnect w reason a s =
     (if blank reason then (Inl (ValueError ''reason must not be empty''), s)
      else obind (write_event w ''runtime.broker_reconnected'' [(''reason'', JText reason), state_before s] s) (\<lambda>_ s1.
        if \<not> se_reconnect_configured s1
        then obind (write_event w ''runtime.reconciliation_failed''
                 [(''reason_code'', JText ''RECONNECT_RECONCILIATION_NOT_CONFIGURED''), state_before s1] s1)
               (\<lambda>_ s2. degrade_if_active w s2)
        else case reconnect_refreshed a of
          Inl e \<Rightarrow> (Inl e, s1)
        | Inr r \<Rightarrow>
           (if rr_passed r
            then obind (write_event w ''runtime.reconciliation_passed''
                     ([(''reason'', JText reason), state_before s1] @ reconciliation_counts r) s1)
                   (\<lambda>_ s2. if se_state s2 = DEGRADED then session_recover w s2 else (Inr (se_state s2), s2))
            else obind (write_event w ''runtime.reconciliation_failed''
                     ([(''reason_code'', optional_json (rr_reason_code r)), state_before s1] @ reconciliation_counts r) s1)
                   (\<lambda>_ s2. degrade_if_active w s2))))"

section \<open>Actor failures (\<open>RuntimeSupervisionCoordinator\<close>)\<close>

definition account_segment :: "account_id option \<Rightarrow> string" where
  "account_segment a = (case a of None \<Rightarrow> ''default'' | Some i \<Rightarrow> i)"

text \<open>The actors registered at construction, under \<open>/<account>/<role>\<close>.\<close>

definition supervised_actors :: "(account_id option, partition) dict \<Rightarrow> (actor_path, account_id option \<times> actor_role) dict" where
  "supervised_actors ps = dict_of (concat (map (\<lambda>(a, _).
     [(Child (Root (account_segment a)) ''account'', (a, AccountRole)),
      (Child (Root (account_segment a)) ''order_manager'', (a, OrderManagerRole)),
      (Child (Root (account_segment a)) ''execution'', (a, ExecutionRole))]) ps))"

definition register_session_actors :: "(account_id option, partition) dict \<Rightarrow> unit supervisor \<Rightarrow> unit supervisor" where
  "register_session_actors ps sv = fold (\<lambda>(path, _). supervise path mb_empty) (supervised_actors ps) sv"

fun drain_role :: "mailbox_drain_mode \<Rightarrow> actor_role \<Rightarrow> partition \<Rightarrow> partition" where
  "drain_role mode AccountRole p = p\<lparr>pt_account := (pt_account p)\<lparr>c_mailbox := snd (drain_apply mode (c_mailbox (pt_account p)))\<rparr>\<rparr>"
| "drain_role mode OrderManagerRole p = p\<lparr>pt_order := (pt_order p)\<lparr>c_mailbox := snd (drain_apply mode (c_mailbox (pt_order p)))\<rparr>\<rparr>"
| "drain_role mode ExecutionRole p = p\<lparr>pt_execution := (pt_execution p)\<lparr>c_mailbox := snd (drain_apply mode (c_mailbox (pt_execution p)))\<rparr>\<rparr>"

definition restart_actor :: "mailbox_drain_mode \<Rightarrow> string \<Rightarrow> (account_id option, partition) dict \<Rightarrow> (account_id option, partition) dict" where
  "restart_actor mode name ps =
     (case find (\<lambda>(path, _). path_str path = name) (supervised_actors ps) of
        None \<Rightarrow> ps
      | Some (_, (a, role)) \<Rightarrow> map (\<lambda>(b, p). (b, if b = a then drain_role mode role p else p)) ps)"

fun decision_name :: "supervisor_decision \<Rightarrow> string" where
  "decision_name LOG_DECISION = ''LOG''"
| "decision_name STOP_DECISION = ''STOP''"
| "decision_name RESTART = ''RESTART''"
| "decision_name DEGRADE = ''DEGRADE''"
| "decision_name ESCALATE = ''ESCALATE''"

definition on_actor_failure ::
  "event_world \<Rightarrow> failure_event \<Rightarrow> string \<Rightarrow> string \<Rightarrow> session \<Rightarrow> (session, supervisor_decision) outcome" where
  "on_actor_failure w ev exception_type exception_message s =
     (case handle_failure (ew_now w (es_sequence (se_events s) + 1)) ev (se_supervisor s) of (decision, sv) \<Rightarrow>
        (let s1 = s\<lparr>se_supervisor := sv,
               se_partitions := (if decision = RESTART then restart_actor (sv_drain_mode sv) (fe_actor_name ev) (se_partitions s)
                                 else se_partitions s)\<rparr>
         in obind (write_event w ''runtime.actor_failure''
                [(''actor_name'', JText (fe_actor_name ev)), (''exception_type'', JText exception_type),
                 (''exception_message'', JText exception_message), (''recoverable'', JBool (fe_recoverable ev)),
                 (''decision'', JText (decision_name decision)),
                 (''failure_count'', JNumber (of_nat (failure_count (fe_actor_name ev) sv)))] s1) (\<lambda>_ s2.
              if decision \<noteq> RESTART \<and> se_state s2 \<in> {RUNNING, PAUSED}
              then obind (session_degrade w s2) (\<lambda>_ s3. (Inr decision, s3))
              else (Inr decision, s2))))"

section \<open>Kill switch and rollback (\<open>safety_controller.py\<close>, \<open>rollback.py\<close>)\<close>

record deactivate_command =
  dc_operator_id :: string
  dc_reason :: string
  dc_authorized :: bool

definition mk_deactivate_command :: "deactivate_command \<Rightarrow> deactivate_command res" where
  [ctor_simps]: "mk_deactivate_command c = checked
     [(blank (dc_operator_id c), ValueError ''operator_id must not be empty''),
      (blank (dc_reason c), ValueError ''reason must not be empty'')] c"

record rollback_command =
  rc_operator_id :: string
  rc_reason :: string
  rc_event_store_paths :: "string list"

definition mk_rollback_command :: "rollback_command \<Rightarrow> rollback_command res" where
  [ctor_simps]: "mk_rollback_command c = checked
     [(blank (rc_operator_id c), ValueError ''operator_id must not be empty''),
      (blank (rc_reason c), ValueError ''reason must not be empty'')] c"

text \<open>A loop over the partitions, each with its argument; an exception ends it.\<close>

fun each_partition ::
  "('x \<Rightarrow> partition \<Rightarrow> (partition, 'a) outcome) \<Rightarrow> 'x list \<Rightarrow> (account_id option, partition) dict \<Rightarrow>
   ((account_id option, partition) dict, 'a list) outcome" where
  "each_partition f (x # xs) ((a, p) # ps) =
     (case f x p of
        (Inl e, p') \<Rightarrow> (Inl e, (a, p') # ps)
      | (Inr v, p') \<Rightarrow>
         (case each_partition f xs ps of
            (Inl e, ps') \<Rightarrow> (Inl e, (a, p') # ps')
          | (Inr vs, ps') \<Rightarrow> (Inr (v # vs), (a, p') # ps')))"
| "each_partition f xs ps = (Inr [], ps)"

text \<open>The same over the orders of one partition.\<close>

fun each_order :: "(order_id \<Rightarrow> partition \<Rightarrow> (partition, 'a) outcome) \<Rightarrow> order_id list \<Rightarrow> partition \<Rightarrow> (partition, 'a list) outcome" where
  "each_order f [] p = (Inr [], p)"
| "each_order f (i # is) p = obind (f i p) (\<lambda>v p1. obind (each_order f is p1) (\<lambda>vs p2. (Inr (v # vs), p2)))"

definition in_partitions ::
  "((account_id option, partition) dict \<Rightarrow> ((account_id option, partition) dict, 'a) outcome) \<Rightarrow> session \<Rightarrow> (session, 'a) outcome" where
  "in_partitions f s = (case f (se_partitions s) of (r, ps) \<Rightarrow> (r, s\<lparr>se_partitions := ps\<rparr>))"

definition ask_order_state :: "partition \<Rightarrow> (partition, order_state_snapshot) outcome" where
  "ask_order_state p = obind (ask_orders GetOrderManagerSnapshot p) (\<lambda>a p'.
     (case a of OrderSnapshotAnswer s \<Rightarrow> Inr s | _ \<Rightarrow> Inl (TypeError ''expected OrderStateSnapshot response''), p'))"

definition terminal_state :: "order_state \<Rightarrow> bool" where
  "terminal_state st \<longleftrightarrow> st \<in> {Filled, Cancelled, Rejected}"

definition active_of_snapshot :: "order_state_snapshot \<Rightarrow> order_id list" where
  "active_of_snapshot snap = map or_order_id (filter (\<lambda>r. \<not> terminal_state (or_state r)) (ss_orders snap))"

definition partition_active_orders :: "partition \<Rightarrow> (partition, order_id list) outcome" where
  "partition_active_orders p = obind (ask_order_state p) (\<lambda>snap p'. (Inr (active_of_snapshot snap), p'))"

definition active_order_ids :: "session \<Rightarrow> (session, order_id list list) outcome" where
  "active_order_ids s = in_partitions (\<lambda>ps. each_partition (\<lambda>_. partition_active_orders) (replicate (length ps) ()) ps) s"

definition tell_cancel :: "order_id \<Rightarrow> partition \<Rightarrow> (partition, unit) outcome" where
  "tell_cancel oid p = obind (ask_route_metadata oid p) (\<lambda>m p1.
     case mk_cancel_order \<lparr>co_intent = \<lparr>ci_order_id = oid, ci_reason = None\<rparr>, co_account_id = rm_account_id m,
            co_strategy_id = rm_strategy_id m, co_route_metadata = m\<rparr> of
       Inl e \<Rightarrow> (Inl e, p1)
     | Inr msg \<Rightarrow> (Inr (), tell_orders (CancelOrder msg) p1))"

definition check_cancelled :: "order_id \<Rightarrow> partition \<Rightarrow> (partition, order_id list) outcome" where
  "check_cancelled oid p = obind (ask_order oid p) (\<lambda>r p'. (Inr (if or_state r = Cancelled then [oid] else []), p'))"

definition cancel_all_active :: "session \<Rightarrow> (session, order_id list \<times> order_id list) outcome" where
  "cancel_all_active s =
     obind (active_order_ids s) (\<lambda>ids s1.
     obind (in_partitions (each_partition (each_order tell_cancel) ids) s1) (\<lambda>_ s2.
     obind (in_partitions (each_partition (\<lambda>_. run_partition) ids) s2) (\<lambda>_ s3.
     obind (in_partitions (each_partition (each_order check_cancelled) ids) s3) (\<lambda>cs s4.
       (Inr (concat ids, concat (concat cs)), s4)))))"

definition primary_snapshot :: "session \<Rightarrow> (session, account_snapshot) outcome" where
  "primary_snapshot s = (case se_partitions s of
     [] \<Rightarrow> (Inl StopIteration, s)
   | (a, p) # ps \<Rightarrow> (case ask_snapshot p of (r, p') \<Rightarrow> (r, s\<lparr>se_partitions := (a, p') # ps\<rparr>)))"

definition session_account_snapshot :: "event_world \<Rightarrow> session \<Rightarrow> account_id option \<Rightarrow> account_snapshot \<Rightarrow> state_snapshot res" where
  "session_account_snapshot w s a snap = mk_state_snapshot
     \<lparr>sn_actor_id = snapshot_actor_id a, sn_state_version = 1,
      sn_payload = JObject
        [(''cash'', JObject (map (\<lambda>(c, b). (c, JDecimalText b)) (as_cash snap))),
         (''positions'', JObject (map (\<lambda>(i, h). (i, JDecimalText (h_quantity h))) (as_holdings snap)))],
      sn_snapshot_id = Some (snapshot_actor_id a), sn_run_id = Some (se_run_id s), sn_schema_version = ''1'',
      sn_created_at = ew_now w (es_sequence (se_events s)), sn_last_sequence = es_sequence (se_events s),
      sn_topology_hash = None, sn_config_hash = None\<rparr>"

fun record_snapshots_loop :: "event_world \<Rightarrow> account_id option list \<Rightarrow> session \<Rightarrow> (session, string list) outcome" where
  "record_snapshots_loop w [] s = (Inr [], s)"
| "record_snapshots_loop w (a # as) s =
     (case (map_of (se_partitions s) a, map_of (se_snapshot_stores s) a) of
        (Some p, Some store) \<Rightarrow>
          (case ask_snapshot p of
             (Inl e, p') \<Rightarrow> (Inl e, s\<lparr>se_partitions := AList.update a p' (se_partitions s)\<rparr>)
           | (Inr snap, p') \<Rightarrow>
              (let s1 = s\<lparr>se_partitions := AList.update a p' (se_partitions s)\<rparr> in
               case session_account_snapshot w s1 a snap of
                 Inl e \<Rightarrow> (Inl e, s1)
               | Inr sn \<Rightarrow>
                  obind (record_snapshots_loop w as (s1\<lparr>se_snapshot_stores := AList.update a (file_save sn store) (se_snapshot_stores s1)\<rparr>))
                    (\<lambda>refs s2. (Inr (snapshot_actor_id a # refs), s2))))
      | _ \<Rightarrow> record_snapshots_loop w as s)"

definition record_account_snapshots :: "event_world \<Rightarrow> session \<Rightarrow> (session, string list) outcome" where
  "record_account_snapshots w s = record_snapshots_loop w (map fst (se_partitions s)) s"

record safety_evidence =
  sv_ev_run_id :: string
  sv_ev_operator_id :: string
  sv_ev_reason :: string
  sv_ev_runtime_state :: string
  sv_ev_active_order_ids :: "order_id list"
  sv_ev_cancelled_order_ids :: "order_id list"
  sv_ev_account_snapshot :: account_snapshot
  sv_ev_snapshot_refs :: "string list"

definition cash_json :: "account_snapshot \<Rightarrow> json" where
  "cash_json snap = JObject (map (\<lambda>(c, b). (c, JDecimalText b)) (as_cash snap))"

definition activate_kill_switch :: "event_world \<Rightarrow> kill_switch_command \<Rightarrow> session \<Rightarrow> (session, safety_evidence) outcome" where
  "activate_kill_switch w c s =
     (let s0 = s\<lparr>se_kill_switch := True\<rparr> in
      obind (active_order_ids s0) (\<lambda>ids s1.
      obind (if kc_cancel_active_orders c then cancel_all_active s1 else (Inr (concat ids, []), s1)) (\<lambda>(active, cancelled) s2.
      obind (primary_snapshot s2) (\<lambda>snap s3.
      obind (record_account_snapshots w s3) (\<lambda>refs s4.
      let ev = \<lparr>sv_ev_run_id = se_run_id s4, sv_ev_operator_id = kc_operator_id c, sv_ev_reason = kc_reason c,
                sv_ev_runtime_state = runtime_state_text (se_state s4), sv_ev_active_order_ids = active,
                sv_ev_cancelled_order_ids = cancelled, sv_ev_account_snapshot = snap, sv_ev_snapshot_refs = refs\<rparr>
      in obind (write_event w ''runtime.kill_switch''
             [(''run_id'', JText (sv_ev_run_id ev)), (''operator_id'', JText (sv_ev_operator_id ev)),
              (''reason'', JText (sv_ev_reason ev)), (''runtime_state'', JText (sv_ev_runtime_state ev)),
              (''active_order_ids'', JList (map JText active)), (''cancelled_order_ids'', JList (map JText cancelled)),
              (''snapshot_refs'', JList (map JText refs)), (''cash'', cash_json snap)] s4) (\<lambda>_ s5. (Inr ev, s5)))))))"

definition activate_via_persistent_drift :: "event_world \<Rightarrow> string \<Rightarrow> string \<Rightarrow> session \<Rightarrow> (session, unit) outcome" where
  "activate_via_persistent_drift w key reason s =
     (case mk_kill_switch_command \<lparr>kc_operator_id = ''system:persistent_drift'',
            kc_reason = ''persistent drift key='' @ key @ '': '' @ reason, kc_cancel_active_orders = True\<rparr> of
        Inl e \<Rightarrow> (Inl e, s)
      | Inr c \<Rightarrow> obind (activate_kill_switch w c s) (\<lambda>_ s1. (Inr (), s1)))"

definition deactivate_kill_switch :: "event_world \<Rightarrow> deactivate_command \<Rightarrow> session \<Rightarrow> (session, runtime_state) outcome" where
  "deactivate_kill_switch w c s =
     (if \<not> dc_authorized c then (Inl (PermissionError ''kill switch deactivate requires safety authorization''), s)
      else obind (write_event w ''runtime.kill_switch_deactivated''
             [(''run_id'', JText (se_run_id s)), (''operator_id'', JText (dc_operator_id c)), (''reason'', JText (dc_reason c))]
             (s\<lparr>se_kill_switch := False\<rparr>)) (\<lambda>_ s1. (Inr (se_state s1), s1)))"

definition session_rollback :: "event_world \<Rightarrow> rollback_command \<Rightarrow> session \<Rightarrow> (session, safety_evidence) outcome" where
  "session_rollback w c s =
     obind (active_order_ids s) (\<lambda>ids s1.
     obind (primary_snapshot (s1\<lparr>se_kill_switch := True\<rparr>)) (\<lambda>snap s2.
     obind (record_account_snapshots w s2) (\<lambda>refs s3.
     let ev = \<lparr>sv_ev_run_id = se_run_id s3, sv_ev_operator_id = rc_operator_id c, sv_ev_reason = rc_reason c,
               sv_ev_runtime_state = runtime_state_text (se_state s3), sv_ev_active_order_ids = concat ids,
               sv_ev_cancelled_order_ids = [], sv_ev_account_snapshot = snap, sv_ev_snapshot_refs = refs\<rparr>
     in obind (write_event w ''runtime.rollback''
            [(''run_id'', JText (sv_ev_run_id ev)), (''operator_id'', JText (rc_operator_id c)), (''reason'', JText (rc_reason c)),
             (''runtime_state'', JText (sv_ev_runtime_state ev)), (''event_store_paths'', JList (map JText (rc_event_store_paths c))),
             (''active_order_ids'', JList (map JText (concat ids))), (''snapshot_refs'', JList (map JText refs)),
             (''cash'', cash_json snap)] s3) (\<lambda>_ s4. (Inr ev, s4)))))"

section \<open>Operator commands (\<open>commands.py\<close>)\<close>

datatype command_type = CmdStart | CmdStop | CmdPause | CmdResume | CmdActivateKillSwitch | CmdDeactivateKillSwitch
  | CmdReconcile | CmdSnapshot | CmdEnterObservation | CmdExitObservation

fun command_type_value :: "command_type \<Rightarrow> string" where
  "command_type_value CmdStart = ''start''"
| "command_type_value CmdStop = ''stop''"
| "command_type_value CmdPause = ''pause''"
| "command_type_value CmdResume = ''resume''"
| "command_type_value CmdActivateKillSwitch = ''activate_kill_switch''"
| "command_type_value CmdDeactivateKillSwitch = ''deactivate_kill_switch''"
| "command_type_value CmdReconcile = ''reconcile''"
| "command_type_value CmdSnapshot = ''snapshot''"
| "command_type_value CmdEnterObservation = ''enter_observation''"
| "command_type_value CmdExitObservation = ''exit_observation''"

datatype result_status = Accepted_Result | Completed_Result | Rejected_Result

fun result_status_value :: "result_status \<Rightarrow> string" where
  "result_status_value Accepted_Result = ''accepted''"
| "result_status_value Completed_Result = ''completed''"
| "result_status_value Rejected_Result = ''rejected''"

record runtime_command =
  rk_command_id :: string
  rk_command_type :: command_type
  rk_idempotency_key :: string
  rk_operator_id :: string
  rk_runtime_instance_id :: string
  rk_operator_role :: string
  rk_authorization_scope :: string
  rk_requested_at :: "instant option"
  rk_approved_by :: "string option"
  rk_approval_required :: bool
  rk_reason :: "string option"
  rk_payload :: "(string, json) dict"

definition mk_runtime_command :: "runtime_command \<Rightarrow> runtime_command res" where
  [ctor_simps]: "mk_runtime_command c = checked
     [(blank (rk_command_id c), ValueError ''command_id must not be empty''),
      (blank (rk_idempotency_key c), ValueError ''idempotency_key must not be empty''),
      (blank (rk_operator_id c), ValueError ''operator_id must not be empty''),
      (blank (rk_runtime_instance_id c), ValueError ''runtime_instance_id must not be empty''),
      (blank (rk_operator_role c), ValueError ''operator_role must not be empty''),
      (blank (rk_authorization_scope c), ValueError ''authorization_scope must not be empty''),
      (blank_opt (rk_reason c), ValueError ''reason must not be empty''),
      (blank_opt (rk_approved_by c), ValueError ''approved_by must not be empty'')] c"

record command_stream_event =
  ce_event_type :: string
  ce_event_time :: instant
  ce_payload :: "(string, json) dict"

definition accepted_event :: "runtime_command \<Rightarrow> instant \<Rightarrow> command_stream_event" where
  "accepted_event c accepted_at =
     \<lparr>ce_event_type = ''command_accepted'', ce_event_time = accepted_at,
      ce_payload = dict_of
        ([(''command_id'', JText (rk_command_id c)), (''runtime_instance_id'', JText (rk_runtime_instance_id c)),
          (''idempotency_key'', JText (rk_idempotency_key c)), (''command_type'', JText (command_type_value (rk_command_type c))),
          (''operator_id'', JText (rk_operator_id c)), (''operator_role'', JText (rk_operator_role c)),
          (''authorization_scope'', JText (rk_authorization_scope c)), (''requested_at'', time_json (rk_requested_at c)),
          (''approved_by'', optional_json (rk_approved_by c)), (''approval_required'', JBool (rk_approval_required c))]
         @ rk_payload c)\<rparr>"

type_synonym command_scope = "string \<times> string \<times> command_type \<times> string"

definition idempotency_scope :: "runtime_command \<Rightarrow> command_scope" where
  "idempotency_scope c = (rk_runtime_instance_id c, rk_operator_id c, rk_command_type c, rk_idempotency_key c)"

definition is_true :: "json \<Rightarrow> bool" where
  "is_true j = (case j of JBool b \<Rightarrow> b | _ \<Rightarrow> False)"

definition authorization_failure_reason :: "runtime_command \<Rightarrow> (string \<times> string) option" where
  "authorization_failure_reason c =
     (if rk_command_type c = CmdDeactivateKillSwitch \<and> rk_authorization_scope c \<noteq> ''runtime:safety:write''
      then Some (''COMMAND_PERMISSION_DENIED'', ''kill-switch deactivation requires runtime:safety:write scope'')
      else if is_true (json_get (rk_payload c) ''enable_live_orders'') \<and>
         (rk_approved_by c = None \<or> rk_approved_by c = Some (rk_operator_id c))
      then Some (''DUAL_CONTROL_REQUIRED'', ''live order enablement requires a second approver'')
      else if rk_command_type c = CmdResume \<and> is_true (json_get (rk_payload c) ''reconnect_reconciliation_required'') \<and>
         \<not> is_true (json_get (rk_payload c) ''reconciliation_passed'')
      then Some (''RECONNECT_RECONCILIATION_REQUIRED'', ''resume after reconnect requires reconciliation'')
      else None)"

record command_result =
  cr_command_id :: string
  cr_idempotency_key :: string
  cr_accepted_at :: instant
  cr_result_status :: result_status
  cr_completed_at :: "instant option"
  cr_evidence :: "(string, json) dict"
  cr_failure_reason :: "string option"
  cr_reason_code :: "string option"

definition mk_command_result :: "command_result \<Rightarrow> command_result res" where
  [ctor_simps]: "mk_command_result r = checked
     [(blank (cr_command_id r), ValueError ''command_id must not be empty''),
      (blank (cr_idempotency_key r), ValueError ''idempotency_key must not be empty''),
      (cr_result_status r = Rejected_Result \<and> (cr_failure_reason r = None \<or> blank_opt (cr_failure_reason r)),
       ValueError ''failure_reason is required for rejected commands''),
      (cr_result_status r = Rejected_Result \<and> blank_opt (cr_reason_code r), ValueError ''reason_code must not be empty''),
      (cr_result_status r \<noteq> Rejected_Result \<and> blank_opt (cr_failure_reason r),
       ValueError ''failure_reason must not be empty when provided'')] r"

definition completed_event :: "command_result \<Rightarrow> runtime_command \<Rightarrow> command_stream_event res" where
  "completed_event r c =
     (if rk_command_id c \<noteq> cr_command_id r then Inl (ValueError ''command_id mismatch between command and result'')
      else Inr \<lparr>ce_event_type = ''command_completed'',
        ce_event_time = (case cr_completed_at r of None \<Rightarrow> cr_accepted_at r | Some t \<Rightarrow> t),
        ce_payload = dict_of
          ([(''command_id'', JText (cr_command_id r)), (''idempotency_key'', JText (cr_idempotency_key r)),
            (''command_type'', JText (command_type_value (rk_command_type c))),
            (''result_status'', JText (result_status_value (cr_result_status r)))]
           @ cr_evidence r
           @ (case cr_failure_reason r of None \<Rightarrow> [] | Some v \<Rightarrow> [(''failure_reason'', JText v)])
           @ (case cr_reason_code r of None \<Rightarrow> [] | Some v \<Rightarrow> [(''reason_code'', JText v)]))\<rparr>)"

definition command_identity :: "runtime_command \<Rightarrow> (string, json) dict" where
  "command_identity c =
     [(''runtime_instance_id'', JText (rk_runtime_instance_id c)), (''operator_id'', JText (rk_operator_id c)),
      (''operator_role'', JText (rk_operator_role c)), (''authorization_scope'', JText (rk_authorization_scope c))]"

definition rejection :: "runtime_command \<Rightarrow> instant \<Rightarrow> string \<Rightarrow> string \<Rightarrow> command_result res" where
  "rejection c now failure code = mk_command_result
     \<lparr>cr_command_id = rk_command_id c, cr_idempotency_key = rk_idempotency_key c, cr_accepted_at = now,
      cr_result_status = Rejected_Result, cr_completed_at = None, cr_evidence = command_identity c,
      cr_failure_reason = Some failure, cr_reason_code = Some code\<rparr>"

text \<open>The command bus: the results it remembers, and the state of what its handler works on.\<close>

type_synonym command_results = "(command_scope, command_result) dict"
type_synonym 's command_handler = "runtime_command \<Rightarrow> 's \<Rightarrow> ('s, command_result) outcome"

definition keep_result ::
  "command_scope \<Rightarrow> command_result res \<Rightarrow> command_results \<Rightarrow> 's \<Rightarrow> (command_results \<times> 's, command_result) outcome" where
  "keep_result k r results s = (case r of
     Inl e \<Rightarrow> (Inl e, (results, s)) | Inr v \<Rightarrow> (Inr v, (AList.update k v results, s)))"

fun unbound_rejected :: "runtime_command \<Rightarrow> instant \<Rightarrow> command_result res \<Rightarrow> command_result res" where
  "unbound_rejected c now (Inl (RuntimeCommandNotBound message)) = rejection c now message ''RUNTIME_SESSION_NOT_BOUND''"
| "unbound_rejected c now r = r"

definition bus_submit ::
  "'s command_handler \<Rightarrow> instant \<Rightarrow> runtime_command \<Rightarrow> command_results \<times> 's \<Rightarrow> (command_results \<times> 's, command_result) outcome" where
  "bus_submit handler now c st =
     (case map_of (fst st) (idempotency_scope c) of
        Some r \<Rightarrow> (Inr r, st)
      | None \<Rightarrow>
         (case authorization_failure_reason c of
            Some reason \<Rightarrow> keep_result (idempotency_scope c) (rejection c now (snd reason) (fst reason)) (fst st) (snd st)
          | None \<Rightarrow>
             (case handler c (snd st) of (r, s) \<Rightarrow> keep_result (idempotency_scope c) (unbound_rejected c now r) (fst st) s)))"

section \<open>The control plane (\<open>control_plane.py\<close>)\<close>

record session_key =
  ky_runtime_instance_id :: string
  ky_run_id :: "string option"
  ky_account_id :: "string option"
  ky_environment :: "string option"

definition mk_session_key :: "session_key \<Rightarrow> session_key res" where
  [ctor_simps]: "mk_session_key k =
     checked [(blank (ky_runtime_instance_id k), ValueError ''runtime_instance_id must not be empty'')] k"

text \<open>Sessions are objects: the registry binds keys to references, and two keys may share one.\<close>

record control_plane =
  cp_registry :: "(session_key, nat) dict"
  cp_sessions :: "nat \<Rightarrow> session"

definition register_session :: "session_key \<Rightarrow> nat \<Rightarrow> control_plane \<Rightarrow> control_plane" where
  "register_session k i cp = cp\<lparr>cp_registry := AList.update k i (cp_registry cp)\<rparr>"

definition unregister_session :: "session_key \<Rightarrow> control_plane \<Rightarrow> control_plane" where
  "unregister_session k cp = cp\<lparr>cp_registry := AList.delete k (cp_registry cp)\<rparr>"

definition resolve_session :: "session_key \<Rightarrow> control_plane \<Rightarrow> nat option" where
  "resolve_session k cp = map_of (cp_registry cp) k"

definition primary_session :: "control_plane \<Rightarrow> nat option" where
  "primary_session cp = (case cp_registry cp of [(k, i)] \<Rightarrow> Some i | _ \<Rightarrow> None)"

definition registry_is_empty :: "control_plane \<Rightarrow> bool" where
  "registry_is_empty cp \<longleftrightarrow> cp_registry cp = []"

definition require_session :: "session_key option \<Rightarrow> control_plane \<Rightarrow> nat res" where
  "require_session key cp =
     (case (case key of None \<Rightarrow> primary_session cp | Some k \<Rightarrow> resolve_session k cp) of
        None \<Rightarrow> Inl (RuntimeCommandNotBound ''RUNTIME_SESSION_NOT_BOUND: no RuntimeSession is bound to handle this command'')
      | Some i \<Rightarrow> Inr i)"

definition on_session :: "session_key option \<Rightarrow> (session \<Rightarrow> (session, 'a) outcome) \<Rightarrow> control_plane \<Rightarrow> (control_plane, 'a) outcome" where
  "on_session key f cp = (case require_session key cp of
     Inl e \<Rightarrow> (Inl e, cp)
   | Inr i \<Rightarrow> (case f (cp_sessions cp i) of (r, s) \<Rightarrow> (r, cp\<lparr>cp_sessions := (cp_sessions cp)(i := s)\<rparr>)))"

text \<open>The lifecycle methods of the executor, by command; every other command of the enumeration has a method of its own.\<close>

fun lifecycle_method :: "event_world \<Rightarrow> command_type \<Rightarrow> (session \<Rightarrow> (session, runtime_state) outcome) option" where
  "lifecycle_method w CmdStart = Some (session_start w)"
| "lifecycle_method w CmdStop = Some (session_transition w ''stop'')"
| "lifecycle_method w CmdPause = Some (session_transition w ''pause'')"
| "lifecycle_method w CmdResume = Some (session_transition w ''resume'')"
| "lifecycle_method w CmdEnterObservation = Some (session_transition w ''enter_observation'')"
| "lifecycle_method w CmdExitObservation = Some (session_transition w ''exit_observation'')"
| "lifecycle_method w _ = None"

section \<open>The command handler (\<open>application/services/operations_command_handler.py\<close>)\<close>

definition command_evidence :: "runtime_command \<Rightarrow> (string, json) dict \<Rightarrow> (string, json) dict" where
  "command_evidence c ev = dict_of (command_identity c @ ev)"

definition completed_result :: "runtime_command \<Rightarrow> instant \<Rightarrow> (string, json) dict \<Rightarrow> command_result res" where
  "completed_result c now ev = mk_command_result
     \<lparr>cr_command_id = rk_command_id c, cr_idempotency_key = rk_idempotency_key c, cr_accepted_at = now,
      cr_result_status = Completed_Result, cr_completed_at = Some now, cr_evidence = command_evidence c ev,
      cr_failure_reason = None, cr_reason_code = None\<rparr>"

fun json_truthy :: "json \<Rightarrow> bool" where
  "json_truthy JNull = False"
| "json_truthy (JBool b) = b"
| "json_truthy (JNumber n) = (n \<noteq> 0)"
| "json_truthy (JText s) = (s \<noteq> [])"
| "json_truthy (JList js) = (js \<noteq> [])"
| "json_truthy (JObject d) = (d \<noteq> [])"
| "json_truthy _ = True"

definition payload_reason :: "event_world \<Rightarrow> runtime_command \<Rightarrow> string \<Rightarrow> string" where
  "payload_reason w c fallback =
     (if truthy (rk_reason c) then the (rk_reason c)
      else case json_get (rk_payload c) ''reason'' of
        JText s \<Rightarrow> if s \<noteq> [] then s else fallback
      | j \<Rightarrow> if json_truthy j then ew_str w j else fallback)"

definition snapshot_evidence :: "account_snapshot \<Rightarrow> (string, json) dict" where
  "snapshot_evidence snap =
     [(''snapshot'', JText ''captured''), (''cash'', cash_json snap),
      (''positions'', JObject (map (\<lambda>(i, h). (i, JDecimalText (h_quantity h))) (as_holdings snap)))]
     @ (case as_account_id snap of None \<Rightarrow> [] | Some a \<Rightarrow> [(''account_id'', JText a)])"

definition command_key :: "runtime_command \<Rightarrow> session_key" where
  "command_key c = \<lparr>ky_runtime_instance_id = rk_runtime_instance_id c, ky_run_id = None, ky_account_id = None, ky_environment = None\<rparr>"

definition finish_command ::
  "('a \<Rightarrow> command_result res) \<Rightarrow> (control_plane, 'a) outcome \<Rightarrow> (control_plane, command_result) outcome" where
  "finish_command f r = obind r (\<lambda>v cp. (f v, cp))"

definition kill_switch_scope_evidence :: "runtime_command \<Rightarrow> bool \<Rightarrow> string \<Rightarrow> string \<Rightarrow> (string, json) dict" where
  "kill_switch_scope_evidence c active reason st =
     [(''scope'', json_get (rk_payload c) ''scope''), (''scope_id'', json_get (rk_payload c) ''scope_id''),
      (''active'', JBool active), (''reason'', JText reason), (''runtime_state'', JText st)]"

definition handle_command :: "event_world \<Rightarrow> bool \<Rightarrow> instant \<Rightarrow> control_plane command_handler" where
  "handle_command w executor_bound now c cp =
     (if \<not> executor_bound
      then (Inl (RuntimeCommandNotBound (''RUNTIME_SESSION_NOT_BOUND: no runtime session is bound to apply '' @
              command_type_value (rk_command_type c))), cp)
      else case mk_session_key (command_key c) of
        Inl e \<Rightarrow> (Inl e, cp)
      | Inr key \<Rightarrow>
         (case lifecycle_method w (rk_command_type c) of
            Some method \<Rightarrow>
              finish_command (\<lambda>st. completed_result c now [(''state'', JText (runtime_state_text st))]) (on_session (Some key) method cp)
          | None \<Rightarrow>
             (case rk_command_type c of
                CmdActivateKillSwitch \<Rightarrow>
                  (let reason = payload_reason w c ''operator kill switch'' in
                   case mk_kill_switch_command \<lparr>kc_operator_id = rk_operator_id c, kc_reason = reason, kc_cancel_active_orders = True\<rparr> of
                     Inl e \<Rightarrow> (Inl e, cp)
                   | Inr k \<Rightarrow> finish_command (\<lambda>ev. completed_result c now
                         (kill_switch_scope_evidence c True reason (sv_ev_runtime_state ev) @
                          [(''cancelled_order_ids'', JList (map JText (sv_ev_cancelled_order_ids ev)))]))
                       (on_session (Some key) (activate_kill_switch w k) cp))
              | CmdDeactivateKillSwitch \<Rightarrow>
                  (let reason = payload_reason w c ''operator resume'' in
                   case mk_deactivate_command \<lparr>dc_operator_id = rk_operator_id c, dc_reason = reason, dc_authorized = True\<rparr> of
                     Inl e \<Rightarrow> (Inl e, cp)
                   | Inr k \<Rightarrow> finish_command (\<lambda>st. completed_result c now
                         (kill_switch_scope_evidence c False reason (runtime_state_text st)))
                       (on_session (Some key) (deactivate_kill_switch w k) cp))
              | CmdReconcile \<Rightarrow>
                  finish_command (\<lambda>st. completed_result c now
                      [(''state'', JText (runtime_state_text st)), (''reconciliation'', JText ''completed'')])
                    (on_session (Some key) (session_recover w) cp)
              | _ \<Rightarrow>
                  finish_command (\<lambda>snap. completed_result c now (snapshot_evidence snap)) (on_session (Some key) primary_snapshot cp))))"

section \<open>What each operation leaves alone\<close>

text \<open>The lifecycle state, the kill switch and what the session was configured with.\<close>

definition control :: "session \<Rightarrow> runtime_state \<times> bool \<times> runtime_mode \<times> startup_decision option \<times> bool" where
  "control s = (se_state s, se_kill_switch s, se_mode s, se_startup_decision s, se_reconnect_configured s)"

abbreviation configured :: "session \<Rightarrow> runtime_mode \<times> startup_decision option \<times> bool" where
  "configured s \<equiv> (se_mode s, se_startup_decision s, se_reconnect_configured s)"

lemma control_write_event [simp]: "control (snd (write_event w k p s)) = control s"
  by (simp add: write_event_def write_runtime_event_def control_def Let_def case_prod_unfold split: sum.split)

lemma control_in_partitions [simp]: "control (snd (in_partitions f s)) = control s"
  by (simp add: in_partitions_def control_def case_prod_unfold)

lemma control_active_order_ids [simp]: "control (snd (active_order_ids s)) = control s"
  by (simp add: active_order_ids_def)

lemma control_after: "control (snd r) = c \<Longrightarrow> (\<And>v s. control s = c \<Longrightarrow> control (snd (f v s)) = c) \<Longrightarrow> control (snd (obind r f)) = c"
  by (rule obind_state [where P = "\<lambda>s. control s = c"]) auto

lemma control_cancel_all [simp]: "control (snd (cancel_all_active s)) = control s"
  unfolding cancel_all_active_def by (intro control_after) auto

lemma control_primary [simp]: "control (snd (primary_snapshot s)) = control s"
  by (simp add: primary_snapshot_def control_def case_prod_unfold split: list.split)

lemma control_record_loop: "control (snd (record_snapshots_loop w as s)) = control s"
proof (induction as arbitrary: s)
  case (Cons a as)
  show ?case
  proof (cases "(map_of (se_partitions s) a, map_of (se_snapshot_stores s) a)")
    case (Pair mp mst)
    then show ?thesis
    proof (cases "mp = None \<or> mst = None")
      case True
      then show ?thesis using Pair Cons.IH [of s] by (auto split: option.split)
    next
      case False
      then obtain p store where "mp = Some p" "mst = Some store" by auto
      with Pair show ?thesis
        using Cons.IH by (auto simp: Let_def control_def case_prod_unfold split: prod.split sum.split intro!: control_after)
    qed
  qed
qed simp

lemma control_record [simp]: "control (snd (record_account_snapshots w s)) = control s"
  by (simp add: record_account_snapshots_def control_record_loop)

lemmas control_frame = control_write_event control_in_partitions control_active_order_ids control_cancel_all control_primary control_record

text \<open>Activating the kill switch or rolling back changes nothing but the switch, whatever fails on the way.\<close>

lemma control_activate: "control (snd (activate_kill_switch w c s)) = control (s\<lparr>se_kill_switch := True\<rparr>)"
  unfolding activate_kill_switch_def Let_def
  by (intro control_after | auto split: prod.split)+

lemma control_transition:
  "control (snd (session_transition w command s)) =
     (case lifecycle_apply command (se_state s) of Inl e \<Rightarrow> control s | Inr st \<Rightarrow> control (s\<lparr>se_state := st\<rparr>))"
  by (auto simp: session_transition_def apply_lifecycle_def split: sum.split intro!: control_after)

lemma control_parts:
  "control s = control t \<Longrightarrow> se_state s = se_state t \<and> se_kill_switch s = se_kill_switch t \<and> configured s = configured t"
  by (simp add: control_def)

lemma control_set_state: "control (s\<lparr>se_state := st\<rparr>) = (st, snd (control s))"
  by (simp add: control_def)

text \<open>The graph of the machine.\<close>

lemma lifecycle_edges:
  "lifecycle_apply command st = Inr st' \<longleftrightarrow>
     (st, command, st') \<in> {(STOPPED, ''start'', STARTING), (STARTING, ''started'', RUNNING), (STARTING, ''stop'', STOPPED),
        (RUNNING, ''pause'', PAUSED), (RUNNING, ''enter_observation'', IN_OBSERVATION), (RUNNING, ''degrade'', DEGRADED), (RUNNING, ''stop'', STOPPED),
        (PAUSED, ''resume'', RUNNING), (PAUSED, ''enter_observation'', IN_OBSERVATION), (PAUSED, ''degrade'', DEGRADED), (PAUSED, ''stop'', STOPPED),
        (IN_OBSERVATION, ''exit_observation'', RUNNING), (IN_OBSERVATION, ''degrade'', DEGRADED), (IN_OBSERVATION, ''stop'', STOPPED),
        (DEGRADED, ''recover'', RUNNING), (DEGRADED, ''pause'', PAUSED), (DEGRADED, ''enter_observation'', IN_OBSERVATION), (DEGRADED, ''stop'', STOPPED)}"
  by (cases st; cases st')
     (auto simp: lifecycle_apply_def lifecycle_transitions_def dict_lookup_def split: option.splits if_splits)

lemma lifecycle_degrade: "lifecycle_apply ''degrade'' st =
    (if st \<in> {RUNNING, PAUSED, IN_OBSERVATION} then Inr DEGRADED else Inl (ValueError ''invalid runtime transition''))"
  by (cases st) (auto simp: lifecycle_apply_def lifecycle_transitions_def dict_lookup_def)

lemma lifecycle_recover: "lifecycle_apply ''recover'' st =
    (if st = DEGRADED then Inr RUNNING else Inl (ValueError ''invalid runtime transition''))"
  by (cases st) (auto simp: lifecycle_apply_def lifecycle_transitions_def dict_lookup_def)

lemma control_degrade_if_active:
  "control (snd (degrade_if_active w s)) =
     (if se_state s \<in> {RUNNING, PAUSED} then control (s\<lparr>se_state := DEGRADED\<rparr>) else control s)"
  by (auto simp: degrade_if_active_def session_degrade_def control_transition lifecycle_degrade)

lemma degrade_if_active_state: "se_state (snd (degrade_if_active w s)) = (if se_state s \<in> {RUNNING, PAUSED} then DEGRADED else se_state s)"
  using control_degrade_if_active [of w s] by (auto dest: control_parts split: if_splits)

text \<open>What an operation may do to the lifecycle state; the switch and the configuration stay.\<close>

definition moves :: "(runtime_state \<Rightarrow> runtime_state \<Rightarrow> bool) \<Rightarrow> session \<Rightarrow> session \<Rightarrow> bool" where
  "moves R s t \<longleftrightarrow> snd (control t) = snd (control s) \<and> (se_state t = se_state s \<or> R (se_state s) (se_state t))"

lemma moves_same: "control t = control s \<Longrightarrow> moves R s t"
  by (simp add: moves_def control_def)

lemma moves_after:
  assumes "control (snd r) = control s" and "\<And>v t. control t = control s \<Longrightarrow> moves R s (snd (f v t))"
  shows "moves R s (snd (obind r f))"
  using assms by (auto simp: obind_def moves_same split: prod.splits sum.splits)

lemma moves_transition:
  "(\<And>st st'. lifecycle_apply command st = Inr st' \<Longrightarrow> R st st') \<Longrightarrow> control t = control s \<Longrightarrow> moves R s (snd (session_transition w command t))"
  using control_transition [of w command t] by (auto simp: moves_def control_def split: sum.splits)

definition degrades :: "runtime_state \<Rightarrow> runtime_state \<Rightarrow> bool" where
  "degrades st st' \<longleftrightarrow> st \<in> {RUNNING, PAUSED} \<and> st' = DEGRADED"

definition reconnects :: "bool \<Rightarrow> runtime_state \<Rightarrow> runtime_state \<Rightarrow> bool" where
  "reconnects passed st st' \<longleftrightarrow> degrades st st' \<or> passed \<and> st = DEGRADED \<and> st' = RUNNING"

definition begins :: "runtime_state \<Rightarrow> runtime_state \<Rightarrow> bool" where
  "begins st st' \<longleftrightarrow> st = STOPPED \<and> st' \<in> {RUNNING, DEGRADED}"

lemma moves_degrade: "control t = control s \<Longrightarrow> se_state t \<in> {RUNNING, PAUSED} \<Longrightarrow> moves degrades s (snd (session_degrade w t))"
  using control_transition [of w "''degrade''" t]
  by (auto simp: session_degrade_def lifecycle_degrade moves_def control_def degrades_def)

lemma moves_degrade_if_active: "control t = control s \<Longrightarrow> moves degrades s (snd (degrade_if_active w t))"
  using control_degrade_if_active [of w t] by (auto simp: moves_def control_def degrades_def split: if_splits)

lemma moves_disconnect: "moves degrades s (snd (on_broker_disconnect w reason s))"
  by (auto simp: on_broker_disconnect_def moves_same moves_degrade_if_active intro!: moves_after)

lemma moves_mono: "moves R s t \<Longrightarrow> (\<And>x y. R x y \<Longrightarrow> Q x y) \<Longrightarrow> moves Q s t"
  by (auto simp: moves_def)

definition passes :: "reconnect_answers \<Rightarrow> bool" where
  "passes a = (case reconnect_refreshed a of Inl e \<Rightarrow> False | Inr r \<Rightarrow> rr_passed r)"

lemma moves_reconnect: "moves (reconnects (passes a)) s (snd (on_broker_reconnect w reason a s))"
proof -
  have deg: "moves (reconnects p) s (snd (degrade_if_active w t))" if "control t = control s" for t p
    by (rule moves_mono [OF moves_degrade_if_active [OF that]]) (simp add: reconnects_def)
  have rec: "moves (reconnects True) s (snd (session_recover w t))" if "control t = control s" for t
    unfolding session_recover_def by (rule moves_transition [OF _ that]) (auto simp: lifecycle_recover reconnects_def split: if_splits)
  show ?thesis
    unfolding on_broker_reconnect_def
    by (auto simp: passes_def moves_same deg rec split: sum.split intro!: moves_after)
qed

lemma moves_actor_failure: "moves degrades s (snd (on_actor_failure w ev x m s))"
proof (cases "handle_failure (ew_now w (es_sequence (se_events s) + 1)) ev (se_supervisor s)")
  case (Pair decision sv)
  let ?s1 = "s\<lparr>se_supervisor := sv, se_partitions := (if decision = RESTART
      then restart_actor (sv_drain_mode sv) (fe_actor_name ev) (se_partitions s) else se_partitions s)\<rparr>"
  have "control ?s1 = control s" by (simp add: control_def)
  moreover have "moves degrades s (snd (obind (session_degrade w t) (\<lambda>_ u. (Inr decision, u))))"
    if "control t = control s" "se_state t \<in> {RUNNING, PAUSED}" for t
    using moves_degrade [OF that] by simp
  ultimately show ?thesis
    unfolding on_actor_failure_def Pair prod.case Let_def by (intro moves_after) (auto simp: moves_same)
qed

lemma moves_start: "moves begins s (snd (session_start w s))"
proof (cases "se_state s = STOPPED")
  case False
  then have "\<exists>e. lifecycle_apply ''start'' (se_state s) = Inl e"
    by (cases "lifecycle_apply ''start'' (se_state s)") (auto simp: lifecycle_edges)
  then show ?thesis by (auto simp: session_start_def apply_lifecycle_def moves_same)
next
  case True
  have edges: "lifecycle_apply ''start'' STOPPED = Inr STARTING" "lifecycle_apply ''started'' STARTING = Inr RUNNING"
    by (simp_all add: lifecycle_edges)
  let ?s2 = "s\<lparr>se_state := RUNNING\<rparr>"
  have gate: "control (snd (write_startup_gate_event w ?s2)) = control ?s2"
    by (simp add: write_startup_gate_event_def split: option.split)
  have deg: "moves degrades ?s2 (snd (session_degrade w t))" if "control t = control ?s2" for t
    by (rule moves_degrade [OF that]) (use that in \<open>simp add: control_def\<close>)
  have "moves degrades ?s2 (snd (session_start w s))"
    unfolding session_start_def apply_lifecycle_def True edges sum.case obind_simps Let_def
    by (auto simp: edges moves_same deg split: option.split intro!: moves_after [where s = ?s2] gate)
  then show ?thesis using True by (auto simp: moves_def control_def begins_def degrades_def)
qed

section \<open>Operations and reachable sessions\<close>

datatype session_op =
    OpStart
  | OpTransition string
  | OpDisconnect string
  | OpReconnect string reconnect_answers
  | OpActorFailure failure_event string string
  | OpActivate kill_switch_command
  | OpPersistentDrift string string
  | OpDeactivate deactivate_command
  | OpRollback rollback_command

text \<open>The methods of the session; \<open>OpTransition\<close> are those that only apply one command of the machine.\<close>

fun after_op :: "event_world \<Rightarrow> session_op \<Rightarrow> session \<Rightarrow> session" where
  "after_op w OpStart s = snd (session_start w s)"
| "after_op w (OpTransition c) s =
     (if c \<in> {''stop'', ''pause'', ''resume'', ''enter_observation'', ''exit_observation'', ''degrade'', ''recover''}
      then snd (session_transition w c s) else s)"
| "after_op w (OpDisconnect reason) s = snd (on_broker_disconnect w reason s)"
| "after_op w (OpReconnect reason a) s = snd (on_broker_reconnect w reason a s)"
| "after_op w (OpActorFailure ev x m) s = snd (on_actor_failure w ev x m s)"
| "after_op w (OpActivate c) s = snd (activate_kill_switch w c s)"
| "after_op w (OpPersistentDrift key reason) s = snd (activate_via_persistent_drift w key reason s)"
| "after_op w (OpDeactivate c) s = snd (deactivate_kill_switch w c s)"
| "after_op w (OpRollback c) s = snd (session_rollback w c s)"

inductive session_steps :: "event_world \<Rightarrow> (session_op \<Rightarrow> bool) \<Rightarrow> session \<Rightarrow> session \<Rightarrow> bool" for w allowed where
  no_step: "session_steps w allowed s s"
| one_more: "session_steps w allowed s t \<Longrightarrow> allowed op \<Longrightarrow> session_steps w allowed s (after_op w op t)"

inductive_cases session_steps_back: "session_steps w allowed s t"

lemma control_drift: "control (snd (activate_via_persistent_drift w key reason s)) \<in> {control s, control (s\<lparr>se_kill_switch := True\<rparr>)}"
  using control_activate by (auto simp: activate_via_persistent_drift_def split: sum.split)

lemma control_deactivate:
  "control (snd (deactivate_kill_switch w c s)) = (if dc_authorized c then control (s\<lparr>se_kill_switch := False\<rparr>) else control s)"
  by (auto simp: deactivate_kill_switch_def intro!: control_after)

lemma control_rollback: "control (snd (session_rollback w c s)) \<in> {control s, control (s\<lparr>se_kill_switch := True\<rparr>)}"
proof (cases "active_order_ids s")
  case (Pair r s1)
  have s1: "control s1 = control s" using control_active_order_ids [of s] Pair by simp
  show ?thesis
  proof (cases r)
    case Inl
    then show ?thesis using s1 Pair by (simp add: session_rollback_def)
  next
    case (Inr ids)
    have kill: "control (s1\<lparr>se_kill_switch := True\<rparr>) = control (s\<lparr>se_kill_switch := True\<rparr>)" using s1 by (simp add: control_def)
    have "control (snd (session_rollback w c s)) = control (s\<lparr>se_kill_switch := True\<rparr>)"
      unfolding session_rollback_def Pair Inr obind_simps Let_def
      by (intro control_after) (simp_all add: kill)
    then show ?thesis by simp
  qed
qed

text \<open>The configuration never changes.\<close>

lemma moves_configured: "moves R s t \<Longrightarrow> configured t = configured s \<and> se_kill_switch t = se_kill_switch s"
  by (simp add: moves_def control_def)

lemma moves_method: "moves (\<lambda>_ _. True) s (snd (session_transition w c s))"
  by (rule moves_transition) simp_all

lemma after_op_configured: "configured (after_op w op s) = configured s"
proof (cases op)
  case OpStart
  then show ?thesis using moves_configured [OF moves_start] by simp
next
  case (OpTransition c)
  then show ?thesis using moves_configured [OF moves_method [of s w c]] by simp
next
  case (OpDisconnect reason)
  then show ?thesis using moves_configured [OF moves_disconnect] by simp
next
  case (OpReconnect reason a)
  then show ?thesis using moves_configured [OF moves_reconnect] by simp
next
  case (OpActorFailure ev x m)
  then show ?thesis using moves_configured [OF moves_actor_failure] by simp
next
  case (OpActivate c)
  then show ?thesis using control_activate [of w c s] by (simp add: control_def)
next
  case (OpPersistentDrift key reason)
  then show ?thesis using control_drift [of w key reason s] by (auto simp: control_def)
next
  case (OpDeactivate c)
  then show ?thesis using control_deactivate [of w c s] by (auto simp: control_def split: if_splits)
next
  case (OpRollback c)
  then show ?thesis using control_rollback [of w c s] by (auto simp: control_def)
qed

lemma steps_configured: "session_steps w allowed s t \<Longrightarrow> configured t = configured s"
  by (induction rule: session_steps.induct) (simp_all add: after_op_configured)

section \<open>The kill switch holds\<close>

fun deactivates :: "session_op \<Rightarrow> bool" where
  "deactivates (OpDeactivate c) = dc_authorized c"
| "deactivates _ = False"

lemma after_op_kill_switch:
  assumes "se_kill_switch s" and "\<not> deactivates op"
  shows "se_kill_switch (after_op w op s)"
proof (cases op)
  case OpStart
  then show ?thesis using assms moves_configured [OF moves_start] by simp
next
  case (OpTransition c)
  then show ?thesis using assms moves_configured [OF moves_method [of s w c]] by simp
next
  case (OpDisconnect reason)
  then show ?thesis using assms moves_configured [OF moves_disconnect] by simp
next
  case (OpReconnect reason a)
  then show ?thesis using assms moves_configured [OF moves_reconnect] by simp
next
  case (OpActorFailure ev x m)
  then show ?thesis using assms moves_configured [OF moves_actor_failure] by simp
next
  case (OpActivate c)
  then show ?thesis using control_activate [of w c s] by (simp add: control_def)
next
  case (OpPersistentDrift key reason)
  then show ?thesis using assms control_drift [of w key reason s] by (auto simp: control_def)
next
  case (OpDeactivate c)
  then show ?thesis using assms control_deactivate [of w c s] by (auto simp: control_def)
next
  case (OpRollback c)
  then show ?thesis using assms control_rollback [of w c s] by (auto simp: control_def)
qed

lemma steps_kill_switch:
  "session_steps w allowed s t \<Longrightarrow> (\<And>op. allowed op \<Longrightarrow> \<not> deactivates op) \<Longrightarrow> se_kill_switch s \<Longrightarrow> se_kill_switch t"
  by (induction rule: session_steps.induct) (simp_all add: after_op_kill_switch)

text \<open>C21. Once activating the kill switch has been attempted, whatever an actor, a snapshot store or the event sink raised on the
  way, the order gate answers that it is active after every further sequence of operations, lifecycle commands, broker
  reconnects and rollbacks included, that contains no authorized deactivation.
\<close>

theorem kill_switch_holds:
  assumes "session_steps w (\<lambda>op. \<not> deactivates op) (snd (activate_kill_switch w c s)) t"
  shows "blocked_reason t = Some ''KILL_SWITCH_ACTIVE''"
proof -
  have "se_kill_switch (snd (activate_kill_switch w c s))" using control_activate [of w c s] by (simp add: control_def)
  with steps_kill_switch [OF assms] show ?thesis by (simp add: blocked_reason_def)
qed

definition sample_world :: event_world where
  "sample_world = \<lparr>ew_hash = (\<lambda>_. ''h''), ew_checklist_hash = (\<lambda>_. ''c''), ew_now = (\<lambda>n. n), ew_str = (\<lambda>_. ''?'')\<rparr>"

definition sample_session :: "runtime_state \<Rightarrow> runtime_mode \<Rightarrow> startup_decision option \<Rightarrow> session" where
  "sample_session st mode decision =
     \<lparr>se_state = st, se_kill_switch = False,
      se_events = \<lparr>es_sequence = 0, es_context = sample_context, es_sink = None\<rparr>,
      se_mode = mode, se_startup_decision = decision, se_partitions = [(Some ''A1'', sample_partition)],
      se_snapshot_stores = [(Some ''A1'', None)], se_reconnect_configured = True,
      se_supervisor = register_session_actors [(Some ''A1'', sample_partition)] (sv_init None None)\<rparr>"

theorem kill_switch_holds_witness:
  "blocked_reason (after_op sample_world (OpTransition ''resume'')
     (snd (activate_kill_switch sample_world \<lparr>kc_operator_id = ''ops'', kc_reason = ''halt'', kc_cancel_active_orders = True\<rparr>
        (sample_session PAUSED PAPER_SIMULATED None)))) = Some ''KILL_SWITCH_ACTIVE''"
  by (rule kill_switch_holds) (rule session_steps.intros(2) [OF session_steps.intros(1)], simp)

section \<open>When orders may go out\<close>

lemma blocked_reason_None_iff:
  "blocked_reason s = None \<longleftrightarrow> \<not> se_kill_switch s \<and> se_state s = RUNNING \<and> startup_gate_reason (se_mode s) (se_startup_decision s) = None"
  by (auto simp: blocked_reason_def split: option.splits)

lemma live_gate_open_iff:
  assumes "mk_broker_config a = Inr c" and "bc_mode c = LIVE" and "validate_live_startup c request clock = Inr d"
  shows "startup_gate_reason LIVE (Some d) = None \<longleftrightarrow> (\<exists>q. request = Some q \<and> ed_allowed (evaluate_enablement q None clock))"
  using validate_live_startup_Inr [OF assms(3)] broker_config_contract_lib [OF assms(1)] assms(2)
  by (auto simp: startup_gate_reason_def live_startup_status)

text \<open>A live session lets orders out, in whatever way it has been operated since it was built, exactly when its kill switch
  is off, it is running, and the operator signoff it was started with was valid for its strategy, account, instrument and
  notional when the startup was validated.
\<close>

theorem live_orders_open_iff:
  assumes "mk_broker_config a = Inr c" and "bc_mode c = LIVE" and "validate_live_startup c request clock = Inr d"
    and "se_mode s = LIVE" and "se_startup_decision s = Some d" and "session_steps w (\<lambda>_. True) s t"
  shows "blocked_reason t = None \<longleftrightarrow> \<not> se_kill_switch t \<and> se_state t = RUNNING \<and>
     (\<exists>q. request = Some q \<and> ed_allowed (evaluate_enablement q None clock))"
  using steps_configured [OF assms(6)] assms(4,5) live_gate_open_iff [OF assms(1-3)] by (simp add: blocked_reason_None_iff)

text \<open>Without a sink every event of the kinds written here is accepted.\<close>

definition unsunk :: "session \<Rightarrow> bool" where
  "unsunk s \<longleftrightarrow> es_sink (se_events s) = None \<and> 0 \<le> es_sequence (se_events s)"

definition plain_kind :: "string \<Rightarrow> bool" where
  "plain_kind k \<longleftrightarrow> \<not> requires_correlation_id k \<and> \<not> requires_client_order_id k \<and> \<not> requires_causation_id k"

lemma unsunk_write:
  assumes "unsunk s" and "plain_kind k"
  shows "\<exists>st. write_event w k p s = (Inr (), s\<lparr>se_events := st\<rparr>) \<and> unsunk (s\<lparr>se_events := st\<rparr>)"
proof -
  have ok: "mk_runtime_event t (plain_event k p) = Inr (stamped t (plain_event k p))" for t
    using assms(2) by (simp add: mk_runtime_event_def event_checks_def plain_kind_def plain_event_def checked_def)
  have "\<exists>e. context_apply c t (stamped t (plain_event k p)) n = Inr e" if "0 < n" for c t n
    using assms(2) that
    by (simp add: context_apply_def conflicting_def checked_def stamped_def plain_event_def Let_def mk_runtime_event_def event_checks_def
        plain_kind_def)
  then obtain e where "context_apply (es_context (se_events s)) (ew_now w (es_sequence (se_events s) + 1))
      (stamped (ew_now w (es_sequence (se_events s) + 1)) (plain_event k p)) (es_sequence (se_events s) + 1) = Inr e"
    using assms(1) unfolding unsunk_def by (metis zle_add1_eq_le add.commute add_0)
  then show ?thesis
    using assms(1) ok
    by (intro exI [of _ "se_events s\<lparr>es_sequence := es_sequence (se_events s) + 1\<rparr>"])
      (simp add: write_event_def write_runtime_event_def stream_write_def Let_def unsunk_def)
qed

lemma session_kinds [simp]: "plain_kind ''runtime.state_transition''" "plain_kind ''runtime.startup_gate''"
    "plain_kind ''runtime.broker_disconnected''" "plain_kind ''runtime.broker_reconnected''" "plain_kind ''runtime.reconciliation_passed''"
  by (code_simp, code_simp, code_simp, code_simp, code_simp)

lemma unsunk_transition:
  assumes "unsunk s" and "lifecycle_apply c (se_state s) = Inr st"
  shows "\<exists>s1. session_transition w c s = (Inr st, s1) \<and> unsunk s1 \<and> control s1 = control (s\<lparr>se_state := st\<rparr>)"
proof -
  obtain ev where "write_event w ''runtime.state_transition'' [(''state'', JText (runtime_state_text st))] (s\<lparr>se_state := st\<rparr>) =
      (Inr (), s\<lparr>se_state := st\<rparr>\<lparr>se_events := ev\<rparr>)" "unsunk (s\<lparr>se_state := st\<rparr>\<lparr>se_events := ev\<rparr>)"
    using unsunk_write [of "s\<lparr>se_state := st\<rparr>" "''runtime.state_transition''"] assms(1) by (auto simp: unsunk_def)
  then show ?thesis using assms(2) by (simp add: session_transition_def apply_lifecycle_def control_def)
qed

text \<open>A stopped session whose startup gate is open runs after \<open>start\<close>.\<close>

lemma unsunk_start:
  assumes "unsunk s" and "se_state s = STOPPED" and "startup_gate_reason (se_mode s) (se_startup_decision s) = None"
  shows "\<exists>s1. session_start w s = (Inr RUNNING, s1) \<and> se_state s1 = RUNNING"
proof -
  have edges: "lifecycle_apply ''start'' STOPPED = Inr STARTING" "lifecycle_apply ''started'' STARTING = Inr RUNNING"
    by (simp_all add: lifecycle_edges)
  let ?s2 = "s\<lparr>se_state := RUNNING\<rparr>"
  have "\<exists>ev. write_startup_gate_event w ?s2 = (Inr (), ?s2\<lparr>se_events := ev\<rparr>) \<and> unsunk (?s2\<lparr>se_events := ev\<rparr>)"
  proof (cases "se_startup_decision s")
    case None
    then show ?thesis using assms(1) by (intro exI [of _ "se_events s"]) (simp add: write_startup_gate_event_def unsunk_def)
  next
    case (Some d)
    then show ?thesis
      using unsunk_write [of ?s2 "''runtime.startup_gate''"] assms(1) by (simp add: write_startup_gate_event_def unsunk_def)
  qed
  then obtain ev where ev: "write_startup_gate_event w ?s2 = (Inr (), ?s2\<lparr>se_events := ev\<rparr>)" "unsunk (?s2\<lparr>se_events := ev\<rparr>)" by blast
  obtain ev' where "write_event w ''runtime.state_transition'' [(''state'', JText (runtime_state_text RUNNING))] (?s2\<lparr>se_events := ev\<rparr>) =
      (Inr (), ?s2\<lparr>se_events := ev\<rparr>\<lparr>se_events := ev'\<rparr>)"
    using unsunk_write [OF ev(2), of "''runtime.state_transition''"] by (metis session_kinds(1))
  then show ?thesis
    using assms(2,3) ev(1) edges by (simp add: session_start_def apply_lifecycle_def Let_def)
qed

theorem live_orders_open_iff_witness:
  "blocked_reason (after_op sample_world OpStart (sample_session STOPPED LIVE (Some sample_live_startup))) = None"
proof -
  let ?s = "sample_session STOPPED LIVE (Some sample_live_startup)"
  have run: "session_steps sample_world (\<lambda>_. True) ?s (after_op sample_world OpStart ?s)"
    by (rule session_steps.intros(2) [OF session_steps.intros(1)]) simp
  have live: "bc_mode (sample_broker_config LIVE) = LIVE" "ed_allowed (evaluate_enablement sample_enablement None 50)"
    by (code_simp, code_simp)
  have gate: "startup_gate_reason LIVE (Some sample_live_startup) = None"
    using live_gate_open_iff [OF sample_broker_config(1) live(1) sample_live_startup] live(2) by blast
  have "moves begins ?s (after_op sample_world OpStart ?s)" by (simp add: moves_start)
  then have "\<not> se_kill_switch (after_op sample_world OpStart ?s)" by (simp add: moves_def control_def sample_session_def)
  moreover have "se_state (after_op sample_world OpStart ?s) = RUNNING"
    using unsunk_start [of ?s sample_world] gate by (auto simp: sample_session_def unsunk_def)
  ultimately show ?thesis
    using live_orders_open_iff [OF sample_broker_config(1) live(1) sample_live_startup _ _ run] live(2)
    by (simp add: sample_session_def)
qed

section \<open>Losing and regaining the broker\<close>

text \<open>What happens to a session without its operator, other than a reconnect whose reconciliation passes.\<close>

fun unattended :: "session_op \<Rightarrow> bool" where
  "unattended (OpDisconnect reason) = True"
| "unattended (OpReconnect reason a) = (\<not> passes a)"
| "unattended (OpActorFailure ev x m) = True"
| "unattended (OpPersistentDrift key reason) = True"
| "unattended _ = False"

lemma unattended_degraded: "unattended op \<Longrightarrow> se_state s = DEGRADED \<Longrightarrow> se_state (after_op w op s) = DEGRADED"
  using moves_disconnect [of s w] moves_reconnect [of _ s w] moves_actor_failure [of s w] control_drift [of w _ _ s]
  by (cases op) (fastforce simp: moves_def degrades_def reconnects_def control_def)+

lemma steps_degraded: "session_steps w unattended s t \<Longrightarrow> se_state s = DEGRADED \<Longrightarrow> se_state t = DEGRADED"
  by (induction rule: session_steps.induct) (simp_all add: unattended_degraded)

lemma disconnect_degrades:
  assumes "se_state s \<in> {RUNNING, PAUSED}" and "on_broker_disconnect w reason s = (Inr st, s1)"
  shows "se_state s1 = DEGRADED"
proof -
  obtain v s0 where e: "write_event w ''runtime.broker_disconnected'' [(''reason'', JText reason), state_before s] s = (Inr v, s0)"
    "degrade_if_active w s0 = (Inr st, s1)"
    using assms(2) by (auto simp: on_broker_disconnect_def obind_Inr_iff split: if_splits)
  have "se_state s0 = se_state s" using control_write_event [of w "''runtime.broker_disconnected''" "[(''reason'', JText reason), state_before s]" s] e(1)
    by (simp add: control_def)
  with degrade_if_active_state [of w s0] e(2) assms(1) show ?thesis by simp
qed

text \<open>After a session that was running or paused has handled the loss of its broker, no order goes out until a reconnect whose
  refresh and reconciliation pass or an operator's command: further disconnects, failed reconciliations, actor failures
  and drift alarms leave it degraded, and a reconnect makes it run only if its reconciliation passed.
\<close>

theorem broker_loss_blocks_orders:
  assumes "se_state s \<in> {RUNNING, PAUSED}" and "on_broker_disconnect w reason s = (Inr st, s1)"
    and "session_steps w unattended s1 t"
  shows "blocked_reason t \<noteq> None \<and> se_state t = DEGRADED \<and>
     (se_state (snd (on_broker_reconnect w reason' a t)) = RUNNING \<longrightarrow> passes a)"
proof -
  have t: "se_state t = DEGRADED" using steps_degraded [OF assms(3)] disconnect_degrades [OF assms(1,2)] by simp
  then show ?thesis
    using moves_reconnect [of a t w reason'] by (auto simp: blocked_reason_None_iff moves_def reconnects_def degrades_def)
qed

definition passing_answers :: reconnect_answers where
  "passing_answers = \<lparr>ra_refresh = replicate 5 (Inr ()), ra_result = Inr \<lparr>rr_passed = True, rr_reason_code = None, rr_drift_count = 0,
     rr_unresolved_callback_count = 0\<rparr>\<rparr>"

lemma passing_answers: "passes passing_answers" "\<exists>r. reconnect_refreshed passing_answers = Inr r \<and> rr_passed r"
  by (simp_all add: passes_def passing_answers_def reconnect_refreshed_def numeral_eq_Suc)

lemma unsunk_degrade_if_active:
  "unsunk s \<Longrightarrow> se_state s \<in> {RUNNING, PAUSED} \<Longrightarrow>
     \<exists>s1. degrade_if_active w s = (Inr DEGRADED, s1) \<and> unsunk s1 \<and> control s1 = control (s\<lparr>se_state := DEGRADED\<rparr>)"
  using unsunk_transition [of s "''degrade''" DEGRADED w] by (auto simp: degrade_if_active_def session_degrade_def lifecycle_degrade)

lemma control_events [simp]: "control (s\<lparr>se_events := ev\<rparr>) = control s"
  by (simp add: control_def)

lemma unsunk_disconnect:
  assumes "unsunk s" and "se_state s \<in> {RUNNING, PAUSED}" and "\<not> blank reason"
  shows "\<exists>s1. on_broker_disconnect w reason s = (Inr DEGRADED, s1) \<and> unsunk s1 \<and> control s1 = control (s\<lparr>se_state := DEGRADED\<rparr>)"
proof -
  obtain ev where "write_event w ''runtime.broker_disconnected'' [(''reason'', JText reason), state_before s] s = (Inr (), s\<lparr>se_events := ev\<rparr>)"
    "unsunk (s\<lparr>se_events := ev\<rparr>)"
    using unsunk_write [OF assms(1), of "''runtime.broker_disconnected''"] by (metis session_kinds(3))
  with assms unsunk_degrade_if_active [of "s\<lparr>se_events := ev\<rparr>" w] show ?thesis
    by (auto simp: on_broker_disconnect_def control_def)
qed

lemma unsunk_reconnect:
  assumes "unsunk s" and "se_state s = DEGRADED" and "\<not> blank reason" and "se_reconnect_configured s" and "passes a"
  shows "\<exists>s1. on_broker_reconnect w reason a s = (Inr RUNNING, s1)"
proof -
  obtain r where r: "reconnect_refreshed a = Inr r" "rr_passed r" using assms(5) by (auto simp: passes_def split: sum.splits)
  obtain ev where ev: "write_event w ''runtime.broker_reconnected'' [(''reason'', JText reason), state_before s] s = (Inr (), s\<lparr>se_events := ev\<rparr>)"
    "unsunk (s\<lparr>se_events := ev\<rparr>)"
    using unsunk_write [OF assms(1), of "''runtime.broker_reconnected''"] by (metis session_kinds(4))
  let ?s1 = "s\<lparr>se_events := ev\<rparr>"
  obtain ev' where ev': "write_event w ''runtime.reconciliation_passed'' ([(''reason'', JText reason), state_before ?s1] @ reconciliation_counts r) ?s1 =
      (Inr (), ?s1\<lparr>se_events := ev'\<rparr>)" "unsunk (?s1\<lparr>se_events := ev'\<rparr>)"
    using unsunk_write [OF ev(2), of "''runtime.reconciliation_passed''"] by (metis session_kinds(5))
  then have "\<exists>s2. session_recover w (?s1\<lparr>se_events := ev'\<rparr>) = (Inr RUNNING, s2)"
    using unsunk_transition [OF ev'(2), of "''recover''" RUNNING w] assms(2) by (auto simp: session_recover_def lifecycle_recover)
  then show ?thesis using assms(2-4) ev(1) ev'(1) r unfolding on_broker_reconnect_def by simp
qed

theorem broker_loss_blocks_orders_witness:
  "blocked_reason (after_op sample_world (OpActorFailure \<lparr>fe_actor_name = ''/A1/execution'', fe_timestamp = Some 5, fe_recoverable = False\<rparr>
       ''RuntimeError'' ''boom'')
     (snd (on_broker_disconnect sample_world ''socket closed'' (sample_session PAUSED PAPER_SIMULATED None)))) \<noteq> None"
proof -
  let ?s = "sample_session PAUSED PAPER_SIMULATED None"
  have "\<not> blank ''socket closed''" by code_simp
  then obtain s1 where s1: "on_broker_disconnect sample_world ''socket closed'' ?s = (Inr DEGRADED, s1)"
    using unsunk_disconnect [of ?s "''socket closed''" sample_world] by (auto simp: sample_session_def unsunk_def)
  have paused: "se_state ?s \<in> {RUNNING, PAUSED}" by (simp add: sample_session_def)
  have "session_steps sample_world unattended s1 (after_op sample_world (OpActorFailure
      \<lparr>fe_actor_name = ''/A1/execution'', fe_timestamp = Some 5, fe_recoverable = False\<rparr> ''RuntimeError'' ''boom'') s1)"
    by (rule session_steps.intros(2) [OF session_steps.intros(1)]) simp
  from broker_loss_blocks_orders [OF paused s1 this] s1 show ?thesis by simp
qed

text \<open>C23. A reconnect whose reconciliation passes makes a session run that its operator had paused before the broker was lost: with
  an open startup gate and no kill switch its orders go out again although nobody resumed it.
\<close>

theorem pause_lost_by_reconnect:
  assumes "se_state s = PAUSED" and "on_broker_disconnect w reason s = (Inr st, s1)"
    and "on_broker_reconnect w reason' a s1 = (Inr st', s2)" and "se_reconnect_configured s" and "passes a"
  shows "se_state s2 = RUNNING \<and>
     (blocked_reason s2 = None \<longleftrightarrow> \<not> se_kill_switch s \<and> startup_gate_reason (se_mode s) (se_startup_decision s) = None)"
proof -
  have s1: "se_state s1 = DEGRADED" using disconnect_degrades [OF _ assms(2)] assms(1) by simp
  have conf: "configured s1 = configured s" "se_kill_switch s1 = se_kill_switch s"
    using moves_configured [OF moves_disconnect [of s w reason]] assms(2) by simp_all
  obtain r where r: "reconnect_refreshed a = Inr r" "rr_passed r" using assms(5) by (auto simp: passes_def split: sum.splits)
  obtain u s3 where s3: "write_event w ''runtime.broker_reconnected'' [(''reason'', JText reason'), state_before s1] s1 = (Inr u, s3)"
    using assms(3) by (auto simp: on_broker_reconnect_def obind_Inr_iff split: if_splits)
  have c3: "control s3 = control s1" using control_write_event [of w "''runtime.broker_reconnected''" "[(''reason'', JText reason'), state_before s1]" s1] s3 by simp
  let ?p = "[(''reason'', JText reason'), state_before s3] @ reconciliation_counts r"
  obtain v s4 where s4: "write_event w ''runtime.reconciliation_passed'' ?p s3 = (Inr v, s4)"
    "(if se_state s4 = DEGRADED then session_recover w s4 else (Inr (se_state s4), s4)) = (Inr st', s2)"
    using assms(3) s3 r c3 conf assms(4) control_parts [OF c3]
    by (auto simp: on_broker_reconnect_def obind_Inr_iff split: if_splits)
  have c4: "control s4 = control s1" by (metis control_write_event s4(1) c3 snd_conv)
  then have "session_recover w s4 = (Inr st', s2)" using s4(2) s1 control_parts [OF c4] by simp
  then have "control s2 = control (s4\<lparr>se_state := RUNNING\<rparr>)"
    using control_transition [of w "''recover''" s4] s1 control_parts [OF c4] by (simp add: session_recover_def lifecycle_recover)
  then have "se_state s2 = RUNNING" "configured s2 = configured s" "se_kill_switch s2 = se_kill_switch s"
    using c4 conf by (auto simp: control_def)
  then show ?thesis by (simp add: blocked_reason_None_iff)
qed

theorem pause_lost_by_reconnect_witness:
  "\<exists>s1 s2. on_broker_disconnect sample_world ''socket closed'' (sample_session PAUSED PAPER_SIMULATED None) = (Inr DEGRADED, s1) \<and>
     on_broker_reconnect sample_world ''socket open'' passing_answers s1 = (Inr RUNNING, s2) \<and> blocked_reason s2 = None"
proof -
  let ?s = "sample_session PAUSED PAPER_SIMULATED None"
  have texts: "\<not> blank ''socket closed''" "\<not> blank ''socket open''" by (code_simp, code_simp)
  have s: "unsunk ?s" "se_state ?s = PAUSED" "se_reconnect_configured ?s" "\<not> se_kill_switch ?s"
    "startup_gate_reason (se_mode ?s) (se_startup_decision ?s) = None"
    by (simp_all add: sample_session_def unsunk_def startup_gate_reason_def)
  then have "se_state ?s \<in> {RUNNING, PAUSED}" by simp
  from unsunk_disconnect [OF s(1) this texts(1)] obtain s1 where
    s1: "on_broker_disconnect sample_world ''socket closed'' ?s = (Inr DEGRADED, s1)" "unsunk s1" "control s1 = control (?s\<lparr>se_state := DEGRADED\<rparr>)" by blast
  have s1': "se_state s1 = DEGRADED" "se_reconnect_configured s1" using control_parts [OF s1(3)] s(3) by simp_all
  obtain s2 where s2: "on_broker_reconnect sample_world ''socket open'' passing_answers s1 = (Inr RUNNING, s2)"
    using unsunk_reconnect [OF s1(2) s1'(1) texts(2) s1'(2) passing_answers(1)] by blast
  have "blocked_reason s2 = None"
    using pause_lost_by_reconnect [OF s(2) s1(1) s2 s(3) passing_answers(1)] s(4,5) by simp
  with s1(1) s2 show ?thesis by blast
qed

text \<open>The reconcile command recovers a degraded session without asking the reconciliation boundary.\<close>

lemma reconcile_command_skips_reconciliation:
  "se_state s = DEGRADED \<Longrightarrow> control (snd (session_recover w s)) = control (s\<lparr>se_state := RUNNING\<rparr>)"
  by (simp add: session_recover_def control_transition lifecycle_recover)

text \<open>A rollback reads the active orders before it sets the switch: when that raises, orders stay open.\<close>

lemma rollback_fails_open:
  assumes "active_order_ids s = (Inl e, s1)"
  shows "session_rollback w c s = (Inl e, s1) \<and> control s1 = control s"
  using assms control_active_order_ids [of s] by (simp add: session_rollback_def)

section \<open>Commands run once\<close>

text \<open>A submission as a step; its output is the scope of a handler call that gave a result.\<close>

definition bus_step ::
  "'s command_handler \<Rightarrow> command_results \<times> 's \<Rightarrow> instant \<times> runtime_command \<Rightarrow> (command_results \<times> 's) \<times> command_scope list" where
  "bus_step handler st m = (case m of (now, c) \<Rightarrow>
     (snd (bus_submit handler now c st),
      if map_of (fst st) (idempotency_scope c) = None \<and> authorization_failure_reason c = None \<and>
         map_of (fst (snd (bus_submit handler now c st))) (idempotency_scope c) \<noteq> None
      then [idempotency_scope c] else []))"

lemma fst_keep_result: "fst (snd (keep_result k r results s)) = (case r of Inl e \<Rightarrow> results | Inr v \<Rightarrow> AList.update k v results)"
  by (simp add: keep_result_def split: sum.split)

text \<open>The results only grow: by the result of the submitted scope, or not at all.\<close>

lemma bus_results:
  "fst (snd (bus_submit handler now c st)) = fst st \<or>
   (\<exists>r. map_of (fst st) (idempotency_scope c) = None \<and> fst (snd (bus_submit handler now c st)) = AList.update (idempotency_scope c) r (fst st))"
proof (cases "map_of (fst st) (idempotency_scope c)")
  case (Some r)
  then show ?thesis by (simp add: bus_submit_def)
next
  case None
  then show ?thesis by (auto simp: bus_submit_def fst_keep_result case_prod_unfold split: option.split sum.split)
qed

lemma bus_results_map_of:
  "map_of (fst st) k = Some r \<Longrightarrow> map_of (fst (snd (bus_submit handler now c st))) k = Some r"
  using bus_results [of handler now c st] by (auto simp: update_conv')

interpretation bus: exactly_once "bus_step handler" "\<lambda>st. dom (map_of (fst st))" "\<lambda>k. k" "\<lambda>_. True" for handler :: "'s command_handler"
proof unfold_locales
  fix st :: "command_results \<times> 's" and m :: "instant \<times> runtime_command"
  show "dom (map_of (fst st)) \<union> (\<lambda>k. k) ` set (snd (bus_step handler st m)) \<subseteq> dom (map_of (fst (fst (bus_step handler st m))))"
    using bus_results_map_of [of st _ _ handler "fst m" "snd m"] by (auto simp: bus_step_def case_prod_unfold split: if_splits)
qed (auto simp: bus_step_def case_prod_unfold split: if_splits)

lemma keep_result_Inr: "keep_result k r results s = (Inr v, st1) \<Longrightarrow> map_of (fst st1) k = Some v"
  by (auto simp: keep_result_def update_conv' split: sum.splits)

lemma bus_answer_kept: "bus_submit handler now c st = (Inr r, st1) \<Longrightarrow> map_of (fst st1) (idempotency_scope c) = Some r"
  by (auto simp: bus_submit_def case_prod_unfold split: option.splits dest: keep_result_Inr)

lemma run_bus_keeps:
  "map_of (fst st) k = Some r \<Longrightarrow> map_of (fst (fst (run_steps (bus_step handler) st ms))) k = Some r"
  by (induction ms arbitrary: st) (auto simp: bus_step_def case_prod_unfold bus_results_map_of)

text \<open>Whatever commands are submitted, the handler gives at most one result per scope (runtime, operator, type, key), and a
  command that has been answered is answered the same ever after without touching the runtime: what other commands do
  in between, and a different payload under the same key, make no difference.
\<close>

theorem commands_run_once:
  assumes "bus_submit handler now c st = (Inr r, st1)" and "idempotency_scope c' = idempotency_scope c"
  shows "distinct (snd (run_steps (bus_step handler) st ms)) \<and>
     bus_submit handler now' c' (fst (run_steps (bus_step handler) st1 ms)) = (Inr r, fst (run_steps (bus_step handler) st1 ms))"
proof -
  have "map_of (fst (fst (run_steps (bus_step handler) st1 ms))) (idempotency_scope c') = Some r"
    using run_bus_keeps [OF bus_answer_kept [OF assms(1)]] assms(2) by simp
  then show ?thesis
    using bus.run_distinct [of ms handler st] by (simp add: bus_submit_def list_all_iff)
qed

section \<open>Only an authorised command turns the switch off\<close>

definition halted :: "control_plane \<Rightarrow> nat \<Rightarrow> bool" where
  "halted cp i \<longleftrightarrow> se_kill_switch (cp_sessions cp i)"

lemma halted_on_session:
  assumes "halted cp i" and "\<And>s. se_kill_switch s \<Longrightarrow> se_kill_switch (snd (f s))"
  shows "halted (snd (on_session key f cp)) i"
  using assms by (auto simp: halted_def on_session_def split: sum.split prod.split) (metis snd_conv)

lemma snd_finish: "snd (finish_command f r) = snd r"
  by (auto simp: finish_command_def obind_def split: prod.splits sum.splits)

lemma lifecycle_method_keeps: "lifecycle_method w k = Some f \<Longrightarrow> se_kill_switch s \<Longrightarrow> se_kill_switch (snd (f s))"
  using moves_configured [OF moves_start] moves_configured [OF moves_method] by (cases k) auto

lemma handle_keeps_halted:
  assumes "halted cp i" and "rk_command_type c \<noteq> CmdDeactivateKillSwitch"
  shows "halted (snd (handle_command w bound now c cp)) i"
proof (cases "\<not> bound \<or> (\<exists>e. mk_session_key (command_key c) = Inl e)")
  case True
  then show ?thesis using assms(1) by (auto simp: handle_command_def)
next
  case False
  then obtain key where key: "bound" "mk_session_key (command_key c) = Inr key"
    by (cases "mk_session_key (command_key c)") auto
  show ?thesis
  proof (cases "lifecycle_method w (rk_command_type c)")
    case (Some f)
    then show ?thesis
      using key halted_on_session [OF assms(1), of f] lifecycle_method_keeps [OF Some] by (simp add: handle_command_def snd_finish)
  next
    case None
    have act: "se_kill_switch (snd (activate_kill_switch w k s))" for k s
      using control_activate [of w k s] by (simp add: control_def)
    have rec: "se_kill_switch s \<Longrightarrow> se_kill_switch (snd (session_recover w s))" for s
      using moves_configured [OF moves_method [of s w "''recover''"]] by (simp add: session_recover_def)
    have snap: "se_kill_switch s \<Longrightarrow> se_kill_switch (snd (primary_snapshot s))" for s
      using control_parts [OF control_primary [of s]] by simp
    have kept: "halted (snd (on_session (Some key) (activate_kill_switch w k) cp)) i"
      "halted (snd (on_session (Some key) (session_recover w) cp)) i" "halted (snd (on_session (Some key) primary_snapshot cp)) i" for k
      by (rule halted_on_session [OF assms(1)], simp add: act, rule halted_on_session [OF assms(1)], simp add: rec,
          rule halted_on_session [OF assms(1)], simp add: snap)
    show ?thesis
      using key None assms kept unfolding handle_command_def
      by (cases "rk_command_type c") (simp_all add: snd_finish Let_def split: sum.split)
  qed
qed

lemma bus_keeps_halted:
  assumes "halted (snd st) i" and "rk_command_type c = CmdDeactivateKillSwitch \<Longrightarrow> rk_authorization_scope c \<noteq> ''runtime:safety:write''"
  shows "halted (snd (snd (bus_submit (handle_command w bound now) now' c st))) i"
proof (cases "map_of (fst st) (idempotency_scope c) \<noteq> None \<or> authorization_failure_reason c \<noteq> None")
  case True
  then show ?thesis using assms(1) by (auto simp: bus_submit_def keep_result_def split: option.splits sum.splits)
next
  case False
  then have "rk_command_type c \<noteq> CmdDeactivateKillSwitch" using assms(2) by (auto simp: authorization_failure_reason_def split: if_splits)
  then have "halted (snd (handle_command w bound now c (snd st))) i" using handle_keeps_halted assms(1) by blast
  with False show ?thesis by (auto simp: bus_submit_def keep_result_def case_prod_unfold split: option.splits sum.splits)
qed

definition lacks_safety_scope :: "instant \<times> runtime_command \<Rightarrow> bool" where
  "lacks_safety_scope m \<longleftrightarrow> rk_command_type (snd m) \<noteq> CmdDeactivateKillSwitch \<or> rk_authorization_scope (snd m) \<noteq> ''runtime:safety:write''"

interpretation halted_bus: kept_by_steps "bus_step (handle_command w bound now)" "\<lambda>st. halted (snd st) i" lacks_safety_scope
  for w bound now i
  by unfold_locales (auto simp: bus_step_def case_prod_unfold lacks_safety_scope_def intro!: bus_keeps_halted)

text \<open>C22. Through the command bus, the order gate of a session whose kill switch is active stays shut under any sequence of commands to
  any runtime, with whatever operators, keys and payloads, unless one of them is a deactivation that carries the
  scope \<open>runtime:safety:write\<close>.
\<close>

theorem kill_switch_needs_safety_scope:
  assumes "se_kill_switch (cp_sessions (snd st) i)" and "list_all lacks_safety_scope ms"
  shows "blocked_reason (cp_sessions (snd (fst (run_steps (bus_step (handle_command w bound now)) st ms))) i) = Some ''KILL_SWITCH_ACTIVE''"
  using halted_bus.run_keeps [OF _ assms(2), of st i w bound now] assms(1) by (simp add: halted_def blocked_reason_def)

definition sample_command :: "command_type \<Rightarrow> string \<Rightarrow> string \<Rightarrow> runtime_command" where
  "sample_command k key scope =
     \<lparr>rk_command_id = key, rk_command_type = k, rk_idempotency_key = key, rk_operator_id = ''ops'', rk_runtime_instance_id = ''rt'',
      rk_operator_role = ''operator'', rk_authorization_scope = scope, rk_requested_at = None, rk_approved_by = None,
      rk_approval_required = False, rk_reason = None, rk_payload = []\<rparr>"

definition sample_plane :: "session \<Rightarrow> control_plane" where
  "sample_plane s = \<lparr>cp_registry = [(command_key (sample_command CmdStart ''k'' ''runtime:operator''), 0)], cp_sessions = (\<lambda>_. s)\<rparr>"

theorem kill_switch_needs_safety_scope_witness:
  "blocked_reason (cp_sessions (snd (fst (run_steps (bus_step (handle_command sample_world True 5))
     ([], sample_plane ((sample_session RUNNING PAPER_SIMULATED None)\<lparr>se_kill_switch := True\<rparr>))
     [(1, sample_command CmdDeactivateKillSwitch ''k1'' ''runtime:operator''), (2, sample_command CmdStop ''k2'' ''runtime:safety:write'')]))) 0) =
   Some ''KILL_SWITCH_ACTIVE''"
  by (rule kill_switch_needs_safety_scope) (simp_all add: sample_plane_def lacks_safety_scope_def sample_command_def)

theorem commands_run_once_witness:
  "\<exists>r st1. bus_submit (handle_command sample_world True 5) 1 (sample_command CmdPause ''k1'' ''runtime:operator'')
       ([], sample_plane (sample_session RUNNING PAPER_SIMULATED None)) = (Inr r, st1) \<and>
     bus_submit (handle_command sample_world True 5) 7 (sample_command CmdPause ''k1'' ''runtime:other'') st1 = (Inr r, st1)"
proof -
  let ?h = "handle_command sample_world True 5"
  let ?c = "sample_command CmdPause ''k1'' ''runtime:operator''"
  let ?s = "sample_session RUNNING PAPER_SIMULATED None"
  have s: "unsunk ?s" "lifecycle_apply ''pause'' (se_state ?s) = Inr PAUSED"
    by (simp_all add: sample_session_def unsunk_def lifecycle_edges)
  obtain s1 where s1: "session_transition sample_world ''pause'' ?s = (Inr PAUSED, s1)" using unsunk_transition [OF s] by blast
  have "\<exists>r. completed_result ?c 5 [(''state'', JText ''paused'')] = Inr r" by (simp add: completed_result_def sample_command_def ctor_simps checked_def blank_opt_def)
  then obtain r where r: "completed_result ?c 5 [(''state'', JText ''paused'')] = Inr r" ..
  have key: "mk_session_key (command_key ?c) = Inr (command_key ?c)"
    by (simp add: command_key_def sample_command_def ctor_simps checked_def)
  have "require_session (Some (command_key ?c)) (sample_plane ?s) = Inr 0"
    by (simp add: require_session_def resolve_session_def sample_plane_def command_key_def sample_command_def)
  then have "?h ?c (sample_plane ?s) = (Inr r, (sample_plane ?s)\<lparr>cp_sessions := (cp_sessions (sample_plane ?s))(0 := s1)\<rparr>)"
    using key s1 r by (simp add: handle_command_def on_session_def finish_command_def sample_command_def) (simp add: sample_plane_def)
  moreover have "authorization_failure_reason ?c = None"
    by (simp add: sample_command_def authorization_failure_reason_def json_get_def is_true_def dict_lookup_def)
  ultimately have "\<exists>st1. bus_submit ?h 1 ?c ([], sample_plane ?s) = (Inr r, st1)"
    by (simp add: bus_submit_def keep_result_def)
  then obtain st1 where st1: "bus_submit ?h 1 ?c ([], sample_plane ?s) = (Inr r, st1)" ..
  from commands_run_once [OF st1, of "sample_command CmdPause ''k1'' ''runtime:other''" "[]" 7] st1
  show ?thesis by (auto simp: idempotency_scope_def sample_command_def)
qed

end
