(* ===== verification/Emergency_Stop.thy ===== *)
theory Emergency_Stop
  imports Runtime_Control
begin

text \<open>
  What activating the kill switch does to the orders of a session (\<open>runtime/safety_controller.py\<close>), through the mailboxes of
  the account partitions: every active order that its machine lets cancel and the broker acknowledges ends cancelled, and an
  order whose cancellation or replacement is already pending stops the whole loop.
\<close>

section \<open>Draining messages that are handled without answers\<close>

fun handle_silent :: "('s, 'm, 'o, 'r) handler \<Rightarrow> 'm list \<Rightarrow> 's \<Rightarrow> ('s \<times> 'o list) option" where
  "handle_silent h [] s = Some (s, [])"
| "handle_silent h (m # ms) s =
     (case h m s of
        (Inr (outs, None), s1) \<Rightarrow> map_option (\<lambda>(s2, os). (s2, outs @ os)) (handle_silent h ms s1)
      | _ \<Rightarrow> None)"

lemma handle_silent_Cons:
  "handle_silent h (m # ms) s = Some (s2, os) \<longleftrightarrow>
     (\<exists>outs s1 os1. h m s = (Inr (outs, None), s1) \<and> handle_silent h ms s1 = Some (s2, os1) \<and> os = outs @ os1)"
  by (auto split: prod.splits sum.splits option.splits)

lemma handle_silent_append:
  "handle_silent h ms s = Some (s1, os1) \<Longrightarrow> handle_silent h ns s1 = Some (s2, os2) \<Longrightarrow> handle_silent h (ms @ ns) s = Some (s2, os1 @ os2)"
  by (induction ms arbitrary: s os1) (auto simp: handle_silent_Cons simp del: handle_silent.simps(2))

lemma process_silent_then:
  assumes "handle_silent h ms (c_actor c) = Some (s, os)" and "c_mailbox c = ms @ rest"
  shows "process_all h q c =
     (case process_all h q (c\<lparr>c_mailbox := rest, c_actor := s\<rparr>) of
        (Inl e, c', os') \<Rightarrow> (Inl e, c', os @ os')
      | (Inr n, c', os') \<Rightarrow> (Inr (length ms + n), c', os @ os'))"
  using assms
proof (induction ms arbitrary: c os)
  case Nil
  then have "c\<lparr>c_mailbox := rest, c_actor := s\<rparr> = c" by simp
  with Nil show ?case by (auto split: prod.split sum.split)
next
  case (Cons m ms)
  then obtain outs s1 os1 where h: "h m (c_actor c) = (Inr (outs, None), s1)" "handle_silent h ms s1 = Some (s, os1)" "os = outs @ os1"
    by (auto simp: handle_silent_Cons simp del: handle_silent.simps(2))
  let ?c1 = "c\<lparr>c_mailbox := ms @ rest, c_actor := s1\<rparr>"
  have "process_one h q c = (Inr (True, outs), ?c1)"
    using h(1) Cons.prems(2) by (simp add: process_one_def)
  then show ?case
    using Cons.IH [of ?c1 os1] h(2,3) process_all.simps [of h q c] by (auto split: prod.split sum.split)
qed

lemma process_silent:
  "handle_silent h (c_mailbox c) (c_actor c) = Some (s, os) \<Longrightarrow>
     process_all h q c = (Inr (length (c_mailbox c)), c\<lparr>c_mailbox := [], c_actor := s\<rparr>, os)"
  by (subst process_silent_then [where rest = "[]"]) (auto simp: process_all_empty)

lemma ask_silent:
  assumes "handle_silent h (c_mailbox c) (c_actor c) = Some (s, os)" and "list_all (\<lambda>m. \<not> q m) (c_mailbox c)"
    and "h m s = (Inr (outs, Some a), s')"
  shows "ask h q m c = (Inr a, c\<lparr>c_mailbox := [], c_actor := s', c_answers := c_answers c @ [Inr a]\<rparr>, os @ outs)"
proof -
  have "filter q (c_mailbox c) = []" using assms(2) by (auto simp: filter_empty_conv list_all_iff)
  moreover have "process_all h q (tell m c) =
      (Inr (length (c_mailbox c) + 1), c\<lparr>c_mailbox := [], c_actor := s', c_answers := c_answers c @ [Inr a]\<rparr>, os @ outs)"
  proof (subst process_silent_then [where rest = "[m]"])
    show "handle_silent h (c_mailbox c) (c_actor (tell m c)) = Some (s, os)" using assms(1) by simp
    show "c_mailbox (tell m c) = c_mailbox c @ [m]" by simp
    let ?c = "(tell m c)\<lparr>c_mailbox := [m], c_actor := s\<rparr>"
    have "process_all h q ?c = (Inr 1, c\<lparr>c_mailbox := [], c_actor := s', c_answers := c_answers c @ [Inr a]\<rparr>, outs)"
      using process_all_single [of ?c m h outs "Some a" s' q] assms(3) by (simp add: tell_def)
    then show "(case process_all h q ?c of
        (Inl e, c', os') \<Rightarrow> (Inl e, c', os @ os')
      | (Inr n, c', os') \<Rightarrow> (Inr (length (c_mailbox c) + n), c', os @ os')) =
      (Inr (length (c_mailbox c) + 1), c\<lparr>c_mailbox := [], c_actor := s', c_answers := c_answers c @ [Inr a]\<rparr>, os @ outs)"
      by simp
  qed
  ultimately show ?thesis by (simp add: ask_def nth_append)
qed

section \<open>Orders that can be cancelled\<close>

abbreviation order_at :: "om_actor \<Rightarrow> order_id \<Rightarrow> order option" where
  "order_at a i \<equiv> map_of (om_orders (oa_manager a)) i"

definition set_order_state :: "order_state \<Rightarrow> order_id \<Rightarrow> om_actor \<Rightarrow> om_actor" where
  "set_order_state st i a = (case order_at a i of
     None \<Rightarrow> a
   | Some r \<Rightarrow> set_manager ((oa_manager a)\<lparr>om_machines := AList.update i st (om_machines (oa_manager a)),
       om_orders := AList.update i (r\<lparr>or_state := st\<rparr>) (om_orders (oa_manager a))\<rparr>) a)"

lemma replace_order_state:
  "map_of (om_orders m) i = Some r \<Longrightarrow>
     replace_order i st None m = (Inr (r\<lparr>or_state := st\<rparr>), m\<lparr>om_orders := AList.update i (r\<lparr>or_state := st\<rparr>) (om_orders m)\<rparr>)"
  by (cases r) (simp add: replace_order_def Let_def)

text \<open>The order with its route, filed as the order manager actor files a submitted order, in one of the given states.\<close>

definition filed :: "order_state set \<Rightarrow> om_actor \<Rightarrow> order_id \<Rightarrow> string \<Rightarrow> route_metadata \<Rightarrow> bool" where
  "filed sts a i b m \<longleftrightarrow> (\<exists>r. order_at a i = Some r \<and> or_order_id r = i \<and> or_state r \<in> sts \<and> or_broker_order_id r = Some b \<and>
     map_of (om_machines (oa_manager a)) i = Some (or_state r) \<and> oi_account_id (or_intent r) = Some (rm_account_id m)) \<and>
     map_of (om_broker_to_order (oa_manager a)) b = Some i \<and> map_of (oa_routes a) i = Some m \<and>
     (oa_account_id a = None \<or> oa_account_id a = Some (rm_account_id m))"

definition cancel_message :: "order_id \<Rightarrow> route_metadata \<Rightarrow> cancel_order" where
  "cancel_message i m = \<lparr>co_intent = \<lparr>ci_order_id = i, ci_reason = None\<rparr>, co_account_id = rm_account_id m,
     co_strategy_id = rm_strategy_id m, co_route_metadata = m\<rparr>"

definition cancel_request_for :: "order_id \<Rightarrow> string \<Rightarrow> route_metadata \<Rightarrow> cancel_request" where
  "cancel_request_for i b m = \<lparr>cq_order_id = i, cq_broker_order_id = b, cq_account_id = rm_account_id m,
     cq_strategy_id = rm_strategy_id m, cq_route_metadata = m\<rparr>"

lemma set_order_state_at:
  "order_at (set_order_state st i a) j = (if j = i then map_option (\<lambda>r. r\<lparr>or_state := st\<rparr>) (order_at a i) else order_at a j)"
  by (auto simp: set_order_state_def set_manager_def update_conv' split: option.split)

lemma set_order_state_frame [simp]:
  "om_broker_to_order (oa_manager (set_order_state st i a)) = om_broker_to_order (oa_manager a)"
  "oa_routes (set_order_state st i a) = oa_routes a" "oa_account_id (set_order_state st i a) = oa_account_id a"
  "om_seen_report_ids (oa_manager (set_order_state st i a)) = om_seen_report_ids (oa_manager a)"
  "rh_account_id (oa_handler (set_order_state st i a)) = rh_account_id (oa_handler a)"
  by (auto simp: set_order_state_def set_manager_def split: option.split)

lemma set_order_state_machine:
  "order_at a i \<noteq> None \<Longrightarrow> map_of (om_machines (oa_manager (set_order_state st i a))) j =
     (if j = i then Some st else map_of (om_machines (oa_manager a)) j)"
  by (auto simp: set_order_state_def set_manager_def update_conv' split: option.split)

lemma filed_other: "j \<noteq> i \<Longrightarrow> order_at a i \<noteq> None \<Longrightarrow> filed sts (set_order_state st i a) j b m \<longleftrightarrow> filed sts a j b m"
  by (simp add: filed_def set_order_state_at set_order_state_machine)

lemma filed_set: "filed sts a i b m \<Longrightarrow> filed {st} (set_order_state st i a) i b m"
  by (auto simp: filed_def set_order_state_at set_order_state_machine)

lemma filed_present: "filed sts a i b m \<Longrightarrow> order_at a i \<noteq> None"
  by (auto simp: filed_def)

definition cancellable_states :: "order_state set" where
  "cancellable_states = {Sent, Accepted, PartiallyFilled}"

lemma cancel_step:
  assumes "filed cancellable_states a i b m"
  shows "order_handle (CancelOrder (cancel_message i m)) a =
     (Inr ([ToExecution (CancelRequest (cancel_request_for i b m))], None), set_order_state CancelRequested i a)"
proof -
  obtain r where r: "order_at a i = Some r" "or_order_id r = i" "or_state r \<in> cancellable_states" "or_broker_order_id r = Some b"
    "map_of (om_machines (oa_manager a)) i = Some (or_state r)" "oi_account_id (or_intent r) = Some (rm_account_id m)"
    "map_of (oa_routes a) i = Some m" "oa_account_id a = None \<or> oa_account_id a = Some (rm_account_id m)"
    using assms by (auto simp: filed_def)
  have ev: "machine_apply EvCancelRequested (or_state r) = Inr CancelRequested"
    using r(3) by (auto simp: cancellable_states_def machine_apply_def duplicate_terminal_events_def transition_table_def dict_lookup_def)
  have "command_target i (rm_account_id m) m ''cancel'' a = Inr r"
    using r by (auto simp: command_target_def get_order_def oa_route_metadata_def matches_route_def)
  moreover have "request_cancel \<lparr>ci_order_id = i, ci_reason = None\<rparr> (oa_manager a) =
      (Inr (r\<lparr>or_state := CancelRequested\<rparr>),
       (oa_manager a)\<lparr>om_machines := AList.update i CancelRequested (om_machines (oa_manager a)),
         om_orders := AList.update i (r\<lparr>or_state := CancelRequested\<rparr>) (om_orders (oa_manager a))\<rparr>)"
    using r ev by (simp add: request_cancel_def apply_event_def replace_order_state)
  ultimately show ?thesis
    using r by (simp add: order_handle_def handle_cancel_def cancel_message_def on_manager_def set_order_state_def cancel_request_for_def
        mk_cancel_request_def route_checks_def checked_def)
qed

text \<open>The report that acknowledges a cancellation.\<close>

definition acknowledges :: "string \<Rightarrow> execution_report \<Rightarrow> bool" where
  "acknowledges b r \<longleftrightarrow> er_broker_order_id r = b \<and> er_status r = RepCancelled \<and> er_fill_id r = None"

definition note_report :: "order_id \<Rightarrow> string \<Rightarrow> om_actor \<Rightarrow> om_actor" where
  "note_report i rid a = set_manager ((oa_manager a)\<lparr>om_seen_report_ids := insert rid (om_seen_report_ids (oa_manager a)),
     om_report_ids_by_order := add_id i rid (om_report_ids_by_order (oa_manager a))\<rparr>) a"

lemma note_report_frame [simp]:
  "om_orders (oa_manager (note_report i rid a)) = om_orders (oa_manager a)" "om_machines (oa_manager (note_report i rid a)) = om_machines (oa_manager a)"
  "om_broker_to_order (oa_manager (note_report i rid a)) = om_broker_to_order (oa_manager a)"
  "oa_routes (note_report i rid a) = oa_routes a" "oa_account_id (note_report i rid a) = oa_account_id a"
  "om_seen_report_ids (oa_manager (note_report i rid a)) = insert rid (om_seen_report_ids (oa_manager a))"
  by (simp_all add: note_report_def set_manager_def)

lemma filed_note [simp]: "filed sts (note_report i rid a) j b m \<longleftrightarrow> filed sts a j b m"
  by (simp add: filed_def)

lemma acknowledge_step:
  assumes "filed {CancelRequested} a i b m" and "acknowledges b r" and "er_report_id r \<notin> om_seen_report_ids (oa_manager a)"
  shows "order_handle (Report r) a = (Inr ([], None), note_report i (er_report_id r) (set_order_state Cancelled i a))"
proof -
  obtain x where x: "order_at a i = Some x" "or_order_id x = i" "map_of (om_machines (oa_manager a)) i = Some CancelRequested"
    "map_of (om_broker_to_order (oa_manager a)) b = Some i"
    using assms(1) by (auto simp: filed_def)
  have ev: "machine_apply EvCancelled CancelRequested = Inr Cancelled"
    by (simp add: machine_apply_def duplicate_terminal_events_def transition_table_def dict_lookup_def)
  have "process_report r (oa_manager a) = (Inr \<lparr>pr_order = x\<lparr>or_state := Cancelled\<rparr>, pr_fills = []\<rparr>,
      oa_manager (note_report i (er_report_id r) (set_order_state Cancelled i a)))"
    using x assms(2,3) ev
    by (simp add: process_report_def acknowledges_def apply_event_def replace_order_state fills_for_report_def Let_def
        note_report_def set_order_state_def set_manager_def)
  then show ?thesis
    using x(1) by (simp add: order_handle_def handle_report_def rh_handle_def note_report_def set_order_state_def set_manager_def)
qed

section \<open>Asking for the cancellations\<close>

lemma deliver_requests:
  "fold deliver (map ToExecution os) p = p\<lparr>pt_execution := (pt_execution p)\<lparr>c_mailbox := c_mailbox (pt_execution p) @ os\<rparr>\<rparr>"
  by (induction os arbitrary: p) (simp_all add: tell_def mb_put_def)

text \<open>What a partition has come to once its order manager has handled what waits for it: the actor, the requests that wait for
  the execution actor, and the execution actor itself.\<close>

definition queued :: "partition \<Rightarrow> om_actor \<Rightarrow> execution_msg list \<Rightarrow> execution_port \<Rightarrow> bool" where
  "queued p a e x \<longleftrightarrow> c_mailbox (pt_account p) = [] \<and> c_actor (pt_execution p) = x \<and>
     list_all (\<lambda>m. \<not> om_is_query m) (c_mailbox (pt_order p)) \<and>
     (\<exists>os. handle_silent order_handle (c_mailbox (pt_order p)) (c_actor (pt_order p)) = Some (a, map ToExecution os) \<and>
        c_mailbox (pt_execution p) @ os = e)"

lemma quiet_queued: "quiet p \<Longrightarrow> actors p = (a, x, c) \<Longrightarrow> queued p a [] x"
  by (auto simp: quiet_def actors_def queued_def)

definition route_at :: "om_actor \<Rightarrow> order_id \<Rightarrow> route_metadata" where
  "route_at a i = the (map_of (oa_routes a) i)"

definition broker_id_at :: "om_actor \<Rightarrow> order_id \<Rightarrow> string" where
  "broker_id_at a i = the (or_broker_order_id (the (order_at a i)))"

definition cancel_request_at :: "om_actor \<Rightarrow> order_id \<Rightarrow> cancel_request" where
  "cancel_request_at a i = cancel_request_for i (broker_id_at a i) (route_at a i)"

definition filed_at :: "order_state set \<Rightarrow> om_actor \<Rightarrow> order_id \<Rightarrow> bool" where
  "filed_at sts a i \<longleftrightarrow> filed sts a i (broker_id_at a i) (route_at a i)"

lemma route_at_set [simp]: "route_at (set_order_state st i a) j = route_at a j"
  by (simp add: route_at_def)

lemma route_at_note [simp]: "route_at (note_report i rid a) j = route_at a j"
  by (simp add: route_at_def)

lemma broker_id_at_set [simp]: "order_at a i \<noteq> None \<Longrightarrow> broker_id_at (set_order_state st i a) j = broker_id_at a j"
  by (auto simp: broker_id_at_def set_order_state_at)

lemma broker_id_at_note [simp]: "broker_id_at (note_report i rid a) j = broker_id_at a j"
  by (simp add: broker_id_at_def)

lemma filed_at_note [simp]: "filed_at sts (note_report i rid a) j \<longleftrightarrow> filed_at sts a j"
  by (simp add: filed_at_def)

lemma filed_at_present: "filed_at sts a i \<Longrightarrow> order_at a i \<noteq> None"
  by (auto simp: filed_at_def filed_def)

lemma filed_at_other: "filed_at sts a i \<Longrightarrow> j \<noteq> i \<Longrightarrow> filed_at sts' (set_order_state st i a) j \<longleftrightarrow> filed_at sts' a j"
  using filed_at_present [of sts a i] by (simp add: filed_at_def filed_other)

lemma filed_at_set: "filed_at sts a i \<Longrightarrow> filed_at {st} (set_order_state st i a) i"
  using filed_at_present [of sts a i] by (simp add: filed_at_def filed_set)

lemma tell_cancel_queued:
  assumes "queued p a e x" and "filed_at cancellable_states a i"
  shows "\<exists>p'. tell_cancel i p = (Inr (), p') \<and> queued p' (set_order_state CancelRequested i a) (e @ [CancelRequest (cancel_request_at a i)]) x"
proof -
  let ?m = "route_at a i"
  obtain os where os: "handle_silent order_handle (c_mailbox (pt_order p)) (c_actor (pt_order p)) = Some (a, map ToExecution os)"
    "c_mailbox (pt_execution p) @ os = e"
    and q: "c_mailbox (pt_account p) = []" "c_actor (pt_execution p) = x" "list_all (\<lambda>m. \<not> om_is_query m) (c_mailbox (pt_order p))"
    using assms(1) by (auto simp: queued_def)
  have route: "order_handle (GetRouteMetadata i) a = (Inr ([], Some (RouteMetadataAnswer ?m)), a)"
    using assms(2) by (auto simp: filed_at_def filed_def order_handle_def oa_route_metadata_def)
  let ?c = "(pt_order p)\<lparr>c_mailbox := [], c_actor := a, c_answers := c_answers (pt_order p) @ [Inr (RouteMetadataAnswer ?m)]\<rparr>"
  let ?p1 = "p\<lparr>pt_order := ?c, pt_execution := (pt_execution p)\<lparr>c_mailbox := e\<rparr>\<rparr>"
  have "ask_route_metadata i p = (Inr ?m, ?p1)"
    using ask_silent [OF os(1) q(3) route] os(2) by (simp add: ask_route_metadata_def ask_orders_def deliver_requests)
  then have "tell_cancel i p = (Inr (), tell_orders (CancelOrder (cancel_message i ?m)) ?p1)"
    by (simp add: tell_cancel_def mk_cancel_order_def route_checks_def checked_def cancel_message_def)
  moreover have "queued (tell_orders (CancelOrder (cancel_message i ?m)) ?p1) (set_order_state CancelRequested i a)
      (e @ [CancelRequest (cancel_request_at a i)]) x"
    using cancel_step assms(2) q
    by (simp add: queued_def tell_orders_def filed_at_def cancel_request_at_def tell_def mb_put_def)
  ultimately show ?thesis by blast
qed

lemma filed_at_after:
  assumes "distinct (i # is)" and "list_all (filed_at sts a) (i # is)"
  shows "list_all (filed_at sts (set_order_state st i a)) is"
proof -
  have "order_at a i \<noteq> None" using assms(2) filed_at_present [of sts a i] by simp
  with assms filed_at_other [of sts a i _ sts st] show ?thesis by (simp add: list_all_iff) metis
qed

lemma each_tell_cancel_queued:
  assumes "queued p a e x" and "distinct is" and "list_all (filed_at cancellable_states a) is"
  shows "\<exists>p'. each_order tell_cancel is p = (Inr (map (\<lambda>_. ()) is), p') \<and>
    queued p' (fold (set_order_state CancelRequested) is a) (e @ map (\<lambda>i. CancelRequest (cancel_request_at a i)) is) x"
  using assms
proof (induction "is" arbitrary: p a e)
  case Nil
  then show ?case by simp
next
  case (Cons i "is")
  let ?a = "set_order_state CancelRequested i a"
  from Cons.prems obtain p1 where p1: "tell_cancel i p = (Inr (), p1)" "queued p1 ?a (e @ [CancelRequest (cancel_request_at a i)]) x"
    using tell_cancel_queued by fastforce
  have same: "cancel_request_at ?a j = cancel_request_at a j" for j
    using Cons.prems(3) broker_id_at_set [OF filed_at_present [of cancellable_states a i]] by (simp add: cancel_request_at_def)
  from Cons.IH [OF p1(2)] filed_at_after [OF Cons.prems(2,3)] Cons.prems(2)
  obtain p2 where "each_order tell_cancel is p1 = (Inr (map (\<lambda>_. ()) is), p2)"
    "queued p2 (fold (set_order_state CancelRequested) is ?a)
       ((e @ [CancelRequest (cancel_request_at a i)]) @ map (\<lambda>j. CancelRequest (cancel_request_at ?a j)) is) x"
    by auto
  with p1(1) same show ?case by simp
qed

section \<open>Running the partition\<close>

lemma requests_answered:
  assumes "list_all2 (\<lambda>q r. xp_cancel x q = Inr r) qs rs"
  shows "handle_silent execution_handle (map CancelRequest qs) x = Some (x, rs)"
  using assms by (induction rule: list_all2_induct) (simp_all add: execution_handle_def)

lemma fold_tell: "fold (\<lambda>r. tell (f r)) rs c = c\<lparr>c_mailbox := c_mailbox c @ map f rs\<rparr>"
  by (induction rs arbitrary: c) (simp_all add: tell_def mb_put_def)

lemma run_queued:
  assumes "queued p a (map CancelRequest qs) x" and "list_all2 (\<lambda>q r. xp_cancel x q = Inr r) qs rs"
    and "handle_silent order_handle (map Report rs) a = Some (a', [])"
  shows "\<exists>p' c. run_partition p = (Inr (), p') \<and> quiet p' \<and> actors p' = (a', x, c)"
proof -
  obtain os where os: "handle_silent order_handle (c_mailbox (pt_order p)) (c_actor (pt_order p)) = Some (a, map ToExecution os)"
    "c_mailbox (pt_execution p) @ os = map CancelRequest qs"
    and q: "c_mailbox (pt_account p) = []" "c_actor (pt_execution p) = x"
    using assms(1) by (auto simp: queued_def)
  let ?p1 = "p\<lparr>pt_order := (pt_order p)\<lparr>c_mailbox := [], c_actor := a\<rparr>, pt_execution := (pt_execution p)\<lparr>c_mailbox := map CancelRequest qs\<rparr>\<rparr>"
  have 1: "run_orders p = (Inr (length (c_mailbox (pt_order p))), ?p1)"
    using process_silent [OF os(1)] os(2) by (simp add: run_orders_def deliver_requests)
  let ?p2 = "?p1\<lparr>pt_execution := (pt_execution p)\<lparr>c_mailbox := []\<rparr>, pt_order := (pt_order ?p1)\<lparr>c_mailbox := map Report rs\<rparr>\<rparr>"
  have "process_all execution_handle (\<lambda>m. False) (pt_execution ?p1) =
      (Inr (length qs), (pt_execution p)\<lparr>c_mailbox := [], c_actor := x\<rparr>, rs)"
    using process_silent [of execution_handle "pt_execution ?p1" x rs "\<lambda>m. False"] requests_answered [OF assms(2)] q(2) by simp
  moreover have "(pt_execution p)\<lparr>c_mailbox := [], c_actor := x\<rparr> = (pt_execution p)\<lparr>c_mailbox := []\<rparr>" using q(2) by simp
  ultimately have 2: "run_execution ?p1 = (Inr (length qs), ?p2)"
    by (simp add: run_execution_def fold_tell)
  let ?p3 = "?p2\<lparr>pt_order := (pt_order ?p1)\<lparr>c_mailbox := [], c_actor := a'\<rparr>\<rparr>"
  have 3: "run_orders ?p2 = (Inr (length rs), ?p3)"
    using process_silent [of order_handle "pt_order ?p2" a' "[]" om_is_query] assms(3) by (simp add: run_orders_def)
  have 4: "run_account ?p3 = (Inr 0, ?p3)"
    using process_all_empty [of "pt_account p" account_handle account_is_query] q(1) by (simp add: run_account_def)
  have "run_partition p = (Inr (), ?p3)" using 1 2 3 4 by (simp add: run_partition_def)
  moreover have "quiet ?p3" "fst (actors ?p3) = a'" "fst (snd (actors ?p3)) = x" using q by (simp_all add: quiet_def actors_def)
  ultimately show ?thesis by (metis prod.collapse)
qed

section \<open>The acknowledgements\<close>

definition cancel_all :: "order_id list \<Rightarrow> om_actor \<Rightarrow> om_actor" where
  "cancel_all is = fold (set_order_state CancelRequested) is"

definition acknowledge_one :: "order_id \<times> execution_report \<Rightarrow> om_actor \<Rightarrow> om_actor" where
  "acknowledge_one ir a = note_report (fst ir) (er_report_id (snd ir)) (set_order_state Cancelled (fst ir) a)"

lemma acknowledge_one_frame [simp]:
  "oa_routes (acknowledge_one ir a) = oa_routes a"
  "om_seen_report_ids (oa_manager (acknowledge_one ir a)) = insert (er_report_id (snd ir)) (om_seen_report_ids (oa_manager a))"
  by (simp_all add: acknowledge_one_def)

text \<open>Every order in the list has a report that acknowledges its cancellation, under an id not seen before.\<close>

definition all_acknowledged :: "om_actor \<Rightarrow> order_id list \<Rightarrow> execution_report list \<Rightarrow> bool" where
  "all_acknowledged a is rs \<longleftrightarrow> list_all2 (\<lambda>i r. acknowledges (broker_id_at a i) r) is rs \<and> distinct (map er_report_id rs) \<and>
     set (map er_report_id rs) \<inter> om_seen_report_ids (oa_manager a) = {}"

lemma reports_handled:
  assumes "distinct is" and "list_all (filed_at {CancelRequested} a) is" and "all_acknowledged a is rs"
  shows "handle_silent order_handle (map Report rs) a = Some (fold acknowledge_one (zip is rs) a, [])"
proof -
  have "list_all2 (\<lambda>i r. acknowledges (broker_id_at a i) r) is rs" using assms(3) by (simp add: all_acknowledged_def)
  then show ?thesis using assms
  proof (induction arbitrary: a rule: list_all2_induct)
    case Nil
    then show ?case by simp
  next
    case (Cons i "is" r rs)
    let ?a = "acknowledge_one (i, r) a"
    have i: "filed_at {CancelRequested} a i" "er_report_id r \<notin> om_seen_report_ids (oa_manager a)" "acknowledges (broker_id_at a i) r"
      using Cons.prems by (auto simp: all_acknowledged_def)
    have step: "order_handle (Report r) a = (Inr ([], None), ?a)"
      using acknowledge_step [of a i "broker_id_at a i" "route_at a i" r] i by (simp add: filed_at_def acknowledge_one_def)
    have same: "broker_id_at ?a j = broker_id_at a j" for j
      using i(1) filed_at_present by (simp add: acknowledge_one_def)
    have "list_all (filed_at {CancelRequested} ?a) is"
      using filed_at_after [OF Cons.prems(1,2)] by (simp add: acknowledge_one_def list_all_iff)
    moreover have "all_acknowledged ?a is rs" using Cons.prems(3) same by (auto simp: all_acknowledged_def)
    ultimately have "handle_silent order_handle (map Report rs) ?a = Some (fold acknowledge_one (zip is rs) ?a, [])"
      using Cons.IH [of ?a] Cons.prems(1) same by (simp add: all_acknowledged_def)
    with step show ?case by simp
  qed
qed

section \<open>The whole loop of one partition\<close>

definition order_state_at :: "om_actor \<Rightarrow> order_id \<Rightarrow> order_state option" where
  "order_state_at a i = map_option or_state (order_at a i)"

definition active_ids :: "om_actor \<Rightarrow> order_id list" where
  "active_ids a = map or_order_id (filter (\<lambda>r. \<not> terminal_state (or_state r)) (map snd (om_orders (oa_manager a))))"

text \<open>Everything of the order manager actor that matters here; reading its snapshot fills the cache of its fill ids.\<close>

definition same_orders :: "om_actor \<Rightarrow> om_actor \<Rightarrow> bool" where
  "same_orders a b \<longleftrightarrow> om_orders (oa_manager a) = om_orders (oa_manager b) \<and> om_machines (oa_manager a) = om_machines (oa_manager b) \<and>
     om_broker_to_order (oa_manager a) = om_broker_to_order (oa_manager b) \<and> oa_routes a = oa_routes b \<and>
     oa_account_id a = oa_account_id b \<and> om_seen_report_ids (oa_manager a) = om_seen_report_ids (oa_manager b)"

lemma same_orders_facts:
  assumes "same_orders a b"
  shows "filed_at sts a = filed_at sts b" "cancel_request_at a = cancel_request_at b"
    "all_acknowledged a = all_acknowledged b" "active_ids a = active_ids b"
  using assms
  by (simp_all add: fun_eq_iff same_orders_def filed_at_def filed_def cancel_request_at_def broker_id_at_def route_at_def all_acknowledged_def active_ids_def)

lemma ask_order_state_quiet:
  assumes "quiet p" "actors p = (a, x, c)"
  shows "\<exists>snap p' a'. ask_order_state p = (Inr snap, p') \<and> active_of_snapshot snap = active_ids a \<and> quiet p' \<and>
    actors p' = (a', x, c) \<and> same_orders a' a"
proof -
  obtain s m where s: "om_snapshot (oa_manager a) = (s, m)" by fastforce
  have "order_handle GetOrderManagerSnapshot a = (Inr ([], Some (OrderSnapshotAnswer s)), set_manager m a)"
    using s by (simp add: order_handle_def)
  from ask_orders_quiet [OF assms this] obtain p' where
    "ask_orders GetOrderManagerSnapshot p = (Inr (OrderSnapshotAnswer s), p')" "quiet p'" "actors p' = (set_manager m a, x, c)" by blast
  moreover have "active_of_snapshot s = active_ids a" "same_orders (set_manager m a) a"
    using s by (auto simp: om_snapshot_def active_of_snapshot_def active_ids_def same_orders_def set_manager_def Let_def split: prod.splits)
  ultimately show ?thesis by (auto simp: ask_order_state_def)
qed

text \<open>What cancelling and acknowledging all of them leaves.\<close>

lemma order_state_at_set:
  "order_at a i \<noteq> None \<Longrightarrow> order_state_at (set_order_state st i a) j = (if j = i then Some st else order_state_at a j)"
  by (auto simp: order_state_at_def set_order_state_at)

lemma order_at_cancel_all: "(order_at (cancel_all is a) j = None) = (order_at a j = None)"
  by (induction "is" arbitrary: a) (simp_all add: cancel_all_def set_order_state_at)

lemma cancel_all_Cons: "cancel_all (i # is) a = cancel_all is (set_order_state CancelRequested i a)"
  by (simp add: cancel_all_def)

lemma cancel_all_frame [simp]:
  "om_seen_report_ids (oa_manager (cancel_all is a)) = om_seen_report_ids (oa_manager a)" "route_at (cancel_all is a) j = route_at a j"
  by (induction "is" arbitrary: a) (simp_all add: cancel_all_def)

lemma broker_id_at_cancel_all: "list_all (\<lambda>i. order_at a i \<noteq> None) is \<Longrightarrow> broker_id_at (cancel_all is a) j = broker_id_at a j"
proof (induction "is" arbitrary: a)
  case (Cons i "is")
  have "list_all (\<lambda>k. order_at (set_order_state CancelRequested i a) k \<noteq> None) is" 
    using Cons.prems by (auto simp: list_all_iff set_order_state_at)
  from Cons.IH [OF this] Cons.prems show ?case by (simp add: cancel_all_Cons)
qed (simp add: cancel_all_def)

lemma filed_cancel_all_other:
  "j \<notin> set is \<Longrightarrow> list_all (filed_at sts a) is \<Longrightarrow> distinct is \<Longrightarrow> filed_at sts' (cancel_all is a) j \<longleftrightarrow> filed_at sts' a j"
proof (induction "is" arbitrary: a)
  case (Cons i "is")
  have "list_all (filed_at sts (set_order_state CancelRequested i a)) is" using filed_at_after [OF Cons.prems(3,2)] .
  from Cons.IH [OF _ this] Cons.prems show ?case
    using filed_at_other [of sts a i] by (simp add: cancel_all_Cons)
qed (simp add: cancel_all_def)

lemma filed_cancel_all:
  "distinct is \<Longrightarrow> list_all (filed_at sts a) is \<Longrightarrow> list_all (filed_at {CancelRequested} (cancel_all is a)) is"
proof (induction "is" arbitrary: a)
  case (Cons i "is")
  let ?a = "set_order_state CancelRequested i a"
  have rest: "list_all (filed_at sts ?a) is" using filed_at_after [OF Cons.prems] .
  have "filed_at {CancelRequested} ?a i" using Cons.prems(2) filed_at_set [of sts a i CancelRequested] by simp
  then have "filed_at {CancelRequested} (cancel_all is ?a) i"
    using filed_cancel_all_other [OF _ rest] Cons.prems(1) by simp
  with Cons.IH [OF _ rest] Cons.prems(1) show ?case by (simp add: cancel_all_Cons)
qed simp

lemma acknowledged_states:
  assumes "list_all2 P is rs" and "list_all (\<lambda>i. order_at a i \<noteq> None) is"
  shows "order_state_at (fold acknowledge_one (zip is rs) a) j = (if j \<in> set is then Some Cancelled else order_state_at a j)"
  using assms
proof (induction arbitrary: a rule: list_all2_induct)
  case (Cons i "is" r rs)
  have n: "order_state_at (acknowledge_one (i, r) a) k = (if k = i then Some Cancelled else order_state_at a k)" for k
    using Cons.prems order_state_at_set [of a i Cancelled] by (simp add: acknowledge_one_def order_state_at_def)
  have "list_all (\<lambda>k. order_at (acknowledge_one (i, r) a) k \<noteq> None) is"
    using Cons.prems by (auto simp: list_all_iff acknowledge_one_def set_order_state_at)
  from Cons.IH [OF this] n show ?case by simp
qed simp

text \<open>
  A partition whose active orders can all be cancelled: nothing waits in its mailboxes, each active order is filed with its
  route and broker id in a state that allows a cancellation, and the broker answers each request with a new report that
  acknowledges it.
\<close>

definition stoppable :: "partition \<Rightarrow> bool" where
  "stoppable p \<longleftrightarrow> quiet p \<and>
     (let a = c_actor (pt_order p); x = c_actor (pt_execution p); is = active_ids a in
      distinct is \<and> list_all (filed_at cancellable_states a) is \<and>
      (\<exists>rs. list_all2 (\<lambda>i r. xp_cancel x (cancel_request_at a i) = Inr r) is rs \<and> all_acknowledged a is rs))"

lemma run_cancelled:
  assumes q: "queued p (cancel_all is a) (map (\<lambda>i. CancelRequest (cancel_request_at a i)) is) x" and d: "distinct is"
    and f: "list_all (filed_at cancellable_states a) is"
    and r: "list_all2 (\<lambda>i r. xp_cancel x (cancel_request_at a i) = Inr r) is rs" and k: "all_acknowledged a is rs"
  shows "\<exists>p' c a'. run_partition p = (Inr (), p') \<and> quiet p' \<and> actors p' = (a', x, c) \<and>
    (\<forall>j. order_state_at a' j = (if j \<in> set is then Some Cancelled else order_state_at (cancel_all is a) j))"
proof -
  let ?a = "cancel_all is a"
  have present: "list_all (\<lambda>i. order_at a i \<noteq> None) is" using f filed_at_present by (auto simp: list_all_iff)
  have k': "all_acknowledged ?a is rs" using k broker_id_at_cancel_all [OF present] by (simp add: all_acknowledged_def)
  have h: "handle_silent order_handle (map Report rs) ?a = Some (fold acknowledge_one (zip is rs) ?a, [])"
    by (rule reports_handled [OF d filed_cancel_all [OF d f] k'])
  have r': "list_all2 (\<lambda>q r. xp_cancel x q = Inr r) (map (cancel_request_at a) is) rs" using r by (simp add: list_all2_map1)
  have q': "queued p ?a (map CancelRequest (map (cancel_request_at a) is)) x" using q by (simp add: comp_def)
  have "list_all (\<lambda>i. order_at ?a i \<noteq> None) is" using present by (simp add: list_all_iff order_at_cancel_all)
  from acknowledged_states [OF r this] run_queued [OF q' r' h] show ?thesis by blast
qed

lemma each_check_cancelled:
  assumes "quiet p" "actors p = (a, x, c)" and "list_all (\<lambda>i. order_state_at a i = Some Cancelled) is"
  shows "\<exists>p'. each_order check_cancelled is p = (Inr (map (\<lambda>i. [i]) is), p') \<and> quiet p' \<and> actors p' = (a, x, c)"
  using assms
proof (induction "is" arbitrary: p)
  case (Cons i "is")
  then obtain r where r: "get_order i (oa_manager a) = Inr r" "or_state r = Cancelled"
    by (auto simp: order_state_at_def get_order_def)
  from ask_queries_quiet(3) [OF Cons.prems(1,2) r(1)] obtain p1 where p1: "ask_order i p = (Inr r, p1)" "quiet p1" "actors p1 = (a, x, c)" by blast
  from Cons.IH [OF p1(2,3)] Cons.prems(3) obtain p2 where
    p2: "each_order check_cancelled is p1 = (Inr (map (\<lambda>i. [i]) is), p2)" "quiet p2" "actors p2 = (a, x, c)" by auto
  have "check_cancelled i p = (Inr [i], p1)" using p1(1) r(2) by (simp add: check_cancelled_def)
  with p2 show ?case by simp
qed simp

section \<open>All partitions\<close>

lemma each_partition_all:
  assumes "list_all2 (\<lambda>g ap. R g (snd ap)) gs ps"
    and "\<And>g p. g \<in> set gs \<Longrightarrow> R g p \<Longrightarrow> \<exists>p'. f (X g) p = (Inr (V g), p') \<and> R' g p'"
  shows "\<exists>ps'. each_partition f (map X gs) ps = (Inr (map V gs), ps') \<and> list_all2 (\<lambda>g ap. R' g (snd ap)) gs ps'"
  using assms
proof (induction rule: list_all2_induct)
  case (Cons g gs ap ps)
  obtain a p where ap: "ap = (a, p)" by (cases ap)
  obtain p' where "f (X g) p = (Inr (V g), p')" "R' g p'" using Cons.prems [of g p] Cons.hyps(1) ap by auto
  moreover obtain ps' where "each_partition f (map X gs) ps = (Inr (map V gs), ps')" "list_all2 (\<lambda>g ap. R' g (snd ap)) gs ps'"
    using Cons.IH Cons.prems by auto
  ultimately show ?case using ap by simp
qed simp

lemma in_partitions_all:
  assumes "list_all2 (\<lambda>g ap. R g (snd ap)) gs (se_partitions s)"
    and "\<And>g p. g \<in> set gs \<Longrightarrow> R g p \<Longrightarrow> \<exists>p'. f (X g) p = (Inr (V g), p') \<and> R' g p'"
  shows "\<exists>s'. in_partitions (each_partition f (map X gs)) s = (Inr (map V gs), s') \<and>
    list_all2 (\<lambda>g ap. R' g (snd ap)) gs (se_partitions s')"
  using each_partition_all [of R gs "se_partitions s" f X V R', OF assms(1)] assms(2) by (auto simp: in_partitions_def)

definition still :: "partition \<Rightarrow> partition \<Rightarrow> bool" where
  "still g p \<longleftrightarrow> quiet p \<and> same_orders (c_actor (pt_order p)) (c_actor (pt_order g)) \<and> c_actor (pt_execution p) = c_actor (pt_execution g)"

definition ids_of :: "partition \<Rightarrow> order_id list" where
  "ids_of p = active_ids (c_actor (pt_order p))"

definition asked :: "partition \<Rightarrow> partition \<Rightarrow> bool" where
  "asked g p \<longleftrightarrow> (\<exists>a. same_orders a (c_actor (pt_order g)) \<and>
     queued p (cancel_all (ids_of g) a) (map (\<lambda>i. CancelRequest (cancel_request_at a i)) (ids_of g)) (c_actor (pt_execution g)))"

definition stopped :: "partition \<Rightarrow> partition \<Rightarrow> bool" where
  "stopped g p \<longleftrightarrow> quiet p \<and> list_all (\<lambda>i. order_state_at (c_actor (pt_order p)) i = Some Cancelled) (ids_of g)"

lemma still_active:
  assumes "still g p"
  shows "\<exists>p'. partition_active_orders p = (Inr (ids_of g), p') \<and> still g p'"
proof -
  obtain a x c where a: "actors p = (a, x, c)" by (cases "actors p") auto
  with assms have s: "quiet p" "same_orders a (c_actor (pt_order g))" "x = c_actor (pt_execution g)" by (auto simp: still_def actors_def)
  from ask_order_state_quiet [OF s(1) a] obtain snap p' a' where "ask_order_state p = (Inr snap, p')"
    "active_of_snapshot snap = active_ids a" "quiet p'" "actors p' = (a', x, c)" "same_orders a' a" by blast
  with s same_orders_facts(4) [OF s(2)] show ?thesis
    by (auto simp: partition_active_orders_def ids_of_def still_def actors_def same_orders_def)
qed

lemma still_asked:
  assumes "stoppable g" and "still g p"
  shows "\<exists>p'. each_order tell_cancel (ids_of g) p = (Inr (map (\<lambda>_. ()) (ids_of g)), p') \<and> asked g p'"
proof -
  obtain a x c where a: "actors p = (a, x, c)" by (cases "actors p") auto
  with assms(2) have s: "quiet p" "same_orders a (c_actor (pt_order g))" "x = c_actor (pt_execution g)" by (auto simp: still_def actors_def)
  have "distinct (ids_of g)" "list_all (filed_at cancellable_states a) (ids_of g)"
    using assms(1) same_orders_facts(1) [OF s(2)] by (auto simp: stoppable_def ids_of_def Let_def)
  from each_tell_cancel_queued [OF quiet_queued [OF s(1) a] this] s show ?thesis
    by (auto simp: asked_def cancel_all_def)
qed

lemma asked_stopped:
  assumes "stoppable g" and "asked g p"
  shows "\<exists>p'. run_partition p = (Inr (), p') \<and> stopped g p'"
proof -
  obtain a where a: "same_orders a (c_actor (pt_order g))"
    "queued p (cancel_all (ids_of g) a) (map (\<lambda>i. CancelRequest (cancel_request_at a i)) (ids_of g)) (c_actor (pt_execution g))"
    using assms(2) by (auto simp: asked_def)
  note same = same_orders_facts [OF a(1)]
  obtain rs where g: "distinct (ids_of g)" "list_all (filed_at cancellable_states a) (ids_of g)"
    "list_all2 (\<lambda>i r. xp_cancel (c_actor (pt_execution g)) (cancel_request_at a i) = Inr r) (ids_of g) rs" "all_acknowledged a (ids_of g) rs"
    using assms(1) same by (auto simp: stoppable_def ids_of_def Let_def)
  from run_cancelled [OF a(2) g] show ?thesis by (force simp: stopped_def actors_def list_all_iff)
qed

lemma stopped_checked:
  assumes "stopped g p"
  shows "\<exists>p'. each_order check_cancelled (ids_of g) p = (Inr (map (\<lambda>i. [i]) (ids_of g)), p') \<and> stopped g p'"
proof -
  obtain a x c where a: "actors p = (a, x, c)" by (cases "actors p") auto
  with assms each_check_cancelled [of p a x c "ids_of g"] show ?thesis by (fastforce simp: stopped_def actors_def)
qed

section \<open>The session\<close>

definition order_actors :: "session \<Rightarrow> om_actor list" where
  "order_actors s = map (\<lambda>ap. c_actor (pt_order (snd ap))) (se_partitions s)"

lemma active_orders_still:
  assumes "list_all2 (\<lambda>g ap. still g (snd ap)) gs (se_partitions s)"
  shows "\<exists>s'. active_order_ids s = (Inr (map ids_of gs), s') \<and> list_all2 (\<lambda>g ap. still g (snd ap)) gs (se_partitions s')"
proof -
  have "replicate (length (se_partitions s)) () = map (\<lambda>_. ()) gs"
    using list_all2_lengthD [OF assms] by (simp add: map_replicate_const)
  moreover from in_partitions_all [OF assms, of "\<lambda>_. partition_active_orders" "\<lambda>_. ()" ids_of still] still_active
  obtain s' where "in_partitions (each_partition (\<lambda>_. partition_active_orders) (map (\<lambda>_. ()) gs)) s = (Inr (map ids_of gs), s')"
    "list_all2 (\<lambda>g ap. still g (snd ap)) gs (se_partitions s')" by blast
  ultimately show ?thesis by (auto simp: active_order_ids_def in_partitions_def)
qed

lemma cancel_all_stops:
  assumes "list_all stoppable gs" and "list_all2 (\<lambda>g ap. still g (snd ap)) gs (se_partitions s)"
  shows "\<exists>s'. cancel_all_active s = (Inr (concat (map ids_of gs), concat (map ids_of gs)), s') \<and>
    list_all2 (\<lambda>g ap. stopped g (snd ap)) gs (se_partitions s')"
proof -
  have g: "g \<in> set gs \<Longrightarrow> stoppable g" for g using assms(1) by (simp add: list_all_iff)
  from active_orders_still [OF assms(2)] obtain s1 where 1: "active_order_ids s = (Inr (map ids_of gs), s1)"
    "list_all2 (\<lambda>g ap. still g (snd ap)) gs (se_partitions s1)" by blast
  from in_partitions_all [OF 1(2), of "each_order tell_cancel" ids_of "\<lambda>g. map (\<lambda>_. ()) (ids_of g)" asked] still_asked g
  obtain s2 where 2: "in_partitions (each_partition (each_order tell_cancel) (map ids_of gs)) s1 = (Inr (map (\<lambda>g. map (\<lambda>_. ()) (ids_of g)) gs), s2)"
    "list_all2 (\<lambda>g ap. asked g (snd ap)) gs (se_partitions s2)" by blast
  from in_partitions_all [OF 2(2), of "\<lambda>_. run_partition" ids_of "\<lambda>_. ()" stopped] asked_stopped g
  obtain s3 where 3: "in_partitions (each_partition (\<lambda>_. run_partition) (map ids_of gs)) s2 = (Inr (map (\<lambda>_. ()) gs), s3)"
    "list_all2 (\<lambda>g ap. stopped g (snd ap)) gs (se_partitions s3)" by blast
  from in_partitions_all [OF 3(2), of "each_order check_cancelled" ids_of "\<lambda>g. map (\<lambda>i. [i]) (ids_of g)" stopped] stopped_checked
  obtain s4 where 4: "in_partitions (each_partition (each_order check_cancelled) (map ids_of gs)) s3 = (Inr (map (\<lambda>g. map (\<lambda>i. [i]) (ids_of g)) gs), s4)"
    "list_all2 (\<lambda>g ap. stopped g (snd ap)) gs (se_partitions s4)" by blast
  have "concat (concat (map (\<lambda>g. map (\<lambda>i. [i]) (ids_of g)) gs)) = concat (map ids_of gs)" by (induction gs) simp_all
  with 1(1) 2(1) 3(1) 4 show ?thesis by (simp add: cancel_all_active_def)
qed

text \<open>Reading account snapshots, saving them and writing the event leave the order managers alone.\<close>

lemma ask_snapshot_orders: "pt_order (snd (ask_snapshot p)) = pt_order p"
  by (auto simp: ask_snapshot_def ask_account_def obind_def split: prod.splits sum.splits)

lemma primary_snapshot_orders: "order_actors (snd (primary_snapshot s)) = order_actors s"
  using ask_snapshot_orders
  by (auto simp: primary_snapshot_def order_actors_def split: list.split prod.splits) (metis snd_conv)

lemma update_partition_orders:
  "map_of ps a = Some p \<Longrightarrow> pt_order p' = pt_order p \<Longrightarrow>
     map (\<lambda>ap. c_actor (pt_order (snd ap))) (AList.update a p' ps) = map (\<lambda>ap. c_actor (pt_order (snd ap))) ps"
  by (induction ps) (auto split: if_splits)

lemma record_loop_orders: "order_actors (snd (record_snapshots_loop w as s)) = order_actors s"
proof (induction "as" arbitrary: s)
  case (Cons a "as")
  show ?case
  proof (cases "map_of (se_partitions s) a")
    case None
    with Cons show ?thesis by simp
  next
    case (Some p)
    obtain r p' where r: "ask_snapshot p = (r, p')" by fastforce
    have "order_actors (s\<lparr>se_partitions := AList.update a p' (se_partitions s)\<rparr>) = order_actors s"
      using update_partition_orders [OF Some, of p'] ask_snapshot_orders [of p] r by (simp add: order_actors_def)
    moreover have "order_actors (t\<lparr>se_snapshot_stores := st\<rparr>) = order_actors t" for t st by (simp add: order_actors_def)
    ultimately show ?thesis
      using Cons r Some by (auto simp: Let_def obind_def split: option.split sum.split prod.splits) (metis snd_conv)+
  qed
qed simp

lemma write_event_orders: "order_actors (snd (write_event w k pl s)) = order_actors s"
  by (simp add: write_event_def write_runtime_event_def order_actors_def Let_def split: sum.split prod.split)

lemma stopped_orders:
  "list_all2 (\<lambda>g ap. stopped g (snd ap)) gs (se_partitions s) \<Longrightarrow>
     list_all2 (\<lambda>b a. list_all (\<lambda>i. order_state_at a i = Some Cancelled) (active_ids b)) (map (\<lambda>g. c_actor (pt_order g)) gs) (order_actors s)"
  by (auto simp: order_actors_def list_all2_map1 list_all2_map2 stopped_def ids_of_def elim: list_all2_mono)

lemma activate_stops:
  assumes "kc_cancel_active_orders c" and "list_all (\<lambda>ap. stoppable (snd ap)) (se_partitions s)"
  defines "ids \<equiv> concat (map active_ids (order_actors s))"
  shows "list_all2 (\<lambda>b a. list_all (\<lambda>i. order_state_at a i = Some Cancelled) (active_ids b))
      (order_actors s) (order_actors (snd (activate_kill_switch w c s)))"
    "fst (activate_kill_switch w c s) = Inr ev \<Longrightarrow> sv_ev_active_order_ids ev = ids \<and> sv_ev_cancelled_order_ids ev = ids"
proof -
  let ?gs = "map snd (se_partitions s)"
  let ?s0 = "s\<lparr>se_kill_switch := True\<rparr>"
  have gs: "list_all stoppable ?gs" using assms(2) by (simp add: list_all_iff)
  have "list_all2 (\<lambda>g ap. still g (snd ap)) ?gs (se_partitions ?s0)"
    using assms(2) by (auto simp: list_all2_map1 list_all_iff still_def stoppable_def same_orders_def intro!: list_all2_refl list.rel_refl_strong)
  from active_orders_still [OF this] obtain s1 where 1: "active_order_ids ?s0 = (Inr (map ids_of ?gs), s1)"
    "list_all2 (\<lambda>g ap. still g (snd ap)) ?gs (se_partitions s1)" by blast
  from cancel_all_stops [OF gs 1(2)] obtain s2 where 2: "cancel_all_active s1 = (Inr (concat (map ids_of ?gs), concat (map ids_of ?gs)), s2)"
    "list_all2 (\<lambda>g ap. stopped g (snd ap)) ?gs (se_partitions s2)" by blast
  have gs_actors: "map (\<lambda>g. c_actor (pt_order g)) ?gs = order_actors s" by (simp add: order_actors_def)
  have ids: "concat (map ids_of ?gs) = ids" by (simp add: ids_def ids_of_def order_actors_def comp_def)
  have frame: "order_actors (snd (activate_kill_switch w c s)) = order_actors s2"
    using 1(1) 2(1) assms(1) primary_snapshot_orders [of s2]
    by (auto simp: activate_kill_switch_def obind_def Let_def record_account_snapshots_def split: sum.split prod.split)
      (metis record_loop_orders write_event_orders snd_conv)+
  show "list_all2 (\<lambda>b a. list_all (\<lambda>i. order_state_at a i = Some Cancelled) (active_ids b))
      (order_actors s) (order_actors (snd (activate_kill_switch w c s)))"
    using stopped_orders [OF 2(2)] frame gs_actors by simp
  show "fst (activate_kill_switch w c s) = Inr ev \<Longrightarrow> sv_ev_active_order_ids ev = ids \<and> sv_ev_cancelled_order_ids ev = ids"
    using 1(1) 2(1) assms(1) ids by (auto simp: activate_kill_switch_def obind_def Let_def split: sum.splits prod.splits)
qed

text \<open>C19. Activating the kill switch cancels every active order of every account. When each active order is filed in a state that
  allows a cancellation, the mailboxes are empty and the broker acknowledges each cancel request with a new report, then
  afterwards every order that was active is cancelled in its order manager, whatever the snapshot stores or the event sink
  do after the cancellations, the order gate is shut, and an evidence that is returned lists exactly the orders that were
  active, as active and as cancelled.
\<close>

theorem kill_switch_cancels_active_orders:
  assumes "kc_cancel_active_orders c" and "list_all (\<lambda>ap. stoppable (snd ap)) (se_partitions s)"
    and "activate_kill_switch w c s = (r, t)"
  shows "list_all2 (\<lambda>b a. list_all (\<lambda>i. order_state_at a i = Some Cancelled) (active_ids b)) (order_actors s) (order_actors t) \<and>
    blocked_reason t = Some ''KILL_SWITCH_ACTIVE'' \<and>
    (\<forall>ev. r = Inr ev \<longrightarrow> sv_ev_active_order_ids ev = concat (map active_ids (order_actors s)) \<and>
       sv_ev_cancelled_order_ids ev = concat (map active_ids (order_actors s)))"
  using activate_stops [OF assms(1,2), of w] control_activate [of w c s] assms(3) by (auto simp: control_def blocked_reason_def)

section \<open>A cancellation that is already pending\<close>

definition pending_states :: "order_state set" where
  "pending_states = {CancelRequested, ReplaceRequested}"

lemma cancel_refused:
  assumes "filed pending_states a i b m"
  shows "order_handle (CancelOrder (cancel_message i m)) a = (Inl OrderTransitionError, a)"
proof -
  obtain r where r: "order_at a i = Some r" "or_order_id r = i" "or_broker_order_id r = Some b" "or_state r \<in> pending_states"
    "map_of (om_machines (oa_manager a)) i = Some (or_state r)" "oi_account_id (or_intent r) = Some (rm_account_id m)"
    "map_of (oa_routes a) i = Some m" "oa_account_id a = None \<or> oa_account_id a = Some (rm_account_id m)"
    using assms by (auto simp: filed_def)
  have "machine_apply EvCancelRequested (or_state r) = Inl OrderTransitionError"
    using r(4) by (auto simp: pending_states_def machine_apply_def duplicate_terminal_events_def transition_table_def dict_lookup_def)
  moreover have "command_target i (rm_account_id m) m ''cancel'' a = Inr r"
    using r by (auto simp: command_target_def get_order_def oa_route_metadata_def matches_route_def)
  ultimately show ?thesis
    using r by (simp add: order_handle_def handle_cancel_def cancel_message_def on_manager_def request_cancel_def apply_event_def set_manager_def)
qed

lemma process_all_sink_flag: "c_failure_sink (fst (snd (process_all h q c))) = c_failure_sink c"
proof (induction h q c rule: process_all.induct)
  case (1 h q c)
  have one: "c_failure_sink (snd (process_one h q c)) = c_failure_sink c"
    by (auto simp: process_one_def Let_def split: list.split prod.split sum.split)
  with 1 show ?case by (subst process_all.simps) (auto split: prod.split sum.split bool.split)
qed

lemma deliver_order: "pt_order (fold deliver outs p) = pt_order p"
proof (induction outs arbitrary: p)
  case (Cons out outs)
  then show ?case by (cases out) simp_all
qed simp

lemma ask_sink_flag: "c_failure_sink (fst (snd (ask h q m c))) = c_failure_sink c"
  using process_all_sink_flag [of h q "tell m c"] by (auto simp: ask_def Let_def tell_def split: prod.split sum.split)

lemma ask_orders_sink_flag: "c_failure_sink (pt_order (snd (ask_orders q p))) = c_failure_sink (pt_order p)"
  using ask_sink_flag [of order_handle om_is_query q "pt_order p"] by (auto simp: ask_orders_def deliver_order split: prod.split)

lemma tell_cancel_sink_flag: "c_failure_sink (pt_order (snd (tell_cancel i p))) = c_failure_sink (pt_order p)"
  using ask_orders_sink_flag [of "GetRouteMetadata i" p]
  by (auto simp: tell_cancel_def ask_route_metadata_def obind_def tell_orders_def tell_def split: prod.split sum.split)

lemma each_tell_sink_flag: "c_failure_sink (pt_order (snd (each_order tell_cancel is p))) = c_failure_sink (pt_order p)"
proof (induction "is" arbitrary: p)
  case (Cons i "is")
  obtain r p1 where r: "tell_cancel i p = (r, p1)" by fastforce
  obtain rs p2 where rs: "each_order tell_cancel is p1 = (rs, p2)" by fastforce
  have "c_failure_sink (pt_order p1) = c_failure_sink (pt_order p)" "c_failure_sink (pt_order p2) = c_failure_sink (pt_order p1)"
    using tell_cancel_sink_flag [of i p] Cons [of p1] r rs by simp_all
  with r rs show ?case by (simp add: obind_def split: sum.split)
qed simp

lemma each_order_append:
  "each_order f (xs @ ys) p = obind (each_order f xs p) (\<lambda>vs p1. obind (each_order f ys p1) (\<lambda>ws p2. (Inr (vs @ ws), p2)))"
  by (induction xs arbitrary: p) (auto simp: obind_def split: prod.split sum.split)

text \<open>A message whose handling raises, without a failure sink: the drain stops there.\<close>

lemma process_all_raises:
  assumes "c_mailbox c = m # ms" and "h m (c_actor c) = (Inl e, s)" and "\<not> c_failure_sink c"
  shows "\<exists>c'. process_all h q c = (Inl e, c', []) \<and> c_actor c' = s"
proof -
  have "\<exists>c1. process_one h q c = (Inl e, c1) \<and> c_actor c1 = s" using assms by (simp add: process_one_def)
  then obtain c1 where "process_one h q c = (Inl e, c1)" "c_actor c1 = s" by blast
  then show ?thesis by (subst process_all.simps) simp
qed

lemma pending_blocks_partition:
  assumes q: "queued p a e x" and sink: "\<not> c_failure_sink (pt_order p)" and d: "distinct (xs @ [i])"
    and xs: "list_all (filed_at cancellable_states a) xs" and i: "filed_at pending_states a i"
  shows "(\<exists>p'. each_order tell_cancel (xs @ i # ys) p = (Inl OrderTransitionError, p') \<and> c_actor (pt_order p') = cancel_all xs a) \<or>
    (\<exists>p' p'' vs. each_order tell_cancel (xs @ i # ys) p = (Inr vs, p') \<and>
       run_partition p' = (Inl OrderTransitionError, p'') \<and> c_actor (pt_order p'') = cancel_all xs a)"
proof -
  let ?a = "cancel_all xs a" and ?m = "route_at a i"
  let ?msg = "CancelOrder (cancel_message i ?m)"
  from each_tell_cancel_queued [OF q _ xs] d obtain p1 e1 where p1: "each_order tell_cancel xs p = (Inr (map (\<lambda>_. ()) xs), p1)"
    "queued p1 ?a e1 x" by (auto simp: cancel_all_def)
  have sink1: "\<not> c_failure_sink (pt_order p1)" using each_tell_sink_flag [of xs p] p1(1) sink by simp
  have "filed_at pending_states ?a i" using filed_cancel_all_other [OF _ xs] d i by simp
  then have i': "filed pending_states ?a i (broker_id_at ?a i) ?m" by (simp add: filed_at_def)
  obtain os where os: "handle_silent order_handle (c_mailbox (pt_order p1)) (c_actor (pt_order p1)) = Some (?a, map ToExecution os)"
    "list_all (\<lambda>m. \<not> om_is_query m) (c_mailbox (pt_order p1))"
    using p1(2) by (auto simp: queued_def)
  have "order_handle (GetRouteMetadata i) ?a = (Inr ([], Some (RouteMetadataAnswer ?m)), ?a)"
    using i' by (auto simp: filed_def order_handle_def oa_route_metadata_def)
  from ask_silent [OF os this] obtain p2 where p2: "ask_route_metadata i p1 = (Inr ?m, p2)" "c_mailbox (pt_order p2) = []"
    "c_actor (pt_order p2) = ?a" "c_failure_sink (pt_order p2) = c_failure_sink (pt_order p1)"
    by (auto simp: ask_route_metadata_def ask_orders_def deliver_order)
  let ?p3 = "tell_orders ?msg p2"
  have tell: "tell_cancel i p1 = (Inr (), ?p3)"
    using p2(1) by (simp add: tell_cancel_def mk_cancel_order_def route_checks_def checked_def cancel_message_def)
  have raises: "c_mailbox c = ?msg # ms \<Longrightarrow> c_actor c = ?a \<Longrightarrow> \<not> c_failure_sink c \<Longrightarrow>
      \<exists>c'. process_all order_handle om_is_query c = (Inl OrderTransitionError, c', []) \<and> c_actor c' = ?a" for c ms
    using process_all_raises [of c ?msg ms order_handle OrderTransitionError ?a om_is_query] cancel_refused [OF i'] by metis
  have p3: "c_mailbox (pt_order ?p3) = [?msg]" "c_actor (pt_order ?p3) = ?a" "\<not> c_failure_sink (pt_order ?p3)"
    using p2 sink1 by (simp_all add: tell_orders_def tell_def mb_put_def)
  show ?thesis
  proof (cases ys)
    case Nil
    from raises [OF p3] obtain c' where "process_all order_handle om_is_query (pt_order ?p3) = (Inl OrderTransitionError, c', [])" "c_actor c' = ?a" by blast
    then have "run_partition ?p3 = (Inl OrderTransitionError, ?p3\<lparr>pt_order := c'\<rparr>)" by (simp add: run_partition_def run_orders_def)
    with Nil p1(1) tell \<open>c_actor c' = ?a\<close> show ?thesis by (auto simp: each_order_append)
  next
    case (Cons j js)
    from raises [of "tell (GetRouteMetadata j) (pt_order ?p3)" "[GetRouteMetadata j]"] p3
    obtain c' where "process_all order_handle om_is_query (tell (GetRouteMetadata j) (pt_order ?p3)) = (Inl OrderTransitionError, c', [])"
      "c_actor c' = ?a" by (auto simp: tell_def mb_put_def)
    then have "tell_cancel j ?p3 = (Inl OrderTransitionError, ?p3\<lparr>pt_order := c'\<rparr>)"
      by (simp add: tell_cancel_def ask_route_metadata_def ask_orders_def ask_def Let_def)
    with Cons p1(1) tell \<open>c_actor c' = ?a\<close> show ?thesis by (auto simp: each_order_append)
  qed
qed

lemma cancel_all_states:
  assumes "distinct is" and "list_all (filed_at sts a) is"
  shows "order_state_at (cancel_all is a) j = (if j \<in> set is then Some CancelRequested else order_state_at a j)"
  using assms
proof (induction "is" arbitrary: a)
  case (Cons i "is")
  have "list_all (filed_at sts (set_order_state CancelRequested i a)) is" using filed_at_after [OF Cons.prems] .
  with Cons filed_at_present [of sts a i] show ?case by (auto simp: cancel_all_Cons order_state_at_set)
qed (simp add: cancel_all_def)

lemma single_active:
  assumes "se_partitions s = [(k, p)]" and "still g p" and "\<not> c_failure_sink (pt_order p)"
  shows "\<exists>s' p'. active_order_ids s = (Inr [ids_of g], s') \<and> se_partitions s' = [(k, p')] \<and> still g p' \<and>
    \<not> c_failure_sink (pt_order p') \<and> es_sequence (se_events s') = es_sequence (se_events s)"
proof -
  from still_active [OF assms(2)] obtain p' where p': "partition_active_orders p = (Inr (ids_of g), p')" "still g p'" by blast
  have "c_failure_sink (pt_order p') = c_failure_sink (pt_order p)"
    using p'(1) ask_orders_sink_flag [of GetOrderManagerSnapshot p]
    by (auto simp: partition_active_orders_def ask_order_state_def obind_def split: prod.splits sum.splits)
  with p' assms(1,3) show ?thesis by (auto simp: active_order_ids_def in_partitions_def)
qed

lemma activate_stops_at_pending:
  assumes "kc_cancel_active_orders c" and "se_partitions s = [(k, p)]" and "quiet p" and "\<not> c_failure_sink (pt_order p)"
    and "active_ids (c_actor (pt_order p)) = xs @ i # ys" and "distinct (xs @ [i])"
    and "list_all (filed_at cancellable_states (c_actor (pt_order p))) xs" and "filed_at pending_states (c_actor (pt_order p)) i"
  shows "\<exists>t a b. activate_kill_switch w c s = (Inl OrderTransitionError, t) \<and> order_actors t = [b] \<and>
    same_orders a (c_actor (pt_order p)) \<and> b = cancel_all xs a \<and> es_sequence (se_events t) = es_sequence (se_events s)"
proof -
  let ?s0 = "s\<lparr>se_kill_switch := True\<rparr>"
  have "still p p" using assms(3) by (simp add: still_def same_orders_def)
  with single_active [of ?s0 k p p] assms(2,4) obtain s1 p1 where 1: "active_order_ids ?s0 = (Inr [ids_of p], s1)"
    "se_partitions s1 = [(k, p1)]" "still p p1" "\<not> c_failure_sink (pt_order p1)" "es_sequence (se_events s1) = es_sequence (se_events s)"
    by auto
  from single_active [OF 1(2,3,4)] obtain s2 p2 where 2: "active_order_ids s1 = (Inr [ids_of p], s2)"
    "se_partitions s2 = [(k, p2)]" "still p p2" "\<not> c_failure_sink (pt_order p2)" "es_sequence (se_events s2) = es_sequence (se_events s1)" by blast
  obtain a x y where a: "actors p2 = (a, x, y)" by (cases "actors p2") auto
  with 2(3) have s: "quiet p2" "same_orders a (c_actor (pt_order p))" by (auto simp: still_def actors_def)
  note same = same_orders_facts [OF s(2)]
  have q: "queued p2 a [] x" by (rule quiet_queued [OF s(1) a])
  have ids: "ids_of p = xs @ i # ys" using assms(5) by (simp add: ids_of_def)
  have xs: "list_all (filed_at cancellable_states a) xs" and i: "filed_at pending_states a i" using assms(7,8) same(1) by simp_all
  have "\<exists>t p'. cancel_all_active s1 = (Inl OrderTransitionError, t) \<and> se_partitions t = [(k, p')] \<and>
      c_actor (pt_order p') = cancel_all xs a \<and> es_sequence (se_events t) = es_sequence (se_events s)"
    using pending_blocks_partition [OF q 2(4) assms(6) xs i, of ys] 2(1,2,5) 1(5) ids
    by (auto simp: cancel_all_active_def in_partitions_def)
  then obtain t p' where t: "cancel_all_active s1 = (Inl OrderTransitionError, t)" "se_partitions t = [(k, p')]"
    "c_actor (pt_order p') = cancel_all xs a" "es_sequence (se_events t) = es_sequence (se_events s)" by blast
  have "activate_kill_switch w c s = (Inl OrderTransitionError, t)" using 1(1) t(1) assms(1) by (simp add: activate_kill_switch_def)
  with t s(2) show ?thesis by (auto simp: order_actors_def)
qed


section \<open>Samples\<close>

definition sample_route :: "order_id \<Rightarrow> route_metadata" where
  "sample_route i = \<lparr>rm_broker_id = ''sim'', rm_account_id = ''A1'', rm_strategy_id = ''S1'', rm_client_order_id = i,
     rm_correlation_id = ''k'', rm_contributing_strategy_ids = [], rm_aggregation_decision_id = None\<rparr>"

definition sample_order :: "order_id \<times> order_state \<Rightarrow> order" where
  "sample_order o' = \<lparr>or_order_id = fst o', or_intent = \<lparr>oi_order_id = fst o', oi_instrument_id = ''GC'', oi_side = BUY,
     oi_quantity = 1, oi_account_id = Some ''A1'', oi_order_spec = default_order_spec, oi_intent_id = None\<rparr>,
     or_state = snd o', or_broker_order_id = Some (''b-'' @ fst o')\<rparr>"

definition sample_open_actor :: "(order_id \<times> order_state) list \<Rightarrow> om_actor" where
  "sample_open_actor os = (set_manager (om_init\<lparr>om_orders := map (\<lambda>o'. (fst o', sample_order o')) os, om_machines := os,
       om_broker_to_order := map (\<lambda>o'. (''b-'' @ fst o', fst o')) os\<rparr>) (oa_init (Some ''A1'') [] ''USD'' None))
     \<lparr>oa_routes := map (\<lambda>o'. (fst o', sample_route (fst o'))) os\<rparr>"

definition sample_open_session :: "(order_id \<times> order_state) list \<Rightarrow> session" where
  "sample_open_session os = (sample_session RUNNING PAPER_SIMULATED None)
     \<lparr>se_partitions := [(Some ''A1'', sample_partition\<lparr>pt_order := sample_cell (sample_open_actor os)\<rparr>)]\<rparr>"

definition sample_stop_command :: kill_switch_command where
  "sample_stop_command = \<lparr>kc_operator_id = ''ops'', kc_reason = ''stop'', kc_cancel_active_orders = True\<rparr>"

lemmas sample_open_defs = sample_open_session_def sample_open_actor_def sample_order_def sample_route_def sample_cell_def
  sample_partition_def set_manager_def oa_init_def om_init_def sample_session_def

lemma sample_stoppable: "stoppable (snd (hd (se_partitions (sample_open_session [(''o1'', Accepted), (''o2'', Sent)]))))"
proof -
  let ?os = "[(''o1'', Accepted), (''o2'', Sent)]"
  let ?a = "sample_open_actor ?os" and ?x = "simulated_port sample_adapter"
  let ?rs = "map (\<lambda>b. report_defaults (b @ ''-cancel-1'') b RepCancelled) [''b-o1'', ''b-o2'']"
  have ids: "active_ids ?a = [''o1'', ''o2'']" by code_simp
  have "list_all (filed_at cancellable_states ?a) [''o1'', ''o2'']"
    by (simp add: filed_at_def filed_def broker_id_at_def route_at_def sample_open_defs cancellable_states_def)
  moreover have "list_all2 (\<lambda>i r. xp_cancel ?x (cancel_request_at ?a i) = Inr r) [''o1'', ''o2''] ?rs" by code_simp
  moreover have "all_acknowledged ?a [''o1'', ''o2''] ?rs" by code_simp
  moreover have "quiet (sample_partition\<lparr>pt_order := sample_cell ?a\<rparr>)" "pt_order (sample_partition\<lparr>pt_order := sample_cell ?a\<rparr>) = sample_cell ?a"
    "c_actor (pt_execution (sample_partition\<lparr>pt_order := sample_cell ?a\<rparr>)) = ?x"
    by (simp_all add: quiet_def sample_partition_def sample_cell_def)
  ultimately show ?thesis using ids by (auto simp: stoppable_def sample_open_session_def sample_cell_def Let_def)
qed

theorem kill_switch_cancels_active_orders_witness:
  "\<exists>r t a. activate_kill_switch sample_world sample_stop_command (sample_open_session [(''o1'', Accepted), (''o2'', Sent)]) = (r, t) \<and>
     order_actors t = [a] \<and> order_state_at a ''o1'' = Some Cancelled \<and> order_state_at a ''o2'' = Some Cancelled"
proof -
  let ?s = "sample_open_session [(''o1'', Accepted), (''o2'', Sent)]"
  let ?a = "sample_open_actor [(''o1'', Accepted), (''o2'', Sent)]"
  obtain r t where rt: "activate_kill_switch sample_world sample_stop_command ?s = (r, t)" by fastforce
  have "list_all (\<lambda>ap. stoppable (snd ap)) (se_partitions ?s)" using sample_stoppable by (simp add: sample_open_session_def)
  from kill_switch_cancels_active_orders [OF _ this rt]
  have "list_all2 (\<lambda>b a. list_all (\<lambda>i. order_state_at a i = Some Cancelled) (active_ids b)) (order_actors ?s) (order_actors t)"
    by (simp add: sample_stop_command_def)
  moreover have "order_actors ?s = [?a]" by (simp add: order_actors_def sample_open_session_def sample_cell_def)
  moreover have "active_ids ?a = [''o1'', ''o2'']" by code_simp
  ultimately show ?thesis using rt by (auto simp: list_all2_Cons1)
qed


end
