(* ===== verification/Broker_Order_Map.thy ===== *)
theory Broker_Order_Map
  imports Event_Store
begin

text \<open>
  Broker identities of an order: the broker order map (\<open>execution/adapters/ibkr_order_map.py\<close>) with its four indexes, its
  snapshot and restore; the order-id allocator (\<open>execution/transports/ibkr_order_ids.py\<close>), whose file is a value that may be
  absent; and the symbol mapping (\<open>registry/broker_symbol_mapping.py\<close>).
\<close>

section \<open>Records\<close>

record broker_order_record =
  bo_internal_order_id :: order_id
  bo_client_order_id :: string
  bo_account_id :: account_id
  bo_strategy_id :: "strategy_id option"
  bo_submitted_at :: instant
  bo_ibkr_order_id :: "string option"
  bo_perm_id :: "string option"
  bo_status :: string
  bo_last_status_at :: "instant option"

definition mk_broker_order_record :: "broker_order_record \<Rightarrow> broker_order_record res" where
  [ctor_simps]: "mk_broker_order_record r = checked
     [(blank (bo_client_order_id r), ValueError ''client_order_id must not be empty''),
      (blank_opt (bo_ibkr_order_id r), ValueError ''ibkr_order_id must not be empty when provided''),
      (blank_opt (bo_perm_id r), ValueError ''perm_id must not be empty when provided''),
      (blank (bo_status r), ValueError ''status must not be empty'')] r"

section \<open>The map\<close>

record broker_order_map =
  bm_by_client :: "(string, broker_order_record) dict"
  bm_client_by_ibkr :: "(string, string) dict"
  bm_client_by_perm :: "(string, string) dict"
  bm_client_by_internal :: "(order_id, string) dict"

definition bm_empty :: broker_order_map where
  "bm_empty = \<lparr>bm_by_client = [], bm_client_by_ibkr = [], bm_client_by_perm = [], bm_client_by_internal = []\<rparr>"

text \<open>A key is free for a client when no other client has it.\<close>

definition key_taken :: "'k option \<Rightarrow> string \<Rightarrow> ('k, string) dict \<Rightarrow> bool" where
  "key_taken key client idx = (case key of None \<Rightarrow> False
     | Some k \<Rightarrow> (case map_of idx k of None \<Rightarrow> False | Some c \<Rightarrow> c \<noteq> client))"

text \<open>One index when a record replaces the existing one of its client: the old key goes if it differs, the new one is set.\<close>

definition reindex :: "'k option \<Rightarrow> 'k option \<Rightarrow> string \<Rightarrow> ('k, string) dict \<Rightarrow> ('k, string) dict" where
  "reindex old_key new_key client idx =
     (let idx1 = (case old_key of None \<Rightarrow> idx | Some k \<Rightarrow> if Some k = new_key then idx else AList.delete k idx)
      in case new_key of None \<Rightarrow> idx1 | Some k \<Rightarrow> AList.update k client idx1)"

definition bm_store :: "broker_order_record \<Rightarrow> broker_order_map \<Rightarrow> (broker_order_map, broker_order_record) outcome" where
  "bm_store r m =
     (let client = bo_client_order_id r; existing = map_of (bm_by_client m) client in
      if key_taken (Some (bo_internal_order_id r)) client (bm_client_by_internal m)
      then (Inl (ValueError ''internal_order_id already maps to a different client_order_id''), m)
      else if key_taken (bo_ibkr_order_id r) client (bm_client_by_ibkr m)
      then (Inl (ValueError ''ibkr_order_id already maps to a different client_order_id''), m)
      else if key_taken (bo_perm_id r) client (bm_client_by_perm m)
      then (Inl (ValueError ''perm_id already maps to a different client_order_id''), m)
      else (Inr r, \<lparr>bm_by_client = AList.update client r (bm_by_client m),
          bm_client_by_ibkr = reindex (Option.bind existing bo_ibkr_order_id) (bo_ibkr_order_id r) client (bm_client_by_ibkr m),
          bm_client_by_perm = reindex (Option.bind existing bo_perm_id) (bo_perm_id r) client (bm_client_by_perm m),
          bm_client_by_internal = reindex (map_option bo_internal_order_id existing) (Some (bo_internal_order_id r)) client
            (bm_client_by_internal m)\<rparr>))"

definition bm_lookup :: "('k \<Rightarrow> string) \<Rightarrow> 'k \<Rightarrow> ('k, string) dict \<Rightarrow> broker_order_map \<Rightarrow> broker_order_record res" where
  "bm_lookup text k idx m = (case map_of idx k of None \<Rightarrow> Inl (KeyError (text k))
     | Some c \<Rightarrow> (case map_of (bm_by_client m) c of None \<Rightarrow> Inl (KeyError c) | Some r \<Rightarrow> Inr r))"

definition by_client_order_id :: "string \<Rightarrow> broker_order_map \<Rightarrow> broker_order_record res" where
  "by_client_order_id c m =
     (if blank c then Inl (ValueError ''client_order_id must not be empty'')
      else case map_of (bm_by_client m) c of None \<Rightarrow> Inl (KeyError c) | Some r \<Rightarrow> Inr r)"

definition by_internal_order_id :: "order_id \<Rightarrow> broker_order_map \<Rightarrow> broker_order_record res" where
  "by_internal_order_id i m = bm_lookup (\<lambda>i. i) i (bm_client_by_internal m) m"

definition by_ibkr_order_id :: "string \<Rightarrow> broker_order_map \<Rightarrow> broker_order_record res" where
  "by_ibkr_order_id k m = bm_lookup (\<lambda>k. k) k (bm_client_by_ibkr m) m"

definition by_perm_id :: "string \<Rightarrow> broker_order_map \<Rightarrow> broker_order_record res" where
  "by_perm_id k m = bm_lookup (\<lambda>k. k) k (bm_client_by_perm m) m"

text \<open>\<open>dataclasses.replace\<close> runs the checks of the constructor again; then the record is stored.\<close>

definition store_replaced :: "broker_order_record \<Rightarrow> broker_order_map \<Rightarrow> (broker_order_map, broker_order_record) outcome" where
  "store_replaced r m = (case mk_broker_order_record r of Inl e \<Rightarrow> (Inl e, m) | Inr r' \<Rightarrow> bm_store r' m)"

definition record_pending_submission ::
  "order_id \<Rightarrow> string \<Rightarrow> account_id \<Rightarrow> strategy_id option \<Rightarrow> instant \<Rightarrow> broker_order_map \<Rightarrow> (broker_order_map, broker_order_record) outcome" where
  "record_pending_submission internal client account strategy submitted m =
     (case map_of (bm_by_client m) client of
        Some r \<Rightarrow>
          (if bo_internal_order_id r \<noteq> internal \<or> bo_account_id r \<noteq> account \<or> bo_strategy_id r \<noteq> strategy
           then (Inl (ValueError ''client_order_id already maps to a different order route''), m)
           else (Inr r, m))
      | None \<Rightarrow> store_replaced \<lparr>bo_internal_order_id = internal, bo_client_order_id = client, bo_account_id = account,
          bo_strategy_id = strategy, bo_submitted_at = submitted, bo_ibkr_order_id = None, bo_perm_id = None,
          bo_status = ''pending_submission'', bo_last_status_at = None\<rparr> m)"

definition attach_ibkr_order_id :: "string \<Rightarrow> string \<Rightarrow> broker_order_map \<Rightarrow> (broker_order_map, broker_order_record) outcome" where
  "attach_ibkr_order_id client k m = (case by_client_order_id client m of
     Inl e \<Rightarrow> (Inl e, m) | Inr r \<Rightarrow> store_replaced (r\<lparr>bo_ibkr_order_id := Some k\<rparr>) m)"

definition attach_perm_id :: "string \<Rightarrow> string \<Rightarrow> broker_order_map \<Rightarrow> (broker_order_map, broker_order_record) outcome" where
  "attach_perm_id k perm m = (case by_ibkr_order_id k m of
     Inl e \<Rightarrow> (Inl e, m) | Inr r \<Rightarrow> store_replaced (r\<lparr>bo_perm_id := Some perm\<rparr>) m)"

definition mark_status :: "string \<Rightarrow> string \<Rightarrow> instant \<Rightarrow> broker_order_map \<Rightarrow> (broker_order_map, broker_order_record) outcome" where
  "mark_status k status seen m = (case by_ibkr_order_id k m of
     Inl e \<Rightarrow> (Inl e, m) | Inr r \<Rightarrow> store_replaced (r\<lparr>bo_status := status, bo_last_status_at := Some seen\<rparr>) m)"

section \<open>Snapshot and restore\<close>

definition bm_snapshot :: "broker_order_map \<Rightarrow> broker_order_record list" where
  "bm_snapshot m = map (\<lambda>c. the (map_of (bm_by_client m) c)) (sort (map fst (bm_by_client m)))"

definition record_payload :: "broker_order_record \<Rightarrow> (string, json) dict" where
  "record_payload r =
     [(''internal_order_id'', JText (bo_internal_order_id r)), (''client_order_id'', JText (bo_client_order_id r)),
      (''account_id'', JText (bo_account_id r)), (''strategy_id'', optional_json (bo_strategy_id r)),
      (''submitted_at'', JTimeText (bo_submitted_at r)), (''ibkr_order_id'', optional_json (bo_ibkr_order_id r)),
      (''perm_id'', optional_json (bo_perm_id r)), (''status'', JText (bo_status r)),
      (''last_broker_status_at'', time_json (bo_last_status_at r))]"

definition snapshot_hash :: "((string, json) dict list \<Rightarrow> string) \<Rightarrow> broker_order_map \<Rightarrow> string" where
  "snapshot_hash hash m = hash (map record_payload (bm_snapshot m))"

definition required_str :: "(string, json) dict \<Rightarrow> string \<Rightarrow> string res" where
  "required_str d field = (case map_of d field of
     None \<Rightarrow> Inl (ValueError (field @ '' is required''))
   | Some (JText s) \<Rightarrow> if blank s then Inl (ValueError (field @ '' must not be empty'')) else Inr s
   | Some _ \<Rightarrow> Inl (TypeError (field @ '' must be a string'')))"

text \<open>\<open>_optional_str\<close>; an identifier type rejects blank texts with an error of its own.\<close>

definition optional_str :: "json \<Rightarrow> string \<Rightarrow> string option res" where
  "optional_str j field = (case j of
     JNull \<Rightarrow> Inr None
   | JText s \<Rightarrow> if blank s then Inl (ValueError (field @ '' must not be empty when provided'')) else Inr (Some s)
   | _ \<Rightarrow> Inl (TypeError (field @ '' must be a string when provided'')))"

definition coerce_datetime :: "json \<Rightarrow> string \<Rightarrow> instant res" where
  "coerce_datetime j field = (case j of
     JTimeText t \<Rightarrow> Inr t
   | JText s \<Rightarrow> Inl (ValueError ''Invalid isoformat string'')
   | _ \<Rightarrow> Inl (TypeError (field @ '' must be a datetime or ISO datetime string'')))"

definition required_datetime :: "(string, json) dict \<Rightarrow> string \<Rightarrow> instant res" where
  "required_datetime d field = (case map_of d field of
     None \<Rightarrow> Inl (ValueError (field @ '' is required'')) | Some j \<Rightarrow> coerce_datetime j field)"

definition optional_datetime :: "json \<Rightarrow> instant option res" where
  "optional_datetime j = (if j = JNull then Inr None
     else res_bind (coerce_datetime j ''last_broker_status_at'') (\<lambda>t. Inr (Some t)))"

definition coerce_record :: "(string, json) dict \<Rightarrow> broker_order_record res" where
  "coerce_record d =
     res_bind (required_str d ''internal_order_id'') (\<lambda>internal.
     res_bind (required_str d ''client_order_id'') (\<lambda>client.
     res_bind (required_str d ''account_id'') (\<lambda>account.
     res_bind (optional_str (json_get d ''strategy_id'') ''strategy_id'') (\<lambda>strategy.
     res_bind (required_datetime d ''submitted_at'') (\<lambda>submitted.
     res_bind (optional_str (json_get d ''ibkr_order_id'') ''ibkr_order_id'') (\<lambda>ibkr.
     res_bind (optional_str (json_get d ''perm_id'') ''perm_id'') (\<lambda>perm.
     res_bind (optional_str (json_get d ''status'') ''status'') (\<lambda>status.
     res_bind (optional_datetime (json_get d ''last_broker_status_at'')) (\<lambda>seen.
       mk_broker_order_record \<lparr>bo_internal_order_id = internal, bo_client_order_id = client, bo_account_id = account,
         bo_strategy_id = strategy, bo_submitted_at = submitted, bo_ibkr_order_id = ibkr, bo_perm_id = perm,
         bo_status = (case status of None \<Rightarrow> ''pending_submission'' | Some s \<Rightarrow> s), bo_last_status_at = seen\<rparr>)))))))))"

fun bm_restore :: "broker_order_record res list \<Rightarrow> broker_order_map \<Rightarrow> broker_order_map res" where
  "bm_restore [] m = Inr m"
| "bm_restore (x # xs) m = res_bind x (\<lambda>r. res_bind (fst (bm_store r m)) (\<lambda>_. bm_restore xs (snd (bm_store r m))))"

definition restore_records :: "broker_order_record list \<Rightarrow> broker_order_map res" where
  "restore_records rs = bm_restore (map Inr rs) bm_empty"

definition restore_payloads :: "(string, json) dict list \<Rightarrow> broker_order_map res" where
  "restore_payloads ds = bm_restore (map coerce_record ds) bm_empty"

section \<open>The indexes agree with the records\<close>

definition index_ok :: "(broker_order_record \<Rightarrow> 'k option) \<Rightarrow> (string, broker_order_record) dict \<Rightarrow> ('k, string) dict \<Rightarrow> bool" where
  "index_ok f recs idx \<longleftrightarrow> (\<forall>k c. map_of idx k = Some c \<longleftrightarrow> (\<exists>r. map_of recs c = Some r \<and> f r = Some k))"

definition records_ok :: "(string, broker_order_record) dict \<Rightarrow> bool" where
  "records_ok recs \<longleftrightarrow> distinct (map fst recs) \<and>
     (\<forall>c r. map_of recs c = Some r \<longrightarrow> bo_client_order_id r = c \<and> mk_broker_order_record r = Inr r)"

definition bm_ok :: "broker_order_map \<Rightarrow> bool" where
  "bm_ok m \<longleftrightarrow> records_ok (bm_by_client m) \<and> index_ok bo_ibkr_order_id (bm_by_client m) (bm_client_by_ibkr m) \<and>
     index_ok bo_perm_id (bm_by_client m) (bm_client_by_perm m) \<and>
     index_ok (\<lambda>r. Some (bo_internal_order_id r)) (bm_by_client m) (bm_client_by_internal m)"

lemma bm_ok_empty: "bm_ok bm_empty"
  by (simp add: bm_ok_def records_ok_def index_ok_def bm_empty_def)

lemma map_of_reindex:
  "map_of (reindex old new c idx) k =
     (if new = Some k then Some c else if old = Some k then None else map_of idx k)"
  by (auto simp: reindex_def update_conv' delete_conv' Let_def split: option.split)

lemma index_ok_update:
  assumes "index_ok f recs idx" and "\<not> key_taken (f r) c idx"
  shows "index_ok f (AList.update c r recs) (reindex (Option.bind (map_of recs c) f) (f r) c idx)"
proof -
  have free: "f r = Some k \<Longrightarrow> map_of idx k = None \<or> map_of idx k = Some c" for k
    using assms(2) by (auto simp: key_taken_def split: option.splits)
  have ok: "map_of idx k = Some d \<longleftrightarrow> (\<exists>r. map_of recs d = Some r \<and> f r = Some k)" for k d
    using assms(1) by (simp add: index_ok_def)
  have "map_of (reindex (Option.bind (map_of recs c) f) (f r) c idx) k = Some d \<longleftrightarrow>
      (\<exists>r'. map_of (AList.update c r recs) d = Some r' \<and> f r' = Some k)" for k d
  proof (cases "f r = Some k")
    case True
    with free [OF True] ok [of k d] ok [of k c] show ?thesis by (auto simp: map_of_reindex update_conv')
  next
    case False
    show ?thesis
    proof (cases "map_of idx k = Some c")
      case True
      with ok [of k c] have "Option.bind (map_of recs c) f = Some k" by auto
      with True False ok [of k d] show ?thesis by (auto simp: map_of_reindex update_conv')
    next
      case other: False
      with ok [of k c] have "Option.bind (map_of recs c) f \<noteq> Some k" by (cases "map_of recs c") auto
      with False other ok [of k d] show ?thesis by (auto simp: map_of_reindex update_conv')
    qed
  qed
  then show ?thesis by (simp add: index_ok_def)
qed

lemma records_ok_update:
  "records_ok recs \<Longrightarrow> mk_broker_order_record r = Inr r \<Longrightarrow> records_ok (AList.update (bo_client_order_id r) r recs)"
  by (auto simp: records_ok_def update_conv' distinct_update)

lemma bind_Some: "map_option g x = Option.bind x (\<lambda>y. Some (g y))"
  by (cases x) simp_all

lemma bm_store_ok:
  assumes "bm_ok m" and "mk_broker_order_record r = Inr r"
  shows "bm_ok (snd (bm_store r m))"
  using assms records_ok_update [of "bm_by_client m" r]
    index_ok_update [of bo_ibkr_order_id "bm_by_client m" "bm_client_by_ibkr m" r "bo_client_order_id r"]
    index_ok_update [of bo_perm_id "bm_by_client m" "bm_client_by_perm m" r "bo_client_order_id r"]
    index_ok_update [of "\<lambda>r. Some (bo_internal_order_id r)" "bm_by_client m" "bm_client_by_internal m" r "bo_client_order_id r"]
  by (simp add: bm_ok_def bm_store_def Let_def bind_Some)

lemma mk_broker_order_record_same: "mk_broker_order_record r = Inr r' \<Longrightarrow> r' = r"
  by (simp add: mk_broker_order_record_def)

lemma store_replaced_ok: "bm_ok m \<Longrightarrow> bm_ok (snd (store_replaced r m))"
  using bm_store_ok [of m r] mk_broker_order_record_same [of r] by (auto simp: store_replaced_def split: sum.split)

lemma bm_ops_ok:
  assumes "bm_ok m"
  shows "bm_ok (snd (record_pending_submission i c a st t m))" "bm_ok (snd (attach_ibkr_order_id c k m))"
    "bm_ok (snd (attach_perm_id k p m))" "bm_ok (snd (mark_status k status t m))"
  using assms store_replaced_ok
  by (auto simp: record_pending_submission_def attach_ibkr_order_id_def attach_perm_id_def mark_status_def split: option.split sum.split)

lemma bm_restore_ok:
  "bm_ok m \<Longrightarrow> list_all (\<lambda>i. \<forall>r. i = Inr r \<longrightarrow> mk_broker_order_record r = Inr r) items \<Longrightarrow> bm_restore items m = Inr m' \<Longrightarrow> bm_ok m'"
proof (induction items arbitrary: m)
  case (Cons i items)
  then obtain r where r: "i = Inr r" "mk_broker_order_record r = Inr r" "bm_restore items (snd (bm_store r m)) = Inr m'"
    by (auto simp: res_bind_Inr_iff)
  from Cons.IH [OF bm_store_ok [OF Cons.prems(1) r(2)] _ r(3)] Cons.prems(2) show ?case by simp
qed simp

section \<open>The map under any sequence of operations\<close>

datatype order_map_op =
    RecordPending order_id string account_id "strategy_id option" instant
  | AttachIbkr string string
  | AttachPerm string string
  | MarkStatus string string instant

fun order_map_step :: "broker_order_map \<Rightarrow> order_map_op \<Rightarrow> broker_order_map \<times> exn list" where
  "order_map_step m (RecordPending i c a st t) = (snd (record_pending_submission i c a st t m), [])"
| "order_map_step m (AttachIbkr c k) = (snd (attach_ibkr_order_id c k m), [])"
| "order_map_step m (AttachPerm k p) = (snd (attach_perm_id k p m), [])"
| "order_map_step m (MarkStatus k s t) = (snd (mark_status k s t m), [])"

interpretation order_map: kept_by_steps order_map_step bm_ok "\<lambda>_. True"
proof
  fix m op
  assume "bm_ok m"
  then show "bm_ok (fst (order_map_step m op))" by (cases op) (simp_all add: bm_ops_ok)
qed

lemma index_lookup:
  assumes "index_ok f (bm_by_client m) idx"
  shows "bm_lookup text k idx m = Inr r \<longleftrightarrow> (\<exists>c. map_of (bm_by_client m) c = Some r \<and> f r = Some k)"
    "bm_lookup text k idx m = Inl e \<longleftrightarrow> e = KeyError (text k) \<and> (\<forall>c r. map_of (bm_by_client m) c = Some r \<longrightarrow> f r \<noteq> Some k)"
proof -
  have ok: "map_of idx k = Some c \<longleftrightarrow> (\<exists>r. map_of (bm_by_client m) c = Some r \<and> f r = Some k)" for c
    using assms by (simp add: index_ok_def)
  show "bm_lookup text k idx m = Inr r \<longleftrightarrow> (\<exists>c. map_of (bm_by_client m) c = Some r \<and> f r = Some k)"
  proof (cases "map_of idx k")
    case None
    with ok show ?thesis by (auto simp: bm_lookup_def)
  next
    case (Some c)
    with ok [of c] obtain r' where r': "map_of (bm_by_client m) c = Some r'" "f r' = Some k" by blast
    have "map_of (bm_by_client m) d = Some r \<Longrightarrow> f r = Some k \<Longrightarrow> d = c" for d using ok [of d] Some by auto
    with Some r' show ?thesis by (auto simp: bm_lookup_def)
  qed
  show "bm_lookup text k idx m = Inl e \<longleftrightarrow> e = KeyError (text k) \<and> (\<forall>c r. map_of (bm_by_client m) c = Some r \<longrightarrow> f r \<noteq> Some k)"
    using ok by (auto simp: bm_lookup_def split: option.split)
qed

text \<open>C35. The four indexes of the broker order map always agree with its records. After any sequence of submissions, broker ids,
  permanent ids and statuses, also refused ones, a lookup by broker id, permanent id or internal id finds a record exactly
  when that record carries the id, at most one record does, and a failed lookup names the id asked for: no index points to
  a record that has moved on.
\<close>

theorem order_map_indexes_agree:
  "let m = fst (run_steps order_map_step bm_empty ops); recs = map_of (bm_by_client m) in
     (\<forall>k r. by_ibkr_order_id k m = Inr r \<longleftrightarrow> (\<exists>c. recs c = Some r \<and> bo_ibkr_order_id r = Some k)) \<and>
     (\<forall>k r. by_perm_id k m = Inr r \<longleftrightarrow> (\<exists>c. recs c = Some r \<and> bo_perm_id r = Some k)) \<and>
     (\<forall>i r. by_internal_order_id i m = Inr r \<longleftrightarrow> (\<exists>c. recs c = Some r \<and> bo_internal_order_id r = i)) \<and>
     (\<forall>k e. by_ibkr_order_id k m = Inl e \<longleftrightarrow> e = KeyError k \<and> (\<forall>r. by_ibkr_order_id k m \<noteq> Inr r))"
proof -
  have ok: "bm_ok (fst (run_steps order_map_step bm_empty ops))"
    using order_map.run_keeps [OF bm_ok_empty, of ops] by (simp add: list_all_iff)
  note l = index_lookup [of bo_ibkr_order_id] index_lookup [of bo_perm_id] index_lookup [of "\<lambda>r. Some (bo_internal_order_id r)"]
  from ok show ?thesis
    by (auto simp: Let_def bm_ok_def by_ibkr_order_id_def by_perm_id_def by_internal_order_id_def l)
qed

section \<open>Snapshots restore the map\<close>

lemma index_unique:
  assumes "index_ok f recs idx" and "map_of recs c = Some r" and "map_of recs d = Some r'" and "f r = Some k" and "f r' = Some k"
  shows "c = d"
proof -
  have "map_of idx k = Some c" "map_of idx k = Some d" using assms by (auto simp: index_ok_def)
  then show ?thesis by simp
qed

lemma index_free:
  assumes ok: "index_ok f recs idx" and sub: "index_ok f recs0 idx0" and r: "map_of recs c = Some r"
    and part: "map_of recs0 = map_of recs |` S" and c: "c \<notin> S"
  shows "\<not> key_taken (f r) c idx0"
proof
  assume "key_taken (f r) c idx0"
  then obtain k d where k: "f r = Some k" "map_of idx0 k = Some d" "d \<noteq> c"
    by (auto simp: key_taken_def split: option.splits)
  then obtain r' where r': "map_of recs0 d = Some r'" "f r' = Some k" using sub by (auto simp: index_ok_def)
  then have "map_of recs d = Some r'" using part by (auto simp: restrict_map_def split: if_splits)
  from index_unique [OF ok r this k(1) r'(2)] k(3) show False by simp
qed

lemma restore_all:
  assumes ok: "bm_ok m"
  shows "distinct cs \<Longrightarrow> set cs \<subseteq> dom (map_of (bm_by_client m)) \<Longrightarrow> set cs \<inter> S = {} \<Longrightarrow> bm_ok m0 \<Longrightarrow>
    map_of (bm_by_client m0) = map_of (bm_by_client m) |` S \<Longrightarrow>
    \<exists>m'. bm_restore (map (\<lambda>c. Inr (the (map_of (bm_by_client m) c))) cs) m0 = Inr m' \<and> bm_ok m' \<and>
      map_of (bm_by_client m') = map_of (bm_by_client m) |` (S \<union> set cs)"
proof (induction cs arbitrary: S m0)
  case (Cons c cs)
  let ?M = "map_of (bm_by_client m)"
  obtain r where r: "?M c = Some r" using Cons.prems(2) by auto
  have rc: "bo_client_order_id r = c" "mk_broker_order_record r = Inr r" using ok r by (auto simp: bm_ok_def records_ok_def)
  have free: "index_ok f (bm_by_client m) idx \<Longrightarrow> index_ok f (bm_by_client m0) idx0 \<Longrightarrow> \<not> key_taken (f r) c idx0" for f :: "_ \<Rightarrow> string option" and idx idx0
    using index_free [OF _ _ r Cons.prems(5)] Cons.prems(3) by auto
  have fst: "fst (bm_store r m0) = Inr r" and upd: "bm_by_client (snd (bm_store r m0)) = AList.update c r (bm_by_client m0)"
    using free ok Cons.prems(4) rc(1) by (auto simp: bm_store_def Let_def bm_ok_def)
  have "map_of (bm_by_client (snd (bm_store r m0))) = ?M |` (insert c S)"
    using Cons.prems(5) r by (auto simp: upd update_conv' restrict_map_def)
  then obtain m' where "bm_restore (map (\<lambda>c. Inr (the (?M c))) cs) (snd (bm_store r m0)) = Inr m'" "bm_ok m'"
    "map_of (bm_by_client m') = ?M |` (insert c S \<union> set cs)"
    using Cons.IH [of "insert c S" "snd (bm_store r m0)"] Cons.prems bm_store_ok [OF Cons.prems(4) rc(2)] by auto
  with r fst show ?case by simp
qed simp

lemma same_lookups:
  assumes "bm_ok m" "bm_ok m'" "map_of (bm_by_client m') = map_of (bm_by_client m)"
  shows "by_client_order_id k m' = by_client_order_id k m" "by_internal_order_id k m' = by_internal_order_id k m"
    "by_ibkr_order_id k m' = by_ibkr_order_id k m" "by_perm_id k m' = by_perm_id k m"
proof -
  have same: "bm_lookup t j idx' m' = bm_lookup t j idx m"
    if i: "index_ok f (bm_by_client m) idx" "index_ok f (bm_by_client m') idx'" for f and idx idx' :: "(string, string) dict" and t j
  proof (cases "bm_lookup t j idx m")
    case (Inl e)
    then have "bm_lookup t j idx' m' = Inl e" using index_lookup(2) [OF i(1)] index_lookup(2) [OF i(2)] assms(3) by simp
    with Inl show ?thesis by simp
  next
    case (Inr r)
    then have "bm_lookup t j idx' m' = Inr r" using index_lookup(1) [OF i(1)] index_lookup(1) [OF i(2)] assms(3) by simp
    with Inr show ?thesis by simp
  qed
  show "by_client_order_id k m' = by_client_order_id k m" by (simp add: by_client_order_id_def assms(3))
  show "by_internal_order_id k m' = by_internal_order_id k m" "by_ibkr_order_id k m' = by_ibkr_order_id k m" "by_perm_id k m' = by_perm_id k m"
    using assms(1,2) by (auto simp: bm_ok_def by_internal_order_id_def by_ibkr_order_id_def by_perm_id_def intro!: same)
qed

text \<open>Identifier types reject blank texts, so every record carries identifiers that are not blank.\<close>

definition ids_named :: "broker_order_record \<Rightarrow> bool" where
  "ids_named r \<longleftrightarrow> \<not> blank (bo_internal_order_id r) \<and> \<not> blank (bo_account_id r) \<and> \<not> blank_opt (bo_strategy_id r)"

definition all_named :: "broker_order_map \<Rightarrow> bool" where
  "all_named m \<longleftrightarrow> bm_ok m \<and> (\<forall>c r. map_of (bm_by_client m) c = Some r \<longrightarrow> ids_named r)"

fun op_named :: "order_map_op \<Rightarrow> bool" where
  "op_named (RecordPending i c a st t) = (\<not> blank i \<and> \<not> blank a \<and> \<not> blank_opt st)"
| "op_named _ = True"

lemma store_named: "all_named m \<Longrightarrow> ids_named r \<Longrightarrow> all_named (snd (store_replaced r m))"
  using store_replaced_ok [of m r] mk_broker_order_record_same [of r]
  by (auto simp: all_named_def store_replaced_def bm_store_def Let_def update_conv' split: sum.split if_splits)

lemma lookup_named: "all_named m \<Longrightarrow> by_ibkr_order_id k m = Inr r \<Longrightarrow> ids_named r"
  by (auto simp: all_named_def by_ibkr_order_id_def bm_lookup_def split: option.splits)

lemma client_named: "all_named m \<Longrightarrow> by_client_order_id c m = Inr r \<Longrightarrow> ids_named r"
  by (auto simp: all_named_def by_client_order_id_def split: option.splits if_splits)

interpretation named_map: kept_by_steps order_map_step all_named op_named
proof
  fix m op
  assume m: "all_named m" and "op_named op"
  note step = store_named [OF m] lookup_named [OF m] client_named [OF m]
  show "all_named (fst (order_map_step m op))"
  proof (cases op)
    case (RecordPending i c a st t)
    with m \<open>op_named op\<close> show ?thesis
      by (auto simp: record_pending_submission_def ids_named_def split: option.split intro!: step(1))
  next
    case (AttachIbkr c k)
    with m step(3) [of c] show ?thesis
      by (auto simp: attach_ibkr_order_id_def ids_named_def split: sum.split intro!: step(1))
  next
    case (AttachPerm k p)
    with m step(2) show ?thesis
      by (auto simp: attach_perm_id_def ids_named_def split: sum.split intro!: step(1))
  next
    case (MarkStatus k s t)
    with m step(2) show ?thesis
      by (auto simp: mark_status_def ids_named_def split: sum.split intro!: step(1))
  qed
qed

lemma optional_str_back: "\<not> blank_opt v \<Longrightarrow> optional_str (optional_json v) field = Inr v"
  by (cases v) (simp_all add: optional_str_def optional_json_def blank_opt_def)

lemma coerce_payload:
  assumes "mk_broker_order_record r = Inr r" and "ids_named r"
  shows "coerce_record (record_payload r) = Inr r"
proof -
  have d: "\<not> blank (bo_client_order_id r)" "\<not> blank_opt (bo_ibkr_order_id r)" "\<not> blank_opt (bo_perm_id r)" "\<not> blank (bo_status r)"
    using assms(1) by (simp_all add: mk_broker_order_record_def split: if_splits)
  have "optional_datetime (time_json (bo_last_status_at r)) = Inr (bo_last_status_at r)"
    by (cases "bo_last_status_at r") (simp_all add: optional_datetime_def time_json_def coerce_datetime_def)
  moreover have "optional_str (JText (bo_status r)) ''status'' = Inr (Some (bo_status r))" using d(4) by (simp add: optional_str_def)
  ultimately have "coerce_record (record_payload r) = mk_broker_order_record
      \<lparr>bo_internal_order_id = bo_internal_order_id r, bo_client_order_id = bo_client_order_id r, bo_account_id = bo_account_id r,
       bo_strategy_id = bo_strategy_id r, bo_submitted_at = bo_submitted_at r, bo_ibkr_order_id = bo_ibkr_order_id r,
       bo_perm_id = bo_perm_id r, bo_status = bo_status r, bo_last_status_at = bo_last_status_at r\<rparr>"
    using assms(2) d optional_str_back
    by (simp add: coerce_record_def record_payload_def required_str_def required_datetime_def coerce_datetime_def json_get_def
        dict_lookup_def ids_named_def)
  moreover have rec: "\<lparr>bo_internal_order_id = bo_internal_order_id r, bo_client_order_id = bo_client_order_id r, bo_account_id = bo_account_id r,
      bo_strategy_id = bo_strategy_id r, bo_submitted_at = bo_submitted_at r, bo_ibkr_order_id = bo_ibkr_order_id r,
      bo_perm_id = bo_perm_id r, bo_status = bo_status r, bo_last_status_at = bo_last_status_at r\<rparr> = r" by simp
  ultimately show ?thesis by (simp only: rec assms(1))
qed

text \<open>A snapshot restores the broker order map. After any sequence of operations on named orders, the snapshot, read back either
  as records or from its JSON payload, restores a map that answers every lookup by client, internal, broker and permanent
  id as the original does, errors included, and takes the same snapshot again.
\<close>

theorem order_map_restored:
  assumes "list_all op_named ops"
  defines "m \<equiv> fst (run_steps order_map_step bm_empty ops)"
  shows "\<exists>m'. restore_records (bm_snapshot m) = Inr m' \<and> restore_payloads (map record_payload (bm_snapshot m)) = Inr m' \<and>
    bm_snapshot m' = bm_snapshot m \<and>
    (\<forall>k. by_client_order_id k m' = by_client_order_id k m \<and> by_internal_order_id k m' = by_internal_order_id k m \<and>
         by_ibkr_order_id k m' = by_ibkr_order_id k m \<and> by_perm_id k m' = by_perm_id k m)"
proof -
  have named: "all_named m"
    using named_map.run_keeps [of bm_empty ops] assms(1) bm_ok_empty by (simp add: m_def all_named_def bm_empty_def)
  then have ok: "bm_ok m" by (simp add: all_named_def)
  let ?cs = "sort (map fst (bm_by_client m))" and ?M = "map_of (bm_by_client m)"
  have cs: "distinct ?cs" "set ?cs = dom ?M" using ok by (auto simp: bm_ok_def records_ok_def dom_map_of_conv_image_fst)
  have full: "?M |` dom ?M = ?M" by (auto simp: restrict_map_def fun_eq_iff dom_def)
  obtain m' where m': "bm_restore (map (\<lambda>c. Inr (the (?M c))) ?cs) bm_empty = Inr m'" "bm_ok m'" "map_of (bm_by_client m') = ?M"
    using restore_all [OF ok cs(1), of "{}" bm_empty] bm_ok_empty cs(2) full by (auto simp: bm_empty_def)
  have "coerce_record (record_payload r) = Inr r" if rm: "r \<in> set (bm_snapshot m)" for r
  proof -
    obtain c where "c \<in> set ?cs" "r = the (?M c)" using rm unfolding bm_snapshot_def set_map by blast
    then have "?M c = Some r" using cs(2) by (auto simp del: set_sort)
    with named show ?thesis by (auto simp: all_named_def bm_ok_def records_ok_def intro!: coerce_payload)
  qed
  then have payloads: "map coerce_record (map record_payload (bm_snapshot m)) = map Inr (bm_snapshot m)" by simp
  have items: "(map Inr (bm_snapshot m) :: broker_order_record res list) = map (\<lambda>c. Inr (the (?M c))) ?cs" by (simp add: bm_snapshot_def comp_def)
  have "set (map fst (bm_by_client m')) = set (map fst (bm_by_client m))" "distinct (map fst (bm_by_client m'))"
    using m'(2,3) by (auto simp: bm_ok_def records_ok_def simp flip: dom_map_of_conv_image_fst)
  then have "sort (map fst (bm_by_client m')) = ?cs"
    using ok by (intro sorted_distinct_set_unique) (auto simp: bm_ok_def records_ok_def)
  then have "bm_snapshot m' = bm_snapshot m" using m'(3) by (simp add: bm_snapshot_def)
  moreover have "restore_records (bm_snapshot m) = Inr m'" using m'(1) items by (simp add: restore_records_def)
  moreover have "restore_payloads (map record_payload (bm_snapshot m)) = Inr m'"
    using m'(1) items payloads unfolding restore_payloads_def by metis
  ultimately show ?thesis using same_lookups [OF ok m'(2,3)] by blast
qed

theorem order_map_restored_witness:
  "\<exists>m'. let m = fst (run_steps order_map_step bm_empty
        [RecordPending ''o1'' ''c1'' ''A1'' None 5, AttachIbkr ''c1'' ''17'', RecordPending ''o2'' ''c2'' ''A1'' None 6, AttachIbkr ''c2'' ''17''])
     in restore_payloads (map record_payload (bm_snapshot m)) = Inr m' \<and> by_ibkr_order_id ''17'' m' = by_ibkr_order_id ''17'' m"
proof -
  have "list_all op_named [RecordPending ''o1'' ''c1'' ''A1'' None 5, AttachIbkr ''c1'' ''17'', RecordPending ''o2'' ''c2'' ''A1'' None 6,
      AttachIbkr ''c2'' ''17'']" by code_simp
  from order_map_restored [OF this] show ?thesis by (auto simp: Let_def)
qed

section \<open>Order ids (\<open>ibkr_order_ids.py\<close>)\<close>

text \<open>The cursors in memory, whether there is a store path, and the file under it, if it exists.\<close>

record id_allocator =
  al_next_ids :: "(int, int) dict"
  al_store :: bool
  al_file :: "(int, int) dict option"

definition open_allocator :: "bool \<Rightarrow> (int, int) dict option \<Rightarrow> id_allocator" where
  "open_allocator store file = \<lparr>al_next_ids = (if store then (case file of None \<Rightarrow> [] | Some d \<Rightarrow> d) else []),
     al_store = store, al_file = file\<rparr>"

text \<open>The file holds the cursors sorted by client id.\<close>

definition al_persist :: "id_allocator \<Rightarrow> id_allocator" where
  "al_persist a = (if al_store a then a\<lparr>al_file := Some (sort_key fst (al_next_ids a))\<rparr> else a)"

definition reconcile_next_valid_id :: "int \<Rightarrow> int \<Rightarrow> id_allocator \<Rightarrow> (id_allocator, unit) outcome" where
  "reconcile_next_valid_id client broker_next a =
     (if client \<le> 0 then (Inl (ValueError ''client_id must be positive''), a)
      else if broker_next \<le> 0 then (Inl (ValueError ''broker_next_valid_id must be positive''), a)
      else (Inr (), al_persist (a\<lparr>al_next_ids := AList.update client
          (max (dict_lookup (al_next_ids a) client 0) broker_next) (al_next_ids a)\<rparr>)))"

definition allocate :: "int \<Rightarrow> id_allocator \<Rightarrow> (id_allocator, int) outcome" where
  "allocate client a =
     (if client \<le> 0 then (Inl (ValueError ''client_id must be positive''), a)
      else case map_of (al_next_ids a) client of
        None \<Rightarrow> (Inl (RuntimeError ''IBKR nextValidId has not been reconciled for client_id''), a)
      | Some n \<Rightarrow> (Inr n, al_persist (a\<lparr>al_next_ids := AList.update client (n + 1) (al_next_ids a)\<rparr>)))"

definition next_id :: "int \<Rightarrow> id_allocator \<Rightarrow> int option res" where
  "next_id client a = (if client \<le> 0 then Inl (ValueError ''client_id must be positive'') else Inr (map_of (al_next_ids a) client))"

definition al_snapshot :: "id_allocator \<Rightarrow> (int, int) dict" where
  "al_snapshot a = sort_key fst (al_next_ids a)"

datatype allocator_op = Allocate int | ReconcileNext int int | Restart

text \<open>A restart opens a new allocator on the same file; the outputs are the ids handed out, with their client.\<close>

fun allocator_step :: "id_allocator \<Rightarrow> allocator_op \<Rightarrow> id_allocator \<times> (int \<times> int) list" where
  "allocator_step a (Allocate client) = (case allocate client a of (Inl e, a') \<Rightarrow> (a', []) | (Inr n, a') \<Rightarrow> (a', [(client, n)]))"
| "allocator_step a (ReconcileNext client n) = (snd (reconcile_next_valid_id client n a), [])"
| "allocator_step a Restart = (open_allocator (al_store a) (al_file a), [])"

text \<open>The file never lags behind memory.\<close>

definition al_durable :: "id_allocator \<Rightarrow> bool" where
  "al_durable a \<longleftrightarrow> al_store a \<and> distinct (map fst (al_next_ids a)) \<and>
     map_of (case al_file a of None \<Rightarrow> [] | Some d \<Rightarrow> d) = map_of (al_next_ids a) \<and>
     distinct (map fst (case al_file a of None \<Rightarrow> [] | Some d \<Rightarrow> d))"

lemma map_of_sort_fst: "distinct (map fst d) \<Longrightarrow> map_of (sort_key fst d) = map_of d"
proof (rule map_of_eqI)
  assume d: "distinct (map fst d)"
  show "set (map fst (sort_key fst d)) = set (map fst d)" by simp
  have s: "distinct (map fst (sort_key fst d))"
    using d by (simp add: distinct_map inj_on_def)
  then show "\<forall>x \<in> set (map fst (sort_key fst d)). map_of (sort_key fst d) x = map_of d x"
    using d s by (auto simp: map_of_eq_Some_iff)
qed

lemma persist_durable:
  assumes "al_store a" and "distinct (map fst (al_next_ids a))"
  shows "al_durable (al_persist a)" "al_next_ids (al_persist a) = al_next_ids a"
  using assms map_of_sort_fst [of "al_next_ids a"]
  by (simp_all add: al_durable_def al_persist_def distinct_map inj_on_def)

definition cursor :: "id_allocator \<Rightarrow> int \<Rightarrow> int option" where
  "cursor a = map_of (al_next_ids a)"

lemma set_cursor:
  assumes "al_durable a"
  shows "al_durable (al_persist (a\<lparr>al_next_ids := AList.update c k (al_next_ids a)\<rparr>))"
    "cursor (al_persist (a\<lparr>al_next_ids := AList.update c k (al_next_ids a)\<rparr>)) = (cursor a)(c \<mapsto> k)"
  using persist_durable [of "a\<lparr>al_next_ids := AList.update c k (al_next_ids a)\<rparr>"] assms
  by (auto simp: al_durable_def cursor_def update_conv' distinct_update)

lemma allocate_cursor:
  "allocate client a = (r, a1) \<Longrightarrow> al_durable a \<Longrightarrow> al_durable a1 \<and>
     (case r of Inl e \<Rightarrow> a1 = a | Inr n \<Rightarrow> cursor a client = Some n \<and> cursor a1 = (cursor a)(client \<mapsto> n + 1))"
  using set_cursor [of a client] by (auto simp: allocate_def cursor_def [of a] split: option.splits if_splits)

lemma reconcile_cursor:
  "al_durable a \<Longrightarrow> al_durable (snd (reconcile_next_valid_id client n a)) \<and>
     (cursor a c = Some k \<longrightarrow> (\<exists>k1 \<ge> k. cursor (snd (reconcile_next_valid_id client n a)) c = Some k1))"
  using set_cursor [of a client "max (dict_lookup (al_next_ids a) client 0) n"]
  by (auto simp: reconcile_next_valid_id_def cursor_def [of a] dict_lookup_def)

lemma restart_cursor: "al_durable a \<Longrightarrow> al_durable (fst (allocator_step a Restart)) \<and> cursor (fst (allocator_step a Restart)) = cursor a"
  by (auto simp: al_durable_def open_allocator_def cursor_def split: option.splits)

definition ids_for :: "int \<Rightarrow> (int \<times> int) list \<Rightarrow> int list" where
  "ids_for client outs = map snd (filter (\<lambda>p. fst p = client) outs)"

lemma ids_for_append [simp]: "ids_for c (xs @ ys) = ids_for c xs @ ids_for c ys"
  by (simp add: ids_for_def)

lemma allocator_step_effect:
  assumes "al_durable a"
  shows "al_durable (fst (allocator_step a op)) \<and>
    (\<forall>n \<in> set (ids_for c (snd (allocator_step a op))). cursor a c = Some n \<and> cursor (fst (allocator_step a op)) c = Some (n + 1)) \<and>
    length (ids_for c (snd (allocator_step a op))) \<le> 1 \<and>
    (\<forall>k. cursor a c = Some k \<longrightarrow> (\<exists>k1 \<ge> k. cursor (fst (allocator_step a op)) c = Some k1))"
proof (cases op)
  case (Allocate client)
  obtain r a1 where r: "allocate client a = (r, a1)" by fastforce
  from allocate_cursor [OF r assms] show ?thesis
    by (cases r) (auto simp: Allocate r ids_for_def)
next
  case (ReconcileNext client n)
  with reconcile_cursor [OF assms, of client n c] show ?thesis by (simp add: ids_for_def)
next
  case Restart
  with restart_cursor [OF assms] show ?thesis by (auto simp: ids_for_def)
qed

lemma allocator_run:
  "al_durable a \<Longrightarrow> sorted_wrt (<) (ids_for c (snd (run_steps allocator_step a ops))) \<and>
     (\<forall>n \<in> set (ids_for c (snd (run_steps allocator_step a ops))). \<forall>k. cursor a c = Some k \<longrightarrow> k \<le> n)"
proof (induction ops arbitrary: a)
  case (Cons op ops)
  let ?a = "fst (allocator_step a op)" and ?now = "ids_for c (snd (allocator_step a op))"
  let ?later = "ids_for c (snd (run_steps allocator_step ?a ops))"
  note e = allocator_step_effect [OF Cons.prems, of op c]
  have IH: "sorted_wrt (<) ?later" "\<And>n k. n \<in> set ?later \<Longrightarrow> cursor ?a c = Some k \<Longrightarrow> k \<le> n"
    using Cons.IH [of ?a] e by blast+
  have "sorted_wrt (<) ?now" using e by (cases ?now) simp_all
  moreover have "n < n'" if "n \<in> set ?now" "n' \<in> set ?later" for n n'
    using e that(1) IH(2) [OF that(2), of "n + 1"] by fastforce
  moreover have "k \<le> n" if n: "n \<in> set (?now @ ?later)" and k: "cursor a c = Some k" for n k
  proof (cases "n \<in> set ?now")
    case True
    with e k show ?thesis by fastforce
  next
    case False
    then have "n \<in> set ?later" using n by simp
    moreover obtain k1 where "k \<le> k1" "cursor ?a c = Some k1" using e k by blast
    ultimately show ?thesis using IH(2) [of n k1] by simp
  qed
  ultimately show ?case using IH(1) by (auto simp: sorted_wrt_append)
qed (simp add: ids_for_def)

text \<open>C36. With a store path no broker order id is ever handed out twice. Over any sequence of allocations for any clients, next-valid
  ids reported by the gateway, high or low, and restarts on the same file, the ids a client gets strictly increase, and
  none is below the cursor the file held at the beginning.
\<close>

theorem order_ids_strictly_increase:
  assumes "distinct (map fst (case file of None \<Rightarrow> [] | Some d \<Rightarrow> d))"
  shows "sorted_wrt (<) (ids_for client (snd (run_steps allocator_step (open_allocator True file) ops))) \<and>
    (\<forall>n \<in> set (ids_for client (snd (run_steps allocator_step (open_allocator True file) ops))).
       \<forall>k. map_of (case file of None \<Rightarrow> [] | Some d \<Rightarrow> d) client = Some k \<longrightarrow> k \<le> n)"
proof -
  have "al_durable (open_allocator True file)" using assms by (auto simp: al_durable_def open_allocator_def split: option.splits)
  from allocator_run [OF this, of client ops] show ?thesis by (simp add: cursor_def open_allocator_def)
qed

theorem order_ids_strictly_increase_witness:
  "sorted_wrt (<) (ids_for 7 (snd (run_steps allocator_step (open_allocator True (Some [(7, 40)]))
     [Allocate 7, ReconcileNext 7 3, Allocate 7, Restart, Allocate 7])))"
  using order_ids_strictly_increase [of "Some [(7, 40)]" 7 "[Allocate 7, ReconcileNext 7 3, Allocate 7, Restart, Allocate 7]"] by simp

section \<open>Broker symbols (\<open>registry/broker_symbol_mapping.py\<close>)\<close>

record symbol_mapping =
  sy_broker_id :: broker_id
  sy_to_broker :: "(instrument_id, string) dict"
  sy_to_instrument :: "(string, instrument_id) dict"

definition normalize_broker_symbol :: "string \<Rightarrow> string res" where
  "normalize_broker_symbol s = (if strip s = [] then Inl (ValueError ''broker_symbol must not be empty'') else Inr (strip s))"

definition register_symbol :: "instrument_id \<Rightarrow> string \<Rightarrow> symbol_mapping \<Rightarrow> (symbol_mapping, unit) outcome" where
  "register_symbol i symbol sy = (case normalize_broker_symbol symbol of
     Inl e \<Rightarrow> (Inl e, sy)
   | Inr s \<Rightarrow>
      (if key_taken (Some s) i (sy_to_instrument sy) then (Inl (ValueError ''broker symbol already mapped''), sy)
       else if key_taken (Some i) s (sy_to_broker sy) then (Inl (ValueError ''instrument already mapped to broker symbol''), sy)
       else (Inr (), sy\<lparr>sy_to_broker := AList.update i s (sy_to_broker sy), sy_to_instrument := AList.update s i (sy_to_instrument sy)\<rparr>)))"

definition to_broker_symbol :: "symbol_mapping \<Rightarrow> instrument_id \<Rightarrow> string res" where
  "to_broker_symbol sy i = (case map_of (sy_to_broker sy) i of None \<Rightarrow> Inl (KeyError i) | Some s \<Rightarrow> Inr s)"

definition to_instrument_id :: "symbol_mapping \<Rightarrow> string \<Rightarrow> instrument_id res" where
  "to_instrument_id sy symbol = res_bind (normalize_broker_symbol symbol) (\<lambda>s.
     case map_of (sy_to_instrument sy) s of None \<Rightarrow> Inl (KeyError symbol) | Some i \<Rightarrow> Inr i)"

definition is_supported_symbol :: "symbol_mapping \<Rightarrow> string \<Rightarrow> bool res" where
  "is_supported_symbol sy symbol = res_bind (normalize_broker_symbol symbol) (\<lambda>s. Inr (map_of (sy_to_instrument sy) s \<noteq> None))"

text \<open>Registering keeps the two directions inverse to each other.\<close>

definition symbols_inverse :: "symbol_mapping \<Rightarrow> bool" where
  "symbols_inverse sy \<longleftrightarrow> (\<forall>i s. map_of (sy_to_broker sy) i = Some s \<longleftrightarrow> map_of (sy_to_instrument sy) s = Some i)"

lemma register_keeps_inverse: "symbols_inverse sy \<Longrightarrow> symbols_inverse (snd (register_symbol i s sy))"
  by (auto simp: symbols_inverse_def register_symbol_def key_taken_def update_conv' split: sum.split option.splits if_splits)
    (metis option.distinct(1) option.inject)+

lemma to_instrument_of_broker_symbol:
  assumes "symbols_inverse sy" and "to_broker_symbol sy i = Inr s" and "strip s = s" and "s \<noteq> []"
  shows "to_instrument_id sy s = Inr i"
  using assms by (auto simp: symbols_inverse_def to_broker_symbol_def to_instrument_id_def normalize_broker_symbol_def split: option.splits)

end
