(* ===== verification/Broker_Callbacks.thy ===== *)
theory Broker_Callbacks
  imports Broker_Order_Map Broker_Boundary Reconciliation
begin

text \<open>
  The Interactive Brokers execution adapter (\<open>execution/adapters/ibkr_*.py\<close>, \<open>broker_callback_quarantine.py\<close>) and the payloads of its
  transport: the normalization of order-status, open-order, execution, commission, position and account-summary
  callbacks, the quarantine of callbacks that cannot be resolved yet, the mapping of order intents to requests, and the actor-facing
  \<open>broker_execution_adapter.py\<close>.

  The objects the components share (audit events, quarantine, order map) are fields of one state. The clock is an
  argument of each callback. The TWS client library is outside the model; what it hands to the callbacks is the payload.
\<close>

section \<open>Payloads (\<open>ibkr_tws_order_execution_transport.py\<close>)\<close>

record order_status_payload =
  osp_report_id :: string
  osp_broker_order_id :: string
  osp_status :: string
  osp_perm_id :: "string option"

definition mk_order_status_payload :: "order_status_payload \<Rightarrow> order_status_payload res" where
  [ctor_simps]: "mk_order_status_payload p = checked
     [(blank (osp_report_id p), ValueError ''report_id must not be empty''),
      (blank (osp_broker_order_id p), ValueError ''broker_order_id must not be empty''),
      (blank (osp_status p), ValueError ''status must not be empty''),
      (blank_opt (osp_perm_id p), ValueError ''perm_id must not be empty when provided'')] p"

record open_order_payload =
  oop_report_id :: string
  oop_broker_order_id :: string
  oop_client_order_id :: "string option"
  oop_perm_id :: "string option"
  oop_status :: "string option"
  oop_broker_symbol :: "string option"
  oop_side :: "string option"
  oop_quantity :: "decimal option"

definition mk_open_order_payload :: "open_order_payload \<Rightarrow> open_order_payload res" where
  [ctor_simps]: "mk_open_order_payload p = checked
     [(blank (oop_report_id p), ValueError ''report_id must not be empty''),
      (blank (oop_broker_order_id p), ValueError ''broker_order_id must not be empty''),
      (blank_opt (oop_client_order_id p), ValueError ''client_order_id must not be empty when provided''),
      (blank_opt (oop_perm_id p), ValueError ''perm_id must not be empty when provided''),
      (blank_opt (oop_status p), ValueError ''status must not be empty when provided''),
      (blank_opt (oop_broker_symbol p), ValueError ''broker_symbol must not be empty when provided''),
      (blank_opt (oop_side p), ValueError ''side must not be empty when provided''),
      (nonpositive (oop_quantity p), ValueError ''quantity must be positive when provided'')] p"

record position_payload =
  pop_account_id :: string
  pop_broker_symbol :: string
  pop_quantity :: decimal

definition mk_position_payload :: "position_payload \<Rightarrow> position_payload res" where
  [ctor_simps]: "mk_position_payload p = checked
     [(blank (pop_account_id p), ValueError ''account_id must not be empty''),
      (blank (pop_broker_symbol p), ValueError ''broker_symbol must not be empty'')] p"

record summary_payload =
  sup_account_id :: string
  sup_tag :: string
  sup_value :: decimal
  sup_currency :: string

definition mk_summary_payload :: "summary_payload \<Rightarrow> summary_payload res" where
  [ctor_simps]: "mk_summary_payload p = checked
     [(blank (sup_account_id p), ValueError ''account_id must not be empty''),
      (blank (sup_tag p), ValueError ''tag must not be empty''),
      (blank (sup_currency p), ValueError ''currency must not be empty'')] p"

record execution_payload =
  xep_report_id :: string
  xep_broker_order_id :: string
  xep_execution_id :: string
  xep_filled_quantity :: decimal
  xep_fill_price :: decimal
  xep_account_id :: "string option"
  xep_fill_time :: "instant option"

definition mk_execution_payload :: "execution_payload \<Rightarrow> execution_payload res" where
  [ctor_simps]: "mk_execution_payload p = checked
     [(blank (xep_report_id p), ValueError ''report_id must not be empty''),
      (blank (xep_broker_order_id p), ValueError ''broker_order_id must not be empty''),
      (blank (xep_execution_id p), ValueError ''execution_id must not be empty''),
      (xep_filled_quantity p \<le> 0, ValueError ''filled_quantity must be positive''),
      (xep_fill_price p < 0, ValueError ''fill_price must be non-negative''),
      (blank_opt (xep_account_id p), ValueError ''account_id must not be empty when provided'')] p"

record commission_payload =
  cmp_execution_id :: string
  cmp_commission :: decimal
  cmp_currency :: string

definition mk_commission_payload :: "commission_payload \<Rightarrow> commission_payload res" where
  [ctor_simps]: "mk_commission_payload p = checked
     [(blank (cmp_execution_id p), ValueError ''execution_id must not be empty''),
      (cmp_commission p < 0, ValueError ''commission must be non-negative''),
      (blank (cmp_currency p), ValueError ''currency must not be empty'')] p"

section \<open>Audit events and reports (\<open>ibkr_callback_types.py\<close>)\<close>

record callback_event =
  ke_kind :: string
  ke_report_id :: "string option"
  ke_broker_order_id :: "string option"
  ke_execution_id :: "string option"
  ke_reason :: "string option"
  ke_expected_account :: "string option"
  ke_observed_account :: "string option"

definition mk_callback_event :: "callback_event \<Rightarrow> callback_event res" where
  [ctor_simps]: "mk_callback_event e = checked
     [(blank (ke_kind e), ValueError ''kind must not be empty''),
      (blank_opt (ke_report_id e), ValueError ''report_id must not be empty when provided''),
      (blank_opt (ke_broker_order_id e), ValueError ''broker_order_id must not be empty when provided''),
      (blank_opt (ke_execution_id e), ValueError ''execution_id must not be empty when provided''),
      (blank_opt (ke_reason e), ValueError ''reason must not be empty when provided''),
      (blank_opt (ke_expected_account e), ValueError ''expected_account must not be empty when provided''),
      (blank_opt (ke_observed_account e), ValueError ''observed_account must not be empty when provided'')] e"

definition mask_account_id :: "string \<Rightarrow> string" where
  "mask_account_id a =
     (if length a \<le> 4 then replicate (length a) (CHR ''*'')
      else take 2 a @ replicate (max (length a - 4) 1) (CHR ''*'') @ drop (length a - 2) a)"

record ibkr_report =
  ir_report_id :: string
  ir_broker_order_id :: string
  ir_status :: report_status
  ir_filled_quantity :: decimal
  ir_fill_price :: "decimal option"
  ir_fill_id :: "string option"
  ir_commission :: decimal
  ir_fill_time :: "instant option"

definition normalize_ibkr_report :: "ibkr_report \<Rightarrow> execution_report res" where
  "normalize_ibkr_report r = mk_execution_report
     ((report_defaults (ir_report_id r) (ir_broker_order_id r) (normalize_broker_status (ir_status r)))
        \<lparr>er_filled_quantity := ir_filled_quantity r, er_fill_price := ir_fill_price r, er_fill_id := ir_fill_id r,
         er_commission := ir_commission r, er_fill_time := ir_fill_time r\<rparr>)"

section \<open>The state of the normalizers\<close>

type_synonym execution_key = "string \<times> string \<times> string"
type_synonym status_key = "string \<times> string \<times> string option"
type_synonym open_order_key =
  "string \<times> string option \<times> string option \<times> string option \<times> string option \<times> string option \<times> decimal option"

record callback_state =
  cs_account_id :: string
  cs_symbols :: symbol_mapping
  cs_order_map :: "broker_order_map option"
  cs_events :: "callback_event list"
  cs_q_executions :: "execution_payload list"
  cs_q_open_orders :: "open_order_payload list"
  cs_q_statuses :: "order_status_payload list"
  cs_q_positions :: "position_payload list"
  cs_q_summaries :: "summary_payload list"
  cs_seen_statuses :: "status_key set"
  cs_seen_open_orders :: "open_order_key set"
  cs_open_orders :: "(order_id, order_snapshot) dict"
  cs_pending :: "(execution_key, execution_payload) dict"
  cs_commissions :: "(string, commission_payload) dict"
  cs_completed :: "execution_key set"
  cs_positions :: "(instrument_id, position_snapshot) dict"
  cs_cash :: "(string, cash_snapshot) dict"

definition callbacks_init :: "string \<Rightarrow> symbol_mapping \<Rightarrow> broker_order_map option \<Rightarrow> callback_state res" where
  "callbacks_init account symbols order_map =
     (if blank account then Inl (ValueError ''account_id must not be empty'')
      else Inr \<lparr>cs_account_id = account, cs_symbols = symbols, cs_order_map = order_map, cs_events = [],
        cs_q_executions = [], cs_q_open_orders = [], cs_q_statuses = [], cs_q_positions = [], cs_q_summaries = [],
        cs_seen_statuses = {}, cs_seen_open_orders = {}, cs_open_orders = [], cs_pending = [], cs_commissions = [],
        cs_completed = {}, cs_positions = [], cs_cash = []\<rparr>)"

definition note_event :: "callback_event \<Rightarrow> callback_state \<Rightarrow> (callback_state, unit) outcome" where
  "note_event e s = (case mk_callback_event e of
     Inl x \<Rightarrow> (Inl x, s) | Inr e' \<Rightarrow> (Inr (), s\<lparr>cs_events := cs_events s @ [e']\<rparr>))"

definition plain_note :: "string \<Rightarrow> string option \<Rightarrow> string option \<Rightarrow> string option \<Rightarrow> string option \<Rightarrow> callback_event" where
  "plain_note kind rid bid xid reason = \<lparr>ke_kind = kind, ke_report_id = rid, ke_broker_order_id = bid, ke_execution_id = xid,
     ke_reason = reason, ke_expected_account = None, ke_observed_account = None\<rparr>"

definition account_mismatch :: "string \<Rightarrow> string option \<Rightarrow> string option \<Rightarrow> string option \<Rightarrow> string \<Rightarrow> callback_event" where
  "account_mismatch account rid bid xid observed =
     \<lparr>ke_kind = ''ibkr_account_callback_quarantined'', ke_report_id = rid, ke_broker_order_id = bid, ke_execution_id = xid,
      ke_reason = Some ''wrong_account'', ke_expected_account = Some (mask_account_id account),
      ke_observed_account = Some (mask_account_id observed)\<rparr>"

definition has_unresolved :: "callback_state \<Rightarrow> bool" where
  "has_unresolved s \<longleftrightarrow> cs_q_executions s \<noteq> [] \<or> cs_q_open_orders s \<noteq> [] \<or> cs_q_statuses s \<noteq> [] \<or> cs_q_positions s \<noteq> [] \<or>
     cs_q_summaries s \<noteq> []"

definition validate_no_unresolved :: "callback_state \<Rightarrow> unit res" where
  "validate_no_unresolved s =
     (if has_unresolved s then Inl (RuntimeError ''unresolved IBKR callbacks require reconciliation before new orders'') else Inr ())"

section \<open>Order statuses and open orders (\<open>ibkr_order_status_normalizer.py\<close>)\<close>

fun is_key_error :: "exn \<Rightarrow> bool" where
  "is_key_error (KeyError k) = True"
| "is_key_error _ = False"

definition ibkr_statuses :: "(string, report_status) dict" where
  "ibkr_statuses = [(''apicancelled'', RepCancelled), (''cancelled'', RepCancelled), (''filled'', RepFilled), (''inactive'', RepRejected),
     (''pendingcancel'', RepAccepted), (''pendingsubmit'', RepAccepted), (''presubmitted'', RepAccepted), (''submitted'', RepAccepted)]"

definition status_from_ibkr :: "string \<Rightarrow> report_status res" where
  "status_from_ibkr status = (case map_of ibkr_statuses (lower (strip status)) of
     None \<Rightarrow> Inl (ValueError (''unsupported IBKR order status: '' @ status)) | Some st \<Rightarrow> Inr st)"

definition order_side_from_ibkr :: "string \<Rightarrow> order_side res" where
  "order_side_from_ibkr side =
     (let n = lower (strip side) in
      if n \<in> {''buy'', ''bot''} then Inr BUY else if n \<in> {''sell'', ''sld''} then Inr SELL
      else Inl (ValueError (''unsupported IBKR order side: '' @ side)))"

definition is_late_cancel_after_fill :: "string \<Rightarrow> string \<Rightarrow> bool" where
  "is_late_cancel_after_fill current next_status \<longleftrightarrow>
     lower (strip current) = ''filled'' \<and> lower (strip next_status) \<in> {''apicancelled'', ''cancelled''}"

definition status_key_of :: "order_status_payload \<Rightarrow> status_key" where
  "status_key_of p = (osp_broker_order_id p, osp_status p, osp_perm_id p)"

text \<open>The calls on the order map inside the \<open>try\<close>; the flag says that the status is a late cancellation.\<close>

definition map_status :: "instant \<Rightarrow> order_status_payload \<Rightarrow> broker_order_map \<Rightarrow> (broker_order_map, bool) outcome" where
  "map_status now p m =
     obind (case osp_perm_id p of None \<Rightarrow> (Inr (), m)
            | Some perm \<Rightarrow> obind (attach_perm_id (osp_broker_order_id p) perm m) (\<lambda>_ m1. (Inr (), m1))) (\<lambda>_ m1.
       case by_ibkr_order_id (osp_broker_order_id p) m1 of
         Inl e \<Rightarrow> (Inl e, m1)
       | Inr r \<Rightarrow>
          (if is_late_cancel_after_fill (bo_status r) (osp_status p) then (Inr True, m1)
           else obind (mark_status (osp_broker_order_id p) (osp_status p) now m1) (\<lambda>_ m2. (Inr False, m2))))"

definition status_report :: "order_status_payload \<Rightarrow> callback_state \<Rightarrow> (callback_state, execution_report option) outcome" where
  "status_report p s =
     (let s1 = s\<lparr>cs_seen_statuses := insert (status_key_of p) (cs_seen_statuses s)\<rparr> in
      (res_bind (status_from_ibkr (osp_status p)) (\<lambda>st.
         res_bind (normalize_ibkr_report \<lparr>ir_report_id = osp_report_id p, ir_broker_order_id = osp_broker_order_id p, ir_status = st,
             ir_filled_quantity = 0, ir_fill_price = None, ir_fill_id = None, ir_commission = 0, ir_fill_time = None\<rparr>)
           (\<lambda>r. Inr (Some r))), s1))"

definition on_order_status :: "instant \<Rightarrow> order_status_payload \<Rightarrow> callback_state \<Rightarrow> (callback_state, execution_report option) outcome" where
  "on_order_status now p s =
     (let rid = Some (osp_report_id p); bid = Some (osp_broker_order_id p) in
      obind (note_event (plain_note ''ibkr_order_status_received'' rid bid None None) s) (\<lambda>_ s1.
        if status_key_of p \<in> cs_seen_statuses s1
        then obind (note_event (plain_note ''ibkr_order_callback_duplicate_dropped'' rid bid None (Some ''order_status_already_seen'')) s1)
               (\<lambda>_ s2. (Inr None, s2))
        else case cs_order_map s1 of
          None \<Rightarrow> status_report p s1
        | Some m \<Rightarrow>
           (case map_status now p m of (r, m1) \<Rightarrow>
             (let s2 = s1\<lparr>cs_order_map := Some m1\<rparr> in
              case r of
                Inl e \<Rightarrow>
                  (if is_key_error e
                   then obind (note_event (plain_note ''ibkr_order_callback_unresolved_quarantined'' rid bid None (Some ''unknown_ibkr_order_id''))
                            (s2\<lparr>cs_q_statuses := cs_q_statuses s2 @ [p]\<rparr>)) (\<lambda>_ s3. (Inr None, s3))
                   else (Inl e, s2))
              | Inr late \<Rightarrow>
                  (if late
                   then obind (note_event (plain_note ''ibkr_order_callback_late_terminal_dropped'' rid bid None (Some ''late_cancel_after_filled'')) s2)
                          (\<lambda>_ s3. (Inr None, s3))
                   else status_report p s2)))))"

definition open_order_key_of :: "open_order_payload \<Rightarrow> open_order_key" where
  "open_order_key_of p = (oop_broker_order_id p, oop_client_order_id p, oop_perm_id p, oop_status p, oop_broker_symbol p, oop_side p,
     oop_quantity p)"

definition open_order_snapshot :: "symbol_mapping \<Rightarrow> order_id \<Rightarrow> open_order_payload \<Rightarrow> order_snapshot option res" where
  "open_order_snapshot symbols oid p =
     (case (oop_broker_symbol p, oop_side p, oop_quantity p, oop_status p) of
        (Some symbol, Some side, Some quantity, Some status) \<Rightarrow>
          res_bind (to_instrument_id symbols symbol) (\<lambda>i. res_bind (order_side_from_ibkr side) (\<lambda>sd.
            res_bind (mk_order_snapshot \<lparr>sn_order_id = oid, sn_instrument_id = i, sn_side = sd, sn_quantity = quantity, sn_status = status\<rparr>)
              (\<lambda>sn. Inr (Some sn))))
      | _ \<Rightarrow> Inr None)"

definition map_open_order ::
  "symbol_mapping \<Rightarrow> instant \<Rightarrow> string \<Rightarrow> open_order_payload \<Rightarrow> broker_order_map \<Rightarrow> (broker_order_map, order_snapshot option) outcome" where
  "map_open_order symbols now client p m =
     (case by_client_order_id client m of
        Inl e \<Rightarrow> (Inl e, m)
      | Inr r \<Rightarrow>
         obind (attach_ibkr_order_id client (oop_broker_order_id p) m) (\<lambda>_ m1.
         obind (case oop_perm_id p of None \<Rightarrow> (Inr (), m1)
                | Some perm \<Rightarrow> obind (attach_perm_id (oop_broker_order_id p) perm m1) (\<lambda>_ m2. (Inr (), m2))) (\<lambda>_ m2.
         obind (case oop_status p of None \<Rightarrow> (Inr (), m2)
                | Some status \<Rightarrow> obind (mark_status (oop_broker_order_id p) status now m2) (\<lambda>_ m3. (Inr (), m3))) (\<lambda>_ m3.
           (open_order_snapshot symbols (bo_internal_order_id r) p, m3)))))"

definition on_open_order :: "instant \<Rightarrow> open_order_payload \<Rightarrow> callback_state \<Rightarrow> (callback_state, unit) outcome" where
  "on_open_order now p s =
     (let rid = Some (oop_report_id p); bid = Some (oop_broker_order_id p);
          unresolved = (\<lambda>reason s. note_event (plain_note ''ibkr_order_callback_unresolved_quarantined'' rid bid None (Some reason))
            (s\<lparr>cs_q_open_orders := cs_q_open_orders s @ [p]\<rparr>)) in
      obind (note_event (plain_note ''ibkr_open_order_received'' rid bid None None) s) (\<lambda>_ s1.
        case cs_order_map s1 of
          None \<Rightarrow> (Inr (), s1)
        | Some m \<Rightarrow>
           (case oop_client_order_id p of
              None \<Rightarrow> unresolved ''missing_client_order_id'' s1
            | Some client \<Rightarrow>
               (if open_order_key_of p \<in> cs_seen_open_orders s1
                then note_event (plain_note ''ibkr_order_callback_duplicate_dropped'' rid bid None (Some ''open_order_already_seen'')) s1
                else case map_open_order (cs_symbols s1) now client p m of (r, m1) \<Rightarrow>
                  (let s2 = s1\<lparr>cs_order_map := Some m1\<rparr> in
                   case r of
                     Inl e \<Rightarrow> (if is_key_error e then unresolved ''unknown_client_order_id'' s2 else (Inl e, s2))
                   | Inr snap \<Rightarrow>
                      (Inr (), s2\<lparr>cs_open_orders := (case snap of None \<Rightarrow> cs_open_orders s2
                           | Some sn \<Rightarrow> AList.update (sn_order_id sn) sn (cs_open_orders s2)),
                         cs_seen_open_orders := insert (open_order_key_of p) (cs_seen_open_orders s2)\<rparr>))))))"

text \<open>The two loops of \<open>resolve_quarantined\<close>: a payload that lands in the quarantine again is taken back and stays unresolved.\<close>

fun resolve_open_orders ::
  "instant \<Rightarrow> open_order_payload list \<Rightarrow> open_order_payload list \<Rightarrow> callback_state \<Rightarrow> (callback_state, open_order_payload list) outcome" where
  "resolve_open_orders now [] unresolved s = (Inr unresolved, s)"
| "resolve_open_orders now (p # ps) unresolved s =
     obind (on_open_order now p s) (\<lambda>_ s1.
       if length (cs_q_open_orders s1) > length (cs_q_open_orders s)
       then resolve_open_orders now ps (unresolved @ [p]) (s1\<lparr>cs_q_open_orders := butlast (cs_q_open_orders s1)\<rparr>)
       else resolve_open_orders now ps unresolved s1)"

fun resolve_statuses ::
  "instant \<Rightarrow> order_status_payload list \<Rightarrow> order_status_payload list \<Rightarrow> execution_report list \<Rightarrow> callback_state \<Rightarrow>
   (callback_state, order_status_payload list \<times> execution_report list) outcome" where
  "resolve_statuses now [] unresolved reports s = (Inr (unresolved, reports), s)"
| "resolve_statuses now (p # ps) unresolved reports s =
     obind (on_order_status now p s) (\<lambda>r s1.
       let reports' = reports @ (case r of None \<Rightarrow> [] | Some x \<Rightarrow> [x]) in
       if length (cs_q_statuses s1) > length (cs_q_statuses s)
       then resolve_statuses now ps (unresolved @ [p]) reports' (s1\<lparr>cs_q_statuses := butlast (cs_q_statuses s1)\<rparr>)
       else resolve_statuses now ps unresolved reports' s1)"

definition resolve_order_callbacks :: "instant \<Rightarrow> callback_state \<Rightarrow> (callback_state, execution_report list) outcome" where
  "resolve_order_callbacks now s =
     obind (resolve_open_orders now (cs_q_open_orders s) [] s) (\<lambda>unresolved s1.
       let s2 = s1\<lparr>cs_q_open_orders := unresolved\<rparr> in
       obind (resolve_statuses now (cs_q_statuses s2) [] [] s2) (\<lambda>(unresolved, reports) s3.
         (Inr reports, s3\<lparr>cs_q_statuses := unresolved\<rparr>)))"

section \<open>Executions and commissions (\<open>ibkr_fill_normalizer.py\<close>)\<close>

definition execution_key_of :: "execution_payload \<Rightarrow> callback_state \<Rightarrow> execution_key" where
  "execution_key_of p s =
     ((case xep_account_id p of None \<Rightarrow> cs_account_id s | Some a \<Rightarrow> if a = [] then cs_account_id s else a),
      xep_broker_order_id p, xep_execution_id p)"

definition book_execution :: "execution_payload \<Rightarrow> decimal \<Rightarrow> execution_report res" where
  "book_execution p commission = normalize_ibkr_report
     \<lparr>ir_report_id = xep_report_id p, ir_broker_order_id = xep_broker_order_id p, ir_status = RepFilled,
      ir_filled_quantity = xep_filled_quantity p, ir_fill_price = Some (xep_fill_price p), ir_fill_id = Some (xep_execution_id p),
      ir_commission = commission, ir_fill_time = xep_fill_time p\<rparr>"

definition pop_commissioned :: "execution_key \<Rightarrow> callback_state \<Rightarrow> (callback_state, execution_report option) outcome" where
  "pop_commissioned key s =
     (case (map_of (cs_pending s) key, map_of (cs_commissions s) (snd (snd key))) of
        (Some p, Some c) \<Rightarrow>
          (res_bind (book_execution p (cmp_commission c)) (\<lambda>r. Inr (Some r)),
           s\<lparr>cs_pending := AList.delete key (cs_pending s), cs_commissions := AList.delete (snd (snd key)) (cs_commissions s),
             cs_completed := insert key (cs_completed s)\<rparr>)
      | _ \<Rightarrow> (Inr None, s))"

text \<open>The account check of an execution or a position.\<close>

definition foreign_execution :: "execution_payload \<Rightarrow> callback_state \<Rightarrow> bool" where
  "foreign_execution p s \<longleftrightarrow> (case xep_account_id p of None \<Rightarrow> False | Some a \<Rightarrow> a \<noteq> cs_account_id s)"

definition unmapped_execution :: "execution_payload \<Rightarrow> callback_state \<Rightarrow> bool" where
  "unmapped_execution p s \<longleftrightarrow> (case cs_order_map s of None \<Rightarrow> False
     | Some m \<Rightarrow> (case by_ibkr_order_id (xep_broker_order_id p) m of Inl e \<Rightarrow> True | Inr r \<Rightarrow> False))"

definition on_execution :: "execution_payload \<Rightarrow> callback_state \<Rightarrow> (callback_state, execution_report option) outcome" where
  "on_execution p s =
     (let rid = Some (xep_report_id p); bid = Some (xep_broker_order_id p); xid = Some (xep_execution_id p) in
      obind (note_event (plain_note ''ibkr_execution_details_received'' rid bid xid None) s) (\<lambda>_ s1.
        if foreign_execution p s1
        then obind (note_event (account_mismatch (cs_account_id s1) rid bid xid (the (xep_account_id p)))
                 (s1\<lparr>cs_q_executions := cs_q_executions s1 @ [p]\<rparr>)) (\<lambda>_ s2. (Inr None, s2))
        else let key = execution_key_of p s1 in
          if key \<in> cs_completed s1
          then obind (note_event (plain_note ''ibkr_order_callback_duplicate_dropped'' rid bid xid (Some ''execution_already_completed'')) s1)
                 (\<lambda>_ s2. (Inr None, s2))
          else if unmapped_execution p s1
          then obind (note_event (plain_note ''ibkr_order_callback_unresolved_quarantined'' rid bid xid (Some ''unknown_ibkr_order_id''))
                   (s1\<lparr>cs_q_executions := cs_q_executions s1 @ [p]\<rparr>)) (\<lambda>_ s2. (Inr None, s2))
          else pop_commissioned key (s1\<lparr>cs_pending := AList.update key p (cs_pending s1)\<rparr>)))"

datatype commission_result = FillReport execution_report | CommissionOnly broker_commission_report

text \<open>The first staged execution with the id, in staging order.\<close>

definition pop_by_execution_id :: "string \<Rightarrow> callback_state \<Rightarrow> (callback_state, execution_report option) outcome" where
  "pop_by_execution_id xid s = (case find (\<lambda>key. snd (snd key) = xid) (map fst (cs_pending s)) of
     None \<Rightarrow> (Inr None, s) | Some key \<Rightarrow> pop_commissioned key s)"

definition on_commission :: "commission_payload \<Rightarrow> callback_state \<Rightarrow> (callback_state, commission_result) outcome" where
  "on_commission p s =
     (let xid = cmp_execution_id p;
          standalone = res_bind (mk_broker_commission_report \<lparr>bcr_execution_id = xid, bcr_commission = cmp_commission p,
            bcr_currency = cmp_currency p\<rparr>) (\<lambda>c. Inr (CommissionOnly c)) in
      obind (note_event (plain_note ''ibkr_commission_report_received'' None None (Some xid) None) s) (\<lambda>_ s1.
      obind (pop_by_execution_id xid (s1\<lparr>cs_commissions := AList.update xid p (cs_commissions s1)\<rparr>)) (\<lambda>r s2.
        case r of
          Some x \<Rightarrow> (Inr (FillReport x), s2)
        | None \<Rightarrow>
           (if xid \<in> (\<lambda>key. snd (snd key)) ` cs_completed s2
            then obind (note_event (plain_note ''ibkr_order_callback_duplicate_dropped'' None None (Some xid) (Some ''commission_for_completed_execution'')) s2)
                   (\<lambda>_ s3. (standalone, s3))
            else (standalone, s2)))))"

text \<open>\<open>flush_pending_executions\<close>: the loop over what was staged when it began.\<close>

fun flush_loop :: "string \<Rightarrow> (execution_key \<times> execution_payload) list \<Rightarrow> callback_state \<Rightarrow> (callback_state, execution_report list) outcome" where
  "flush_loop reason [] s = (Inr [], s)"
| "flush_loop reason ((key, p) # rest) s =
     obind (note_event (plain_note ''ibkr_fill_committed_without_commission'' (Some (xep_report_id p)) (Some (xep_broker_order_id p))
              (Some (xep_execution_id p)) (Some reason))
              (s\<lparr>cs_pending := AList.delete key (cs_pending s), cs_completed := insert key (cs_completed s)\<rparr>)) (\<lambda>_ s1.
       case book_execution p 0 of
         Inl e \<Rightarrow> (Inl e, s1)
       | Inr r \<Rightarrow> obind (flush_loop reason rest s1) (\<lambda>rs s2. (Inr (r # rs), s2)))"

definition flush_pending_executions :: "string \<Rightarrow> callback_state \<Rightarrow> (callback_state, execution_report list) outcome" where
  "flush_pending_executions reason s = flush_loop reason (cs_pending s) s"

fun resolve_executions ::
  "execution_payload list \<Rightarrow> execution_payload list \<Rightarrow> callback_state \<Rightarrow>
   (callback_state, execution_payload list \<times> execution_report list) outcome" where
  "resolve_executions [] unresolved s = (Inr (unresolved, []), s)"
| "resolve_executions (p # ps) unresolved s =
     (if foreign_execution p s \<or> unmapped_execution p s then resolve_executions ps (unresolved @ [p]) s
      else let key = execution_key_of p s in
        if key \<in> cs_completed s then resolve_executions ps unresolved s
        else obind (pop_commissioned key (s\<lparr>cs_pending := AList.update key p (cs_pending s)\<rparr>)) (\<lambda>r s1.
          obind (note_event (plain_note ''ibkr_order_callback_quarantine_resolved'' (Some (xep_report_id p)) (Some (xep_broker_order_id p))
                   (Some (xep_execution_id p)) None) s1) (\<lambda>_ s2.
          obind (resolve_executions ps unresolved s2) (\<lambda>(un, rs) s3.
            (Inr (un, (case r of None \<Rightarrow> rs | Some x \<Rightarrow> x # rs)), s3)))))"

definition resolve_fills :: "callback_state \<Rightarrow> (callback_state, execution_report list) outcome" where
  "resolve_fills s = obind (resolve_executions (cs_q_executions s) [] s) (\<lambda>(un, rs) s1. (Inr rs, s1\<lparr>cs_q_executions := un\<rparr>))"

section \<open>Positions and cash (\<open>ibkr_position_recorder.py\<close>)\<close>

definition on_position :: "position_payload \<Rightarrow> callback_state \<Rightarrow> (callback_state, unit) outcome" where
  "on_position p s =
     (if pop_account_id p \<noteq> cs_account_id s
      then note_event (account_mismatch (cs_account_id s) None None None (pop_account_id p)) (s\<lparr>cs_q_positions := cs_q_positions s @ [p]\<rparr>)
      else case to_instrument_id (cs_symbols s) (pop_broker_symbol p) of
        Inl e \<Rightarrow> (Inl e, s)
      | Inr i \<Rightarrow> (Inr (), s\<lparr>cs_positions := AList.update i \<lparr>ps_instrument_id = i, ps_quantity = pop_quantity p\<rparr> (cs_positions s)\<rparr>))"

definition on_account_summary :: "summary_payload \<Rightarrow> callback_state \<Rightarrow> (callback_state, unit) outcome" where
  "on_account_summary p s =
     (if sup_account_id p \<noteq> cs_account_id s
      then note_event (account_mismatch (cs_account_id s) None None None (sup_account_id p)) (s\<lparr>cs_q_summaries := cs_q_summaries s @ [p]\<rparr>)
      else if sup_tag p \<noteq> ''TotalCashValue'' then (Inr (), s)
      else case mk_cash_snapshot \<lparr>ch_currency = sup_currency p, ch_balance = sup_value p\<rparr> of
        Inl e \<Rightarrow> (Inl e, s)
      | Inr c \<Rightarrow> (Inr (), s\<lparr>cs_cash := AList.update (sup_currency p) c (cs_cash s)\<rparr>))"

section \<open>The facade (\<open>ibkr_callback_normalizer.py\<close>)\<close>

definition broker_reconciliation_snapshot :: "account_id \<Rightarrow> callback_state \<Rightarrow> reconciliation_snapshot" where
  "broker_reconciliation_snapshot account s = \<lparr>rn_account_id = account,
     rn_orders = map snd (sort_key fst (cs_open_orders s)), rn_positions = map snd (sort_key fst (cs_positions s)),
     rn_cash = map snd (sort_key fst (cs_cash s))\<rparr>"

definition resolve_quarantined_callbacks :: "instant \<Rightarrow> callback_state \<Rightarrow> (callback_state, execution_report list) outcome" where
  "resolve_quarantined_callbacks now s =
     obind (resolve_order_callbacks now s) (\<lambda>rs s1. obind (resolve_fills s1) (\<lambda>fs s2. (Inr (rs @ fs), s2)))"

section \<open>Requests (\<open>ibkr_order_request_mapper.py\<close>)\<close>

record contract_spec_ibkr =
  ct_broker_symbol :: string
  ct_security_type :: string
  ct_exchange :: string
  ct_currency :: string
  ct_primary_exchange :: "string option"
  ct_contract_month :: "string option"

definition mk_contract_spec_ibkr :: "contract_spec_ibkr \<Rightarrow> contract_spec_ibkr res" where
  [ctor_simps]: "mk_contract_spec_ibkr c = checked
     [(blank (ct_broker_symbol c), ValueError ''broker_symbol must not be empty''),
      (blank (ct_security_type c), ValueError ''security_type must not be empty''),
      (blank (ct_exchange c), ValueError ''exchange must not be empty''),
      (blank (ct_currency c), ValueError ''currency must not be empty''),
      (blank_opt (ct_primary_exchange c), ValueError ''primary_exchange must not be empty when provided''),
      (blank_opt (ct_contract_month c), ValueError ''last_trade_date_or_contract_month must not be empty when provided'')] c"

record ibkr_order_request =
  iq_internal_order_id :: order_id
  iq_client_order_id :: string
  iq_internal_account_id :: "account_id option"
  iq_strategy_id :: "strategy_id option"
  iq_account_id :: string
  iq_broker_symbol :: string
  iq_side :: string
  iq_quantity :: decimal
  iq_order_type :: order_type
  iq_time_in_force :: time_in_force
  iq_limit_price :: "decimal option"
  iq_bracket_legs :: "bracket_leg list option"
  iq_contract :: "contract_spec_ibkr option"
  iq_outside_hours :: bool
  iq_what_if :: bool

definition mk_ibkr_order_request :: "ibkr_order_request \<Rightarrow> ibkr_order_request res" where
  [ctor_simps]: "mk_ibkr_order_request q = checked
     [(blank (iq_client_order_id q), ValueError ''client_order_id must not be empty''),
      (blank (iq_account_id q), ValueError ''account_id must not be empty''),
      (blank (iq_broker_symbol q), ValueError ''broker_symbol must not be empty''),
      (blank (iq_side q), ValueError ''side must not be empty''),
      (iq_quantity q \<le> 0, ValueError ''quantity must be positive''),
      (iq_order_type q = LIMIT \<and> iq_limit_price q = None, ValueError ''limit_price is required for limit orders''),
      (iq_order_type q = BRACKET \<and> iq_bracket_legs q = None, ValueError ''bracket_legs are required for bracket orders''),
      (iq_order_type q = BRACKET \<and> (case iq_bracket_legs q of None \<Rightarrow> False | Some legs \<Rightarrow> length legs < 2),
       ValueError ''bracket orders require at least two child legs''),
      (nonpositive (iq_limit_price q), ValueError ''limit_price must be positive''),
      (case iq_contract q of None \<Rightarrow> False | Some c \<Rightarrow> ct_broker_symbol c \<noteq> iq_broker_symbol q,
       ValueError ''contract broker_symbol must match request broker_symbol'')] q"

text \<open>The arguments a caller of \<open>to_order_request\<close> may leave out.\<close>

record request_options =
  ro_strategy_id :: "strategy_id option"
  ro_order_type :: "order_type option"
  ro_time_in_force :: "time_in_force option"
  ro_limit_price :: "decimal option"
  ro_asset_class :: string
  ro_opens_short :: bool
  ro_contract :: "contract_spec_ibkr option"
  ro_outside_hours :: bool
  ro_what_if :: bool

definition validate_order_request ::
  "broker_capabilities \<Rightarrow> order_intent \<Rightarrow> order_type \<Rightarrow> time_in_force \<Rightarrow> decimal option \<Rightarrow> string \<Rightarrow> bool \<Rightarrow> unit res" where
  "validate_order_request caps i otype tif limit asset_class opens_short =
     res_bind (checked
       [(\<not> supports_order_type caps otype, ValueError ''order type is not supported''),
        (\<not> supports_tif caps tif, ValueError ''time in force is not supported'')] ()) (\<lambda>_.
     res_bind (supports_asset_class caps asset_class) (\<lambda>supported.
     res_bind (checked
       [(\<not> supported, ValueError ''asset class is not supported''),
        (otype = LIMIT \<and> limit = None, ValueError ''limit_price is required for limit orders''),
        (otype \<notin> {LIMIT, BRACKET} \<and> limit \<noteq> None, ValueError ''limit_price is only valid for limit orders''),
        (\<not> bc_fractional caps \<and> oi_quantity i \<noteq> integral_half_even (oi_quantity i), ValueError ''fractional quantity is not supported'')] ()) (\<lambda>_.
     res_bind (validate_order_quantity caps (oi_quantity i)) (\<lambda>_.
       checked [(opens_short \<and> \<not> bc_short caps, ValueError ''short orders are not supported'')] ()))))"

definition map_order_request ::
  "string \<Rightarrow> symbol_mapping \<Rightarrow> broker_capabilities \<Rightarrow> order_intent \<Rightarrow> string \<Rightarrow> request_options \<Rightarrow> ibkr_order_request res" where
  "map_order_request account symbols caps i client opts =
     (if blank client then Inl (ValueError ''client_order_id must not be empty'')
      else
        (let spec = oi_order_spec i;
             otype = (case ro_order_type opts of None \<Rightarrow> os_order_type spec | Some t \<Rightarrow> t);
             tif = (case ro_time_in_force opts of None \<Rightarrow> os_time_in_force spec | Some t \<Rightarrow> t);
             limit = (case ro_limit_price opts of None \<Rightarrow> os_limit_price spec | Some p \<Rightarrow> Some p) in
         res_bind (validate_order_request caps i otype tif limit (ro_asset_class opts) (ro_opens_short opts)) (\<lambda>_.
         res_bind (to_broker_symbol symbols (oi_instrument_id i)) (\<lambda>symbol.
           mk_ibkr_order_request
             \<lparr>iq_internal_order_id = oi_order_id i, iq_client_order_id = client, iq_internal_account_id = oi_account_id i,
              iq_strategy_id = ro_strategy_id opts, iq_account_id = account, iq_broker_symbol = symbol, iq_side = side_value (oi_side i),
              iq_quantity = oi_quantity i, iq_order_type = otype, iq_time_in_force = tif, iq_limit_price = limit,
              iq_bracket_legs = os_bracket spec, iq_contract = ro_contract opts, iq_outside_hours = ro_outside_hours opts,
              iq_what_if = ro_what_if opts\<rparr>))))"

section \<open>The adapter (\<open>ibkr_order_execution.py\<close>)\<close>

record ibkr_adapter =
  ib_callbacks :: callback_state
  ib_capabilities :: broker_capabilities
  ib_live_capital :: "unit res option"

definition default_ibkr_capabilities :: "broker_id \<Rightarrow> broker_capabilities" where
  "default_ibkr_capabilities b = (capabilities_defaults b)\<lparr>bc_market_orders := True, bc_limit_orders := True, bc_cancel := True,
     bc_replace := False, bc_fractional := False, bc_short := False\<rparr>"

definition ib_live_check :: "ibkr_adapter \<Rightarrow> unit res" where
  "ib_live_check a = (case ib_live_capital a of None \<Rightarrow> Inr () | Some r \<Rightarrow> r)"

definition to_order_request :: "ibkr_adapter \<Rightarrow> order_intent \<Rightarrow> string \<Rightarrow> request_options \<Rightarrow> ibkr_order_request res" where
  "to_order_request a i client opts =
     res_bind (ib_live_check a) (\<lambda>_. res_bind (validate_no_unresolved (ib_callbacks a)) (\<lambda>_.
       map_order_request (cs_account_id (ib_callbacks a)) (cs_symbols (ib_callbacks a)) (ib_capabilities a) i client opts))"

definition record_submitted_order :: "ibkr_order_request \<Rightarrow> string \<Rightarrow> instant \<Rightarrow> callback_state \<Rightarrow> (callback_state, unit) outcome" where
  "record_submitted_order q k submitted s = (case cs_order_map s of
     None \<Rightarrow> (Inr (), s)
   | Some m \<Rightarrow>
      (case iq_internal_account_id q of
         None \<Rightarrow> (Inl (ValueError ''internal_account_id is required to record IBKR order mapping''), s)
       | Some account \<Rightarrow>
          (case obind (record_pending_submission (iq_internal_order_id q) (iq_client_order_id q) account (iq_strategy_id q) submitted m)
                  (\<lambda>_ m1. attach_ibkr_order_id (iq_client_order_id q) k m1) of
             (r, m') \<Rightarrow> (res_bind r (\<lambda>_. Inr ()), s\<lparr>cs_order_map := Some m'\<rparr>))))"

definition resolve_cancel_broker_order_id :: "ibkr_adapter \<Rightarrow> order_id \<Rightarrow> string \<Rightarrow> string res" where
  "resolve_cancel_broker_order_id a internal client =
     (if \<not> bc_cancel (ib_capabilities a) then Inl (ValueError ''cancel is not supported by broker capabilities'')
      else if blank client then Inl (ValueError ''client_order_id must not be empty'')
      else case cs_order_map (ib_callbacks a) of
        None \<Rightarrow> Inl (RuntimeError ''BrokerOrderMap is required to resolve IBKR cancel order id'')
      | Some m \<Rightarrow>
         res_bind (by_internal_order_id internal m) (\<lambda>r.
           if bo_client_order_id r \<noteq> client then Inl (ValueError ''client_order_id does not match internal_order_id route'')
           else case bo_ibkr_order_id r of
             None \<Rightarrow> Inl (RuntimeError ''IBKR order id is not known for cancel request'') | Some k \<Rightarrow> Inr k))"

section \<open>The broker-backed execution adapter (\<open>broker_execution_adapter.py\<close>)\<close>

text \<open>The wrapped broker is a parameter: its three calls.\<close>

record broker_execution_adapter =
  xa_submit :: "broker_order_request \<Rightarrow> broker_execution_report res"
  xa_cancel :: "order_id \<Rightarrow> broker_execution_report res"
  xa_replace :: "order_id \<Rightarrow> decimal \<Rightarrow> broker_execution_report res"
  xa_account_id :: account_id
  xa_strategy_id :: "strategy_id option"
  xa_live_capital :: "unit res option"
  xa_runtime_ids :: "(string, string) dict"

definition xa_validate_route :: "account_id \<Rightarrow> strategy_id \<Rightarrow> broker_execution_adapter \<Rightarrow> unit res" where
  "xa_validate_route account strategy a = checked
     [(account \<noteq> xa_account_id a, ValueError ''account_id does not match BrokerExecutionAdapter account_id''),
      (xa_strategy_id a \<noteq> None \<and> Some strategy \<noteq> xa_strategy_id a, ValueError ''strategy_id does not match BrokerExecutionAdapter strategy_id'')] ()"

definition xa_normalize :: "broker_execution_report \<Rightarrow> instant option \<Rightarrow> broker_execution_adapter \<Rightarrow> execution_report res" where
  "xa_normalize r bar_time a = (case map_of (xa_runtime_ids a) (br_broker_order_id r) of
     None \<Rightarrow> Inl (ValueError (''unknown broker_order_id: '' @ br_broker_order_id r))
   | Some runtime_id \<Rightarrow>
      res_bind (normalize_broker_execution_report r) (\<lambda>x.
      res_bind (if er_fill_time x = None \<and> bar_time \<noteq> None then mk_execution_report (x\<lparr>er_fill_time := bar_time\<rparr>) else Inr x) (\<lambda>y.
        mk_execution_report (y\<lparr>er_broker_order_id := runtime_id\<rparr>))))"

definition xa_execute ::
  "order_intent \<Rightarrow> string \<Rightarrow> account_id \<Rightarrow> strategy_id \<Rightarrow> string \<Rightarrow> instant option \<Rightarrow> broker_execution_adapter \<Rightarrow>
   (broker_execution_adapter, execution_report) outcome" where
  "xa_execute i runtime_id account strategy client bar_time a =
     (case xa_live_capital a of
        Some (Inl e) \<Rightarrow> (Inl e, a)
      | _ \<Rightarrow>
         (if oi_account_id i \<noteq> None \<and> oi_account_id i \<noteq> Some account
          then (Inl (ValueError ''intent account_id does not match execution route account_id''), a)
          else case res_bind (xa_validate_route account strategy a) (\<lambda>_.
              res_bind (mk_broker_order_request
                \<lparr>bq_order_id = oi_order_id i, bq_client_order_id = client, bq_account_id = account, bq_strategy_id = Some strategy,
                 bq_instrument_id = oi_instrument_id i, bq_side = oi_side i, bq_quantity = oi_quantity i, bq_order_type = MARKET,
                 bq_time_in_force = DAY, bq_limit_price = None, bq_stop_price = None, bq_trail_amount = None, bq_trail_percent = None,
                 bq_good_til_date = None, bq_bracket_legs = None\<rparr>) (xa_submit a)) of
            Inl e \<Rightarrow> (Inl e, a)
          | Inr r \<Rightarrow>
             (let a1 = a\<lparr>xa_runtime_ids := AList.update (br_broker_order_id r) runtime_id (xa_runtime_ids a)\<rparr> in
              (xa_normalize r bar_time a1, a1))))"

definition xa_restore_mapping :: "order_state_snapshot \<Rightarrow> (string, string) dict \<Rightarrow> broker_execution_adapter \<Rightarrow> broker_execution_adapter" where
  "xa_restore_mapping snap external a = a\<lparr>xa_runtime_ids :=
     fold (\<lambda>(runtime_id, _). AList.update (dict_lookup external runtime_id runtime_id) runtime_id) (ss_broker_to_order snap) (xa_runtime_ids a)\<rparr>"

definition xa_route_checks :: "string \<Rightarrow> string \<Rightarrow> account_id \<Rightarrow> strategy_id \<Rightarrow> broker_execution_adapter \<Rightarrow> unit res" where
  "xa_route_checks runtime_id client account strategy a =
     res_bind (checked [(blank runtime_id, ValueError ''broker_order_id must not be empty''),
        (blank client, ValueError ''client_order_id must not be empty'')] ()) (\<lambda>_. xa_validate_route account strategy a)"

definition xa_cancel_order ::
  "order_id \<Rightarrow> string \<Rightarrow> account_id \<Rightarrow> strategy_id \<Rightarrow> string \<Rightarrow> broker_execution_adapter \<Rightarrow> execution_report res" where
  "xa_cancel_order oid runtime_id account strategy client a =
     res_bind (xa_route_checks runtime_id client account strategy a) (\<lambda>_. res_bind (xa_cancel a oid) (\<lambda>r. xa_normalize r None a))"

definition xa_replace_order ::
  "order_id \<Rightarrow> string \<Rightarrow> decimal \<Rightarrow> account_id \<Rightarrow> strategy_id \<Rightarrow> string \<Rightarrow> broker_execution_adapter \<Rightarrow> execution_report res" where
  "xa_replace_order oid runtime_id quantity account strategy client a =
     res_bind (xa_route_checks runtime_id client account strategy a) (\<lambda>_. res_bind (xa_replace a oid quantity) (\<lambda>r. xa_normalize r None a))"

end
