(* ===== verification/Broker_Fills.thy ===== *)
theory Broker_Fills
  imports Broker_Callbacks Order_Lifecycle
begin

text \<open>
  The Interactive Brokers callbacks as a step system, in any order and number: executions become fills exactly once, none is
  lost once a flush comes, a callback of another account blocks new orders, and what the order manager makes of the reports.
\<close>

section \<open>Callbacks as steps\<close>

datatype broker_callback =
    StatusCb instant order_status_payload
  | OpenOrderCb instant open_order_payload
  | ExecutionCb execution_payload
  | CommissionCb commission_payload
  | PositionCb position_payload
  | SummaryCb summary_payload
  | SubmittedCb ibkr_order_request string instant
  | FlushCb string
  | ResolveCb instant

definition reports_of :: "('a \<Rightarrow> execution_report list) \<Rightarrow> (callback_state, 'a) outcome \<Rightarrow> callback_state \<times> execution_report list" where
  "reports_of f o' = (snd o', (case fst o' of Inl e \<Rightarrow> [] | Inr v \<Rightarrow> f v))"

definition option_list :: "'a option \<Rightarrow> 'a list" where
  "option_list x = (case x of None \<Rightarrow> [] | Some v \<Rightarrow> [v])"

fun commission_reports :: "commission_result \<Rightarrow> execution_report list" where
  "commission_reports (FillReport r) = [r]"
| "commission_reports (CommissionOnly c) = []"

fun callback_step :: "callback_state \<Rightarrow> broker_callback \<Rightarrow> callback_state \<times> execution_report list" where
  "callback_step s (StatusCb now p) = reports_of option_list (on_order_status now p s)"
| "callback_step s (OpenOrderCb now p) = reports_of (\<lambda>_. []) (on_open_order now p s)"
| "callback_step s (ExecutionCb p) = reports_of option_list (on_execution p s)"
| "callback_step s (CommissionCb p) = reports_of commission_reports (on_commission p s)"
| "callback_step s (PositionCb p) = reports_of (\<lambda>_. []) (on_position p s)"
| "callback_step s (SummaryCb p) = reports_of (\<lambda>_. []) (on_account_summary p s)"
| "callback_step s (SubmittedCb q k t) = reports_of (\<lambda>_. []) (record_submitted_order q k t s)"
| "callback_step s (FlushCb reason) = reports_of (\<lambda>rs. rs) (flush_pending_executions reason s)"
| "callback_step s (ResolveCb now) = reports_of (\<lambda>rs. rs) (resolve_quarantined_callbacks now s)"

text \<open>What the constructors of the payloads guarantee, and a reason that is not blank.\<close>

fun callback_valid :: "broker_callback \<Rightarrow> bool" where
  "callback_valid (StatusCb now p) = (mk_order_status_payload p = Inr p)"
| "callback_valid (OpenOrderCb now p) = (mk_open_order_payload p = Inr p)"
| "callback_valid (ExecutionCb p) = (mk_execution_payload p = Inr p)"
| "callback_valid (CommissionCb p) = (mk_commission_payload p = Inr p)"
| "callback_valid (PositionCb p) = (mk_position_payload p = Inr p)"
| "callback_valid (SummaryCb p) = (mk_summary_payload p = Inr p)"
| "callback_valid (SubmittedCb q k t) = (mk_ibkr_order_request q = Inr q)"
| "callback_valid (FlushCb reason) = (\<not> blank reason)"
| "callback_valid (ResolveCb now) = True"

text \<open>A report is a fill when it carries a fill id; its key is the broker order and the execution.\<close>

definition is_fill :: "execution_report \<Rightarrow> bool" where
  "is_fill r \<longleftrightarrow> er_fill_id r \<noteq> None"

definition fill_key :: "execution_report \<Rightarrow> string \<times> string" where
  "fill_key r = (er_broker_order_id r, the (er_fill_id r))"

section \<open>What leaves the staged executions alone\<close>

definition fill_view :: "callback_state \<Rightarrow> _" where
  "fill_view s = (cs_account_id s, cs_pending s, cs_commissions s, cs_completed s, cs_q_executions s)"

lemma fill_view_updates [simp]:
  "fill_view (s\<lparr>cs_events := a\<rparr>) = fill_view s" "fill_view (s\<lparr>cs_order_map := b\<rparr>) = fill_view s"
  "fill_view (s\<lparr>cs_q_statuses := c\<rparr>) = fill_view s" "fill_view (s\<lparr>cs_q_open_orders := d\<rparr>) = fill_view s"
  "fill_view (s\<lparr>cs_seen_statuses := e\<rparr>) = fill_view s" "fill_view (s\<lparr>cs_seen_open_orders := f\<rparr>) = fill_view s"
  "fill_view (s\<lparr>cs_open_orders := g\<rparr>) = fill_view s" "fill_view (s\<lparr>cs_positions := h\<rparr>) = fill_view s"
  "fill_view (s\<lparr>cs_q_positions := i\<rparr>) = fill_view s" "fill_view (s\<lparr>cs_q_summaries := j\<rparr>) = fill_view s"
  "fill_view (s\<lparr>cs_cash := k\<rparr>) = fill_view s"
  by (simp_all add: fill_view_def)

lemmas bind_view = obind_state [where P = "\<lambda>t. fill_view t = v" for v]

lemma note_view [simp]: "fill_view (snd (note_event e t)) = fill_view t"
  by (auto simp: note_event_def split: sum.split)

lemma note_Inr: "note_event e t = (Inr x, t') \<Longrightarrow> fill_view t' = fill_view t"
  by (metis note_view snd_conv)

lemma status_view: "fill_view (snd (on_order_status now p s)) = fill_view s"
  unfolding on_order_status_def Let_def status_report_def
  by (auto intro!: bind_view split: option.split prod.split sum.split)

lemma open_order_view: "fill_view (snd (on_open_order now p s)) = fill_view s"
  unfolding on_open_order_def Let_def
  by (auto intro!: bind_view split: option.split prod.split sum.split)

lemma resolve_open_orders_view: "fill_view (snd (resolve_open_orders now ps un s)) = fill_view s"
proof (induction ps arbitrary: un s)
  case (Cons p ps)
  show ?case using open_order_view [of now p s] by (auto intro!: bind_view simp: Cons.IH)
qed simp

lemma resolve_statuses_view: "fill_view (snd (resolve_statuses now ps un rs s)) = fill_view s"
proof (induction ps arbitrary: un rs s)
  case (Cons p ps)
  show ?case using status_view [of now p s] by (auto intro!: bind_view simp: Cons.IH Let_def)
qed simp

lemma resolve_orders_view: "fill_view (snd (resolve_order_callbacks now s)) = fill_view s"
  unfolding resolve_order_callbacks_def Let_def
  by (intro bind_view) (auto simp: resolve_open_orders_view resolve_statuses_view split: prod.split)

lemma record_views:
  "fill_view (snd (on_position p s)) = fill_view s" "fill_view (snd (on_account_summary q s)) = fill_view s"
  "fill_view (snd (record_submitted_order r k t s)) = fill_view s"
  by (simp_all add: on_position_def on_account_summary_def record_submitted_order_def split: sum.split option.split prod.split)

text \<open>Reports of statuses carry no fill.\<close>

lemma status_report_no_fill: "fst (on_order_status now p s) = Inr (Some r) \<Longrightarrow> \<not> is_fill r"
proof -
  have nf: "fst (status_report p t) = Inr (Some r) \<Longrightarrow> \<not> is_fill r" for t
    by (auto simp: status_report_def Let_def res_bind_Inr_iff normalize_ibkr_report_def mk_execution_report_def report_defaults_def is_fill_def)
  have bnd: "fst (obind x (\<lambda>_ s. (Inr None, s))) \<noteq> Inr (Some (r::execution_report))" for x :: "(callback_state, unit) outcome"
    by (cases x; cases "fst x") auto
  show "fst (on_order_status now p s) = Inr (Some r) \<Longrightarrow> \<not> is_fill r"
    unfolding on_order_status_def Let_def note_event_def
    using nf by (auto simp: obind_def split: option.splits prod.splits sum.splits if_splits)
qed

lemma resolve_statuses_no_fill:
  "\<forall>r \<in> set rs. \<not> is_fill r \<Longrightarrow> fst (resolve_statuses now ps un rs s) = Inr (un', rs') \<Longrightarrow> \<forall>r \<in> set rs'. \<not> is_fill r"
proof (induction ps arbitrary: un rs s)
  case (Cons p ps)
  obtain x t where x: "on_order_status now p s = (x, t)" by fastforce
  with Cons.prems(2) obtain v where v: "x = Inr v" by (cases x) auto
  have nf: "\<forall>r \<in> set (rs @ (case v of None \<Rightarrow> [] | Some x \<Rightarrow> [x])). \<not> is_fill r"
    using Cons.prems(1) status_report_no_fill [of now p s] x v by (auto split: option.split)
  from Cons.IH [OF nf] Cons.prems(2) show ?case by (auto simp: x v Let_def split: if_splits)
qed auto

lemma resolve_orders_no_fill:
  assumes "resolve_order_callbacks now s = (Inr rs, t)"
  shows "filter is_fill rs = []"
proof -
  from assms obtain un s1 un' s3 where "resolve_statuses now (cs_q_statuses (s1\<lparr>cs_q_open_orders := un\<rparr>)) [] [] (s1\<lparr>cs_q_open_orders := un\<rparr>) = (Inr (un', rs), s3)"
    unfolding resolve_order_callbacks_def Let_def by (fastforce simp: obind_Inr_iff)
  then have "fst (resolve_statuses now (cs_q_statuses (s1\<lparr>cs_q_open_orders := un\<rparr>)) [] [] (s1\<lparr>cs_q_open_orders := un\<rparr>)) = Inr (un', rs)"
    by simp
  from resolve_statuses_no_fill [OF _ this] show ?thesis by (auto simp: filter_empty_conv)
qed


section \<open>The fill account\<close>

text \<open>
  What the executions staged, quarantined and completed promise, with a property \<open>P\<close> of the payloads delivered. All keys are of
  the own account, so an order and an execution id name a fill.
\<close>

definition fills_ok :: "(execution_payload \<Rightarrow> bool) \<Rightarrow> callback_state \<Rightarrow> bool" where
  "fills_ok P s \<longleftrightarrow> distinct (map fst (cs_pending s)) \<and>
     (\<forall>(k, p) \<in> set (cs_pending s). P p \<and> mk_execution_payload p = Inr p \<and> k \<notin> cs_completed s \<and>
        k = (cs_account_id s, xep_broker_order_id p, xep_execution_id p)) \<and>
     (\<forall>p \<in> set (cs_q_executions s). P p \<and> mk_execution_payload p = Inr p) \<and>
     (\<forall>c \<in> ran (map_of (cs_commissions s)). mk_commission_payload c = Inr c) \<and>
     (\<forall>k \<in> cs_completed s. fst k = cs_account_id s)"

definition booked :: "callback_state \<Rightarrow> (string \<times> string) set" where
  "booked s = snd ` cs_completed s"

definition staged :: "callback_state \<Rightarrow> (string \<times> string) set" where
  "staged s = snd ` fst ` set (cs_pending s)"

definition books :: "(execution_payload \<Rightarrow> bool) \<Rightarrow> callback_state \<Rightarrow> execution_report list \<Rightarrow> callback_state \<Rightarrow> bool" where
  "books P s rs s' \<longleftrightarrow> fills_ok P s \<longrightarrow> fills_ok P s' \<and> cs_account_id s' = cs_account_id s \<and>
     distinct (map fill_key rs) \<and> fill_key ` set rs \<inter> booked s = {} \<and> booked s' = booked s \<union> fill_key ` set rs \<and>
     staged s \<subseteq> staged s' \<union> booked s' \<and> (\<forall>r \<in> set rs. is_fill r \<and> (\<exists>p c. P p \<and> book_execution p c = Inr r))"

lemma books_view: "fill_view s' = fill_view s \<Longrightarrow> books P s [] s'"
  by (auto simp: books_def fills_ok_def fill_view_def booked_def staged_def)

lemma books_trans:
  assumes st: "books P s rs t" and tu: "books P t rs' u"
  shows "books P s (rs @ rs') u"
  unfolding books_def
proof
  assume ok: "fills_ok P s"
  have a: "fills_ok P t" "cs_account_id t = cs_account_id s" "distinct (map fill_key rs)" "fill_key ` set rs \<inter> booked s = {}"
    "booked t = booked s \<union> fill_key ` set rs" "staged s \<subseteq> staged t \<union> booked t"
    "\<forall>r \<in> set rs. is_fill r \<and> (\<exists>p c. P p \<and> book_execution p c = Inr r)"
    using st ok unfolding books_def by blast+
  have b: "fills_ok P u" "cs_account_id u = cs_account_id t" "distinct (map fill_key rs')" "fill_key ` set rs' \<inter> booked t = {}"
    "booked u = booked t \<union> fill_key ` set rs'" "staged t \<subseteq> staged u \<union> booked u"
    "\<forall>r \<in> set rs'. is_fill r \<and> (\<exists>p c. P p \<and> book_execution p c = Inr r)"
    using tu a(1) unfolding books_def by blast+
  have "booked u = booked s \<union> fill_key ` set (rs @ rs')" using a(5) b(5) by (simp only: set_append image_Un Un_assoc)
  moreover have "fill_key ` set (rs @ rs') \<inter> booked s = {}" using a(4,5) b(4) by (simp only: set_append image_Un) blast
  moreover have "distinct (map fill_key (rs @ rs'))" using a(3,5) b(3,4) by (simp only: map_append distinct_append set_map) blast
  moreover have "staged s \<subseteq> staged u \<union> booked u" using a(6) b(5,6) by blast
  moreover have "\<forall>r \<in> set (rs @ rs'). is_fill r \<and> (\<exists>p c. P p \<and> book_execution p c = Inr r)" using a(7) b(7) by (simp only: set_append ball_Un simp_thms)
  ultimately show "fills_ok P u \<and> cs_account_id u = cs_account_id s \<and> distinct (map fill_key (rs @ rs')) \<and>
      fill_key ` set (rs @ rs') \<inter> booked s = {} \<and> booked u = booked s \<union> fill_key ` set (rs @ rs') \<and> staged s \<subseteq> staged u \<union> booked u \<and>
      (\<forall>r \<in> set (rs @ rs'). is_fill r \<and> (\<exists>p c. P p \<and> book_execution p c = Inr r))"
    using a(2) b(1,2) by (simp only: simp_thms)
qed

lemma books_ok: "books P s rs t \<Longrightarrow> fills_ok P s \<Longrightarrow> fills_ok P t \<and> cs_account_id t = cs_account_id s"
  by (simp add: books_def)

lemma book_execution_total:
  "mk_execution_payload p = Inr p \<Longrightarrow> 0 \<le> c \<Longrightarrow>
     \<exists>r. book_execution p c = Inr r \<and> is_fill r \<and> fill_key r = (xep_broker_order_id p, xep_execution_id p)"
  by (simp add: book_execution_def normalize_ibkr_report_def mk_execution_report_def report_defaults_def normalize_broker_status_def
      mk_execution_payload_def is_fill_def fill_key_def split: if_splits)

lemma delete_fsts: "fst ` set (AList.delete k d) = fst ` set d - {k}"
  by (metis AList.delete_keys set_map set_removeAll)

text \<open>The one way a fill is booked: a staged execution is taken out, its key is completed, its report is emitted.\<close>

lemma complete_books:
  assumes "map_of (cs_pending s) key = Some p" and "book_execution p c = Inr r" and "0 \<le> c"
    and "cs_pending t = AList.delete key (cs_pending s)" and "cs_completed t = insert key (cs_completed s)"
    and "cs_q_executions t = cs_q_executions s" and "cs_account_id t = cs_account_id s"
    and "ran (map_of (cs_commissions t)) \<subseteq> ran (map_of (cs_commissions s))"
  shows "books P s [r] t"
proof -
  have inp: "(key, p) \<in> set (cs_pending s)" using assms(1) by (rule map_of_SomeD)
  show ?thesis unfolding books_def
  proof
    assume ok: "fills_ok P s"
    with inp have k: "P p" "mk_execution_payload p = Inr p" "key \<notin> cs_completed s"
        "key = (cs_account_id s, xep_broker_order_id p, xep_execution_id p)"
      by (auto simp: fills_ok_def)
    with book_execution_total [OF k(2) assms(3)] assms(2) have r: "is_fill r" "fill_key r = snd key" by auto
    have fresh: "fill_key r \<notin> booked s" using ok k r by (auto simp: fills_ok_def booked_def)
    have "fills_ok P t" using ok assms k(4) by (auto simp: fills_ok_def AList.delete_eq distinct_map_filter)
    moreover have "staged s \<subseteq> staged t \<union> booked t" by (auto simp: staged_def booked_def assms delete_fsts)
    ultimately show "fills_ok P t \<and> cs_account_id t = cs_account_id s \<and>
        distinct (map fill_key [r]) \<and> fill_key ` set [r] \<inter> booked s = {} \<and> booked t = booked s \<union> fill_key ` set [r] \<and>
        staged s \<subseteq> staged t \<union> booked t \<and> (\<forall>r \<in> set [r]. is_fill r \<and> (\<exists>p c. P p \<and> book_execution p c = Inr r))"
      using fresh r k(1) assms by (auto simp: booked_def)
  qed
qed


definition books_out :: "(execution_payload \<Rightarrow> bool) \<Rightarrow> callback_state \<Rightarrow> callback_state \<times> execution_report list \<Rightarrow> bool" where
  "books_out P s r \<longleftrightarrow> books P s (filter is_fill (snd r)) (fst r)"

lemma books_out_raise [simp]: "books_out P s (reports_of f (Inl e, t)) \<longleftrightarrow> books P s [] t"
  by (simp add: books_out_def reports_of_def)

lemma books_out_return [simp]: "books_out P s (reports_of f (Inr v, t)) \<longleftrightarrow> books P s (filter is_fill (f v)) t"
  by (simp add: books_out_def reports_of_def)

lemma books_first: "books P s [] t \<Longrightarrow> books_out P t r \<Longrightarrow> books_out P s r"
  using books_trans [of P s "[]" t] by (simp add: books_out_def)

lemma note_books:
  assumes "books P s [] s1" and "\<And>t. fill_view t = fill_view s1 \<Longrightarrow> books_out P t (reports_of f (h t))"
  shows "books_out P s (reports_of f (obind (note_event e s1) (\<lambda>_. h)))"
proof -
  obtain x t where x: "note_event e s1 = (x, t)" by fastforce
  then have v: "fill_view t = fill_view s1" by (metis note_view snd_conv)
  from books_trans [OF assms(1) books_view [OF v]] have "books P s [] t" by simp
  with books_first [OF this assms(2) [OF v]] show ?thesis by (cases x) (simp_all add: x)
qed

lemma own_key: "\<not> foreign_execution p s \<Longrightarrow> execution_key_of p s = (cs_account_id s, xep_broker_order_id p, xep_execution_id p)"
  by (auto simp: foreign_execution_def execution_key_of_def split: option.splits)

lemma in_update: "x \<in> set (AList.update k v d) \<Longrightarrow> x = (k, v) \<or> x \<in> set d"
  by (induction d) (auto split: if_splits)

lemma stage_books:
  assumes "\<not> foreign_execution p s" and "execution_key_of p s \<notin> cs_completed s" and "P p" and "mk_execution_payload p = Inr p"
  shows "books P s [] (s\<lparr>cs_pending := AList.update (execution_key_of p s) p (cs_pending s)\<rparr>)"
  using assms own_key [OF assms(1)]
  by (auto simp: books_def fills_ok_def booked_def staged_def distinct_update dom_update dest!: in_update)

lemma pop_books:
  "fills_ok P s \<Longrightarrow> \<exists>r t. pop_commissioned key s = (Inr r, t) \<and> books P s (option_list r) t"
proof (cases "map_of (cs_pending s) key")
  case None
  then show ?thesis by (simp add: pop_commissioned_def option_list_def books_view)
next
  case (Some p)
  assume ok: "fills_ok P s"
  show ?thesis
  proof (cases "map_of (cs_commissions s) (snd (snd key))")
    case None
    with Some show ?thesis by (simp add: pop_commissioned_def option_list_def books_view)
  next
    case (Some c)
    have p: "mk_execution_payload p = Inr p" using ok map_of_SomeD [OF \<open>map_of (cs_pending s) key = Some p\<close>] by (auto simp: fills_ok_def)
    have "mk_commission_payload c = Inr c" using ok ranI [of "map_of (cs_commissions s)", OF Some] by (simp add: fills_ok_def)
    then have c: "0 \<le> cmp_commission c" by (simp add: mk_commission_payload_def split: if_splits)
    from book_execution_total [OF p c] obtain r where r: "book_execution p (cmp_commission c) = Inr r" by blast
    have sub: "ran ((map_of (cs_commissions s))(x := None)) \<subseteq> ran (map_of (cs_commissions s))" for x by (auto simp: ran_def split: if_splits)
    show ?thesis
      using complete_books [OF \<open>map_of (cs_pending s) key = Some p\<close> r c] sub
      by (simp add: pop_commissioned_def option_list_def Some \<open>map_of (cs_pending s) key = Some p\<close> r delete_conv')
  qed
qed


lemma pop_books_out: "fills_ok P s \<Longrightarrow> books_out P s (reports_of option_list (pop_commissioned key s))"
proof -
  assume "fills_ok P s"
  then obtain r t where rt: "pop_commissioned key s = (Inr r, t)" and b: "books P s (option_list r) t" using pop_books by blast
  from b \<open>fills_ok P s\<close> have "filter is_fill (option_list r) = option_list r" by (auto simp: books_def filter_id_conv)
  with b show ?thesis by (simp add: rt)
qed

lemma books_out_ok: "(fills_ok P s \<Longrightarrow> books_out P s r) \<Longrightarrow> books_out P s r"
  by (auto simp: books_out_def books_def)

lemma quarantine_books:
  "P p \<Longrightarrow> mk_execution_payload p = Inr p \<Longrightarrow> books P s [] (s\<lparr>cs_q_executions := cs_q_executions s @ [p]\<rparr>)"
  by (auto simp: books_def fills_ok_def booked_def staged_def)

lemma nothing_booked: "fill_view t = fill_view s \<Longrightarrow> f v = [] \<Longrightarrow> books_out P s (reports_of f (Inr v, t))"
  by (simp add: books_view)

lemma execution_books:
  assumes "P p" and "mk_execution_payload p = Inr p"
  shows "books_out P s (reports_of option_list (on_execution p s))"
proof -
  have none: "books_out P t (reports_of option_list (Inr None, t))" for t by (simp add: option_list_def books_view)
  have staged: "books_out P t (reports_of option_list (pop_commissioned (execution_key_of p t)
      (t\<lparr>cs_pending := AList.update (execution_key_of p t) p (cs_pending t)\<rparr>)))"
    if "\<not> foreign_execution p t" "execution_key_of p t \<notin> cs_completed t" for t
  proof (rule books_out_ok)
    assume ok: "fills_ok P t"
    note b = stage_books [where P = P, OF that assms]
    show "books_out P t (reports_of option_list (pop_commissioned (execution_key_of p t)
        (t\<lparr>cs_pending := AList.update (execution_key_of p t) p (cs_pending t)\<rparr>)))"
      using books_first [OF b pop_books_out] books_ok [OF b ok] by blast
  qed
  show ?thesis unfolding on_execution_def Let_def
    by (intro note_books) (auto simp: books_view intro!: note_books quarantine_books assms none staged)
qed

lemma update_commissions_books:
  "mk_commission_payload c = Inr c \<Longrightarrow> books P s [] (s\<lparr>cs_commissions := AList.update x c (cs_commissions s)\<rparr>)"
  by (auto simp: books_def fills_ok_def booked_def staged_def update_conv' ran_def split: if_splits)

lemma pop_id_books:
  "fills_ok P s \<Longrightarrow> \<exists>r t. pop_by_execution_id x s = (Inr r, t) \<and> books P s (option_list r) t"
  using pop_books by (fastforce simp: pop_by_execution_id_def option_list_def books_view split: option.split)

lemma commission_books:
  assumes "mk_commission_payload c = Inr c"
  shows "books_out P s (reports_of commission_reports (on_commission c s))"
proof -
  let ?x = "cmp_execution_id c"
  have only: "books_out P t (reports_of commission_reports (res_bind v (\<lambda>c. Inr (CommissionOnly c)), t))" for v t
    by (cases v) (simp_all add: books_view)
  have step: "books_out P t (reports_of commission_reports (obind (pop_by_execution_id ?x
      (t\<lparr>cs_commissions := AList.update ?x c (cs_commissions t)\<rparr>)) g))"
    if g: "\<And>t. books_out P t (reports_of commission_reports (g None t))" and h: "\<And>y t. g (Some y) t = (Inr (FillReport y), t)" for t g
  proof (rule books_out_ok)
    assume ok: "fills_ok P t"
    note b = update_commissions_books [OF assms, of P t ?x]
    with ok have ok1: "fills_ok P (t\<lparr>cs_commissions := AList.update ?x c (cs_commissions t)\<rparr>)" by (blast dest: books_ok)
    from pop_id_books [OF this] obtain r u where
      r: "pop_by_execution_id ?x (t\<lparr>cs_commissions := AList.update ?x c (cs_commissions t)\<rparr>) = (Inr r, u)"
        "books P (t\<lparr>cs_commissions := AList.update ?x c (cs_commissions t)\<rparr>) (option_list r) u" by blast
    note b2 = books_trans [OF b r(2)]
    show "books_out P t (reports_of commission_reports (obind (pop_by_execution_id ?x
        (t\<lparr>cs_commissions := AList.update ?x c (cs_commissions t)\<rparr>)) g))"
    proof (cases r)
      case None
      with b2 books_first [OF _ g] show ?thesis by (simp add: r(1) option_list_def)
    next
      case (Some y)
      with b2 have "is_fill y" using ok by (simp add: books_def option_list_def)
      with b2 Some show ?thesis by (simp add: r(1) h option_list_def)
    qed
  qed
  show ?thesis unfolding on_commission_def Let_def
    by (intro note_books step) (auto simp: books_view intro!: note_books only)
qed

section \<open>Flushing and resolving\<close>

lemma fill_notes_named:
  "\<not> blank ''ibkr_fill_committed_without_commission''" "\<not> blank ''ibkr_order_callback_quarantine_resolved''"
  by code_simp+

lemma blank_opt_simps: "\<not> blank_opt None" "blank_opt (Some x) \<longleftrightarrow> blank x"
  by (simp_all add: blank_opt_def)

lemma flush_note_ok:
  assumes "mk_execution_payload p = Inr p" and "\<not> blank_opt r" and "\<not> blank k"
  shows "\<exists>t'. note_event (plain_note k (Some (xep_report_id p)) (Some (xep_broker_order_id p)) (Some (xep_execution_id p)) r) t = (Inr (), t') \<and>
    fill_view t' = fill_view t \<and> cs_order_map t' = cs_order_map t"
  using assms by (simp add: note_event_def plain_note_def mk_callback_event_def mk_execution_payload_def checked_def blank_opt_simps split: if_splits)

lemma flush_books:
  "fills_ok P s \<Longrightarrow> \<not> blank reason \<Longrightarrow> distinct (map fst todo) \<Longrightarrow> (\<And>k p. (k, p) \<in> set todo \<Longrightarrow> map_of (cs_pending s) k = Some p) \<Longrightarrow>
    \<exists>rs t. flush_loop reason todo s = (Inr rs, t) \<and> books P s rs t \<and> snd ` fst ` set todo \<subseteq> booked t"
proof (induction todo arbitrary: s)
  case Nil
  then show ?case by (simp add: books_view)
next
  case (Cons x todo)
  obtain key p where x: "x = (key, p)" by fastforce
  have here: "map_of (cs_pending s) key = Some p" using Cons.prems(4) by (simp add: x)
  then have p: "mk_execution_payload p = Inr p" using Cons.prems(1) map_of_SomeD by (fastforce simp: fills_ok_def)
  from book_execution_total [OF p, of 0] obtain r where r: "book_execution p 0 = Inr r" by auto
  let ?s = "s\<lparr>cs_pending := AList.delete key (cs_pending s), cs_completed := insert key (cs_completed s)\<rparr>"
  obtain t where t: "note_event (plain_note ''ibkr_fill_committed_without_commission'' (Some (xep_report_id p)) (Some (xep_broker_order_id p))
      (Some (xep_execution_id p)) (Some reason)) ?s = (Inr (), t)" "fill_view t = fill_view ?s"
    using flush_note_ok [OF p, of "Some reason" "''ibkr_fill_committed_without_commission''" ?s] Cons.prems(2) fill_notes_named by (auto simp: blank_opt_simps)
  then have tp: "cs_pending t = AList.delete key (cs_pending s)" "cs_completed t = insert key (cs_completed s)"
    "cs_q_executions t = cs_q_executions s" "cs_account_id t = cs_account_id s" "cs_commissions t = cs_commissions s"
    by (simp_all add: fill_view_def)
  have b: "books P s [r] t" by (rule complete_books [OF here r]) (simp_all add: tp)
  have "map_of (cs_pending t) k = Some q" if kq: "(k, q) \<in> set todo" for k q
    using Cons.prems(3) Cons.prems(4) [of k q] kq by (force simp: tp x delete_conv')
  with Cons.IH [of t] Cons.prems(2,3) books_ok [OF b Cons.prems(1)] obtain rs u
    where u: "flush_loop reason todo t = (Inr rs, u)" "books P t rs u" "snd ` fst ` set todo \<subseteq> booked u" by (auto simp: x)
  have "snd key \<in> booked u" using u(2) books_ok [OF b Cons.prems(1)] by (auto simp: books_def booked_def tp)
  with u b show ?case using books_trans [OF b u(2)] t r by (simp add: x)
qed


lemma resolve_executions_books:
  "fills_ok P s \<Longrightarrow> (\<And>p. p \<in> set ps \<Longrightarrow> P p \<and> mk_execution_payload p = Inr p) \<Longrightarrow>
     \<exists>un' rs t. resolve_executions ps un s = (Inr (un', rs), t) \<and> books P s rs t \<and> set un' \<subseteq> set un \<union> set ps"
proof (induction ps arbitrary: s un)
  case Nil
  then show ?case by (simp add: books_view)
next
  case (Cons p ps)
  have p: "P p" "mk_execution_payload p = Inr p" and ps: "\<And>p. p \<in> set ps \<Longrightarrow> P p \<and> mk_execution_payload p = Inr p"
    using Cons.prems(2) by simp_all
  note IH = Cons.IH [OF _ ps]
  consider "foreign_execution p s \<or> unmapped_execution p s" | "\<not> (foreign_execution p s \<or> unmapped_execution p s)" "execution_key_of p s \<in> cs_completed s"
    | "\<not> (foreign_execution p s \<or> unmapped_execution p s)" "execution_key_of p s \<notin> cs_completed s" by blast
  then show ?case
  proof cases
    case 1
    with IH [OF Cons.prems(1), of "un @ [p]"] show ?thesis by auto
  next
    case 2
    with IH [OF Cons.prems(1), of un] show ?thesis by auto
  next
    case 3
    let ?s = "s\<lparr>cs_pending := AList.update (execution_key_of p s) p (cs_pending s)\<rparr>"
    have st: "books P s [] ?s" using stage_books [where P = P, OF _ 3(2) p] 3(1) by simp
    with Cons.prems(1) have "fills_ok P ?s" by (blast dest: books_ok)
    from pop_books [OF this] obtain r t where r: "pop_commissioned (execution_key_of p s) ?s = (Inr r, t)" "books P ?s (option_list r) t" by blast
    obtain t' where t': "note_event (plain_note ''ibkr_order_callback_quarantine_resolved'' (Some (xep_report_id p)) (Some (xep_broker_order_id p))
        (Some (xep_execution_id p)) None) t = (Inr (), t')" "fill_view t' = fill_view t"
      using flush_note_ok [OF p(2), of None "''ibkr_order_callback_quarantine_resolved''" t] fill_notes_named by (auto simp: blank_opt_simps)
    have b: "books P s (option_list r) t'"
      using books_trans [OF books_trans [OF st r(2)] books_view [OF t'(2)]] by simp
    with IH [of t' un] Cons.prems(1) obtain un' rs u
      where u: "resolve_executions ps un t' = (Inr (un', rs), u)" "books P t' rs u" "set un' \<subseteq> set un \<union> set ps" by (blast dest: books_ok)
    have "(case r of None \<Rightarrow> rs | Some x \<Rightarrow> x # rs) = option_list r @ rs" by (simp add: option_list_def split: option.split)
    with books_trans [OF b u(2)] u 3 show ?thesis by (auto simp: Let_def r(1) t'(1))
  qed
qed

lemma resolve_fills_books:
  assumes "fills_ok P s"
  shows "\<exists>rs t. resolve_fills s = (Inr rs, t) \<and> books P s rs t"
proof -
  have q: "P p \<and> mk_execution_payload p = Inr p" if "p \<in> set (cs_q_executions s)" for p using assms that by (simp add: fills_ok_def)
  from resolve_executions_books [OF assms q, of "cs_q_executions s" "[]"] obtain un rs t
    where r: "resolve_executions (cs_q_executions s) [] s = (Inr (un, rs), t)" "books P s rs t" "set un \<subseteq> set (cs_q_executions s)" by auto
  have "books P t [] (t\<lparr>cs_q_executions := un\<rparr>)" using q r(3) by (auto simp: books_def fills_ok_def booked_def staged_def)
  from books_trans [OF r(2) this] show ?thesis by (simp add: resolve_fills_def r(1))
qed

lemma books_are_fills: "books P s rs t \<Longrightarrow> fills_ok P s \<Longrightarrow> filter is_fill rs = rs"
  by (simp add: books_def filter_id_conv)

lemma resolve_books: "books_out P s (reports_of (\<lambda>rs. rs) (resolve_quarantined_callbacks now s))"
proof (rule books_out_ok)
  assume ok: "fills_ok P s"
  obtain x t where x: "resolve_order_callbacks now s = (x, t)" by fastforce
  then have v: "books P s [] t" using resolve_orders_view [of now s] by (simp add: books_view)
  show "books_out P s (reports_of (\<lambda>rs. rs) (resolve_quarantined_callbacks now s))"
  proof (cases x)
    case (Inl e)
    with v show ?thesis by (simp add: resolve_quarantined_callbacks_def x)
  next
    case (Inr rs)
    have ok': "fills_ok P t" using books_ok [OF v ok] by simp
    from resolve_fills_books [OF ok'] obtain fs u where u: "resolve_fills t = (Inr fs, u)" "books P t fs u" by blast
    from books_trans [OF v u(2)] books_are_fills [OF u(2) ok'] resolve_orders_no_fill [of now s rs t] x Inr
    show ?thesis by (simp add: resolve_quarantined_callbacks_def u(1))
  qed
qed

lemma flush_pending_books:
  assumes "fills_ok P s" and "\<not> blank reason"
  shows "\<exists>rs t. flush_pending_executions reason s = (Inr rs, t) \<and> books P s rs t \<and> staged s \<subseteq> booked t"
proof -
  have d: "distinct (map fst (cs_pending s))" using assms(1) by (simp add: fills_ok_def)
  from flush_books [OF assms d] map_of_is_SomeI [OF d] show ?thesis by (auto simp: flush_pending_executions_def staged_def)
qed

lemma step_books:
  assumes "callback_valid c" and "\<And>p. c = ExecutionCb p \<Longrightarrow> P p"
  shows "books_out P s (callback_step s c)"
proof -
  have silent: "fill_view t = fill_view s \<Longrightarrow> books_out P s (reports_of (\<lambda>_. []) (r, t))" for r :: "'a res" and t
    by (cases r) (simp_all add: books_view)
  show ?thesis
  proof (cases c)
    case (StatusCb now p)
    then show ?thesis using status_view [of now p s] status_report_no_fill [of now p s]
      by (cases "on_order_status now p s"; cases "fst (on_order_status now p s)") (auto simp: books_view option_list_def split: option.split)
  next
    case (FlushCb reason)
    show ?thesis
    proof (rule books_out_ok)
      assume ok: "fills_ok P s"
      from assms(1) FlushCb have "\<not> blank reason" by simp
      from flush_pending_books [OF ok this] obtain rs t
        where "flush_pending_executions reason s = (Inr rs, t)" "books P s rs t" by blast
      with books_are_fills [OF _ ok] show "books_out P s (callback_step s c)" by (simp add: FlushCb)
    qed
  qed (use assms open_order_view [of _ _ s] record_views silent execution_books commission_books resolve_books in
      \<open>simp_all add: books_out_def reports_of_def books_view split: sum.split\<close>)
qed


section \<open>Runs\<close>

lemma run_books:
  assumes "list_all callback_valid cs" and "\<And>p. ExecutionCb p \<in> set cs \<Longrightarrow> P p"
  shows "books_out P s (run_steps callback_step s cs)"
  using assms
proof (induction cs arbitrary: s)
  case Nil
  then show ?case by (simp add: books_out_def books_view)
next
  case (Cons c cs)
  have "books_out P s (callback_step s c)" by (rule step_books) (use Cons.prems in auto)
  moreover have "books_out P (fst (callback_step s c)) (run_steps callback_step (fst (callback_step s c)) cs)"
    by (rule Cons.IH) (use Cons.prems in auto)
  ultimately show ?case using books_trans by (fastforce simp: books_out_def)
qed

lemma init_fills:
  assumes "callbacks_init account symbols m = Inr s"
  shows "fills_ok P s" "booked s = {}" "cs_account_id s = account"
  using assms by (auto simp: callbacks_init_def fills_ok_def booked_def split: if_splits)

lemma execution_staged:
  assumes "fills_ok P s" and "P p" and "mk_execution_payload p = Inr p" and "\<not> foreign_execution p s" and "\<not> unmapped_execution p s"
  shows "(xep_broker_order_id p, xep_execution_id p) \<in> staged (snd (on_execution p s)) \<union> booked (snd (on_execution p s))"
proof -
  have "\<not> blank ''ibkr_execution_details_received''" by code_simp
  from flush_note_ok [OF assms(3) _ this, of None s] obtain t where t: "fill_view t = fill_view s" "cs_order_map t = cs_order_map s"
      "note_event (plain_note ''ibkr_execution_details_received'' (Some (xep_report_id p)) (Some (xep_broker_order_id p))
        (Some (xep_execution_id p)) None) s = (Inr (), t)"
    by (auto simp: blank_opt_simps)
  have local: "\<not> foreign_execution p t" "\<not> unmapped_execution p t" "cs_completed t = cs_completed s"
    using assms(4,5) t(1,2) by (auto simp: foreign_execution_def unmapped_execution_def fill_view_def split: option.splits)
  let ?k = "execution_key_of p t"
  have k: "snd ?k = (xep_broker_order_id p, xep_execution_id p)" using own_key [OF local(1)] by simp
  show ?thesis
  proof (cases "?k \<in> cs_completed t")
    case True
    have "booked (snd (obind (note_event e t) (\<lambda>_ s2. (Inr (None :: execution_report option), s2)))) = booked t" for e
      by (auto simp: note_event_def booked_def split: sum.split)
    with True local k show ?thesis by (auto simp: on_execution_def Let_def t(3) booked_def intro: rev_image_eqI)
  next
    case False
    let ?s = "t\<lparr>cs_pending := AList.update ?k p (cs_pending t)\<rparr>"
    have st: "books P t [] ?s" by (rule stage_books [where P = P, OF local(1) False assms(2,3)])
    have "fills_ok P t" using books_ok [OF books_view [OF t(1)] assms(1)] by simp
    with st have ok: "fills_ok P ?s" by (blast dest: books_ok)
    from pop_books [OF ok] obtain r u where u: "pop_commissioned ?k ?s = (Inr r, u)" "books P ?s (option_list r) u" by blast
    have "snd ?k \<in> staged ?s" by (auto simp: staged_def dom_update)
    with u(2) ok have "snd ?k \<in> staged u \<union> booked u" by (auto simp: books_def)
    with False local k show ?thesis by (simp add: on_execution_def Let_def t(3) u(1))
  qed
qed


text \<open>C31. No execution is lost. An execution of the own account on a mapped order is reported as a fill by the time of the next
  flush at the latest, whatever else arrives in between: its commission, late, early, repeated or never, other executions,
  statuses and resolutions.
\<close>

theorem executions_not_lost:
  assumes "callbacks_init account symbols m = Inr s" and "list_all callback_valid (before @ ExecutionCb p # after @ [FlushCb reason])"
    and "let s1 = fst (run_steps callback_step s before) in \<not> foreign_execution p s1 \<and> \<not> unmapped_execution p s1"
  shows "(xep_broker_order_id p, xep_execution_id p) \<in>
     fill_key ` set (filter is_fill (snd (run_steps callback_step s (before @ ExecutionCb p # after @ [FlushCb reason]))))"
proof -
  let ?P = "\<lambda>_ :: execution_payload. True" and ?k = "(xep_broker_order_id p, xep_execution_id p)"
  define s1 where "s1 = fst (run_steps callback_step s before)"
  define s2 where "s2 = fst (callback_step s1 (ExecutionCb p))"
  define s3 where "s3 = fst (run_steps callback_step s2 after)"
  define s4 where "s4 = fst (callback_step s3 (FlushCb reason))"
  have valid: "list_all callback_valid before" "callback_valid (ExecutionCb p)" "list_all callback_valid after" "\<not> blank reason"
    using assms(2) by simp_all
  note ok = init_fills(1) [OF assms(1), of ?P]
  have b1: "books ?P s (filter is_fill (snd (run_steps callback_step s before))) s1"
    and b3: "books ?P s2 (filter is_fill (snd (run_steps callback_step s2 after))) s3"
    using run_books [OF valid(1), of ?P s] run_books [OF valid(3), of ?P s2] by (simp_all add: books_out_def s1_def s3_def)
  have b2: "books ?P s1 (filter is_fill (snd (callback_step s1 (ExecutionCb p)))) s2"
    using step_books [OF valid(2), of ?P s1] by (simp add: books_out_def s2_def)
  have ok1: "fills_ok ?P s1" using books_ok [OF b1 ok] by simp
  have ok2: "fills_ok ?P s2" using books_ok [OF b2 ok1] by simp
  have ok3: "fills_ok ?P s3" using books_ok [OF b3 ok2] by simp
  have "?k \<in> staged s2 \<union> booked s2"
    using execution_staged [OF ok1 _ _, of p] valid(2) assms(3) by (simp add: s2_def s1_def reports_of_def Let_def)
  then have "?k \<in> staged s3 \<union> booked s3" using b3 ok2 by (auto simp: books_def)
  moreover have b4: "books ?P s3 (filter is_fill (snd (callback_step s3 (FlushCb reason)))) s4"
    using step_books [of "FlushCb reason" ?P s3] valid(4) by (simp add: books_out_def s4_def)
  moreover have "staged s3 \<subseteq> booked s4"
    using flush_pending_books [OF ok3 valid(4)] by (auto simp: s4_def reports_of_def)
  ultimately have "?k \<in> booked s4" using ok3 by (auto simp: books_def)
  moreover have "books_out ?P s (run_steps callback_step s (before @ ExecutionCb p # after @ [FlushCb reason]))"
    by (rule run_books [OF assms(2)]) simp
  moreover have "fst (run_steps callback_step s (before @ ExecutionCb p # after @ [FlushCb reason])) = s4"
    by (simp add: run_steps_append s4_def s3_def s2_def s1_def del: callback_step.simps)
  ultimately show ?thesis
    using ok init_fills(2) [OF assms(1)] unfolding books_out_def books_def by blast
qed

section \<open>Callbacks of another account\<close>

text \<open>Positions and account values of another account are never taken out of the quarantine, and neither are its executions.\<close>

definition stuck :: "callback_state \<Rightarrow> bool" where
  "stuck s \<longleftrightarrow> cs_q_positions s \<noteq> [] \<or> cs_q_summaries s \<noteq> [] \<or> (\<exists>p \<in> set (cs_q_executions s). foreign_execution p s)"

lemmas bind_stuck = obind_state [where P = stuck]

lemma foreign_iff: "foreign_execution p s \<longleftrightarrow> xep_account_id p \<notin> {None, Some (cs_account_id s)}"
  by (auto simp: foreign_execution_def split: option.split)

lemma stuck_updates [simp]:
  "stuck (s\<lparr>cs_events := a\<rparr>) = stuck s" "stuck (s\<lparr>cs_order_map := b\<rparr>) = stuck s" "stuck (s\<lparr>cs_q_statuses := c\<rparr>) = stuck s"
  "stuck (s\<lparr>cs_q_open_orders := d\<rparr>) = stuck s" "stuck (s\<lparr>cs_seen_statuses := e\<rparr>) = stuck s"
  "stuck (s\<lparr>cs_seen_open_orders := f\<rparr>) = stuck s" "stuck (s\<lparr>cs_open_orders := g\<rparr>) = stuck s" "stuck (s\<lparr>cs_positions := h\<rparr>) = stuck s"
  "stuck (s\<lparr>cs_cash := i\<rparr>) = stuck s" "stuck (s\<lparr>cs_pending := j\<rparr>) = stuck s" "stuck (s\<lparr>cs_commissions := k\<rparr>) = stuck s"
  "stuck (s\<lparr>cs_completed := l\<rparr>) = stuck s" "stuck (s\<lparr>cs_q_positions := xs @ [p]\<rparr>)" "stuck (s\<lparr>cs_q_summaries := ys @ [q]\<rparr>)"
  by (simp_all add: stuck_def foreign_iff)

lemma stuck_append [intro]: "stuck s \<Longrightarrow> stuck (s\<lparr>cs_q_executions := cs_q_executions s @ [p]\<rparr>)"
  by (auto simp: stuck_def foreign_iff)

lemma stuck_note [simp]: "stuck (snd (note_event e s)) = stuck s"
  by (simp add: note_event_def split: sum.split)

lemma pop_stuck [simp]: "stuck (snd (pop_commissioned k s)) = stuck s"
  by (simp add: pop_commissioned_def split: option.split)

lemma status_stuck: "stuck s \<Longrightarrow> stuck (snd (on_order_status now p s))"
  unfolding on_order_status_def Let_def status_report_def
  by (auto intro!: bind_stuck split: option.split prod.split sum.split)

lemma open_order_stuck: "stuck s \<Longrightarrow> stuck (snd (on_open_order now p s))"
  unfolding on_open_order_def Let_def
  by (auto intro!: bind_stuck split: option.split prod.split sum.split)

lemma resolve_open_orders_stuck: "stuck s \<Longrightarrow> stuck (snd (resolve_open_orders now ps un s))"
  by (induction ps arbitrary: un s) (auto intro!: bind_stuck open_order_stuck)

lemma resolve_statuses_stuck: "stuck s \<Longrightarrow> stuck (snd (resolve_statuses now ps un rs s))"
  by (induction ps arbitrary: un rs s) (auto intro!: bind_stuck status_stuck simp: Let_def)

lemma resolve_orders_stuck: "stuck s \<Longrightarrow> stuck (snd (resolve_order_callbacks now s))"
  unfolding resolve_order_callbacks_def Let_def
  by (intro bind_stuck) (auto intro!: resolve_open_orders_stuck resolve_statuses_stuck split: prod.split)

lemma execution_stuck: "stuck s \<Longrightarrow> stuck (snd (on_execution p s))"
  unfolding on_execution_def Let_def
  by (intro bind_stuck) (auto intro!: bind_stuck)

lemma commission_stuck: "stuck s \<Longrightarrow> stuck (snd (on_commission c s))"
  unfolding on_commission_def Let_def pop_by_execution_id_def
  by (intro bind_stuck) (auto intro!: bind_stuck split: option.split)

lemma flush_stuck: "stuck s \<Longrightarrow> stuck (snd (flush_loop reason todo s))"
  by (induction todo arbitrary: s) (auto intro!: bind_stuck split: sum.split)

lemma record_stuck:
  "stuck s \<Longrightarrow> stuck (snd (on_position p s))" "stuck s \<Longrightarrow> stuck (snd (on_account_summary q s))"
  "stuck s \<Longrightarrow> stuck (snd (record_submitted_order r k t s))"
  by (simp_all add: on_position_def on_account_summary_def record_submitted_order_def split: sum.split option.split prod.split)

text \<open>Resolving keeps the executions of the other account and touches nothing else of the quarantine.\<close>

definition quarantine_view :: "callback_state \<Rightarrow> _" where
  "quarantine_view s = (cs_account_id s, cs_q_executions s, cs_q_positions s, cs_q_summaries s)"

lemmas bind_quarantine = obind_state [where P = "\<lambda>t. quarantine_view t = v" for v]

lemma note_quarantine [simp]: "quarantine_view (snd (note_event e s)) = quarantine_view s"
  by (simp add: note_event_def quarantine_view_def split: sum.split)

lemma pop_quarantine [simp]: "quarantine_view (snd (pop_commissioned k (s\<lparr>cs_pending := d\<rparr>))) = quarantine_view s"
  by (simp add: pop_commissioned_def quarantine_view_def split: option.split)

lemma resolve_executions_quarantine: "quarantine_view (snd (resolve_executions ps un s)) = quarantine_view s"
proof (induction ps arbitrary: un s)
  case (Cons p ps)
  then show ?case by (auto simp: Let_def intro!: bind_quarantine split: prod.split)
qed simp

lemma resolve_executions_keeps:
  "resolve_executions ps un s = (Inr (un', rs), t) \<Longrightarrow> set un \<union> {p \<in> set ps. foreign_execution p s} \<subseteq> set un'"
proof (induction ps arbitrary: un s rs)
  case (Cons p ps)
  show ?case
  proof (cases "foreign_execution p s \<or> unmapped_execution p s \<or> execution_key_of p s \<in> cs_completed s")
    case True
    with Cons.prems Cons.IH [of "un @ [p]" s rs] Cons.IH [of un s rs] show ?thesis by (auto simp: Let_def split: if_splits)
  next
    case False
    let ?s = "s\<lparr>cs_pending := AList.update (execution_key_of p s) p (cs_pending s)\<rparr>"
    let ?e = "plain_note ''ibkr_order_callback_quarantine_resolved'' (Some (xep_report_id p)) (Some (xep_broker_order_id p))
      (Some (xep_execution_id p)) None"
    from False Cons.prems obtain r s1 where r: "pop_commissioned (execution_key_of p s) ?s = (Inr r, s1)"
      and rest: "obind (note_event ?e s1) (\<lambda>_ s2. obind (resolve_executions ps un s2) (\<lambda>(un, rs) s3.
        (Inr (un, (case r of None \<Rightarrow> rs | Some x \<Rightarrow> x # rs)), s3))) = (Inr (un', rs), t)"
      by (auto simp: Let_def obind_Inr_iff [of "pop_commissioned k u" for k u])
    from rest obtain s2 where n: "note_event ?e s1 = (Inr (), s2)" by (auto simp: obind_Inr_iff)
    with rest obtain rs' where more: "resolve_executions ps un s2 = (Inr (un', rs'), t)" by (auto simp: obind_Inr_iff)
    have "quarantine_view s2 = quarantine_view s"
      using pop_quarantine [where s = s] note_quarantine [of ?e s1] r n by (metis snd_conv)
    then have "foreign_execution q s2 = foreign_execution q s" for q by (simp add: quarantine_view_def foreign_iff)
    with Cons.IH [OF more] False show ?thesis by auto
  qed
qed simp

lemma resolve_fills_stuck: "stuck s \<Longrightarrow> stuck (snd (resolve_fills s))"
proof -
  assume s: "stuck s"
  obtain r t where rt: "resolve_executions (cs_q_executions s) [] s = (r, t)" by fastforce
  from resolve_executions_quarantine [of "cs_q_executions s" "[]" s] have v: "quarantine_view t = quarantine_view s" by (simp add: rt)
  then have "stuck t" using s by (simp add: quarantine_view_def stuck_def foreign_iff)
  moreover have "stuck (t\<lparr>cs_q_executions := un\<rparr>)" if "r = Inr (un, rs)" for un rs
    using resolve_executions_keeps [of _ "[]" s un rs t] rt that s v by (fastforce simp: stuck_def quarantine_view_def foreign_iff)
  ultimately show ?thesis by (cases r) (auto simp: resolve_fills_def rt)
qed

interpretation stuck_callbacks: kept_by_steps callback_step stuck "\<lambda>_. True"
proof
  fix s c
  assume "stuck s"
  then show "stuck (fst (callback_step s c))"
    by (cases c) (auto simp: reports_of_def status_stuck open_order_stuck execution_stuck commission_stuck record_stuck flush_pending_executions_def
        flush_stuck resolve_quarantined_callbacks_def intro!: bind_stuck resolve_orders_stuck resolve_fills_stuck)
qed

fun other_account :: "string \<Rightarrow> broker_callback \<Rightarrow> bool" where
  "other_account account (ExecutionCb p) = (xep_account_id p \<notin> {None, Some account})"
| "other_account account (PositionCb p) = (pop_account_id p \<noteq> account)"
| "other_account account (SummaryCb p) = (sup_account_id p \<noteq> account)"
| "other_account account _ = False"

lemma other_account_stuck:
  assumes "callback_valid c" and "other_account (cs_account_id s) c"
  shows "stuck (fst (callback_step s c))"
proof (cases c)
  case (ExecutionCb p)
  with assms have p: "mk_execution_payload p = Inr p" "xep_account_id p \<notin> {None, Some (cs_account_id s)}" by simp_all
  have "\<not> blank ''ibkr_execution_details_received''" by code_simp
  from flush_note_ok [OF p(1) _ this, of None s] obtain t where t: "fill_view t = fill_view s"
      "note_event (plain_note ''ibkr_execution_details_received'' (Some (xep_report_id p)) (Some (xep_broker_order_id p))
        (Some (xep_execution_id p)) None) s = (Inr (), t)"
    by (auto simp: blank_opt_simps)
  with p have "foreign_execution p t" "stuck (t\<lparr>cs_q_executions := cs_q_executions t @ [p]\<rparr>)"
    by (auto simp: foreign_iff fill_view_def stuck_def)
  then show ?thesis by (auto simp: ExecutionCb reports_of_def on_execution_def t(2) intro!: bind_stuck)
qed (use assms in \<open>auto simp: reports_of_def on_position_def on_account_summary_def\<close>)

lemma stuck_refuses: "stuck s \<Longrightarrow> validate_no_unresolved s = Inl (RuntimeError ''unresolved IBKR callbacks require reconciliation before new orders'')"
  by (auto simp: stuck_def validate_no_unresolved_def has_unresolved_def)

lemma account_of_run: 
  assumes "callbacks_init account symbols m = Inr s" and "list_all callback_valid cs"
  shows "cs_account_id (fst (run_steps callback_step s cs)) = account"
  using run_books [OF assms(2), of "\<lambda>_. True" s] init_fills(1) [OF assms(1), of "\<lambda>_. True"] init_fills(3) [OF assms(1)]
    books_ok by (fastforce simp: books_out_def)

text \<open>C32. One execution, position or account value of another account stops every new order until the process restarts: the
  payload stays quarantined whatever arrives or is resolved afterwards, and the adapter refuses each order intent, saying
  that reconciliation is needed.
\<close>

theorem foreign_callback_blocks_orders:
  assumes "callbacks_init account symbols m = Inr s" and "list_all callback_valid (before @ [c])" and "other_account account c"
    and "ib_callbacks a = fst (run_steps callback_step s (before @ c # after))" and "ib_live_check a = Inr ()"
  shows "to_order_request a i client opts = Inl (RuntimeError ''unresolved IBKR callbacks require reconciliation before new orders'')"
proof -
  have v: "list_all callback_valid before" "callback_valid c" using assms(2) by simp_all
  have "stuck (fst (callback_step (fst (run_steps callback_step s before)) c))"
    by (rule other_account_stuck [OF v(2)]) (simp add: account_of_run [OF assms(1) v(1)] assms(3))
  then have "stuck (ib_callbacks a)"
    using stuck_callbacks.run_keeps [of _ after] by (simp add: assms(4) run_steps_append list_all_iff)
  from stuck_refuses [OF this] show ?thesis by (simp add: to_order_request_def assms(5))
qed

section \<open>Reports the order manager receives\<close>

lemma not_inactive_texts:
  "\<not> blank ''ibkr_order_status_received''" "\<not> blank ''ibkr_order_callback_duplicate_dropped''" "\<not> blank ''order_status_already_seen''"
  by code_simp+

lemma status_note_ok:
  assumes "mk_order_status_payload p = Inr p" and "\<not> blank k" and "\<not> blank_opt r"
  shows "\<exists>e. note_event (plain_note k (Some (osp_report_id p)) (Some (osp_broker_order_id p)) None r) t = (Inr (), t\<lparr>cs_events := e\<rparr>)"
  using assms by (simp add: note_event_def plain_note_def mk_callback_event_def mk_order_status_payload_def checked_def blank_opt_simps split: if_splits)
    (rule exI, rule refl)

lemma inactive_report: "mk_order_status_payload p = Inr p \<Longrightarrow> lower (strip (osp_status p)) = ''inactive'' \<Longrightarrow>
    fst (status_report p s) = Inl (ValueError ''reason_code is required for rejected execution reports'') \<and>
    snd (status_report p s) = s\<lparr>cs_seen_statuses := insert (status_key_of p) (cs_seen_statuses s)\<rparr>"
  by (simp add: status_report_def Let_def status_from_ibkr_def ibkr_statuses_def normalize_ibkr_report_def mk_execution_report_def
      report_defaults_def normalize_broker_status_def checked_def missing_text_def mk_order_status_payload_def split: if_splits)

text \<open>C33. A rejection never reaches the order manager. The first \<open>Inactive\<close> status of a known order raises while its report is
  built, because a rejected report needs a reason code and none is passed; but the status is then already marked as seen, so
  when the broker repeats it, it is dropped as a duplicate and the order stays active.
\<close>

theorem rejection_never_reported:
  assumes "mk_order_status_payload p = Inr p" and "lower (strip (osp_status p)) = ''inactive''"
    and "status_key_of p \<notin> cs_seen_statuses s"
    and "cs_order_map s = None \<or> (\<exists>m m'. cs_order_map s = Some m \<and> map_status now p m = (Inr False, m'))"
  shows "fst (on_order_status now p s) = Inl (ValueError ''reason_code is required for rejected execution reports'') \<and>
     fst (on_order_status later p (snd (on_order_status now p s))) = Inr None"
proof -
  from status_note_ok [OF assms(1) not_inactive_texts(1), of None s] obtain e
    where e: "note_event (plain_note ''ibkr_order_status_received'' (Some (osp_report_id p)) (Some (osp_broker_order_id p)) None None) s =
      (Inr (), s\<lparr>cs_events := e\<rparr>)" by (auto simp: blank_opt_simps)
  have first: "fst (on_order_status now p s) = Inl (ValueError ''reason_code is required for rejected execution reports'') \<and>
      status_key_of p \<in> cs_seen_statuses (snd (on_order_status now p s))"
    using assms(3,4) inactive_report [OF assms(1,2)] by (auto simp: on_order_status_def Let_def e)
  define t where "t = snd (on_order_status now p s)"
  from status_note_ok [OF assms(1) not_inactive_texts(1), of None t] obtain e1
    where e1: "note_event (plain_note ''ibkr_order_status_received'' (Some (osp_report_id p)) (Some (osp_broker_order_id p)) None None) t =
      (Inr (), t\<lparr>cs_events := e1\<rparr>)" by (auto simp: blank_opt_simps)
  from status_note_ok [OF assms(1) not_inactive_texts(2), of "Some ''order_status_already_seen''" "t\<lparr>cs_events := e1\<rparr>"] obtain e2
    where e2: "note_event (plain_note ''ibkr_order_callback_duplicate_dropped'' (Some (osp_report_id p)) (Some (osp_broker_order_id p)) None
      (Some ''order_status_already_seen'')) (t\<lparr>cs_events := e1\<rparr>) = (Inr (), t\<lparr>cs_events := e2\<rparr>)"
    using not_inactive_texts by (auto simp: blank_opt_simps)
  have "status_key_of p \<in> cs_seen_statuses t" using first by (simp add: t_def)
  then have "fst (on_order_status later p t) = Inr None" by (simp add: on_order_status_def Let_def e1 e2)
  with first show ?thesis by (simp add: t_def)
qed

text \<open>C34. The first execution of an order closes it, whatever part of the quantity it fills: the report is built as FILLED, the
  order manager moves the order to Filled, and from then on a cancellation of the rest is refused as an illegal transition.
\<close>

theorem partial_execution_closes_order:
  assumes "om_inv m" and "map_of (om_broker_to_order m) (xep_broker_order_id p) = Some oid"
    and "map_of (om_orders m) oid = Some ord" and "or_state ord = Sent \<or> or_state ord = Accepted"
    and "mk_execution_payload p = Inr p" and "0 \<le> c" and "xep_report_id p \<notin> om_seen_report_ids m"
  shows "\<exists>r. book_execution p c = Inr r \<and> er_filled_quantity r = xep_filled_quantity p \<and>
     (let m' = snd (process_report r m) in
        get_order oid m' = Inr (ord\<lparr>or_state := Filled\<rparr>) \<and>
        fst (request_cancel \<lparr>ci_order_id = oid, ci_reason = reason\<rparr> m') = Inl OrderTransitionError)"
proof -
  from book_execution_total [OF assms(5,6)] obtain r where r: "book_execution p c = Inr r" by blast
  then have f: "er_report_id r = xep_report_id p" "er_broker_order_id r = xep_broker_order_id p" "er_status r = RepFilled"
      "er_filled_quantity r = xep_filled_quantity p"
    by (auto simp: book_execution_def normalize_ibkr_report_def mk_execution_report_def report_defaults_def normalize_broker_status_def)
  have st: "map_of (om_machines m) oid = Some (or_state ord)" and id: "or_order_id ord = oid"
    using assms(1,3) by (simp_all add: om_inv_def orders_inv_def)
  have same: "om_orders (snd (fills_for_report x r n)) = om_orders n \<and> om_machines (snd (fills_for_report x r n)) = om_machines n" for x n
    by (simp add: fills_for_report_def Let_def split: option.split sum.split bool.split prod.split)
  let ?m = "snd (process_report r m)"
  have "map_of (om_orders ?m) oid = Some (ord\<lparr>or_state := Filled\<rparr>) \<and> map_of (om_machines ?m) oid = Some Filled"
    using assms(2-4,7) f st id same
    by (cases ord) (auto simp: process_report_def apply_event_def machine_defs replace_order_def Let_def update_conv')
  then show ?thesis
    using r f(4) by (simp add: get_order_def request_cancel_def apply_event_def machine_defs)
qed

text \<open>The broker-backed adapter sends every intent as a market order: neither the order type nor the limit price, time in
  force or bracket of the intent changes anything of what the broker is asked and of what is reported back.
\<close>

theorem limit_orders_sent_as_market:
  "xa_execute (i\<lparr>oi_order_spec := spec\<rparr>) rid account strategy client bar_time a = xa_execute i rid account strategy client bar_time a"
  by (cases i) (simp only: xa_execute_def order_intent.select_convs order_intent.update_convs)

section \<open>Concrete runs\<close>

definition sample_execution :: "string \<Rightarrow> string option \<Rightarrow> execution_payload" where
  "sample_execution xid account = \<lparr>xep_report_id = ''R'' @ xid, xep_broker_order_id = ''7'', xep_execution_id = xid, xep_filled_quantity = 1,
     xep_fill_price = 100, xep_account_id = account, xep_fill_time = None\<rparr>"

definition sample_commission :: "string \<Rightarrow> commission_payload" where
  "sample_commission xid = \<lparr>cmp_execution_id = xid, cmp_commission = 2, cmp_currency = ''USD''\<rparr>"

definition sample_symbols :: symbol_mapping where
  "sample_symbols = \<lparr>sy_broker_id = ''ibkr'', sy_to_broker = [], sy_to_instrument = []\<rparr>"

definition sample_callbacks :: callback_state where
  "sample_callbacks = \<lparr>cs_account_id = ''DU1'', cs_symbols = sample_symbols, cs_order_map = None, cs_events = [], cs_q_executions = [],
     cs_q_open_orders = [], cs_q_statuses = [], cs_q_positions = [], cs_q_summaries = [], cs_seen_statuses = {}, cs_seen_open_orders = {},
     cs_open_orders = [], cs_pending = [], cs_commissions = [], cs_completed = {}, cs_positions = [], cs_cash = []\<rparr>"

lemma sample_init: "callbacks_init ''DU1'' sample_symbols None = Inr sample_callbacks"
  by (simp add: callbacks_init_def sample_callbacks_def is_space_def)

definition sample_run :: "broker_callback list" where
  "sample_run = [CommissionCb (sample_commission ''X1''), ExecutionCb (sample_execution ''X1'' None), ExecutionCb (sample_execution ''X1'' None),
     ExecutionCb (sample_execution ''X2'' (Some ''DU1'')), FlushCb ''reconnect'', CommissionCb (sample_commission ''X2'')]"

lemma sample_run_valid: "list_all callback_valid sample_run"
  by code_simp

lemma sample_run_fills:
  "map fill_key (filter is_fill (snd (run_steps callback_step sample_callbacks sample_run))) = [(''7'', ''X1''), (''7'', ''X2'')]"
  by code_simp


theorem executions_not_lost_witness:
  "(''7'', ''X1'') \<in> fill_key ` set (filter is_fill (snd (run_steps callback_step sample_callbacks
     ([] @ ExecutionCb (sample_execution ''X1'' None) # [ExecutionCb (sample_execution ''X2'' (Some ''DU2''))] @ [FlushCb ''shutdown'']))))"
proof -
  have v: "list_all callback_valid ([] @ ExecutionCb (sample_execution ''X1'' None) #
      [ExecutionCb (sample_execution ''X2'' (Some ''DU2''))] @ [FlushCb ''shutdown''])"
    by code_simp
  have o': "let s1 = fst (run_steps callback_step sample_callbacks []) in
      \<not> foreign_execution (sample_execution ''X1'' None) s1 \<and> \<not> unmapped_execution (sample_execution ''X1'' None) s1"
    by (simp add: foreign_execution_def unmapped_execution_def sample_execution_def sample_callbacks_def)
  from executions_not_lost [OF sample_init v o'] show ?thesis by (simp add: sample_execution_def del: callback_step.simps)
qed

definition sample_adapter :: ibkr_adapter where
  "sample_adapter = \<lparr>ib_callbacks = fst (run_steps callback_step sample_callbacks
       ([] @ ExecutionCb (sample_execution ''X1'' (Some ''DU2'')) # [ResolveCb 0, FlushCb ''reconnect''])),
     ib_capabilities = default_ibkr_capabilities ''ibkr'', ib_live_capital = None\<rparr>"

definition sample_options :: request_options where
  "sample_options = \<lparr>ro_strategy_id = None, ro_order_type = None, ro_time_in_force = None, ro_limit_price = None, ro_asset_class = ''equity'',
     ro_opens_short = False, ro_contract = None, ro_outside_hours = False, ro_what_if = False\<rparr>"

theorem foreign_callback_blocks_orders_witness:
  "to_order_request sample_adapter sample_intent ''C1'' sample_options = Inl (RuntimeError ''unresolved IBKR callbacks require reconciliation before new orders'')"
proof (rule foreign_callback_blocks_orders [OF sample_init, where before = "[]" and c = "ExecutionCb (sample_execution ''X1'' (Some ''DU2''))"
      and after = "[ResolveCb 0, FlushCb ''reconnect'']"])
  show "list_all callback_valid ([] @ [ExecutionCb (sample_execution ''X1'' (Some ''DU2''))])" by code_simp
qed (simp_all add: sample_adapter_def sample_execution_def ib_live_check_def)

definition sample_inactive :: order_status_payload where
  "sample_inactive = \<lparr>osp_report_id = ''S1'', osp_broker_order_id = ''7'', osp_status = ''Inactive'', osp_perm_id = None\<rparr>"

theorem rejection_never_reported_witness:
  "fst (on_order_status 1 sample_inactive sample_callbacks) = Inl (ValueError ''reason_code is required for rejected execution reports'') \<and>
   fst (on_order_status 2 sample_inactive (snd (on_order_status 1 sample_inactive sample_callbacks))) = Inr None"
proof -
  have v: "mk_order_status_payload sample_inactive = Inr sample_inactive" "lower (strip (osp_status sample_inactive)) = ''inactive''"
    by code_simp+
  show ?thesis by (rule rejection_never_reported [OF v]) (simp_all add: sample_callbacks_def)
qed

definition sample_partial :: execution_payload where
  "sample_partial = (sample_execution ''X1'' None)\<lparr>xep_broker_order_id := ''B1''\<rparr>"

theorem partial_execution_closes_order_witness:
  "oi_quantity sample_intent = 2 \<and> xep_filled_quantity sample_partial = 1 \<and>
   (\<exists>r. book_execution sample_partial 0 = Inr r \<and> er_filled_quantity r = 1 \<and>
     fst (request_cancel \<lparr>ci_order_id = ''O1'', ci_reason = None\<rparr> (snd (process_report r sample_sent))) = Inl OrderTransitionError)"
proof -
  have q: "oi_quantity sample_intent = 2" "xep_filled_quantity sample_partial = 1"
    by (simp_all add: sample_intent_def sample_partial_def sample_execution_def)
  have v: "mk_execution_payload sample_partial = Inr sample_partial" by code_simp
  let ?ord = "\<lparr>or_order_id = ''O1'', or_intent = sample_intent, or_state = Sent, or_broker_order_id = Some ''B1''\<rparr>"
  have o': "map_of (om_broker_to_order sample_sent) (xep_broker_order_id sample_partial) = Some ''O1''"
      "map_of (om_orders sample_sent) ''O1'' = Some ?ord" "or_state ?ord = Sent \<or> or_state ?ord = Accepted"
      "xep_report_id sample_partial \<notin> om_seen_report_ids sample_sent"
    by (simp_all add: sample_sent_eq sample_partial_def)
  from partial_execution_closes_order [OF sample_sent_inv o'(1-3) v order.refl o'(4), of None] q show ?thesis by (auto simp: Let_def)
qed

end
