(* ===== verification/Broker_Transport.thy ===== *)
theory Broker_Transport
  imports Broker_Fills Trading_Actors
begin

text \<open>
  The transport of the Interactive Brokers adapter (\<open>execution/transports/\<close>): contracts and orders as they are handed to the
  TWS client, bracket orders, the order client with its id reservation, the dispatcher that turns raw callbacks into
  payloads and publishes what the adapter makes of them, the queue of published events and the two waits on it, and the
  startup requests.

  The TWS client library is outside the model: what the code calls on it is recorded in order (\<open>oc_placed\<close>, \<open>oc_cancelled\<close>,
  \<open>rc_requests\<close>), and prices are the decimals handed to \<open>float\<close>. The adapter is the callback sink.
\<close>

section \<open>Integers as text\<close>

definition int_text :: "int \<Rightarrow> string" where
  "int_text n = (if n < 0 then CHR ''-'' # nat_str (nat (- n)) else nat_str (nat n))"

definition digit_value :: "char \<Rightarrow> int option" where
  "digit_value c = map_of (zip ''0123456789'' [0, 1, 2, 3, 4, 5, 6, 7, 8, 9]) c"

text \<open>The digits of \<open>int(s)\<close>: single underscores are allowed between digits.\<close>

fun read_digits :: "bool \<Rightarrow> int \<Rightarrow> string \<Rightarrow> int option" where
  "read_digits after_digit acc [] = (if after_digit then Some acc else None)"
| "read_digits after_digit acc (c # cs) = (case digit_value c of
     Some d \<Rightarrow> read_digits True (10 * acc + d) cs
   | None \<Rightarrow> if c = CHR ''_'' \<and> after_digit then read_digits False acc cs else None)"

definition py_int :: "string \<Rightarrow> int res" where
  "py_int s = (case (case strip s of
       [] \<Rightarrow> None
     | c # cs \<Rightarrow> if c = CHR ''-'' then map_option uminus (read_digits False 0 cs)
         else if c = CHR ''+'' then read_digits False 0 cs else read_digits False 0 (c # cs)) of
     None \<Rightarrow> Inl (ValueError ''invalid literal for int() with base 10'') | Some n \<Rightarrow> Inr n)"

section \<open>Contracts and orders (\<open>ibkr_tws_order_execution_transport.py\<close>)\<close>

text \<open>The attributes the code sets; an attribute it does not set is \<open>None\<close>.\<close>

record ib_contract =
  ic_symbol :: string
  ic_sec_type :: string
  ic_exchange :: string
  ic_currency :: string
  ic_primary_exchange :: "string option"
  ic_month :: "string option"

record ib_order =
  io_order_id :: "int option"
  io_action :: string
  io_quantity :: decimal
  io_tif :: string
  io_account :: string
  io_ref :: string
  io_parent_id :: "int option"
  io_transmit :: bool
  io_outside_hours :: bool
  io_what_if :: bool
  io_type :: string
  io_limit :: "decimal option"
  io_aux :: "decimal option"

definition stock_contract :: "string \<Rightarrow> string \<Rightarrow> string \<Rightarrow> string option \<Rightarrow> contract_spec_ibkr res" where
  "stock_contract symbol exchange currency primary = mk_contract_spec_ibkr
     \<lparr>ct_broker_symbol = symbol, ct_security_type = ''STK'', ct_exchange = exchange, ct_currency = currency,
      ct_primary_exchange = primary, ct_contract_month = None\<rparr>"

definition future_contract :: "string \<Rightarrow> string \<Rightarrow> string \<Rightarrow> string \<Rightarrow> contract_spec_ibkr res" where
  "future_contract symbol exchange currency month = mk_contract_spec_ibkr
     \<lparr>ct_broker_symbol = symbol, ct_security_type = ''FUT'', ct_exchange = exchange, ct_currency = currency,
      ct_primary_exchange = None, ct_contract_month = Some month\<rparr>"

definition contract_spec_of :: "ibkr_order_request \<Rightarrow> contract_spec_ibkr res" where
  "contract_spec_of q = (case iq_contract q of None \<Rightarrow> stock_contract (iq_broker_symbol q) ''SMART'' ''USD'' None | Some c \<Rightarrow> Inr c)"

definition to_ib_contract :: "contract_spec_ibkr \<Rightarrow> ib_contract" where
  "to_ib_contract c = \<lparr>ic_symbol = ct_broker_symbol c, ic_sec_type = ct_security_type c, ic_exchange = ct_exchange c,
     ic_currency = ct_currency c, ic_primary_exchange = ct_primary_exchange c, ic_month = ct_contract_month c\<rparr>"

definition request_contract :: "ibkr_order_request \<Rightarrow> ib_contract res" where
  "request_contract q = res_bind (contract_spec_of q) (\<lambda>c. Inr (to_ib_contract c))"

fun tif_value :: "time_in_force \<Rightarrow> string" where
  "tif_value DAY = ''day''"
| "tif_value GTC = ''gtc''"
| "tif_value IOC = ''ioc''"
| "tif_value FOK = ''fok''"
| "tif_value GTD = ''gtd''"
| "tif_value OPG = ''opg''"
| "tif_value ATC = ''atc''"

text \<open>The fields every order of a request has.\<close>

definition order_of_request :: "ibkr_order_request \<Rightarrow> ib_order" where
  "order_of_request q = \<lparr>io_order_id = None, io_action = upper (iq_side q), io_quantity = iq_quantity q,
     io_tif = upper (tif_value (iq_time_in_force q)), io_account = iq_account_id q, io_ref = iq_client_order_id q,
     io_parent_id = None, io_transmit = True, io_outside_hours = iq_outside_hours q, io_what_if = iq_what_if q,
     io_type = [], io_limit = None, io_aux = None\<rparr>"

definition to_ib_order :: "ibkr_order_request \<Rightarrow> ib_order" where
  "to_ib_order q = (let base = order_of_request q in
     case iq_order_type q of
       MARKET \<Rightarrow> base\<lparr>io_type := ''MKT''\<rparr>
     | LIMIT \<Rightarrow> base\<lparr>io_type := ''LMT'', io_limit := Some (case iq_limit_price q of None \<Rightarrow> 0 | Some p \<Rightarrow> p)\<rparr>
     | t \<Rightarrow> base\<lparr>io_type := upper (order_type_value t)\<rparr>)"

text \<open>The order type, limit price and stop price of a leg.\<close>

definition leg_price :: "bracket_leg \<Rightarrow> (string \<times> decimal option \<times> decimal option) res" where
  "leg_price l = (case leg_order_type l of
     LIMIT \<Rightarrow> (case leg_limit_price l of None \<Rightarrow> Inl (ValueError ''limit bracket legs require limit_price'')
         | Some p \<Rightarrow> Inr (''LMT'', Some p, None))
   | STOP \<Rightarrow> (case leg_stop_price l of None \<Rightarrow> Inl (ValueError ''stop bracket legs require stop_price'')
         | Some p \<Rightarrow> Inr (''STP'', None, Some p))
   | STOP_LIMIT \<Rightarrow> (case (leg_stop_price l, leg_limit_price l) of
         (Some sp, Some lp) \<Rightarrow> Inr (''STP LMT'', Some lp, Some sp)
       | _ \<Rightarrow> Inl (ValueError ''stop_limit bracket legs require stop_price and limit_price''))
   | t \<Rightarrow> Inl (ValueError (''unsupported bracket leg order type: '' @ order_type_value t)))"

definition bracket_parent :: "ibkr_order_request \<Rightarrow> int \<Rightarrow> ib_order" where
  "bracket_parent q parent = (order_of_request q)\<lparr>io_order_id := Some parent, io_transmit := iq_what_if q,
     io_type := (case iq_limit_price q of None \<Rightarrow> ''MKT'' | Some p \<Rightarrow> ''LMT''), io_limit := iq_limit_price q\<rparr>"

definition bracket_child :: "ibkr_order_request \<Rightarrow> int \<Rightarrow> nat \<Rightarrow> nat \<times> int \<times> bracket_leg \<Rightarrow> ib_order res" where
  "bracket_child q parent legs x = (case x of (index, child, l) \<Rightarrow>
     res_bind (leg_price l) (\<lambda>(t, limit, aux). Inr ((order_of_request q)\<lparr>io_order_id := Some child,
       io_action := upper (side_value (leg_side l)), io_quantity := leg_quantity l,
       io_ref := iq_client_order_id q @ ''-bracket-'' @ int_text (int index + 1), io_parent_id := Some parent,
       io_transmit := iq_what_if q \<or> index + 1 = legs, io_type := t, io_limit := limit, io_aux := aux\<rparr>)))"

definition bracket_orders :: "ibkr_order_request \<Rightarrow> int \<Rightarrow> int list \<Rightarrow> ib_order list res" where
  "bracket_orders q parent children =
     (if iq_order_type q \<noteq> BRACKET then Inl (ValueError ''bracket order conversion requires order_type=BRACKET'')
      else case iq_bracket_legs q of
        None \<Rightarrow> Inl (ValueError ''bracket_legs are required for bracket orders'')
      | Some legs \<Rightarrow>
         (if length children \<noteq> length legs then Inl (ValueError ''one child order id is required for each bracket leg'')
          else res_bind (res_map (bracket_child q parent (length legs)) (enumerate 0 (zip children legs)))
             (\<lambda>kids. Inr (bracket_parent q parent # kids))))"

section \<open>The order client (\<open>ibkr_tws_order_client.py\<close>)\<close>

record order_client =
  oc_client_id :: int
  oc_ids :: id_allocator
  oc_sink :: callback_state
  oc_placed :: "(int \<times> ib_contract \<times> ib_order) list"
  oc_cancelled :: "int list"

definition reserve_order_id :: "order_client \<Rightarrow> (order_client, int) outcome" where
  "reserve_order_id c = (case next_id (oc_client_id c) (oc_ids c) of
     Inl e \<Rightarrow> (Inl e, c)
   | Inr None \<Rightarrow> (Inl (RuntimeError ''IBKR order-execution transport has no next order id''), c)
   | Inr (Some n) \<Rightarrow> (case allocate (oc_client_id c) (oc_ids c) of (r, ids) \<Rightarrow> (r, c\<lparr>oc_ids := ids\<rparr>)))"

fun reserve_order_ids :: "nat \<Rightarrow> order_client \<Rightarrow> (order_client, int list) outcome" where
  "reserve_order_ids 0 c = (Inr [], c)"
| "reserve_order_ids (Suc k) c = obind (reserve_order_id c) (\<lambda>n c1. obind (reserve_order_ids k c1) (\<lambda>ns c2. (Inr (n # ns), c2)))"

text \<open>The calls of \<open>placeOrder\<close>, then the record of the submission.\<close>

definition place_and_record ::
  "instant \<Rightarrow> ibkr_order_request \<Rightarrow> int \<Rightarrow> ib_contract \<Rightarrow> (int \<times> ib_order) list \<Rightarrow> order_client \<Rightarrow> (order_client, string) outcome" where
  "place_and_record now q n contract orders c =
     (let c1 = c\<lparr>oc_placed := oc_placed c @ map (\<lambda>(k, x). (k, contract, x)) orders\<rparr> in
      case record_submitted_order q (int_text n) now (oc_sink c1) of
        (r, sink) \<Rightarrow> (res_bind r (\<lambda>_. Inr (int_text n)), c1\<lparr>oc_sink := sink\<rparr>))"

definition tws_submit_order :: "instant \<Rightarrow> ibkr_order_request \<Rightarrow> order_client \<Rightarrow> (order_client, string) outcome" where
  "tws_submit_order now q c = obind (reserve_order_id c) (\<lambda>n c1.
     if iq_order_type q = BRACKET
     then obind (reserve_order_ids (case iq_bracket_legs q of None \<Rightarrow> 0 | Some legs \<Rightarrow> length legs) c1) (\<lambda>children c2.
            case res_bind (request_contract q) (\<lambda>ct. res_bind (bracket_orders q n children) (\<lambda>os. Inr (ct, os))) of
              Inl e \<Rightarrow> (Inl e, c2)
            | Inr (ct, os) \<Rightarrow> place_and_record now q n ct (zip (n # children) os) c2)
     else case request_contract q of
            Inl e \<Rightarrow> (Inl e, c1)
          | Inr ct \<Rightarrow> place_and_record now q n ct [(n, to_ib_order q)] c1)"

definition tws_cancel_order :: "string \<Rightarrow> order_client \<Rightarrow> (order_client, unit) outcome" where
  "tws_cancel_order k c =
     (if blank k then (Inl (ValueError ''broker_order_id must not be empty''), c)
      else case py_int k of Inl e \<Rightarrow> (Inl e, c) | Inr n \<Rightarrow> (Inr (), c\<lparr>oc_cancelled := oc_cancelled c @ [n]\<rparr>))"

definition mark_next_order_id :: "int \<Rightarrow> order_client \<Rightarrow> (order_client, unit) outcome" where
  "mark_next_order_id n c =
     (if n \<le> 0 then (Inl (ValueError ''order_id must be positive''), c)
      else case reconcile_next_valid_id (oc_client_id c) n (oc_ids c) of (r, ids) \<Rightarrow> (r, c\<lparr>oc_ids := ids\<rparr>))"

section \<open>Requests after startup or reconnect (\<open>ibkr_tws_reconciliation_client.py\<close>)\<close>

datatype app_request = ReqOpenOrders | ReqAllOpenOrders | ReqPositions | ReqExecutions int | ReqAccountSummary int string string

record reconciliation_client =
  rc_all_open_orders :: bool
  rc_request_sequence :: int
  rc_requests :: "app_request list"

definition request_startup_reconciliation :: "reconciliation_client \<Rightarrow> reconciliation_client" where
  "request_startup_reconciliation c =
     (let n = rc_request_sequence c in
      c\<lparr>rc_request_sequence := n + 2,
        rc_requests := rc_requests c @ [ReqOpenOrders] @ (if rc_all_open_orders c then [ReqAllOpenOrders] else []) @
          [ReqPositions, ReqExecutions (n + 1), ReqAccountSummary (n + 2) ''All'' ''NetLiquidation,TotalCashValue,AvailableFunds'']\<rparr>)"

section \<open>Settings and cancel or replace support\<close>

record transport_config =
  tc_host :: string
  tc_port :: int
  tc_client_id :: int
  tc_timeout_seconds :: decimal
  tc_all_open_orders :: bool

definition mk_transport_config :: "transport_config \<Rightarrow> transport_config res" where
  [ctor_simps]: "mk_transport_config c = checked
     [(blank (tc_host c), ValueError ''host must not be empty''),
      (tc_port c \<le> 0, ValueError ''port must be positive''),
      (tc_client_id c \<le> 0, ValueError ''client_id must be positive''),
      (tc_timeout_seconds c \<le> 0, ValueError ''timeout_seconds must be positive'')] c"

record execution_connection =
  xc_host :: string
  xc_port :: int
  xc_client_id :: int
  xc_broker_id :: broker_id
  xc_account_id :: string

definition mk_execution_connection :: "execution_connection \<Rightarrow> execution_connection res" where
  [ctor_simps]: "mk_execution_connection c = checked
     [(blank (xc_host c), ValueError ''host must not be empty''),
      (xc_port c \<le> 0, ValueError ''port must be positive''),
      (xc_client_id c \<le> 0, ValueError ''client_id must be positive''),
      (blank (xc_account_id c), ValueError ''account_id must not be empty'')] c"

section \<open>The queue of published events\<close>

record transport_error =
  te_request_id :: int
  te_code :: int
  te_message :: string

datatype transport_event = ReportEvent execution_report | ErrorEvent transport_error | DisconnectEvent string | ReconnectEvent string

record transport =
  tp_client :: order_client
  tp_reports :: "transport_event list"
  tp_seen_errors :: "transport_error list"
  tp_managed_accounts :: "string list"
  tp_ready :: bool

definition publish :: "transport_event list \<Rightarrow> transport \<Rightarrow> transport" where
  "publish es tp = tp\<lparr>tp_reports := tp_reports tp @ es\<rparr>"

definition info_error_codes :: "int list" where
  "info_error_codes = [399, 1100, 1101, 1102, 1104, 2103, 2104, 2105, 2106, 2107, 2108, 2110, 2119, 2157, 2158]"

text \<open>
  The loop of the two waits over what the queue delivers before the deadline: the first report that passes is returned, a
  report that does not pass is gone, an error is kept in the list of seen errors and raised unless its code is informational.
\<close>

fun await_report ::
  "(execution_report \<Rightarrow> bool) \<Rightarrow> exn \<Rightarrow> transport_event list \<Rightarrow> transport_error list \<Rightarrow>
   execution_report res \<times> transport_event list \<times> transport_error list" where
  "await_report ok timeout [] seen = (Inl timeout, [], seen)"
| "await_report ok timeout (ErrorEvent e # es) seen =
     (if te_code e \<in> set info_error_codes then await_report ok timeout es (seen @ [e])
      else (Inl (RuntimeError ''IBKR order-execution error''), es, seen @ [e]))"
| "await_report ok timeout (DisconnectEvent reason # es) seen = await_report ok timeout es seen"
| "await_report ok timeout (ReconnectEvent reason # es) seen = await_report ok timeout es seen"
| "await_report ok timeout (ReportEvent r # es) seen = (if ok r then (Inr r, es, seen) else await_report ok timeout es seen)"

definition await_in :: "(execution_report \<Rightarrow> bool) \<Rightarrow> exn \<Rightarrow> transport \<Rightarrow> (transport, execution_report) outcome" where
  "await_in ok timeout tp = (case await_report ok timeout (tp_reports tp) (tp_seen_errors tp) of
     (r, es, seen) \<Rightarrow> (r, tp\<lparr>tp_reports := es, tp_seen_errors := seen\<rparr>))"

definition status_wanted :: "string \<Rightarrow> report_status list \<Rightarrow> execution_report \<Rightarrow> bool" where
  "status_wanted k statuses r \<longleftrightarrow> er_broker_order_id r = k \<and> er_status r \<in> set statuses"

definition wait_for_order_status :: "string \<Rightarrow> report_status list \<Rightarrow> transport \<Rightarrow> (transport, execution_report) outcome" where
  "wait_for_order_status k statuses tp =
     (if blank k then (Inl (ValueError ''broker_order_id must not be empty''), tp)
      else if statuses = [] then (Inl (ValueError ''statuses must not be empty''), tp)
      else await_in (status_wanted k statuses) (TimeoutError ''timed out waiting for IBKR order status.'') tp)"

definition fill_wanted :: "string \<Rightarrow> execution_report \<Rightarrow> bool" where
  "fill_wanted k r \<longleftrightarrow> er_broker_order_id r = k \<and> er_fill_id r \<noteq> None \<and> 0 < er_filled_quantity r \<and> er_fill_price r \<noteq> None"

definition wait_for_fill_report :: "string \<Rightarrow> transport \<Rightarrow> (transport, execution_report) outcome" where
  "wait_for_fill_report k tp =
     (if blank k then (Inl (ValueError ''broker_order_id must not be empty''), tp)
      else await_in (fill_wanted k) (TimeoutError ''timed out waiting for IBKR fill report.'') tp)"

section \<open>Raw callbacks (\<open>ibkr_tws_callback_dispatcher.py\<close>)\<close>

text \<open>
  An attribute that is missing, empty or zero in the sense of the code is \<open>None\<close>; the permanent id of an open order is kept as it is.
  Numbers come as decimals.
\<close>

record raw_open_order =
  rw_order_ref :: string
  rw_perm_id :: "int option"
  rw_action :: "string option"
  rw_total_quantity :: "decimal option"
  rw_status :: string
  rw_symbol :: "string option"

datatype raw_callback =
    RawOrderStatus int string "int option"
  | RawOpenOrder int raw_open_order
  | RawPosition string string decimal
  | RawAccountSummary string string decimal string
  | RawExecution string int decimal decimal string
  | RawCommission string decimal string
  | RawError int int string
  | RawDisconnect string
  | RawReconnect string
  | NextValidId int
  | ManagedAccounts string

definition nonempty :: "string \<Rightarrow> string option" where
  "nonempty s = (if s = [] then None else Some s)"

definition raw_status_payload :: "int \<Rightarrow> string \<Rightarrow> int option \<Rightarrow> order_status_payload res" where
  "raw_status_payload order_id status perm = mk_order_status_payload
     \<lparr>osp_report_id = ''ibkr-status-'' @ int_text order_id @ ''-'' @ lower status, osp_broker_order_id = int_text order_id,
      osp_status = status, osp_perm_id = map_option int_text perm\<rparr>"

definition raw_open_order_payload :: "int \<Rightarrow> raw_open_order \<Rightarrow> open_order_payload res" where
  "raw_open_order_payload order_id ro = mk_open_order_payload
     \<lparr>oop_report_id = ''ibkr-open-order-'' @ int_text order_id, oop_broker_order_id = int_text order_id,
      oop_client_order_id = nonempty (strip (rw_order_ref ro)),
      oop_perm_id = (case rw_perm_id ro of None \<Rightarrow> None | Some n \<Rightarrow> if n = 0 then None else Some (int_text n)),
      oop_status = nonempty (strip (rw_status ro)), oop_broker_symbol = Option.bind (rw_symbol ro) (\<lambda>s. nonempty (strip s)),
      oop_side = Option.bind (rw_action ro) (\<lambda>s. nonempty (strip s)), oop_quantity = rw_total_quantity ro\<rparr>"

definition raw_execution_payload :: "string \<Rightarrow> int \<Rightarrow> decimal \<Rightarrow> decimal \<Rightarrow> string \<Rightarrow> execution_payload res" where
  "raw_execution_payload exec_id order_id shares price account = mk_execution_payload
     \<lparr>xep_report_id = ''ibkr-exec-'' @ exec_id, xep_broker_order_id = int_text order_id, xep_execution_id = exec_id,
      xep_filled_quantity = shares, xep_fill_price = price, xep_account_id = nonempty (strip account), xep_fill_time = None\<rparr>"

text \<open>A call of the adapter, after the constructor of its payload.\<close>

definition in_sink :: "('a \<Rightarrow> callback_state \<Rightarrow> (callback_state, 'b) outcome) \<Rightarrow> 'a res \<Rightarrow> transport \<Rightarrow> (transport, 'b) outcome" where
  "in_sink f payload tp = (case payload of
     Inl e \<Rightarrow> (Inl e, tp)
   | Inr p \<Rightarrow> (case f p (oc_sink (tp_client tp)) of
       (r, sink) \<Rightarrow> (r, tp\<lparr>tp_client := (tp_client tp)\<lparr>oc_sink := sink\<rparr>\<rparr>)))"

definition publish_reports :: "('b \<Rightarrow> execution_report list) \<Rightarrow> (transport, 'b) outcome \<Rightarrow> (transport, unit) outcome" where
  "publish_reports f r = obind r (\<lambda>v tp. (Inr (), publish (map ReportEvent (f v)) tp))"

fun handle_raw :: "instant \<Rightarrow> raw_callback \<Rightarrow> transport \<Rightarrow> (transport, unit) outcome" where
  "handle_raw now (RawOrderStatus n status perm) tp = publish_reports option_list (in_sink (on_order_status now) (raw_status_payload n status perm) tp)"
| "handle_raw now (RawOpenOrder n ro) tp = in_sink (on_open_order now) (raw_open_order_payload n ro) tp"
| "handle_raw now (RawPosition account symbol quantity) tp = in_sink on_position (mk_position_payload
     \<lparr>pop_account_id = account, pop_broker_symbol = strip symbol, pop_quantity = quantity\<rparr>) tp"
| "handle_raw now (RawAccountSummary account tag v currency) tp = in_sink on_account_summary (mk_summary_payload
     \<lparr>sup_account_id = account, sup_tag = tag, sup_value = v, sup_currency = currency\<rparr>) tp"
| "handle_raw now (RawExecution x n shares price account) tp =
     publish_reports option_list (in_sink on_execution (raw_execution_payload x n shares price account) tp)"
| "handle_raw now (RawCommission x c currency) tp = publish_reports commission_reports (in_sink on_commission (mk_commission_payload
     \<lparr>cmp_execution_id = x, cmp_commission = c, cmp_currency = currency\<rparr>) tp)"
| "handle_raw now (RawError n code message) tp =
     (Inr (), if blank message then tp else publish [ErrorEvent \<lparr>te_request_id = n, te_code = code, te_message = message\<rparr>] tp)"
| "handle_raw now (RawDisconnect reason) tp =
     (if blank reason then (Inl (ValueError ''reason must not be empty''), tp) else (Inr (), publish [DisconnectEvent reason] tp))"
| "handle_raw now (RawReconnect reason) tp =
     (if blank reason then (Inl (ValueError ''reason must not be empty''), tp) else (Inr (), publish [ReconnectEvent reason] tp))"
| "handle_raw now (NextValidId n) tp = (case mark_next_order_id n (tp_client tp) of
     (Inl e, c) \<Rightarrow> (Inl e, tp\<lparr>tp_client := c\<rparr>) | (Inr u, c) \<Rightarrow> (Inr (), tp\<lparr>tp_client := c, tp_ready := True\<rparr>))"
| "handle_raw now (ManagedAccounts accounts) tp =
     (Inr (), tp\<lparr>tp_managed_accounts := filter (\<lambda>a. a \<noteq> []) (map strip (split_commas accounts))\<rparr>)"

definition transport_submit :: "instant \<Rightarrow> ibkr_order_request \<Rightarrow> transport \<Rightarrow> (transport, string) outcome" where
  "transport_submit now q tp = (case tws_submit_order now q (tp_client tp) of (r, c) \<Rightarrow> (r, tp\<lparr>tp_client := c\<rparr>))"

section \<open>The text of an integer reads back\<close>

lemma digit_value_char: "n < 10 \<Longrightarrow> digit_value (char_of (48 + n)) = Some (int n)"
proof -
  assume "n < 10"
  then have "n = 0 \<or> n = 1 \<or> n = 2 \<or> n = 3 \<or> n = 4 \<or> n = 5 \<or> n = 6 \<or> n = 7 \<or> n = 8 \<or> n = 9" by presburger
  then show ?thesis by (elim disjE; hypsubst; code_simp)
qed

lemma read_digits_append:
  "list_all (\<lambda>c. digit_value c \<noteq> None) s \<Longrightarrow> digit_value c = Some d \<Longrightarrow>
     read_digits b acc (s @ [c]) = map_option (\<lambda>v. 10 * v + d) (if s = [] then Some acc else read_digits b acc s)"
  by (induction s arbitrary: b acc) (auto split: option.splits)

lemma nat_str_nonempty [simp]: "nat_str n \<noteq> []"
  by (subst nat_str.simps) simp

lemma nat_str_digits: "list_all (\<lambda>c. digit_value c \<noteq> None) (nat_str n)"
  by (induction n rule: nat_str.induct) (subst nat_str.simps, auto simp: digit_value_char)

lemma read_nat_str: "read_digits b 0 (nat_str n) = Some (int n)"
proof (induction n arbitrary: b rule: nat_str.induct)
  case (1 n)
  show ?case
  proof (cases "n < 10")
    case True
    then show ?thesis by (simp add: nat_str.simps [of n] digit_value_char)
  next
    case False
    with 1 have "read_digits b 0 (nat_str (n div 10)) = Some (int (n div 10))" by simp
    moreover have "digit_value (char_of (48 + n mod 10)) = Some (int (n mod 10))" by (rule digit_value_char) simp
    from read_digits_append [where s = "nat_str (n div 10)" and b = b and acc = 0, OF nat_str_digits this]
    have "read_digits b 0 (nat_str (n div 10) @ [char_of (48 + n mod 10)]) =
        map_option (\<lambda>v. 10 * v + int (n mod 10)) (read_digits b 0 (nat_str (n div 10)))" by simp
    moreover have "10 * int (n div 10) + int (n mod 10) = int n" by presburger
    ultimately show ?thesis using False by (simp add: nat_str.simps [of n])
  qed
qed

lemma int_text_inj: "0 \<le> m \<Longrightarrow> 0 \<le> n \<Longrightarrow> int_text m = int_text n \<longleftrightarrow> m = n"
  by (metis eq_nat_nat_iff int_text_def not_less str_nat_nat_str)

section \<open>Bracket orders go out as one group\<close>

lemma res_map_lengths: "res_map f xs = Inr ys \<Longrightarrow> length ys = length xs"
  by (simp add: res_map_Inr_iff list_all2_lengthD)

lemma bracket_child_fields:
  assumes "bracket_child q parent n (index, child, l) = Inr x"
  shows "io_order_id x = Some child \<and> io_parent_id x = Some parent \<and> io_transmit x = (iq_what_if q \<or> index + 1 = n) \<and>
    io_quantity x = leg_quantity l \<and> io_action x = upper (side_value (leg_side l))"
proof -
  from assms obtain t limit aux where "leg_price l = Inr (t, limit, aux)" by (cases "leg_price l") (auto simp: bracket_child_def)
  with assms have "x = (order_of_request q)\<lparr>io_order_id := Some child, io_action := upper (side_value (leg_side l)),
       io_quantity := leg_quantity l, io_ref := iq_client_order_id q @ ''-bracket-'' @ int_text (int index + 1), io_parent_id := Some parent,
       io_transmit := iq_what_if q \<or> index + 1 = n, io_type := t, io_limit := limit, io_aux := aux\<rparr>"
    by (simp add: bracket_child_def)
  then show ?thesis by simp
qed


section \<open>Submission\<close>

definition next_cursor :: "order_client \<Rightarrow> int option" where
  "next_cursor c = map_of (al_next_ids (oc_ids c)) (oc_client_id c)"

lemma reserve_order_id_effect:
  "reserve_order_id c = (Inr n, c1) \<Longrightarrow> next_cursor c = Some n \<and> next_cursor c1 = Some (n + 1) \<and> oc_sink c1 = oc_sink c \<and>
     oc_placed c1 = oc_placed c"
  by (auto simp: reserve_order_id_def next_id_def allocate_def al_persist_def next_cursor_def update_conv' split: if_splits option.splits prod.splits)

lemma reserve_order_ids_effect:
  "reserve_order_ids k c = (Inr ns, c1) \<Longrightarrow> next_cursor c = Some n \<Longrightarrow> ns = map (\<lambda>i. n + int i) [0..<k] \<and> oc_sink c1 = oc_sink c \<and>
     oc_placed c1 = oc_placed c"
proof (induction k arbitrary: c ns n)
  case (Suc k)
  from Suc.prems(1) obtain n' c' ms where r: "reserve_order_id c = (Inr n', c')" "reserve_order_ids k c' = (Inr ms, c1)" "ns = n' # ms"
    by (auto simp: obind_Inr_iff)
  from reserve_order_id_effect [OF r(1)] Suc.prems(2) have e: "n' = n" "next_cursor c' = Some (n + 1)" "oc_sink c' = oc_sink c" "oc_placed c' = oc_placed c"
    by simp_all
  have "[0..<Suc k] = 0 # map Suc [0..<k]" by (simp add: upt_conv_Cons map_Suc_upt del: upt_Suc)
  with Suc.IH [OF r(2) e(2)] e r(3) show ?case by simp
qed simp

text \<open>Recording a submission indexes the order under its own broker id and under no other.\<close>

lemma reindex_other: "map_of idx j = None \<Longrightarrow> new \<noteq> Some j \<Longrightarrow> map_of (reindex old new c idx) j = None"
  by (auto simp: map_of_reindex)

lemma store_other:
  "map_of (bm_client_by_ibkr m) j = None \<Longrightarrow> bo_ibkr_order_id r \<noteq> Some j \<Longrightarrow> map_of (bm_client_by_ibkr (snd (store_replaced r m))) j = None"
  using mk_broker_order_record_same [of r] by (auto simp: store_replaced_def bm_store_def Let_def reindex_other split: sum.split)

lemma record_submitted_other:
  assumes "cs_order_map s = Some m" and "map_of (bm_client_by_ibkr m) j = None" and "j \<noteq> k"
  shows "\<exists>m'. cs_order_map (snd (record_submitted_order q k t s)) = Some m' \<and> map_of (bm_client_by_ibkr m') j = None"
proof (cases "iq_internal_account_id q")
  case None
  with assms show ?thesis by (simp add: record_submitted_order_def)
next
  case (Some account)
  have pending: "map_of (bm_client_by_ibkr (snd (record_pending_submission i c account st t m))) j = None" for i c st
    using assms(2) store_other by (auto simp: record_pending_submission_def split: option.split)
  have attach: "map_of (bm_client_by_ibkr n) j = None \<Longrightarrow> map_of (bm_client_by_ibkr (snd (attach_ibkr_order_id c k n))) j = None" for c n
    using assms(3) store_other by (auto simp: attach_ibkr_order_id_def split: sum.split)
  have "map_of (bm_client_by_ibkr (snd (obind (record_pending_submission (iq_internal_order_id q) (iq_client_order_id q) account (iq_strategy_id q) t m)
      (\<lambda>_ m1. attach_ibkr_order_id (iq_client_order_id q) k m1)))) j = None"
    by (rule obind_state [where P = "\<lambda>n. map_of (bm_client_by_ibkr n) j = None"]) (simp_all add: pending attach)
  with Some assms(1) show ?thesis by (auto simp: record_submitted_order_def split: prod.splits)
qed


text \<open>The next id of the client, and that none at or above it is known to the order map.\<close>

definition ids_unused :: "order_client \<Rightarrow> bool" where
  "ids_unused c \<longleftrightarrow> (\<exists>m n. cs_order_map (oc_sink c) = Some m \<and> next_cursor c = Some n \<and> 0 \<le> n \<and>
     (\<forall>k \<ge> n. map_of (bm_client_by_ibkr m) (int_text k) = None))"

lemma place_and_record_effect:
  "place_and_record now q n ct os c = (r, c') \<Longrightarrow>
     oc_placed c' = oc_placed c @ map (\<lambda>(k, x). (k, ct, x)) os \<and> oc_sink c' = snd (record_submitted_order q (int_text n) now (oc_sink c)) \<and>
     r = res_bind (fst (record_submitted_order q (int_text n) now (oc_sink c))) (\<lambda>_. Inr (int_text n))"
  by (auto simp: place_and_record_def Let_def split: prod.splits)

lemma submit_bracket_effect:
  assumes "tws_submit_order now q c = (Inr k, c')" and "iq_order_type q = BRACKET" and "iq_bracket_legs q = Some legs" and "next_cursor c = Some n"
  shows "k = int_text n \<and> oc_sink c' = snd (record_submitted_order q k now (oc_sink c)) \<and>
     map fst (drop (length (oc_placed c)) (oc_placed c')) = map (\<lambda>i. n + int i) [0..<Suc (length legs)]"
proof -
  from assms(1) obtain n1 c1 where r1: "reserve_order_id c = (Inr n1, c1)" by (auto simp: tws_submit_order_def obind_Inr_iff)
  with reserve_order_id_effect [OF r1] assms(4) have e1: "n1 = n" "next_cursor c1 = Some (n + 1)" "oc_sink c1 = oc_sink c" "oc_placed c1 = oc_placed c"
    by auto
  from assms(1-3) obtain kids c2 where r2: "reserve_order_ids (length legs) c1 = (Inr kids, c2)"
    by (auto simp: tws_submit_order_def r1 obind_Inr_iff)
  from reserve_order_ids_effect [OF r2 e1(2)] e1 have e2: "kids = map (\<lambda>i. n + 1 + int i) [0..<length legs]" "oc_sink c2 = oc_sink c"
      "oc_placed c2 = oc_placed c" by auto
  from assms(1-3) obtain ct os where os: "bracket_orders q n kids = Inr os" "place_and_record now q n ct (zip (n # kids) os) c2 = (Inr k, c')"
    by (auto simp: tws_submit_order_def r1 r2 e1 res_bind_Inr_iff split: sum.splits)
  have "length os = Suc (length kids)"
    using os(1) assms(2,3) by (auto simp: bracket_orders_def res_bind_Inr_iff res_map_lengths split: if_splits)
  then have "map fst (zip (n # kids) os) = n # kids" by simp
  moreover have "n # kids = map (\<lambda>i. n + int i) [0..<Suc (length legs)]"
    by (simp add: e2(1) upt_conv_Cons map_Suc_upt [symmetric] del: upt_Suc)
  moreover note p = place_and_record_effect [OF os(2)]
  moreover have "k = int_text n"
    using p [THEN conjunct2, THEN conjunct2, symmetric] by (auto simp: res_bind_Inr_iff)
  ultimately show ?thesis using e2 by (auto simp: case_prod_unfold comp_def)
qed

text \<open>A status of an order the map does not know ends in the quarantine.\<close>

lemma unknown_status_quarantined:
  assumes "mk_order_status_payload p = Inr p" and "cs_order_map s = Some m"
    and "map_of (bm_client_by_ibkr m) (osp_broker_order_id p) = None" and "status_key_of p \<notin> cs_seen_statuses s"
  shows "has_unresolved (snd (on_order_status now p s))"
proof -
  from status_note_ok [OF assms(1) not_inactive_texts(1), of None s] obtain e
    where e: "note_event (plain_note ''ibkr_order_status_received'' (Some (osp_report_id p)) (Some (osp_broker_order_id p)) None None) s =
      (Inr (), s\<lparr>cs_events := e\<rparr>)" by (auto simp: blank_opt_simps)
  have "by_ibkr_order_id (osp_broker_order_id p) m = Inl (KeyError (osp_broker_order_id p))"
    using assms(3) by (simp add: by_ibkr_order_id_def bm_lookup_def)
  then have ms: "map_status now p m = (Inl (KeyError (osp_broker_order_id p)), m)"
    by (simp add: map_status_def attach_perm_id_def split: option.split)
  have quiet: "cs_q_statuses (snd (note_event x t)) = cs_q_statuses t" for x t
    by (simp add: note_event_def split: sum.split)
  show ?thesis using assms(2,4) by (simp add: on_order_status_def Let_def e ms quiet has_unresolved_def)
qed

text \<open>C38. The children of a bracket block new orders. A bracket is submitted with consecutive ids, but only the parent is
  recorded in the order map: the first status the broker sends for any child is quarantined as unknown, and from then on
  the adapter refuses every order.
\<close>

theorem bracket_children_block_orders:
  assumes "tws_submit_order now q c = (Inr k, c')" and "iq_order_type q = BRACKET" and "iq_bracket_legs q = Some legs" and "ids_unused c"
    and "osp_broker_order_id p \<in> int_text ` set (tl (map fst (drop (length (oc_placed c)) (oc_placed c'))))"
    and "mk_order_status_payload p = Inr p" and "status_key_of p \<notin> cs_seen_statuses (oc_sink c')"
    and "ib_callbacks a = snd (on_order_status later p (oc_sink c'))" and "ib_live_check a = Inr ()"
  shows "to_order_request a i client opts = Inl (RuntimeError ''unresolved IBKR callbacks require reconciliation before new orders'')"
proof -
  from assms(4) obtain m n where m: "cs_order_map (oc_sink c) = Some m" "next_cursor c = Some n" "0 \<le> n"
      "\<And>k. n \<le> k \<Longrightarrow> map_of (bm_client_by_ibkr m) (int_text k) = None" by (auto simp: ids_unused_def)
  note s = submit_bracket_effect [OF assms(1-3) m(2)]
  have "tl (map (\<lambda>i. n + int i) [0..<Suc (length legs)]) = map (\<lambda>i. n + 1 + int i) [0..<length legs]"
    by (simp add: upt_conv_Cons map_Suc_upt [symmetric] del: upt_Suc)
  with s assms(5) obtain j where j: "osp_broker_order_id p = int_text j" "n < j" by auto
  have "int_text j \<noteq> k" using s int_text_inj [of n j] j(2) m(3) by auto
  from record_submitted_other [OF m(1) m(4) this, of q now] j(2) obtain m'
    where m': "cs_order_map (oc_sink c') = Some m'" "map_of (bm_client_by_ibkr m') (int_text j) = None" using s by auto
  from unknown_status_quarantined [OF assms(6) m'(1) _ assms(7), of later] m'(2) j(1)
  have "has_unresolved (ib_callbacks a)" by (simp add: assms(8))
  then show ?thesis by (simp add: to_order_request_def assms(9) validate_no_unresolved_def)
qed

text \<open>An order can be live at the broker without being known to the adapter. A request without an internal account id is
  placed first and refused afterwards, when its submission is recorded: the caller sees an error, the broker has the order.
\<close>

theorem unrecorded_order_is_live:
  assumes "iq_internal_account_id q = None" and "cs_order_map (oc_sink c) = Some m" and "iq_order_type q \<noteq> BRACKET"
    and "0 < oc_client_id c" and "next_cursor c = Some n" and "request_contract q = Inr ct"
  shows "\<exists>c'. tws_submit_order now q c = (Inl (ValueError ''internal_account_id is required to record IBKR order mapping''), c') \<and>
     oc_placed c' = oc_placed c @ [(n, ct, to_ib_order q)] \<and> cs_order_map (oc_sink c') = Some m"
  using assms by (simp add: tws_submit_order_def reserve_order_id_def next_id_def allocate_def next_cursor_def place_and_record_def
      record_submitted_order_def Let_def)


section \<open>Waiting for a report\<close>

lemma await_report_splits:
  "await_report ok timeout es seen = (Inr r, rest, seen') \<Longrightarrow>
     \<exists>before. es = before @ ReportEvent r # rest \<and> ok r \<and> list_all (\<lambda>e. case e of ReportEvent x \<Rightarrow> \<not> ok x | _ \<Rightarrow> True) before"
proof (induction ok timeout es seen rule: await_report.induct)
  case (2 ok timeout e es seen)
  then obtain before where "es = before @ ReportEvent r # rest \<and> ok r \<and> list_all (\<lambda>e. case e of ReportEvent x \<Rightarrow> \<not> ok x | _ \<Rightarrow> True) before"
    by (auto split: if_splits)
  then show ?case by (intro exI [of _ "ErrorEvent e # before"]) simp
next
  case (3 ok timeout reason es seen)
  then obtain before where "es = before @ ReportEvent r # rest \<and> ok r \<and> list_all (\<lambda>e. case e of ReportEvent x \<Rightarrow> \<not> ok x | _ \<Rightarrow> True) before" by auto
  then show ?case by (intro exI [of _ "DisconnectEvent reason # before"]) simp
next
  case (4 ok timeout reason es seen)
  then obtain before where "es = before @ ReportEvent r # rest \<and> ok r \<and> list_all (\<lambda>e. case e of ReportEvent x \<Rightarrow> \<not> ok x | _ \<Rightarrow> True) before" by auto
  then show ?case by (intro exI [of _ "ReconnectEvent reason # before"]) simp
next
  case (5 ok timeout x es seen)
  show ?case
  proof (cases "ok x")
    case True
    with 5 show ?thesis by (intro exI [of _ "[]"]) simp
  next
    case False
    with 5 obtain before where "es = before @ ReportEvent r # rest \<and> ok r \<and> list_all (\<lambda>e. case e of ReportEvent x \<Rightarrow> \<not> ok x | _ \<Rightarrow> True) before"
      by auto
    with False show ?thesis by (intro exI [of _ "ReportEvent x # before"]) simp
  qed
qed simp

text \<open>A wait for an order status returns the first report with that order and one of the statuses, and everything published
  before it is gone from the queue for good: the reports of other orders, and fills of the same order whose status was not
  asked for, so a later wait for the fill does not find it.
\<close>

theorem status_wait_discards_earlier_reports:
  assumes "wait_for_order_status k statuses tp = (Inr r, tp')"
  shows "er_broker_order_id r = k \<and> er_status r \<in> set statuses \<and>
     (\<exists>before. tp_reports tp = before @ ReportEvent r # tp_reports tp' \<and>
        list_all (\<lambda>e. case e of ReportEvent x \<Rightarrow> \<not> status_wanted k statuses x | _ \<Rightarrow> True) before)"
proof -
  from assms obtain seen where "await_report (status_wanted k statuses) (TimeoutError ''timed out waiting for IBKR order status.'')
      (tp_reports tp) (tp_seen_errors tp) = (Inr r, tp_reports tp', seen)"
    by (auto simp: wait_for_order_status_def await_in_def split: if_splits prod.splits)
  from await_report_splits [OF this] show ?thesis by (auto simp: status_wanted_def)
qed

section \<open>What the transport publishes\<close>

datatype transport_op = Incoming instant raw_callback | Submit instant ibkr_order_request

fun transport_step :: "transport \<Rightarrow> transport_op \<Rightarrow> transport \<times> unit list" where
  "transport_step tp (Incoming now raw) = (snd (handle_raw now raw tp), [])"
| "transport_step tp (Submit now q) = (snd (transport_submit now q tp), [])"

fun op_valid :: "transport_op \<Rightarrow> bool" where
  "op_valid (Incoming now raw) = True"
| "op_valid (Submit now q) = (mk_ibkr_order_request q = Inr q)"

fun reports_in :: "transport_event list \<Rightarrow> execution_report list" where
  "reports_in [] = []"
| "reports_in (ReportEvent r # es) = r # reports_in es"
| "reports_in (_ # es) = reports_in es"

lemma reports_in_append [simp]: "reports_in (xs @ ys) = reports_in xs @ reports_in ys"
  by (induction xs rule: reports_in.induct) simp_all

lemma reports_in_published [simp]: "reports_in (map ReportEvent rs) = rs"
  by (induction rs) simp_all

abbreviation sink_of :: "transport \<Rightarrow> callback_state" where
  "sink_of tp \<equiv> oc_sink (tp_client tp)"

text \<open>A step of the transport is a run of callbacks of its adapter, and publishes exactly their reports.\<close>

definition follows :: "transport \<Rightarrow> transport \<Rightarrow> bool" where
  "follows tp tp' \<longleftrightarrow> (\<exists>cs ev. list_all callback_valid cs \<and> sink_of tp' = fst (run_steps callback_step (sink_of tp) cs) \<and>
     tp_reports tp' = tp_reports tp @ ev \<and> reports_in ev = snd (run_steps callback_step (sink_of tp) cs))"

lemma follows_quiet: "sink_of tp' = sink_of tp \<Longrightarrow> tp_reports tp' = tp_reports tp @ ev \<Longrightarrow> reports_in ev = [] \<Longrightarrow> follows tp tp'"
  unfolding follows_def by (intro exI [of _ "[]"] exI [of _ ev]) simp

lemma follows_one:
  "callback_valid c \<Longrightarrow> sink_of tp' = fst (callback_step (sink_of tp) c) \<Longrightarrow> tp_reports tp' = tp_reports tp @ map ReportEvent (snd (callback_step (sink_of tp) c)) \<Longrightarrow>
     follows tp tp'"
  unfolding follows_def by (intro exI [of _ "[c]"] exI [of _ "map ReportEvent (snd (callback_step (sink_of tp) c))"]) (simp del: callback_step.simps)

lemma follows_trans: "follows tp t \<Longrightarrow> follows t u \<Longrightarrow> follows tp u"
proof -
  assume "follows tp t" "follows t u"
  then obtain cs ev ds fv where "list_all callback_valid cs" "sink_of t = fst (run_steps callback_step (sink_of tp) cs)"
    "tp_reports t = tp_reports tp @ ev" "reports_in ev = snd (run_steps callback_step (sink_of tp) cs)"
    "list_all callback_valid ds" "sink_of u = fst (run_steps callback_step (sink_of t) ds)"
    "tp_reports u = tp_reports t @ fv" "reports_in fv = snd (run_steps callback_step (sink_of t) ds)"
    unfolding follows_def by blast
  then show ?thesis unfolding follows_def by (intro exI [of _ "cs @ ds"] exI [of _ "ev @ fv"]) (simp add: run_steps_append)
qed

lemma published_sink_follows:
  assumes "\<And>p. payload = Inr p \<Longrightarrow> callback_valid (C p)" and "\<And>p s. callback_step s (C p) = reports_of g (f p s)"
  shows "follows tp (snd (publish_reports g (in_sink f payload tp)))"
proof (cases payload)
  case (Inl e)
  then show ?thesis by (simp add: publish_reports_def in_sink_def follows_quiet)
next
  case (Inr p)
  obtain r s where r: "f p (sink_of tp) = (r, s)" by fastforce
  show ?thesis
    by (rule follows_one [of "C p"])
      (use assms(1) [OF Inr] in \<open>simp_all add: Inr assms(2) r publish_reports_def in_sink_def publish_def reports_of_def obind_def split: sum.split\<close>)
qed

lemma silent_sink_follows:
  assumes "\<And>p. payload = Inr p \<Longrightarrow> callback_valid (C p)" and "\<And>p s. callback_step s (C p) = reports_of (\<lambda>_. []) (f p s)"
  shows "follows tp (snd (in_sink f payload tp))"
proof -
  have "snd (publish_reports (\<lambda>_. []) (in_sink f payload tp)) = snd (in_sink f payload tp)"
    by (simp add: publish_reports_def obind_def publish_def split: prod.split sum.split)
  with published_sink_follows [of payload C "\<lambda>_. []" f tp] assms show ?thesis by simp
qed

lemma raw_follows: "follows tp (snd (handle_raw now raw tp))"
proof (cases raw)
  case (RawOrderStatus n status perm)
  then show ?thesis
    by (auto intro!: published_sink_follows [where C = "StatusCb now"] simp: raw_status_payload_def mk_order_status_payload_def)
next
  case (RawOpenOrder n ro)
  then show ?thesis
    by (auto intro!: silent_sink_follows [where C = "OpenOrderCb now"] simp: raw_open_order_payload_def mk_open_order_payload_def)
next
  case (RawExecution x n shares price account)
  then show ?thesis
    by (auto intro!: published_sink_follows [where C = ExecutionCb] simp: raw_execution_payload_def mk_execution_payload_def)
next
  case (RawCommission x c currency)
  then show ?thesis by (auto intro!: published_sink_follows [where C = CommissionCb] simp: mk_commission_payload_def)
next
  case (RawPosition account symbol quantity)
  then show ?thesis by (auto intro!: silent_sink_follows [where C = PositionCb] simp: mk_position_payload_def)
next
  case (RawAccountSummary account tag v currency)
  then show ?thesis by (auto intro!: silent_sink_follows [where C = SummaryCb] simp: mk_summary_payload_def)
next
  case (NextValidId n)
  have "oc_sink (snd (mark_next_order_id n c)) = oc_sink c" for c by (simp add: mark_next_order_id_def split: prod.split)
  then have "sink_of (snd (handle_raw now raw tp)) = sink_of tp \<and> tp_reports (snd (handle_raw now raw tp)) = tp_reports tp"
    using NextValidId by (auto split: prod.split sum.split dest!: arg_cong [where f = snd])
  then show ?thesis by (intro follows_quiet [where ev = "[]"]) simp_all
qed (auto intro: follows_quiet simp: publish_def)

lemma reserve_sink: "oc_sink (snd (reserve_order_id c)) = oc_sink c"
  by (simp add: reserve_order_id_def split: sum.split option.split prod.split)

lemma reserve_ids_sink: "oc_sink (snd (reserve_order_ids k c)) = oc_sink c"
proof (induction k arbitrary: c)
  case (Suc k)
  show ?case by (auto intro!: obind_state [where P = "\<lambda>t. oc_sink t = oc_sink c"] simp: reserve_sink Suc.IH)
qed simp

definition sink_or_recorded :: "instant \<Rightarrow> ibkr_order_request \<Rightarrow> callback_state \<Rightarrow> order_client \<Rightarrow> bool" where
  "sink_or_recorded now q s c \<longleftrightarrow> oc_sink c = s \<or> (\<exists>k. oc_sink c = snd (record_submitted_order q k now s))"

lemma place_sink: "oc_sink c = s \<Longrightarrow> sink_or_recorded now q s (snd (place_and_record now q n ct os c))"
  by (cases "place_and_record now q n ct os c") (auto simp: sink_or_recorded_def dest: place_and_record_effect)

lemma submit_sink: "sink_or_recorded now q (oc_sink c) (snd (tws_submit_order now q c))"
proof -
  obtain r c1 where r: "reserve_order_id c = (r, c1)" by fastforce
  with reserve_sink [of c] have s1: "oc_sink c1 = oc_sink c" by simp
  obtain r2 c2 where r2: "reserve_order_ids (case iq_bracket_legs q of None \<Rightarrow> 0 | Some legs \<Rightarrow> length legs) c1 = (r2, c2)" by fastforce
  with reserve_ids_sink [of "case iq_bracket_legs q of None \<Rightarrow> 0 | Some legs \<Rightarrow> length legs" c1] s1 have s2: "oc_sink c2 = oc_sink c" by simp
  show ?thesis
    using place_sink [OF s1] place_sink [OF s2]
    by (cases r; cases r2) (auto simp: tws_submit_order_def r r2 sink_or_recorded_def s1 s2 split: sum.split)
qed

lemma submit_follows: "mk_ibkr_order_request q = Inr q \<Longrightarrow> follows tp (snd (transport_submit now q tp))"
proof -
  assume q: "mk_ibkr_order_request q = Inr q"
  obtain r c where rc: "tws_submit_order now q (tp_client tp) = (r, c)" by fastforce
  from submit_sink [of now q "tp_client tp"] consider "oc_sink c = sink_of tp" | k where "oc_sink c = snd (record_submitted_order q k now (sink_of tp))"
    by (auto simp: rc sink_or_recorded_def)
  then show ?thesis
  proof cases
    case 1
    then show ?thesis by (intro follows_quiet [where ev = "[]"]) (simp_all add: transport_submit_def rc)
  next
    case (2 k)
    then show ?thesis
      by (intro follows_one [of "SubmittedCb q k now"]) (simp_all add: q transport_submit_def rc reports_of_def split: sum.split)
  qed
qed

lemma run_follows: "list_all op_valid ops \<Longrightarrow> follows tp (fst (run_steps transport_step tp ops))"
proof (induction ops arbitrary: tp)
  case Nil
  then show ?case by (auto intro: follows_quiet)
next
  case (Cons op ops)
  have "follows tp (fst (transport_step tp op))"
    using Cons.prems raw_follows submit_follows by (cases op) auto
  with Cons show ?case by (auto intro: follows_trans)
qed

text \<open>What the transport publishes carries each fill once. Whatever raw callbacks arrive, well formed or not, in whatever order
  and however often, between whatever submissions, the fills ever put in the queue have pairwise different orders or execution ids.
\<close>

theorem published_fills_once:
  assumes "callbacks_init account symbols m = Inr (oc_sink (tp_client tp))" and "tp_reports tp = []" and "list_all op_valid ops"
  shows "distinct (map fill_key (filter is_fill (reports_in (tp_reports (fst (run_steps transport_step tp ops))))))"
proof -
  from run_follows [OF assms(3), of tp] assms(2) obtain cs where cs: "list_all callback_valid cs"
      "reports_in (tp_reports (fst (run_steps transport_step tp ops))) = snd (run_steps callback_step (sink_of tp) cs)"
    by (auto simp: follows_def)
  from run_books [OF cs(1), of "\<lambda>_. True" "sink_of tp"] init_fills(1) [OF assms(1)] cs(2) show ?thesis
    by (simp add: books_out_def books_def)
qed


section \<open>Permanent ids\<close>

lemma digit_value_range: "digit_value c \<noteq> None \<Longrightarrow> c \<in> set ''0123456789''"
  by (auto simp: digit_value_def split: if_splits)

lemma nat_str_chars: "c \<in> set (nat_str n) \<Longrightarrow> c \<in> set ''0123456789''"
proof -
  assume c: "c \<in> set (nat_str n)"
  have "\<forall>c \<in> set (nat_str n). digit_value c \<noteq> None" using nat_str_digits [of n] by (simp only: list_all_iff)
  from bspec [OF this c] show ?thesis by (rule digit_value_range)
qed

lemma nat_str_no_space: "c \<in> set (nat_str n) \<Longrightarrow> \<not> is_space c"
  using nat_str_chars [of c n] by (auto simp: is_space_def)

lemma int_text_not_blank: "\<not> blank (int_text n)"
  using nat_str_no_space [of "hd (nat_str (nat n))" "nat n"] by (auto simp: blank_iff int_text_def is_space_def)

lemma strip_no_space: "\<forall>c \<in> set s. \<not> is_space c \<Longrightarrow> strip s = s"
proof -
  assume s: "\<forall>c \<in> set s. \<not> is_space c"
  have drop: "dropWhile is_space t = t" if "set t = set s" for t using s that by (cases t) auto
  from drop [of s] drop [of "rev s"] show ?thesis by (simp add: strip_def)
qed

text \<open>The text that identifies a submitted order reads back as its id, so a cancellation reaches that order.\<close>

lemma cancel_reaches_order:
  assumes "0 \<le> n"
  shows "tws_cancel_order (int_text n) c = (Inr (), c\<lparr>oc_cancelled := oc_cancelled c @ [n]\<rparr>)"
proof -
  have "strip (nat_str (nat n)) = nat_str (nat n)" using nat_str_no_space by (blast intro: strip_no_space)
  moreover obtain d ds where d: "nat_str (nat n) = d # ds" by (cases "nat_str (nat n)") simp_all
  moreover have "d \<noteq> CHR ''-''" "d \<noteq> CHR ''+''" using nat_str_chars [of d "nat n"] by (auto simp: d)
  ultimately have "py_int (int_text n) = Inr n" using read_nat_str [of False "nat n"] assms by (simp add: py_int_def int_text_def)
  then show ?thesis using int_text_not_blank [of n] by (simp add: tws_cancel_order_def)
qed

lemma attach_taken_perm:
  assumes "bm_ok m" and "by_ibkr_order_id k m = Inr r" and "by_perm_id perm m = Inr other"
    and "bo_client_order_id other \<noteq> bo_client_order_id r" and "\<not> blank perm"
  shows "attach_perm_id k perm m = (Inl (ValueError ''perm_id already maps to a different client_order_id''), m)"
proof -
  from assms(1) have ok: "records_ok (bm_by_client m)" "index_ok bo_ibkr_order_id (bm_by_client m) (bm_client_by_ibkr m)"
      "index_ok bo_perm_id (bm_by_client m) (bm_client_by_perm m)"
      "index_ok (\<lambda>r. Some (bo_internal_order_id r)) (bm_by_client m) (bm_client_by_internal m)"
    by (simp_all add: bm_ok_def)
  from assms(2) ok(2) obtain c where c: "map_of (bm_by_client m) c = Some r" "bo_ibkr_order_id r = Some k"
    by (auto simp: by_ibkr_order_id_def index_lookup)
  from assms(3) ok(3) obtain d where d: "map_of (bm_by_client m) d = Some other" "bo_perm_id other = Some perm"
    by (auto simp: by_perm_id_def index_lookup)
  have names: "bo_client_order_id r = c" "bo_client_order_id other = d" "mk_broker_order_record r = Inr r"
    using ok(1) c(1) d(1) by (auto simp: records_ok_def)
  have idx: "map_of (bm_client_by_internal m) (bo_internal_order_id r) = Some c" "map_of (bm_client_by_ibkr m) k = Some c"
      "map_of (bm_client_by_perm m) perm = Some d"
    using ok c d by (auto simp: index_ok_def)
  have "mk_broker_order_record (r\<lparr>bo_perm_id := Some perm\<rparr>) = Inr (r\<lparr>bo_perm_id := Some perm\<rparr>)"
    using names(3) assms(5) by (simp add: mk_broker_order_record_def blank_opt_simps split: if_splits)
  with assms(2,4) names idx c(2) show ?thesis
    by (simp add: attach_perm_id_def store_replaced_def bm_store_def Let_def key_taken_def)
qed

text \<open>Orders that have no permanent id yet collide. A status callback with permanent id 0 attaches the text 0 to its order;
  the first status of the next such order is refused by the order map, nothing is published, and its order keeps its old status.
\<close>

theorem zero_permanent_id_collides:
  assumes "cs_order_map (oc_sink (tp_client tp)) = Some m" and "bm_ok m" and "by_ibkr_order_id (int_text n) m = Inr r"
    and "by_perm_id ''0'' m = Inr other" and "bo_client_order_id other \<noteq> bo_client_order_id r" and "\<not> blank status"
    and "(int_text n, status, Some ''0'') \<notin> cs_seen_statuses (oc_sink (tp_client tp))"
  shows "fst (handle_raw now (RawOrderStatus n status (Some 0)) tp) = Inl (ValueError ''perm_id already maps to a different client_order_id'') \<and>
     (let tp' = snd (handle_raw now (RawOrderStatus n status (Some 0)) tp) in
        tp_reports tp' = tp_reports tp \<and> cs_order_map (oc_sink (tp_client tp')) = Some m)"
proof -
  let ?p = "\<lparr>osp_report_id = ''ibkr-status-'' @ int_text n @ ''-'' @ lower status, osp_broker_order_id = int_text n, osp_status = status,
    osp_perm_id = Some ''0''\<rparr>"
  have zero: "int_text 0 = ''0''" "\<not> blank ''0''" by code_simp+
  have "\<not> blank (''ibkr-status-'' @ int_text n @ ''-'' @ lower status)" by (simp add: blank_iff is_space_def)
  then have p: "mk_order_status_payload ?p = Inr ?p" using assms(6) zero(2) int_text_not_blank [of n]
    by (simp add: mk_order_status_payload_def blank_opt_simps)
  then have raw: "raw_status_payload n status (Some 0) = Inr ?p" by (simp add: raw_status_payload_def zero(1))
  from status_note_ok [OF p not_inactive_texts(1), of None "sink_of tp"] obtain e
    where e: "note_event (plain_note ''ibkr_order_status_received'' (Some (osp_report_id ?p)) (Some (osp_broker_order_id ?p)) None None) (sink_of tp) =
      (Inr (), (sink_of tp)\<lparr>cs_events := e\<rparr>)" by (auto simp: blank_opt_simps)
  have "map_status now ?p m = (Inl (ValueError ''perm_id already maps to a different client_order_id''), m)"
    using attach_taken_perm [OF assms(2-5) zero(2)] by (simp add: map_status_def)
  then have "on_order_status now ?p (sink_of tp) = (Inl (ValueError ''perm_id already maps to a different client_order_id''),
      (sink_of tp)\<lparr>cs_events := e, cs_order_map := Some m\<rparr>)"
    using assms(1,7) e by (simp add: on_order_status_def Let_def status_key_of_def)
  then show ?thesis by (simp add: raw publish_reports_def in_sink_def)
qed


section \<open>Concrete runs\<close>

definition sample_bracket :: ibkr_order_request where
  "sample_bracket = \<lparr>iq_internal_order_id = ''O1'', iq_client_order_id = ''C1'', iq_internal_account_id = Some ''A1'', iq_strategy_id = None,
     iq_account_id = ''DU1'', iq_broker_symbol = ''GC'', iq_side = ''buy'', iq_quantity = 2, iq_order_type = BRACKET, iq_time_in_force = DAY,
     iq_limit_price = None,
     iq_bracket_legs = Some [\<lparr>leg_order_type = LIMIT, leg_side = SELL, leg_quantity = 2, leg_limit_price = Some 110, leg_stop_price = None\<rparr>,
       \<lparr>leg_order_type = STOP, leg_side = SELL, leg_quantity = 2, leg_limit_price = None, leg_stop_price = Some 90\<rparr>],
     iq_contract = None, iq_outside_hours = False, iq_what_if = False\<rparr>"

lemma sample_bracket_valid: "mk_ibkr_order_request sample_bracket = Inr sample_bracket"
  by code_simp

definition sample_client :: "broker_order_map option \<Rightarrow> order_client" where
  "sample_client m = \<lparr>oc_client_id = 7, oc_ids = \<lparr>al_next_ids = [(7, 40)], al_store = False, al_file = None\<rparr>,
     oc_sink = sample_callbacks\<lparr>cs_order_map := m\<rparr>, oc_placed = [], oc_cancelled = []\<rparr>"


definition sample_child_status :: order_status_payload where
  "sample_child_status = \<lparr>osp_report_id = ''ibkr-status-41-presubmitted'', osp_broker_order_id = ''41'', osp_status = ''PreSubmitted'', osp_perm_id = Some ''900''\<rparr>"

definition sample_blocked :: ibkr_adapter where
  "sample_blocked = \<lparr>ib_callbacks = snd (on_order_status 5 sample_child_status
       (oc_sink (snd (tws_submit_order 4 sample_bracket (sample_client (Some bm_empty)))))),
     ib_capabilities = default_ibkr_capabilities ''ibkr'', ib_live_capital = None\<rparr>"

theorem bracket_children_block_orders_witness:
  "to_order_request sample_blocked sample_intent ''C2'' sample_options =
     Inl (RuntimeError ''unresolved IBKR callbacks require reconciliation before new orders'')"
proof -
  have sub: "tws_submit_order 4 sample_bracket (sample_client (Some bm_empty)) = (Inr ''40'', snd (tws_submit_order 4 sample_bracket (sample_client (Some bm_empty))))"
    by code_simp
  have child: "osp_broker_order_id sample_child_status \<in> int_text ` set (tl (map fst (drop (length (oc_placed (sample_client (Some bm_empty))))
      (oc_placed (snd (tws_submit_order 4 sample_bracket (sample_client (Some bm_empty))))))))"
    by code_simp
  have fresh: "status_key_of sample_child_status \<notin> cs_seen_statuses (oc_sink (snd (tws_submit_order 4 sample_bracket (sample_client (Some bm_empty)))))"
    by code_simp
  have unused: "ids_unused (sample_client (Some bm_empty))"
    by (simp add: ids_unused_def sample_client_def sample_callbacks_def next_cursor_def bm_empty_def)
  have st: "mk_order_status_payload sample_child_status = Inr sample_child_status" by code_simp
  have "iq_order_type sample_bracket = BRACKET" "iq_bracket_legs sample_bracket = Some (the (iq_bracket_legs sample_bracket))"
    by (simp_all add: sample_bracket_def)
  from bracket_children_block_orders [OF sub this unused child st fresh, of sample_blocked 5] show ?thesis
    by (simp add: sample_blocked_def ib_live_check_def)
qed

theorem unrecorded_order_is_live_witness:
  "\<exists>c'. tws_submit_order 4 (sample_bracket\<lparr>iq_order_type := MARKET, iq_internal_account_id := None\<rparr>) (sample_client (Some bm_empty)) =
       (Inl (ValueError ''internal_account_id is required to record IBKR order mapping''), c') \<and> length (oc_placed c') = 1"
proof -
  let ?q = "sample_bracket\<lparr>iq_order_type := MARKET, iq_internal_account_id := None\<rparr>" and ?c = "sample_client (Some bm_empty)"
  have h: "iq_internal_account_id ?q = None" "cs_order_map (oc_sink ?c) = Some bm_empty" "iq_order_type ?q \<noteq> BRACKET" "0 < oc_client_id ?c"
      "next_cursor ?c = Some 40" "oc_placed ?c = []"
    by (simp_all add: sample_client_def next_cursor_def)
  obtain ct where "request_contract ?q = Inr ct"
    by (simp add: request_contract_def contract_spec_of_def stock_contract_def mk_contract_spec_ibkr_def sample_bracket_def is_space_def
        blank_iff blank_opt_def checked_def)
  from unrecorded_order_is_live [OF h(1-5) this, of 4] h(6) show ?thesis by auto
qed

definition sample_transport :: "transport_event list \<Rightarrow> broker_order_map option \<Rightarrow> transport" where
  "sample_transport es m = \<lparr>tp_client = sample_client m, tp_reports = es, tp_seen_errors = [], tp_managed_accounts = [], tp_ready = True\<rparr>"

theorem status_wait_discards_earlier_reports_witness:
  "wait_for_order_status ''B1'' [RepAccepted] (sample_transport [ReportEvent (sample_fill_report ''R1'' (Some 100)),
       ReportEvent (report_defaults ''R2'' ''B1'' RepAccepted)] None) = (Inr (report_defaults ''R2'' ''B1'' RepAccepted), sample_transport [] None) \<and>
   er_broker_order_id (report_defaults ''R2'' ''B1'' RepAccepted) = ''B1''"
proof -
  have w: "wait_for_order_status ''B1'' [RepAccepted] (sample_transport [ReportEvent (sample_fill_report ''R1'' (Some 100)),
       ReportEvent (report_defaults ''R2'' ''B1'' RepAccepted)] None) = (Inr (report_defaults ''R2'' ''B1'' RepAccepted), sample_transport [] None)"
    by (simp add: wait_for_order_status_def await_in_def status_wanted_def sample_transport_def sample_fill_report_def report_defaults_def
        blank_iff is_space_def)
  with status_wait_discards_earlier_reports [OF w] show ?thesis by simp
qed

definition sample_ops :: "transport_op list" where
  "sample_ops = [Incoming 1 (RawExecution ''X1'' 40 1 100 ''DU1''), Incoming 2 (RawCommission ''X1'' 2 ''USD''), Submit 3 sample_bracket,
     Incoming 4 (RawExecution ''X1'' 40 1 100 ''DU1''), Incoming 5 (RawExecution [] 40 1 100 ''DU1''), Incoming 6 (RawError 1 2104 ''farm'')]"

theorem published_fills_once_witness:
  "let fills = filter is_fill (reports_in (tp_reports (fst (run_steps transport_step (sample_transport [] None) sample_ops))))
   in map fill_key fills = [(''40'', ''X1'')] \<and> distinct (map fill_key fills)"
proof -
  have h: "callbacks_init ''DU1'' sample_symbols None = Inr (oc_sink (tp_client (sample_transport [] None)))"
    by (simp add: sample_transport_def sample_client_def sample_init, simp add: sample_callbacks_def)
  have o': "tp_reports (sample_transport [] None) = []" "list_all op_valid sample_ops"
    using sample_bracket_valid by (simp_all add: sample_transport_def sample_ops_def)
  have "map fill_key (filter is_fill (reports_in (tp_reports (fst (run_steps transport_step (sample_transport [] None) sample_ops))))) = [(''40'', ''X1'')]"
    by code_simp
  with published_fills_once [OF h o'] show ?thesis by (simp only: Let_def simp_thms)
qed

definition sample_two_orders :: broker_order_map where
  "sample_two_orders = fst (run_steps order_map_step bm_empty
     [RecordPending ''O1'' ''C1'' ''A1'' None 1, AttachIbkr ''C1'' ''40'', AttachPerm ''40'' ''0'',
      RecordPending ''O2'' ''C2'' ''A1'' None 2, AttachIbkr ''C2'' ''41''])"

theorem zero_permanent_id_collides_witness:
  "fst (handle_raw 5 (RawOrderStatus 41 ''Submitted'' (Some 0)) (sample_transport [] (Some sample_two_orders))) =
     Inl (ValueError ''perm_id already maps to a different client_order_id'')"
proof -
  have m: "cs_order_map (oc_sink (tp_client (sample_transport [] (Some sample_two_orders)))) = Some sample_two_orders"
    by (simp add: sample_transport_def sample_client_def)
  have ok: "bm_ok sample_two_orders"
    unfolding sample_two_orders_def by (rule order_map.run_keeps [OF bm_ok_empty]) simp
  obtain r other where r: "by_ibkr_order_id (int_text 41) sample_two_orders = Inr r" "by_perm_id ''0'' sample_two_orders = Inr other"
      "bo_client_order_id other \<noteq> bo_client_order_id r"
  proof -
    have "case (by_ibkr_order_id (int_text 41) sample_two_orders, by_perm_id ''0'' sample_two_orders) of
        (Inr r, Inr other) \<Rightarrow> bo_client_order_id other \<noteq> bo_client_order_id r | _ \<Rightarrow> False" by code_simp
    then show thesis using that by (auto split: sum.splits)
  qed
  have rest: "\<not> blank ''Submitted''" "(int_text 41, ''Submitted'', Some ''0'') \<notin> cs_seen_statuses (oc_sink (tp_client (sample_transport [] (Some sample_two_orders))))"
    by (simp_all add: blank_iff is_space_def sample_transport_def sample_client_def sample_callbacks_def)
  from zero_permanent_id_collides [OF m ok r rest] show ?thesis by simp
qed

end
