(* ===== verification/Spec2Isabelle.thy ===== *)
theory Spec2Isabelle
  imports Market_Data_Flow Emergency_Stop Broker_Transport
begin

text \<open>
  A verification library for the trading core of QTS (\<open>backend/src/qts\<close>).

  \<^bold>\<open>The program.\<close> A strategy emits target intents; the runtime turns a target into order
  deltas, asks the risk engine, submits approved orders to an order manager, which hands them to an
  execution adapter; the adapter's reports come back as fills and are booked by the account. In the
  code the order manager, the adapter and the account are actors with mailboxes, one set per account.

  \<^bold>\<open>Theories, in order of import.\<close>
  \<^item> \<open>QTS_Prelude\<close>: exceptions (\<open>exn\<close>), results (\<open>'a res\<close>), methods that mutate and may raise
    (\<open>outcome\<close>: the state survives the exception), Python strings and insertion-ordered dictionaries.
  \<^item> \<open>Decimal_Arith\<close>: \<open>decimal.Decimal\<close> with the default context: rationals, 28 significant digits, half
    even, rounded after every operation (\<open>dadd\<close>, \<open>dmul\<close>, \<open>ddiv\<close>). \<open>rep28\<close> says a number is exactly
    representable, and is the hypothesis of the properties that need exact arithmetic. Exponent limits,
    NaN and infinities are outside the model.
  \<^item> \<open>Domain_Model\<close>: the dataclasses of \<open>domain/\<close> and \<open>core/\<close> with their validating constructors.
  \<^item> \<open>Step_Systems\<close>: step functions and their runs, and three interfaces as locales: \<open>kept_by_steps\<close>
    (invariants), \<open>exactly_once\<close> (no output key twice) and \<open>fifo_queue\<close>.
  \<^item> \<open>Order_Lifecycle\<close>: \<open>execution/order_state_machine.py\<close>, \<open>idempotency.py\<close>, \<open>order_manager.py\<close>. Legal
    histories, the manager's invariant for every reachable state, exactly-once fills, recovery,
    compaction, every branch of a report.
  \<^item> \<open>Portfolio_Holdings\<close> and \<open>Portfolio_Books\<close>: \<open>portfolio/\<close>, \<open>risk/margin\<close>, \<open>risk/intraday_pnl.py\<close>,
    \<open>risk/risk_state.py\<close>. Average-cost and FIFO accounting behind the locale \<open>position_book\<close>; cash behind
    \<open>cash_ledger\<close>; valuation, margin, reservations, intraday windows.
  \<^item> \<open>Risk_Control\<close>: \<open>risk/rules\<close>, \<open>rule_registry.py\<close>, \<open>risk_engine.py\<close>, \<open>kill_switch.py\<close>. Each rule against
    the limit it stands for, the engine as the conjunction of its gates, kill switches.
  \<^item> \<open>Broker_Boundary\<close> and \<open>Simulated_Execution\<close>: \<open>execution/broker.py\<close>, \<open>brokerage_model.py\<close>, the simulated
    adapter and broker. Fills against the bar, totality, unique identifiers; the locale
    \<open>execution_adapter\<close> is what the order manager needs from any adapter.
  \<^item> \<open>Actor_System\<close>: mailboxes, references, supervision. Failure isolation, the restart budget.
  \<^item> \<open>Trading_Actors\<close> and \<open>Order_Flow\<close>: the handlers of the account, execution and order-manager actors.
    Booking, once-only accounting, no execution without approval.
  \<^item> \<open>Future_Roll\<close>: \<open>registry/future_roll.py\<close>. Selections are point in time and never look ahead; the
    first-notice schedule.
  \<^item> \<open>Intent_Processing\<close>: \<open>runtime/intent_processing.py\<close>, \<open>instrument_context.py\<close>, \<open>order_lifecycle.py\<close> and
    the order counter of \<open>session.py\<close>, over a partition of three actor cells.

  \<^item> \<open>Emergency_Stop\<close>: \<open>runtime/safety_controller.py\<close> over the partitions of \<open>Intent_Processing\<close>. The kill switch cancels every
    active order of every account, and what stops it.
  \<^item> \<open>Reconciliation\<close>: \<open>reconciliation/\<close>, \<open>runtime/broker_runtime_reconciliation.py\<close>. The drift report is exactly the difference of the
    two snapshots; the persistent-drift switch. Drift items keep values where the code keeps their text.
  \<^item> \<open>Technical_Indicators\<close>: \<open>indicators/\<close>. \<open>isqrt\<close> and \<open>dsqrt\<close> are the decimal square root; the locales \<open>windowed_indicator\<close> and
    \<open>bounded_indicator\<close> are interpreted on the classes. Ranges, agreement of the incremental updates with the batch definitions.
  \<^item> \<open>Bar_Aggregation\<close>: \<open>data/bars/\<close>, alignment and the synthetic grid. The exchange time zone is the parameter \<open>exchange_zone\<close>.
  \<^item> \<open>Signal_Aggregation\<close>: \<open>runtime/signal_policy.py\<close>, the aggregator actor, the batches of one bar. The raw intents a strategy returns and
    the text of a decision id are parameters.
  \<^item> \<open>Market_Data_Flow\<close>: subscriptions, feed capabilities, permissions, the streaming source, the market data actor and
    \<open>runtime/market_data_flow.py\<close>. What the feed answers (\<open>feed_call\<close>), its provider, time zones and trading windows are parameters.
  \<^item> \<open>Live_Capital\<close>: runtime modes, permissions, the broker runtime configuration, signoff, evidence, the startup checklist and
    gate. The clock is a parameter; JSON values keep decimals and times unrendered.
  \<^item> \<open>Event_Store\<close>: runtime events, sinks, event stores and schema migrations. A file is the list of its records; the hash and the clocks are parameters.
  \<^item> \<open>State_Durability\<close>: snapshot stores behind the locale \<open>snapshot_store\<close>, durable account recovery, the durability drill.
  \<^item> \<open>Runtime_Control\<close>: \<open>runtime/session.py\<close> as a lifecycle machine with its safety controller, rollback, broker lifecycle, supervision,
    control plane and command bus. The hashes, the clock and the rendering of values in events are the parameter \<open>event_world\<close>; the answers of a
    reconnect are an argument; the control plane refers to sessions by reference.
  \<^item> \<open>Broker_Order_Map\<close>: \<open>execution/adapters/ibkr_order_map.py\<close>, \<open>execution/transports/ibkr_order_ids.py\<close>, \<open>registry/broker_symbol_mapping.py\<close>.
    The four indexes agree with the records after any operations; the map survives its snapshot; ids strictly increase over restarts.
  \<^item> \<open>Broker_Callbacks\<close>: the callback normalizers, quarantine, request mapper and adapter of \<open>execution/adapters/\<close>, and
    \<open>broker_execution_adapter.py\<close> over a broker whose three calls are parameters.
  \<^item> \<open>Broker_Fills\<close>: the callbacks as a step system. \<open>books\<close> is the account kept of staged, booked and reported executions: every
    operation keeps it, so each execution becomes a fill exactly once and none is lost; \<open>stuck\<close> is the quarantine that never empties.
  \<^item> \<open>Broker_Transport\<close>: \<open>execution/transports/\<close>. Orders and brackets as they are sent, the order client, the raw callbacks (\<open>handle_raw\<close>)
    and the queue of published events. A step of the transport is a run of callbacks (\<open>follows\<close>), so what is booked once is published once.

  \<^bold>\<open>Loops and fuel.\<close> No definition uses fuel: loops over collections are structural recursions,
  draining a mailbox terminates because handlers cannot put messages into their own mailbox, the waits of the transport consume
  the events delivered before their deadline, the binary search shrinks its interval, filling a gap of bars moves the slot forward, and a migration chain raises the schema version at every hop.

  \<^bold>\<open>Parameters.\<close> The exchange calendar (trading sessions, session offsets), time zones, the multiplier callable, the
  live-capital decision, the clock, hashes, the wrapped broker and what strategies and feeds answer are arguments of the definitions that use them.

  \<^bold>\<open>Not modelled.\<close> Threads and wall-clock waiting; the file system itself (files are values); the TWS client library, its
  sockets and the connection that owns them (the calls on it are recorded); the HTTP API and command-line drivers; report rendering; the research and factor code
  on floating-point data frames; user strategies; manifest payloads, log messages and the text of messages that interpolate
  values.
\<close>

end
